(* ===== verification/Prelude.thy ===== *)
theory Prelude
  imports Main
begin

text \<open>
  Vocabulary shared by every component theory: byte strings, the exceptions the Python code
  raises (as values of a sum type), decimal rendering for the error messages that carry a
  number, and generic facts on lists that the component proofs use.

  A Python function that may raise is a HOL function into \<^typ>\<open>'e + 'a\<close>: \<open>Inl e\<close> is the raised
  exception, \<open>Inr v\<close> the returned value.  Early returns are the branches of an \<open>if\<close> chain in
  the order of the source.
\<close>

named_theorems res_simps \<open>unfolding the result type in functional lemmas\<close>
named_theorems keep_intros \<open>preservation facts: an operation keeps an invariant\<close>

type_synonym bytes = "char list"

datatype errno = ENOENT | EEXIST | EXDEV | ENOTDIR | EISDIR | ENOTEMPTY | ELOOP | EINVAL | EIO | EACCES | EPERM | ENOSPC | ENOSYS | ESRCH

datatype exn =
    ValueError string
  | OSError errno
  | OSMessage string
  | RuntimeError string
  | RecursionError
  | TypeError string
  | KeyError string

type_synonym 'a res = "exn + 'a"

definition is_ok :: "'e + 'a \<Rightarrow> bool" where
  "is_ok r = (case r of Inl _ \<Rightarrow> False | Inr _ \<Rightarrow> True)"

lemma is_ok_simps [simp, res_simps]: "\<not> is_ok (Inl e)" "is_ok (Inr v)"
  by (simp_all add: is_ok_def)

lemma is_okE: "is_ok r \<Longrightarrow> (\<And>v. r = Inr v \<Longrightarrow> P) \<Longrightarrow> P"
  by (cases r) simp_all

definition and_then :: "'e + 'a \<Rightarrow> ('a \<Rightarrow> 'e + 'b) \<Rightarrow> 'e + 'b" where
  "and_then r f = (case r of Inl e \<Rightarrow> Inl e | Inr v \<Rightarrow> f v)"

lemma and_then_simps [simp, res_simps]: "and_then (Inl e) f = Inl e" "and_then (Inr v) f = f v"
  by (simp_all add: and_then_def)

lemma and_then_Inr: "and_then r f = Inr w \<longleftrightarrow> (\<exists>v. r = Inr v \<and> f v = Inr w)"
  by (cases r) simp_all

subsection \<open>Decimal rendering, as in an f-string\<close>

fun nat_str :: "nat \<Rightarrow> string" where
  "nat_str n = (if n < 10 then [char_of (48 + n)] else nat_str (n div 10) @ [char_of (48 + n mod 10)])"

declare nat_str.simps [simp del]

definition int_str :: "int \<Rightarrow> string" where
  "int_str i = (if i < 0 then ''-'' @ nat_str (nat (- i)) else nat_str (nat i))"

lemma nat_str_nonempty [simp]: "nat_str n \<noteq> []"
  by (subst nat_str.simps) simp

lemma nat_str_digits: "c \<in> set (nat_str n) \<Longrightarrow> (of_char c :: nat) \<in> {48..57}"
proof (induction n rule: nat_str.induct)
  case (1 n)
  have d: "n mod 10 < 10" by simp
  from "1.prems" show ?case
    using "1.IH" d by (subst (asm) nat_str.simps) (auto split: if_splits)
qed

subsection \<open>Lists\<close>

lemma take_drop_split: "k \<le> n \<Longrightarrow> take k (drop m xs) @ take (n - k) (drop (m + k) xs) = take n (drop m xs)"
  by (metis add.commute drop_drop le_add_diff_inverse take_add)

lemma drop_append_le: "n \<le> length xs \<Longrightarrow> drop n (xs @ ys) = drop n xs @ ys"
  by simp

lemma take_append_le: "n \<le> length xs \<Longrightarrow> take n (xs @ ys) = take n xs"
  by simp

lemma append_eq_longer:
  assumes "a @ b = c @ d" "length c \<le> length a"
  shows "\<exists>p. a = c @ p \<and> d = p @ b"
proof -
  have "take (length c) (a @ b) = c" by (simp add: assms(1))
  with assms(2) have "a = c @ drop (length c) a" by (metis append_take_drop_id take_append_le)
  with assms(1) show ?thesis by (metis append.assoc same_append_eq)
qed

lemma last_snoc_eq: "xs \<noteq> [] \<Longrightarrow> butlast xs @ [last xs] = xs"
  by simp

lemma distinct_map_filter: "distinct (map f xs) \<Longrightarrow> distinct (map f (filter P xs))"
  by (induction xs) auto

lemma distinct_fst_filter:
  assumes "distinct (map fst xs)" "(k, v) \<in> set xs"
  shows "k \<in> set (map fst (filter P xs)) \<longleftrightarrow> P (k, v)"
proof -
  have uniq: "x = (k, v)" if x: "x \<in> set xs" "fst x = k" for x
  proof -
    from x have "(k, snd x) \<in> set xs" by (metis prod.collapse)
    from eq_key_imp_eq_value [OF assms(1) this assms(2)] x(2) show ?thesis by (metis prod.collapse)
  qed
  have "(\<exists>x \<in> set xs. P x \<and> fst x = k) \<longleftrightarrow> P (k, v)"
  proof
    assume "\<exists>x \<in> set xs. P x \<and> fst x = k"
    then obtain x where "x \<in> set xs" "P x" "fst x = k" by blast
    with uniq [of x] show "P (k, v)" by (simp only:)
  next
    assume "P (k, v)"
    with assms(2) show "\<exists>x \<in> set xs. P x \<and> fst x = k" by (intro bexI [of _ "(k, v)"]) (simp_all only: fst_conv)
  qed
  moreover have "k \<in> set (map fst (filter P xs)) \<longleftrightarrow> (\<exists>x \<in> set xs. P x \<and> fst x = k)" by auto
  ultimately show ?thesis by simp
qed

lemma find_None_ball: "find P xs = None \<longleftrightarrow> (\<forall>x \<in> set xs. \<not> P x)"
  by (auto simp: find_None_iff)

lemma find_SomeD: "find P xs = Some x \<Longrightarrow> x \<in> set xs \<and> P x"
  by (auto simp: find_Some_iff)

lemma find_unique_key:
  assumes "distinct (map f xs)" "x \<in> set xs"
  shows "find (\<lambda>y. f y = f x) xs = Some x"
  using assms by (induction xs) (auto simp: image_iff)

text \<open>The position of the first element that satisfies a predicate, \<open>bytes.find\<close>.\<close>

fun find_index :: "('a \<Rightarrow> bool) \<Rightarrow> 'a list \<Rightarrow> nat option" where
  "find_index P [] = None"
| "find_index P (x # xs) = (if P x then Some 0 else map_option Suc (find_index P xs))"

lemma find_index_None [simp]: "find_index P xs = None \<longleftrightarrow> (\<forall>x \<in> set xs. \<not> P x)"
  by (induction xs) auto

lemma find_index_SomeD:
  "find_index P xs = Some i \<Longrightarrow> i < length xs \<and> P (xs ! i) \<and> (\<forall>j < i. \<not> P (xs ! j))"
proof (induction xs arbitrary: i)
  case (Cons x xs)
  then show ?case
    by (cases "P x") (auto simp: nth_Cons split: nat.splits)
qed simp

lemma find_index_takeWhile:
  "find_index P xs = Some i \<Longrightarrow> takeWhile (\<lambda>x. \<not> P x) xs = take i xs \<and> dropWhile (\<lambda>x. \<not> P x) xs = drop i xs"
  by (induction xs arbitrary: i) (auto split: if_splits)

text \<open>The longest \<open>k \<le> bound\<close> with a property, scanning downwards, as in
  \<open>for size in range(bound, 0, -1): if ...: break\<close>; \<open>0\<close> when none has it.\<close>

fun scan_down :: "(nat \<Rightarrow> bool) \<Rightarrow> nat \<Rightarrow> nat" where
  "scan_down P 0 = 0"
| "scan_down P (Suc n) = (if P (Suc n) then Suc n else scan_down P n)"

lemma scan_down_le: "scan_down P n \<le> n"
  by (induction n) auto

lemma scan_down_holds: "scan_down P n \<noteq> 0 \<Longrightarrow> P (scan_down P n)"
  by (induction n) (auto split: if_splits)

lemma scan_down_eq:
  assumes "P k" "k \<le> n" "\<And>j. k < j \<Longrightarrow> j \<le> n \<Longrightarrow> \<not> P j"
  shows "scan_down P n = k"
  using assms
proof (induction n)
  case (Suc n)
  show ?case
  proof (cases "k = Suc n")
    case True
    with Suc.prems(1) show ?thesis by simp
  next
    case False
    with Suc show ?thesis by simp
  qed
qed simp

text \<open>Python's \<open>xs[i:j]\<close> with its negative and out-of-range indices.\<close>

definition slice_index :: "nat \<Rightarrow> int \<Rightarrow> nat" where
  "slice_index n i = (if i < 0 then nat (max 0 (i + int n)) else nat (min i (int n)))"

definition py_slice :: "'a list \<Rightarrow> int \<Rightarrow> int \<Rightarrow> 'a list" where
  "py_slice xs i j =
     (let lo = slice_index (length xs) i; hi = slice_index (length xs) j in take (hi - lo) (drop lo xs))"

lemma py_slice_nat:
  assumes "0 \<le> i" "0 \<le> n"
  shows "py_slice xs i (i + n) = take (nat n) (drop (nat i) xs)"
proof -
  have a: "slice_index (length xs) i = min (nat i) (length xs)"
    "slice_index (length xs) (i + n) = min (nat i + nat n) (length xs)"
    using assms by (auto simp: slice_index_def nat_add_distrib)
  show ?thesis
  proof (cases "nat i \<le> length xs")
    case True
    have "take (min (nat i + nat n) (length xs) - nat i) (drop (nat i) xs) = take (nat n) (drop (nat i) xs)"
      using True by (auto simp: min_def)
    with True show ?thesis by (simp add: py_slice_def a Let_def)
  qed (simp add: py_slice_def a Let_def)
qed

lemma py_slice_empty: "py_slice xs i i = []"
  by (simp add: py_slice_def Let_def)

text \<open>\<open>s.split(d)\<close> for a one-character separator.\<close>

fun split_on :: "char \<Rightarrow> string \<Rightarrow> string list" where
  "split_on d [] = [[]]"
| "split_on d (c # cs) =
     (if c = d then [] # split_on d cs
      else case split_on d cs of [] \<Rightarrow> [[c]] | w # ws \<Rightarrow> (c # w) # ws)"

lemma split_on_nonempty [simp]: "split_on d s \<noteq> []"
  by (cases s) (auto split: list.split)

text \<open>A dictionary as an association list in insertion order: \<open>d.get(k)\<close>, \<open>d[k] = v\<close>, \<open>d.pop(k, None)\<close>.\<close>

fun dict_set :: "'k \<Rightarrow> 'v \<Rightarrow> ('k \<times> 'v) list \<Rightarrow> ('k \<times> 'v) list" where
  "dict_set k v [] = [(k, v)]"
| "dict_set k v ((j, w) # d) = (if j = k then (j, v) # d else (j, w) # dict_set k v d)"

definition dict_pop :: "'k \<Rightarrow> ('k \<times> 'v) list \<Rightarrow> ('k \<times> 'v) list" where
  "dict_pop k d = filter (\<lambda>e. fst e \<noteq> k) d"

lemma map_of_dict_set [simp]: "map_of (dict_set k v d) j = (if j = k then Some v else map_of d j)"
  by (induction k v d rule: dict_set.induct) auto

lemma map_of_dict_pop [simp]: "map_of (dict_pop k d) j = (if j = k then None else map_of d j)"
  by (induction d) (auto simp: dict_pop_def)

end
