(* ===== verification/Py_Text.thy ===== *)
theory Py_Text
  imports Prelude
begin

text \<open>
  Python text.  A \<open>str\<close> whose characters matter is a list of code points; \<open>str.encode("utf-8")\<close>
  and \<open>bytes.decode("utf-8", errors=...)\<close> are modelled as CPython implements them: the decoder
  replaces each maximal ill-formed subpart, so one function with the units \<open>Some code point\<close>
  and \<open>None\<close> serves the three error handlers \<open>strict\<close>, \<open>ignore\<close> and \<open>replace\<close>.
  Also here: \<open>str.strip\<close> and \<open>str.splitlines(keepends=True)\<close> with Python's sets of white space
  and line boundaries.
\<close>

type_synonym ustr = "nat list"

definition ustr_of :: "string \<Rightarrow> ustr" where
  "ustr_of s = map of_char s"

definition scalar :: "nat \<Rightarrow> bool" where
  "scalar c = (c < 0xD800 \<or> 0xE000 \<le> c \<and> c < 0x110000)"

subsection \<open>Encoding\<close>

definition utf8_units :: "nat \<Rightarrow> nat list" where
  "utf8_units c =
     (if c < 0x80 then [c]
      else if c < 0x800 then [0xC0 + c div 64, 0x80 + c mod 64]
      else if c < 0x10000 then [0xE0 + c div 4096, 0x80 + c div 64 mod 64, 0x80 + c mod 64]
      else [0xF0 + c div 262144, 0x80 + c div 4096 mod 64, 0x80 + c div 64 mod 64, 0x80 + c mod 64])"

definition utf8_char :: "nat \<Rightarrow> bytes" where
  "utf8_char c = map char_of (utf8_units c)"

definition utf8 :: "ustr \<Rightarrow> bytes" where
  "utf8 s = concat (map utf8_char s)"

text \<open>\<open>str.encode("utf-8")\<close> raises \<open>UnicodeEncodeError\<close>, a \<open>ValueError\<close>, on a lone surrogate.\<close>

definition encode_utf8 :: "ustr \<Rightarrow> bytes res" where
  "encode_utf8 s = (if list_all scalar s then Inr (utf8 s) else Inl (ValueError ''surrogates not allowed''))"

lemma utf8_Nil [simp]: "utf8 [] = []"
  by (simp add: utf8_def)

lemma utf8_Cons [simp]: "utf8 (c # s) = utf8_char c @ utf8 s"
  by (simp add: utf8_def)

lemma utf8_append [simp]: "utf8 (s @ t) = utf8 s @ utf8 t"
  by (induction s) simp_all

lemma utf8_char_nonempty [simp]: "utf8_char c \<noteq> []"
  by (simp add: utf8_char_def utf8_units_def)

lemma length_utf8_char: "length (utf8_char c) \<in> {1..4}"
  by (simp add: utf8_char_def utf8_units_def)

lemma length_le_utf8: "length s \<le> length (utf8 s)"
proof (induction s)
  case (Cons c s)
  then show ?case using length_utf8_char [of c] by simp
qed simp

lemma length_utf8_take_mono: "length (utf8 (take k s)) \<le> length (utf8 s)"
  by (metis append_take_drop_id le_add1 length_append utf8_append)

subsection \<open>Decoding\<close>

definition cont :: "nat \<Rightarrow> bool" where
  "cont b = (0x80 \<le> b \<and> b < 0xC0)"

definition second_ok :: "nat \<Rightarrow> nat \<Rightarrow> bool" where
  "second_ok b0 b1 =
     (if b0 = 0xE0 then 0xA0 \<le> b1 \<and> b1 < 0xC0
      else if b0 = 0xED then 0x80 \<le> b1 \<and> b1 < 0xA0
      else if b0 = 0xF0 then 0x90 \<le> b1 \<and> b1 < 0xC0
      else if b0 = 0xF4 then 0x80 \<le> b1 \<and> b1 < 0x90
      else cont b1)"

text \<open>One step at lead byte \<open>b0\<close>: the decoded unit and how many further bytes it uses up.\<close>

definition decode_one :: "nat \<Rightarrow> nat list \<Rightarrow> nat option \<times> nat" where
  "decode_one b0 bs =
     (if b0 < 0x80 then (Some b0, 0)
      else if 0xC2 \<le> b0 \<and> b0 < 0xE0 then
        (case bs of
           b1 # _ \<Rightarrow> if cont b1 then (Some ((b0 - 0xC0) * 64 + (b1 - 0x80)), 1) else (None, 0)
         | [] \<Rightarrow> (None, 0))
      else if 0xE0 \<le> b0 \<and> b0 < 0xF0 then
        (case bs of
           [] \<Rightarrow> (None, 0)
         | b1 # r1 \<Rightarrow>
             if \<not> second_ok b0 b1 then (None, 0)
             else (case r1 of
                [] \<Rightarrow> (None, 1)
              | b2 # _ \<Rightarrow>
                  if cont b2 then (Some ((b0 - 0xE0) * 4096 + (b1 - 0x80) * 64 + (b2 - 0x80)), 2)
                  else (None, 1)))
      else if 0xF0 \<le> b0 \<and> b0 < 0xF5 then
        (case bs of
           [] \<Rightarrow> (None, 0)
         | b1 # r1 \<Rightarrow>
             if \<not> second_ok b0 b1 then (None, 0)
             else (case r1 of
                [] \<Rightarrow> (None, 1)
              | b2 # r2 \<Rightarrow>
                  if \<not> cont b2 then (None, 1)
                  else (case r2 of
                     [] \<Rightarrow> (None, 2)
                   | b3 # _ \<Rightarrow>
                       if cont b3
                       then (Some ((b0 - 0xF0) * 262144 + (b1 - 0x80) * 4096 + (b2 - 0x80) * 64 + (b3 - 0x80)), 3)
                       else (None, 2))))
      else (None, 0))"

fun decode_units :: "nat list \<Rightarrow> nat option list" where
  "decode_units [] = []"
| "decode_units (b # bs) =
     (let (u, k) = decode_one b bs in u # decode_units (drop k bs))"

definition units_of :: "bytes \<Rightarrow> nat option list" where
  "units_of bs = decode_units (map of_char bs)"

definition decode_ignore :: "bytes \<Rightarrow> ustr" where
  "decode_ignore bs = List.map_filter (\<lambda>u. u) (units_of bs)"

definition decode_replace :: "bytes \<Rightarrow> ustr" where
  "decode_replace bs = map (case_option 0xFFFD (\<lambda>c. c)) (units_of bs)"

definition decode_strict :: "bytes \<Rightarrow> ustr res" where
  "decode_strict bs =
     (if None \<in> set (units_of bs) then Inl (ValueError ''invalid utf-8'') else Inr (map the (units_of bs)))"

text \<open>The six-bit groups of a code point, through \<open>q = c div 64\<close>.\<close>

lemma div_4096: "c div 4096 = c div 64 div (64::nat)"
  by (simp add: div_mult2_eq [symmetric])

lemma div_262144: "c div 262144 = c div 64 div 64 div (64::nat)"
  by (simp add: div_mult2_eq [symmetric])

lemma recombine3: "c div 4096 * 4096 + c div 64 mod 64 * 64 + c mod 64 = (c::nat)"
proof -
  have "c div 64 div 64 * 64 + c div 64 mod 64 = c div 64" by (rule div_mult_mod_eq)
  moreover have "c div 64 * 64 + c mod 64 = c" by (rule div_mult_mod_eq)
  ultimately show ?thesis unfolding div_4096 by linarith
qed

lemma recombine4:
  "c div 262144 * 262144 + c div 4096 mod 64 * 4096 + c div 64 mod 64 * 64 + c mod 64 = (c::nat)"
proof -
  have "c div 4096 div 64 * 64 + c div 4096 mod 64 = c div 4096" by (rule div_mult_mod_eq)
  with recombine3 [of c] show ?thesis unfolding div_262144 div_4096 by linarith
qed

lemma second_ok_encode:
  assumes "scalar c" "0x800 \<le> c" "c < 0x10000"
  shows "second_ok (0xE0 + c div 4096) (0x80 + c div 64 mod 64)"
proof -
  define q where "q = c div 64"
  have q: "32 \<le> q" "q < 1024" using assms(2,3) unfolding q_def by linarith+
  have eq: "q div 64 * 64 + q mod 64 = q" by (rule div_mult_mod_eq)
  have m: "q mod 64 < 64" by simp
  have sur: "q div 64 = 13 \<Longrightarrow> q mod 64 < 32"
    using assms(1,2,3) eq unfolding q_def scalar_def by linarith
  consider "q div 64 = 0" | "q div 64 = 13" | "q div 64 \<noteq> 0" "q div 64 \<noteq> 13" by blast
  then show ?thesis
    unfolding div_4096 q_def [symmetric]
  proof cases
    case 1
    with eq q m have "32 \<le> q mod 64" by linarith
    with 1 m show "second_ok (0xE0 + q div 64) (0x80 + q mod 64)" by (simp add: second_ok_def)
  next
    case 2
    with sur show "second_ok (0xE0 + q div 64) (0x80 + q mod 64)" by (simp add: second_ok_def)
  next
    case 3
    moreover from q have "q div 64 < 16" by linarith
    ultimately show "second_ok (0xE0 + q div 64) (0x80 + q mod 64)"
      using m by (simp add: second_ok_def cont_def)
  qed
qed

lemma second_ok_encode4:
  assumes "scalar c" "0x10000 \<le> c"
  shows "second_ok (0xF0 + c div 262144) (0x80 + c div 4096 mod 64)"
proof -
  define q where "q = c div 4096"
  from assms have q: "16 \<le> q" "q < 272" unfolding q_def scalar_def by linarith+
  have d: "c div 262144 = q div 64" unfolding q_def div_262144 div_4096 by (rule refl)
  have eq: "q div 64 * 64 + q mod 64 = q" by (rule div_mult_mod_eq)
  have m: "q mod 64 < 64" by simp
  consider "q div 64 = 0" | "q div 64 = 4" | "q div 64 = 1 \<or> q div 64 = 2 \<or> q div 64 = 3"
    using q by linarith
  then show ?thesis
    unfolding d q_def [symmetric]
  proof cases
    case 1
    with eq q m have "16 \<le> q mod 64" by linarith
    with 1 m show "second_ok (0xF0 + q div 64) (0x80 + q mod 64)" by (simp add: second_ok_def)
  next
    case 2
    with eq q have "q mod 64 < 16" by linarith
    with 2 show "second_ok (0xF0 + q div 64) (0x80 + q mod 64)" by (simp add: second_ok_def)
  next
    case 3
    with m show "second_ok (0xF0 + q div 64) (0x80 + q mod 64)"
      by (auto simp: second_ok_def cont_def)
  qed
qed

lemma utf8_units_cases:
  assumes "scalar c"
  obtains (one) "c < 0x80" "utf8_units c = [c]"
  | (two) "0x80 \<le> c" "c < 0x800" "2 \<le> c div 64" "c div 64 < 32"
      "utf8_units c = [0xC0 + c div 64, 0x80 + c mod 64]"
  | (three) "0x800 \<le> c" "c < 0x10000" "c div 4096 < 16"
      "second_ok (0xE0 + c div 4096) (0x80 + c div 64 mod 64)"
      "utf8_units c = [0xE0 + c div 4096, 0x80 + c div 64 mod 64, 0x80 + c mod 64]"
  | (four) "0x10000 \<le> c" "c div 262144 < 5"
      "second_ok (0xF0 + c div 262144) (0x80 + c div 4096 mod 64)"
      "utf8_units c = [0xF0 + c div 262144, 0x80 + c div 4096 mod 64, 0x80 + c div 64 mod 64, 0x80 + c mod 64]"
proof -
  consider "c < 0x80" | "0x80 \<le> c" "c < 0x800" | "0x800 \<le> c" "c < 0x10000" | "0x10000 \<le> c"
    by linarith
  then show thesis
  proof cases
    case 1
    then show thesis by (intro one) (simp_all add: utf8_units_def)
  next
    case 2
    then have "2 \<le> c div 64" "c div 64 < 32" by linarith+
    with 2 show thesis by (intro two) (simp_all add: utf8_units_def)
  next
    case 3
    then have "c div 4096 < 16" by linarith
    with 3 second_ok_encode [OF assms 3] show thesis
      by (intro three) (simp_all add: utf8_units_def)
  next
    case 4
    with assms have "c div 262144 < 5" unfolding scalar_def by linarith
    with 4 second_ok_encode4 [OF assms 4] show thesis
      by (intro four) (simp_all add: utf8_units_def)
  qed
qed

lemma cont_group [simp]: "cont (128 + c mod 64)"
  by (simp add: cont_def)

lemma decode_one_encode:
  assumes "scalar c" "utf8_units c = b # bs"
  shows "decode_one b (bs @ rest) = (Some c, length bs)"
  using assms(1)
proof (cases c rule: utf8_units_cases)
  case one
  with assms(2) show ?thesis by (simp add: decode_one_def)
next
  case two
  then show ?thesis using assms(2) by (auto simp: decode_one_def)
next
  case three
  then show ?thesis using assms(2) recombine3 [of c] by (auto simp: decode_one_def)
next
  case four
  then show ?thesis using assms(2) recombine4 [of c] by (auto simp: decode_one_def)
qed

lemma units_lt_256: "scalar c \<Longrightarrow> u \<in> set (utf8_units c) \<Longrightarrow> u < 256"
  by (auto simp: utf8_units_def scalar_def split: if_splits)

lemma of_char_utf8_char: "scalar c \<Longrightarrow> map of_char (utf8_char c) = utf8_units c"
  by (auto simp: utf8_char_def intro!: map_idI dest: units_lt_256)

lemma units_of_utf8_Cons:
  assumes "scalar c"
  shows "units_of (utf8_char c @ bs) = Some c # units_of bs"
proof -
  obtain b us where u: "utf8_units c = b # us"
    using assms by (cases c rule: utf8_units_cases) simp_all
  show ?thesis
    using decode_one_encode [OF assms u, of "map of_char bs"]
    by (simp add: units_of_def of_char_utf8_char [OF assms] u)
qed

lemma units_of_utf8: "list_all scalar s \<Longrightarrow> units_of (utf8 s @ bs) = map Some s @ units_of bs"
  by (induction s) (simp_all add: units_of_utf8_Cons)

lemma units_of_Nil [simp]: "units_of [] = []"
  by (simp add: units_of_def)

text \<open>Decoding what was encoded gives the text back.\<close>

lemma decode_strict_utf8: "list_all scalar s \<Longrightarrow> decode_strict (utf8 s) = Inr s"
  using units_of_utf8 [of s "[]"] by (auto simp: decode_strict_def comp_def)

lemma decode_replace_utf8: "list_all scalar s \<Longrightarrow> decode_replace (utf8 s) = s"
  using units_of_utf8 [of s "[]"] by (simp add: decode_replace_def comp_def)

lemma decode_ignore_utf8_append:
  "list_all scalar s \<Longrightarrow> decode_ignore (utf8 s @ bs) = s @ decode_ignore bs"
  by (simp add: decode_ignore_def units_of_utf8 List.map_filter_def comp_def)

lemma map_take: "map f (take n xs) = take n (map f xs)"
  by (rule take_map [symmetric])

text \<open>A proper prefix of one encoded character is one ill-formed subpart.\<close>

lemma units_of_partial:
  assumes "scalar c" "0 < n" "n < length (utf8_char c)"
  shows "units_of (take n (utf8_char c)) = [None]"
proof -
  have len: "length (utf8_char c) = length (utf8_units c)" by (simp add: utf8_char_def)
  have u: "units_of (take n (utf8_char c)) = decode_units (take n (utf8_units c))"
    by (simp add: units_of_def map_take of_char_utf8_char [OF assms(1)])
  show ?thesis
    using assms(1)
  proof (cases c rule: utf8_units_cases)
    case one
    with assms len show ?thesis by simp
  next
    case two
    with assms len have "n = 1" by simp
    with two show ?thesis unfolding u by (simp add: decode_one_def)
  next
    case three
    with assms len have "n = 1 \<or> n = 2" by auto
    with three show ?thesis unfolding u by (auto simp: decode_one_def numeral_2_eq_2)
  next
    case four
    with assms len have "n = 1 \<or> n = 2 \<or> n = 3" by auto
    with four show ?thesis unfolding u by (auto simp: decode_one_def numeral_2_eq_2 numeral_3_eq_3)
  qed
qed

text \<open>How many whole characters of \<open>s\<close> fit into \<open>n\<close> encoded bytes.\<close>

fun fitting :: "nat \<Rightarrow> ustr \<Rightarrow> nat" where
  "fitting n [] = 0"
| "fitting n (c # s) =
     (if length (utf8_char c) \<le> n then Suc (fitting (n - length (utf8_char c)) s) else 0)"

lemma fitting_le: "fitting n s \<le> length s"
  by (induction n s rule: fitting.induct) auto

lemma fitting_bound: "length (utf8 (take (fitting n s) s)) \<le> n"
  by (induction n s rule: fitting.induct) auto

lemma fitting_maximal: "k \<le> length s \<Longrightarrow> length (utf8 (take k s)) \<le> n \<Longrightarrow> k \<le> fitting n s"
proof (induction n s arbitrary: k rule: fitting.induct)
  case (2 n c s)
  then show ?case by (cases k) auto
qed simp

lemma decode_ignore_take:
  "list_all scalar s \<Longrightarrow> decode_ignore (take n (utf8 s)) = take (fitting n s) s"
proof (induction n s rule: fitting.induct)
  case (1 n)
  then show ?case by (simp add: decode_ignore_def List.map_filter_def)
next
  case (2 n c s)
  then have c: "scalar c" and s: "list_all scalar s" by simp_all
  show ?case
  proof (cases "length (utf8_char c) \<le> n")
    case True
    then have "take n (utf8 (c # s)) = utf8 [c] @ take (n - length (utf8_char c)) (utf8 s)"
      by simp
    with True show ?thesis
      using decode_ignore_utf8_append [of "[c]"] "2.IH" [OF True s] c by simp
  next
    case False
    then have t: "take n (utf8 (c # s)) = take n (utf8_char c)" by simp
    show ?thesis
    proof (cases n)
      case 0
      then show ?thesis by (simp add: decode_ignore_def List.map_filter_def)
    next
      case (Suc m)
      with False have "units_of (take n (utf8_char c)) = [None]"
        by (intro units_of_partial [OF c]) simp_all
      with False show ?thesis
        unfolding t by (simp add: decode_ignore_def List.map_filter_def)
    qed
  qed
qed

subsection \<open>White space, lines\<close>

definition is_space :: "nat \<Rightarrow> bool" where
  "is_space c =
     (c \<in> {9..13} \<or> c \<in> {28..32} \<or> c = 0x85 \<or> c = 0xA0 \<or> c = 0x1680 \<or> c \<in> {0x2000..0x200A}
      \<or> c = 0x2028 \<or> c = 0x2029 \<or> c = 0x202F \<or> c = 0x205F \<or> c = 0x3000)"

text \<open>\<open>str.upper\<close> on one code point, exact wherever the result can be part of an allowed name: besides
  the ASCII letters, the dotless i, the long s and the two st ligatures become ASCII.\<close>

definition upper_units :: "nat \<Rightarrow> ustr" where
  "upper_units c =
     (if c \<in> {97..122} then [c - 32] else if c = 0x131 then [73] else if c = 0x17F then [83]
      else if c = 0xFB05 \<or> c = 0xFB06 then [83, 84] else [c])"

definition strip :: "ustr \<Rightarrow> ustr" where
  "strip s = rev (dropWhile is_space (rev (dropWhile is_space s)))"

lemma strip_idem: "strip (strip s) = strip s"
proof -
  define a where "a = dropWhile is_space s"
  define b where "b = strip s"
  have b: "b = rev (dropWhile is_space (rev a))" by (simp add: b_def a_def strip_def)
  have "dropWhile is_space b = b"
  proof (cases b)
    case (Cons c t)
    have "takeWhile is_space (rev a) @ rev b = rev a" by (simp add: b)
    then have "a = b @ rev (takeWhile is_space (rev a))" by (metis rev_append rev_rev_ident)
    with Cons have "hd a = c" "a \<noteq> []" by (metis append_Cons list.sel(1), metis append_Cons list.distinct(1))
    then have "\<not> is_space c" by (metis a_def hd_dropWhile)
    with Cons show ?thesis by simp
  qed simp
  moreover have "dropWhile is_space (rev b) = rev b" by (simp add: b)
  ultimately have "strip b = b" unfolding strip_def [of b] by simp
  then show ?thesis unfolding b_def .
qed

definition is_line_end :: "nat \<Rightarrow> bool" where
  "is_line_end c = (c \<in> {10, 11, 12, 13, 28, 29, 30, 0x85, 0x2028, 0x2029})"

text \<open>\<open>s.splitlines(keepends=True)\<close>: \<open>cur\<close> is the line collected so far; CR LF is one boundary.\<close>

fun split_lines_acc :: "ustr \<Rightarrow> ustr \<Rightarrow> ustr list" where
  "split_lines_acc cur [] = (if cur = [] then [] else [cur])"
| "split_lines_acc cur [c] = [cur @ [c]]"
| "split_lines_acc cur (c # d # s) =
     (if c = 13 \<and> d = 10 then (cur @ [c, d]) # split_lines_acc [] s
      else if is_line_end c then (cur @ [c]) # split_lines_acc [] (d # s)
      else split_lines_acc (cur @ [c]) (d # s))"

definition splitlines_keep :: "ustr \<Rightarrow> ustr list" where
  "splitlines_keep s = split_lines_acc [] s"

lemma concat_split_lines_acc: "concat (split_lines_acc cur s) = cur @ s"
  by (induction cur s rule: split_lines_acc.induct) auto

text \<open>Joining the kept lines gives the text back.\<close>

lemma concat_splitlines_keep [simp]: "concat (splitlines_keep s) = s"
  by (simp add: splitlines_keep_def concat_split_lines_acc)

lemma split_lines_acc_nonempty: "l \<in> set (split_lines_acc cur s) \<Longrightarrow> l \<noteq> []"
  by (induction cur s rule: split_lines_acc.induct) (auto split: if_splits)

lemma splitlines_keep_Nil [simp]: "splitlines_keep s = [] \<longleftrightarrow> s = []"
  by (metis concat.simps(1) concat_splitlines_keep split_lines_acc.simps(1) splitlines_keep_def)

subsection \<open>Replacement and redaction\<close>

text \<open>\<open>s.replace(old, new)\<close> for a non-empty \<open>old\<close>: leftmost, non-overlapping.\<close>

definition starts :: "'a list \<Rightarrow> 'a list \<Rightarrow> bool" where
  "starts old s = (take (length old) s = old)"

lemma starts_Nil [simp]: "starts [] s"
  by (simp add: starts_def)

lemma starts_Cons [simp]: "starts (o1 # old) (c # s) \<longleftrightarrow> o1 = c \<and> starts old s" "\<not> starts (o1 # old) []"
  by (auto simp: starts_def)

lemma starts_iff: "starts old s \<longleftrightarrow> (\<exists>q. s = old @ q)"
  by (metis append_eq_conv_conj append_take_drop_id starts_def)

function replace_all :: "'a list \<Rightarrow> 'a list \<Rightarrow> 'a list \<Rightarrow> 'a list" where
  "replace_all old new [] = []"
| "replace_all old new (c # s) =
     (if old \<noteq> [] \<and> starts old (c # s)
      then new @ replace_all old new (drop (length old) (c # s))
      else c # replace_all old new s)"
  by pat_completeness auto
termination
  by (relation "measure (\<lambda>(old, new, s). length s)") (auto intro: le_imp_less_Suc simp: neq_Nil_conv)

text \<open>\<open>occurs old s\<close>: \<open>old in s\<close>.\<close>

fun occurs :: "'a list \<Rightarrow> 'a list \<Rightarrow> bool" where
  "occurs old [] = (old = [])"
| "occurs old (c # s) = (starts old (c # s) \<or> occurs old s)"

lemma occurs_iff: "occurs old s \<longleftrightarrow> (\<exists>p q. s = p @ old @ q)"
proof (induction s)
  case (Cons c s)
  have "(\<exists>p q. c # s = p @ old @ q) \<longleftrightarrow> (\<exists>q. c # s = old @ q) \<or> (\<exists>p q. s = p @ old @ q)"
    by (metis append_Cons append_Nil list.exhaust list.inject)
  with Cons show ?case by (simp add: starts_iff)
qed simp

lemma occurs_short: "length s < length old \<Longrightarrow> \<not> occurs old s"
  by (auto simp: occurs_iff)

text \<open>A fence character that does not belong to \<open>old\<close> splits the search.\<close>

lemma starts_fence: "f \<notin> set old \<Longrightarrow> starts old (a @ f # b) \<longleftrightarrow> starts old a"
proof (induction old arbitrary: a)
  case (Cons o1 old)
  then show ?case by (cases a) auto
qed simp

lemma occurs_fence:
  assumes "f \<notin> set old" "old \<noteq> []"
  shows "occurs old (a @ f # b) \<longleftrightarrow> occurs old a \<or> occurs old b"
proof (induction a)
  case Nil
  from assms show ?case by (cases old) auto
next
  case (Cons c a)
  then show ?case using starts_fence [OF assms(1), of "c # a" b] by simp
qed

text \<open>When the replacement is fenced by characters foreign to \<open>old\<close> and is too short to hold it, no
  occurrence of \<open>old\<close> survives.\<close>

lemma starts_replace_all:
  "f \<notin> set x \<Longrightarrow> starts x (replace_all old (f # new) s) \<Longrightarrow> starts x s"
proof (induction s arbitrary: x rule: length_induct)
  case (1 s)
  show ?case
  proof (cases s)
    case Nil
    with "1.prems" show ?thesis by simp
  next
    case (Cons c t)
    then show ?thesis using 1 by (cases x) (auto split: if_splits)
  qed
qed

lemma replace_all_removes:
  assumes old: "old \<noteq> []" "f \<notin> set old" "g \<notin> set old" and short: "length mid < length old"
  shows "\<not> occurs old (replace_all old (f # mid @ [g]) s)"
proof (induction s rule: length_induct)
  case (1 s)
  show ?case
  proof (cases s)
    case Nil
    with old show ?thesis by simp
  next
    case (Cons c t)
    show ?thesis
    proof (cases "starts old s")
      case True
      have "length (drop (length old) s) < length s" using old(1) Cons by (cases old) auto
      with 1 have "\<not> occurs old (replace_all old (f # mid @ [g]) (drop (length old) s))" by blast
      moreover have "\<not> occurs old []" using old(1) by simp
      ultimately have "\<not> occurs old ([] @ f # (mid @ g # replace_all old (f # mid @ [g]) (drop (length old) s)))"
        by (metis occurs_fence [OF old(2) old(1)] occurs_fence [OF old(3) old(1)] occurs_short [OF short])
      with True Cons old(1) show ?thesis by simp
    next
      case False
      then have "\<not> starts old (c # replace_all old (f # mid @ [g]) t)"
        using starts_replace_all [of f "tl old" old "mid @ [g]" t] old Cons
        by (cases old) auto
      moreover have "\<not> occurs old (replace_all old (f # mid @ [g]) t)"
        using 1 Cons by simp
      ultimately show ?thesis using False Cons by simp
    qed
  qed
qed

lemma replace_all_absent: "\<not> occurs old s \<Longrightarrow> replace_all old new s = s"
  by (induction s) auto

definition redacted_mark :: ustr where
  "redacted_mark = ustr_of ''[REDACTED]''"

text \<open>\<open>_redact(text, settings)\<close>: \<open>text.replace(settings.path_key, "[REDACTED]") if settings.path_key else text\<close>\<close>

definition redact_key :: "string \<Rightarrow> ustr \<Rightarrow> ustr" where
  "redact_key key s = (if key \<noteq> [] then replace_all (ustr_of key) redacted_mark s else s)"

lemma redact_key_removes:
  assumes "10 \<le> length key" "CHR ''['' \<notin> set key" "CHR '']'' \<notin> set key"
  shows "\<not> occurs (ustr_of key) (redact_key key s)"
proof -
  have m: "redacted_mark = of_char (CHR ''['') # ustr_of ''REDACTED'' @ [of_char (CHR '']'')]"
    by (simp add: redacted_mark_def ustr_of_def)
  have mem: "(of_char c :: nat) \<in> set (ustr_of key) \<longleftrightarrow> c \<in> set key" for c :: char
    by (auto simp: ustr_of_def)
  have "key \<noteq> []" using assms(1) by auto
  moreover have "\<not> occurs (ustr_of key) (replace_all (ustr_of key) redacted_mark s)"
    unfolding m using assms(2,3) assms(1) \<open>key \<noteq> []\<close>
    by (intro replace_all_removes) (simp_all only: mem, simp_all add: ustr_of_def)
  ultimately show ?thesis by (simp add: redact_key_def)
qed

end
