(* ===== verification/Py_Int.thy ===== *)
theory Py_Int
  imports Py_Text
begin

text \<open>
  \<open>int(s)\<close> for a decimal \<open>str\<close>: surrounding white space, a sign, digits with single underscores
  between them, and CPython's limit of 4300 digits.  The decimal value of a code point
  (\<open>unicodedata.decimal\<close>) is the argument \<open>ud\<close>, so that the non-ASCII digits are covered too.
\<close>

definition int_max_str_digits :: nat where
  "int_max_str_digits = 4300"

fun digits_of :: "(nat \<Rightarrow> nat option) \<Rightarrow> bool \<Rightarrow> ustr \<Rightarrow> nat list option" where
  "digits_of ud after_digit [] = (if after_digit then Some [] else None)"
| "digits_of ud after_digit (c # cs) =
     (if c = 95 then (if after_digit then digits_of ud False cs else None)
      else (case ud c of None \<Rightarrow> None | Some d \<Rightarrow> map_option ((#) d) (digits_of ud True cs)))"

definition digits_value :: "nat list \<Rightarrow> nat" where
  "digits_value ds = foldl (\<lambda>a d. 10 * a + d) 0 ds"

definition py_int :: "(nat \<Rightarrow> nat option) \<Rightarrow> ustr \<Rightarrow> int option" where
  "py_int ud s =
     (let t = strip s;
          (neg, r) = (case t of
              c # cs \<Rightarrow> if c = 45 then (True, cs) else if c = 43 then (False, cs) else (False, t)
            | [] \<Rightarrow> (False, []))
      in case digits_of ud False r of
           None \<Rightarrow> None
         | Some ds \<Rightarrow>
             if int_max_str_digits < length ds then None
             else Some (if neg then - int (digits_value ds) else int (digits_value ds)))"

text \<open>Whether \<open>int(s, 16)\<close> accepts \<open>s\<close>: it skips a \<open>0x\<close> prefix, and an underscore after it.\<close>

definition hex_digit :: "(nat \<Rightarrow> nat option) \<Rightarrow> nat \<Rightarrow> nat option" where
  "hex_digit ud c = (if c \<in> {97..102} then Some (c - 87) else if c \<in> {65..70} then Some (c - 55) else ud c)"

definition py_hex_ok :: "(nat \<Rightarrow> nat option) \<Rightarrow> ustr \<Rightarrow> bool" where
  "py_hex_ok ud s =
     (let t = strip s;
          r = (case t of c # cs \<Rightarrow> if c = 45 \<or> c = 43 then cs else t | [] \<Rightarrow> []);
          r' = (if take 1 r = [48] \<and> take 1 (drop 1 r) \<in> {[120], [88]}
                then (if take 1 (drop 2 r) = [95] then drop 3 r else drop 2 r) else r)
      in digits_of (hex_digit ud) False r' \<noteq> None)"

text \<open>The ASCII part of the digit table, which every \<open>ud\<close> agrees with.\<close>

definition ascii_digit :: "nat \<Rightarrow> nat option" where
  "ascii_digit c = (if c \<in> {48..57} then Some (c - 48) else None)"

definition digit_table :: "(nat \<Rightarrow> nat option) \<Rightarrow> bool" where
  "digit_table ud \<longleftrightarrow> (\<forall>c < 128. ud c = ascii_digit c)"

lemma digit_table_ascii: "digit_table ascii_digit"
  by (simp add: digit_table_def)

lemma digits_of_append:
  "digits_of ud True ys = Some bs \<Longrightarrow> digits_of ud b xs = Some as \<Longrightarrow> digits_of ud b (xs @ ys) = Some (as @ bs)"
proof (induction xs arbitrary: b as)
  case Nil
  then show ?case by (auto split: if_splits)
next
  case (Cons x xs)
  then show ?case by (auto split: if_splits option.splits)
qed

lemma nat_str_parses:
  assumes "digit_table ud"
  shows "\<exists>ds. digits_of ud b (ustr_of (nat_str n)) = Some ds \<and> length ds = length (nat_str n) \<and> digits_value ds = n"
proof (induction n arbitrary: b rule: nat_str.induct)
  case (1 n)
  have ud: "ud (48 + d) = Some d" if "d < 10" for d
    using that assms by (simp add: digit_table_def ascii_digit_def)
  have one: "digits_of ud b (ustr_of [char_of (48 + d)]) = Some [d]" if "d < 10" for b d
    using that ud [OF that] by (simp add: ustr_of_def)
  show ?case
  proof (cases "n < 10")
    case True
    then have "nat_str n = [char_of (48 + n)]" by (subst nat_str.simps) simp
    with True one [of n b] show ?thesis by (simp add: digits_value_def)
  next
    case False
    with "1.IH" obtain ds where ds: "digits_of ud b (ustr_of (nat_str (n div 10))) = Some ds"
      "length ds = length (nat_str (n div 10))" "digits_value ds = n div 10" by blast
    have "digits_of ud b (ustr_of (nat_str (n div 10)) @ ustr_of [char_of (48 + n mod 10)]) = Some (ds @ [n mod 10])"
      by (rule digits_of_append [OF one ds(1)]) simp
    moreover have "nat_str n = nat_str (n div 10) @ [char_of (48 + n mod 10)]"
      using False by (subst nat_str.simps) simp
    ultimately show ?thesis
      using ds(2,3) by (auto simp: ustr_of_def digits_value_def)
  qed
qed

lemma nat_str_no_space: "c \<in> set (ustr_of (nat_str n)) \<Longrightarrow> c \<in> {48..57}"
  using nat_str_digits by (auto simp: ustr_of_def)

lemma strip_no_space: "\<forall>c \<in> set s. \<not> is_space c \<Longrightarrow> strip s = s"
  unfolding strip_def
  by (metis dropWhile_eq_self_iff hd_in_set rev_rev_ident set_rev)

lemma strip_trailing: "is_space c \<Longrightarrow> strip (s @ [c]) = strip s"
proof -
  assume c: "is_space c"
  show ?thesis
  proof (cases "\<forall>x \<in> set s. is_space x")
    case True
    then have "dropWhile is_space (s @ [c]) = []" "dropWhile is_space s = []"
      using c by (simp_all only: dropWhile_eq_Nil_conv) auto
    then show ?thesis by (simp only: strip_def)
  next
    case False
    then have "dropWhile is_space (s @ [c]) = dropWhile is_space s @ [c]"
      by (metis dropWhile_append1)
    with c show ?thesis by (simp add: strip_def)
  qed
qed

lemma digit_not_space: "c \<in> {48..57} \<Longrightarrow> \<not> is_space c"
  by (auto simp: is_space_def)

lemma py_int_strip [simp]: "py_int ud (strip s) = py_int ud s"
  by (simp add: py_int_def strip_idem)

lemma py_int_trailing: "is_space c \<Longrightarrow> py_int ud (s @ [c]) = py_int ud s"
  by (simp add: py_int_def strip_trailing)

lemma py_int_nat_str:
  assumes "digit_table ud" "length (nat_str n) \<le> int_max_str_digits"
  shows "py_int ud (ustr_of (nat_str n)) = Some (int n)"
proof -
  have digits: "\<forall>c \<in> set (ustr_of (nat_str n)). c \<in> {48..57}" using nat_str_no_space by blast
  then have s: "strip (ustr_of (nat_str n)) = ustr_of (nat_str n)"
    by (intro strip_no_space) (metis digit_not_space)
  obtain c cs where cc: "ustr_of (nat_str n) = c # cs"
    using nat_str_nonempty [of n] by (cases "ustr_of (nat_str n)") (auto simp: ustr_of_def)
  with digits have "c \<noteq> 45 \<and> c \<noteq> 43" by auto
  moreover obtain ds where "digits_of ud False (ustr_of (nat_str n)) = Some ds"
    "length ds = length (nat_str n)" "digits_value ds = n"
    using nat_str_parses [OF assms(1)] by blast
  ultimately show ?thesis
    using assms(2) cc s [unfolded cc] by (simp add: py_int_def del: digits_of.simps)
qed

lemma length_nat_str_small: "n < 1000 \<Longrightarrow> length (nat_str n) \<le> 3"
  by (subst nat_str.simps, subst nat_str.simps, subst nat_str.simps) auto

lemma length_nat_str_le: "n < 10 ^ Suc k \<Longrightarrow> length (nat_str n) \<le> Suc k"
proof (induction k arbitrary: n)
  case 0
  then show ?case by (subst nat_str.simps) simp
next
  case (Suc k)
  then have "n div 10 < 10 ^ Suc k" by (simp add: div_less_iff_less_mult mult.commute)
  from Suc.IH [OF this] show ?case by (subst nat_str.simps) simp
qed

lemma nat_str_fits: "n < 1000000000000 \<Longrightarrow> length (nat_str n) \<le> int_max_str_digits"
  using length_nat_str_le [of n 11] by (simp add: int_max_str_digits_def)

end
