(* ===== verification/Osc133.thy ===== *)
theory Osc133
  imports Prelude
begin

text \<open>
  The OSC 133 markers of \<open>src/remote_host_mcp/terminal.py\<close>: the marker grammar
  (\<open>_RHMCP_OSC_RE\<close>), removal of every complete marker from a chunk of PTY output
  (\<open>_RHMCP_OSC_RE.sub\<close>), and the split that holds back a marker, or a prefix of one, that the
  chunk cuts off.  The lemmas show that nothing but complete markers is ever removed, that the
  held-back tail is bounded, and that the marker the shell wrapper prints is recognised.
\<close>

definition ESC :: char where "ESC = CHR 0x1B"
definition BEL :: char where "BEL = CHR 0x07"

definition osc_prefix :: bytes where
  "osc_prefix = ESC # '']133;''"

definition osc_tail_max_bytes :: nat where
  "osc_tail_max_bytes = 256"

definition is_digit :: "char \<Rightarrow> bool" where
  "is_digit c = ((of_char c :: nat) \<in> {48..57})"

definition is_hex_lower :: "char \<Rightarrow> bool" where
  "is_hex_lower c = (is_digit c \<or> (of_char c :: nat) \<in> {97..102})"

fun after_prefix :: "bytes \<Rightarrow> bytes \<Rightarrow> bytes option" where
  "after_prefix [] bs = Some bs"
| "after_prefix (p # ps) [] = None"
| "after_prefix (p # ps) (b # bs) = (if p = b then after_prefix ps bs else None)"

record osc_marker =
  kind :: char
  marker_id :: string
  raw_rc :: "string option"

definition match_rc :: "bytes \<Rightarrow> (string \<times> bytes) option" where
  "match_rc bs =
     (let (sign, r) = (case bs of c # cs \<Rightarrow> if c = CHR ''-'' then ([c], cs) else ([], bs) | [] \<Rightarrow> ([], []));
          ds = takeWhile is_digit r
      in case dropWhile is_digit r of
           b # rest \<Rightarrow> if ds \<noteq> [] \<and> b = BEL then Some (sign @ ds, rest) else None
         | [] \<Rightarrow> None)"

text \<open>\<open>_RHMCP_OSC_RE.match\<close> at the head of \<open>bs\<close>: the groups and what follows the match.\<close>

definition match_osc :: "bytes \<Rightarrow> (osc_marker \<times> bytes) option" where
  "match_osc bs =
     (case after_prefix osc_prefix bs of
        None \<Rightarrow> None
      | Some [] \<Rightarrow> None
      | Some (k # r1) \<Rightarrow>
          if k \<noteq> CHR ''C'' \<and> k \<noteq> CHR ''D'' then None
          else (case after_prefix '';id='' r1 of
             None \<Rightarrow> None
           | Some r2 \<Rightarrow>
               let cid = take 24 r2 in
               if length cid \<noteq> 24 \<or> \<not> list_all is_hex_lower cid then None
               else (case drop 24 r2 of
                  [] \<Rightarrow> None
                | b # r3 \<Rightarrow>
                    if b = BEL then Some (\<lparr>kind = k, marker_id = cid, raw_rc = None\<rparr>, r3)
                    else (case after_prefix '';rc='' (b # r3) of
                       None \<Rightarrow> None
                     | Some r4 \<Rightarrow>
                         map_option (\<lambda>(rc, rest). (\<lparr>kind = k, marker_id = cid, raw_rc = Some rc\<rparr>, rest))
                           (match_rc r4)))))"

lemma after_prefix_Some: "after_prefix p bs = Some r \<longleftrightarrow> bs = p @ r"
  by (induction p bs rule: after_prefix.induct) auto

lemma after_prefix_append [simp]: "after_prefix p (p @ r) = Some r"
  by (simp add: after_prefix_Some)

lemma match_rc_length: "match_rc bs = Some (rc, rest) \<Longrightarrow> length rest < length bs"
proof -
  assume m: "match_rc bs = Some (rc, rest)"
  have "length (dropWhile is_digit r) \<le> length r" for r by (rule length_dropWhile_le)
  from this [of bs] this [of "tl bs"] m show ?thesis
    by (auto simp: match_rc_def Let_def split: list.splits if_splits prod.splits)
qed

lemma match_osc_length:
  assumes "match_osc bs = Some (m, rest)"
  shows "length rest < length bs"
proof -
  from assms obtain k r1 r2 b r3 where
    bs: "bs = osc_prefix @ k # '';id='' @ r2" and d: "drop 24 r2 = b # r3"
    and alt: "rest = r3 \<or> (\<exists>r4 rc. b # r3 = '';rc='' @ r4 \<and> match_rc r4 = Some (rc, rest))"
    by (auto simp: match_osc_def Let_def after_prefix_Some split: option.splits list.splits if_splits)
  have "length (b # r3) \<le> length r2" using d by (metis diff_le_self length_drop)
  moreover have "length rest \<le> length (b # r3)" using alt match_rc_length by fastforce
  ultimately show ?thesis by (simp add: bs)
qed

text \<open>\<open>_RHMCP_OSC_RE.sub(consume, combined)\<close>: what is left, and the markers in the order in
  which \<open>consume\<close> sees them.\<close>

function osc_sub :: "bytes \<Rightarrow> bytes \<times> osc_marker list" where
  "osc_sub [] = ([], [])"
| "osc_sub (b # bs) =
     (case match_osc (b # bs) of
        Some (m, rest) \<Rightarrow> (let (out, ms) = osc_sub rest in (out, m # ms))
      | None \<Rightarrow> (let (out, ms) = osc_sub bs in (b # out, ms)))"
  by pat_completeness auto
termination
  by (relation "measure length") (auto dest: match_osc_length)

text \<open>\<open>cleaned.rfind(prefix)\<close>\<close>

fun rfind :: "bytes \<Rightarrow> bytes \<Rightarrow> nat option" where
  "rfind p [] = (if p = [] then Some 0 else None)"
| "rfind p (b # bs) =
     (case rfind p bs of
        Some i \<Rightarrow> Some (Suc i)
      | None \<Rightarrow> if after_prefix p (b # bs) \<noteq> None then Some 0 else None)"

text \<open>The length of the longest proper prefix of the marker prefix that \<open>bs\<close> ends with.\<close>

definition split_prefix_size :: "bytes \<Rightarrow> nat" where
  "split_prefix_size bs =
     scan_down (\<lambda>size. drop (length bs - size) bs = take size osc_prefix)
       (min (length osc_prefix - 1) (length bs))"

text \<open>What is held back as \<open>osc_tail\<close>, first by the incomplete-marker rule, then by the
  split-prefix rule; and the flush of an overlong tail.\<close>

definition hold_back :: "bytes \<Rightarrow> bytes \<times> bytes" where
  "hold_back cleaned =
     (case rfind osc_prefix cleaned of
        Some at \<Rightarrow>
          if BEL \<notin> set (drop at cleaned) then (take at cleaned, drop at cleaned)
          else (let k = length cleaned - split_prefix_size cleaned in (take k cleaned, drop k cleaned))
      | None \<Rightarrow>
          (let k = length cleaned - split_prefix_size cleaned in (take k cleaned, drop k cleaned)))"

definition flush_overlong :: "bytes \<times> bytes \<Rightarrow> bytes \<times> bytes" where
  "flush_overlong ct =
     (let (cleaned, tail) = ct in
      if osc_tail_max_bytes < length tail
      then (let k = length tail - split_prefix_size tail in (cleaned @ take k tail, drop k tail))
      else (cleaned, tail))"

definition strip_osc :: "bytes \<Rightarrow> bytes \<Rightarrow> bytes \<times> bytes \<times> osc_marker list" where
  "strip_osc osc_tail data =
     (let (cleaned, ms) = osc_sub (osc_tail @ data);
          (out, tail) = flush_overlong (hold_back cleaned)
      in (out, tail, ms))"

subsection \<open>Nothing but markers is removed, and the tail is bounded\<close>

lemma hold_back_append: "hold_back cleaned = (out, tail) \<Longrightarrow> out @ tail = cleaned"
  by (auto simp: hold_back_def Let_def split: option.splits if_splits)

lemma flush_overlong_append:
  "flush_overlong (cleaned, tail) = (out, tail') \<Longrightarrow> out @ tail' = cleaned @ tail"
  by (auto simp: flush_overlong_def Let_def split: if_splits)

lemma split_prefix_size_le: "split_prefix_size bs \<le> 5"
proof -
  have "split_prefix_size bs \<le> min (length osc_prefix - 1) (length bs)"
    unfolding split_prefix_size_def by (rule scan_down_le)
  then show ?thesis by (simp add: osc_prefix_def)
qed

lemma flush_overlong_bound: "flush_overlong ct = (out, tail) \<Longrightarrow> length tail \<le> osc_tail_max_bytes"
  using split_prefix_size_le [of "snd ct"]
  by (auto simp: flush_overlong_def Let_def osc_tail_max_bytes_def split: prod.splits if_splits)

lemma strip_osc_conserves:
  assumes "strip_osc tail data = (out, tail', ms)"
  shows "out @ tail' = fst (osc_sub (tail @ data))"
proof -
  obtain cleaned ms' where sub: "osc_sub (tail @ data) = (cleaned, ms')" by fastforce
  obtain c t where hb: "hold_back cleaned = (c, t)" by fastforce
  from assms have fl: "flush_overlong (c, t) = (out, tail')"
    by (auto simp: strip_osc_def sub hb split: prod.splits)
  show ?thesis
    using hold_back_append [OF hb] flush_overlong_append [OF fl] by (simp add: sub)
qed

lemma strip_osc_tail_bound: "strip_osc tail data = (out, tail', ms) \<Longrightarrow> length tail' \<le> osc_tail_max_bytes"
  by (auto simp: strip_osc_def split: prod.splits dest: flush_overlong_bound)

subsection \<open>Text without an escape character passes through\<close>

lemma match_osc_needs_ESC: "b \<noteq> ESC \<Longrightarrow> match_osc (b # bs) = None"
  by (simp add: match_osc_def osc_prefix_def)

lemma osc_sub_plain_append:
  "ESC \<notin> set pre \<Longrightarrow> osc_sub (pre @ bs) = (let (out, ms) = osc_sub bs in (pre @ out, ms))"
  by (induction pre) (auto simp: match_osc_needs_ESC split: prod.splits)

lemma osc_sub_plain: "ESC \<notin> set bs \<Longrightarrow> osc_sub bs = (bs, [])"
  using osc_sub_plain_append [of bs "[]"] by simp

lemma rfind_plain: "ESC \<notin> set bs \<Longrightarrow> rfind osc_prefix bs = None"
  by (induction bs) (auto simp: osc_prefix_def)

lemma split_prefix_size_plain:
  assumes "ESC \<notin> set bs"
  shows "split_prefix_size bs = 0"
proof (rule ccontr)
  assume n: "split_prefix_size bs \<noteq> 0"
  let ?n = "split_prefix_size bs"
  have "drop (length bs - ?n) bs = take ?n osc_prefix"
    using n unfolding split_prefix_size_def by (rule scan_down_holds)
  moreover have "ESC \<in> set (take ?n osc_prefix)"
    using n by (cases ?n) (simp_all add: osc_prefix_def)
  ultimately show False using assms by (metis in_set_dropD)
qed

lemma strip_osc_plain: "ESC \<notin> set data \<Longrightarrow> strip_osc [] data = (data, [], [])"
  by (simp add: strip_osc_def osc_sub_plain hold_back_def rfind_plain split_prefix_size_plain
      flush_overlong_def)

subsection \<open>The marker printed by the shell wrapper is recognised\<close>

definition done_marker :: "string \<Rightarrow> nat \<Rightarrow> bytes" where
  "done_marker cid rc = osc_prefix @ ''D;id='' @ cid @ '';rc='' @ nat_str rc @ [BEL]"

lemma done_marker_nonempty [simp]: "done_marker cid rc \<noteq> []"
  by (simp add: done_marker_def osc_prefix_def)

definition valid_command_id :: "string \<Rightarrow> bool" where
  "valid_command_id cid = (length cid = 24 \<and> list_all is_hex_lower cid)"

lemma nat_str_is_digit: "c \<in> set (nat_str n) \<Longrightarrow> is_digit c"
  using nat_str_digits by (simp add: is_digit_def)

lemma BEL_not_digit: "\<not> is_digit BEL"
  by (simp add: is_digit_def BEL_def)

lemma dash_not_digit: "\<not> is_digit (CHR ''-'')"
  by (simp add: is_digit_def)

lemma match_rc_nat_str: "match_rc (nat_str n @ BEL # rest) = Some (nat_str n, rest)"
proof -
  obtain c cs where c: "nat_str n = c # cs" using nat_str_nonempty [of n] by (cases "nat_str n") auto
  then have "is_digit c" using nat_str_is_digit [of c n] by simp
  then have "c \<noteq> CHR ''-''" using dash_not_digit by auto
  moreover have "takeWhile is_digit (nat_str n @ BEL # rest) = nat_str n"
    "dropWhile is_digit (nat_str n @ BEL # rest) = BEL # rest"
    by (simp_all add: takeWhile_append2 dropWhile_append2 nat_str_is_digit BEL_not_digit)
  ultimately show ?thesis
    by (simp add: match_rc_def c)
qed

lemma match_osc_done_marker:
  assumes "valid_command_id cid"
  shows "match_osc (done_marker cid rc @ rest)
    = Some (\<lparr>kind = CHR ''D'', marker_id = cid, raw_rc = Some (nat_str rc)\<rparr>, rest)"
proof -
  have "done_marker cid rc @ rest =
      osc_prefix @ CHR ''D'' # '';id='' @ cid @ CHR '';'' # ''rc='' @ nat_str rc @ BEL # rest"
    by (simp add: done_marker_def)
  moreover have "CHR '';'' \<noteq> BEL" by (simp add: BEL_def)
  ultimately show ?thesis
    using assms match_rc_nat_str [of rc rest]
    by (simp add: match_osc_def valid_command_id_def after_prefix_Some)
qed

lemma osc_sub_done_marker:
  assumes "valid_command_id cid"
  shows "osc_sub (done_marker cid rc @ rest) =
    (let (out, ms) = osc_sub rest in
      (out, \<lparr>kind = CHR ''D'', marker_id = cid, raw_rc = Some (nat_str rc)\<rparr> # ms))"
proof -
  obtain b bs where b: "done_marker cid rc @ rest = b # bs"
    by (simp add: done_marker_def osc_prefix_def)
  show ?thesis
    using match_osc_done_marker [OF assms, of rc rest] unfolding b by (simp split: prod.splits)
qed


subsection \<open>Chunking does not matter to a marker\<close>

text \<open>The PTY delivers its output in arbitrary chunks; \<open>osc_stream\<close> is what the session makes of
  them, given the tail held back so far.\<close>

fun osc_stream :: "bytes \<Rightarrow> bytes list \<Rightarrow> bytes \<times> bytes \<times> osc_marker list" where
  "osc_stream t [] = ([], t, [])"
| "osc_stream t (d # ds) =
     (if d = [] then osc_stream t ds
      else (let (out, t', ms) = strip_osc t d; (out2, t2, ms2) = osc_stream t' ds
            in (out @ out2, t2, ms @ ms2)))"

lemma strip_osc_joined: "strip_osc t d = strip_osc [] (t @ d)"
  by (simp add: strip_osc_def)

lemma match_osc_needs_BEL: "match_osc bs = Some (m, rest) \<Longrightarrow> BEL \<in> set bs"
proof -
  assume m: "match_osc bs = Some (m, rest)"
  have rc: "BEL \<in> set r" if "match_rc r = Some (x, y)" for r x y
  proof -
    from that have "BEL \<in> set (dropWhile is_digit r) \<or> BEL \<in> set (dropWhile is_digit (tl r))"
      by (auto simp: match_rc_def Let_def split: list.splits if_splits prod.splits)
    then show ?thesis by (metis list.set_sel(2) set_dropWhileD tl_Nil)
  qed
  from m obtain k r2 b r3 where bs: "bs = osc_prefix @ k # '';id='' @ r2" and d: "drop 24 r2 = b # r3"
    and alt: "b = BEL \<or> (\<exists>r4 rc. b # r3 = '';rc='' @ r4 \<and> match_rc r4 = Some (rc, rest))"
    by (auto simp: match_osc_def Let_def after_prefix_Some split: option.splits list.splits if_splits)
  from alt rc have "BEL \<in> set (b # r3)" by fastforce
  then have "BEL \<in> set r2" using d by (metis in_set_dropD)
  then show ?thesis by (simp add: bs)
qed

lemma done_marker_chars:
  assumes "valid_command_id cid"
  shows "\<exists>r. done_marker cid rc = ESC # r @ [BEL] \<and> ESC \<notin> set r \<and> BEL \<notin> set r"
proof -
  have hex: "c \<noteq> ESC \<and> c \<noteq> BEL" if "is_hex_lower c" for c
    using that by (auto simp: is_hex_lower_def is_digit_def ESC_def BEL_def)
  have "\<forall>c \<in> set cid. c \<noteq> ESC \<and> c \<noteq> BEL"
    using assms hex by (auto simp: valid_command_id_def list_all_iff)
  moreover have "\<forall>c \<in> set (nat_str rc). c \<noteq> ESC \<and> c \<noteq> BEL"
    using nat_str_is_digit hex unfolding is_hex_lower_def by blast
  ultimately have "ESC \<notin> set ('']133;'' @ ''D;id='' @ cid @ '';rc='' @ nat_str rc)
      \<and> BEL \<notin> set ('']133;'' @ ''D;id='' @ cid @ '';rc='' @ nat_str rc)"
    by (auto simp: ESC_def BEL_def)
  then show ?thesis
    by (intro exI [of _ "'']133;'' @ ''D;id='' @ cid @ '';rc='' @ nat_str rc"])
      (simp add: done_marker_def osc_prefix_def)
qed

lemma rfind_plain_append:
  "ESC \<notin> set a \<Longrightarrow> rfind osc_prefix (a @ b) = map_option ((+) (length a)) (rfind osc_prefix b)"
proof (induction a)
  case (Cons c a)
  then show ?case by (cases "rfind osc_prefix b") (auto simp: osc_prefix_def)
next
  case Nil
  show ?case by (cases "rfind osc_prefix b") simp_all
qed

lemma split_prefix_size_cut:
  assumes "ESC \<notin> set a" "m = take k osc_prefix" "1 \<le> k" "k \<le> 5"
  shows "split_prefix_size (a @ m) = k"
proof -
  have len: "length m = k" using assms by (simp add: osc_prefix_def)
  show ?thesis
    unfolding split_prefix_size_def
  proof (rule scan_down_eq)
    show "drop (length (a @ m) - k) (a @ m) = take k osc_prefix" using len assms(2) by simp
    show "k \<le> min (length osc_prefix - 1) (length (a @ m))" using len assms(4) by (simp add: osc_prefix_def)
  next
    fix j assume j: "k < j" "j \<le> min (length osc_prefix - 1) (length (a @ m))"
    then have "length (a @ m) - j < length a" using len by auto
    then obtain c q where "drop (length (a @ m) - j) a = c # q" "c \<in> set a"
      by (metis Cons_nth_drop_Suc nth_mem)
    moreover have "length m - j = 0" using j len by simp
    ultimately have "drop (length (a @ m) - j) (a @ m) = c # q @ m" "c \<noteq> ESC"
      using assms(1) by (simp_all only: drop_append length_append) auto
    moreover have "take j osc_prefix = ESC # take (j - 1) '']133;''" using j by (cases j) (auto simp: osc_prefix_def)
    ultimately show "drop (length (a @ m) - j) (a @ m) \<noteq> take j osc_prefix" by simp
  qed
qed

lemma strip_osc_cut:
  assumes cid: "valid_command_id cid" and rc: "length (nat_str rc) \<le> 200" and a: "ESC \<notin> set a"
    and M: "done_marker cid rc = m1 @ m2" "m1 \<noteq> []" "m2 \<noteq> []"
  shows "strip_osc [] (a @ m1) = (a, m1, [])"
proof -
  obtain r where r: "done_marker cid rc = ESC # r @ [BEL]" "ESC \<notin> set r" "BEL \<notin> set r"
    using done_marker_chars [OF cid] by blast
  obtain q where m1: "m1 = ESC # q" and q: "ESC \<notin> set q" "BEL \<notin> set q"
  proof -
    from M r obtain q where "m1 = ESC # q" "q @ m2 = r @ [BEL]" by (cases m1) auto
    moreover from this M(3) have "set q \<subseteq> set r"
      by (metis append_butlast_last_id append_assoc butlast_append butlast_snoc set_append Un_upper1)
    ultimately show thesis using that r by blast
  qed
  have "ESC \<noteq> BEL" by (simp add: ESC_def BEL_def)
  with m1 q have "match_osc m1 = None"
    by (metis match_osc_needs_BEL not_None_eq set_ConsD surj_pair)
  then have sub: "osc_sub (a @ m1) = (a @ m1, [])"
    using q by (simp add: osc_sub_plain_append [OF a] m1 osc_sub_plain)
  have small: "\<not> osc_tail_max_bytes < length m1"
  proof -
    have "length m1 \<le> length (done_marker cid rc)" by (simp add: M)
    with rc cid show ?thesis
      by (simp add: done_marker_def osc_prefix_def valid_command_id_def osc_tail_max_bytes_def)
  qed
  have rf: "rfind osc_prefix m1 = (if after_prefix osc_prefix m1 \<noteq> None then Some 0 else None)"
    using q by (simp add: m1 rfind_plain)
  have "hold_back (a @ m1) = (a, m1)"
  proof (cases "after_prefix osc_prefix m1 \<noteq> None")
    case True
    with rf \<open>ESC \<noteq> BEL\<close> q show ?thesis
      by (simp add: hold_back_def rfind_plain_append [OF a] m1)
  next
    case False
    have "m1 = take (length m1) osc_prefix \<and> length m1 \<le> 5"
    proof -
      have pre: "m1 @ m2 = osc_prefix @ ''D;id='' @ cid @ '';rc='' @ nat_str rc @ [BEL]"
        using M(1) by (simp add: done_marker_def)
      then have "\<not> length osc_prefix \<le> length m1"
        using False by (metis after_prefix_append append_eq_append_conv_if append_take_drop_id option.distinct(1))
      moreover from this pre have "m1 = take (length m1) osc_prefix"
        by (metis append_eq_append_conv_if linorder_le_cases)
      ultimately show ?thesis by (simp add: osc_prefix_def)
    qed
    then have "split_prefix_size (a @ m1) = length m1"
      using split_prefix_size_cut [OF a, of m1 "length m1"] M(2) by (simp add: Suc_le_eq)
    with False rf show ?thesis by (simp add: hold_back_def rfind_plain_append [OF a])
  qed
  with sub small show ?thesis by (simp add: strip_osc_def flush_overlong_def)
qed

lemma strip_osc_whole:
  assumes cid: "valid_command_id cid" and "ESC \<notin> set a" "ESC \<notin> set b"
  shows "strip_osc [] (a @ done_marker cid rc @ b) =
    (a @ b, [], [\<lparr>kind = CHR ''D'', marker_id = cid, raw_rc = Some (nat_str rc)\<rparr>])"
proof -
  have "osc_sub (a @ done_marker cid rc @ b) =
      (a @ b, [\<lparr>kind = CHR ''D'', marker_id = cid, raw_rc = Some (nat_str rc)\<rparr>])"
    using assms by (simp add: osc_sub_plain_append osc_sub_done_marker osc_sub_plain)
  with assms show ?thesis
    by (simp add: strip_osc_def hold_back_def rfind_plain split_prefix_size_plain flush_overlong_def)
qed

lemma osc_stream_plain: "ESC \<notin> set (concat ds) \<Longrightarrow> osc_stream [] ds = (concat ds, [], [])"
  by (induction ds) (auto simp: strip_osc_plain)

lemma osc_stream_inside:
  assumes cid: "valid_command_id cid" and rc: "length (nat_str rc) \<le> 200"
    and "done_marker cid rc = m1 @ m2" "m1 \<noteq> []" "m2 \<noteq> []" "ESC \<notin> set post" "concat ds = m2 @ post"
  shows "osc_stream m1 ds = (post, [], [\<lparr>kind = CHR ''D'', marker_id = cid, raw_rc = Some (nat_str rc)\<rparr>])"
  using assms(3-)
proof (induction ds arbitrary: m1 m2)
  case (Cons d ds)
  show ?case
  proof (cases "length d < length m2")
    case True
    then obtain m3 where m3: "m2 = d @ m3" "m3 \<noteq> []" "concat ds = m3 @ post"
      using Cons.prems(5) by (auto simp: append_eq_append_conv2)
    have "osc_stream (m1 @ d) ds = (post, [], [\<lparr>kind = CHR ''D'', marker_id = cid, raw_rc = Some (nat_str rc)\<rparr>])"
      using Cons.prems m3 by (intro Cons.IH [of _ m3]) auto
    moreover have "strip_osc m1 d = ([], m1 @ d, [])"
      using strip_osc_cut [OF cid rc, of "[]" "m1 @ d" m3] Cons.prems m3 strip_osc_joined [of m1 d] by simp
    ultimately show ?thesis by auto
  next
    case False
    then obtain p where p: "d = m2 @ p" "post = p @ concat ds"
      using Cons.prems(5) by (auto simp: append_eq_append_conv2)
    have "strip_osc m1 d = (p, [], [\<lparr>kind = CHR ''D'', marker_id = cid, raw_rc = Some (nat_str rc)\<rparr>])"
      using strip_osc_whole [OF cid, of "[]" p rc] Cons.prems p strip_osc_joined [of m1 d] by auto
    with p Cons.prems show ?thesis by (auto simp: osc_stream_plain)
  qed
qed simp

lemma osc_stream_marker:
  assumes cid: "valid_command_id cid" and rc: "length (nat_str rc) \<le> 200"
    and "ESC \<notin> set pre" "ESC \<notin> set post" "concat ds = pre @ done_marker cid rc @ post"
  shows "osc_stream [] ds =
    (pre @ post, [], [\<lparr>kind = CHR ''D'', marker_id = cid, raw_rc = Some (nat_str rc)\<rparr>])"
  using assms(3-)
proof (induction ds arbitrary: pre)
  case Nil
  then show ?case by (simp add: done_marker_def osc_prefix_def)
next
  case (Cons d ds)
  let ?M = "done_marker cid rc" and ?mk = "[\<lparr>kind = CHR ''D'', marker_id = cid, raw_rc = Some (nat_str rc)\<rparr>]"
  consider (before) p where "pre = d @ p" "concat ds = p @ ?M @ post"
    | (cut) m1 m2 where "d = pre @ m1" "?M = m1 @ m2" "m1 \<noteq> []" "m2 \<noteq> []" "concat ds = m2 @ post"
    | (past) p where "d = pre @ ?M @ p" "post = p @ concat ds"
  proof -
    have eq: "d @ concat ds = pre @ ?M @ post" using Cons.prems by simp
    show thesis
    proof (cases "length d \<le> length pre")
      case True
      with before append_eq_longer [OF eq [symmetric]] show thesis by blast
    next
      case False
      with append_eq_longer [OF eq] obtain m1 where m1: "d = pre @ m1" "?M @ post = m1 @ concat ds" by auto
      with False have ne: "m1 \<noteq> []" by auto
      show thesis
      proof (cases "length m1 < length ?M")
        case True
        with append_eq_longer [OF m1(2)] obtain m2 where m2: "?M = m1 @ m2" "concat ds = m2 @ post" by auto
        with True have "m2 \<noteq> []" by auto
        with m1 m2 ne cut show thesis by blast
      next
        case False
        with append_eq_longer [OF m1(2) [symmetric]] m1 past show thesis by auto
      qed
    qed
  qed
  then show ?case
  proof cases
    case before
    then have "osc_stream [] ds = (p @ post, [], ?mk)" using Cons by simp
    with before Cons.prems show ?thesis by (auto simp: strip_osc_plain)
  next
    case cut
    have "osc_stream m1 ds = (post, [], ?mk)"
      using cut Cons.prems(2) by (intro osc_stream_inside [OF cid rc]) auto
    moreover have "strip_osc [] d = (pre, m1, [])"
      using strip_osc_cut [OF cid rc, of pre m1 m2] cut Cons.prems by simp
    ultimately show ?thesis using cut by simp
  next
    case past
    have "strip_osc [] d = (pre @ p, [], ?mk)"
      using strip_osc_whole [OF cid, of pre p rc] past Cons.prems by simp
    with past Cons.prems show ?thesis by (auto simp: osc_stream_plain)
  qed
qed

end
