(* ===== verification/Config.thy ===== *)
theory Config
  imports Prelude
begin

text \<open>
  \<open>src/remote_host_mcp/config.py\<close>: the settings record every component reads.  Paths are lists of
  components (the root is \<open>[]\<close>); numbers are Python's unbounded integers.
\<close>

type_synonym path = "string list"

text \<open>\<open>str(path)\<close> of an absolute path.\<close>

definition path_str :: "path \<Rightarrow> string" where
  "path_str p = (if p = [] then ''/'' else concat (map (\<lambda>c. CHR ''/'' # c) p))"

record settings =
  path_key :: string
  public_host :: string
  bind_host :: string
  port :: int
  default_timeout_ms :: int
  max_timeout_ms :: int
  max_command_bytes :: int
  max_output_bytes :: int
  kill_grace_ms :: int
  allowed_roots :: "path list"
  state_dir :: path
  max_file_chunk_bytes :: int
  max_transfer_bytes :: int
  upload_ttl_seconds :: int
  max_jobs :: int
  job_max_timeout_ms :: int
  job_log_max_bytes :: int
  job_read_max_bytes :: int
  job_retention_seconds :: int
  job_heartbeat_seconds :: int
  terminal_max_sessions :: int
  terminal_buffer_bytes :: int
  terminal_read_max_bytes :: int
  terminal_idle_seconds :: int
  terminal_max_lifetime_seconds :: int
  terminal_wait_max_ms :: int
  terminal_osc133_enabled :: bool
  tasks_extension_enabled :: bool
  auth_mode :: string
  oauth_issuer :: "string option"
  oauth_jwks_url :: "string option"
  oauth_audience :: "string option"
  oauth_scopes :: "string list"
  oauth_algorithms :: "string list"
  json_response :: bool
  stateless_http :: bool
  max_request_body_bytes :: int

text \<open>The settings \<open>from_env\<close> builds when nothing but the path key, the public host, the roots and the
  state directory is configured.\<close>

definition default_settings :: "string \<Rightarrow> string \<Rightarrow> path list \<Rightarrow> path \<Rightarrow> settings" where
  "default_settings key host roots state =
     \<lparr>path_key = key, public_host = host, bind_host = ''127.0.0.1'', port = 8765, default_timeout_ms = 30000,
      max_timeout_ms = 90000, max_command_bytes = 8192, max_output_bytes = 262144, kill_grace_ms = 1500,
      allowed_roots = roots, state_dir = state, max_file_chunk_bytes = 262144, max_transfer_bytes = 2147483648,
      upload_ttl_seconds = 3600, max_jobs = 256, job_max_timeout_ms = 604800000, job_log_max_bytes = 67108864,
      job_read_max_bytes = 131072, job_retention_seconds = 604800, job_heartbeat_seconds = 5,
      terminal_max_sessions = 16, terminal_buffer_bytes = 1048576, terminal_read_max_bytes = 131072,
      terminal_idle_seconds = 1800, terminal_max_lifetime_seconds = 28800, terminal_wait_max_ms = 20000,
      terminal_osc133_enabled = True, tasks_extension_enabled = True, auth_mode = ''capability'',
      oauth_issuer = None, oauth_jwks_url = None, oauth_audience = None, oauth_scopes = [''remote-host''],
      oauth_algorithms = [''RS256''], json_response = True, stateless_http = True, max_request_body_bytes = 786432\<rparr>"

definition sample_settings :: settings where
  "sample_settings = default_settings ''0123456789abcdef0123456789abcdef'' ''host.example'' [[''srv'']] [''var'', ''state'']"

end
