(* ===== verification/Cursor.thy ===== *)
theory Cursor
  imports Prelude
begin

text \<open>
  The contract of a cursor-addressed byte source: the client passes an offset and a byte limit and
  gets the bytes at that offset, the offset to continue at, and whether it has caught up.  The
  file chunk reader, the job log reader and the terminal ring buffer are the providers; the client
  is whoever follows \<open>next_offset\<close> until the end flag is set.
\<close>

text \<open>The client's loop, with one unit of fuel per call.\<close>

fun follow :: "('s \<Rightarrow> nat \<Rightarrow> nat \<Rightarrow> exn + bytes \<times> nat \<times> bool) \<Rightarrow> nat \<Rightarrow> 's \<Rightarrow> nat \<Rightarrow> nat \<Rightarrow> bytes option" where
  "follow read_at 0 s off n = None"
| "follow read_at (Suc fuel) s off n =
     (case read_at s off n of
        Inl _ \<Rightarrow> None
      | Inr (data, next_off, at_end) \<Rightarrow>
          if at_end then Some data else map_option ((@) data) (follow read_at fuel s next_off n))"

locale cursor_source =
  fixes lo :: "'s \<Rightarrow> nat"
    and retained :: "'s \<Rightarrow> bytes"
    and limit :: nat
    and read_at :: "'s \<Rightarrow> nat \<Rightarrow> nat \<Rightarrow> exn + bytes \<times> nat \<times> bool"
  assumes read_at_law:
    "lo s \<le> off \<Longrightarrow> off \<le> lo s + length (retained s) \<Longrightarrow> 1 \<le> n \<Longrightarrow> n \<le> limit \<Longrightarrow>
     read_at s off n =
       (let data = take n (drop (off - lo s) (retained s)); next_off = off + length data
        in Inr (data, next_off, lo s + length (retained s) \<le> next_off))"
begin

lemma read_progress:
  assumes "lo s \<le> off" "off < lo s + length (retained s)" "1 \<le> n" "n \<le> limit"
    and "read_at s off n = Inr (data, next_off, at_end)"
  shows "off < next_off" "next_off \<le> lo s + length (retained s)" "length data \<le> n"
  using assms read_at_law [of s off n] by (auto simp: Let_def)

lemma follow_complete:
  assumes "lo s \<le> off" "off \<le> lo s + length (retained s)" "1 \<le> n" "n \<le> limit"
    and "lo s + length (retained s) - off < fuel"
  shows "follow read_at fuel s off n = Some (drop (off - lo s) (retained s))"
  using assms
proof (induction fuel arbitrary: off)
  case (Suc fuel)
  let ?R = "retained s" and ?d = "off - lo s"
  let ?data = "take n (drop ?d ?R)"
  have r: "read_at s off n = Inr (?data, off + length ?data, lo s + length ?R \<le> off + length ?data)"
    using read_at_law Suc.prems by (simp add: Let_def)
  show ?case
  proof (cases "lo s + length ?R \<le> off + length ?data")
    case True
    with Suc.prems have "length (drop ?d ?R) \<le> n" by (auto simp: min_def split: if_splits)
    then have "?data = drop ?d ?R" by (rule take_all)
    with r eqTrueI [OF True] show ?thesis by (simp only: follow.simps sum.case prod.case if_True)
  next
    case False
    with Suc.prems have len: "length ?data = n" by (auto simp: min_def split: if_splits)
    with False Suc.prems have "follow read_at fuel s (off + n) n = Some (drop (off + n - lo s) ?R)"
      by (intro Suc.IH) auto
    moreover have "off + n - lo s = ?d + n" using Suc.prems by simp
    ultimately show ?thesis
      using False r len by (simp add: add.commute flip: drop_drop)
  qed
qed simp

end

end
