(* ===== verification/Term_Session.thy ===== *)
theory Term_Session
  imports Py_Int Osc133 Config Cursor
begin

text \<open>
  \<open>PendingCommand\<close> and \<open>TerminalSession\<close> of \<open>src/remote_host_mcp/terminal.py\<close>: the bounded output
  buffer addressed by an absolute cursor, the PTY reader thread that fills it, and the two readers
  \<open>read_slice\<close> and \<open>output_between\<close>.

  \<open>PendingCommand\<close> objects are shared between the session, the signal handler, the reader thread
  and the monitor task, so they live in the store \<open>commands\<close> and are referred to by index;
  \<open>session.pending\<close> is such a reference.  What the operating system answers about the PTY child is
  an \<open>os_view\<close>.  The \<open>pyte\<close> screen is third-party code: the session keeps the log of the calls made
  to it.
\<close>

subsection \<open>State\<close>

record pending_command =
  command_id :: string
  start_cursor :: int
  done_path :: path
  event_set :: bool
  cmd_exit_code :: "int option"
  end_cursor :: "int option"
  completed :: bool
  signal_name :: "string option"
  signal_number :: "int option"
  fg_pgid :: "int option"
  saw_non_shell_foreground :: bool
  semantic_exit_code :: "int option"
  completion_source :: "string option"

datatype screen_event = Feed ustr | Resize int int

record session =
  terminal_id :: string
  child_pid :: int
  shell :: string
  initial_cwd :: string
  cols :: int
  rows :: int
  created_at :: int
  last_activity_at :: int
  max_buffer_bytes :: int
  session_dir :: path
  buffer :: bytes
  buffer_start :: nat
  stop_reader :: bool
  commands :: "pending_command list"
  pending :: "nat option"
  pending_task :: "nat option"
  closed :: bool
  screen_log :: "screen_event list"
  osc_tail :: bytes

record os_view =
  isalive :: "bool option"
  exitstatus :: "int option"
  signalstatus :: "int option"
  child_pgid :: "int option"
  tty_pgrp :: "int option"
  cwd_link :: "string option"
  clock :: int

definition buffer_end :: "session \<Rightarrow> int" where
  "buffer_end s = int (buffer_start s + length (buffer s))"

definition alive :: "os_view \<Rightarrow> session \<Rightarrow> bool" where
  "alive v s = (if closed s then False else isalive v = Some True)"

definition exit_code :: "os_view \<Rightarrow> session \<Rightarrow> int option" where
  "exit_code v s =
     (if alive v s then None
      else case exitstatus v of
        Some e \<Rightarrow> Some e
      | None \<Rightarrow> (case signalstatus v of Some g \<Rightarrow> Some (- g) | None \<Rightarrow> None))"

definition current_cwd :: "os_view \<Rightarrow> session \<Rightarrow> string" where
  "current_cwd v s = (case cwd_link v of Some p \<Rightarrow> p | None \<Rightarrow> initial_cwd s)"

definition shell_pgid :: "os_view \<Rightarrow> int option" where
  "shell_pgid v = child_pgid v"

definition foreground_pgid :: "os_view \<Rightarrow> int option" where
  "foreground_pgid v = (case tty_pgrp v of Some p \<Rightarrow> if 0 < p then Some p else None | None \<Rightarrow> None)"

text \<open>Access to the object behind a reference.\<close>

definition command :: "session \<Rightarrow> nat \<Rightarrow> pending_command" where
  "command s i = commands s ! i"

definition update_command :: "nat \<Rightarrow> (pending_command \<Rightarrow> pending_command) \<Rightarrow> session \<Rightarrow> session" where
  "update_command i f s = s\<lparr>commands := (commands s)[i := f (command s i)]\<rparr>"

definition busy :: "session \<Rightarrow> bool" where
  "busy s = (case pending s of None \<Rightarrow> False | Some i \<Rightarrow> \<not> completed (command s i))"

subsection \<open>The reader side: markers, retention, the reader thread\<close>

text \<open>The callback \<open>consume\<close> of \<open>_strip_rhmcp_osc133\<close>; \<open>int(raw_rc)\<close> refuses more than 4300 digits.\<close>

definition consume_marker :: "osc_marker \<Rightarrow> session \<Rightarrow> session" where
  "consume_marker m s =
     (case (kind m = CHR ''D'', raw_rc m, pending s) of
        (True, Some rc, Some i) \<Rightarrow>
          if \<not> completed (command s i) \<and> command_id (command s i) = marker_id m
          then (case py_int ascii_digit (ustr_of rc) of
                  Some n \<Rightarrow> update_command i (\<lambda>c. c\<lparr>semantic_exit_code := Some n\<rparr>) s
                | None \<Rightarrow> s)
          else s
      | _ \<Rightarrow> s)"

definition strip_rhmcp_osc133 :: "bytes \<Rightarrow> session \<Rightarrow> session \<times> bytes" where
  "strip_rhmcp_osc133 data s =
     (case strip_osc (osc_tail s) data of
        (cleaned, rest, ms) \<Rightarrow> ((fold consume_marker ms s)\<lparr>osc_tail := rest\<rparr>, cleaned))"

definition retain :: "bytes \<Rightarrow> session \<Rightarrow> session" where
  "retain data s =
     (let buf = buffer s @ data; excess = int (length buf) - max_buffer_bytes s
      in if 0 < excess
         then s\<lparr>buffer := drop (nat excess) buf, buffer_start := buffer_start s + nat excess\<rparr>
         else s\<lparr>buffer := buf\<rparr>)"

definition append_output :: "os_view \<Rightarrow> bytes \<Rightarrow> session \<Rightarrow> session" where
  "append_output v data s =
     (if data = [] then s
      else case strip_rhmcp_osc133 data s of
        (s1, cleaned) \<Rightarrow>
          if cleaned = [] then s1
          else (retain cleaned s1)
                 \<lparr>screen_log := screen_log s1 @ [Feed (decode_replace cleaned)], last_activity_at := clock v\<rparr>)"

datatype pty_event = Pty_Timeout | Pty_Eof | Pty_Error | Pty_Data bytes | Pty_Str ustr

text \<open>\<open>str.encode("utf-8", errors="replace")\<close>\<close>

definition encode_replace :: "ustr \<Rightarrow> bytes" where
  "encode_replace s = utf8 (map (\<lambda>c. if scalar c then c else 63) s)"

definition reader_flush :: "session \<Rightarrow> session" where
  "reader_flush s = (if osc_tail s \<noteq> [] then retain (osc_tail s) (s\<lparr>osc_tail := []\<rparr>) else s)"

text \<open>\<open>reader_loop\<close>, one list element per turn of the \<open>while\<close> (the stop flag as tested, then what
  the PTY delivers); the flag of the result is whether the loop has ended.\<close>

fun reader_loop :: "(bool \<times> pty_event \<times> os_view) list \<Rightarrow> session \<Rightarrow> session \<times> bool" where
  "reader_loop [] s = (s, False)"
| "reader_loop ((stop, ev, v) # evs) s =
     (if stop then (reader_flush s, True)
      else case ev of
        Pty_Timeout \<Rightarrow> reader_loop evs s
      | Pty_Eof \<Rightarrow> (reader_flush s, True)
      | Pty_Error \<Rightarrow> (reader_flush s, True)
      | Pty_Data data \<Rightarrow> reader_loop evs (append_output v data s)
      | Pty_Str str \<Rightarrow> reader_loop evs (append_output v (encode_replace str) s))"

definition send_bytes :: "os_view \<Rightarrow> int \<Rightarrow> session \<Rightarrow> (session \<times> int) res" where
  "send_bytes v sent s =
     (if \<not> alive v s then Inl (ValueError ''Terminal is not alive'')
      else Inr (s\<lparr>last_activity_at := clock v\<rparr>, sent))"

subsection \<open>The client side: slices of the retained window\<close>

text \<open>The wait of \<open>read_slice\<close>: every element is one pass of its loop, with whether the deadline
  has passed and the session as another thread has left it when the wait returns.\<close>

fun wait_for_output :: "int \<Rightarrow> int \<Rightarrow> (bool \<times> session \<times> os_view) list \<Rightarrow> session \<Rightarrow> os_view \<Rightarrow> session \<times> os_view" where
  "wait_for_output requested wait_ms [] s v = (s, v)"
| "wait_for_output requested wait_ms ((expired, s', v') # wakeups) s v =
     (if buffer_end s \<le> requested \<and> alive v s \<and> 0 < wait_ms \<and> \<not> expired
      then wait_for_output requested wait_ms wakeups s' v'
      else (s, v))"

record slice =
  sl_cursor :: int
  sl_next :: int
  sl_data :: bytes
  sl_truncated :: bool
  sl_at_end :: bool

definition slice_of :: "int \<Rightarrow> int \<Rightarrow> session \<Rightarrow> slice res" where
  "slice_of requested max_bytes s =
     (let effective = max requested (int (buffer_start s))
      in if buffer_end s < effective then Inl (ValueError ''cursor is beyond current terminal output'')
         else (let relative = effective - int (buffer_start s);
                   data = py_slice (buffer s) relative (relative + max_bytes);
                   next_cursor = effective + int (length data)
               in Inr \<lparr>sl_cursor = effective, sl_next = next_cursor, sl_data = data,
                       sl_truncated = requested < int (buffer_start s),
                       sl_at_end = buffer_end s \<le> next_cursor\<rparr>))"

definition read_slice ::
  "int option \<Rightarrow> int \<Rightarrow> int \<Rightarrow> (bool \<times> session \<times> os_view) list \<Rightarrow> session \<Rightarrow> os_view \<Rightarrow> (session \<times> os_view) \<times> slice res"
where
  "read_slice cursor max_bytes wait_ms wakeups s v =
     (let requested = (case cursor of None \<Rightarrow> int (buffer_start s) | Some c \<Rightarrow> c)
      in if requested < 0 then ((s, v), Inl (ValueError ''cursor must be >= 0''))
         else (let (s', v') = wait_for_output requested wait_ms wakeups s v
               in ((s', v'), slice_of requested max_bytes s')))"

definition output_between :: "int \<Rightarrow> int option \<Rightarrow> int \<Rightarrow> session \<Rightarrow> int \<times> int \<times> bytes \<times> bool" where
  "output_between start stop max_bytes s =
     (let truncated = start < int (buffer_start s);
          effective0 = max start (int (buffer_start s));
          upper = (case stop of None \<Rightarrow> buffer_end s | Some e \<Rightarrow> min e (buffer_end s));
          effective = (if upper < effective0 then upper else effective0);
          relative = effective - int (buffer_start s);
          available = max 0 (upper - effective);
          n = min max_bytes available;
          data = py_slice (buffer s) relative (relative + n)
      in (effective, effective + int (length data), data, truncated))"

record terminal_info =
  ti_terminal_id :: string
  ti_pid :: int
  ti_shell :: string
  ti_cwd :: string
  ti_cols :: int
  ti_rows :: int
  ti_created_at :: int
  ti_last_activity_at :: int
  ti_alive :: bool
  ti_busy :: bool
  ti_exit_code :: "int option"
  ti_buffer_start :: int
  ti_buffer_end :: int

definition info :: "os_view \<Rightarrow> session \<Rightarrow> terminal_info" where
  "info v s =
     \<lparr>ti_terminal_id = terminal_id s, ti_pid = child_pid s, ti_shell = shell s, ti_cwd = current_cwd v s,
      ti_cols = cols s, ti_rows = rows s, ti_created_at = created_at s,
      ti_last_activity_at = last_activity_at s, ti_alive = alive v s, ti_busy = busy s,
      ti_exit_code = exit_code v s, ti_buffer_start = int (buffer_start s), ti_buffer_end = buffer_end s\<rparr>"

subsection \<open>The retained window is a suffix of the output\<close>

text \<open>\<open>window s hist\<close>: \<open>hist\<close> is everything ever appended; the buffer is its last part, the cursor
  positions are positions of \<open>hist\<close>.\<close>

definition window :: "session \<Rightarrow> bytes \<Rightarrow> bool" where
  "window s hist \<longleftrightarrow>
     buffer_start s \<le> length hist \<and> buffer s = drop (buffer_start s) hist
     \<and> int (length (buffer s)) \<le> max_buffer_bytes s"

lemma window_end: "window s hist \<Longrightarrow> buffer_end s = int (length hist)"
  by (simp add: window_def buffer_end_def)

lemma retain_window [keep_intros]:
  assumes "window s hist"
  shows "window (retain data s) (hist @ data)"
proof -
  let ?e = "int (length (buffer s @ data)) - max_buffer_bytes s"
  from assms have b: "buffer_start s \<le> length hist" "buffer s = drop (buffer_start s) hist"
    and m: "0 \<le> max_buffer_bytes s"
    by (auto simp: window_def)
  have buf: "buffer s @ data = drop (buffer_start s) (hist @ data)" using b by simp
  show ?thesis
  proof (cases "0 < ?e")
    case True
    have "drop (nat ?e) (buffer s @ data) = drop (buffer_start s + nat ?e) (hist @ data)"
      unfolding buf by (simp only: drop_drop add.commute)
    moreover have "nat ?e \<le> length (buffer s @ data)" using m by simp
    ultimately show ?thesis
      using True b m by (auto simp: window_def retain_def Let_def)
  next
    case False
    with b buf show ?thesis by (simp add: window_def retain_def Let_def)
  qed
qed

lemma retain_simps [simp]:
  "osc_tail (retain d s) = osc_tail s" "commands (retain d s) = commands s"
  "pending (retain d s) = pending s" "closed (retain d s) = closed s"
  "terminal_id (retain d s) = terminal_id s" "max_buffer_bytes (retain d s) = max_buffer_bytes s"
  "pending_task (retain d s) = pending_task s" "stop_reader (retain d s) = stop_reader s"
  by (simp_all add: retain_def Let_def)

lemma consume_marker_simps [simp]:
  "osc_tail (consume_marker m s) = osc_tail s" "buffer (consume_marker m s) = buffer s"
  "buffer_start (consume_marker m s) = buffer_start s" "pending (consume_marker m s) = pending s"
  "max_buffer_bytes (consume_marker m s) = max_buffer_bytes s" "closed (consume_marker m s) = closed s"
  "terminal_id (consume_marker m s) = terminal_id s" "pending_task (consume_marker m s) = pending_task s"
  "stop_reader (consume_marker m s) = stop_reader s"
  "length (commands (consume_marker m s)) = length (commands s)"
  by (simp_all add: consume_marker_def update_command_def split: option.split bool.split)

lemma fold_consume_simps [simp]:
  "osc_tail (fold consume_marker ms s) = osc_tail s" "buffer (fold consume_marker ms s) = buffer s"
  "buffer_start (fold consume_marker ms s) = buffer_start s" "pending (fold consume_marker ms s) = pending s"
  "max_buffer_bytes (fold consume_marker ms s) = max_buffer_bytes s" "closed (fold consume_marker ms s) = closed s"
  "terminal_id (fold consume_marker ms s) = terminal_id s" "pending_task (fold consume_marker ms s) = pending_task s"
  "stop_reader (fold consume_marker ms s) = stop_reader s"
  "length (commands (fold consume_marker ms s)) = length (commands s)"
  by (induction ms arbitrary: s) simp_all

lemma window_cong:
  "buffer s' = buffer s \<Longrightarrow> buffer_start s' = buffer_start s \<Longrightarrow> max_buffer_bytes s' = max_buffer_bytes s \<Longrightarrow>
   window s' hist = window s hist"
  by (simp add: window_def)

lemma window_frame [simp]:
  "window (s\<lparr>osc_tail := t\<rparr>) hist = window s hist"
  "window (s\<lparr>screen_log := L\<rparr>) hist = window s hist"
  "window (s\<lparr>last_activity_at := n\<rparr>) hist = window s hist"
  "window (s\<lparr>commands := cs\<rparr>) hist = window s hist"
  "window (s\<lparr>pending := p\<rparr>) hist = window s hist"
  "window (fold consume_marker ms s) hist = window s hist"
  by (simp_all add: window_def)

lemma append_output_tail: "osc_tail (append_output v data s) = (if data = [] then osc_tail s else fst (snd (strip_osc (osc_tail s) data)))"
  by (auto simp: append_output_def strip_rhmcp_osc133_def split: prod.splits)

lemma append_output_window:
  assumes "window s hist"
  shows "window (append_output v data s) (hist @ (if data = [] then [] else fst (strip_osc (osc_tail s) data)))"
proof -
  obtain out t ms where st: "strip_osc (osc_tail s) data = (out, t, ms)" by (cases "strip_osc (osc_tail s) data")
  let ?s1 = "(fold consume_marker ms s)\<lparr>osc_tail := t\<rparr>"
  have w: "window ?s1 hist" using assms by simp
  have "window (retain out ?s1 \<lparr>screen_log := L, last_activity_at := n\<rparr>) (hist @ out)" for L n
    using retain_window [OF w, of out] by simp
  with w show ?thesis by (simp add: append_output_def strip_rhmcp_osc133_def st assms)
qed

lemma reader_flush_window:
  "window s hist \<Longrightarrow> window (reader_flush s) (hist @ osc_tail s)"
  using retain_window [of "s\<lparr>osc_tail := []\<rparr>" hist "osc_tail s"]
  by (simp add: reader_flush_def)

text \<open>What the reader has produced once it has stopped: the cleaned chunks and, at the end of the
  stream, the tail that was still held back.\<close>

fun delivered :: "(bool \<times> pty_event \<times> os_view) list \<Rightarrow> bytes list" where
  "delivered [] = []"
| "delivered ((stop, ev, v) # evs) =
     (if stop then []
      else case ev of
        Pty_Timeout \<Rightarrow> delivered evs
      | Pty_Eof \<Rightarrow> []
      | Pty_Error \<Rightarrow> []
      | Pty_Data data \<Rightarrow> data # delivered evs
      | Pty_Str str \<Rightarrow> encode_replace str # delivered evs)"

lemma reader_loop_window:
  assumes "window s hist" "osc_stream (osc_tail s) (delivered evs) = (out, t, ms)"
  shows "window (fst (reader_loop evs s)) (hist @ out @ (if snd (reader_loop evs s) then t else []))"
  using assms
proof (induction evs s arbitrary: hist out t ms rule: reader_loop.induct)
  case (2 stop ev v evs s)
  have step: "window (fst (reader_loop evs (append_output v d s)))
      (hist @ out @ (if snd (reader_loop evs (append_output v d s)) then t else []))"
    if IH: "\<And>hist out t ms. window (append_output v d s) hist \<Longrightarrow>
        osc_stream (osc_tail (append_output v d s)) (delivered evs) = (out, t, ms) \<Longrightarrow>
        window (fst (reader_loop evs (append_output v d s)))
          (hist @ out @ (if snd (reader_loop evs (append_output v d s)) then t else []))"
      and st: "osc_stream (osc_tail s) (d # delivered evs) = (out, t, ms)" for d
  proof -
    obtain o1 t1 m1 where a: "strip_osc (osc_tail s) d = (o1, t1, m1)" by (cases "strip_osc (osc_tail s) d")
    show ?thesis
      using IH [OF append_output_window [OF "2.prems"(1), of v d]] st a
      by (auto simp: append_output_tail split: prod.splits if_splits)
  qed
  show ?case
    using 2 step reader_flush_window [OF "2.prems"(1)]
    by (cases stop; cases ev) simp_all
qed simp

subsection \<open>Reading the window\<close>

lemma slice_of_ok:
  assumes "window s hist" "0 \<le> requested" "requested \<le> int (length hist)" "0 \<le> n"
  shows "slice_of requested n s =
    (let at = max (nat requested) (buffer_start s); data = take (nat n) (drop at hist)
     in Inr \<lparr>sl_cursor = int at, sl_next = int (at + length data), sl_data = data,
             sl_truncated = nat requested < buffer_start s,
             sl_at_end = length hist \<le> at + length data\<rparr>)"
proof -
  from assms(1) have b: "buffer_start s \<le> length hist" "buffer s = drop (buffer_start s) hist"
    by (simp_all add: window_def)
  define at where "at = max (nat requested) (buffer_start s)"
  have e: "max requested (int (buffer_start s)) = int at" using assms(2) unfolding at_def by arith
  have at: "buffer_start s \<le> at" "at \<le> length hist" using assms(3) b(1) by (simp_all add: at_def)
  have t: "requested < int (buffer_start s) \<longleftrightarrow> nat requested < buffer_start s" using assms(2) by auto
  have slice: "py_slice (buffer s) (int at - int (buffer_start s)) (int at - int (buffer_start s) + n)
      = take (nat n) (drop at hist)"
    using assms(4) b(2) at(1) by (subst py_slice_nat) (auto simp: nat_diff_distrib)
  show ?thesis
    unfolding slice_of_def window_end [OF assms(1)] e slice t Let_def at_def [symmetric]
    using at by (simp flip: of_nat_add)
qed

lemma slice_of_beyond:
  "window s hist \<Longrightarrow> int (length hist) < requested \<Longrightarrow>
   slice_of requested n s = Inl (ValueError ''cursor is beyond current terminal output'')"
  by (simp add: slice_of_def window_end Let_def)

text \<open>A read without waiting, in the shape of the cursor contract.\<close>

definition idle_view :: os_view where
  "idle_view = \<lparr>isalive = Some False, exitstatus = None, signalstatus = None, child_pgid = None,
     tty_pgrp = None, cwd_link = None, clock = 0\<rparr>"

definition slice_at :: "session \<Rightarrow> nat \<Rightarrow> nat \<Rightarrow> exn + bytes \<times> nat \<times> bool" where
  "slice_at s off n =
     (case snd (read_slice (Some (int off)) (int n) 0 [] s idle_view) of
        Inl e \<Rightarrow> Inl e
      | Inr sl \<Rightarrow> Inr (sl_data sl, nat (sl_next sl), sl_at_end sl))"

interpretation term_window: cursor_source buffer_start buffer limit slice_at for limit
proof
  fix s :: session and off n :: nat
  assume off: "buffer_start s \<le> off" "off \<le> buffer_start s + length (buffer s)"
  let ?s = "s\<lparr>max_buffer_bytes := int (length (buffer s))\<rparr>"
  let ?h = "replicate (buffer_start s) CHR 0x00 @ buffer s"
  have "window ?s ?h" by (simp add: window_def)
  moreover have mx: "max (int off) (int (buffer_start s)) = int off" "max off (buffer_start s) = off"
    using off(1) by simp_all
  moreover have "slice_of (int off) (int n) s = slice_of (int off) (int n) ?s"
    by (simp add: slice_of_def buffer_end_def Let_def mx)
  ultimately show "slice_at s off n =
      (let data = take n (drop (off - buffer_start s) (buffer s)); next_off = off + length data
       in Inr (data, next_off, buffer_start s + length (buffer s) \<le> next_off))"
    using off slice_of_ok [of ?s ?h "int off" "int n"]
    by (simp add: slice_at_def read_slice_def Let_def mx)
qed

lemma output_between_window:
  assumes "window s hist" "0 \<le> start" "0 \<le> n" "\<And>e. stop = Some e \<Longrightarrow> int (buffer_start s) \<le> e \<and> start \<le> e"
    and "start \<le> int (length hist)"
  shows "output_between start stop n s =
    (let at = max (nat start) (buffer_start s);
         upper = (case stop of None \<Rightarrow> length hist | Some e \<Rightarrow> min (nat e) (length hist));
         data = take (nat n) (take (upper - at) (drop at hist))
     in (int at, int (at + length data), data, nat start < buffer_start s))"
proof -
  from assms(1) have b: "buffer_start s \<le> length hist" "buffer s = drop (buffer_start s) hist"
    by (simp_all add: window_def)
  define at where "at = max (nat start) (buffer_start s)"
  define upper where "upper = (case stop of None \<Rightarrow> length hist | Some e \<Rightarrow> min (nat e) (length hist))"
  have u: "(case stop of None \<Rightarrow> buffer_end s | Some e \<Rightarrow> min e (buffer_end s)) = int upper"
    using assms(2,4) by (auto simp: upper_def window_end [OF assms(1)] split: option.split)
  have le: "buffer_start s \<le> at" "at \<le> upper" "upper \<le> length hist"
    using assms(2,4,5) b by (auto simp: upper_def at_def split: option.split)
  have e: "max start (int (buffer_start s)) = int at" using assms(2) unfolding at_def by arith
  have n: "\<not> int upper < int at" "min n (max 0 (int upper - int at)) = int (min (nat n) (upper - at))"
    using assms(3) le by (auto elim!: nonneg_int_cases simp: of_nat_diff of_nat_min)
  have slice: "py_slice (buffer s) (int at - int (buffer_start s)) (int at - int (buffer_start s) + int k)
      = take k (drop at hist)" for k
    using b(2) le(1) by (subst py_slice_nat) (auto simp: nat_diff_distrib)
  have t: "start < int (buffer_start s) \<longleftrightarrow> nat start < buffer_start s" using assms(2) by auto
  show ?thesis
    unfolding output_between_def u e Let_def if_not_P [OF n(1)] n(2) slice t
    by (simp add: min.commute flip: upper_def at_def)
qed

end
