(* ===== verification/Term_Command.thy ===== *)
theory Term_Command
  imports Term_Session
begin

text \<open>
  The foreground-command protocol of \<open>src/remote_host_mcp/terminal.py\<close>: \<open>TerminalManager.exec\<close> with
  the shell wrapper it types into the PTY, the monitor task \<open>_monitor_command\<close> that decides when the
  command has ended, \<open>_mark_pending_complete\<close> and \<open>signal\<close>.  A coroutine is cut at its \<open>await\<close>s: each
  definition below is one segment that no other task can interrupt.
\<close>

subsection \<open>The shell wrapper\<close>

text \<open>\<open>shlex.quote\<close>\<close>

definition sh_safe :: "nat \<Rightarrow> bool" where
  "sh_safe c \<longleftrightarrow> c \<in> {48..57} \<or> c \<in> {65..90} \<or> c \<in> {97..122} \<or> c \<in> set (ustr_of ''_@%+=:,./-'')"

definition shlex_quote :: "ustr \<Rightarrow> ustr" where
  "shlex_quote s =
     (if s = [] then ustr_of [CHR 0x27, CHR 0x27]
      else if list_all sh_safe s then s
      else 39 # replace_all [39] [39, 34, 39, 34, 39] s @ [39])"

definition semantic_start :: "settings \<Rightarrow> string \<Rightarrow> ustr" where
  "semantic_start st cid =
     (if terminal_osc133_enabled st
      then ustr_of (''printf '' @ [CHR 0x27, CHR 0x5C] @ ''033]133;C;id='' @ cid @ [CHR 0x5C] @ ''007'' @ [CHR 0x27] @ ''; '')
      else [])"

definition semantic_done :: "settings \<Rightarrow> string \<Rightarrow> ustr" where
  "semantic_done st cid =
     (if terminal_osc133_enabled st
      then ustr_of (''printf '' @ [CHR 0x27, CHR 0x5C] @ ''033]133;D;id='' @ cid @ '';rc=%s'' @ [CHR 0x5C] @ ''007''
             @ [CHR 0x27] @ '' '' @ [CHR 0x22] @ ''$__rhmcp_rc'' @ [CHR 0x22] @ ''; '')
      else [])"

definition wrapper :: "settings \<Rightarrow> string \<Rightarrow> path \<Rightarrow> ustr \<Rightarrow> ustr" where
  "wrapper st cid done cmd =
     semantic_start st cid
     @ ustr_of ''eval -- '' @ shlex_quote cmd @ ustr_of ''; ''
     @ ustr_of ''__rhmcp_rc=$?; ''
     @ semantic_done st cid
     @ ustr_of (''printf '' @ [CHR 0x27] @ ''%s'' @ [CHR 0x5C] @ ''n'' @ [CHR 0x27] @ '' '' @ [CHR 0x22] @ ''$__rhmcp_rc''
          @ [CHR 0x22] @ '' > '') @ shlex_quote (ustr_of (path_str done)) @ [10]"

subsection \<open>exec, up to its first await, and its result\<close>

definition new_command :: "string \<Rightarrow> int \<Rightarrow> path \<Rightarrow> pending_command" where
  "new_command cid start done =
     \<lparr>command_id = cid, start_cursor = start, done_path = done, event_set = False, cmd_exit_code = None,
      end_cursor = None, completed = False, signal_name = None, signal_number = None, fg_pgid = None,
      saw_non_shell_foreground = False, semantic_exit_code = None, completion_source = None\<rparr>"

text \<open>The checks, the new \<open>PendingCommand\<close> and what is typed into the PTY.  The typing itself is a
  second segment (\<open>asyncio.to_thread\<close>): it may fail, and then no monitor task is created.\<close>

definition exec_start ::
  "settings \<Rightarrow> os_view \<Rightarrow> string \<Rightarrow> ustr \<Rightarrow> int \<Rightarrow> session \<Rightarrow> session \<times> (nat \<times> bytes) res"
where
  "exec_start st v cid cmd wait_ms s =
     (case encode_utf8 cmd of
        Inl e \<Rightarrow> (s, Inl e)
      | Inr raw \<Rightarrow>
          if strip cmd = [] \<or> 0 \<in> set cmd \<or> max_command_bytes st < int (length raw)
          then (s, Inl (ValueError ''Command is empty, contains NUL, or exceeds RHMCP_MAX_COMMAND_BYTES''))
          else if wait_ms < 0 \<or> terminal_wait_max_ms st < wait_ms
          then (s, Inl (ValueError (''wait_ms must be between 0 and '' @ int_str (terminal_wait_max_ms st))))
          else if \<not> alive v s then (s, Inl (ValueError ''Terminal is not alive''))
          else if busy s
          then (s, Inl (ValueError ''Terminal already has a foreground terminal_exec command; use read/write/signal until it completes''))
          else (let done = session_dir s @ [cid @ ''.done''];
                    i = length (commands s);
                    s' = s\<lparr>commands := commands s @ [new_command cid (buffer_end s) done], pending := Some i\<rparr>
                in (s', Inr (i, utf8 (wrapper st cid done cmd)))))"

definition exec_sent :: "nat \<Rightarrow> session \<Rightarrow> (session \<times> int) res \<Rightarrow> session \<times> bool" where
  "exec_sent i s sent =
     (case sent of
        Inl e \<Rightarrow> (s, False)
      | Inr (s', n) \<Rightarrow> (s'\<lparr>pending_task := Some i\<rparr>, True))"

record exec_result =
  xr_command_id :: string
  xr_completed :: bool
  xr_still_running :: bool
  xr_exit_code :: "int option"
  xr_source :: "string option"
  xr_output :: ustr
  xr_cursor :: int
  xr_next_cursor :: int
  xr_truncated :: bool

definition exec_result_of :: "settings \<Rightarrow> os_view \<Rightarrow> nat \<Rightarrow> session \<Rightarrow> session \<times> exec_result" where
  "exec_result_of st v i s =
     (let c = command s i;
          fin = completed c;
          (effective, next_cursor, data, truncated) =
            output_between (start_cursor c) (if fin then end_cursor c else None) (terminal_read_max_bytes st) s;
          s1 = (if fin \<and> pending s = Some i then s\<lparr>pending := None\<rparr> else s);
          s2 = s1\<lparr>last_activity_at := clock v\<rparr>
      in (s2, \<lparr>xr_command_id = command_id c, xr_completed = fin, xr_still_running = (\<not> fin \<and> alive v s2),
               xr_exit_code = (if fin then cmd_exit_code c else None),
               xr_source = (if fin then completion_source c else None),
               xr_output = redact_key (path_key st) (decode_replace data),
               xr_cursor = effective, xr_next_cursor = next_cursor, xr_truncated = truncated\<rparr>))"

subsection \<open>The monitor task\<close>

definition completing_signals :: "string set" where
  "completing_signals = {''SIGINT'', ''SIGQUIT'', ''SIGTERM'', ''SIGHUP''}"

definition mark_pending_complete :: "nat \<Rightarrow> int option \<Rightarrow> string \<Rightarrow> session \<Rightarrow> session" where
  "mark_pending_complete i code src s =
     update_command i (\<lambda>c. c\<lparr>cmd_exit_code := code, completion_source := Some src,
       end_cursor := Some (buffer_end s), completed := True, event_set := True\<rparr>) s"

text \<open>The done file as the monitor finds it: absent, unreadable, or its bytes.\<close>

datatype done_file = Absent | Unreadable | Content bytes

definition sentinel_code :: "(nat \<Rightarrow> nat option) \<Rightarrow> done_file \<Rightarrow> int option" where
  "sentinel_code ud f =
     (case f of
        Content bs \<Rightarrow> (case decode_strict bs of Inl e \<Rightarrow> None | Inr str \<Rightarrow> py_int ud (strip str))
      | _ \<Rightarrow> None)"

datatype monitor_pc =
    Poll
  | Osc_Wait
  | Sentinel_Wait "int option"
  | Exit_Wait
  | Handback_Wait int
  | Returned

fun monitor_step ::
  "(nat \<Rightarrow> nat option) \<Rightarrow> os_view \<Rightarrow> done_file \<Rightarrow> nat \<Rightarrow> monitor_pc \<Rightarrow> session \<Rightarrow> session \<times> monitor_pc"
where
  "monitor_step ud v f i Poll s =
     (let c = command s i in
      if completed c then (s, Returned)
      else if semantic_exit_code c \<noteq> None then (s, Osc_Wait)
      else if f \<noteq> Absent then (s, Sentinel_Wait (sentinel_code ud f))
      else if \<not> alive v s then (s, Exit_Wait)
      else (case (shell_pgid v, foreground_pgid v) of
              (Some sh, Some fg) \<Rightarrow>
                if fg \<noteq> sh
                then (update_command i (\<lambda>c. c\<lparr>saw_non_shell_foreground := True, fg_pgid := Some fg\<rparr>) s, Poll)
                else if saw_non_shell_foreground c \<and> signal_number c \<noteq> None
                        \<and> (\<exists>n \<in> completing_signals. signal_name c = Some n)
                then (s, Handback_Wait sh)
                else (s, Poll)
            | _ \<Rightarrow> (s, Poll)))"
| "monitor_step ud v f i Osc_Wait s =
     (mark_pending_complete i (semantic_exit_code (command s i)) ''osc133'' s, Returned)"
| "monitor_step ud v f i (Sentinel_Wait code) s = (mark_pending_complete i code ''sentinel'' s, Returned)"
| "monitor_step ud v f i Exit_Wait s = (mark_pending_complete i (exit_code v s) ''terminal_exit'' s, Returned)"
| "monitor_step ud v f i (Handback_Wait sh) s =
     (let c = command s i in
      if semantic_exit_code c \<noteq> None \<or> f \<noteq> Absent then (s, Poll)
      else if alive v s \<and> foreground_pgid v = Some sh
      then (mark_pending_complete i (map_option uminus (signal_number c)) ''foreground_pgid'' s, Returned)
      else (s, Poll))"
| "monitor_step ud v f i Returned s = (s, Returned)"

subsection \<open>Signals\<close>

definition signal_table :: "(string \<times> int) list" where
  "signal_table = [(''SIGINT'', 2), (''SIGQUIT'', 3), (''SIGTSTP'', 20), (''SIGTERM'', 15), (''SIGHUP'', 1), (''SIGCONT'', 18)]"

text \<open>\<open>signal_name.strip().upper()\<close> with the \<open>SIG\<close> prefix; \<open>None\<close> when the result is not allowed.\<close>

definition signal_lookup :: "ustr \<Rightarrow> (string \<times> int) option" where
  "signal_lookup raw =
     (let n0 = concat (map upper_units (strip raw));
          n = (if starts (ustr_of ''SIG'') n0 then n0 else ustr_of ''SIG'' @ n0)
      in find (\<lambda>(name, num). ustr_of name = n) signal_table)"

definition quote_comma :: string where
  "quote_comma = [CHR 0x27] @ '', '' @ [CHR 0x27]"

datatype delivery = Group int int | Control bytes | Child int int | Not_Sent

text \<open>\<open>signal\<close>: what is recorded on the pending command, and to whom the signal goes.  \<open>kill_ok\<close> tells
  whether \<open>os.killpg\<close> on the foreground group succeeds.\<close>

definition record_signal :: "os_view \<Rightarrow> string \<Rightarrow> int \<Rightarrow> session \<Rightarrow> session" where
  "record_signal v name num s =
     (if busy s
      then update_command (the (pending s)) (\<lambda>c.
        let c1 = (case (foreground_pgid v, shell_pgid v) of
                    (Some fg, Some sh) \<Rightarrow>
                      if fg \<noteq> sh then c\<lparr>saw_non_shell_foreground := True, fg_pgid := Some fg\<rparr> else c
                  | _ \<Rightarrow> c)
        in if name \<in> completing_signals then c1\<lparr>signal_name := Some name, signal_number := Some num\<rparr> else c1) s
      else s)"

definition control_key :: "string \<Rightarrow> bytes option" where
  "control_key name =
     (if name = ''SIGINT'' then Some [CHR 0x03] else if name = ''SIGQUIT'' then Some [CHR 0x1C]
      else if name = ''SIGTSTP'' then Some [CHR 0x1A] else None)"

definition deliver :: "os_view \<Rightarrow> bool \<Rightarrow> string \<Rightarrow> int \<Rightarrow> session \<Rightarrow> delivery" where
  "deliver v kill_ok name num s =
     (case foreground_pgid v of
        Some fg \<Rightarrow> if kill_ok then Group fg num
          else (case control_key name of
                  Some k \<Rightarrow> if alive v s then Control k else Not_Sent
                | None \<Rightarrow> Child (child_pid s) num)
      | None \<Rightarrow> (case control_key name of
                  Some k \<Rightarrow> if alive v s then Control k else Not_Sent
                | None \<Rightarrow> Child (child_pid s) num))"

record action_result =
  ar_terminal_id :: string
  ar_action :: ustr
  ar_alive :: bool

definition signal_session :: "os_view \<Rightarrow> bool \<Rightarrow> ustr \<Rightarrow> session \<Rightarrow> session \<times> (action_result \<times> delivery) res" where
  "signal_session v kill_ok raw s =
     (case signal_lookup raw of
        None \<Rightarrow> (s, Inl (ValueError (''signal must be one of ['' @ [CHR 0x27] @ ''SIGCONT'' @ quote_comma @ ''SIGHUP'' @ quote_comma
          @ ''SIGINT'' @ quote_comma @ ''SIGQUIT'' @ quote_comma @ ''SIGTERM'' @ quote_comma @ ''SIGTSTP'' @ [CHR 0x27] @ '']'')))
      | Some (name, num) \<Rightarrow>
          if \<not> alive v s
          then (s, Inr (\<lparr>ar_terminal_id = terminal_id s, ar_action = ustr_of name, ar_alive = False\<rparr>, Not_Sent))
          else (let s1 = record_signal v name num s;
                    d = deliver v kill_ok name num s1;
                    s2 = s1\<lparr>last_activity_at := clock v\<rparr>
                in (s2, Inr (\<lparr>ar_terminal_id = terminal_id s, ar_action = ustr_of name, ar_alive = alive v s2\<rparr>, d))))"

text \<open>\<open>if session.pending is not None and session.pending.completed: session.pending = None\<close>, as in
  \<open>status\<close> and \<open>list\<close>.\<close>

definition forget_completed :: "session \<Rightarrow> session" where
  "forget_completed s =
     (case pending s of Some i \<Rightarrow> if completed (command s i) then s\<lparr>pending := None\<rparr> else s | None \<Rightarrow> s)"

subsection \<open>Quoting is safe\<close>

text \<open>How a POSIX shell reads one word whose quoting uses single quotes, double quotes without
  expansion and plain characters; anything that would expand has no reading here.\<close>

datatype sh_mode = Plain | Single | Double

fun sh_word :: "sh_mode \<Rightarrow> ustr \<Rightarrow> (ustr \<times> ustr) option" where
  "sh_word Plain [] = Some ([], [])"
| "sh_word Plain (c # cs) =
     (if c = 39 then sh_word Single cs
      else if c = 34 then sh_word Double cs
      else if sh_safe c then map_option (\<lambda>(w, r). (c # w, r)) (sh_word Plain cs)
      else if c \<in> {10, 32, 59} then Some ([], c # cs)
      else None)"
| "sh_word Single [] = None"
| "sh_word Single (c # cs) =
     (if c = 39 then sh_word Plain cs else map_option (\<lambda>(w, r). (c # w, r)) (sh_word Single cs))"
| "sh_word Double [] = None"
| "sh_word Double (c # cs) =
     (if c = 34 then sh_word Plain cs
      else if c \<in> {36, 96, 92} then None
      else map_option (\<lambda>(w, r). (c # w, r)) (sh_word Double cs))"

lemma sh_safe_not_quote: "sh_safe c \<Longrightarrow> c \<noteq> 39 \<and> c \<noteq> 34"
  by (auto simp: sh_safe_def ustr_of_def)

lemma sh_word_stop: "\<exists>c cs. r = c # cs \<and> c \<in> {10, 32, 59} \<Longrightarrow> sh_word Plain r = Some ([], r)"
  by (auto simp: sh_safe_def ustr_of_def)

lemma sh_word_plain: "list_all sh_safe s \<Longrightarrow> sh_word Plain r = Some ([], r) \<Longrightarrow> sh_word Plain (s @ r) = Some (s, r)"
  by (induction s) (auto dest: sh_safe_not_quote)

lemma sh_word_single:
  "sh_word Plain r = Some ([], r) \<Longrightarrow>
   sh_word Single (replace_all [39] [39, 34, 39, 34, 39] s @ 39 # r) = Some (s, r)"
  by (induction s) auto

lemma shlex_quote_word:
  assumes "\<exists>c cs. r = c # cs \<and> c \<in> {10, 32, 59}"
  shows "sh_word Plain (shlex_quote s @ r) = Some (s, r)"
  using sh_word_stop [OF assms] sh_word_plain [of s r] sh_word_single [of r s]
  by (simp add: shlex_quote_def ustr_of_def)

end
