(* ===== verification/Term_Steps.thy ===== *)
theory Term_Steps
  imports Term_Command
begin

text \<open>
  One terminal session under arbitrary interleaving of the reader thread, \<open>terminal_exec\<close> calls, their
  monitor tasks, signals, status queries and closing: the step relation, its invariant, and the
  stability of a completed command.
\<close>

type_synonym monitors = "nat \<Rightarrow> monitor_pc option"

text \<open>The first part of \<open>TerminalManager.close\<close>: flags, and cancellation of the monitor task.\<close>

definition close_session :: "session \<Rightarrow> session" where
  "close_session s = s\<lparr>closed := True, stop_reader := True\<rparr>"

definition cancel_monitor :: "session \<Rightarrow> monitors \<Rightarrow> monitors" where
  "cancel_monitor s m = (case pending_task s of Some i \<Rightarrow> m(i := None) | None \<Rightarrow> m)"

definition after_step :: "nat \<Rightarrow> monitor_pc \<Rightarrow> monitors \<Rightarrow> monitors" where
  "after_step i pc m = m(i := if pc = Returned then None else Some pc)"

inductive term_step :: "settings \<Rightarrow> (nat \<Rightarrow> nat option) \<Rightarrow> session \<times> monitors \<Rightarrow> session \<times> monitors \<Rightarrow> bool"
  for st ud
where
  Output: "term_step st ud (s, m) (append_output v data s, m)"
| Flush: "term_step st ud (s, m) (reader_flush s, m)"
| Start: "exec_start st v cid cmd wait_ms s = (s', r) \<Longrightarrow> term_step st ud (s, m) (s', m)"
| Sent: "i < length (commands s) \<Longrightarrow> m i = None \<Longrightarrow> \<not> completed (command s i) \<Longrightarrow>
    exec_sent i s (send_bytes v n s) = (s', True) \<Longrightarrow> term_step st ud (s, m) (s', m(i \<mapsto> Poll))"
| Monitor: "m i = Some pc \<Longrightarrow> monitor_step ud v f i pc s = (s', pc') \<Longrightarrow>
    term_step st ud (s, m) (s', after_step i pc' m)"
| Result: "i < length (commands s) \<Longrightarrow> exec_result_of st v i s = (s', x) \<Longrightarrow> term_step st ud (s, m) (s', m)"
| Signal: "signal_session v kill_ok raw s = (s', r) \<Longrightarrow> term_step st ud (s, m) (s', m)"
| Forget: "term_step st ud (s, m) (forget_completed s, m)"
| Close: "term_step st ud (s, m) (close_session s, cancel_monitor s m)"

inductive_cases term_stepE: "term_step st ud x y"

abbreviation term_steps :: "settings \<Rightarrow> (nat \<Rightarrow> nat option) \<Rightarrow> session \<times> monitors \<Rightarrow> session \<times> monitors \<Rightarrow> bool" where
  "term_steps st ud \<equiv> (term_step st ud)\<^sup>*\<^sup>*"

subsection \<open>The invariant\<close>

text \<open>What a completion source says about the recorded exit code.\<close>

definition completion_ok :: "pending_command \<Rightarrow> bool" where
  "completion_ok c \<longleftrightarrow>
     (case completion_source c of
        None \<Rightarrow> False
      | Some src \<Rightarrow>
          src \<in> {''osc133'', ''sentinel'', ''terminal_exit'', ''foreground_pgid''}
          \<and> (src = ''osc133'' \<longrightarrow> semantic_exit_code c \<noteq> None \<and> cmd_exit_code c = semantic_exit_code c)
          \<and> (src = ''foreground_pgid'' \<longrightarrow> saw_non_shell_foreground c
               \<and> (\<exists>name num. name \<in> completing_signals \<and> signal_name c = Some name
                    \<and> signal_number c = Some num \<and> cmd_exit_code c = Some (- num))))"

definition command_ok :: "int \<Rightarrow> pending_command \<Rightarrow> bool" where
  "command_ok bend c \<longleftrightarrow>
     0 \<le> start_cursor c \<and> start_cursor c \<le> bend \<and>
     (if completed c
      then event_set c \<and> completion_ok c \<and> (\<exists>e. end_cursor c = Some e \<and> start_cursor c \<le> e \<and> e \<le> bend)
      else \<not> event_set c \<and> end_cursor c = None \<and> completion_source c = None)
     \<and> (signal_name c \<noteq> None \<longrightarrow> signal_number c \<noteq> None)"

definition commands_inv :: "session \<Rightarrow> bool" where
  "commands_inv s \<longleftrightarrow>
     (\<forall>i < length (commands s). command_ok (buffer_end s) (command s i)) \<and>
     (\<forall>i. pending s = Some i \<longrightarrow> i < length (commands s)) \<and>
     (\<forall>i < length (commands s). \<not> completed (command s i) \<longrightarrow> pending s = Some i)"

fun pc_ok :: "pending_command \<Rightarrow> monitor_pc \<Rightarrow> bool" where
  "pc_ok c Osc_Wait = (semantic_exit_code c \<noteq> None)"
| "pc_ok c (Handback_Wait sh) =
     (saw_non_shell_foreground c \<and> signal_number c \<noteq> None \<and> (\<exists>n \<in> completing_signals. signal_name c = Some n))"
| "pc_ok c Returned = False"
| "pc_ok c _ = True"

definition monitors_inv :: "session \<Rightarrow> monitors \<Rightarrow> bool" where
  "monitors_inv s m \<longleftrightarrow>
     (\<forall>i pc. m i = Some pc \<longrightarrow> i < length (commands s) \<and> \<not> completed (command s i) \<and> pc_ok (command s i) pc)"

definition term_inv :: "session \<times> monitors \<Rightarrow> bool" where
  "term_inv x \<longleftrightarrow> commands_inv (fst x) \<and> monitors_inv (fst x) (snd x)"

text \<open>Completed commands are not touched, and no command disappears.\<close>

definition keeps_completed :: "session \<Rightarrow> session \<Rightarrow> bool" where
  "keeps_completed s s' \<longleftrightarrow>
     length (commands s) \<le> length (commands s') \<and>
     (\<forall>i < length (commands s). completed (command s i) \<longrightarrow> command s' i = command s i)"

lemma keeps_completed_refl [simp]: "keeps_completed s s"
  by (simp add: keeps_completed_def)

lemma keeps_completed_trans: "keeps_completed s s' \<Longrightarrow> keeps_completed s' s'' \<Longrightarrow> keeps_completed s s''"
  by (auto simp: keeps_completed_def)

lemma command_ok_mono: "command_ok a c \<Longrightarrow> a \<le> b \<Longrightarrow> command_ok b c"
  by (auto simp: command_ok_def)

text \<open>The change every operation makes: the rest of the session moves on, the store is the same.\<close>

definition same_store :: "session \<Rightarrow> session \<Rightarrow> bool" where
  "same_store s s' \<longleftrightarrow> commands s' = commands s \<and> pending s' = pending s \<and> buffer_end s \<le> buffer_end s'"

lemma commands_invI:
  assumes "\<And>i. i < length (commands s) \<Longrightarrow> command_ok (buffer_end s) (command s i)"
    and "\<And>i. pending s = Some i \<Longrightarrow> i < length (commands s)"
    and "\<And>i. i < length (commands s) \<Longrightarrow> \<not> completed (command s i) \<Longrightarrow> pending s = Some i"
  shows "commands_inv s"
  unfolding commands_inv_def using assms by blast

lemma commands_invD:
  assumes "commands_inv s"
  shows "i < length (commands s) \<Longrightarrow> command_ok (buffer_end s) (command s i)"
    and "pending s = Some i \<Longrightarrow> i < length (commands s)"
    and "i < length (commands s) \<Longrightarrow> \<not> completed (command s i) \<Longrightarrow> pending s = Some i"
  using assms unfolding commands_inv_def by blast+

lemma monitors_invI:
  assumes "\<And>i pc. m i = Some pc \<Longrightarrow> i < length (commands s) \<and> \<not> completed (command s i) \<and> pc_ok (command s i) pc"
  shows "monitors_inv s m"
  unfolding monitors_inv_def using assms by blast

lemma monitors_invD:
  assumes "monitors_inv s m" "m i = Some pc"
  shows "i < length (commands s)" "\<not> completed (command s i)" "pc_ok (command s i) pc"
  using assms unfolding monitors_inv_def by blast+

lemma same_store_inv:
  assumes "same_store s s'" "term_inv (s, m)"
  shows "term_inv (s', m)" "keeps_completed s s'"
proof -
  have c: "commands s' = commands s" "pending s' = pending s" "\<And>i. command s' i = command s i"
    and e: "buffer_end s \<le> buffer_end s'"
    using assms(1) by (simp_all add: same_store_def command_def)
  from assms(2) have inv: "commands_inv s" "monitors_inv s m" by (simp_all add: term_inv_def)
  have "commands_inv s'"
    by (rule commands_invI; simp only: c)
      (blast intro: commands_invD [OF inv(1)] command_ok_mono [OF _ e])+
  moreover have "monitors_inv s' m"
    by (rule monitors_invI; simp only: c) (blast dest: monitors_invD [OF inv(2)])
  ultimately show "term_inv (s', m)" by (simp add: term_inv_def)
  show "keeps_completed s s'" by (simp add: keeps_completed_def c)
qed

lemma command_update [simp]:
  "i < length (commands s) \<Longrightarrow> command (update_command i f s) j = (if j = i then f (command s i) else command s j)"
  by (simp add: command_def update_command_def)

lemma update_command_simps [simp]:
  "length (commands (update_command i f s)) = length (commands s)"
  "pending (update_command i f s) = pending s" "buffer_end (update_command i f s) = buffer_end s"
  "pending_task (update_command i f s) = pending_task s" "closed (update_command i f s) = closed s"
  by (simp_all add: update_command_def buffer_end_def)

lemma update_inv:
  assumes inv: "commands_inv s" and i: "i < length (commands s)" "\<not> completed (command s i)"
    and ok: "command_ok (buffer_end s) (f (command s i))"
  shows "commands_inv (update_command i f s)" "keeps_completed s (update_command i f s)"
proof -
  show "commands_inv (update_command i f s)"
    by (rule commands_invI; simp add: i split: if_split_asm)
      (use ok commands_invD [OF inv] i in blast)+
  show "keeps_completed s (update_command i f s)" using i by (simp add: keeps_completed_def)
qed

lemma update_monitors:
  assumes "monitors_inv s m" "i < length (commands s)"
    and "\<And>pc. m i = Some pc \<Longrightarrow> \<not> completed (f (command s i)) \<and> pc_ok (f (command s i)) pc"
  shows "monitors_inv (update_command i f s) m"
  by (rule monitors_invI) (use assms monitors_invD [OF assms(1)] in auto)

lemma buffer_end_retain: "buffer_end s \<le> buffer_end (retain d s)"
  by (auto simp: retain_def Let_def buffer_end_def)

lemma busyD: "busy s \<Longrightarrow> \<exists>i. pending s = Some i \<and> \<not> completed (command s i)"
  by (auto simp: busy_def split: option.splits)

subsection \<open>Each operation keeps it\<close>

lemma pc_ok_semantic: "pc_ok c pc \<Longrightarrow> pc_ok (c\<lparr>semantic_exit_code := Some n\<rparr>) pc"
  by (cases pc) auto

lemma consume_marker_inv:
  assumes "term_inv (s, m)"
  shows "term_inv (consume_marker mk s, m) \<and> keeps_completed s (consume_marker mk s)"
proof -
  have "term_inv (update_command i (\<lambda>c. c\<lparr>semantic_exit_code := Some n\<rparr>) s, m)
      \<and> keeps_completed s (update_command i (\<lambda>c. c\<lparr>semantic_exit_code := Some n\<rparr>) s)"
    if p: "pending s = Some i" and c: "\<not> completed (command s i)" for i n
  proof -
    from assms have inv: "commands_inv s" "monitors_inv s m" by (simp_all add: term_inv_def)
    from commands_invD(2) [OF inv(1) p] have i: "i < length (commands s)" .
    have ok: "command_ok (buffer_end s) ((command s i)\<lparr>semantic_exit_code := Some n\<rparr>)"
      using commands_invD(1) [OF inv(1) i] c by (simp add: command_ok_def)
    have "monitors_inv (update_command i (\<lambda>c. c\<lparr>semantic_exit_code := Some n\<rparr>) s) m"
      using monitors_invD [OF inv(2)] i by (intro update_monitors inv(2)) (auto simp: pc_ok_semantic)
    with update_inv [where f = "\<lambda>c. c\<lparr>semantic_exit_code := Some n\<rparr>", OF inv(1) i c ok]
    show ?thesis by (simp add: term_inv_def)
  qed
  with assms show ?thesis by (auto simp: consume_marker_def split: option.split bool.split)
qed

lemma fold_consume_inv:
  "term_inv (s, m) \<Longrightarrow> term_inv (fold consume_marker ms s, m) \<and> keeps_completed s (fold consume_marker ms s)"
proof (induction ms arbitrary: s)
  case (Cons mk ms)
  with consume_marker_inv [OF Cons.prems, of mk] show ?case
    by (auto intro: keeps_completed_trans)
qed simp

lemma append_output_inv:
  assumes "term_inv (s, m)"
  shows "term_inv (append_output v data s, m) \<and> keeps_completed s (append_output v data s)"
proof -
  obtain out t ms where st: "strip_osc (osc_tail s) data = (out, t, ms)" by (cases "strip_osc (osc_tail s) data")
  let ?s1 = "fold consume_marker ms s" and ?s2 = "append_output v data s"
  have "same_store ?s1 ?s2" if "data \<noteq> []"
    using that buffer_end_retain [of "?s1\<lparr>osc_tail := t\<rparr>" out]
    by (simp add: append_output_def strip_rhmcp_osc133_def st same_store_def buffer_end_def)
  with fold_consume_inv [OF assms, of ms] assms show ?thesis
    using same_store_inv [of ?s1 ?s2 m] keeps_completed_trans
    by (cases "data = []") (auto simp: append_output_def)
qed

lemma reader_flush_same_store: "same_store s (reader_flush s)"
  using buffer_end_retain [of "s\<lparr>osc_tail := []\<rparr>" "osc_tail s"]
  by (simp add: reader_flush_def same_store_def buffer_end_def)

lemma exec_start_inv:
  assumes "term_inv (s, m)" "exec_start st v cid cmd wait_ms s = (s', r)"
  shows "term_inv (s', m) \<and> keeps_completed s s'"
proof (cases "s' = s")
  case False
  with assms(2) have nb: "\<not> busy s" and s': "s' = s\<lparr>commands := commands s @ [new_command cid (buffer_end s)
      (session_dir s @ [cid @ ''.done''])], pending := Some (length (commands s))\<rparr>"
    by (auto simp: exec_start_def Let_def split: sum.splits if_splits)
  from assms(1) have inv: "commands_inv s" "monitors_inv s m" by (simp_all add: term_inv_def)
  have fin: "completed (command s i)" if "i < length (commands s)" for i
    using commands_invD(3) [OF inv(1) that] nb by (cases "completed (command s i)") (simp_all add: busy_def)
  have e: "buffer_end s' = buffer_end s" by (simp add: s' buffer_end_def)
  have cmd: "command s' i = (if i = length (commands s)
      then new_command cid (buffer_end s) (session_dir s @ [cid @ ''.done'']) else command s i)"
    if "i < length (commands s')" for i
    using that by (auto simp: s' command_def nth_append)
  have new: "command_ok (buffer_end s) (new_command cid (buffer_end s) dp)" for dp
    by (simp add: command_ok_def new_command_def buffer_end_def)
  have len: "length (commands s') = Suc (length (commands s))" "pending s' = Some (length (commands s))"
    by (simp_all add: s')
  have "commands_inv s'"
    by (rule commands_invI)
      (use new commands_invD(1) [OF inv(1)] fin in \<open>auto simp: cmd e len less_Suc_eq split: if_splits\<close>)
  moreover have "monitors_inv s' m"
    by (rule monitors_invI) (use monitors_invD [OF inv(2)] in \<open>fastforce simp: cmd len\<close>)
  ultimately show ?thesis by (simp add: term_inv_def keeps_completed_def cmd len)
qed (use assms in simp)

lemma exec_sent_same_store: "exec_sent i s (send_bytes v n s) = (s', True) \<Longrightarrow> same_store s s'"
  by (auto simp: exec_sent_def send_bytes_def same_store_def buffer_end_def split: if_splits)

lemma mark_pending_complete_inv:
  assumes "term_inv (s, m)" "m i = Some pc" "completion_ok ((command s i)\<lparr>cmd_exit_code := code, completion_source := Some src\<rparr>)"
  shows "term_inv (mark_pending_complete i code src s, after_step i Returned m)
    \<and> keeps_completed s (mark_pending_complete i code src s)"
proof -
  from assms(1) have inv: "commands_inv s" "monitors_inv s m" by (simp_all add: term_inv_def)
  from inv(2) assms(2) have i: "i < length (commands s)" and c: "\<not> completed (command s i)"
    by (auto dest: monitors_invD)
  have ok: "command_ok (buffer_end s) ((command s i)\<lparr>cmd_exit_code := code, completion_source := Some src,
       end_cursor := Some (buffer_end s), completed := True, event_set := True\<rparr>)"
    using commands_invD(1) [OF inv(1) i] c assms(3) by (simp add: command_ok_def completion_ok_def)
  have "monitors_inv s (after_step i Returned m)"
    by (rule monitors_invI) (use monitors_invD [OF inv(2)] in \<open>simp add: after_step_def split: if_splits\<close>)
  then have "monitors_inv (mark_pending_complete i code src s) (after_step i Returned m)"
    unfolding mark_pending_complete_def by (rule update_monitors [OF _ i]) (simp add: after_step_def)
  moreover note update_inv [where f = "\<lambda>c. c\<lparr>cmd_exit_code := code, completion_source := Some src,
       end_cursor := Some (buffer_end s), completed := True, event_set := True\<rparr>", OF inv(1) i c ok]
  ultimately show ?thesis by (simp add: term_inv_def mark_pending_complete_def)
qed

lemma monitors_same: "monitors_inv s m \<Longrightarrow> m i = Some pc \<Longrightarrow> pc_ok (command s i) pc' \<Longrightarrow> monitors_inv s (after_step i pc' m)"
  by (rule monitors_invI) (auto dest: monitors_invD simp: after_step_def split: if_splits)

lemma monitor_step_inv:
  assumes "term_inv (s, m)" "m i = Some pc" "monitor_step ud v f i pc s = (s', pc')"
  shows "term_inv (s', after_step i pc' m) \<and> keeps_completed s s'"
proof -
  from assms(1) have inv: "commands_inv s" "monitors_inv s m" by (simp_all add: term_inv_def)
  from inv(2) assms(2) have i: "i < length (commands s)" and c: "\<not> completed (command s i)"
    and pc: "pc_ok (command s i) pc"
    by (auto dest: monitors_invD)
  note mark = mark_pending_complete_inv [OF assms(1,2)]
  have stay: "term_inv (s, after_step i p m) \<and> keeps_completed s s" if "pc_ok (command s i) p" for p
    using inv monitors_same [OF inv(2) assms(2) that] by (simp add: term_inv_def)
  have seen: "term_inv (update_command i (\<lambda>c. c\<lparr>saw_non_shell_foreground := True, fg_pgid := Some g\<rparr>) s, after_step i Poll m)
      \<and> keeps_completed s (update_command i (\<lambda>c. c\<lparr>saw_non_shell_foreground := True, fg_pgid := Some g\<rparr>) s)" for g
  proof -
    have ok: "command_ok (buffer_end s) ((command s i)\<lparr>saw_non_shell_foreground := True, fg_pgid := Some g\<rparr>)"
      using commands_invD(1) [OF inv(1) i] c by (simp add: command_ok_def)
    have "monitors_inv s (after_step i Poll m)" by (rule monitors_same [OF inv(2) assms(2)]) simp
    then have "monitors_inv (update_command i (\<lambda>c. c\<lparr>saw_non_shell_foreground := True, fg_pgid := Some g\<rparr>) s) (after_step i Poll m)"
      by (rule update_monitors [OF _ i]) (use c in \<open>simp add: after_step_def\<close>)
    with update_inv [where f = "\<lambda>c. c\<lparr>saw_non_shell_foreground := True, fg_pgid := Some g\<rparr>", OF inv(1) i c ok]
    show ?thesis by (simp add: term_inv_def)
  qed
  show ?thesis
  proof (cases pc)
    case Poll
    with assms(3) c stay seen show ?thesis
      by (auto simp: Let_def split: if_splits option.splits)
  next
    case Osc_Wait
    with pc assms(3) mark show ?thesis by (auto simp: completion_ok_def)
  next
    case (Sentinel_Wait x)
    with assms(3) mark show ?thesis by (auto simp: completion_ok_def)
  next
    case Exit_Wait
    with assms(3) mark show ?thesis by (auto simp: completion_ok_def)
  next
    case (Handback_Wait sh)
    with pc obtain name num where sig: "saw_non_shell_foreground (command s i)" "name \<in> completing_signals"
      "signal_name (command s i) = Some name" "signal_number (command s i) = Some num"
      by auto
    have ok: "completion_ok ((command s i)\<lparr>cmd_exit_code := Some (- num), completion_source := Some ''foreground_pgid''\<rparr>)"
      using sig by (simp add: completion_ok_def)
    from Handback_Wait assms(3) consider "s' = s" "pc' = Poll"
      | "s' = mark_pending_complete i (Some (- num)) ''foreground_pgid'' s" "pc' = Returned"
      using sig(4) by (auto simp: Let_def split: if_split_asm)
    then show ?thesis by cases (use mark [OF ok] stay [of Poll] in simp_all)
  next
    case Returned
    with pc show ?thesis by simp
  qed
qed

lemma record_signal_inv:
  assumes "term_inv (s, m)"
  shows "term_inv (record_signal v name num s, m) \<and> keeps_completed s (record_signal v name num s)"
proof (cases "busy s")
  case True
  from assms have inv: "commands_inv s" "monitors_inv s m" by (simp_all add: term_inv_def)
  from busyD [OF True] obtain i where p: "pending s = Some i" and c: "\<not> completed (command s i)" by blast
  with commands_invD(2) [OF inv(1)] have i: "i < length (commands s)" by blast
  define f :: "pending_command \<Rightarrow> pending_command" where "f = (\<lambda>c. let c1 = (case (foreground_pgid v, shell_pgid v) of
                    (Some fg, Some sh) \<Rightarrow>
                      if fg \<noteq> sh then c\<lparr>saw_non_shell_foreground := True, fg_pgid := Some fg\<rparr> else c
                  | _ \<Rightarrow> c)
        in if name \<in> completing_signals then c1\<lparr>signal_name := Some name, signal_number := Some num\<rparr> else c1)"
  have f: "record_signal v name num s = update_command i f s" using True p by (simp add: record_signal_def f_def)
  have "command_ok (buffer_end s) (f (command s i))"
    using commands_invD(1) [OF inv(1) i] c by (simp add: command_ok_def f_def Let_def split: option.splits)
  from update_inv [where f = f, OF inv(1) i c this]
  have 1: "commands_inv (update_command i f s)" "keeps_completed s (update_command i f s)" by blast+
  have "pc_ok (f c) pc" if "pc_ok c pc" for c pc
    using that by (cases pc) (auto simp: f_def Let_def split: option.splits)
  moreover have "completed (f c) = completed c" for c
    by (auto simp: f_def Let_def split: option.splits)
  ultimately have "monitors_inv (update_command i f s) m"
    using monitors_invD [OF inv(2)] i by (intro update_monitors inv(2)) auto
  with 1 show ?thesis by (simp add: f term_inv_def)
qed (use assms in \<open>simp add: record_signal_def\<close>)

lemma signal_session_inv:
  assumes "term_inv (s, m)" "signal_session v k raw s = (s', r)"
  shows "term_inv (s', m) \<and> keeps_completed s s'"
proof (cases "s' = s")
  case False
  with assms(2) obtain name num where s': "s' = (record_signal v name num s)\<lparr>last_activity_at := clock v\<rparr>"
    by (auto simp: signal_session_def Let_def split: option.splits prod.splits if_splits)
  have "same_store (record_signal v name num s) s'" by (simp add: s' same_store_def buffer_end_def)
  with record_signal_inv [OF assms(1), of v name num] show ?thesis
    using same_store_inv keeps_completed_trans by blast
qed (use assms in simp)

text \<open>Letting go of a reference to a completed command.\<close>

lemma drop_pending_inv:
  assumes "term_inv (s, m)" "pending s = Some i" "completed (command s i)"
    and "commands s' = commands s" "buffer_end s' = buffer_end s" "pending s' = None"
  shows "term_inv (s', m) \<and> keeps_completed s s'"
proof -
  from assms(1) have inv: "commands_inv s" "monitors_inv s m" by (simp_all add: term_inv_def)
  have c: "command s' j = command s j" for j using assms(4) by (simp add: command_def)
  have fin: "completed (command s j)" if "j < length (commands s)" for j
    using commands_invD(3) [OF inv(1) that] assms(2,3) by auto
  have "commands_inv s'"
    by (rule commands_invI) (use commands_invD(1) [OF inv(1)] fin assms(4-) c in auto)
  moreover have "monitors_inv s' m"
    by (rule monitors_invI) (use monitors_invD [OF inv(2)] assms(4) c in auto)
  ultimately show ?thesis using assms(4) c by (simp add: term_inv_def keeps_completed_def)
qed

lemma exec_result_inv:
  assumes "term_inv (s, m)" "exec_result_of st v i s = (s', x)"
  shows "term_inv (s', m) \<and> keeps_completed s s'"
proof -
  let ?s1 = "if completed (command s i) \<and> pending s = Some i then s\<lparr>pending := None\<rparr> else s"
  from assms(2) have s': "s' = ?s1\<lparr>last_activity_at := clock v\<rparr>"
    by (auto simp: exec_result_of_def Let_def split: prod.splits)
  show ?thesis
  proof (cases "completed (command s i) \<and> pending s = Some i")
    case True
    with drop_pending_inv [OF assms(1), of i s'] show ?thesis by (simp add: s' buffer_end_def)
  next
    case False
    then have "same_store s s'" by (simp add: s' same_store_def buffer_end_def)
    with assms(1) show ?thesis using same_store_inv by blast
  qed
qed

lemma forget_completed_inv:
  "term_inv (s, m) \<Longrightarrow> term_inv (forget_completed s, m) \<and> keeps_completed s (forget_completed s)"
  using drop_pending_inv [of s m]
  by (auto simp: forget_completed_def buffer_end_def split: option.split)

lemma term_step_inv:
  assumes "term_step st ud x y" "term_inv x"
  shows "term_inv y \<and> keeps_completed (fst x) (fst y)"
  using assms
proof cases
  case (Sent i s m v n s')
  from Sent(6) have ss: "same_store s s'" by (rule exec_sent_same_store)
  have "monitors_inv s (m(i \<mapsto> Poll))"
    by (rule monitors_invI) (use Sent assms(2) monitors_invD [of s m] in \<open>auto simp: term_inv_def split: if_splits\<close>)
  then have "term_inv (s, m(i \<mapsto> Poll))" using assms(2) Sent by (simp add: term_inv_def)
  with ss Sent show ?thesis using same_store_inv by auto
next
  case (Close s m)
  have "monitors_inv s (cancel_monitor s m)"
    by (rule monitors_invI)
      (use Close assms(2) monitors_invD [of s m] in \<open>auto simp: term_inv_def cancel_monitor_def split: option.splits if_splits\<close>)
  then have "term_inv (s, cancel_monitor s m)" using assms(2) Close by (simp add: term_inv_def)
  moreover have "same_store s (close_session s)" by (simp add: close_session_def same_store_def buffer_end_def)
  ultimately show ?thesis using Close same_store_inv by auto
next
  case (Flush s m)
  with assms(2) same_store_inv [OF reader_flush_same_store] show ?thesis by auto
next
  case (Output s m v data)
  with assms(2) append_output_inv [of s m v data] show ?thesis by simp
next
  case (Start v cid cmd wait_ms s s' r m)
  with assms(2) exec_start_inv show ?thesis by simp
next
  case (Monitor m i pc v f s s' pc')
  with assms(2) monitor_step_inv show ?thesis by simp
next
  case (Result i s v s' x m)
  with assms(2) exec_result_inv show ?thesis by simp
next
  case (Signal v kill_ok raw s s' r m)
  with assms(2) signal_session_inv show ?thesis by simp
next
  case (Forget s m)
  with assms(2) forget_completed_inv [of s m] show ?thesis by simp
qed

definition fresh_session :: "session \<Rightarrow> bool" where
  "fresh_session s \<longleftrightarrow> commands s = [] \<and> pending s = None \<and> pending_task s = None"

lemma fresh_inv: "fresh_session s \<Longrightarrow> term_inv (s, Map.empty)"
  by (simp add: fresh_session_def term_inv_def commands_inv_def monitors_inv_def)

lemma term_steps_inv: "term_steps st ud x y \<Longrightarrow> term_inv x \<Longrightarrow> term_inv y \<and> keeps_completed (fst x) (fst y)"
proof (induction rule: rtranclp_induct)
  case (step y z)
  then show ?case using term_step_inv keeps_completed_trans by blast
qed simp

subsection \<open>From the output stream to the exit code\<close>

lemma consume_marker_cong:
  assumes "commands s' = commands s" "pending s' = pending s"
  shows "commands (consume_marker mk s') = commands (consume_marker mk s)"
proof -
  have c: "command s' = command s" by (rule ext) (simp add: command_def assms)
  have u: "commands (update_command i f s') = commands (update_command i f s)" for i f
    by (simp add: update_command_def c assms(1))
  show ?thesis
    unfolding consume_marker_def assms(2) c by (simp add: u assms(1) split: option.split bool.split)
qed

lemma fold_consume_cong:
  "commands s' = commands s \<Longrightarrow> pending s' = pending s \<Longrightarrow>
   commands (fold consume_marker ms s') = commands (fold consume_marker ms s)"
proof (induction ms arbitrary: s s')
  case (Cons mk ms)
  have "commands (fold consume_marker ms (consume_marker mk s')) = commands (fold consume_marker ms (consume_marker mk s))"
    by (rule Cons.IH) (simp_all only: consume_marker_cong [OF Cons.prems] consume_marker_simps Cons.prems)
  then show ?case by simp
qed simp

lemma append_output_store:
  assumes "data \<noteq> []" "strip_osc (osc_tail s) data = (out, t, ms)"
  shows "commands (append_output v data s) = commands (fold consume_marker ms s)"
    "pending (append_output v data s) = pending s" "osc_tail (append_output v data s) = t"
  using assms by (simp_all add: append_output_def strip_rhmcp_osc133_def)

lemma reader_flush_store [simp]:
  "commands (reader_flush s) = commands s" "pending (reader_flush s) = pending s"
  by (simp_all add: reader_flush_def)

lemma reader_loop_store:
  assumes "osc_stream (osc_tail s) (delivered evs) = (out, t, ms)"
  shows "commands (fst (reader_loop evs s)) = commands (fold consume_marker ms s) \<and>
    pending (fst (reader_loop evs s)) = pending s"
  using assms
proof (induction evs s arbitrary: out t ms rule: reader_loop.induct)
  case (2 stop ev v evs s)
  have step: "commands (fst (reader_loop evs (append_output v d s))) = commands (fold consume_marker ms s)
      \<and> pending (fst (reader_loop evs (append_output v d s))) = pending s"
    if IH: "\<And>out t ms. osc_stream (osc_tail (append_output v d s)) (delivered evs) = (out, t, ms) \<Longrightarrow>
        commands (fst (reader_loop evs (append_output v d s))) = commands (fold consume_marker ms (append_output v d s))
        \<and> pending (fst (reader_loop evs (append_output v d s))) = pending (append_output v d s)"
      and st: "osc_stream (osc_tail s) (d # delivered evs) = (out, t, ms)" for d
  proof (cases "d = []")
    case True
    with IH st show ?thesis by (simp add: append_output_def)
  next
    case False
    obtain o1 t1 m1 where a: "strip_osc (osc_tail s) d = (o1, t1, m1)" by (cases "strip_osc (osc_tail s) d")
    obtain o2 m2 where b: "osc_stream t1 (delivered evs) = (o2, t, m2)" "ms = m1 @ m2"
      using st a False by (auto split: prod.splits)
    note store = append_output_store [OF False a, of v]
    have "commands (fold consume_marker m2 (append_output v d s)) = commands (fold consume_marker m2 (fold consume_marker m1 s))"
      using store by (intro fold_consume_cong) simp_all
    with IH [of o2 t m2] b store show ?thesis by simp
  qed
  show ?case
    using 2 step by (cases stop; cases ev) simp_all
qed simp

lemma done_marker_consumed:
  assumes "pending s = Some i" "i < length (commands s)" "\<not> completed (command s i)" "command_id (command s i) = cid"
    and "length (nat_str rc) \<le> 200"
  shows "semantic_exit_code (command (consume_marker \<lparr>kind = CHR ''D'', marker_id = cid, raw_rc = Some (nat_str rc)\<rparr> s) i)
     = Some (int rc)"
proof -
  have "py_int ascii_digit (ustr_of (nat_str rc)) = Some (int rc)"
    using assms(5) by (intro py_int_nat_str digit_table_ascii) (simp add: int_max_str_digits_def)
  with assms show ?thesis by (simp add: consume_marker_def)
qed

lemma reader_marker_exit_code:
  assumes "osc_tail s = []" "pending s = Some i" "i < length (commands s)" "\<not> completed (command s i)"
    and "command_id (command s i) = cid" "valid_command_id cid" "length (nat_str rc) \<le> 200"
    and "ESC \<notin> set pre" "ESC \<notin> set post" "concat (delivered evs) = pre @ done_marker cid rc @ post"
  shows "semantic_exit_code (command (fst (reader_loop evs s)) i) = Some (int rc)"
    "\<not> completed (command (fst (reader_loop evs s)) i)"
    "length (commands (fst (reader_loop evs s))) = length (commands s)"
    "window s hist \<Longrightarrow> window (fst (reader_loop evs s)) (hist @ pre @ post)"
proof -
  let ?mk = "\<lparr>kind = CHR ''D'', marker_id = cid, raw_rc = Some (nat_str rc)\<rparr>" and ?s = "fst (reader_loop evs s)"
  have st: "osc_stream (osc_tail s) (delivered evs) = (pre @ post, [], [?mk])"
    using osc_stream_marker [OF assms(6-10)] assms(1) by simp
  have "commands ?s = commands (consume_marker ?mk s)"
    using reader_loop_store [OF st] by simp
  then have c: "command ?s i = command (consume_marker ?mk s) i" "length (commands ?s) = length (commands s)"
    by (simp_all add: command_def)
  show "semantic_exit_code (command ?s i) = Some (int rc)"
    using done_marker_consumed [OF assms(2-5) assms(7)] c by simp
  show "\<not> completed (command ?s i)"
    unfolding c using assms(2-4) by (auto simp: consume_marker_def split: option.split bool.split)
  show "length (commands ?s) = length (commands s)" by (rule c)
  show "window ?s (hist @ pre @ post)" if "window s hist"
    using reader_loop_window [OF that st] by (simp split: if_splits)
qed

text \<open>The file the wrapper writes, \<open>printf '%s\n' "$__rhmcp_rc"\<close>, is read back as the exit status.\<close>

lemma sentinel_code_written:
  assumes "digit_table ud" "length (nat_str n) \<le> int_max_str_digits"
  shows "sentinel_code ud (Content (utf8 (ustr_of (nat_str n) @ [10]))) = Some (int n)"
proof -
  have "list_all scalar (ustr_of (nat_str n) @ [10])"
    using nat_str_no_space [of _ n] by (fastforce simp: list_all_iff scalar_def)
  then have "decode_strict (utf8 (ustr_of (nat_str n) @ [10])) = Inr (ustr_of (nat_str n) @ [10])"
    by (rule decode_strict_utf8)
  moreover have "is_space 10" by (simp add: is_space_def)
  ultimately show ?thesis
    using py_int_nat_str [OF assms] by (simp add: sentinel_code_def py_int_trailing del: utf8_append)
qed

subsection \<open>Properties\<close>

text \<open>C2. Exactly-once completion protocol of \<open>terminal_exec\<close>: after any interleaving of PTY output,
  exec calls, monitor segments, signals, status queries and closing, at most one command of the session
  is running, and every completed command carries an output range inside the buffer positions and an
  exit code justified by its completion source.\<close>

theorem terminal_commands_invariant:
  assumes "fresh_session s" "term_steps st ud (s, Map.empty) (s', m')"
  shows "(\<forall>i < length (commands s'). \<forall>j < length (commands s').
            \<not> completed (command s' i) \<and> \<not> completed (command s' j) \<longrightarrow> i = j)
      \<and> (\<forall>i < length (commands s'). completed (command s' i) \<longrightarrow>
            completion_ok (command s' i) \<and>
            (\<exists>e. end_cursor (command s' i) = Some e \<and> start_cursor (command s' i) \<le> e \<and> e \<le> buffer_end s'))"
proof -
  have "commands_inv s'"
    using term_steps_inv [OF assms(2) fresh_inv [OF assms(1)]] by (simp add: term_inv_def)
  note inv = commands_invD [OF this]
  have "i = j" if "i < length (commands s')" "j < length (commands s')"
    "\<not> completed (command s' i)" "\<not> completed (command s' j)" for i j
    using inv(3) [OF that(1) that(3)] inv(3) [OF that(2) that(4)] by simp
  moreover have "completion_ok (command s' i) \<and>
      (\<exists>e. end_cursor (command s' i) = Some e \<and> start_cursor (command s' i) \<le> e \<and> e \<le> buffer_end s')"
    if "i < length (commands s')" "completed (command s' i)" for i
    using inv(1) [OF that(1)] that(2) by (simp add: command_ok_def)
  ultimately show ?thesis by blast
qed

text \<open>C1. A completed command is final: once a monitor has completed it, no later output, signal,
  monitor segment, exec call or status query changes its exit code, its output range or its completion
  source.\<close>

theorem completed_command_is_final:
  assumes "fresh_session s" "term_steps st ud (s, Map.empty) (s1, m1)" "term_steps st ud (s1, m1) (s2, m2)"
    and "i < length (commands s1)" "completed (command s1 i)"
  shows "i < length (commands s2) \<and> command s2 i = command s1 i"
proof -
  have "keeps_completed s1 s2"
    using term_steps_inv [OF assms(3)] term_steps_inv [OF assms(2) fresh_inv [OF assms(1)]] by simp
  with assms(4,5) show ?thesis
    by (auto simp: keeps_completed_def)
qed


text \<open>C6. Following the cursor loses nothing that is retained: whatever the reader thread appended, a client
  that starts at a retained cursor position and follows \<open>next_cursor\<close> until \<open>at_buffer_end\<close>, with any
  positive read size, receives exactly the output from that position on.\<close>

theorem terminal_cursor_complete:
  assumes "window s []" "osc_stream (osc_tail s) (delivered evs) = (out, t, ms)"
    and "reader_loop evs s = (s', True)" "buffer_start s' \<le> off" "off \<le> length (out @ t)" "1 \<le> n"
    and "length (out @ t) - off < fuel"
  shows "follow slice_at fuel s' off n = Some (drop off (out @ t))"
proof -
  have w: "window s' (out @ t)" using reader_loop_window [OF assms(1,2)] assms(3) by simp
  then have b: "buffer s' = drop (buffer_start s') (out @ t)" "buffer_start s' \<le> length (out @ t)"
    by (simp_all add: window_def)
  then have "buffer_start s' + length (buffer s') = length (out @ t)" by simp
  with term_window.follow_complete [of s' off n n fuel] assms(4-7)
  have "follow slice_at fuel s' off n = Some (drop (off - buffer_start s') (buffer s'))" by simp
  with b(1) assms(4) show ?thesis by (simp only: drop_drop le_add_diff_inverse2)
qed

text \<open>C7. The buffer is a bounded suffix of the output: after any run of the reader thread the retained bytes
  are at most \<open>max_buffer_bytes\<close>, they are the last bytes delivered (markers removed, a held-back tail
  included once the stream has ended), and cursor positions count all bytes ever delivered.\<close>

theorem terminal_buffer_bounded_suffix:
  assumes "buffer s = []" "buffer_start s = 0" "0 \<le> max_buffer_bytes s"
    and "osc_stream (osc_tail s) (delivered evs) = (out, t, ms)" "reader_loop evs s = (s', ended)"
  shows "let total = out @ (if ended then t else []) in
    buffer s' = drop (buffer_start s') total \<and> buffer_end s' = int (length total)
    \<and> int (length (buffer s')) \<le> max_buffer_bytes s'"
proof -
  have "window s []" using assms(1-3) by (simp add: window_def)
  from reader_loop_window [OF this assms(4)] assms(5)
  have w: "window s' (out @ (if ended then t else []))" by simp
  from w window_end [OF w] show ?thesis unfolding Let_def window_def by blast
qed


subsection \<open>Witnesses\<close>

definition sample_session :: session where
  "sample_session =
     \<lparr>terminal_id = replicate 32 (CHR ''a''), child_pid = 40, shell = ''/bin/bash'', initial_cwd = ''/srv'', cols = 80,
      rows = 24, created_at = 90, last_activity_at = 90, max_buffer_bytes = 8,
      session_dir = [''var'', ''state'', ''terminals'', ''a''], buffer = [], buffer_start = 0, stop_reader = False,
      commands = [], pending = None, pending_task = None, closed = False, screen_log = [], osc_tail = []\<rparr>"

definition live_view :: os_view where
  "live_view = \<lparr>isalive = Some True, exitstatus = None, signalstatus = None, child_pgid = Some 40, tty_pgrp = Some 40,
     cwd_link = None, clock = 100\<rparr>"

definition sample_cid :: string where
  "sample_cid = replicate 24 (CHR ''b'')"

definition started_session :: session where
  "started_session = sample_session
     \<lparr>commands := [new_command sample_cid 0 [''var'', ''state'', ''terminals'', ''a'', sample_cid @ ''.done'']],
      pending := Some 0\<rparr>"

lemma fresh_sample: "fresh_session sample_session"
  by (simp add: fresh_session_def sample_session_def)

lemma sample_start: "\<exists>r. exec_start sample_settings live_view sample_cid (ustr_of ''ls'') 0 sample_session = (started_session, r)"
  by (simp add: exec_start_def encode_utf8_def ustr_of_def scalar_def strip_def is_space_def sample_settings_def
      default_settings_def sample_session_def started_session_def alive_def live_view_def busy_def buffer_end_def
      utf8_char_def utf8_units_def Let_def)

definition sent_session :: session where
  "sent_session = started_session\<lparr>last_activity_at := 100, pending_task := Some 0\<rparr>"

definition ended_session :: session where
  "ended_session = mark_pending_complete 0 (Some 7) ''sentinel'' sent_session"

lemma sample_run:
  "term_steps sample_settings ascii_digit (sample_session, Map.empty)
     (ended_session, after_step 0 Returned (after_step 0 (Sentinel_Wait (Some 7)) (Map.empty(0 \<mapsto> Poll))))"
proof -
  let ?R = "term_step sample_settings ascii_digit"
  have 1: "?R (sample_session, Map.empty) (started_session, Map.empty)"
    using sample_start term_step.Start by blast
  have "exec_sent 0 started_session (send_bytes live_view 9 started_session) = (sent_session, True)"
    by (simp add: exec_sent_def send_bytes_def alive_def started_session_def sample_session_def live_view_def sent_session_def)
  then have 2: "?R (started_session, Map.empty) (sent_session, Map.empty(0 \<mapsto> Poll))"
    by (rule term_step.Sent [rotated 3]) (simp_all add: started_session_def command_def new_command_def)
  have "sentinel_code ascii_digit (Content (utf8 (ustr_of (nat_str 7) @ [10]))) = Some (int 7)"
    by (rule sentinel_code_written [OF digit_table_ascii]) (use length_nat_str_small [of 7] in \<open>simp add: int_max_str_digits_def\<close>)
  then have "monitor_step ascii_digit live_view (Content (utf8 (ustr_of (nat_str 7) @ [10]))) 0 Poll sent_session = (sent_session, Sentinel_Wait (Some 7))"
    by (simp add: sent_session_def started_session_def command_def new_command_def)
  then have 3: "?R (sent_session, Map.empty(0 \<mapsto> Poll)) (sent_session, after_step 0 (Sentinel_Wait (Some 7)) (Map.empty(0 \<mapsto> Poll)))"
    by (rule term_step.Monitor [rotated]) simp
  have 4: "?R (sent_session, after_step 0 (Sentinel_Wait (Some 7)) (Map.empty(0 \<mapsto> Poll)))
     (ended_session, after_step 0 Returned (after_step 0 (Sentinel_Wait (Some 7)) (Map.empty(0 \<mapsto> Poll))))"
    by (rule term_step.Monitor [where pc = "Sentinel_Wait (Some 7)" and f = Absent and v = live_view])
      (simp_all add: after_step_def ended_session_def)
  from 1 2 3 4 show ?thesis by (meson rtranclp.rtrancl_into_rtrancl rtranclp.rtrancl_refl)
qed

theorem terminal_commands_invariant_witness:
  "length (commands ended_session) = 1 \<and> completed (command ended_session 0) \<and> completion_ok (command ended_session 0)"
  using terminal_commands_invariant [OF fresh_sample sample_run]
  by (simp add: ended_session_def mark_pending_complete_def update_command_def sent_session_def started_session_def command_def)

theorem completed_command_is_final_witness:
  "cmd_exit_code (command (append_output live_view ''hi'' ended_session) 0) = Some 7"
proof -
  let ?m = "after_step 0 Returned (after_step 0 (Sentinel_Wait (Some 7)) (Map.empty(0 \<mapsto> Poll)))"
  have "term_steps sample_settings ascii_digit (ended_session, ?m) (append_output live_view ''hi'' ended_session, ?m)"
    by (rule r_into_rtranclp) (rule term_step.Output)
  moreover have "0 < length (commands ended_session)" "completed (command ended_session 0)"
    "cmd_exit_code (command ended_session 0) = Some 7"
    by (simp_all add: ended_session_def mark_pending_complete_def update_command_def sent_session_def
        started_session_def command_def)
  ultimately show ?thesis
    using completed_command_is_final [OF fresh_sample sample_run] by simp
qed

definition split_reads :: "(bool \<times> pty_event \<times> os_view) list" where
  "split_reads = map (\<lambda>d. (False, Pty_Data d, live_view))
     [''ok'' @ take 3 (done_marker sample_cid 7), take 20 (drop 3 (done_marker sample_cid 7)),
      drop 23 (done_marker sample_cid 7) @ ''$ '']"


theorem terminal_cursor_complete_witness:
  "follow slice_at 7 (fst (reader_loop [(False, Pty_Data ''hello world'', live_view), (False, Pty_Eof, live_view)] sample_session)) 5 2
     = Some '' world''"
proof -
  let ?evs = "[(False, Pty_Data ''hello world'', live_view), (False, Pty_Eof, live_view)]"
  have e: "ESC \<notin> set (concat (delivered ?evs))" by (simp add: ESC_def)
  have "osc_stream [] (delivered ?evs) = (''hello world'', [], [])"
    using osc_stream_plain [OF e] by simp
  then have st: "osc_stream (osc_tail sample_session) (delivered ?evs) = (''hello world'', [], [])"
    by (simp add: sample_session_def)
  have w: "window sample_session []" by (simp add: window_def sample_session_def)
  obtain s' where r: "reader_loop ?evs sample_session = (s', True)" by simp
  have "buffer_start s' \<le> 5"
  proof -
    have "strip_osc [] ''hello world'' = (''hello world'', [], [])" by (rule strip_osc_plain) (simp add: ESC_def)
    with r show ?thesis
      by (auto simp: append_output_def strip_rhmcp_osc133_def sample_session_def reader_flush_def retain_def)
  qed
  with terminal_cursor_complete [OF w st r, of 5 2 7] r show ?thesis by simp
qed

theorem terminal_buffer_bounded_suffix_witness:
  "buffer (fst (reader_loop [(False, Pty_Data ''hello world'', live_view)] sample_session)) = ''lo world''"
proof -
  let ?evs = "[(False, Pty_Data ''hello world'', live_view)]"
  have e: "ESC \<notin> set (concat (delivered ?evs))" by (simp add: ESC_def)
  have st: "osc_stream (osc_tail sample_session) (delivered ?evs) = (''hello world'', [], [])"
    using osc_stream_plain [OF e] by (simp add: sample_session_def)
  have "strip_osc [] ''hello world'' = (''hello world'', [], [])" by (rule strip_osc_plain) (simp add: ESC_def)
  then have b: "buffer_start (fst (reader_loop ?evs sample_session)) = 3"
    by (simp add: append_output_def strip_rhmcp_osc133_def sample_session_def retain_def)
  have "reader_loop ?evs sample_session = (fst (reader_loop ?evs sample_session), False)" by simp
  from terminal_buffer_bounded_suffix [OF _ _ _ st this] b show ?thesis
    by (simp add: sample_session_def Let_def)
qed

end
