(* ===== verification/Paths.thy ===== *)
theory Paths
  imports Config
begin

text \<open>
  Path handling and the allowed-roots check of \<open>src/remote_host_mcp/config.py\<close>
  (\<open>_is_under_allowed_root\<close>, \<open>resolve_allowed_path\<close>, \<open>resolve_allowed_entry\<close>), over the parts of
  \<open>pathlib\<close> and \<open>os.path\<close> they use.  A \<open>pathlib\<close> path is its anchor (the number of leading slashes
  it keeps: none, one, or exactly two) and its components.  \<open>expanduser\<close> and the symlink resolution
  \<open>Path.resolve(strict=False)\<close> ask the operating system and are arguments.
\<close>

type_synonym ppath = "nat \<times> path"

fun split_slash :: "string \<Rightarrow> string list" where
  "split_slash [] = [[]]"
| "split_slash (c # cs) =
     (if c = CHR ''/'' then [] # split_slash cs
      else case split_slash cs of [] \<Rightarrow> [[c]] | w # ws \<Rightarrow> (c # w) # ws)"

definition anchor :: "string \<Rightarrow> nat" where
  "anchor s = (let n = length (takeWhile (\<lambda>c. c = CHR ''/'') s) in if n = 0 then 0 else if n = 2 then 2 else 1)"

text \<open>\<open>Path(s)\<close>: empty and dot components are dropped, \<open>..\<close> is kept.\<close>

definition parse_path :: "string \<Rightarrow> ppath" where
  "parse_path s = (anchor s, filter (\<lambda>c. c \<noteq> [] \<and> c \<noteq> ''.'') (split_slash s))"

text \<open>\<open>os.path.normpath\<close>, on an already parsed path: \<open>..\<close> removes the component before it.\<close>

fun collapse :: "bool \<Rightarrow> string list \<Rightarrow> string list \<Rightarrow> string list" where
  "collapse absolute acc [] = rev acc"
| "collapse absolute acc (c # cs) =
     (if c \<noteq> ''..'' then collapse absolute (c # acc) cs
      else case acc of
        [] \<Rightarrow> if absolute then collapse absolute [] cs else collapse absolute [''..''] cs
      | a # as \<Rightarrow> if a = ''..'' then collapse absolute (''..'' # acc) cs else collapse absolute as cs)"

definition normpath :: "ppath \<Rightarrow> ppath" where
  "normpath p = (fst p, collapse (fst p \<noteq> 0) [] (snd p))"

definition under_root :: "path \<Rightarrow> path \<Rightarrow> bool" where
  "under_root root p = (take (length root) p = root)"

definition is_under_allowed_root :: "settings \<Rightarrow> path \<Rightarrow> bool" where
  "is_under_allowed_root st p = list_ex (\<lambda>root. under_root root p) (allowed_roots st)"

text \<open>What the operating system contributes.\<close>

record path_env =
  expanduser :: "string \<Rightarrow> string res"
  realpath :: "ppath \<Rightarrow> path res"
  home_dir :: ppath

definition resolve_allowed_path :: "settings \<Rightarrow> path_env \<Rightarrow> string option \<Rightarrow> ppath option \<Rightarrow> path res" where
  "resolve_allowed_path st env raw dflt =
     (case (case raw of
              Some r \<Rightarrow> if r \<noteq> [] then (case expanduser env r of Inl e \<Rightarrow> Inl e | Inr x \<Rightarrow> Inr (parse_path x))
                        else Inr (case dflt of Some d \<Rightarrow> d | None \<Rightarrow> home_dir env)
            | None \<Rightarrow> Inr (case dflt of Some d \<Rightarrow> d | None \<Rightarrow> home_dir env)) of
        Inl e \<Rightarrow> Inl e
      | Inr p \<Rightarrow>
          (case realpath env p of
             Inl e \<Rightarrow> Inl e
           | Inr resolved \<Rightarrow>
               if is_under_allowed_root st resolved then Inr resolved
               else Inl (ValueError ''Path is outside RHMCP_ALLOWED_ROOTS'')))"

definition resolve_allowed_entry :: "settings \<Rightarrow> path_env \<Rightarrow> string \<Rightarrow> path res" where
  "resolve_allowed_entry st env raw =
     (case expanduser env raw of
        Inl e \<Rightarrow> Inl e
      | Inr x \<Rightarrow>
          let p = normpath (parse_path x) in
          if fst p = 0 then Inl (ValueError ''Path must be absolute'')
          else (case find (\<lambda>root. p = (1, root)) (allowed_roots st) of
                  Some root \<Rightarrow> Inr root
                | None \<Rightarrow>
                    (case realpath env (fst p, butlast (snd p)) of
                       Inl e \<Rightarrow> Inl e
                     | Inr parent \<Rightarrow>
                         if \<not> is_under_allowed_root st parent
                         then Inl (ValueError ''Path is outside RHMCP_ALLOWED_ROOTS'')
                         else Inr (if snd p = [] then parent else parent @ [last (snd p)]))))"

subsection \<open>Containment\<close>

lemma under_root_iff: "under_root r p \<longleftrightarrow> (\<exists>q. p = r @ q)"
  by (metis append_eq_conv_conj append_take_drop_id under_root_def)

lemma is_under_allowed_root_append:
  "is_under_allowed_root st p \<Longrightarrow> is_under_allowed_root st (p @ q)"
  unfolding is_under_allowed_root_def list_ex_iff under_root_iff by (metis append.assoc)

lemma collapse_clean:
  assumes "''..'' \<notin> set acc"
  shows "''..'' \<notin> set (collapse True acc cs)"
  using assms
proof (induction cs arbitrary: acc)
  case (Cons c cs)
  then show ?case by (cases acc) auto
qed simp

lemma collapse_subset:
  "x \<in> set (collapse absolute acc cs) \<Longrightarrow> x \<in> set acc \<or> x \<in> set cs \<or> x = ''..''"
proof (induction absolute acc cs rule: collapse.induct)
  case (2 absolute acc c cs)
  then show ?case by (cases acc) (auto split: if_split_asm)
qed simp

lemma normpath_clean:
  assumes "fst p \<noteq> 0"
  shows "''..'' \<notin> set (snd (normpath p))"
  using assms collapse_clean [of "[]" "snd p"] by (simp add: normpath_def)

lemma split_slash_no_slash: "w \<in> set (split_slash s) \<Longrightarrow> CHR ''/'' \<notin> set w"
  by (induction s arbitrary: w) (auto split: list.splits if_splits)

lemma normpath_parse_components:
  assumes "c \<in> set (snd (normpath (parse_path s)))" "fst (parse_path s) \<noteq> 0"
  shows "c \<noteq> ''..'' \<and> c \<noteq> ''.'' \<and> c \<noteq> [] \<and> CHR ''/'' \<notin> set c"
proof -
  have "c \<noteq> ''..''" using normpath_clean [OF assms(2)] assms(1) by auto
  moreover from this have "c \<in> set (snd (parse_path s))"
    using assms(1) collapse_subset [of c True "[]" "snd (parse_path s)"] assms(2) by (auto simp: normpath_def)
  ultimately show ?thesis using split_slash_no_slash by (auto simp: parse_path_def)
qed

text \<open>C8. An entry resolved for a mutating operation stays below an allowed root: it is an allowed root
  itself, or a canonical directory below one extended by at most one component, and that component is
  never empty, \<open>.\<close>, \<open>..\<close> or a name with a slash, whatever the caller sent and however the
  symlinks are arranged.\<close>

theorem resolve_allowed_entry_contained:
  assumes "resolve_allowed_entry st env raw = Inr p"
  shows "is_under_allowed_root st p
    \<and> (p \<in> set (allowed_roots st) \<or>
       (\<exists>dir name q. realpath env q = Inr dir \<and> is_under_allowed_root st dir \<and>
          (p = dir \<or> p = dir @ [name] \<and> name \<noteq> ''..'' \<and> name \<noteq> ''.'' \<and> name \<noteq> [] \<and> CHR ''/'' \<notin> set name)))"
proof -
  from assms obtain x where x: "expanduser env raw = Inr x"
    by (auto simp: resolve_allowed_entry_def split: sum.splits)
  define q where "q = normpath (parse_path x)"
  have abs: "fst (parse_path x) \<noteq> 0" "fst q \<noteq> 0"
    using assms by (auto simp: resolve_allowed_entry_def x q_def Let_def normpath_def split: if_splits)
  consider (root) "p \<in> set (allowed_roots st)"
    | (entry) dir where "realpath env (fst q, butlast (snd q)) = Inr dir" "is_under_allowed_root st dir"
        "p = (if snd q = [] then dir else dir @ [last (snd q)])"
    using assms abs
    by (auto simp: resolve_allowed_entry_def x Let_def q_def [symmetric] find_Some_iff split: option.splits sum.splits if_splits)
  then show ?thesis
  proof cases
    case root
    then show ?thesis by (auto simp: is_under_allowed_root_def list_ex_iff under_root_iff intro!: bexI [of _ p])
  next
    case entry
    have "is_under_allowed_root st p"
      using entry(2,3) is_under_allowed_root_append by simp
    moreover have "last (snd q) \<noteq> ''..'' \<and> last (snd q) \<noteq> ''.'' \<and> last (snd q) \<noteq> [] \<and> CHR ''/'' \<notin> set (last (snd q))"
      if "snd q \<noteq> []"
      using normpath_parse_components [OF _ abs(1), of "last (snd q)"] that by (simp add: q_def)
    ultimately show ?thesis using entry by (cases "snd q = []") auto
  qed
qed

definition plain_env :: path_env where
  "plain_env = \<lparr>expanduser = Inr, realpath = (\<lambda>p. Inr (snd (normpath p))), home_dir = (1, [''home''])\<rparr>"

theorem resolve_allowed_entry_contained_witness:
  "resolve_allowed_entry sample_settings plain_env ''/srv/x/../../srv//data/./log'' = Inr [''srv'', ''data'', ''log'']
   \<and> is_under_allowed_root sample_settings [''srv'', ''data'', ''log'']
   \<and> resolve_allowed_entry sample_settings plain_env ''/srv/../etc/passwd''
       = Inl (ValueError ''Path is outside RHMCP_ALLOWED_ROOTS'')"
proof -
  have 1: "resolve_allowed_entry sample_settings plain_env ''/srv/x/../../srv//data/./log'' = Inr [''srv'', ''data'', ''log'']"
    by code_simp
  moreover have "resolve_allowed_entry sample_settings plain_env ''/srv/../etc/passwd''
       = Inl (ValueError ''Path is outside RHMCP_ALLOWED_ROOTS'')"
    by code_simp
  ultimately show ?thesis using resolve_allowed_entry_contained [OF 1] by blast
qed

end
