(* ===== verification/Term_Manager.thy ===== *)
theory Term_Manager
  imports Term_Steps Paths "HOL-Library.AList"
begin

text \<open>
  \<open>TerminalManager\<close> of \<open>src/remote_host_mcp/terminal.py\<close> and \<open>_terminal_status\<close> of
  \<open>src/remote_host_mcp/host_server.py\<close>: the table of sessions, \<open>open\<close>, \<open>read\<close>, \<open>write\<close>, \<open>resize\<close>,
  \<open>screen_snapshot\<close>, \<open>list\<close>, \<open>close\<close> and the janitor.  The dictionary of sessions is an association
  list in insertion order; a session object that is mutated through another reference is mutated in
  place.
\<close>

record manager =
  sessions :: "(string \<times> session) list"
  state_dirs :: "string list"

definition new_manager :: manager where
  "new_manager = \<lparr>sessions = [], state_dirs = []\<rparr>"

definition mutate :: "string \<Rightarrow> (session \<Rightarrow> session) \<Rightarrow> manager \<Rightarrow> manager" where
  "mutate tid f mgr = mgr\<lparr>sessions := map (\<lambda>(k, s). (k, if k = tid then f s else s)) (sessions mgr)\<rparr>"

definition validate_id :: "string \<Rightarrow> string res" where
  "validate_id tid =
     (if length tid = 32 \<and> list_all is_hex_lower tid then Inr tid else Inl (ValueError ''Invalid terminal_id''))"

definition lookup_session :: "string \<Rightarrow> manager \<Rightarrow> session res" where
  "lookup_session tid mgr =
     (case validate_id tid of
        Inl e \<Rightarrow> Inl e
      | Inr t \<Rightarrow> (case map_of (sessions mgr) t of
          None \<Rightarrow> Inl (ValueError ''Unknown terminal_id'')
        | Some s \<Rightarrow> Inr s))"

subsection \<open>open\<close>

record open_result =
  or_terminal_id :: string
  or_pid :: int
  or_shell :: string
  or_cwd :: path
  or_cols :: int
  or_rows :: int
  or_created_at :: int

text \<open>What \<open>open\<close> gets from its surroundings: the working directory of the server, the directory
  test, whether bash exists, the random id, the clock, and the spawned child (\<open>None\<close>: spawn raises).\<close>

record open_env =
  oe_paths :: path_env
  oe_cwd :: ppath
  oe_is_dir :: "path \<Rightarrow> bool"
  oe_has_bash :: bool
  oe_token :: string
  oe_spawn :: "int option"
  oe_now :: int

definition safe_cwd :: "settings \<Rightarrow> open_env \<Rightarrow> string option \<Rightarrow> path res" where
  "safe_cwd st env cwd =
     (case cwd of
        None \<Rightarrow> (case resolve_allowed_path st (oe_paths env) None (Some (oe_cwd env)) of
            Inl (ValueError m) \<Rightarrow> Inr (hd (allowed_roots st))
          | r \<Rightarrow> r)
      | Some c \<Rightarrow> resolve_allowed_path st (oe_paths env) (Some c) None)"

definition live_sessions :: "(string \<Rightarrow> os_view) \<Rightarrow> manager \<Rightarrow> (string \<times> session) list" where
  "live_sessions views mgr = filter (\<lambda>(k, s). alive (views k) s) (sessions mgr)"

definition new_session :: "settings \<Rightarrow> open_env \<Rightarrow> path \<Rightarrow> int \<Rightarrow> int \<Rightarrow> int \<Rightarrow> session" where
  "new_session st env cwd pid c r =
     \<lparr>terminal_id = oe_token env, child_pid = pid, shell = (if oe_has_bash env then ''/bin/bash'' else ''/bin/sh''),
      initial_cwd = path_str cwd, cols = c, rows = r, created_at = oe_now env, last_activity_at = oe_now env,
      max_buffer_bytes = terminal_buffer_bytes st,
      session_dir = state_dir st @ [''terminals'', oe_token env], buffer = [], buffer_start = 0,
      stop_reader = False, commands = [], pending = None, pending_task = None, closed = False,
      screen_log = [Resize r c], osc_tail = []\<rparr>"

definition open_terminal ::
  "settings \<Rightarrow> open_env \<Rightarrow> (string \<Rightarrow> os_view) \<Rightarrow> string option \<Rightarrow> int \<Rightarrow> int \<Rightarrow> manager \<Rightarrow> manager \<times> open_result res"
where
  "open_terminal st env views cwd c r mgr =
     (if c < 20 \<or> 500 < c then (mgr, Inl (ValueError ''cols must be between 20 and 500''))
      else if r < 5 \<or> 300 < r then (mgr, Inl (ValueError ''rows must be between 5 and 300''))
      else case safe_cwd st env cwd of
        Inl e \<Rightarrow> (mgr, Inl e)
      | Inr dir \<Rightarrow>
          if \<not> oe_is_dir env dir then (mgr, Inl (ValueError ''cwd is not an existing allowed directory''))
          else if terminal_max_sessions st \<le> int (length (live_sessions views mgr))
          then (mgr, Inl (ValueError (''Terminal session limit reached ('' @ int_str (terminal_max_sessions st) @ '')'')))
          else if oe_token env \<in> set (state_dirs mgr) then (mgr, Inl (OSError EEXIST))
          else (let mgr1 = mgr\<lparr>state_dirs := state_dirs mgr @ [oe_token env]\<rparr> in
            case oe_spawn env of
              None \<Rightarrow> (mgr1, Inl (RuntimeError ''spawn''))
            | Some pid \<Rightarrow>
                let s = new_session st env dir pid c r in
                (mgr1\<lparr>sessions := AList.update (oe_token env) s (sessions mgr)\<rparr>,
                 Inr \<lparr>or_terminal_id = oe_token env, or_pid = pid, or_shell = shell s, or_cwd = dir,
                      or_cols = c, or_rows = r, or_created_at = oe_now env\<rparr>)))"

subsection \<open>read, write, resize, screen, list, status\<close>

record read_result =
  rr_cursor :: int
  rr_next :: int
  rr_text :: ustr
  rr_bytes :: nat
  rr_truncated :: bool
  rr_at_end :: bool
  rr_alive :: bool
  rr_exit_code :: "int option"

definition read_terminal ::
  "settings \<Rightarrow> os_view \<Rightarrow> string \<Rightarrow> int option \<Rightarrow> int \<Rightarrow> int \<Rightarrow> (bool \<times> session \<times> os_view) list \<Rightarrow> manager
     \<Rightarrow> manager \<times> read_result res"
where
  "read_terminal st v tid cursor max_bytes wait_ms wakeups mgr =
     (case lookup_session tid mgr of
        Inl e \<Rightarrow> (mgr, Inl e)
      | Inr s \<Rightarrow>
          if max_bytes < 1 \<or> terminal_read_max_bytes st < max_bytes
          then (mgr, Inl (ValueError (''max_bytes must be between 1 and '' @ int_str (terminal_read_max_bytes st))))
          else if wait_ms < 0 \<or> terminal_wait_max_ms st < wait_ms
          then (mgr, Inl (ValueError (''wait_ms must be between 0 and '' @ int_str (terminal_wait_max_ms st))))
          else (case read_slice cursor max_bytes wait_ms wakeups s v of
              ((s', v'), Inl e) \<Rightarrow> (mutate tid (\<lambda>_. s') mgr, Inl e)
            | ((s', v'), Inr sl) \<Rightarrow>
                let s2 = s'\<lparr>last_activity_at := clock v'\<rparr> in
                (mutate tid (\<lambda>_. s2) mgr,
                 Inr \<lparr>rr_cursor = sl_cursor sl, rr_next = sl_next sl,
                      rr_text = redact_key (path_key st) (decode_replace (sl_data sl)),
                      rr_bytes = length (sl_data sl), rr_truncated = sl_truncated sl, rr_at_end = sl_at_end sl,
                      rr_alive = alive v' s2, rr_exit_code = exit_code v' s2\<rparr>)))"

definition write_terminal :: "os_view \<Rightarrow> int \<Rightarrow> string \<Rightarrow> ustr \<Rightarrow> bool \<Rightarrow> manager \<Rightarrow> manager \<times> (bytes \<times> int \<times> bool) res" where
  "write_terminal v sent tid str append_enter mgr =
     (case lookup_session tid mgr of
        Inl e \<Rightarrow> (mgr, Inl e)
      | Inr s \<Rightarrow>
          (case encode_utf8 str of
             Inl e \<Rightarrow> (mgr, Inl e)
           | Inr bs \<Rightarrow>
               let raw = bs @ (if append_enter then [CHR 0x0A] else []) in
               if 65536 < length raw
               then (mgr, Inl (ValueError ''terminal_write payload exceeds 65536 UTF-8 bytes''))
               else (case send_bytes v sent s of
                   Inl e \<Rightarrow> (mgr, Inl e)
                 | Inr (s', n) \<Rightarrow> (mutate tid (\<lambda>_. s') mgr, Inr (raw, n, alive v s')))))"

definition resize_terminal :: "os_view \<Rightarrow> string \<Rightarrow> int \<Rightarrow> int \<Rightarrow> manager \<Rightarrow> manager \<times> action_result res" where
  "resize_terminal v tid c r mgr =
     (case lookup_session tid mgr of
        Inl e \<Rightarrow> (mgr, Inl e)
      | Inr s \<Rightarrow>
          if c < 20 \<or> 500 < c \<or> r < 5 \<or> 300 < r
          then (mgr, Inl (ValueError ''terminal size is outside allowed bounds''))
          else if \<not> alive v s then (mgr, Inl (ValueError ''Terminal is not alive''))
          else (mutate tid (\<lambda>s. s\<lparr>cols := c, rows := r, screen_log := screen_log s @ [Resize r c],
                                 last_activity_at := clock v\<rparr>) mgr,
                Inr \<lparr>ar_terminal_id = tid,
                     ar_action = ustr_of (''resize:'' @ int_str c @ ''x'' @ int_str r), ar_alive = True\<rparr>))"

definition signal_terminal ::
  "os_view \<Rightarrow> bool \<Rightarrow> string \<Rightarrow> ustr \<Rightarrow> manager \<Rightarrow> manager \<times> (action_result \<times> delivery) res"
where
  "signal_terminal v kill_ok tid name mgr =
     (case lookup_session tid mgr of
        Inl e \<Rightarrow> (mgr, Inl e)
      | Inr s \<Rightarrow> (case signal_session v kill_ok name s of (s', r) \<Rightarrow> (mutate tid (\<lambda>_. s') mgr, r)))"

record screen_result =
  sr_columns :: int
  sr_rows :: int
  sr_display :: ustr
  sr_cursor :: int
  sr_alive :: bool
  sr_busy :: bool

text \<open>\<open>display\<close> stands for the pyte screen: the lines it shows after the logged calls.\<close>

definition screen_snapshot ::
  "settings \<Rightarrow> (screen_event list \<Rightarrow> ustr list) \<Rightarrow> os_view \<Rightarrow> string \<Rightarrow> manager \<Rightarrow> screen_result res"
where
  "screen_snapshot st display v tid mgr =
     (case lookup_session tid mgr of
        Inl e \<Rightarrow> Inl e
      | Inr s \<Rightarrow>
          let lines = display (screen_log s);
              joined = concat (map (\<lambda>l. l @ [10]) (butlast lines)) @ (if lines = [] then [] else last lines)
          in Inr \<lparr>sr_columns = cols s, sr_rows = rows s, sr_display = redact_key (path_key st) joined,
                  sr_cursor = buffer_end s, sr_alive = alive v s, sr_busy = busy s\<rparr>)"

definition list_terminals :: "(string \<Rightarrow> os_view) \<Rightarrow> manager \<Rightarrow> manager \<times> terminal_info list" where
  "list_terminals views mgr =
     (let mgr' = mgr\<lparr>sessions := map (\<lambda>(k, s). (k, forget_completed s)) (sessions mgr)\<rparr>
      in (mgr', map (\<lambda>(k, s). info (views k) s) (sessions mgr')))"

record status_result =
  st_info :: terminal_info
  st_command_id :: "string option"
  st_completed :: "bool option"
  st_exit_code :: "int option"
  st_source :: "string option"

definition terminal_status :: "os_view \<Rightarrow> string \<Rightarrow> manager \<Rightarrow> status_result res" where
  "terminal_status v tid mgr =
     (case lookup_session tid mgr of
        Inl e \<Rightarrow> Inl e
      | Inr s \<Rightarrow>
          let c = map_option (command s) (pending s) in
          Inr \<lparr>st_info = info v s, st_command_id = map_option command_id c, st_completed = map_option completed c,
               st_exit_code = (case c of Some c \<Rightarrow> if completed c then cmd_exit_code c else None | None \<Rightarrow> None),
               st_source = (case c of Some c \<Rightarrow> if completed c then completion_source c else None | None \<Rightarrow> None)\<rparr>)"

subsection \<open>close and the janitor\<close>

text \<open>The result carries the process group that \<open>close\<close> terminates before it closes the shell.\<close>

definition close_terminal :: "os_view \<Rightarrow> int \<Rightarrow> string \<Rightarrow> manager \<Rightarrow> manager \<times> (action_result \<times> int option) res" where
  "close_terminal v own_pgrp tid mgr =
     (case validate_id tid of
        Inl e \<Rightarrow> (mgr, Inl e)
      | Inr t \<Rightarrow>
          (case map_of (sessions mgr) t of
             None \<Rightarrow> (mgr, Inl (ValueError ''Unknown terminal_id''))
           | Some s \<Rightarrow>
               let killed = (case foreground_pgid v of
                     Some fg \<Rightarrow> if Some fg \<noteq> shell_pgid v \<and> fg \<noteq> own_pgrp then Some fg else None
                   | None \<Rightarrow> None)
               in (mgr\<lparr>sessions := AList.delete t (sessions mgr), state_dirs := filter (\<lambda>d. d \<noteq> t) (state_dirs mgr)\<rparr>,
                   Inr (\<lparr>ar_terminal_id = t, ar_action = ustr_of ''close'', ar_alive = False\<rparr>, killed))))"

definition stale_ids :: "settings \<Rightarrow> (string \<Rightarrow> os_view) \<Rightarrow> int \<Rightarrow> manager \<Rightarrow> string list" where
  "stale_ids st views now mgr =
     map fst (filter (\<lambda>(k, s). \<not> alive (views k) s
         \<or> terminal_idle_seconds st \<le> now - last_activity_at s
         \<or> terminal_max_lifetime_seconds st \<le> now - created_at s) (sessions mgr))"

definition janitor_sweep :: "settings \<Rightarrow> (string \<Rightarrow> os_view) \<Rightarrow> int \<Rightarrow> int \<Rightarrow> manager \<Rightarrow> manager" where
  "janitor_sweep st views own_pgrp now mgr =
     fold (\<lambda>tid m. fst (close_terminal (views tid) own_pgrp tid m)) (stale_ids st views now mgr) mgr"

subsection \<open>The session table under interleaved tool calls\<close>

text \<open>The second component of a state is the set of terminals whose child process is running: the
  operating system may end one at any time, and what \<open>isalive\<close> reports is exactly this set.\<close>

definition faithful :: "string set \<Rightarrow> (string \<Rightarrow> os_view) \<Rightarrow> bool" where
  "faithful live views \<longleftrightarrow> (\<forall>tid. isalive (views tid) = Some (tid \<in> live))"

inductive mgr_step :: "settings \<Rightarrow> manager \<times> string set \<Rightarrow> manager \<times> string set \<Rightarrow> bool" for st where
  Open: "faithful live views \<Longrightarrow> open_terminal st env views cwd c r mgr = (mgr', res) \<Longrightarrow>
    mgr_step st (mgr, live) (mgr', if is_ok res then insert (oe_token env) live else live)"
| Death: "mgr_step st (mgr, live) (mgr, live - {tid})"
| Session: "map_of (sessions mgr) tid = Some s \<Longrightarrow> term_step st ud (s, m) (s', m') \<Longrightarrow>
    mgr_step st (mgr, live) (mutate tid (\<lambda>_. s') mgr, live)"
| Read: "(\<And>e s' v'. (e, s', v') \<in> set wakeups \<Longrightarrow> \<forall>s. map_of (sessions mgr) tid = Some s \<longrightarrow> closed s' = closed s) \<Longrightarrow>
    read_terminal st v tid cursor n w wakeups mgr = (mgr', r) \<Longrightarrow> mgr_step st (mgr, live) (mgr', live)"
| Write: "write_terminal v n tid str enter mgr = (mgr', r) \<Longrightarrow> mgr_step st (mgr, live) (mgr', live)"
| Resize: "resize_terminal v tid c r mgr = (mgr', x) \<Longrightarrow> mgr_step st (mgr, live) (mgr', live)"
| List: "mgr_step st (mgr, live) (fst (list_terminals views mgr), live)"
| Close: "close_terminal v own tid mgr = (mgr', r) \<Longrightarrow> mgr_step st (mgr, live) (mgr', live)"
| Janitor: "mgr_step st (mgr, live) (janitor_sweep st views own now mgr, live)"

definition running :: "string set \<Rightarrow> (string \<times> session) list \<Rightarrow> nat" where
  "running live ss = length (filter (\<lambda>(k, s). \<not> closed s \<and> k \<in> live) ss)"

definition mgr_inv :: "settings \<Rightarrow> manager \<times> string set \<Rightarrow> bool" where
  "mgr_inv st x \<longleftrightarrow>
     distinct (map fst (sessions (fst x))) \<and> fst ` set (sessions (fst x)) \<subseteq> set (state_dirs (fst x))
     \<and> int (running (snd x) (sessions (fst x))) \<le> terminal_max_sessions st"

lemma live_sessions_running: "faithful live views \<Longrightarrow> length (live_sessions views mgr) = running live (sessions mgr)"
  unfolding live_sessions_def running_def faithful_def alive_def
  by (intro arg_cong [where f = length] filter_cong) auto

lemma running_mono:
  "live' \<subseteq> live \<Longrightarrow> running live' ss \<le> running live ss"
  unfolding running_def by (induction ss) auto

lemma running_map:
  "(\<And>k s. (k, s) \<in> set ss \<Longrightarrow> closed s \<Longrightarrow> closed (f k s)) \<Longrightarrow>
   running live (map (\<lambda>(k, s). (k, f k s)) ss) \<le> running live ss"
proof (induction ss)
  case (Cons x ss)
  then have "running live (map (\<lambda>(k, s). (k, f k s)) ss) \<le> running live ss" by simp
  moreover have "closed (snd x) \<Longrightarrow> closed (f (fst x) (snd x))" using Cons.prems by simp
  ultimately show ?case by (auto simp: running_def split: prod.split)
qed (simp add: running_def)

lemma running_delete: "running live (AList.delete k ss) \<le> running live ss"
  unfolding running_def by (induction ss) auto

lemma running_filter_notin: "k \<notin> fst ` set ss \<Longrightarrow> running (insert k live) ss = running live ss"
  unfolding running_def by (intro arg_cong [where f = length] filter_cong) force+

lemma map_sessions_inv:
  assumes "mgr_inv st (mgr, live)" "\<And>k s. (k, s) \<in> set (sessions mgr) \<Longrightarrow> closed s \<Longrightarrow> closed (f k s)"
  shows "mgr_inv st (mgr\<lparr>sessions := map (\<lambda>(k, s). (k, f k s)) (sessions mgr)\<rparr>, live)"
proof -
  have "map fst (map (\<lambda>(k, s). (k, f k s)) (sessions mgr)) = map fst (sessions mgr)" by auto
  moreover from this have "fst ` set (map (\<lambda>(k, s). (k, f k s)) (sessions mgr)) = fst ` set (sessions mgr)"
    by (metis list.set_map)
  ultimately show ?thesis
    using assms(1) running_map [of "sessions mgr" f live, OF assms(2)] by (simp add: mgr_inv_def del: map_map)
qed

lemma mutate_inv:
  assumes "mgr_inv st (mgr, live)" "\<And>s. map_of (sessions mgr) tid = Some s \<Longrightarrow> closed s \<Longrightarrow> closed (f s)"
  shows "mgr_inv st (mutate tid f mgr, live)"
proof -
  have "map_of (sessions mgr) k = Some s" if "(k, s) \<in> set (sessions mgr)" for k s
    using that assms(1) by (simp add: mgr_inv_def)
  with assms show ?thesis unfolding mutate_def by (intro map_sessions_inv) auto
qed

lemma lookup_SomeD: "lookup_session tid mgr = Inr s \<Longrightarrow> map_of (sessions mgr) tid = Some s"
  by (auto simp: lookup_session_def validate_id_def split: if_splits option.splits)

lemma close_terminal_inv:
  assumes "mgr_inv st (mgr, live)"
  shows "mgr_inv st (fst (close_terminal v own tid mgr), live)"
proof -
  have "mgr_inv st (mgr\<lparr>sessions := AList.delete tid (sessions mgr), state_dirs := filter (\<lambda>d. d \<noteq> tid) (state_dirs mgr)\<rparr>, live)"
  proof -
    from assms have d: "distinct (map fst (sessions mgr))" and sub: "fst ` set (sessions mgr) \<subseteq> set (state_dirs mgr)"
      and n: "int (running live (sessions mgr)) \<le> terminal_max_sessions st"
      by (simp_all add: mgr_inv_def)
    have "fst ` set (AList.delete tid (sessions mgr)) = fst ` set (sessions mgr) - {tid}"
      using arg_cong [OF delete_keys [of tid "sessions mgr"], of set] by simp
    with sub have "fst ` set (AList.delete tid (sessions mgr)) \<subseteq> set (filter (\<lambda>d. d \<noteq> tid) (state_dirs mgr))" by auto
    moreover have "int (running live (AList.delete tid (sessions mgr))) \<le> terminal_max_sessions st"
      using n running_delete [of live tid "sessions mgr"] by linarith
    ultimately show ?thesis using distinct_delete [OF d] by (simp add: mgr_inv_def)
  qed
  with assms show ?thesis
    by (auto simp: close_terminal_def validate_id_def Let_def split: option.split)
qed

lemma janitor_sweep_inv:
  assumes "mgr_inv st (mgr, live)"
  shows "mgr_inv st (janitor_sweep st views own now mgr, live)"
proof -
  have "mgr_inv st (fold (\<lambda>tid m. fst (close_terminal (views tid) own tid m)) ids mgr, live)" for ids
    using assms by (induction ids arbitrary: mgr) (simp_all add: close_terminal_inv)
  then show ?thesis by (simp add: janitor_sweep_def)
qed

lemma update_append: "k \<notin> fst ` set al \<Longrightarrow> AList.update k v al = al @ [(k, v)]"
  by (induction al) auto

lemma open_terminal_inv:
  assumes "mgr_inv st (mgr, live)" "faithful live views" "open_terminal st env views cwd c r mgr = (mgr', res)"
  shows "mgr_inv st (mgr', if is_ok res then insert (oe_token env) live else live)"
proof (cases res)
  case (Inl e)
  with assms(3) have "mgr' = mgr \<or> mgr' = mgr\<lparr>state_dirs := state_dirs mgr @ [oe_token env]\<rparr>"
    by (auto simp: open_terminal_def Let_def split: if_splits sum.splits option.splits)
  with assms(1) Inl show ?thesis
    by (elim disjE) (simp_all add: mgr_inv_def subset_insertI2)
next
  case (Inr x)
  with assms(3) obtain s where room: "\<not> terminal_max_sessions st \<le> int (length (live_sessions views mgr))"
    and new: "oe_token env \<notin> set (state_dirs mgr)"
    and mgr': "sessions mgr' = AList.update (oe_token env) s (sessions mgr)" "state_dirs mgr' = state_dirs mgr @ [oe_token env]"
    by (auto simp: open_terminal_def Let_def split: if_splits sum.splits option.splits)
  have fresh: "oe_token env \<notin> fst ` set (sessions mgr)" using new assms(1) by (auto simp: mgr_inv_def)
  then have up: "sessions mgr' = sessions mgr @ [(oe_token env, s)]"
    using mgr'(1) by (simp add: update_append)
  have "int (running (insert (oe_token env) live) (sessions mgr')) \<le> int (running live (sessions mgr)) + 1"
    using running_filter_notin [OF fresh, of live] by (simp add: up running_def)
  with room fresh assms(1) mgr'(2) Inr show ?thesis
    using live_sessions_running [OF assms(2), of mgr] by (auto simp: mgr_inv_def up)
qed

lemma update_command_closed: "closed (update_command i f s) = closed s"
  by (simp add: update_command_def)

lemma exec_start_closed: "exec_start st v cid cmd w s = (s', r) \<Longrightarrow> closed s' = closed s"
  by (auto simp: exec_start_def Let_def split: sum.splits if_splits)

lemma exec_result_closed: "exec_result_of st v i s = (s', x) \<Longrightarrow> closed s' = closed s"
  by (auto simp: exec_result_of_def Let_def split: prod.splits if_splits)

lemma signal_closed: "signal_session v k raw s = (s', r) \<Longrightarrow> closed s' = closed s"
  by (auto simp: signal_session_def record_signal_def update_command_closed Let_def split: option.splits prod.splits if_splits)

lemma monitor_closed: "monitor_step ud v f i pc s = (s', pc') \<Longrightarrow> closed s' = closed s"
  by (cases pc) (auto simp: mark_pending_complete_def update_command_closed Let_def split: option.splits if_splits)

lemma term_step_closed:
  assumes "term_step st ud (s, m) (s', m')" "closed s"
  shows "closed s'"
  using assms
proof cases
  case (Output v data)
  with assms(2) show ?thesis by (auto simp: append_output_def strip_rhmcp_osc133_def split: prod.splits)
next
  case Flush
  with assms(2) show ?thesis by (simp add: reader_flush_def)
next
  case (Sent i v n)
  with assms(2) show ?thesis by (auto simp: exec_sent_def send_bytes_def split: if_splits)
next
  case Forget
  with assms(2) show ?thesis by (auto simp: forget_completed_def split: option.splits)
next
  case Close
  then show ?thesis by (simp add: close_session_def)
qed (use assms(2) in \<open>auto dest: exec_start_closed exec_result_closed signal_closed monitor_closed\<close>)

lemma wait_for_output_closed:
  assumes "\<forall>(e, s', v') \<in> set wakeups. closed s' = b" "closed s = b"
  shows "closed (fst (wait_for_output r w wakeups s v)) = b"
  using assms by (induction r w wakeups s v rule: wait_for_output.induct) auto

lemma mgr_step_inv:
  assumes "mgr_step st x y" "mgr_inv st x"
  shows "mgr_inv st y"
  using assms
proof cases
  case (Open live views env cwd c r mgr mgr' res)
  with assms(2) open_terminal_inv show ?thesis by blast
next
  case (Death mgr live tid)
  with assms(2) running_mono [of "live - {tid}" live "sessions mgr"] show ?thesis by (auto simp: mgr_inv_def)
next
  case (Session mgr tid s ud m s' m' live)
  have "mgr_inv st (mutate tid (\<lambda>_. s') mgr, live)"
    using assms(2) Session term_step_closed [OF Session(4)] by (intro mutate_inv) auto
  with Session show ?thesis by simp
next
  case (Read wakeups mgr tid v cursor n w mgr' r live)
  show ?thesis
  proof (cases "lookup_session tid mgr")
    case (Inl e)
    with Read assms(2) show ?thesis by (auto simp: read_terminal_def)
  next
    case (Inr s)
    note look = lookup_SomeD [OF Inr]
    have cl: "closed s' = closed s" if "read_slice cursor n w wakeups s v = ((s', v'), q)" for s' v' q
    proof -
      have "\<forall>(e, s', v') \<in> set wakeups. closed s' = closed s" using Read(3) look by auto
      from wait_for_output_closed [OF this refl] that show ?thesis
        by (auto simp: read_slice_def Let_def split: if_splits prod.splits) (metis fst_conv)+
    qed
    have "mgr_inv st (mutate tid (\<lambda>_. s') mgr, live)" if "closed s' = closed s" for s'
      using assms(2) Read(1) look that by (intro mutate_inv) auto
    with Read Inr assms(2) cl show ?thesis
      by (auto simp: read_terminal_def Let_def split: if_splits prod.splits sum.splits)
  qed
next
  case (Write v n tid str enter mgr mgr' r live)
  then show ?thesis using assms(2) lookup_SomeD
    by (fastforce simp: write_terminal_def send_bytes_def Let_def intro!: mutate_inv split: sum.splits if_splits)
next
  case (Resize v tid c r mgr mgr' x live)
  then show ?thesis using assms(2)
    by (auto simp: resize_terminal_def intro!: mutate_inv split: sum.splits if_splits)
next
  case (List mgr live views)
  have "mgr_inv st (mgr\<lparr>sessions := map (\<lambda>(k, s). (k, forget_completed s)) (sessions mgr)\<rparr>, live)"
    using assms(2) List by (intro map_sessions_inv) (auto simp: forget_completed_def split: option.splits)
  with List show ?thesis by (simp add: list_terminals_def Let_def)
next
  case (Close v own tid mgr mgr' r live)
  with close_terminal_inv [of st mgr live v own tid] assms(2) show ?thesis by simp
next
  case (Janitor mgr live views own now)
  with janitor_sweep_inv assms(2) show ?thesis by simp
qed

abbreviation mgr_steps :: "settings \<Rightarrow> manager \<times> string set \<Rightarrow> manager \<times> string set \<Rightarrow> bool" where
  "mgr_steps st \<equiv> (mgr_step st)\<^sup>*\<^sup>*"

subsection \<open>Properties\<close>

text \<open>C5. The session limit holds under every interleaving of tool calls, session activity, child deaths and
  janitor sweeps: the number of sessions in the table whose shell is running never exceeds
  \<open>terminal_max_sessions\<close>, terminal ids stay distinct, and each session has its state directory.\<close>

theorem terminal_session_limit:
  assumes "0 \<le> terminal_max_sessions st" "mgr_steps st (new_manager, {}) (mgr, live)"
  shows "int (running live (sessions mgr)) \<le> terminal_max_sessions st
    \<and> distinct (map fst (sessions mgr)) \<and> fst ` set (sessions mgr) \<subseteq> set (state_dirs mgr)"
proof -
  from assms(2) have "mgr_inv st (mgr, live)"
  proof (induction rule: rtranclp_induct)
    case base
    from assms(1) show ?case by (simp add: mgr_inv_def new_manager_def running_def)
  next
    case (step y z)
    with mgr_step_inv show ?case by blast
  qed
  then show ?thesis by (simp add: mgr_inv_def)
qed

text \<open>The janitor removes exactly the terminals whose shell is dead, that are idle for too long or that are
  too old, and leaves the others in place and untouched.\<close>

theorem janitor_removes_stale:
  assumes "distinct (map fst (sessions mgr))" "\<forall>k \<in> fst ` set (sessions mgr). is_ok (validate_id k)"
  shows "sessions (janitor_sweep st views own now mgr) =
    filter (\<lambda>(k, s). alive (views k) s \<and> now - last_activity_at s < terminal_idle_seconds st
              \<and> now - created_at s < terminal_max_lifetime_seconds st) (sessions mgr)"
proof -
  have close: "sessions (fst (close_terminal (views k) own k m)) = filter (\<lambda>(j, s). j \<noteq> k) (sessions m)"
    if "is_ok (validate_id k)" for k m
  proof -
    have v: "validate_id k = Inr k" using that by (auto simp: validate_id_def split: if_splits)
    have "AList.delete k (sessions m) = filter (\<lambda>(j, s). j \<noteq> k) (sessions m)"
      unfolding AList.delete_eq by (rule filter_cong) auto
    moreover have "filter (\<lambda>(j, s). j \<noteq> k) (sessions m) = sessions m" if "map_of (sessions m) k = None"
      using that by (intro filter_True) (force simp: map_of_eq_None_iff)
    ultimately show ?thesis by (auto simp: close_terminal_def v Let_def split: option.split)
  qed
  have fold: "\<forall>k \<in> set ids. is_ok (validate_id k) \<Longrightarrow>
      sessions (fold (\<lambda>tid m. fst (close_terminal (views tid) own tid m)) ids m) = filter (\<lambda>(j, s). j \<notin> set ids) (sessions m)"
    for ids m
  proof (induction ids arbitrary: m)
    case (Cons k ids)
    then show ?case by (auto simp: close intro!: filter_cong)
  qed simp
  have "sessions (janitor_sweep st views own now mgr) = filter (\<lambda>(j, s). j \<notin> set (stale_ids st views now mgr)) (sessions mgr)"
  proof -
    have "set (stale_ids st views now mgr) \<subseteq> fst ` set (sessions mgr)" unfolding stale_ids_def by auto
    with assms(2) have "\<forall>k \<in> set (stale_ids st views now mgr). is_ok (validate_id k)" by blast
    from fold [OF this] show ?thesis by (simp only: janitor_sweep_def)
  qed
  also have "\<dots> = filter (\<lambda>(k, s). alive (views k) s \<and> now - last_activity_at s < terminal_idle_seconds st
              \<and> now - created_at s < terminal_max_lifetime_seconds st) (sessions mgr)"
  proof (rule filter_cong [OF refl], clarify)
    fix k s assume "(k, s) \<in> set (sessions mgr)"
    from distinct_fst_filter [OF assms(1) this]
    have "k \<in> set (stale_ids st views now mgr) \<longleftrightarrow> \<not> alive (views k) s
        \<or> terminal_idle_seconds st \<le> now - last_activity_at s \<or> terminal_max_lifetime_seconds st \<le> now - created_at s"
      by (simp add: stale_ids_def)
    then show "(k \<notin> set (stale_ids st views now mgr)) = (alive (views k) s \<and>
        now - last_activity_at s < terminal_idle_seconds st \<and> now - created_at s < terminal_max_lifetime_seconds st)"
      by auto
  qed
  finally show ?thesis .
qed

text \<open>C26. No read hands the capability key back: whatever a session printed, the text that \<open>terminal_read\<close>,
  the output that \<open>terminal_exec\<close> and the display that \<open>terminal_screen\<close> return do not contain the
  configured path key.\<close>

theorem terminal_output_redacted:
  assumes "10 \<le> length (path_key st)" "CHR ''['' \<notin> set (path_key st)" "CHR '']'' \<notin> set (path_key st)"
  shows "(read_terminal st v tid cursor n w wakeups mgr = (mgr', Inr r) \<longrightarrow>
            \<not> occurs (ustr_of (path_key st)) (rr_text r))
      \<and> \<not> occurs (ustr_of (path_key st)) (xr_output (snd (exec_result_of st v i s)))
      \<and> (screen_snapshot st display v tid mgr = Inr scr \<longrightarrow> \<not> occurs (ustr_of (path_key st)) (sr_display scr))"
  using redact_key_removes [OF assms]
  by (auto simp: read_terminal_def exec_result_of_def screen_snapshot_def Let_def
      split: sum.splits if_splits prod.splits)

text \<open>Reading at a cursor: inside the bounds the answer is the output from the requested position on, a
  position that has already been dropped is answered from the oldest retained byte with the truncation
  flag set, a position beyond the end is refused, and the next cursor always is the position after the
  returned bytes.\<close>

theorem terminal_read_answers:
  assumes "lookup_session tid mgr = Inr s" "window s hist" "0 \<le> c" "1 \<le> n" "n \<le> terminal_read_max_bytes st"
    and "0 \<le> terminal_wait_max_ms st"
  shows "case snd (read_terminal st v tid (Some c) n 0 [] mgr) of
      Inr r \<Rightarrow> c \<le> int (length hist) \<and>
        (let at = max (nat c) (buffer_start s); data = take (nat n) (drop at hist) in
          rr_cursor r = int at \<and> rr_next r = int (at + length data)
          \<and> rr_text r = redact_key (path_key st) (decode_replace data)
          \<and> rr_truncated r = (nat c < buffer_start s) \<and> rr_at_end r = (length hist \<le> at + length data))
    | Inl e \<Rightarrow> int (length hist) < c \<and> e = ValueError ''cursor is beyond current terminal output''"
proof -
  have r: "read_slice (Some c) n 0 [] s v = ((s, v), slice_of c n s)"
    using assms(3) by (simp add: read_slice_def Let_def)
  show ?thesis
  proof (cases "c \<le> int (length hist)")
    case True
    show ?thesis
      using assms(1,4-6) True slice_of_ok [OF assms(2,3) True, of n]
      by (simp add: read_terminal_def r Let_def)
  next
    case False
    then have "slice_of c n s = Inl (ValueError ''cursor is beyond current terminal output'')"
      by (intro slice_of_beyond [OF assms(2)]) simp
    with assms(1,4-6) False show ?thesis by (simp add: read_terminal_def r)
  qed
qed

text \<open>The exit code of a command that outlived its \<open>terminal_exec\<close> call can be lost: a completed command
  that \<open>terminal_status\<close> reports with its exit code is no longer reported by \<open>terminal_status\<close> once
  \<open>terminal_list\<close> has been called, although no new \<open>terminal_exec\<close> was issued.\<close>

theorem terminal_list_forgets_exit_code:
  assumes "lookup_session tid mgr = Inr s" "pending s = Some i" "completed (command s i)" "cmd_exit_code (command s i) = Some code"
  shows "\<exists>before after. terminal_status v tid mgr = Inr before \<and> st_exit_code before = Some code
      \<and> st_command_id before = Some (command_id (command s i))
      \<and> terminal_status v tid (fst (list_terminals views mgr)) = Inr after
      \<and> st_exit_code after = None \<and> st_command_id after = None"
proof -
  have m: "map_of (map (\<lambda>(k, s). (k, forget_completed s)) ss) k = map_option forget_completed (map_of ss k)" for ss k
    by (induction ss) auto
  have "lookup_session tid (fst (list_terminals views mgr)) = Inr (forget_completed s)"
    using assms(1) by (auto simp: lookup_session_def list_terminals_def m Let_def split: sum.splits option.splits)
  moreover have "pending (forget_completed s) = None" using assms(2,3) by (simp add: forget_completed_def)
  ultimately show ?thesis using assms(1-4) by (simp add: terminal_status_def Let_def)
qed

subsection \<open>Witnesses\<close>

definition sample_open_env :: open_env where
  "sample_open_env = \<lparr>oe_paths = plain_env, oe_cwd = (1, [''srv'', ''app'']), oe_is_dir = (\<lambda>_. True), oe_has_bash = True,
     oe_token = replicate 32 (CHR ''a''), oe_spawn = Some 40, oe_now = 90\<rparr>"

definition sample_manager :: manager where
  "sample_manager = fst (open_terminal sample_settings sample_open_env (\<lambda>_. idle_view) None 80 24 new_manager)"

lemma sample_tid_valid: "validate_id (replicate 32 (CHR ''a'')) = Inr (replicate 32 (CHR ''a''))"
  by (simp add: validate_id_def list_all_iff is_hex_lower_def)

lemma sample_manager_eq: "sample_manager =
   \<lparr>sessions = [(replicate 32 (CHR ''a''), new_session sample_settings sample_open_env [''srv'', ''app''] 40 80 24)],
    state_dirs = [replicate 32 (CHR ''a'')]\<rparr>"
proof -
  have "safe_cwd sample_settings sample_open_env None = Inr [''srv'', ''app'']"
    by (simp add: safe_cwd_def resolve_allowed_path_def sample_open_env_def plain_env_def normpath_def
        is_under_allowed_root_def under_root_def sample_settings_def default_settings_def)
  then show ?thesis
    by (simp add: sample_manager_def open_terminal_def live_sessions_def new_manager_def sample_settings_def
        default_settings_def sample_open_env_def Let_def)
qed

theorem terminal_session_limit_witness:
  "running {replicate 32 (CHR ''a'')} (sessions sample_manager) = 1 \<and>
   int (running {replicate 32 (CHR ''a'')} (sessions sample_manager)) \<le> terminal_max_sessions sample_settings"
proof -
  have faith: "faithful {} (\<lambda>_. idle_view)" by (simp add: faithful_def idle_view_def)
  obtain res where o: "open_terminal sample_settings sample_open_env (\<lambda>_. idle_view) None 80 24 new_manager = (sample_manager, res)"
    by (metis prod.collapse sample_manager_def)
  have "sessions sample_manager \<noteq> sessions new_manager" by (simp add: sample_manager_eq new_manager_def)
  moreover have "oe_spawn sample_open_env \<noteq> None" by (simp add: sample_open_env_def)
  ultimately have "is_ok res" using o by (cases res) (auto simp: open_terminal_def Let_def split: if_splits sum.splits option.splits)
  with mgr_step.Open [OF faith o] have "mgr_steps sample_settings (new_manager, {}) (sample_manager, {replicate 32 (CHR ''a'')})"
    by (simp add: sample_open_env_def r_into_rtranclp)
  moreover have "0 \<le> terminal_max_sessions sample_settings" by (simp add: sample_settings_def default_settings_def)
  ultimately have "int (running {replicate 32 (CHR ''a'')} (sessions sample_manager)) \<le> terminal_max_sessions sample_settings"
    using terminal_session_limit [of sample_settings sample_manager "{replicate 32 (CHR ''a'')}"] by simp
  then show ?thesis by (simp add: sample_manager_eq running_def new_session_def)
qed

theorem janitor_removes_stale_witness:
  "sessions (janitor_sweep sample_settings (\<lambda>_. live_view) 1 2000 sample_manager) = []
   \<and> sessions (janitor_sweep sample_settings (\<lambda>_. live_view) 1 100 sample_manager) = sessions sample_manager"
proof -
  have 1: "distinct (map fst (sessions sample_manager))" "\<forall>k \<in> fst ` set (sessions sample_manager). is_ok (validate_id k)"
    by (simp_all add: sample_manager_eq sample_tid_valid)
  show ?thesis
    unfolding janitor_removes_stale [OF 1]
    by (simp add: sample_manager_eq new_session_def sample_settings_def default_settings_def sample_open_env_def
        alive_def live_view_def)
qed

theorem terminal_output_redacted_witness:
  "\<not> occurs (ustr_of (path_key sample_settings)) (xr_output (snd (exec_result_of sample_settings live_view 0 sent_session)))"
proof -
  have "10 \<le> length (path_key sample_settings)" "CHR ''['' \<notin> set (path_key sample_settings)" "CHR '']'' \<notin> set (path_key sample_settings)"
    by (simp_all add: sample_settings_def default_settings_def)
  from terminal_output_redacted [OF this] show ?thesis by blast
qed

definition talking_manager :: manager where
  "talking_manager = \<lparr>sessions = [(replicate 32 (CHR ''a''), sample_session\<lparr>buffer := ''world'', buffer_start := 6\<rparr>)],
     state_dirs = [replicate 32 (CHR ''a'')]\<rparr>"

theorem terminal_read_answers_witness:
  "\<exists>r. snd (read_terminal sample_settings live_view (replicate 32 (CHR ''a'')) (Some 2) 3 0 [] talking_manager) = Inr r
     \<and> rr_cursor r = 6 \<and> rr_next r = 9 \<and> rr_truncated r \<and> \<not> rr_at_end r"
proof -
  let ?s = "sample_session\<lparr>buffer := ''world'', buffer_start := 6\<rparr>"
  have l: "lookup_session (replicate 32 (CHR ''a'')) talking_manager = Inr ?s"
    by (simp add: lookup_session_def sample_tid_valid talking_manager_def)
  have w: "window ?s ''hello world''" by (simp add: window_def sample_session_def)
  have b: "3 \<le> terminal_read_max_bytes sample_settings" "0 \<le> terminal_wait_max_ms sample_settings"
    by (simp_all add: sample_settings_def default_settings_def)
  from terminal_read_answers [OF l w _ _ b, of 2 live_view] show ?thesis
    by (auto simp: Let_def sample_session_def split: sum.splits)
qed

definition finished_manager :: manager where
  "finished_manager = \<lparr>sessions = [(replicate 32 (CHR ''a''), ended_session)], state_dirs = [replicate 32 (CHR ''a'')]\<rparr>"

theorem terminal_list_forgets_exit_code_witness:
  "\<exists>after. terminal_status live_view (replicate 32 (CHR ''a'')) (fst (list_terminals (\<lambda>_. live_view) finished_manager)) = Inr after
     \<and> st_exit_code after = None"
proof -
  have "lookup_session (replicate 32 (CHR ''a'')) finished_manager = Inr ended_session"
    by (simp add: lookup_session_def sample_tid_valid finished_manager_def)
  moreover have "pending ended_session = Some 0" "completed (command ended_session 0)" "cmd_exit_code (command ended_session 0) = Some 7"
    by (simp_all add: ended_session_def mark_pending_complete_def update_command_def sent_session_def started_session_def command_def)
  ultimately show ?thesis using terminal_list_forgets_exit_code by blast
qed

end
