(* ===== verification/Env_Config.thy ===== *)
theory Env_Config
  imports Paths Py_Int "HOL-Library.List_Lexorder"
begin

text \<open>
  \<open>Settings.from_env\<close> of \<open>src/remote_host_mcp/config.py\<close> with its parsers, and the environment
  namespaces of \<open>src/remote_host_mcp/compat_env.py\<close>.  The environment is a partial map; its values are
  strings of code points below 256.  \<open>urlparse\<close> and the decimal digit table are arguments.
\<close>

subsection \<open>Reading one variable\<close>

type_synonym environ = "string \<Rightarrow> string option"

definition canonical_name :: "string \<Rightarrow> string" where
  "canonical_name suffix = ''RHMCP_'' @ suffix"

definition legacy_name :: "string \<Rightarrow> string" where
  "legacy_name suffix = ''DSW_MCP_'' @ suffix"

definition conflict_error :: "string \<Rightarrow> exn" where
  "conflict_error suffix = ValueError (''Conflicting configuration: '' @ canonical_name suffix @ '' and '' @ legacy_name suffix
     @ '' are both set differently; remove one namespace or make the values identical'')"

definition raw_env :: "environ \<Rightarrow> string \<Rightarrow> string option \<Rightarrow> string option res" where
  "raw_env env suffix dflt =
     (let canonical = env (canonical_name suffix); legacy = env (legacy_name suffix) in
      if canonical \<noteq> None \<and> legacy \<noteq> None \<and> canonical \<noteq> legacy then Inl (conflict_error suffix)
      else if canonical \<noteq> None then Inr canonical
      else if legacy \<noteq> None then Inr legacy
      else Inr dflt)"

definition or_empty :: "string option \<Rightarrow> string" where
  "or_empty x = (case x of Some s \<Rightarrow> s | None \<Rightarrow> [])"

definition sstrip :: "string \<Rightarrow> string" where
  "sstrip s = rev (dropWhile (\<lambda>c. is_space (of_char c)) (rev (dropWhile (\<lambda>c. is_space (of_char c)) s)))"

text \<open>\<open>str.lower\<close> below 256: the ASCII and the Latin-1 capitals.\<close>

definition lower_char :: "char \<Rightarrow> char" where
  "lower_char c =
     (let n = (of_char c :: nat) in
      if n \<in> {65..90} \<or> (n \<in> {192..222} \<and> n \<noteq> 215) then char_of (n + 32) else c)"

definition slower :: "string \<Rightarrow> string" where
  "slower s = map lower_char s"

record stdlib =
  decimal_digit :: "nat \<Rightarrow> nat option"
  urlparse :: "string \<Rightarrow> (string \<times> string \<times> string) res"

definition int_setting :: "stdlib \<Rightarrow> environ \<Rightarrow> string \<Rightarrow> int \<Rightarrow> int \<Rightarrow> int \<Rightarrow> int res" where
  "int_setting lib env suffix dflt lo hi =
     and_then (raw_env env suffix (Some (int_str dflt))) (\<lambda>raw.
       case py_int (decimal_digit lib) (ustr_of (or_empty raw)) of
         None \<Rightarrow> Inl (ValueError (canonical_name suffix @ '' must be an integer''))
       | Some value \<Rightarrow>
           if value < lo \<or> hi < value
           then Inl (ValueError (canonical_name suffix @ '' must be between '' @ int_str lo @ '' and '' @ int_str hi))
           else Inr value)"

definition bool_setting :: "environ \<Rightarrow> string \<Rightarrow> bool \<Rightarrow> bool res" where
  "bool_setting env suffix dflt =
     and_then (raw_env env suffix (Some (if dflt then ''true'' else ''false''))) (\<lambda>x.
       let raw = slower (sstrip (or_empty x)) in
       if raw \<in> {''1'', ''true'', ''yes'', ''on''} then Inr True
       else if raw \<in> {''0'', ''false'', ''no'', ''off''} then Inr False
       else Inl (ValueError (canonical_name suffix @ '' must be true or false'')))"

text \<open>\<open>allowed\<close> is given in sorted order, as the message prints it.\<close>

fun quoted_list :: "string list \<Rightarrow> string" where
  "quoted_list [] = []"
| "quoted_list [a] = [CHR 0x27] @ a @ [CHR 0x27]"
| "quoted_list (a # b # xs) = [CHR 0x27] @ a @ [CHR 0x27] @ '', '' @ quoted_list (b # xs)"

definition choice_setting :: "environ \<Rightarrow> string \<Rightarrow> string \<Rightarrow> string list \<Rightarrow> string res" where
  "choice_setting env suffix dflt allowed =
     and_then (raw_env env suffix (Some dflt)) (\<lambda>x.
       let value = slower (sstrip (or_empty x)) in
       if value \<notin> set allowed
       then Inl (ValueError (canonical_name suffix @ '' must be one of ['' @ quoted_list allowed @ '']''))
       else Inr value)"

definition https_url :: "stdlib \<Rightarrow> string \<Rightarrow> string option \<Rightarrow> bool \<Rightarrow> string option res" where
  "https_url lib suffix raw required =
     (let value = sstrip (or_empty raw) in
      if value = []
      then (if required then Inl (ValueError (canonical_name suffix @ '' is required'')) else Inr None)
      else and_then (urlparse lib value) (\<lambda>(scheme, netloc, fragment).
        if scheme \<noteq> ''https'' \<or> netloc = [] \<or> fragment \<noteq> []
        then Inl (ValueError (canonical_name suffix @ '' must be an absolute https URL without a fragment''))
        else Inr (Some value)))"

text \<open>\<open>s.split()\<close> and \<open>dict.fromkeys\<close>\<close>

fun words_acc :: "string \<Rightarrow> string \<Rightarrow> string list" where
  "words_acc cur [] = (if cur = [] then [] else [cur])"
| "words_acc cur (c # cs) =
     (if is_space (of_char c) then (if cur = [] then words_acc [] cs else cur # words_acc [] cs)
      else words_acc (cur @ [c]) cs)"

fun first_occurrences :: "'a list \<Rightarrow> 'a list" where
  "first_occurrences [] = []"
| "first_occurrences (x # xs) = x # filter (\<lambda>y. y \<noteq> x) (first_occurrences xs)"

definition list_setting :: "environ \<Rightarrow> string \<Rightarrow> string \<Rightarrow> string list res" where
  "list_setting env suffix dflt =
     and_then (raw_env env suffix (Some dflt)) (\<lambda>x.
       let values = first_occurrences (words_acc [] (map (\<lambda>c. if c = CHR '','' then CHR '' '' else c) (or_empty x))) in
       if values = [] then Inl (ValueError (canonical_name suffix @ '' cannot be empty'')) else Inr values)"

fun resolve_roots :: "path_env \<Rightarrow> path list \<Rightarrow> string list \<Rightarrow> path list res" where
  "resolve_roots penv acc [] = Inr acc"
| "resolve_roots penv acc (item # items) =
     (let i = sstrip item in
      if i = [] then resolve_roots penv acc items
      else and_then (expanduser penv i) (\<lambda>x.
           and_then (realpath penv (parse_path x)) (\<lambda>p.
             resolve_roots penv (if p \<in> set acc then acc else acc @ [p]) items)))"

definition ppath_str :: "ppath \<Rightarrow> string" where
  "ppath_str p =
     (let body = concat (map (\<lambda>c. CHR ''/'' # c) (snd p)) in
      if fst p = 0 then (if snd p = [] then ''.'' else tl body)
      else if fst p = 1 then (if snd p = [] then ''/'' else body)
      else (if snd p = [] then ''//'' else CHR ''/'' # body))"

definition roots_setting :: "path_env \<Rightarrow> string option \<Rightarrow> path list res" where
  "roots_setting penv raw =
     (let r = (case raw of Some s \<Rightarrow> if s = [] then ppath_str (home_dir penv) @ '':/tmp'' else s
                         | None \<Rightarrow> ppath_str (home_dir penv) @ '':/tmp'')
      in and_then (resolve_roots penv [] (split_on (CHR '':'') r)) (\<lambda>roots.
           if roots = [] then Inl (ValueError ''RHMCP_ALLOWED_ROOTS cannot be empty'') else Inr roots))"

definition absolute_path_setting :: "path_env \<Rightarrow> environ \<Rightarrow> string \<Rightarrow> string \<Rightarrow> path res" where
  "absolute_path_setting penv env suffix dflt =
     and_then (raw_env env suffix (Some dflt)) (\<lambda>x.
       and_then (expanduser penv (sstrip (or_empty x))) (\<lambda>y. realpath penv (parse_path y)))"

subsection \<open>Syntax checks\<close>

definition is_alpha :: "char \<Rightarrow> bool" where
  "is_alpha c = ((of_char c :: nat) \<in> {65..90} \<or> (of_char c :: nat) \<in> {97..122})"

definition key_char :: "char \<Rightarrow> bool" where
  "key_char c = (is_alpha c \<or> (of_char c :: nat) \<in> {48..57} \<or> c = CHR ''_'' \<or> c = CHR ''-'')"

definition key_ok :: "string \<Rightarrow> bool" where
  "key_ok k = (32 \<le> length k \<and> length k \<le> 128 \<and> list_all key_char k)"

definition alnum :: "char \<Rightarrow> bool" where
  "alnum c = (is_alpha c \<or> (of_char c :: nat) \<in> {48..57})"

definition host_label :: "string \<Rightarrow> bool" where
  "host_label l = (l \<noteq> [] \<and> length l \<le> 63 \<and> alnum (hd l) \<and> alnum (last l) \<and> list_all (\<lambda>c. alnum c \<or> c = CHR ''-'') l)"

definition host_ok :: "string \<Rightarrow> bool" where
  "host_ok h =
     (let labels = split_on (CHR ''.'') h; tld = last labels in
      1 \<le> length h \<and> length h \<le> 253 \<and> 2 \<le> length labels \<and> list_all host_label (butlast labels)
      \<and> 2 \<le> length tld \<and> length tld \<le> 63 \<and> list_all is_alpha tld)"

definition rstrip_dots :: "string \<Rightarrow> string" where
  "rstrip_dots s = rev (dropWhile (\<lambda>c. c = CHR ''.'') (rev s))"

definition hard_max_ms :: int where
  "hard_max_ms = 90000"

text \<open>The checks at the head of \<open>from_env\<close>: authentication mode, capability key, host names.\<close>

definition identity_settings :: "environ \<Rightarrow> (string \<times> string \<times> string \<times> string) res" where
  "identity_settings env =
     and_then (choice_setting env ''AUTH_MODE'' ''capability'' [''capability'', ''oauth'']) (\<lambda>mode.
     and_then (raw_env env ''PATH_KEY'' (Some [])) (\<lambda>k.
       let key = sstrip (or_empty k) in
       if mode = ''capability'' \<and> (\<not> key_ok key \<or> take 8 key = ''REPLACE_'')
       then Inl (ValueError ''RHMCP_PATH_KEY must be a random 32-128 character URL-safe secret'')
       else if mode \<noteq> ''capability'' \<and> key \<noteq> [] \<and> \<not> key_ok key
       then Inl (ValueError ''RHMCP_PATH_KEY, when retained in OAuth mode, must still be URL-safe'')
       else
     and_then (raw_env env ''PUBLIC_HOST'' (Some [])) (\<lambda>h.
       let host = rstrip_dots (slower (sstrip (or_empty h))) in
       if \<not> host_ok host
       then Inl (ValueError ''RHMCP_PUBLIC_HOST must be a DNS hostname without scheme or path'')
       else
     and_then (raw_env env ''BIND_HOST'' (Some ''127.0.0.1'')) (\<lambda>b.
       let bind_h = sstrip (or_empty b) in
       if bind_h \<notin> {''127.0.0.1'', ''localhost'', ''::1''}
       then Inl (ValueError ''RHMCP_BIND_HOST must stay on loopback; use a secure tunnel/reverse proxy for exposure'')
       else Inr (mode, key, host, bind_h)))))"

definition timeout_settings :: "stdlib \<Rightarrow> environ \<Rightarrow> (int \<times> int) res" where
  "timeout_settings lib env =
     and_then (int_setting lib env ''MAX_TIMEOUT_MS'' hard_max_ms 1000 300000) (\<lambda>configured.
       let mx = min configured hard_max_ms in
       and_then (int_setting lib env ''DEFAULT_TIMEOUT_MS'' 30000 1000 mx) (\<lambda>d. Inr (d, mx)))"

definition oauth_algorithms_supported :: "string list" where
  "oauth_algorithms_supported = [''RS256'', ''PS256'', ''ES256'']"

definition oauth_settings :: "stdlib \<Rightarrow> environ \<Rightarrow> string \<Rightarrow> string \<Rightarrow>
    (string option \<times> string option \<times> string option \<times> string list \<times> string list) res" where
  "oauth_settings lib env mode host =
     (if mode = ''oauth'' then
        and_then (raw_env env ''OAUTH_ISSUER'' None) (\<lambda>r1. and_then (https_url lib ''OAUTH_ISSUER'' r1 True) (\<lambda>issuer.
        and_then (raw_env env ''OAUTH_JWKS_URL'' None) (\<lambda>r2. and_then (https_url lib ''OAUTH_JWKS_URL'' r2 True) (\<lambda>jwks.
        and_then (raw_env env ''OAUTH_AUDIENCE'' (Some (''https://'' @ host @ ''/mcp''))) (\<lambda>r3.
        and_then (https_url lib ''OAUTH_AUDIENCE'' r3 True) (\<lambda>audience.
        and_then (list_setting env ''OAUTH_SCOPES'' ''remote-host'') (\<lambda>scopes.
        and_then (list_setting env ''OAUTH_ALGORITHMS'' ''RS256'') (\<lambda>algs.
          let unsupported = filter (\<lambda>a. a \<notin> set oauth_algorithms_supported) algs in
          if unsupported \<noteq> []
          then Inl (ValueError (''RHMCP_OAUTH_ALGORITHMS contains unsupported values: ['' @ quoted_list (sort_key (map (of_char :: char \<Rightarrow> nat)) unsupported) @ '']''))
          else Inr (issuer, jwks, audience, scopes, algs)))))))))
      else Inr (None, None, None, [''remote-host''], [''RS256'']))"

definition from_env :: "stdlib \<Rightarrow> path_env \<Rightarrow> environ \<Rightarrow> settings res" where
  "from_env lib penv env =
     and_then (identity_settings env) (\<lambda>(mode, key, host, bind_h).
     and_then (timeout_settings lib env) (\<lambda>(dflt_ms, max_ms).
     and_then (raw_env env ''ALLOWED_ROOTS'' None) (\<lambda>roots_raw.
     and_then (roots_setting penv roots_raw) (\<lambda>roots.
     and_then (absolute_path_setting penv env ''STATE_DIR'' (ppath_str (home_dir penv) @ ''/.local/state/remote-host-mcp'')) (\<lambda>state.
     and_then (oauth_settings lib env mode host) (\<lambda>(issuer, jwks, audience, scopes, algs).
     and_then (int_setting lib env ''PORT'' 8765 1024 65535) (\<lambda>v0.
     and_then (int_setting lib env ''MAX_COMMAND_BYTES'' 8192 1 32768) (\<lambda>v1.
     and_then (int_setting lib env ''MAX_OUTPUT_BYTES'' 262144 4096 2097152) (\<lambda>v2.
     and_then (int_setting lib env ''KILL_GRACE_MS'' 1500 100 10000) (\<lambda>v3.
     and_then (int_setting lib env ''MAX_FILE_CHUNK_BYTES'' 262144 16384 524288) (\<lambda>v4.
     and_then (int_setting lib env ''MAX_TRANSFER_BYTES'' 2147483648 1048576 109951162777) (\<lambda>v5.
     and_then (int_setting lib env ''UPLOAD_TTL_SECONDS'' 3600 60 86400) (\<lambda>v6.
     and_then (int_setting lib env ''MAX_JOBS'' 256 1 4096) (\<lambda>v7.
     and_then (int_setting lib env ''JOB_MAX_TIMEOUT_MS'' 604800000 60000 2592000000) (\<lambda>v8.
     and_then (int_setting lib env ''JOB_LOG_MAX_BYTES'' 67108864 1048576 1073741824) (\<lambda>v9.
     and_then (int_setting lib env ''JOB_READ_MAX_BYTES'' 131072 4096 1048576) (\<lambda>v10.
     and_then (int_setting lib env ''JOB_RETENTION_SECONDS'' 604800 3600 2592000) (\<lambda>v11.
     and_then (int_setting lib env ''JOB_HEARTBEAT_SECONDS'' 5 1 60) (\<lambda>v12.
     and_then (int_setting lib env ''TERMINAL_MAX_SESSIONS'' 16 1 128) (\<lambda>v13.
     and_then (int_setting lib env ''TERMINAL_BUFFER_BYTES'' 1048576 65536 16777216) (\<lambda>v14.
     and_then (int_setting lib env ''TERMINAL_READ_MAX_BYTES'' 131072 4096 1048576) (\<lambda>v15.
     and_then (int_setting lib env ''TERMINAL_IDLE_SECONDS'' 1800 60 86400) (\<lambda>v16.
     and_then (int_setting lib env ''TERMINAL_MAX_LIFETIME_SECONDS'' 28800 300 604800) (\<lambda>v17.
     and_then (int_setting lib env ''TERMINAL_WAIT_MAX_MS'' 20000 0 30000) (\<lambda>v18.
     and_then (bool_setting env ''TERMINAL_OSC133'' True) (\<lambda>v19.
     and_then (bool_setting env ''TASKS_EXTENSION'' True) (\<lambda>v20.
     and_then (bool_setting env ''JSON_RESPONSE'' True) (\<lambda>v21.
     and_then (bool_setting env ''STATELESS_HTTP'' True) (\<lambda>v22.
     and_then (int_setting lib env ''MAX_REQUEST_BODY_BYTES'' 786432 65536 8388608) (\<lambda>v23.
       Inr \<lparr>path_key = key, public_host = host, bind_host = bind_h, port = v0,
         default_timeout_ms = dflt_ms, max_timeout_ms = max_ms, max_command_bytes = v1, max_output_bytes = v2,
         kill_grace_ms = v3, allowed_roots = roots, state_dir = state, max_file_chunk_bytes = v4,
         max_transfer_bytes = v5, upload_ttl_seconds = v6, max_jobs = v7, job_max_timeout_ms = v8,
         job_log_max_bytes = v9, job_read_max_bytes = v10, job_retention_seconds = v11,
         job_heartbeat_seconds = v12, terminal_max_sessions = v13, terminal_buffer_bytes = v14,
         terminal_read_max_bytes = v15, terminal_idle_seconds = v16, terminal_max_lifetime_seconds = v17,
         terminal_wait_max_ms = v18, terminal_osc133_enabled = v19, tasks_extension_enabled = v20,
         auth_mode = mode, oauth_issuer = issuer, oauth_jwks_url = jwks, oauth_audience = audience,
         oauth_scopes = scopes, oauth_algorithms = algs, json_response = v21, stateless_http = v22,
         max_request_body_bytes = v23\<rparr>))))))))))))))))))))))))))))))"

subsection \<open>The two namespaces\<close>

text \<open>\<open>env_namespace_summary\<close> and \<open>apply_env_compat\<close> of \<open>compat_env.py\<close>.\<close>

definition compat_suffixes :: "string list" where
  "compat_suffixes =
     [''AUTH_MODE'', ''PATH_KEY'', ''PUBLIC_HOST'', ''BIND_HOST'', ''PORT'', ''DEFAULT_TIMEOUT_MS'', ''MAX_TIMEOUT_MS'',
      ''MAX_COMMAND_BYTES'', ''MAX_OUTPUT_BYTES'', ''KILL_GRACE_MS'', ''ALLOWED_ROOTS'', ''STATE_DIR'',
      ''MAX_FILE_CHUNK_BYTES'', ''MAX_TRANSFER_BYTES'', ''UPLOAD_TTL_SECONDS'', ''MAX_JOBS'', ''JOB_MAX_TIMEOUT_MS'',
      ''JOB_LOG_MAX_BYTES'', ''JOB_READ_MAX_BYTES'', ''JOB_RETENTION_SECONDS'', ''JOB_HEARTBEAT_SECONDS'',
      ''TERMINAL_MAX_SESSIONS'', ''TERMINAL_BUFFER_BYTES'', ''TERMINAL_READ_MAX_BYTES'', ''TERMINAL_IDLE_SECONDS'',
      ''TERMINAL_MAX_LIFETIME_SECONDS'', ''TERMINAL_WAIT_MAX_MS'', ''TERMINAL_OSC133'', ''TASKS_EXTENSION'',
      ''OAUTH_ISSUER'', ''OAUTH_JWKS_URL'', ''OAUTH_AUDIENCE'', ''OAUTH_SCOPES'', ''OAUTH_ALGORITHMS'', ''JSON_RESPONSE'',
      ''STATELESS_HTTP'', ''MAX_REQUEST_BODY_BYTES'']"

definition namespace_of :: "environ \<Rightarrow> string \<Rightarrow> string" where
  "namespace_of env suffix =
     (case (env (canonical_name suffix), env (legacy_name suffix)) of
        (Some g, Some l) \<Rightarrow> if g = l then ''both-equal'' else ''conflict''
      | (Some g, None) \<Rightarrow> ''RHMCP''
      | (None, Some l) \<Rightarrow> ''DSW_MCP''
      | (None, None) \<Rightarrow> ''default'')"

definition env_namespace_summary :: "environ \<Rightarrow> (string \<times> string) list" where
  "env_namespace_summary env = map (\<lambda>suffix. (suffix, namespace_of env suffix)) compat_suffixes"

text \<open>The loop of \<open>apply_env_compat\<close>; an exception leaves the variables set so far.\<close>

fun apply_compat :: "string list \<Rightarrow> environ \<Rightarrow> environ \<times> exn option" where
  "apply_compat [] env = (env, None)"
| "apply_compat (suffix # suffixes) env =
     (let g = env (canonical_name suffix); l = env (legacy_name suffix) in
      if g \<noteq> None \<and> l \<noteq> None \<and> g \<noteq> l then (env, Some (conflict_error suffix))
      else apply_compat suffixes (if l = None \<and> g \<noteq> None then env(legacy_name suffix := g) else env))"

subsection \<open>What a configuration that loads guarantees\<close>

definition settings_ok :: "settings \<Rightarrow> bool" where
  "settings_ok st \<longleftrightarrow>
     (auth_mode st = ''capability'' \<longrightarrow> key_ok (path_key st)) \<and> (path_key st = [] \<or> key_ok (path_key st))
     \<and> auth_mode st \<in> {''capability'', ''oauth''}
     \<and> host_ok (public_host st) \<and> bind_host st \<in> {''127.0.0.1'', ''localhost'', ''::1''}
     \<and> allowed_roots st \<noteq> [] \<and> distinct (allowed_roots st)
     \<and> 1000 \<le> default_timeout_ms st \<and> default_timeout_ms st \<le> max_timeout_ms st \<and> max_timeout_ms st \<le> 90000
     \<and> 1 \<le> max_command_bytes st \<and> max_command_bytes st \<le> 32768
     \<and> 4096 \<le> max_output_bytes st \<and> 100 \<le> kill_grace_ms st
     \<and> 16384 \<le> max_file_chunk_bytes st \<and> max_file_chunk_bytes st \<le> 524288
     \<and> 1048576 \<le> max_transfer_bytes st \<and> 60 \<le> upload_ttl_seconds st
     \<and> 1 \<le> max_jobs st \<and> 60000 \<le> job_max_timeout_ms st \<and> 1048576 \<le> job_log_max_bytes st
     \<and> 4096 \<le> job_read_max_bytes st \<and> 3600 \<le> job_retention_seconds st \<and> 1 \<le> job_heartbeat_seconds st
     \<and> 1 \<le> terminal_max_sessions st \<and> terminal_max_sessions st \<le> 128
     \<and> 65536 \<le> terminal_buffer_bytes st \<and> 4096 \<le> terminal_read_max_bytes st
     \<and> 0 \<le> terminal_wait_max_ms st \<and> terminal_wait_max_ms st \<le> 30000
     \<and> 60 \<le> terminal_idle_seconds st \<and> 300 \<le> terminal_max_lifetime_seconds st
     \<and> (auth_mode st = ''oauth'' \<longrightarrow> oauth_issuer st \<noteq> None \<and> oauth_jwks_url st \<noteq> None \<and> oauth_audience st \<noteq> None)
     \<and> set (oauth_algorithms st) \<subseteq> set oauth_algorithms_supported \<and> oauth_algorithms st \<noteq> []"

lemma int_setting_bounds: "int_setting lib env suffix dflt lo hi = Inr v \<Longrightarrow> lo \<le> v \<and> v \<le> hi"
  by (auto simp: int_setting_def and_then_Inr split: option.splits if_splits)

lemma identity_settings_ok:
  assumes "identity_settings env = Inr (mode, key, host, bind_h)"
  shows "mode \<in> {''capability'', ''oauth''}" "mode = ''capability'' \<longrightarrow> key_ok key" "key = [] \<or> key_ok key" "host_ok host"
    "bind_h \<in> {''127.0.0.1'', ''localhost'', ''::1''}"
proof -
  from assms obtain k h b where m: "choice_setting env ''AUTH_MODE'' ''capability'' [''capability'', ''oauth''] = Inr mode"
    and c: "\<not> (mode = ''capability'' \<and> (\<not> key_ok key \<or> take 8 key = ''REPLACE_''))"
    "\<not> (mode \<noteq> ''capability'' \<and> key \<noteq> [] \<and> \<not> key_ok key)" "host_ok host"
    "bind_h \<in> {''127.0.0.1'', ''localhost'', ''::1''}"
    unfolding identity_settings_def by (auto simp: and_then_Inr Let_def split: if_split_asm)
  from m show "mode \<in> {''capability'', ''oauth''}"
    by (auto simp: choice_setting_def and_then_Inr Let_def split: if_split_asm)
  from c show "mode = ''capability'' \<longrightarrow> key_ok key" "key = [] \<or> key_ok key" "host_ok host"
    "bind_h \<in> {''127.0.0.1'', ''localhost'', ''::1''}" by blast+
qed

lemma timeout_settings_ok:
  "timeout_settings lib env = Inr (d, mx) \<Longrightarrow> 1000 \<le> d \<and> d \<le> mx \<and> mx \<le> 90000"
  by (auto simp: timeout_settings_def and_then_Inr hard_max_ms_def Let_def dest!: int_setting_bounds)

lemma resolve_roots_distinct: "resolve_roots penv acc items = Inr roots \<Longrightarrow> distinct acc \<Longrightarrow> distinct roots"
  by (induction items arbitrary: acc) (auto simp: and_then_Inr Let_def split: if_split_asm)

lemma roots_setting_ok: "roots_setting penv raw = Inr roots \<Longrightarrow> roots \<noteq> [] \<and> distinct roots"
  using resolve_roots_distinct by (auto simp: roots_setting_def and_then_Inr Let_def split: if_split_asm)

lemma https_url_required: "https_url lib suffix raw True = Inr u \<Longrightarrow> u \<noteq> None"
  by (auto simp: https_url_def and_then_Inr Let_def split: if_split_asm)

lemma list_setting_nonempty: "list_setting env suffix dflt = Inr xs \<Longrightarrow> xs \<noteq> []"
  by (auto simp: list_setting_def and_then_Inr Let_def split: if_split_asm)

lemma oauth_settings_ok:
  assumes "oauth_settings lib env mode host = Inr (issuer, jwks, audience, scopes, algs)"
  shows "(mode = ''oauth'' \<longrightarrow> issuer \<noteq> None \<and> jwks \<noteq> None \<and> audience \<noteq> None)
    \<and> set algs \<subseteq> set oauth_algorithms_supported \<and> algs \<noteq> []"
proof (cases "mode = ''oauth''")
  case True
  with assms obtain r1 r2 r3 where "https_url lib ''OAUTH_ISSUER'' r1 True = Inr issuer" "https_url lib ''OAUTH_JWKS_URL'' r2 True = Inr jwks"
    "https_url lib ''OAUTH_AUDIENCE'' r3 True = Inr audience" "list_setting env ''OAUTH_ALGORITHMS'' ''RS256'' = Inr algs"
    "filter (\<lambda>a. a \<notin> set oauth_algorithms_supported) algs = []"
    unfolding oauth_settings_def by (auto simp only: and_then_Inr Let_def if_True prod.inject sum.inject split: if_split_asm)
  then show ?thesis using https_url_required list_setting_nonempty by (force simp: filter_empty_conv)
next
  case False
  with assms show ?thesis by (auto simp: oauth_settings_def oauth_algorithms_supported_def)
qed


lemma name_inject [simp]: "legacy_name a = legacy_name b \<longleftrightarrow> a = b" "canonical_name a \<noteq> legacy_name b" "legacy_name b \<noteq> canonical_name a"
  by (auto simp: canonical_name_def legacy_name_def)

lemma apply_compat_spec:
  assumes "apply_compat suffixes env = (env', None)"
  shows "(\<forall>suffix. env' (canonical_name suffix) = env (canonical_name suffix))
    \<and> (\<forall>suffix \<in> set suffixes. env (canonical_name suffix) \<noteq> None \<longrightarrow> env' (legacy_name suffix) = env (canonical_name suffix))
    \<and> (\<forall>v. (\<forall>suffix \<in> set suffixes. v \<noteq> legacy_name suffix) \<longrightarrow> env' v = env v)
    \<and> (\<forall>suffix. env (legacy_name suffix) \<noteq> None \<longrightarrow> env' (legacy_name suffix) = env (legacy_name suffix))"
  using assms
proof (induction suffixes arbitrary: env)
  case (Cons s ss)
  let ?env = "if env (legacy_name s) = None \<and> env (canonical_name s) \<noteq> None then env(legacy_name s := env (canonical_name s)) else env"
  from Cons.prems have ok: "\<not> (env (canonical_name s) \<noteq> None \<and> env (legacy_name s) \<noteq> None \<and> env (canonical_name s) \<noteq> env (legacy_name s))"
    and rest: "apply_compat ss ?env = (env', None)"
    by (auto simp: Let_def split: if_split_asm)
  have c: "?env (canonical_name x) = env (canonical_name x)" for x by simp
  from Cons.IH [OF rest] ok show ?case
    unfolding c by (auto split: if_split_asm)
qed simp

lemma apply_compat_unset:
  "apply_compat suffixes env = (env', None) \<Longrightarrow> env (canonical_name s) = None \<Longrightarrow> env (legacy_name s) = None \<Longrightarrow>
   env' (legacy_name s) = None"
proof (induction suffixes arbitrary: env)
  case (Cons a suffixes)
  let ?env = "if env (legacy_name a) = None \<and> env (canonical_name a) \<noteq> None then env(legacy_name a := env (canonical_name a)) else env"
  from Cons.prems(1) have "apply_compat suffixes ?env = (env', None)" by (auto simp: Let_def split: if_split_asm)
  moreover have "?env (canonical_name s) = None" "?env (legacy_name s) = None" using Cons.prems(2,3) by auto
  ultimately show ?case by (rule Cons.IH)
qed simp

lemma apply_compat_error:
  "snd (apply_compat suffixes env) \<noteq> None \<longleftrightarrow> (\<exists>suffix \<in> set suffixes. namespace_of env suffix = ''conflict'')"
proof (induction suffixes arbitrary: env)
  case (Cons s ss)
  let ?env = "if env (legacy_name s) = None \<and> env (canonical_name s) \<noteq> None then env(legacy_name s := env (canonical_name s)) else env"
  have same: "namespace_of ?env x = ''conflict'' \<longleftrightarrow> namespace_of env x = ''conflict''" for x
    by (auto simp: namespace_of_def split: option.split)
  have "namespace_of env s = ''conflict'' \<longleftrightarrow>
      (env (canonical_name s) \<noteq> None \<and> env (legacy_name s) \<noteq> None \<and> env (canonical_name s) \<noteq> env (legacy_name s))"
    by (auto simp: namespace_of_def split: option.split)
  then show ?case using Cons.IH [of ?env] same by (auto simp: Let_def)
qed simp

text \<open>The two environment namespaces never disagree silently: \<open>apply_env_compat\<close> raises exactly when the
  provenance summary shows a conflict; otherwise every setting reads the same before and after it, the legacy variable
  equals the canonical one wherever the canonical one is set, and no other variable is touched.\<close>

theorem env_compat_consistent:
  "(case apply_compat compat_suffixes env of
      (env', None) \<Rightarrow> (\<forall>(suffix, ns) \<in> set (env_namespace_summary env). ns \<noteq> ''conflict''
          \<and> raw_env env' suffix d = raw_env env suffix d
          \<and> (env (canonical_name suffix) = None \<or> env' (legacy_name suffix) = env (canonical_name suffix)))
        \<and> (\<forall>v. (\<forall>suffix \<in> set compat_suffixes. v \<noteq> legacy_name suffix) \<longrightarrow> env' v = env v)
    | (env', Some e) \<Rightarrow> (\<exists>(suffix, ns) \<in> set (env_namespace_summary env). ns = ''conflict''))"
proof (cases "snd (apply_compat compat_suffixes env)")
  case None
  then obtain env' where r: "apply_compat compat_suffixes env = (env', None)" by (metis prod.collapse)
  note spec = apply_compat_spec [OF r]
  have nc: "namespace_of env suffix \<noteq> ''conflict''" if "suffix \<in> set compat_suffixes" for suffix
    using apply_compat_error [of compat_suffixes env] None that by auto
  have raw: "raw_env env' suffix d = raw_env env suffix d" if "suffix \<in> set compat_suffixes" for suffix
  proof -
    have c: "env' (canonical_name suffix) = env (canonical_name suffix)" using spec by blast
    have l: "env (canonical_name suffix) \<noteq> None \<Longrightarrow> env' (legacy_name suffix) = env (canonical_name suffix)"
      "env (legacy_name suffix) \<noteq> None \<Longrightarrow> env' (legacy_name suffix) = env (legacy_name suffix)"
      using spec that by blast+
    show ?thesis
    proof (cases "env (canonical_name suffix)")
      case (Some g)
      with c l nc [OF that] show ?thesis by (auto simp: raw_env_def Let_def namespace_of_def split: option.splits)
    next
      case None
      have "env' (legacy_name suffix) = env (legacy_name suffix)"
      proof (cases "env (legacy_name suffix)")
        case None
        with \<open>env (canonical_name suffix) = None\<close> r show ?thesis using apply_compat_unset by fastforce
      qed (use l(2) in simp)
      with c None show ?thesis by (simp add: raw_env_def Let_def)
    qed
  qed
  have all: "ns \<noteq> ''conflict'' \<and> raw_env env' suffix d = raw_env env suffix d
      \<and> (env (canonical_name suffix) = None \<or> env' (legacy_name suffix) = env (canonical_name suffix))"
    if "(suffix, ns) \<in> set (env_namespace_summary env)" for suffix ns
  proof -
    from that have m: "suffix \<in> set compat_suffixes" and ns: "ns = namespace_of env suffix"
      by (auto simp: env_namespace_summary_def simp del: compat_suffixes_def)
    show ?thesis unfolding ns using nc [OF m] raw [OF m] spec m by blast
  qed
  show ?thesis
    unfolding r prod.case option.case using all spec by blast
next
  case (Some e)
  then have "\<exists>suffix \<in> set compat_suffixes. namespace_of env suffix = ''conflict''"
    using apply_compat_error [of compat_suffixes env] by simp
  with Some show ?thesis by (cases "apply_compat compat_suffixes env") (auto simp: env_namespace_summary_def)
qed

text \<open>Lowering only the maximum synchronous timeout can make the server refuse to start: with
  \<open>RHMCP_MAX_TIMEOUT_MS\<close> below 30000 and \<open>RHMCP_DEFAULT_TIMEOUT_MS\<close> unset, the built-in default of 30000 itself is
  reported as an invalid \<open>RHMCP_DEFAULT_TIMEOUT_MS\<close>.\<close>

theorem low_max_timeout_rejected:
  assumes "env ''RHMCP_MAX_TIMEOUT_MS'' = Some (nat_str n)" "env ''DSW_MCP_MAX_TIMEOUT_MS'' = None"
    and "env ''RHMCP_DEFAULT_TIMEOUT_MS'' = None" "env ''DSW_MCP_DEFAULT_TIMEOUT_MS'' = None"
    and "1000 \<le> n" "n < 30000" "digit_table (decimal_digit lib)"
  shows "timeout_settings lib env =
    Inl (ValueError (''RHMCP_DEFAULT_TIMEOUT_MS must be between 1000 and '' @ int_str (int n)))"
proof -
  have "py_int (decimal_digit lib) (ustr_of (nat_str n)) = Some (int n)"
    using assms(6,7) by (intro py_int_nat_str nat_str_fits) auto
  moreover have "py_int (decimal_digit lib) (ustr_of (nat_str 30000)) = Some 30000"
    using py_int_nat_str [OF assms(7) nat_str_fits, of 30000] by simp
  moreover have "nat_str 1000 = ''1000''" by code_simp
  ultimately show ?thesis
    using assms(1-6)
    by (simp add: timeout_settings_def int_setting_def raw_env_def canonical_name_def legacy_name_def or_empty_def
        hard_max_ms_def int_str_def Let_def)
qed

subsection \<open>Witnesses\<close>

definition sample_lib :: stdlib where
  "sample_lib = \<lparr>decimal_digit = ascii_digit, urlparse = (\<lambda>u. Inr (takeWhile (\<lambda>c. c \<noteq> CHR '':'') u, u, []))\<rparr>"

definition sample_environ :: environ where
  "sample_environ = [''RHMCP_PATH_KEY'' \<mapsto> ''0123456789abcdef0123456789abcdef'', ''DSW_MCP_PUBLIC_HOST'' \<mapsto> ''host.example.'',
     ''RHMCP_ALLOWED_ROOTS'' \<mapsto> ''/srv: /srv/ :'', ''RHMCP_STATE_DIR'' \<mapsto> ''/var/state'']"

lemma sample_int_setting:
  assumes "sample_environ (canonical_name suffix) = None" "sample_environ (legacy_name suffix) = None"
    and "0 \<le> lo" "lo \<le> d" "d \<le> hi" "d < 1000000000000"
  shows "int_setting sample_lib sample_environ suffix d lo hi = Inr d"
proof -
  have "py_int ascii_digit (ustr_of (int_str d)) = Some d"
    using py_int_nat_str [OF digit_table_ascii nat_str_fits, of "nat d"] assms(3-6) by (simp add: int_str_def)
  with assms show ?thesis by (simp add: int_setting_def raw_env_def sample_lib_def or_empty_def)
qed

lemma sample_bool_setting:
  assumes "sample_environ (canonical_name suffix) = None" "sample_environ (legacy_name suffix) = None"
  shows "bool_setting sample_environ suffix True = Inr True"
proof -
  have "slower (sstrip ''true'') = ''true''"
    by (simp add: slower_def lower_char_def sstrip_def is_space_def)
  with assms show ?thesis by (simp add: bool_setting_def raw_env_def or_empty_def)
qed

lemma sample_unset: "suffix \<notin> {''PATH_KEY'', ''PUBLIC_HOST'', ''ALLOWED_ROOTS'', ''STATE_DIR''} \<Longrightarrow>
  sample_environ (canonical_name suffix) = None \<and> sample_environ (legacy_name suffix) = None"
  by (auto simp: sample_environ_def canonical_name_def legacy_name_def)


theorem env_compat_consistent_witness:
  "\<exists>env'. apply_compat compat_suffixes [''RHMCP_PORT'' \<mapsto> ''9000''] = (env', None) \<and> env' ''DSW_MCP_PORT'' = Some ''9000''"
proof -
  let ?env = "[''RHMCP_PORT'' \<mapsto> ''9000''] :: environ"
  have leg: "?env (legacy_name s) = None" for s by (simp add: legacy_name_def)
  have ns: "namespace_of ?env s \<noteq> ''conflict''" for s
    unfolding namespace_of_def leg by (simp split: option.split)
  have m: "(''PORT'', namespace_of ?env ''PORT'') \<in> set (env_namespace_summary ?env)"
    by (auto simp: env_namespace_summary_def compat_suffixes_def)
  obtain env' e where r: "apply_compat compat_suffixes ?env = (env', e)" by (cases "apply_compat compat_suffixes ?env")
  have c: "?env (canonical_name ''PORT'') = Some ''9000''" by (simp add: canonical_name_def)
  have l: "legacy_name ''PORT'' = ''DSW_MCP_PORT''" by (simp add: legacy_name_def)
  show ?thesis
  proof (cases e)
    case None
    with env_compat_consistent [of ?env None] r m c l show ?thesis by (auto simp del: fun_upd_apply)
  next
    case (Some x)
    with env_compat_consistent [of ?env None] r ns show ?thesis by (auto simp: env_namespace_summary_def simp del: fun_upd_apply)
  qed
qed

theorem low_max_timeout_rejected_witness:
  "timeout_settings sample_lib [''RHMCP_MAX_TIMEOUT_MS'' \<mapsto> nat_str 20000]
     = Inl (ValueError (''RHMCP_DEFAULT_TIMEOUT_MS must be between 1000 and '' @ int_str 20000))"
  using low_max_timeout_rejected [of "[''RHMCP_MAX_TIMEOUT_MS'' \<mapsto> nat_str 20000]" 20000 sample_lib]
  by (simp add: sample_lib_def digit_table_ascii)

end
