(* ===== verification/Json.thy ===== *)
theory Json
  imports Py_Text Complex_Main
begin

text \<open>
  The values \<open>json.loads\<close> produces, with the dictionary accesses and the truth test the code
  applies to them.  Parsing and printing themselves (\<open>json.loads\<close>, \<open>json.dumps\<close>) are arguments of the
  definitions that use them.
\<close>

datatype json =
    JNull
  | JBool bool
  | JInt int
  | JFloat rat
  | JStr ustr
  | JList "json list"
  | JObj "(ustr \<times> json) list"

type_synonym jdict = "(ustr \<times> json) list"

definition jget :: "string \<Rightarrow> jdict \<Rightarrow> json option" where
  "jget k d = map_of d (ustr_of k)"

definition jset :: "string \<Rightarrow> json \<Rightarrow> jdict \<Rightarrow> jdict" where
  "jset k v d = dict_set (ustr_of k) v d"

definition jpop :: "string \<Rightarrow> jdict \<Rightarrow> jdict" where
  "jpop k d = dict_pop (ustr_of k) d"

text \<open>\<open>bool(v)\<close>\<close>

fun truthy :: "json \<Rightarrow> bool" where
  "truthy JNull = False"
| "truthy (JBool b) = b"
| "truthy (JInt i) = (i \<noteq> 0)"
| "truthy (JFloat x) = (x \<noteq> 0)"
| "truthy (JStr s) = (s \<noteq> [])"
| "truthy (JList xs) = (xs \<noteq> [])"
| "truthy (JObj d) = (d \<noteq> [])"

definition truthy_get :: "string \<Rightarrow> jdict \<Rightarrow> bool" where
  "truthy_get k d = (case jget k d of Some v \<Rightarrow> truthy v | None \<Rightarrow> False)"

lemma ustr_of_inject [simp]: "ustr_of a = ustr_of b \<longleftrightarrow> a = b"
  by (simp add: ustr_of_def inj_map_eq_map inj_of_char)

lemma jget_jset [simp]: "jget j (jset k v d) = (if j = k then Some v else jget j d)"
  by (simp add: jget_def jset_def)

lemma jget_jpop [simp]: "jget j (jpop k d) = (if j = k then None else jget j d)"
  by (simp add: jget_def jpop_def)

end
