(* ===== verification/Hub_Config.thy ===== *)
theory Hub_Config
  imports Env_Config
begin

text \<open>
  \<open>src/remote_host_mcp/hub_settings.py\<close>: the \<open>RHMCP_HUB_*\<close> block.  In lenient mode (\<open>strict = False\<close>) an
  unusable value falls back to its default, so that the execution server always starts; in strict mode
  it raises.  Warnings are not modelled.
\<close>

definition report_levels :: "string list" where
  "report_levels = [''meta'', ''tool'', ''full'']"

definition output_modes :: "string list" where
  "output_modes = [''r2'', ''local'', ''preview'']"

definition hub_name :: "string \<Rightarrow> string" where
  "hub_name suffix = ''RHMCP_HUB_'' @ suffix"

definition hub_env :: "environ \<Rightarrow> string \<Rightarrow> string option" where
  "hub_env env suffix =
     (case env (hub_name suffix) of
        None \<Rightarrow> None
      | Some value \<Rightarrow> (let stripped = sstrip value in if stripped = [] then None else Some stripped))"

definition hub_bool :: "environ \<Rightarrow> bool \<Rightarrow> string \<Rightarrow> bool \<Rightarrow> bool res" where
  "hub_bool env strict suffix dflt =
     (case hub_env env suffix of
        None \<Rightarrow> Inr dflt
      | Some raw \<Rightarrow>
          let lowered = slower raw in
          if lowered \<in> {''1'', ''true'', ''yes'', ''on''} then Inr True
          else if lowered \<in> {''0'', ''false'', ''no'', ''off''} then Inr False
          else if strict then Inl (ValueError (hub_name suffix @ '' must be true or false''))
          else Inr dflt)"

definition hub_int :: "stdlib \<Rightarrow> environ \<Rightarrow> bool \<Rightarrow> string \<Rightarrow> int \<Rightarrow> int \<Rightarrow> int \<Rightarrow> int res" where
  "hub_int lib env strict suffix dflt lo hi =
     (case hub_env env suffix of
        None \<Rightarrow> Inr dflt
      | Some raw \<Rightarrow>
          (case py_int (decimal_digit lib) (ustr_of raw) of
             None \<Rightarrow> if strict then Inl (ValueError (hub_name suffix @ '' must be an integer'')) else Inr dflt
           | Some value \<Rightarrow>
               if \<not> (lo \<le> value \<and> value \<le> hi)
               then (if strict then Inl (ValueError (hub_name suffix @ '' must be between '' @ int_str lo @ '' and '' @ int_str hi))
                     else Inr dflt)
               else Inr value))"

definition hub_choice :: "environ \<Rightarrow> bool \<Rightarrow> string \<Rightarrow> string \<Rightarrow> string list \<Rightarrow> string res" where
  "hub_choice env strict suffix dflt allowed =
     (case hub_env env suffix of
        None \<Rightarrow> Inr dflt
      | Some raw \<Rightarrow>
          let lowered = slower raw in
          if lowered \<in> set allowed then Inr lowered
          else if strict then Inl (ValueError (hub_name suffix @ '' must be one of ['' @ quoted_list allowed @ '']''))
          else Inr dflt)"

definition rstrip_slashes :: "string \<Rightarrow> string" where
  "rstrip_slashes s = rev (dropWhile (\<lambda>c. c = CHR ''/'') (rev s))"

definition hub_https_url :: "stdlib \<Rightarrow> environ \<Rightarrow> bool \<Rightarrow> string \<Rightarrow> string option res" where
  "hub_https_url lib env strict suffix =
     (case hub_env env suffix of
        None \<Rightarrow> Inr None
      | Some raw \<Rightarrow>
          and_then (urlparse lib raw) (\<lambda>(scheme, netloc, fragment).
            if scheme \<noteq> ''https'' \<or> netloc = [] \<or> fragment \<noteq> []
            then (if strict then Inl (ValueError (hub_name suffix @ '' must be an absolute https URL without a fragment'')) else Inr None)
            else Inr (Some (rstrip_slashes raw))))"

record hub_settings =
  base_url :: "string option"
  hub_host_id :: "string option"
  agent_key :: "string option"
  hub_report_level :: string
  hub_redact_enabled :: bool
  hub_output_mode :: string
  report_enabled :: bool
  audit_enabled :: bool
  audit_log_path :: "path option"
  audit_max_bytes :: int
  audit_keep_files :: int
  report_interval_seconds :: int
  report_batch_size :: int
  report_max_batch :: int
  heartbeat_seconds :: int

definition configured :: "hub_settings \<Rightarrow> bool" where
  "configured h \<longleftrightarrow>
     or_empty (base_url h) \<noteq> [] \<and> or_empty (agent_key h) \<noteq> [] \<and> or_empty (hub_host_id h) \<noteq> []"

definition reporting_active :: "hub_settings \<Rightarrow> bool" where
  "reporting_active h \<longleftrightarrow> report_enabled h \<and> configured h"

definition hub_agent_key :: "environ \<Rightarrow> bool \<Rightarrow> string option res" where
  "hub_agent_key env strict =
     (case hub_env env ''AGENT_KEY'' of
        None \<Rightarrow> Inr None
      | Some k \<Rightarrow>
          if take 4 k = ''agt_'' then Inr (Some k)
          else if strict then Inl (ValueError (''RHMCP_HUB_AGENT_KEY must start with '' @ quoted_list [''agt_'']))
          else Inr None)"

definition hub_audit_path :: "path_env \<Rightarrow> environ \<Rightarrow> bool \<Rightarrow> path option res" where
  "hub_audit_path penv env strict =
     (case hub_env env ''AUDIT_LOG_PATH'' of
        None \<Rightarrow> Inr None
      | Some raw \<Rightarrow>
          and_then (expanduser penv raw) (\<lambda>x.
            let candidate = parse_path x in
            if fst candidate \<noteq> 0 then and_then (realpath penv candidate) (\<lambda>p. Inr (Some p))
            else if strict then Inl (ValueError ''RHMCP_HUB_AUDIT_LOG_PATH must be an absolute path'')
            else Inr None))"

definition hub_from_env :: "stdlib \<Rightarrow> path_env \<Rightarrow> environ \<Rightarrow> bool \<Rightarrow> hub_settings res" where
  "hub_from_env lib penv env strict =
     and_then (hub_agent_key env strict) (\<lambda>key.
     and_then (hub_audit_path penv env strict) (\<lambda>apath.
     and_then (hub_https_url lib env strict ''BASE_URL'') (\<lambda>url.
     and_then (hub_choice env strict ''REPORT_LEVEL'' ''tool'' report_levels) (\<lambda>level.
     and_then (hub_bool env strict ''REDACT_ENABLED'' True) (\<lambda>redact.
     and_then (hub_choice env strict ''OUTPUT_MODE'' ''preview'' output_modes) (\<lambda>mode.
     and_then (hub_bool env strict ''REPORT_ENABLED'' True) (\<lambda>report.
     and_then (hub_bool env strict ''AUDIT_ENABLED'' True) (\<lambda>audit.
     and_then (hub_int lib env strict ''AUDIT_MAX_BYTES'' 33554432 65536 4294967296) (\<lambda>amax.
     and_then (hub_int lib env strict ''AUDIT_KEEP_FILES'' 3 0 100) (\<lambda>keep.
     and_then (hub_int lib env strict ''REPORT_INTERVAL_SECONDS'' 30 1 3600) (\<lambda>interval.
     and_then (hub_int lib env strict ''REPORT_BATCH_SIZE'' 50 1 200) (\<lambda>batch.
     and_then (hub_int lib env strict ''REPORT_MAX_BATCH'' 200 1 1000) (\<lambda>mbatch.
     and_then (hub_int lib env strict ''HEARTBEAT_SECONDS'' 60 5 86400) (\<lambda>beat.
       Inr \<lparr>base_url = url, hub_host_id = hub_env env ''HOST_ID'', agent_key = key, hub_report_level = level,
            hub_redact_enabled = redact, hub_output_mode = mode, report_enabled = report, audit_enabled = audit,
            audit_log_path = apath, audit_max_bytes = amax, audit_keep_files = keep,
            report_interval_seconds = interval, report_batch_size = batch, report_max_batch = mbatch,
            heartbeat_seconds = beat\<rparr>))))))))))))))"

definition hub_ok :: "hub_settings \<Rightarrow> bool" where
  "hub_ok h \<longleftrightarrow>
     hub_report_level h \<in> set report_levels \<and> hub_output_mode h \<in> set output_modes
     \<and> 65536 \<le> audit_max_bytes h \<and> audit_max_bytes h \<le> 4294967296
     \<and> 0 \<le> audit_keep_files h \<and> audit_keep_files h \<le> 100
     \<and> 1 \<le> report_interval_seconds h \<and> report_interval_seconds h \<le> 3600
     \<and> 1 \<le> report_batch_size h \<and> report_batch_size h \<le> 200
     \<and> 1 \<le> report_max_batch h \<and> report_max_batch h \<le> 1000
     \<and> 5 \<le> heartbeat_seconds h \<and> heartbeat_seconds h \<le> 86400
     \<and> (\<forall>k. agent_key h = Some k \<longrightarrow> take 4 k = ''agt_'')"

lemma hub_int_bounds: "hub_int lib env strict suffix dflt lo hi = Inr v \<Longrightarrow> lo \<le> dflt \<Longrightarrow> dflt \<le> hi \<Longrightarrow> lo \<le> v \<and> v \<le> hi"
  by (auto simp: hub_int_def split: option.splits if_splits)

lemma hub_choice_allowed: "hub_choice env strict suffix dflt allowed = Inr v \<Longrightarrow> dflt \<in> set allowed \<Longrightarrow> v \<in> set allowed"
  by (auto simp: hub_choice_def Let_def split: option.splits if_splits)

lemma hub_lenient:
  "\<exists>v. hub_bool env False suffix b = Inr v" "\<exists>v. hub_int lib env False suffix d lo hi = Inr v"
  "\<exists>v. hub_choice env False suffix c cs = Inr v" "\<exists>v. hub_agent_key env False = Inr v"
  by (auto simp: hub_bool_def hub_int_def hub_choice_def hub_agent_key_def Let_def split: option.split)

lemma hub_agent_key_prefix: "hub_agent_key env strict = Inr (Some k) \<Longrightarrow> take 4 k = ''agt_''"
  by (auto simp: hub_agent_key_def split: option.splits if_splits)

lemma hub_values:
  "hub_choice env strict suffix ''tool'' report_levels = Inr v \<Longrightarrow> v \<in> set report_levels"
  "hub_choice env strict suffix ''preview'' output_modes = Inr v \<Longrightarrow> v \<in> set output_modes"
  "hub_int lib env strict suffix 33554432 65536 4294967296 = Inr i \<Longrightarrow> 65536 \<le> i \<and> i \<le> 4294967296"
  "hub_int lib env strict suffix 3 0 100 = Inr i \<Longrightarrow> 0 \<le> i \<and> i \<le> 100"
  "hub_int lib env strict suffix 30 1 3600 = Inr i \<Longrightarrow> 1 \<le> i \<and> i \<le> 3600"
  "hub_int lib env strict suffix 50 1 200 = Inr i \<Longrightarrow> 1 \<le> i \<and> i \<le> 200"
  "hub_int lib env strict suffix 200 1 1000 = Inr i \<Longrightarrow> 1 \<le> i \<and> i \<le> 1000"
  "hub_int lib env strict suffix 60 5 86400 = Inr i \<Longrightarrow> 5 \<le> i \<and> i \<le> 86400"
  by (drule hub_choice_allowed hub_int_bounds; simp add: report_levels_def output_modes_def)+

lemma hub_from_env_ok:
  assumes "hub_from_env lib penv env strict = Inr h"
  shows "hub_ok h"
  using assms unfolding hub_from_env_def hub_ok_def
  by (clarsimp simp only: and_then_Inr sum.inject hub_settings.simps)
    (blast dest: hub_values hub_agent_key_prefix)

text \<open>The hub block never stops the execution server and never yields an out-of-range setting: in
  lenient mode, when path expansion and URL parsing themselves succeed, loading always returns settings, and in either
  mode the settings returned satisfy all their limits and carry an agent key only with its \<open>agt_\<close> prefix.\<close>

theorem hub_settings_load:
  assumes "\<And>s. is_ok (expanduser penv s)" "\<And>p. is_ok (realpath penv p)" "\<And>u. is_ok (urlparse lib u)"
  shows "(\<exists>h. hub_from_env lib penv env False = Inr h \<and> hub_ok h)
    \<and> (\<forall>h. hub_from_env lib penv env True = Inr h \<longrightarrow> hub_ok h)"
proof -
  have 1: "\<exists>v. hub_audit_path penv env False = Inr v"
  proof (cases "hub_env env ''AUDIT_LOG_PATH''")
    case (Some raw)
    obtain x where x: "expanduser penv raw = Inr x" using assms(1) by (rule is_okE)
    obtain p where "realpath penv (parse_path x) = Inr p" using assms(2) by (rule is_okE)
    with Some x show ?thesis by (simp add: hub_audit_path_def Let_def)
  qed (simp add: hub_audit_path_def)
  have 2: "\<exists>v. hub_https_url lib env False ''BASE_URL'' = Inr v"
  proof (cases "hub_env env ''BASE_URL''")
    case (Some raw)
    obtain x where "urlparse lib raw = Inr x" using assms(3) by (rule is_okE)
    with Some show ?thesis by (simp add: hub_https_url_def split: prod.split)
  qed (simp add: hub_https_url_def)
  from 1 2 hub_lenient(4) [of env]
  obtain k a u where "hub_agent_key env False = Inr k" "hub_audit_path penv env False = Inr a"
    "hub_https_url lib env False ''BASE_URL'' = Inr u" by blast
  moreover from hub_lenient(3) [of env]
  obtain c1 c2 where "hub_choice env False ''REPORT_LEVEL'' ''tool'' report_levels = Inr c1"
    "hub_choice env False ''OUTPUT_MODE'' ''preview'' output_modes = Inr c2" by blast
  moreover from hub_lenient(1) [of env]
  obtain b1 b2 b3 where "hub_bool env False ''REDACT_ENABLED'' True = Inr b1"
    "hub_bool env False ''REPORT_ENABLED'' True = Inr b2" "hub_bool env False ''AUDIT_ENABLED'' True = Inr b3" by blast
  moreover obtain num where "\<And>suffix d lo hi. hub_int lib env False suffix d lo hi = Inr (num suffix d lo hi)"
    using hub_lenient(2) [of lib env] by metis
  ultimately have "\<exists>h. hub_from_env lib penv env False = Inr h"
    by (simp add: hub_from_env_def)
  then show ?thesis using hub_from_env_ok by blast
qed

theorem hub_settings_load_witness:
  "\<exists>h. hub_from_env sample_lib plain_env [''RHMCP_HUB_REPORT_LEVEL'' \<mapsto> ''everything''] False = Inr h \<and> hub_ok h"
  using hub_settings_load [of plain_env sample_lib "[''RHMCP_HUB_REPORT_LEVEL'' \<mapsto> ''everything'']"]
  by (simp add: plain_env_def sample_lib_def)

end
