(* ===== verification/Audit_Tail.thy ===== *)
theory Audit_Tail
  imports Json Hub_Config
begin

text \<open>
  \<open>AuditTail\<close>, \<open>_parse_line\<close> and \<open>prepare_event\<close> of \<open>src/remote_host_mcp/report_agent.py\<close>: the checkpointed
  reader over the audit log and its rotated generations.

  The log directory is a map from generations (0 is the live file) to files.  One call of \<open>read_new\<close>
  sees one state of it.  \<open>read_new\<close> is a generator that its consumer \<open>ReportAgent._read_more\<close> may
  abandon at any record; the consumer is therefore part of the loop here, and abandoning it leaves the
  state the generator had at that \<open>yield\<close>.  \<open>json.loads\<close> and the redaction rules are arguments.
\<close>

subsection \<open>The log directory\<close>

record log_file =
  inode :: "nat option"
  readable :: bool
  content :: bytes

type_synonym logs = "nat \<Rightarrow> log_file option"

definition read_chunk_bytes :: nat where
  "read_chunk_bytes = 4194304"

definition max_pending_events :: nat where
  "max_pending_events = 5000"

definition max_rotated_files :: nat where
  "max_rotated_files = 64"

definition stat_log :: "logs \<Rightarrow> nat \<Rightarrow> (nat \<times> nat option) option" where
  "stat_log logs i = map_option (\<lambda>f. (length (content f), inode f)) (logs i)"

definition read_chunk :: "logs \<Rightarrow> nat \<Rightarrow> nat \<Rightarrow> nat \<Rightarrow> bytes option" where
  "read_chunk logs i start limit =
     (case logs i of
        None \<Rightarrow> None
      | Some f \<Rightarrow> if readable f then Some (take (min read_chunk_bytes (limit - start)) (drop start (content f))) else None)"

text \<open>Newest generation first; the first gap ends the scan.\<close>

definition rotated_files :: "logs \<Rightarrow> nat list" where
  "rotated_files logs = takeWhile (\<lambda>i. logs i \<noteq> None) [1..<max_rotated_files + 1]"

subsection \<open>Events\<close>

definition newline :: char where "newline = CHR 0x0A"

text \<open>\<open>not line.strip()\<close>, for \<open>bytes\<close>.\<close>

definition blank :: "bytes \<Rightarrow> bool" where
  "blank l = list_all (\<lambda>c. (of_char c :: nat) \<in> {9..13} \<or> (of_char c :: nat) = 32) l"

definition parse_line :: "(ustr \<Rightarrow> json option) \<Rightarrow> bytes \<Rightarrow> jdict option" where
  "parse_line loads l =
     (case decode_strict l of
        Inl e \<Rightarrow> None
      | Inr s \<Rightarrow> (case loads s of Some (JObj d) \<Rightarrow> Some d | _ \<Rightarrow> None))"

definition required_fields :: "string list" where
  "required_fields = [''toolName'', ''status'', ''startedAt'']"

definition output_fields :: "string list" where
  "output_fields = [''outputBytes'', ''outputPreview'', ''outputRef'']"

definition arg_fields :: "string list" where
  "arg_fields = [''argsText'']"

definition redactable_fields :: "string list" where
  "redactable_fields = [''argsText'', ''outputPreview'', ''outputRef'']"

text \<open>\<open>redact_text\<close> and \<open>redact_event\<close> of \<open>redact.py\<close>; a rule is the substitution of one pattern.\<close>

definition redact_text :: "(ustr \<Rightarrow> ustr) list \<Rightarrow> ustr \<Rightarrow> ustr" where
  "redact_text rules s = (if s = [] then s else fold (\<lambda>rule t. rule t) rules s)"

definition redact_event :: "(ustr \<Rightarrow> ustr) list \<Rightarrow> bool \<Rightarrow> jdict \<Rightarrow> jdict" where
  "redact_event rules enabled ev =
     (if \<not> enabled then ev
      else fold (\<lambda>fld d. case jget fld d of Some (JStr s) \<Rightarrow> jset fld (JStr (redact_text rules s)) d | _ \<Rightarrow> d)
             redactable_fields ev)"

definition prepare_event :: "(ustr \<Rightarrow> ustr) list \<Rightarrow> string \<Rightarrow> bool \<Rightarrow> jdict \<Rightarrow> jdict option" where
  "prepare_event rules level enabled ev =
     (if \<exists>fld \<in> set required_fields. \<not> truthy_get fld ev then None
      else Some (redact_event rules enabled
        (if level = ''meta'' then fold jpop (arg_fields @ output_fields) ev
         else if level = ''tool'' then fold jpop output_fields ev
         else ev)))"

subsection \<open>The checkpoint\<close>

record audit_tail =
  ack_offset :: nat
  ack_inode :: "nat option"
  read_offset :: nat
  drain_plan :: "(nat \<times> nat \<times> nat option) list option"

text \<open>The cursor file: \<open>None\<close> when it cannot be read or is not JSON.  \<open>isinstance(x, int)\<close> also holds for
  booleans.\<close>

definition load_cursor :: "json option \<Rightarrow> nat \<times> nat option" where
  "load_cursor f =
     (case f of
        Some (JObj d) \<Rightarrow>
          (case jget ''offset'' d of
             Some (JInt off) \<Rightarrow>
               if off < 0 then (0, None)
               else (nat off,
                 (case jget ''inode'' d of
                    Some (JInt i) \<Rightarrow> if i \<noteq> 0 then Some (nat i) else None
                  | Some (JBool True) \<Rightarrow> Some 1
                  | _ \<Rightarrow> None))
           | _ \<Rightarrow> (0, None))
      | _ \<Rightarrow> (0, None))"

definition open_tail :: "json option \<Rightarrow> audit_tail" where
  "open_tail f =
     (case load_cursor f of (off, ino) \<Rightarrow>
        \<lparr>ack_offset = off, ack_inode = ino, read_offset = off, drain_plan = None\<rparr>)"

definition cursor_json :: "nat \<Rightarrow> nat option \<Rightarrow> json" where
  "cursor_json off ino =
     JObj [(ustr_of ''offset'', JInt (int off)),
           (ustr_of ''inode'', case ino of Some i \<Rightarrow> JInt (int i) | None \<Rightarrow> JNull)]"

definition commit_tail :: "nat \<Rightarrow> audit_tail \<Rightarrow> audit_tail \<times> json" where
  "commit_tail off t = (t\<lparr>ack_offset := off\<rparr>, cursor_json off (ack_inode t))"

subsection \<open>Rotation\<close>

definition checkpoint_index :: "logs \<Rightarrow> audit_tail \<Rightarrow> nat list \<Rightarrow> nat option" where
  "checkpoint_index logs t rotated =
     (case ack_inode t of
        None \<Rightarrow> None
      | Some ino \<Rightarrow> find (\<lambda>i. case stat_log logs i of Some (sz, ino') \<Rightarrow> ino' = Some ino | None \<Rightarrow> False) rotated)"

definition plan_of :: "logs \<Rightarrow> audit_tail \<Rightarrow> (nat \<times> nat \<times> nat option) list" where
  "plan_of logs t =
     (let rotated = rotated_files logs;
          checkpoint = (if 0 < ack_offset t then checkpoint_index logs t rotated else None)
      in List.map_filter (\<lambda>i.
           let ino = (case stat_log logs i of Some (sz, ino) \<Rightarrow> ino | None \<Rightarrow> None) in
           case checkpoint of
             None \<Rightarrow> Some (i, 0, ino)
           | Some c \<Rightarrow> if i < c then Some (i, 0, ino) else if i = c then Some (i, ack_offset t, ino) else None)
         (rev rotated))"

definition start_drain :: "logs \<Rightarrow> audit_tail \<Rightarrow> audit_tail" where
  "start_drain logs t =
     \<lparr>ack_offset = 0,
      ack_inode = (case stat_log logs 0 of Some (sz, ino) \<Rightarrow> ino | None \<Rightarrow> None),
      read_offset = 0, drain_plan = Some (plan_of logs t)\<rparr>"

definition was_rotated :: "logs \<Rightarrow> audit_tail \<Rightarrow> nat \<Rightarrow> nat option \<Rightarrow> bool" where
  "was_rotated logs t sz ino =
     (if sz < read_offset t then True
      else case ack_inode t of
        None \<Rightarrow> rotated_files logs \<noteq> []
      | Some i \<Rightarrow> ino \<noteq> None \<and> ino \<noteq> Some i)"

subsection \<open>Reading\<close>

text \<open>The consumer: the pending queue and the number of dropped records.  The answer tells whether it
  asks for another record.\<close>

record sink =
  queue :: "(nat \<times> jdict) list"
  dropped :: nat

definition deliver_event :: "(jdict \<Rightarrow> jdict option) \<Rightarrow> nat \<Rightarrow> jdict \<Rightarrow> sink \<Rightarrow> sink \<times> bool" where
  "deliver_event prep off ev k =
     (case prep ev of
        None \<Rightarrow> (k\<lparr>dropped := dropped k + 1\<rparr>, True)
      | Some p \<Rightarrow>
          (k\<lparr>queue := queue k @ [(off, p)]\<rparr>, length (queue k) + 1 < max_pending_events))"

fun main_lines ::
  "(bytes \<Rightarrow> jdict option) \<Rightarrow> (jdict \<Rightarrow> jdict option) \<Rightarrow> bytes list \<Rightarrow> nat \<Rightarrow> sink \<Rightarrow> nat \<times> sink \<times> bool"
where
  "main_lines parse prep [] off k = (off, k, True)"
| "main_lines parse prep (l # ls) off k =
     (let off' = off + length l + 1 in
      if blank l then main_lines parse prep ls off' k
      else case parse l of
        None \<Rightarrow> main_lines parse prep ls off' k
      | Some ev \<Rightarrow>
          (case deliver_event prep off' ev k of
             (k', True) \<Rightarrow> main_lines parse prep ls off' k'
           | (k', False) \<Rightarrow> (off', k', False)))"

definition read_main ::
  "(bytes \<Rightarrow> jdict option) \<Rightarrow> (jdict \<Rightarrow> jdict option) \<Rightarrow> logs \<Rightarrow> audit_tail \<Rightarrow> sink \<Rightarrow> audit_tail \<times> sink \<times> bool"
where
  "read_main parse prep logs t k =
     (case logs 0 of
        None \<Rightarrow> (t, k, True)
      | Some f \<Rightarrow>
          if \<not> readable f then (t, k, True)
          else (let chunk = take read_chunk_bytes (drop (read_offset t) (content f)) in
            if chunk = [] then (t, k, True)
            else (case main_lines parse prep (butlast (split_on newline chunk)) (read_offset t) k of
                (off, k', go) \<Rightarrow> (t\<lparr>read_offset := off\<rparr>, k', go))))"

text \<open>The lines of one chunk of a rotated file: \<open>pos\<close> is the running position, \<open>start\<close> the resume offset
  of the plan entry, which moves only past yielded records.\<close>

fun drain_lines ::
  "(bytes \<Rightarrow> jdict option) \<Rightarrow> (jdict \<Rightarrow> jdict option) \<Rightarrow> bytes list \<Rightarrow> nat \<Rightarrow> nat \<Rightarrow> sink \<Rightarrow> nat \<times> nat \<times> sink \<times> bool"
where
  "drain_lines parse prep [] pos start k = (pos, start, k, True)"
| "drain_lines parse prep (l # ls) pos start k =
     (let pos' = pos + length l + 1 in
      if blank l then drain_lines parse prep ls pos' start k
      else case parse l of
        None \<Rightarrow> drain_lines parse prep ls pos' start k
      | Some ev \<Rightarrow>
          (case deliver_event prep 0 ev k of
             (k', True) \<Rightarrow> drain_lines parse prep ls pos' pos' k'
           | (k', False) \<Rightarrow> (pos', pos', k', False)))"

lemma read_chunk_progress:
  assumes "stat_log logs i = Some (end, ino)" "start < end" "0 < budget"
    and "read_chunk logs i start (min end (start + budget)) = Some chunk"
  shows "0 < length chunk \<and> length chunk \<le> budget \<and> start + length chunk \<le> end"
  using assms by (auto simp: stat_log_def read_chunk_def read_chunk_bytes_def split: option.splits if_splits)

lemma read_chunk_decreases:
  assumes "stat_log logs i = Some x" "(en, ino) = x" "\<not> en \<le> start + length chunk" "0 < budget"
    and "read_chunk logs i start (min en (start + budget)) = Some chunk"
  shows "budget - length chunk < budget"
  using read_chunk_progress [of logs i en ino start budget chunk] assms by simp

function drain_loop ::
  "(bytes \<Rightarrow> jdict option) \<Rightarrow> (jdict \<Rightarrow> jdict option) \<Rightarrow> logs \<Rightarrow> nat \<Rightarrow> (nat \<times> nat \<times> nat option) list \<Rightarrow>
     audit_tail \<Rightarrow> sink \<Rightarrow> audit_tail \<times> sink \<times> bool"
where
  "drain_loop parse prep logs budget plan t k =
     (case plan of
        [] \<Rightarrow> (t\<lparr>drain_plan := None\<rparr>, k, True)
      | (i, start, expected) # rest \<Rightarrow>
          if budget = 0 then (t\<lparr>drain_plan := Some plan\<rparr>, k, True)
          else (case stat_log logs i of
              None \<Rightarrow> drain_loop parse prep logs budget rest t k
            | Some (end, ino) \<Rightarrow>
                if end \<le> start then drain_loop parse prep logs budget rest t k
                else if expected \<noteq> None \<and> ino \<noteq> None \<and> ino \<noteq> expected then (start_drain logs t, k, True)
                else (case read_chunk logs i start (min end (start + budget)) of
                    None \<Rightarrow> drain_loop parse prep logs budget rest t k
                  | Some chunk \<Rightarrow>
                      (let final = (end \<le> start + length chunk);
                           pieces = split_on newline chunk;
                           ls = butlast pieces @ (if final \<and> \<not> blank (last pieces) then [last pieces] else [])
                       in case drain_lines parse prep ls start start k of
                            (pos, start', k', go) \<Rightarrow>
                              if \<not> go then (t\<lparr>drain_plan := Some ((i, start', expected) # rest)\<rparr>, k', False)
                              else if final then drain_loop parse prep logs (budget - length chunk) rest t k'
                              else drain_loop parse prep logs (budget - length chunk) ((i, pos, expected) # rest) t k'))))"
  by pat_completeness auto

termination
  by (relation "measure (\<lambda>(parse, prep, logs, budget, plan, t, k). length plan + budget)", simp_all)
    (rule read_chunk_decreases, assumption+)

declare drain_loop.simps [simp del]

definition drain_step ::
  "(bytes \<Rightarrow> jdict option) \<Rightarrow> (jdict \<Rightarrow> jdict option) \<Rightarrow> logs \<Rightarrow> audit_tail \<Rightarrow> sink \<Rightarrow> audit_tail \<times> sink \<times> bool"
where
  "drain_step parse prep logs t k =
     (case drain_plan t of
        None \<Rightarrow> (t, k, True)
      | Some plan \<Rightarrow> drain_loop parse prep logs read_chunk_bytes plan t k)"

text \<open>The last part of \<open>read_new\<close>, once no catch-up is in progress.\<close>

definition read_live ::
  "(bytes \<Rightarrow> jdict option) \<Rightarrow> (jdict \<Rightarrow> jdict option) \<Rightarrow> logs \<Rightarrow> audit_tail \<Rightarrow> sink \<Rightarrow> audit_tail \<times> sink \<times> bool"
where
  "read_live parse prep logs t k =
     (case stat_log logs 0 of
        None \<Rightarrow> (t, k, True)
      | Some (sz, ino) \<Rightarrow>
          let t1 = t\<lparr>ack_inode := ino\<rparr> in
          if sz \<le> read_offset t1 then (t1, k, True) else read_main parse prep logs t1 k)"

definition read_new ::
  "(bytes \<Rightarrow> jdict option) \<Rightarrow> (jdict \<Rightarrow> jdict option) \<Rightarrow> logs \<Rightarrow> audit_tail \<Rightarrow> sink \<Rightarrow> audit_tail \<times> sink \<times> bool"
where
  "read_new parse prep logs t k =
     (case (if drain_plan t \<noteq> None then drain_step parse prep logs t k else (t, k, True)) of
        (t1, k1, go) \<Rightarrow>
          if \<not> go \<or> drain_plan t1 \<noteq> None then (t1, k1, go)
          else (case stat_log logs 0 of
              None \<Rightarrow> (t1, k1, True)
            | Some (sz, ino) \<Rightarrow>
                if was_rotated logs t1 sz ino
                then (case drain_step parse prep logs (start_drain logs t1) k1 of
                    (t2, k2, go2) \<Rightarrow>
                      if \<not> go2 \<or> drain_plan t2 \<noteq> None then (t2, k2, go2)
                      else read_live parse prep logs t2 k2)
                else read_live parse prep logs t1 k1))"

end
