(* ===== verification/Report_Agent.thy ===== *)
theory Report_Agent
  imports Audit_Tail
begin

text \<open>
  \<open>ReportAgent\<close> and the reply handling of \<open>HubClient\<close> in \<open>src/remote_host_mcp/report_agent.py\<close>: batching,
  acknowledgement, exponential back-off, heartbeat and configuration pull.  Times are rationals; the
  Hub's answer to each request is an argument.
\<close>

subsection \<open>HubClient\<close>

datatype http_outcome =
    Http_Status int
  | Http_Unreachable string
  | Http_Body bytes

datatype 'a hub_reply = Hub_Ok 'a | Hub_Unavailable string | Hub_Rejected string

definition http_request :: "(ustr \<Rightarrow> json option) \<Rightarrow> string \<Rightarrow> string \<Rightarrow> http_outcome \<Rightarrow> jdict hub_reply" where
  "http_request loads path detail outcome =
     (case outcome of
        Http_Status code \<Rightarrow>
          if code = 401 \<or> code = 403
          then Hub_Rejected (path @ '' rejected the agent key (HTTP '' @ int_str code @ '')'')
          else if 400 \<le> code \<and> code < 500
          then Hub_Rejected (path @ '' returned HTTP '' @ int_str code @ '': '' @ detail)
          else Hub_Unavailable (path @ '' returned HTTP '' @ int_str code)
      | Http_Unreachable name \<Rightarrow> Hub_Unavailable (path @ '' unreachable: '' @ name)
      | Http_Body raw \<Rightarrow>
          if raw = [] then Hub_Ok []
          else (case decode_strict raw of
              Inl e \<Rightarrow> Hub_Unavailable (path @ '' returned a non-JSON body'')
            | Inr s \<Rightarrow> (case loads s of
                None \<Rightarrow> Hub_Unavailable (path @ '' returned a non-JSON body'')
              | Some (JObj d) \<Rightarrow> Hub_Ok d
              | Some _ \<Rightarrow> Hub_Unavailable (path @ '' returned an unexpected body shape''))))"

record report_ack =
  ack_ok :: bool
  ack_accepted :: int
  ack_rejected :: int

definition as_int :: "json option \<Rightarrow> int" where
  "as_int v = (case v of Some (JInt i) \<Rightarrow> i | _ \<Rightarrow> 0)"

definition report_ack_of :: "jdict \<Rightarrow> report_ack" where
  "report_ack_of body =
     \<lparr>ack_ok = (case jget ''ok'' body of Some v \<Rightarrow> truthy v | None \<Rightarrow> True),
      ack_accepted = as_int (jget ''accepted'' body), ack_rejected = as_int (jget ''rejected'' body)\<rparr>"

subsection \<open>ReportAgent\<close>

record agent =
  ag_tail :: audit_tail
  ag_sink :: sink
  backoff :: rat
  next_attempt :: rat
  last_flush :: rat
  next_heartbeat :: rat
  report_level :: string
  redact_enabled :: bool
  output_mode :: string

definition new_agent :: "hub_settings \<Rightarrow> json option \<Rightarrow> agent" where
  "new_agent h cursor =
     \<lparr>ag_tail = open_tail cursor, ag_sink = \<lparr>queue = [], dropped = 0\<rparr>, backoff = 0, next_attempt = 0,
      last_flush = 0, next_heartbeat = 0, report_level = hub_report_level h,
      redact_enabled = hub_redact_enabled h, output_mode = hub_output_mode h\<rparr>"

text \<open>\<open>_read_more\<close>: the number of records added is the growth of the queue.\<close>

definition read_more ::
  "(ustr \<Rightarrow> json option) \<Rightarrow> (ustr \<Rightarrow> ustr) list \<Rightarrow> logs \<Rightarrow> agent \<Rightarrow> agent \<times> nat"
where
  "read_more loads rules logs a =
     (if max_pending_events \<le> length (queue (ag_sink a)) then (a, 0)
      else (case read_new (parse_line loads) (prepare_event rules (report_level a) (redact_enabled a)) logs
              (ag_tail a) (ag_sink a) of
          (t, k, go) \<Rightarrow> (a\<lparr>ag_tail := t, ag_sink := k\<rparr>, length (queue k) - length (queue (ag_sink a)))))"

definition should_flush :: "hub_settings \<Rightarrow> rat \<Rightarrow> agent \<Rightarrow> bool" where
  "should_flush h now a =
     (if queue (ag_sink a) = [] then False
      else if report_batch_size h \<le> int (length (queue (ag_sink a))) then True
      else last_flush a + of_int (report_interval_seconds h) \<le> now)"

definition max_backoff_seconds :: rat where
  "max_backoff_seconds = 300"

definition schedule_retry :: "hub_settings \<Rightarrow> rat \<Rightarrow> agent \<Rightarrow> agent" where
  "schedule_retry h now a =
     (let b = min (if backoff a \<noteq> 0 then backoff a * 2 else of_int (report_interval_seconds h)) max_backoff_seconds
      in a\<lparr>backoff := b, next_attempt := now + b\<rparr>)"

definition reset_backoff :: "agent \<Rightarrow> agent" where
  "reset_backoff a = a\<lparr>backoff := 0, next_attempt := 0\<rparr>"

definition commit_batch :: "(nat \<times> jdict) list \<Rightarrow> rat \<Rightarrow> agent \<Rightarrow> agent \<times> json" where
  "commit_batch batch now a =
     (case commit_tail (fst (last batch)) (ag_tail a) of
        (t, cursor) \<Rightarrow>
          (a\<lparr>ag_sink := (ag_sink a)\<lparr>queue := drop (length batch) (queue (ag_sink a))\<rparr>,
             ag_tail := t, last_flush := now\<rparr>, cursor))"

text \<open>\<open>flush\<close>: the new state, whether the Hub acknowledged, and the cursor file if it was rewritten.\<close>

definition flush_batch :: "hub_settings \<Rightarrow> agent \<Rightarrow> (nat \<times> jdict) list" where
  "flush_batch h a = take (nat (report_max_batch h)) (queue (ag_sink a))"

definition flush :: "hub_settings \<Rightarrow> rat \<Rightarrow> jdict hub_reply \<Rightarrow> agent \<Rightarrow> agent \<times> bool \<times> json option" where
  "flush h now reply a =
     (if queue (ag_sink a) = [] then (a, True, None)
      else (let batch = flush_batch h a in
        case reply of
          Hub_Unavailable m \<Rightarrow> (schedule_retry h now a, False, None)
        | Hub_Rejected m \<Rightarrow>
            (case commit_batch batch now a of (a', cursor) \<Rightarrow> (reset_backoff a', False, Some cursor))
        | Hub_Ok body \<Rightarrow>
            if \<not> ack_ok (report_ack_of body) then (schedule_retry h now a, False, None)
            else (case commit_batch batch now a of (a', cursor) \<Rightarrow> (reset_backoff a', True, Some cursor))))"

subsection \<open>Configuration pushed by the Hub\<close>

definition lower_ascii :: "ustr \<Rightarrow> ustr" where
  "lower_ascii s = map (\<lambda>c. if c \<in> {65..90} then c + 32 else c) s"

text \<open>\<open>value.strip().lower()\<close> looked up among the allowed values.\<close>

definition normalised_choice :: "string list \<Rightarrow> json option \<Rightarrow> string option" where
  "normalised_choice allowed v =
     (case v of Some (JStr s) \<Rightarrow> find (\<lambda>c. ustr_of c = lower_ascii (strip s)) allowed | _ \<Rightarrow> None)"

definition bool_word :: "bool \<Rightarrow> string" where
  "bool_word b = (if b then ''True'' else ''False'')"

definition apply_config :: "jdict \<Rightarrow> agent \<Rightarrow> agent \<times> string list" where
  "apply_config config a =
     (let (a1, c1) = (case normalised_choice report_levels (jget ''reportLevel'' config) of
              Some l \<Rightarrow> if l \<noteq> report_level a then (a\<lparr>report_level := l\<rparr>, [''reportLevel '' @ report_level a @ '' -> '' @ l]) else (a, [])
            | None \<Rightarrow> (a, []));
          (a2, c2) = (case jget ''redactEnabled'' config of
              Some (JBool b) \<Rightarrow> if b \<noteq> redact_enabled a1
                then (a1\<lparr>redact_enabled := b\<rparr>, [''redactEnabled '' @ bool_word (redact_enabled a1) @ '' -> '' @ bool_word b])
                else (a1, [])
            | _ \<Rightarrow> (a1, []));
          (a3, c3) = (case normalised_choice output_modes (jget ''outputMode'' config) of
              Some m \<Rightarrow> if m \<noteq> output_mode a2 then (a2\<lparr>output_mode := m\<rparr>, [''outputMode '' @ output_mode a2 @ '' -> '' @ m]) else (a2, [])
            | None \<Rightarrow> (a2, []))
      in (a3, c1 @ c2 @ c3))"

definition pull_config :: "jdict hub_reply \<Rightarrow> agent \<Rightarrow> agent \<times> bool" where
  "pull_config reply a =
     (case reply of Hub_Ok body \<Rightarrow> (fst (apply_config body a), True) | _ \<Rightarrow> (a, False))"

definition heartbeat :: "hub_settings \<Rightarrow> rat \<Rightarrow> jdict hub_reply \<Rightarrow> jdict hub_reply \<Rightarrow> agent \<Rightarrow> agent \<times> bool" where
  "heartbeat h now beat config a =
     (let a1 = a\<lparr>next_heartbeat := now + of_int (heartbeat_seconds h)\<rparr> in
      case beat of
        Hub_Ok body \<Rightarrow> (if truthy_get ''configChanged'' body then fst (pull_config config a1) else a1, True)
      | _ \<Rightarrow> (a1, False))"

text \<open>The flush loop of \<open>cycle\<close> for a fixed moment: one reply per request.\<close>

fun flush_loop :: "hub_settings \<Rightarrow> rat \<Rightarrow> jdict hub_reply list \<Rightarrow> agent \<Rightarrow> json option \<Rightarrow> agent \<times> json option" where
  "flush_loop h now [] a cursor = (a, cursor)"
| "flush_loop h now (reply # replies) a cursor =
     (if queue (ag_sink a) \<noteq> [] \<and> next_attempt a \<le> now
      then (case flush h now reply a of
          (a', ok, c) \<Rightarrow>
            let cursor' = (case c of Some x \<Rightarrow> Some x | None \<Rightarrow> cursor) in
            if ok then flush_loop h now replies a' cursor' else (a', cursor'))
      else (a, cursor))"

definition cycle ::
  "hub_settings \<Rightarrow> (ustr \<Rightarrow> json option) \<Rightarrow> (ustr \<Rightarrow> ustr) list \<Rightarrow> logs \<Rightarrow> rat \<Rightarrow> jdict hub_reply \<Rightarrow> jdict hub_reply \<Rightarrow>
     jdict hub_reply list \<Rightarrow> agent \<Rightarrow> json option \<Rightarrow> (agent \<times> json option) \<times> bool"
where
  "cycle h loads rules logs now beat config replies a cursor =
     (let a1 = (if next_heartbeat a \<le> now then fst (heartbeat h now beat config a) else a);
          (a3, cursor') =
            (if next_attempt a1 \<le> now
             then (let a2 = fst (read_more loads rules logs a1) in
                   if should_flush h now a2 then flush_loop h now replies a2 cursor else (a2, cursor))
             else (a1, cursor))
      in ((a3, cursor'), queue (ag_sink a3) \<noteq> []))"

subsection \<open>Back-off\<close>

lemma schedule_retry_backoff:
  assumes "0 < report_interval_seconds h" "0 \<le> backoff a"
  shows "0 < backoff (schedule_retry h now a)" "backoff (schedule_retry h now a) \<le> 300"
    "next_attempt (schedule_retry h now a) = now + backoff (schedule_retry h now a)"
  using assms by (auto simp: schedule_retry_def Let_def max_backoff_seconds_def)

fun retries :: "hub_settings \<Rightarrow> rat list \<Rightarrow> agent \<Rightarrow> agent" where
  "retries h [] a = a"
| "retries h (now # moments) a = retries h moments (schedule_retry h now a)"

lemma retries_append: "retries h (xs @ ys) a = retries h ys (retries h xs a)"
  by (induction h xs a rule: retries.induct) auto

lemma retries_backoff:
  assumes "0 < report_interval_seconds h" "backoff a = 0"
  shows "backoff (retries h (moments @ [now]) a) = min (of_int (report_interval_seconds h) * 2 ^ length moments) 300"
proof (induction moments arbitrary: now rule: rev_induct)
  case Nil
  with assms(2) show ?case by (simp add: schedule_retry_def Let_def max_backoff_seconds_def)
next
  case (snoc m moments)
  let ?b = "backoff (retries h (moments @ [m]) a)"
  have b: "?b = min (of_int (report_interval_seconds h) * 2 ^ length moments) 300" by (rule snoc)
  have "0 < ?b" using assms(1) by (simp add: b)
  then have "backoff (retries h ((moments @ [m]) @ [now]) a) = min (?b * 2) 300"
    by (simp add: retries_append [of h "moments @ [m]"] schedule_retry_def Let_def max_backoff_seconds_def del: append_assoc)
  also have "\<dots> = min (of_int (report_interval_seconds h) * 2 ^ Suc (length moments)) 300"
    unfolding b by (auto simp: min_def)
  finally show ?case by simp
qed

end
