(* ===== verification/Report_Steps.thy ===== *)
theory Report_Steps
  imports Report_Agent
begin

text \<open>
  The delivery contract of the reporting agent.  The audit log is one append-only file here; the agent's
  reads, flushes, heartbeats and restarts interleave with the writer in any order.  \<open>records\<close> is the reference:
  the usable records of a list of lines, each with the offset after its line.
\<close>

subsection \<open>Lines\<close>

definition unlines :: "bytes list \<Rightarrow> bytes" where
  "unlines ls = concat (map (\<lambda>l. l @ [newline]) ls)"

definition lines_of :: "bytes \<Rightarrow> bytes list" where
  "lines_of b = butlast (split_on newline b)"

lemma unlines_simps [simp]: "unlines [] = []" "unlines (l # ls) = l @ newline # unlines ls"
  "unlines (xs @ ys) = unlines xs @ unlines ys"
  by (simp_all add: unlines_def)

lemma split_on_sep: "split_on d (a @ d # b) = split_on d a @ split_on d b"
proof (induction a)
  case (Cons c a)
  obtain w ws where "split_on d a = w # ws" using split_on_nonempty neq_Nil_conv by metis
  with Cons show ?case by simp
qed simp

lemma split_on_no_sep: "l \<in> set (split_on d s) \<Longrightarrow> d \<notin> set l"
proof (induction s arbitrary: l)
  case (Cons c s)
  obtain w ws where "split_on d s = w # ws" using split_on_nonempty neq_Nil_conv by metis
  with Cons show ?case by (auto split: if_splits)
qed simp

lemma unlines_lines_of: "unlines (lines_of b) @ last (split_on newline b) = b"
proof (induction b)
  case (Cons c b)
  obtain w ws where w: "split_on newline b = w # ws" using split_on_nonempty neq_Nil_conv by metis
  with Cons show ?case by (cases ws) (auto simp: lines_of_def)
qed (simp add: lines_of_def)

lemma lines_of_append:
  assumes "a = [] \<or> last a = newline"
  shows "lines_of (a @ b) = lines_of a @ lines_of b"
proof (cases "a = []")
  case False
  with assms have "a = butlast a @ [newline]" by (metis append_butlast_last_id)
  then obtain a' where a: "a = a' @ [newline]" by blast
  have "split_on newline (a @ b) = split_on newline a' @ split_on newline b"
    unfolding a using split_on_sep [of newline a' b] by simp
  moreover have "split_on newline a = split_on newline a' @ [[]]"
    unfolding a using split_on_sep [of newline a' "[]"] by simp
  ultimately show ?thesis by (simp add: lines_of_def butlast_append)
qed (simp add: lines_of_def)

lemma lines_of_unlines: "(\<forall>l \<in> set ls. newline \<notin> set l) \<Longrightarrow> lines_of (unlines ls) = ls"
proof (induction ls)
  case (Cons l ls)
  have "split_on newline l = [l]" if "newline \<notin> set l" for l
    using that by (induction l) auto
  then have "lines_of (l @ [newline]) = [l]"
    using Cons.prems split_on_sep [of newline l "[]"] by (simp add: lines_of_def)
  with Cons lines_of_append [of "l @ [newline]" "unlines ls"] show ?case by simp
qed (simp add: lines_of_def)

lemma lines_of_no_sep: "l \<in> set (lines_of b) \<Longrightarrow> newline \<notin> set l"
  unfolding lines_of_def using split_on_no_sep in_set_butlastD by metis

lemma unlines_last: "ls \<noteq> [] \<Longrightarrow> last (unlines ls) = newline" "unlines ls = [] \<longleftrightarrow> ls = []"
  by (cases ls rule: rev_cases; simp)+

subsection \<open>Usable records\<close>

definition event_of :: "(ustr \<Rightarrow> json option) \<Rightarrow> bytes \<Rightarrow> jdict option" where
  "event_of loads l =
     (if blank l then None
      else case parse_line loads l of
        None \<Rightarrow> None
      | Some ev \<Rightarrow> if \<exists>fld \<in> set required_fields. \<not> truthy_get fld ev then None else Some ev)"

fun records :: "(ustr \<Rightarrow> json option) \<Rightarrow> nat \<Rightarrow> bytes list \<Rightarrow> (nat \<times> jdict) list" where
  "records loads p [] = []"
| "records loads p (l # ls) =
     (case event_of loads l of Some ev \<Rightarrow> [(p + length l + 1, ev)] | None \<Rightarrow> []) @ records loads (p + length l + 1) ls"

lemma records_append: "records loads p (xs @ ys) = records loads p xs @ records loads (p + length (unlines xs)) ys"
  by (induction xs arbitrary: p) (auto simp: algebra_simps)

lemma records_cut:
  "i < length (records loads p ls) \<Longrightarrow>
   \<exists>xs ys. ls = xs @ ys \<and> records loads p xs = take (Suc i) (records loads p ls)
     \<and> fst (records loads p ls ! i) = p + length (unlines xs)"
proof (induction ls arbitrary: p i)
  case (Cons l ls)
  let ?p = "p + length l + 1"
  show ?case
  proof (cases "event_of loads l")
    case None
    with Cons.prems have "i < length (records loads ?p ls)" by simp
    from Cons.IH [OF this] obtain xs ys where "ls = xs @ ys" "records loads ?p xs = take (Suc i) (records loads ?p ls)"
      "fst (records loads ?p ls ! i) = ?p + length (unlines xs)" by blast
    with None show ?thesis by (intro exI [of _ "l # xs"] exI [of _ ys]) simp
  next
    case (Some ev)
    show ?thesis
    proof (cases i)
      case 0
      with Some show ?thesis by (intro exI [of _ "[l]"] exI [of _ ls]) simp
    next
      case (Suc j)
      with Some Cons.prems have "j < length (records loads ?p ls)" by simp
      from Cons.IH [OF this] obtain xs ys where "ls = xs @ ys" "records loads ?p xs = take (Suc j) (records loads ?p ls)"
        "fst (records loads ?p ls ! j) = ?p + length (unlines xs)" by blast
      with Some Suc show ?thesis by (intro exI [of _ "l # xs"] exI [of _ ys]) simp
    qed
  qed
qed simp

text \<open>The usable records of the bytes between two offsets.\<close>

definition recs :: "(ustr \<Rightarrow> json option) \<Rightarrow> bytes \<Rightarrow> nat \<Rightarrow> nat \<Rightarrow> (nat \<times> jdict) list" where
  "recs loads c p q = records loads p (lines_of (take (q - p) (drop p c)))"

definition boundary :: "bytes \<Rightarrow> nat \<Rightarrow> bool" where
  "boundary c p \<longleftrightarrow> p \<le> length c \<and> (p = 0 \<or> c ! (p - 1) = newline)"

lemma boundary_0 [simp]: "boundary c 0"
  by (simp add: boundary_def)

lemma boundary_append: "boundary c p \<Longrightarrow> boundary (c @ bs) p"
  by (auto simp: boundary_def nth_append)

lemma recs_append: "q \<le> length c \<Longrightarrow> recs loads (c @ bs) p q = recs loads c p q"
  by (cases "p \<le> q") (simp_all add: recs_def)

lemma recs_empty [simp]: "recs loads c p p = []"
  by (simp add: recs_def lines_of_def)

lemma recs_split:
  assumes "boundary c q" "p \<le> q" "q \<le> r"
  shows "recs loads c p r = recs loads c p q @ recs loads c q r"
proof -
  let ?a = "take (q - p) (drop p c)"
  have len: "length ?a = q - p" using assms by (auto simp: boundary_def min_def)
  have "take (r - p) (drop p c) = ?a @ take (r - q) (drop q c)"
    using assms take_drop_split [of "q - p" "r - p" p c] by simp
  moreover have nl: "?a = [] \<or> last ?a = newline"
  proof (cases "p = q")
    case False
    with assms(2) len have "?a \<noteq> []" by (metis diff_is_0_eq le_antisym list.size(3))
    then have "last ?a = c ! (q - 1)" using assms False len by (simp add: last_conv_nth boundary_def)
    with assms False show ?thesis by (auto simp: boundary_def)
  qed simp
  moreover have "unlines (lines_of ?a) = ?a"
  proof -
    have "last (split_on newline ?a) = []"
    proof (cases "?a = []")
      case False
      with nl obtain a' where a: "?a = a' @ [newline]" by (metis append_butlast_last_id)
      show ?thesis unfolding a using split_on_sep [of newline a' "[]"] by simp
    next
      case True
      show ?thesis unfolding True by simp
    qed
    then show ?thesis using unlines_lines_of [of ?a] by simp
  qed
  ultimately show ?thesis
    using len assms by (simp add: recs_def lines_of_append records_append)
qed

lemma recs_lines:
  assumes "lines_of b = xs @ ys" "b = take n (drop p c)" "p \<le> length c" "boundary c p"
  shows "boundary c (p + length (unlines xs)) \<and> recs loads c p (p + length (unlines xs)) = records loads p xs"
proof -
  have b: "b = unlines xs @ (unlines ys @ last (split_on newline b))"
    using unlines_lines_of [of b] assms(1) by simp
  let ?m = "length (unlines xs)"
  have le: "?m \<le> length b" using b by (metis length_append le_add1)
  have t: "take ?m (drop p c) = unlines xs"
  proof -
    have "take ?m b = unlines xs" using b by (metis append_eq_conv_conj)
    moreover have "?m \<le> n" using le assms(2) by simp
    then have "take ?m b = take ?m (drop p c)" by (simp add: assms(2) min_absorb1)
    ultimately show ?thesis by simp
  qed
  have pm: "p + ?m \<le> length c" using le assms(2,3) by (metis le_diff_conv2 add.commute length_drop length_take min.bounded_iff)
  moreover have "c ! (p + ?m - 1) = newline" if "xs \<noteq> []"
  proof -
    have "0 < ?m" using that by (simp add: unlines_last)
    have idx: "p + ?m - 1 = p + (?m - 1)" using that by (cases xs) simp_all
    have "c ! (p + ?m - 1) = take ?m (drop p c) ! (?m - 1)"
      unfolding idx using pm \<open>0 < ?m\<close> by (simp del: length_greater_0_conv)
    also have "\<dots> = last (unlines xs)" using t \<open>0 < ?m\<close> by (simp add: last_conv_nth unlines_last that)
    finally show ?thesis using that unlines_last by simp
  qed
  moreover have "lines_of (unlines xs) = xs"
    by (rule lines_of_unlines) (use assms(1) lines_of_no_sep in \<open>metis Un_iff set_append\<close>)
  ultimately show ?thesis
    using assms(4) t pm by (cases "xs = []") (auto simp: boundary_def recs_def)
qed

subsection \<open>What one read and one flush do\<close>

definition prepared :: "(ustr \<Rightarrow> ustr) list \<Rightarrow> string \<Rightarrow> bool \<Rightarrow> (nat \<times> jdict) \<Rightarrow> nat \<times> jdict" where
  "prepared rules level en r = (fst r, the (prepare_event rules level en (snd r)))"

lemma prepare_event_None: "prepare_event rules level en ev = None \<longleftrightarrow> (\<exists>fld \<in> set required_fields. \<not> truthy_get fld ev)"
  by (simp add: prepare_event_def)

lemma main_lines_spec:
  "main_lines (parse_line loads) (prepare_event rules level en) ls off k = (off', k', go) \<Longrightarrow>
   \<exists>xs ys. ls = xs @ ys \<and> off' = off + length (unlines xs) \<and> (go \<longrightarrow> ys = []) \<and> (ls \<noteq> [] \<longrightarrow> xs \<noteq> [])
     \<and> queue k' = queue k @ map (prepared rules level en) (records loads off xs)"
proof (induction ls arbitrary: off k)
  case (Cons l ls)
  let ?off = "off + length l + 1"
  show ?case
  proof (cases "event_of loads l")
    case None
    have "\<exists>k2. main_lines (parse_line loads) (prepare_event rules level en) ls ?off k2 = (off', k', go) \<and> queue k2 = queue k"
    proof (cases "blank l \<or> parse_line loads l = None")
      case True
      with Cons.prems show ?thesis by (intro exI [of _ k]) (auto simp: Let_def split: if_split_asm)
    next
      case False
      then obtain ev where ev: "parse_line loads l = Some ev" by blast
      with None False have "prepare_event rules level en ev = None"
        by (simp add: event_of_def prepare_event_None split: if_split_asm)
      with Cons.prems False ev have "main_lines (parse_line loads) (prepare_event rules level en) ls ?off (k\<lparr>dropped := dropped k + 1\<rparr>) = (off', k', go)"
        by (simp add: deliver_event_def Let_def)
      then show ?thesis by fastforce
    qed
    then obtain k2 where "main_lines (parse_line loads) (prepare_event rules level en) ls ?off k2 = (off', k', go)"
      and q: "queue k2 = queue k" by blast
    from Cons.IH [OF this(1)] obtain xs ys where "ls = xs @ ys" "off' = ?off + length (unlines xs)" "go \<longrightarrow> ys = []"
      "queue k' = queue k2 @ map (prepared rules level en) (records loads ?off xs)" by blast
    with None q show ?thesis by (intro exI [of _ "l # xs"] exI [of _ ys]) simp
  next
    case (Some ev)
    then have ev: "\<not> blank l" "parse_line loads l = Some ev" "\<not> (\<exists>fld \<in> set required_fields. \<not> truthy_get fld ev)"
      by (auto simp: event_of_def split: if_splits option.splits)
    then obtain p where p: "prepare_event rules level en ev = Some p"
      by (cases "prepare_event rules level en ev") (simp_all add: prepare_event_None)
    let ?k = "k\<lparr>queue := queue k @ [(?off, p)]\<rparr>"
    have step: "prepared rules level en (?off, ev) = (?off, p)" by (simp add: prepared_def p)
    show ?thesis
    proof (cases "length (queue k) + 1 < max_pending_events")
      case True
      with Cons.prems ev p have "main_lines (parse_line loads) (prepare_event rules level en) ls ?off ?k = (off', k', go)"
        by (simp add: deliver_event_def Let_def)
      from Cons.IH [OF this] obtain xs ys where "ls = xs @ ys" "off' = ?off + length (unlines xs)" "go \<longrightarrow> ys = []"
        "queue k' = queue ?k @ map (prepared rules level en) (records loads ?off xs)" by blast
      with Some step show ?thesis by (intro exI [of _ "l # xs"] exI [of _ ys]) simp
    next
      case False
      with Cons.prems ev p have "off' = ?off" "k' = ?k" "\<not> go" by (auto simp: deliver_event_def Let_def)
      with Some step show ?thesis by (intro exI [of _ "[l]"] exI [of _ ls]) simp
    qed
  qed
qed simp

text \<open>The directory with one log file that is never rotated.\<close>

definition single_log :: "nat option \<Rightarrow> bool \<Rightarrow> bytes \<Rightarrow> logs" where
  "single_log ino ok c = [0 \<mapsto> \<lparr>inode = ino, readable = ok, content = c\<rparr>]"

lemma rotated_files_single [simp]: "rotated_files (single_log ino ok c) = []"
  by (simp add: rotated_files_def single_log_def takeWhile_eq_Nil_iff max_rotated_files_def)

lemma read_new_single:
  assumes "read_new (parse_line loads) (prepare_event rules level en) (single_log ino ok c) t k = (t', k', go)"
    and "drain_plan t = None" "boundary c (read_offset t)" "ack_inode t \<in> {None, ino}"
  shows "\<exists>q. boundary c q \<and> read_offset t \<le> q
      \<and> t' = t\<lparr>read_offset := q, ack_inode := ino\<rparr>
      \<and> queue k' = queue k @ map (prepared rules level en) (recs loads c (read_offset t) q)
      \<and> (ok \<and> lines_of (take read_chunk_bytes (drop (read_offset t) c)) \<noteq> [] \<longrightarrow> read_offset t < q)"
proof -
  let ?r = "read_offset t" and ?t = "t\<lparr>ack_inode := ino\<rparr>" and ?b = "take read_chunk_bytes (drop (read_offset t) c)"
  have le: "?r \<le> length c" using assms(3) by (simp add: boundary_def)
  have "was_rotated (single_log ino ok c) t (length c) ino = False"
    using le assms(4) by (auto simp: was_rotated_def split: option.split)
  then have live: "read_live (parse_line loads) (prepare_event rules level en) (single_log ino ok c) t k = (t', k', go)"
    using assms(1,2) by (simp add: read_new_def stat_log_def single_log_def)
  have stay: ?thesis if "t' = ?t" "k' = k" "\<not> ok \<or> ?b = []"
  proof -
    have "lines_of [] = []" by (simp add: lines_of_def)
    with that assms(3) show ?thesis by (intro exI [of _ ?r]) auto
  qed
  show ?thesis
  proof (cases "length c \<le> ?r \<or> \<not> ok \<or> ?b = []")
    case True
    have e: "length c \<le> ?r \<Longrightarrow> ?b = []" by simp
    from True live have "t' = ?t" "k' = k"
      by (auto simp: read_live_def read_main_def stat_log_def single_log_def Let_def split: if_split_asm)
    then show ?thesis by (rule stay) (use True e in blast)
  next
    case False
    obtain off k2 g where m: "main_lines (parse_line loads) (prepare_event rules level en) (lines_of ?b) ?r k = (off, k2, g)"
      by (metis prod_cases3)
    with False live have r: "t' = ?t\<lparr>read_offset := off\<rparr>" "k' = k2"
      by (auto simp: read_live_def read_main_def stat_log_def single_log_def Let_def lines_of_def split: if_split_asm)
    from main_lines_spec [OF m] obtain xs ys where s: "lines_of ?b = xs @ ys" "off = ?r + length (unlines xs)"
      "lines_of ?b \<noteq> [] \<longrightarrow> xs \<noteq> []" "queue k2 = queue k @ map (prepared rules level en) (records loads ?r xs)" by blast
    have b: "boundary c off" "recs loads c ?r off = records loads ?r xs"
      using recs_lines [OF s(1) refl le assms(3), of loads] s(2) by auto
    have "?r < off" if "lines_of ?b \<noteq> []"
    proof -
      have "unlines xs \<noteq> []" using s(3) that unlines_last(2) by blast
      then show ?thesis by (simp add: s(2))
    qed
    with r s(2,4) b show ?thesis by (intro exI [of _ off]) simp
  qed
qed

subsection \<open>The agent, the writer and the Hub together\<close>

text \<open>\<open>handed_over\<close> collects the batches the Hub acknowledged or refused for good.\<close>

record site =
  log_bytes :: bytes
  site_agent :: agent
  cursor_file :: "json option"
  handed_over :: "(nat \<times> jdict) list"

datatype site_event =
    Write bytes
  | Read bool
  | Flush rat "jdict hub_reply"
  | Beat rat "jdict hub_reply" "jdict hub_reply"
  | Restart

fun site_step ::
  "hub_settings \<Rightarrow> (ustr \<Rightarrow> json option) \<Rightarrow> (ustr \<Rightarrow> ustr) list \<Rightarrow> nat option \<Rightarrow> site_event \<Rightarrow> site \<Rightarrow> site"
where
  "site_step h loads rules ino (Write bs) s = s\<lparr>log_bytes := log_bytes s @ bs\<rparr>"
| "site_step h loads rules ino (Read ok) s =
     s\<lparr>site_agent := fst (read_more loads rules (single_log ino ok (log_bytes s)) (site_agent s))\<rparr>"
| "site_step h loads rules ino (Flush now reply) s =
     (case flush h now reply (site_agent s) of
        (a, ok, None) \<Rightarrow> s\<lparr>site_agent := a\<rparr>
      | (a, ok, Some cursor) \<Rightarrow>
          s\<lparr>site_agent := a, cursor_file := Some cursor, handed_over := handed_over s @ flush_batch h (site_agent s)\<rparr>)"
| "site_step h loads rules ino (Beat now beat config) s = s\<lparr>site_agent := fst (heartbeat h now beat config (site_agent s))\<rparr>"
| "site_step h loads rules ino Restart s = s\<lparr>site_agent := new_agent h (cursor_file s)\<rparr>"

definition run_site ::
  "hub_settings \<Rightarrow> (ustr \<Rightarrow> json option) \<Rightarrow> (ustr \<Rightarrow> ustr) list \<Rightarrow> nat option \<Rightarrow> site_event list \<Rightarrow> site \<Rightarrow> site"
where
  "run_site h loads rules ino evs s = fold (site_step h loads rules ino) evs s"

definition start_site :: "hub_settings \<Rightarrow> bytes \<Rightarrow> site" where
  "start_site h c = \<lparr>log_bytes = c, site_agent = new_agent h None, cursor_file = None, handed_over = []\<rparr>"

text \<open>An entry of the queue is a record as some report level and redaction switch prepared it.\<close>

definition sent_as :: "(ustr \<Rightarrow> ustr) list \<Rightarrow> nat \<times> jdict \<Rightarrow> nat \<times> jdict \<Rightarrow> bool" where
  "sent_as rules r q \<longleftrightarrow> fst q = fst r \<and> (\<exists>level en. prepare_event rules level en (snd r) = Some (snd q))"

definition committed_offset :: "site \<Rightarrow> nat" where
  "committed_offset s = fst (load_cursor (cursor_file s))"

definition site_inv :: "(ustr \<Rightarrow> json option) \<Rightarrow> (ustr \<Rightarrow> ustr) list \<Rightarrow> nat option \<Rightarrow> site \<Rightarrow> bool" where
  "site_inv loads rules ino s \<longleftrightarrow>
     (let t = ag_tail (site_agent s); a = ack_offset t; r = read_offset t; c = log_bytes s in
       drain_plan t = None \<and> a \<le> r \<and> boundary c a \<and> boundary c r \<and> ack_inode t \<in> {None, ino}
       \<and> list_all2 (sent_as rules) (recs loads c a r) (queue (ag_sink (site_agent s)))
       \<and> fst (load_cursor (cursor_file s)) = a \<and> snd (load_cursor (cursor_file s)) \<in> {None, ino}
       \<and> (\<forall>x \<in> set (recs loads c 0 a). \<exists>y \<in> set (handed_over s). sent_as rules x y))"

lemma site_inv_start: "site_inv loads rules ino (start_site h c)"
  by (simp add: site_inv_def start_site_def new_agent_def open_tail_def load_cursor_def Let_def)

lemma records_prepared:
  "r \<in> set (records loads p ls) \<Longrightarrow> sent_as rules r (prepared rules level en r)"
proof (induction ls arbitrary: p)
  case (Cons l ls)
  show ?case
  proof (cases "\<exists>ev. event_of loads l = Some ev \<and> r = (p + length l + 1, ev)")
    case True
    then obtain ev where ev: "event_of loads l = Some ev" "r = (p + length l + 1, ev)" by blast
    then have "prepare_event rules level en ev \<noteq> None"
      by (auto simp: event_of_def prepare_event_None split: if_split_asm option.splits)
    with ev(2) show ?thesis by (auto simp: sent_as_def prepared_def)
  next
    case False
    with Cons.prems have "r \<in> set (records loads (p + length l + 1) ls)" by (cases "event_of loads l") auto
    then show ?thesis by (rule Cons.IH)
  qed
qed simp

lemma recs_prepared: "list_all2 (sent_as rules) (recs loads c p q) (map (prepared rules level en) (recs loads c p q))"
  unfolding list_all2_map2 by (rule list.rel_refl_strong) (auto simp: recs_def records_prepared)

lemma load_cursor_json [simp]: "i \<noteq> Some 0 \<Longrightarrow> load_cursor (Some (cursor_json off i)) = (off, i)"
  by (cases i) (auto simp: load_cursor_def cursor_json_def jget_def)

lemma recs_prefix:
  assumes "boundary c p" "p \<le> q" "0 < m" "m \<le> length (recs loads c p q)"
  shows "let b = fst (recs loads c p q ! (m - 1)) in
    boundary c b \<and> p \<le> b \<and> b \<le> q \<and> recs loads c p b = take m (recs loads c p q) \<and> recs loads c b q = drop m (recs loads c p q)"
proof -
  let ?b = "take (q - p) (drop p c)"
  have "m - 1 < length (recs loads c p q)" and m: "Suc (m - 1) = m" using assms(3,4) by simp_all
  from records_cut [OF this(1) [unfolded recs_def]]
  obtain xs ys where s: "lines_of ?b = xs @ ys" "records loads p xs = take m (recs loads c p q)"
    "fst (recs loads c p q ! (m - 1)) = p + length (unlines xs)"
    unfolding recs_def m by blast
  have "length (unlines xs) \<le> length ?b"
    using unlines_lines_of [of ?b] s(1) by (metis append.assoc le_add1 length_append unlines_simps(3))
  then have "length (unlines xs) \<le> q - p" by simp
  with assms(2) have le: "p + length (unlines xs) \<le> q" by linarith
  from recs_lines [OF s(1) refl _ assms(1)] assms(1)
  have b: "boundary c (p + length (unlines xs))" "recs loads c p (p + length (unlines xs)) = records loads p xs"
    by (auto simp: boundary_def)
  from recs_split [OF b(1) _ le, of p loads] b(2) s(2)
  have "recs loads c p q = take m (recs loads c p q) @ recs loads c (p + length (unlines xs)) q" by simp
  then have "recs loads c (p + length (unlines xs)) q = drop m (recs loads c p q)"
    by (metis append_take_drop_id same_append_eq)
  with b le s(2,3) show ?thesis by simp
qed

lemma list_all2_memberE:
  assumes "list_all2 R as bs" "a \<in> set as"
  obtains b where "b \<in> set bs" "R a b"
proof -
  from assms(2) obtain n where n: "n < length as" "a = as ! n" by (auto simp: in_set_conv_nth)
  with list_all2_nthD [OF assms(1) n(1)] list_all2_lengthD [OF assms(1)] show ?thesis
    by (intro that [of "bs ! n"]) auto
qed

lemma site_inv_write: "site_inv loads rules ino s \<Longrightarrow> site_inv loads rules ino (s\<lparr>log_bytes := log_bytes s @ bs\<rparr>)"
  unfolding site_inv_def Let_def
  by (auto simp: boundary_append recs_append boundary_def [of "log_bytes s"])

lemma site_inv_read:
  assumes "site_inv loads rules ino s"
  shows "site_inv loads rules ino (site_step h loads rules ino (Read ok) s)"
proof (cases "max_pending_events \<le> length (queue (ag_sink (site_agent s)))")
  case False
  let ?a = "site_agent s" and ?c = "log_bytes s"
  let ?t = "ag_tail ?a" and ?k = "ag_sink ?a"
  obtain t' k' go where r: "read_new (parse_line loads) (prepare_event rules (report_level ?a) (redact_enabled ?a))
      (single_log ino ok ?c) ?t ?k = (t', k', go)" by (metis prod_cases3)
  with False have step: "site_step h loads rules ino (Read ok) s = s\<lparr>site_agent := ?a\<lparr>ag_tail := t', ag_sink := k'\<rparr>\<rparr>"
    by (simp add: read_more_def)
  from assms have i: "drain_plan ?t = None" "ack_offset ?t \<le> read_offset ?t" "boundary ?c (read_offset ?t)"
    "ack_inode ?t \<in> {None, ino}" "list_all2 (sent_as rules) (recs loads ?c (ack_offset ?t) (read_offset ?t)) (queue ?k)"
    by (simp_all add: site_inv_def Let_def)
  from read_new_single [OF r i(1,3,4)] obtain q where q: "boundary ?c q" "read_offset ?t \<le> q"
    "t' = ?t\<lparr>read_offset := q, ack_inode := ino\<rparr>"
    "queue k' = queue ?k @ map (prepared rules (report_level ?a) (redact_enabled ?a)) (recs loads ?c (read_offset ?t) q)"
    by blast
  have "list_all2 (sent_as rules) (recs loads ?c (ack_offset ?t) q) (queue k')"
    unfolding recs_split [OF i(3,2) q(2)] q(4) by (rule list_all2_appendI [OF i(5) recs_prepared])
  with assms q(1-3) show ?thesis unfolding step by (auto simp: site_inv_def Let_def)
qed (use assms in \<open>simp add: read_more_def\<close>)

lemma flush_cases:
  assumes "flush h now reply a = (a', ok, c)" "1 \<le> report_max_batch h"
  shows "(c = None \<and> ag_tail a' = ag_tail a \<and> ag_sink a' = ag_sink a)
    \<or> (\<exists>b. b = fst (last (flush_batch h a)) \<and> flush_batch h a \<noteq> [] \<and> c = Some (cursor_json b (ack_inode (ag_tail a)))
        \<and> ag_tail a' = (ag_tail a)\<lparr>ack_offset := b\<rparr>
        \<and> queue (ag_sink a') = drop (length (flush_batch h a)) (queue (ag_sink a)))"
  using assms
  by (auto simp: flush_def schedule_retry_def reset_backoff_def commit_batch_def commit_tail_def flush_batch_def Let_def
      split: if_split_asm hub_reply.splits)

lemma flush_batch_prefix:
  assumes "list_all2 P rs q" "flush_batch h a = take n q" "flush_batch h a \<noteq> []"
  shows "0 < length (flush_batch h a) \<and> length (flush_batch h a) \<le> length rs
    \<and> list_all2 P (take (length (flush_batch h a)) rs) (flush_batch h a)
    \<and> list_all2 P (drop (length (flush_batch h a)) rs) (drop (length (flush_batch h a)) q)"
proof -
  let ?m = "length (flush_batch h a)"
  have le: "?m \<le> length q" using assms(2) by simp
  have "take ?m q = flush_batch h a" using assms(2) by (auto simp: min_def)
  with assms(1,3) le list_all2_lengthD [OF assms(1)] show ?thesis
    by (metis length_greater_0_conv list_all2_takeI list_all2_dropI)
qed

lemma site_inv_flush:
  assumes "site_inv loads rules ino s" "1 \<le> report_max_batch h" "ino \<noteq> Some 0"
  shows "site_inv loads rules ino (site_step h loads rules ino (Flush now reply) s)"
proof -
  let ?a = "site_agent s" and ?c = "log_bytes s"
  let ?t = "ag_tail ?a" and ?q = "queue (ag_sink ?a)" and ?b = "flush_batch h ?a"
  obtain a' ok c where f: "flush h now reply ?a = (a', ok, c)" by (metis prod_cases3)
  from assms(1) have i: "drain_plan ?t = None" "ack_offset ?t \<le> read_offset ?t" "boundary ?c (ack_offset ?t)" "boundary ?c (read_offset ?t)"
    "ack_inode ?t \<in> {None, ino}" "list_all2 (sent_as rules) (recs loads ?c (ack_offset ?t) (read_offset ?t)) ?q"
    "\<forall>x \<in> set (recs loads ?c 0 (ack_offset ?t)). \<exists>y \<in> set (handed_over s). sent_as rules x y"
    by (simp_all add: site_inv_def Let_def)
  from flush_cases [OF f assms(2)] show ?thesis
  proof (elim disjE exE conjE)
    assume "c = None" "ag_tail a' = ag_tail ?a" "ag_sink a' = ag_sink ?a"
    with f assms(1) show ?thesis by (simp add: site_inv_def Let_def)
  next
    fix b assume b: "b = fst (last ?b)" "?b \<noteq> []" "c = Some (cursor_json b (ack_inode ?t))"
      "ag_tail a' = ?t\<lparr>ack_offset := b\<rparr>" "queue (ag_sink a') = drop (length ?b) ?q"
    let ?rs = "recs loads ?c (ack_offset ?t) (read_offset ?t)"
    note fb = flush_batch_prefix [OF i(6) flush_batch_def b(2)]
    have eq: "fst (?rs ! (length ?b - 1)) = b"
    proof -
      have "sent_as rules (take (length ?b) ?rs ! (length ?b - 1)) (?b ! (length ?b - 1))"
        using fb b(2) by (intro list_all2_nthD2 [of "sent_as rules" _ ?b]) simp_all
      then show ?thesis using b(1,2) fb by (simp add: sent_as_def last_conv_nth)
    qed
    have rp: "0 < length ?b" "length ?b \<le> length ?rs" using fb by blast+
    from recs_prefix [OF i(3,2) rp] have p: "boundary ?c b" "ack_offset ?t \<le> b" "b \<le> read_offset ?t" "recs loads ?c (ack_offset ?t) b = take (length ?b) ?rs"
      "recs loads ?c b (read_offset ?t) = drop (length ?b) ?rs" unfolding Let_def eq by blast+
    have new: "\<exists>y \<in> set ?b. sent_as rules x y" if "x \<in> set (take (length ?b) ?rs)" for x
    proof (rule list_all2_memberE)
      show "list_all2 (sent_as rules) (take (length ?b) ?rs) ?b" using fb by blast
    qed (use that in blast)+
    have le0: "0 \<le> ack_offset ?t" by simp
    have "\<exists>y \<in> set (handed_over s @ ?b). sent_as rules x y" if "x \<in> set (recs loads ?c 0 b)" for x
      using that new i(7) unfolding recs_split [OF i(3) le0 p(2)] p(4) set_append by blast
    moreover have "ack_inode ?t \<noteq> Some 0" using i(5) assms(3) by auto
    moreover have "list_all2 (sent_as rules) (recs loads ?c b (read_offset ?t)) (queue (ag_sink a'))"
      using fb unfolding p(5) b(5) by blast
    ultimately show ?thesis
      using f b(3,4) i(1,4,5) p(1,3) by (simp add: site_inv_def Let_def)
  qed
qed

lemma heartbeat_keeps: "ag_tail (fst (heartbeat h now beat config a)) = ag_tail a \<and> ag_sink (fst (heartbeat h now beat config a)) = ag_sink a"
  by (auto simp: heartbeat_def pull_config_def apply_config_def Let_def split: hub_reply.split option.split json.split prod.split)

lemma site_inv_step:
  assumes "site_inv loads rules ino s" "1 \<le> report_max_batch h" "ino \<noteq> Some 0"
  shows "site_inv loads rules ino (site_step h loads rules ino ev s)"
proof (cases ev)
  case (Beat now beat config)
  with assms(1) show ?thesis using heartbeat_keeps [of h now beat config "site_agent s"] by (simp add: site_inv_def Let_def)
next
  case Restart
  from assms(1) show ?thesis
    unfolding Restart by (cases "load_cursor (cursor_file s)") (auto simp: site_inv_def Let_def new_agent_def open_tail_def)
qed (use assms site_inv_write site_inv_read site_inv_flush in simp_all)

lemma site_inv_run:
  assumes "1 \<le> report_max_batch h" "ino \<noteq> Some 0"
  shows "site_inv loads rules ino s \<Longrightarrow> site_inv loads rules ino (run_site h loads rules ino evs s)"
  unfolding run_site_def by (induction evs arbitrary: s) (use assms site_inv_step in \<open>simp_all add: site_inv_step\<close>)


subsection \<open>One poll is a sequence of these events\<close>

lemma run_site_Nil [simp]: "run_site h loads rules ino [] s = s"
  by (simp add: run_site_def)

lemma run_site_Cons [simp]: "run_site h loads rules ino (ev # evs) s = run_site h loads rules ino evs (site_step h loads rules ino ev s)"
  by (simp add: run_site_def)

lemma run_site_append: "run_site h loads rules ino (xs @ ys) s = run_site h loads rules ino ys (run_site h loads rules ino xs s)"
  by (simp add: run_site_def)

lemma flush_step:
  assumes "flush h now reply a = (a', ok, c)"
  shows "site_agent (site_step h loads rules ino (Flush now reply) (s\<lparr>site_agent := a, cursor_file := cur\<rparr>)) = a'
    \<and> cursor_file (site_step h loads rules ino (Flush now reply) (s\<lparr>site_agent := a, cursor_file := cur\<rparr>))
        = (case c of Some x \<Rightarrow> Some x | None \<Rightarrow> cur)"
  using assms by (simp split: option.split)

lemma site_ext: "site_agent s = a \<Longrightarrow> cursor_file s = cur \<Longrightarrow> s = s\<lparr>site_agent := a, cursor_file := cur\<rparr>"
  by auto

lemma flush_loop_run:
  "site_agent s = a \<Longrightarrow> cursor_file s = cur \<Longrightarrow> flush_loop h now replies a cur = (a', cur') \<Longrightarrow>
   \<exists>evs. site_agent (run_site h loads rules ino evs s) = a' \<and> cursor_file (run_site h loads rules ino evs s) = cur'"
proof (induction replies arbitrary: s a cur)
  case Nil
  then show ?case by (intro exI [of _ "[]"]) simp
next
  case (Cons reply replies)
  show ?case
  proof (cases "queue (ag_sink a) \<noteq> [] \<and> next_attempt a \<le> now")
    case False
    with Cons.prems show ?thesis by (intro exI [of _ "[]"]) auto
  next
    case True
    obtain a1 ok c where f: "flush h now reply a = (a1, ok, c)" by (metis prod_cases3)
    let ?cur = "case c of Some x \<Rightarrow> Some x | None \<Rightarrow> cur" and ?s = "site_step h loads rules ino (Flush now reply) s"
    have st: "site_agent ?s = a1" "cursor_file ?s = ?cur"
      using flush_step [OF f, of loads rules ino cur s] site_ext [OF Cons.prems(1,2)] by simp_all
    from Cons.prems(3) True f have r: "(if ok then flush_loop h now replies a1 ?cur else (a1, ?cur)) = (a', cur')"
      by (simp add: Let_def)
    show ?thesis
    proof (cases ok)
      case True
      with r have "flush_loop h now replies a1 ?cur = (a', cur')" by simp
      from Cons.IH [OF st this] obtain evs where "site_agent (run_site h loads rules ino evs ?s) = a'"
        "cursor_file (run_site h loads rules ino evs ?s) = cur'" by blast
      then show ?thesis by (intro exI [of _ "Flush now reply # evs"]) simp
    next
      case False
      with r st show ?thesis by (intro exI [of _ "[Flush now reply]"]) simp
    qed
  qed
qed


subsection \<open>Catching up\<close>

lemma main_lines_queue:
  "main_lines parse prep ls off k = (off', k', go) \<Longrightarrow> length (queue k) < max_pending_events \<Longrightarrow>
   length (queue k') \<le> max_pending_events \<and> (go \<longrightarrow> length (queue k') < max_pending_events)"
proof (induction parse prep ls off k rule: main_lines.induct)
  case (2 parse prep l ls off k)
  then show ?case
    by (auto simp: Let_def deliver_event_def split: if_split_asm option.splits bool.splits)
qed auto

lemma drain_lines_queue:
  "drain_lines parse prep ls pos start k = (pos', start', k', go) \<Longrightarrow> length (queue k) < max_pending_events \<Longrightarrow>
   length (queue k') \<le> max_pending_events \<and> (go \<longrightarrow> length (queue k') < max_pending_events)"
proof (induction parse prep ls pos start k rule: drain_lines.induct)
  case (2 parse prep l ls pos start k)
  then show ?case
    by (auto simp: Let_def deliver_event_def split: if_split_asm option.splits bool.splits)
qed auto

lemma drain_loop_queue:
  "drain_loop parse prep logs budget plan t k = (t', k', go) \<Longrightarrow> length (queue k) < max_pending_events \<Longrightarrow>
   length (queue k') \<le> max_pending_events \<and> (go \<longrightarrow> length (queue k') < max_pending_events)"
proof (induction parse prep logs budget plan t k rule: drain_loop.induct)
  case (1 parse prep logs budget plan t k)
  note step = "1.prems"(1) [unfolded drain_loop.simps [of parse prep logs budget plan t k]]
  show ?case
  proof (cases plan)
    case Nil
    with step "1.prems"(2) show ?thesis by auto
  next
    case (Cons entry rest)
    obtain i start expected where e: "entry = (i, start, expected)" by (cases entry)
    show ?thesis
    proof (cases "budget = 0")
      case True
      with step "1.prems"(2) show ?thesis by (auto simp: Cons e)
    next
      case b: False
      show ?thesis
      proof (cases "stat_log logs i")
        case None
        with step b have "drain_loop parse prep logs budget rest t k = (t', k', go)" by (simp add: Cons e)
        with "1.IH"(1) [OF Cons e [symmetric] _ b None] "1.prems"(2) show ?thesis by blast
      next
        case (Some x)
        obtain en ino where x: "x = (en, ino)" by (cases x)
        show ?thesis
        proof (cases "en \<le> start")
          case True
          with step b Some have "drain_loop parse prep logs budget rest t k = (t', k', go)" by (simp add: Cons e x)
          with "1.IH"(2) [OF Cons e [symmetric] _ b Some x [symmetric] True] "1.prems"(2) show ?thesis by blast
        next
          case lt: False
          show ?thesis
          proof (cases "expected \<noteq> None \<and> ino \<noteq> None \<and> ino \<noteq> expected")
            case True
            with step b Some lt "1.prems"(2) show ?thesis by (auto simp: Cons e x)
          next
            case sh: False
            note nosh = if_not_P [OF sh]
            show ?thesis
            proof (cases "read_chunk logs i start (min en (start + budget))")
              case None
              with step b Some lt have "drain_loop parse prep logs budget rest t k = (t', k', go)"
                by (simp add: Cons e x nosh del: not_None_eq)
              with "1.IH"(3) [OF Cons e [symmetric] _ b Some x [symmetric] lt sh None] "1.prems"(2) show ?thesis by blast
            next
              case ch: (Some chunk)
              let ?final = "en \<le> start + length chunk" and ?p = "split_on newline chunk"
              let ?ls = "butlast ?p @ (if ?final \<and> \<not> blank (last ?p) then [last ?p] else [])"
              obtain pos start' k2 g where d: "drain_lines parse prep ?ls start start k = (pos, start', k2, g)"
                by (metis prod_cases4)
              note q = drain_lines_queue [OF d "1.prems"(2)]
              note ih4 = "1.IH"(4) [OF Cons e [symmetric] _ b Some x [symmetric] lt sh ch refl refl refl d [symmetric]]
              note ih5 = "1.IH"(5) [OF Cons e [symmetric] _ b Some x [symmetric] lt sh ch refl refl refl d [symmetric]]
              show ?thesis
              proof (cases "\<not> g")
                case True
                with step b Some lt ch d have "k' = k2" "\<not> go"
                  by (simp_all add: Cons e x nosh Let_def del: not_None_eq)
                with q show ?thesis by blast
              next
                case g: False
                show ?thesis
                proof (cases ?final)
                  case True
                  with step b Some lt ch d g have "drain_loop parse prep logs (budget - length chunk) rest t k2 = (t', k', go)"
                    by (simp add: Cons e x nosh Let_def del: not_None_eq)
                  with ih4 [OF refl refl refl g True] q g show ?thesis by blast
                next
                  case False
                  with step b Some lt ch d g
                  have "drain_loop parse prep logs (budget - length chunk) ((i, pos, expected) # rest) t k2 = (t', k', go)"
                    by (simp add: Cons e x nosh Let_def del: not_None_eq)
                  with ih5 [OF refl refl refl g False] q g show ?thesis by blast
                qed
              qed
            qed
          qed
        qed
      qed
    qed
  qed
qed

lemma read_new_queue:
  assumes "read_new parse prep logs t k = (t', k', go)" "length (queue k) < max_pending_events"
  shows "length (queue k') \<le> max_pending_events"
proof -
  have step: "length (queue k2) \<le> max_pending_events \<and> (g \<longrightarrow> length (queue k2) < max_pending_events)"
    if "drain_step parse prep logs t1 k1 = (t2, k2, g)" "length (queue k1) < max_pending_events" for t1 k1 t2 k2 g
    using that drain_loop_queue by (auto simp: drain_step_def split: option.splits)
  have live: "length (queue k2) \<le> max_pending_events"
    if "read_live parse prep logs t1 k1 = (t2, k2, g)" "length (queue k1) < max_pending_events" for t1 k1 t2 k2 g
    using that main_lines_queue
    by (fastforce simp: read_live_def read_main_def Let_def split: option.splits prod.splits if_split_asm)
  obtain t1 k1 go1 where 1: "(if drain_plan t \<noteq> None then drain_step parse prep logs t k else (t, k, True)) = (t1, k1, go1)"
    by (metis prod_cases3)
  have k1: "length (queue k1) \<le> max_pending_events \<and> (go1 \<longrightarrow> length (queue k1) < max_pending_events)"
    using 1 step assms(2) by (auto split: if_split_asm)
  show ?thesis
  proof (cases "\<not> go1 \<or> drain_plan t1 \<noteq> None \<or> stat_log logs 0 = None")
    case True
    with assms(1) 1 k1 show ?thesis by (auto simp: read_new_def simp del: not_None_eq split: if_split_asm)
  next
    case False
    then obtain sz ino where st: "go1" "drain_plan t1 = None" "stat_log logs 0 = Some (sz, ino)" by auto
    with k1 have lt: "length (queue k1) < max_pending_events" by blast
    obtain t2 k2 go2 where 2: "drain_step parse prep logs (start_drain logs t1) k1 = (t2, k2, go2)" by (metis prod_cases3)
    have eq: "(if was_rotated logs t1 sz ino
        then if \<not> go2 \<or> drain_plan t2 \<noteq> None then (t2, k2, go2) else read_live parse prep logs t2 k2
        else read_live parse prep logs t1 k1) = (t', k', go)"
      using assms(1) st unfolding read_new_def 1 by (simp add: 2 cong: if_cong)
    show ?thesis using eq step [OF 2 lt] live lt by (auto simp del: not_None_eq split: if_split_asm)
  qed
qed

lemma read_more_queue:
  "length (queue (ag_sink a)) \<le> max_pending_events \<Longrightarrow>
   length (queue (ag_sink (fst (read_more loads rules logs a)))) \<le> max_pending_events"
  using read_new_queue by (fastforce simp: read_more_def split: prod.split)

text \<open>Back-pressure: whatever the log directory holds (also rotated, missing or replaced files), reading never grows
  the pending queue beyond \<open>MAX_PENDING_EVENTS\<close>, and at the ceiling nothing is read at all.\<close>

theorem pending_queue_bounded:
  assumes "length (queue (ag_sink a)) \<le> max_pending_events"
  shows "length (queue (ag_sink (fst (read_more loads rules logs a)))) \<le> max_pending_events
    \<and> (length (queue (ag_sink a)) < max_pending_events \<or> read_more loads rules logs a = (a, 0))"
  using read_more_queue [OF assms] by (simp add: read_more_def)

lemma site_step_queue:
  assumes "length (queue (ag_sink (site_agent s))) \<le> max_pending_events" "1 \<le> report_max_batch h"
  shows "length (queue (ag_sink (site_agent (site_step h loads rules ino ev s)))) \<le> max_pending_events"
proof (cases ev)
  case (Flush now reply)
  obtain a' ok c where f: "flush h now reply (site_agent s) = (a', ok, c)" by (metis prod_cases3)
  have "length (queue (ag_sink a')) \<le> length (queue (ag_sink (site_agent s)))"
    using flush_cases [OF f assms(2)] by (elim disjE exE conjE) simp_all
  with assms f show ?thesis unfolding Flush by (auto split: option.split)
next
  case (Beat now beat config)
  with assms heartbeat_keeps [of h now beat config "site_agent s"] show ?thesis by simp
qed (use assms read_more_queue in \<open>simp_all add: new_agent_def\<close>)

lemma run_site_queue:
  assumes "1 \<le> report_max_batch h"
  shows "length (queue (ag_sink (site_agent s))) \<le> max_pending_events \<Longrightarrow>
    length (queue (ag_sink (site_agent (run_site h loads rules ino evs s)))) \<le> max_pending_events"
  by (induction evs arbitrary: s) (simp_all add: site_step_queue assms)

definition catch_up_round :: "rat \<Rightarrow> site_event list" where
  "catch_up_round now = Read True # replicate max_pending_events (Flush now (Hub_Ok []))"

definition catch_up :: "rat \<Rightarrow> nat \<Rightarrow> site_event list" where
  "catch_up now n = replicate max_pending_events (Flush now (Hub_Ok [])) @ concat (replicate n (catch_up_round now))"

lemma flush_ok_queue:
  assumes "1 \<le> report_max_batch h"
  shows "length (queue (ag_sink (site_agent (site_step h loads rules ino (Flush now (Hub_Ok [])) s))))
      = length (queue (ag_sink (site_agent s))) - nat (report_max_batch h)
    \<and> read_offset (ag_tail (site_agent (site_step h loads rules ino (Flush now (Hub_Ok [])) s))) = read_offset (ag_tail (site_agent s))
    \<and> log_bytes (site_step h loads rules ino (Flush now (Hub_Ok [])) s) = log_bytes s"
  using assms
  by (simp add: flush_def report_ack_of_def jget_def reset_backoff_def commit_batch_def commit_tail_def flush_batch_def Let_def min_def)

lemma flushes_queue:
  assumes "1 \<le> report_max_batch h" "length (queue (ag_sink (site_agent s))) \<le> n"
  shows "queue (ag_sink (site_agent (run_site h loads rules ino (replicate n (Flush now (Hub_Ok []))) s))) = []
    \<and> read_offset (ag_tail (site_agent (run_site h loads rules ino (replicate n (Flush now (Hub_Ok []))) s))) = read_offset (ag_tail (site_agent s))
    \<and> log_bytes (run_site h loads rules ino (replicate n (Flush now (Hub_Ok []))) s) = log_bytes s"
  using assms(2)
proof (induction n arbitrary: s)
  case (Suc n)
  let ?s = "site_step h loads rules ino (Flush now (Hub_Ok [])) s"
  note f = flush_ok_queue [OF assms(1), of loads rules ino now s]
  have "length (queue (ag_sink (site_agent ?s))) \<le> n" using f Suc.prems assms(1) by linarith
  with Suc.IH [of ?s] f show ?case by (simp del: site_step.simps)
qed simp

text \<open>Lines that fit into one read chunk make every read of unread lines progress.\<close>

lemma chunk_has_line:
  assumes "\<forall>l \<in> set (lines_of c). length l < n" "boundary c r" "lines_of (drop r c) \<noteq> []"
  shows "lines_of (take n (drop r c)) \<noteq> []"
proof -
  obtain l ls where ll: "lines_of (drop r c) = l # ls" using assms(3) by (cases "lines_of (drop r c)") auto
  have "c = take r c @ drop r c" by simp
  moreover have "take r c = [] \<or> last (take r c) = newline"
  proof (cases "r = 0")
    case False
    with assms(2) have "take r c \<noteq> []" "length (take r c) = r" by (auto simp: boundary_def)
    with assms(2) False show ?thesis by (auto simp: last_conv_nth boundary_def)
  qed simp
  ultimately have "lines_of c = lines_of (take r c) @ lines_of (drop r c)" by (metis lines_of_append)
  with ll assms(1) have "length l < n" by simp
  moreover have "drop r c = l @ newline # (unlines ls @ last (split_on newline (drop r c)))"
    using unlines_lines_of [of "drop r c"] ll by simp
  then obtain x where "drop r c = l @ newline # x" by blast
  ultimately have "take n (drop r c) = l @ newline # take (n - length l - 1) x" by (simp add: take_Cons')
  then show ?thesis using split_on_sep [of newline l] by (simp add: lines_of_def butlast_append)
qed

lemma round_progress:
  fixes now :: rat
  assumes "1 \<le> report_max_batch h" "ino \<noteq> Some 0" "site_inv loads rules ino s" "queue (ag_sink (site_agent s)) = []"
    and "\<forall>l \<in> set (lines_of (log_bytes s)). length l < read_chunk_bytes"
  defines "s' \<equiv> run_site h loads rules ino (catch_up_round now) s"
  shows "queue (ag_sink (site_agent s')) = [] \<and> log_bytes s' = log_bytes s
    \<and> read_offset (ag_tail (site_agent s)) \<le> read_offset (ag_tail (site_agent s'))
    \<and> (lines_of (drop (read_offset (ag_tail (site_agent s))) (log_bytes s)) \<noteq> [] \<longrightarrow>
         read_offset (ag_tail (site_agent s)) < read_offset (ag_tail (site_agent s')))"
proof -
  let ?a = "site_agent s" and ?c = "log_bytes s"
  let ?t = "ag_tail ?a" and ?k = "ag_sink ?a"
  define s1 where "s1 = site_step h loads rules ino (Read True) s"
  obtain t' k' go where r: "read_new (parse_line loads) (prepare_event rules (report_level ?a) (redact_enabled ?a))
      (single_log ino True ?c) ?t ?k = (t', k', go)" by (metis prod_cases3)
  have mp: "\<not> max_pending_events \<le> length (queue ?k)" using assms(4) by (simp add: max_pending_events_def)
  with r have s1: "s1 = s\<lparr>site_agent := ?a\<lparr>ag_tail := t', ag_sink := k'\<rparr>\<rparr>"
    by (simp add: s1_def read_more_def)
  have le: "length (queue k') \<le> max_pending_events" using read_new_queue [OF r] mp by linarith
  from assms(3) have i: "drain_plan ?t = None" "boundary ?c (read_offset ?t)" "ack_inode ?t \<in> {None, ino}"
    by (simp_all add: site_inv_def Let_def)
  from read_new_single [OF r i] obtain q where q: "read_offset ?t \<le> q" "t' = ?t\<lparr>read_offset := q, ack_inode := ino\<rparr>"
    "lines_of (take read_chunk_bytes (drop (read_offset ?t) ?c)) \<noteq> [] \<longrightarrow> read_offset ?t < q" by blast
  have s': "s' = run_site h loads rules ino (replicate max_pending_events (Flush now (Hub_Ok []))) s1"
    unfolding s'_def catch_up_round_def run_site_Cons s1_def [symmetric] by (rule refl)
  have "length (queue (ag_sink (site_agent s1))) \<le> max_pending_events" using le by (simp add: s1)
  note f = flushes_queue [OF assms(1) this, of loads rules ino now, folded s']
  show ?thesis
    using f q chunk_has_line [OF assms(5) i(2)] by (auto simp: s1)
qed

lemma rounds_progress:
  assumes "1 \<le> report_max_batch h" "ino \<noteq> Some 0" "\<forall>l \<in> set (lines_of (log_bytes s)). length l < read_chunk_bytes"
    and "site_inv loads rules ino s" "queue (ag_sink (site_agent s)) = []"
  shows "let s' = run_site h loads rules ino (concat (replicate n (catch_up_round now))) s;
             r = read_offset (ag_tail (site_agent s')) in
      queue (ag_sink (site_agent s')) = [] \<and> log_bytes s' = log_bytes s
      \<and> (lines_of (drop r (log_bytes s)) = [] \<or> read_offset (ag_tail (site_agent s)) + n \<le> r)"
proof (induction n)
  case 0
  with assms(5) show ?case by simp
next
  case (Suc n)
  let ?s = "run_site h loads rules ino (concat (replicate n (catch_up_round now))) s"
  let ?s' = "run_site h loads rules ino (catch_up_round now) ?s"
  have eq: "run_site h loads rules ino (concat (replicate (Suc n) (catch_up_round now))) s = ?s'"
    by (simp add: run_site_append [symmetric] flip: replicate_append_same)
  from Suc have ih: "queue (ag_sink (site_agent ?s)) = []" "log_bytes ?s = log_bytes s"
    "lines_of (drop (read_offset (ag_tail (site_agent ?s))) (log_bytes s)) = []
      \<or> read_offset (ag_tail (site_agent s)) + n \<le> read_offset (ag_tail (site_agent ?s))"
    by (simp_all add: Let_def)
  have inv: "site_inv loads rules ino ?s" using assms(1,2,4) by (rule site_inv_run)
  have "\<forall>l \<in> set (lines_of (log_bytes ?s)). length l < read_chunk_bytes" using assms(3) ih(2) by simp
  note p = round_progress [OF assms(1,2) inv ih(1) this, of now, unfolded ih(2)]
  have mono: "lines_of (drop r' (log_bytes s)) = []" if "lines_of (drop r (log_bytes s)) = []" "r \<le> r'" for r r'
  proof -
    have "\<exists>x. drop r (log_bytes s) = x @ drop r' (log_bytes s)"
      using that(2) by (metis append_take_drop_id drop_drop le_add_diff_inverse2)
    then obtain x where x: "drop r (log_bytes s) = x @ drop r' (log_bytes s)" by blast
    have "newline \<notin> set b" if "lines_of b = []" for b
    proof
      assume "newline \<in> set b"
      then obtain u v where "b = u @ newline # v" by (meson split_list)
      with that split_on_sep [of newline u v] show False by (simp add: lines_of_def butlast_append)
    qed
    with that(1) x have "newline \<notin> set (drop r' (log_bytes s))" by (metis Un_iff set_append)
    moreover have "split_on newline b = [b]" if "newline \<notin> set b" for b
      using that by (induction b) auto
    ultimately show ?thesis by (simp add: lines_of_def)
  qed
  show ?case
    unfolding eq Let_def using p ih(3) mono by (auto simp: not_less_eq_eq)
qed


subsection \<open>Rotation and restart\<close>

text \<open>A cursor committed while rotated generations are still being drained forgets them: it carries the identity
  of the new main file, so after a restart the agent reads only that file, from the committed offset.  Rotated records
  that were read but not yet sent are never sent, and an offset of the old file points into the new one.\<close>

theorem restart_during_catch_up_skips_rotated:
  assumes "logs 0 = Some f" "inode f = Some i" "i \<noteq> 0" "off \<le> length (content f)"
  shows "let t' = open_tail (Some (snd (commit_tail off (start_drain logs t)))) in
    read_offset t' = off \<and> read_new parse prep logs t' k = read_new parse prep [0 \<mapsto> f] t' k"
proof -
  have t': "open_tail (Some (snd (commit_tail off (start_drain logs t))))
      = \<lparr>ack_offset = off, ack_inode = Some i, read_offset = off, drain_plan = None\<rparr>"
    using assms(1-3) by (simp add: open_tail_def commit_tail_def start_drain_def stat_log_def)
  show ?thesis
    unfolding t' Let_def using assms
    by (simp add: read_new_def stat_log_def was_rotated_def read_live_def read_main_def Let_def)
qed

subsection \<open>Trimming, configuration and back-off\<close>

lemma redact_event_keys: "jget fld (redact_event rules enabled ev) = None \<longleftrightarrow> jget fld ev = None"
proof -
  define st where "st = (\<lambda>fld (d :: jdict). case jget fld d of Some (JStr s) \<Rightarrow> jset fld (JStr (redact_text rules s)) d | _ \<Rightarrow> d)"
  have 1: "jget fld (st g d) = None \<longleftrightarrow> jget fld d = None" for g d
    by (auto simp: st_def split: option.split json.split)
  have "jget fld (fold st fs ev) = None \<longleftrightarrow> jget fld ev = None" for fs
    by (induction fs arbitrary: ev) (simp_all add: 1)
  then show ?thesis by (simp add: redact_event_def st_def)
qed

lemma redact_event_other: "fld \<notin> set redactable_fields \<Longrightarrow> jget fld (redact_event rules enabled ev) = jget fld ev"
proof -
  assume f: "fld \<notin> set redactable_fields"
  define st where "st = (\<lambda>fld (d :: jdict). case jget fld d of Some (JStr s) \<Rightarrow> jset fld (JStr (redact_text rules s)) d | _ \<Rightarrow> d)"
  have 1: "fld \<noteq> g \<Longrightarrow> jget fld (st g d) = jget fld d" for g d
    by (auto simp: st_def split: option.split json.split)
  have "fld \<notin> set fs \<Longrightarrow> jget fld (fold st fs ev) = jget fld ev" for fs
    by (induction fs arbitrary: ev) (simp_all add: 1)
  with f show ?thesis by (simp add: redact_event_def st_def)
qed

lemma jget_pops: "jget fld (fold jpop fs ev) = (if fld \<in> set fs then None else jget fld ev)"
  by (induction fs arbitrary: ev) auto

text \<open>What leaves the host at each report level: an event is sent exactly when it has its required fields; at level
  \<open>meta\<close> it carries no argument and no output field, at level \<open>tool\<close> no output field, and no field outside the
  redactable and trimmed ones is changed.\<close>

theorem report_level_trims:
  "case prepare_event rules level enabled ev of
     None \<Rightarrow> (\<exists>fld \<in> set required_fields. \<not> truthy_get fld ev)
   | Some out \<Rightarrow> (\<forall>fld \<in> set required_fields. truthy_get fld ev)
      \<and> (level = ''meta'' \<longrightarrow> (\<forall>fld \<in> set (arg_fields @ output_fields). jget fld out = None))
      \<and> (level = ''tool'' \<longrightarrow> (\<forall>fld \<in> set output_fields. jget fld out = None) \<and> (jget ''argsText'' out = None \<longleftrightarrow> jget ''argsText'' ev = None))
      \<and> (\<forall>fld. fld \<notin> set (redactable_fields @ output_fields) \<longrightarrow> jget fld out = jget fld ev)"
  by (auto simp: prepare_event_def redact_event_keys redact_event_other jget_pops arg_fields_def output_fields_def redactable_fields_def
      required_fields_def)

lemma normalised_choice_in: "normalised_choice allowed v = Some c \<Longrightarrow> c \<in> set allowed"
  by (auto simp: normalised_choice_def dest: find_SomeD split: option.splits json.splits)

text \<open>A configuration pushed by the Hub can only select known report levels and output modes, and a field that the
  Hub does not send keeps its value; the list of changes is empty exactly when nothing changed.\<close>

theorem apply_config_typed:
  assumes "report_level a \<in> set report_levels" "output_mode a \<in> set output_modes"
  shows "case apply_config config a of (a', changes) \<Rightarrow>
    report_level a' \<in> set report_levels \<and> output_mode a' \<in> set output_modes
    \<and> (jget ''reportLevel'' config \<noteq> None \<or> report_level a' = report_level a)
    \<and> (jget ''redactEnabled'' config \<noteq> None \<or> redact_enabled a' = redact_enabled a)
    \<and> (jget ''outputMode'' config \<noteq> None \<or> output_mode a' = output_mode a)
    \<and> (changes = [] \<longleftrightarrow> a' = a)"
proof -
  obtain x where x: "normalised_choice report_levels (jget ''reportLevel'' config) = x" by blast
  obtain y where y: "normalised_choice output_modes (jget ''outputMode'' config) = y" by blast
  define z where "z = (case jget ''redactEnabled'' config of Some (JBool b) \<Rightarrow> b | _ \<Rightarrow> redact_enabled a)"
  have xs: "\<And>l. x = Some l \<Longrightarrow> l \<in> set report_levels" and ys: "\<And>l. y = Some l \<Longrightarrow> l \<in> set output_modes"
    using x y normalised_choice_in by blast+
  have xn: "jget ''reportLevel'' config = None \<Longrightarrow> x = None" and yn: "jget ''outputMode'' config = None \<Longrightarrow> y = None"
    and zn: "jget ''redactEnabled'' config = None \<Longrightarrow> z = redact_enabled a"
    using x y by (auto simp: normalised_choice_def z_def)
  obtain a' changes where r: "apply_config config a = (a', changes)" by fastforce
  have a': "a' = a\<lparr>report_level := (case x of Some l \<Rightarrow> l | None \<Rightarrow> report_level a), redact_enabled := z,
      output_mode := (case y of Some m \<Rightarrow> m | None \<Rightarrow> output_mode a)\<rparr>"
    using r unfolding apply_config_def x y Let_def z_def
    by (auto split: option.splits json.splits if_split_asm prod.splits)
  have "changes = [] \<longleftrightarrow> (case x of Some l \<Rightarrow> l = report_level a | None \<Rightarrow> True) \<and> z = redact_enabled a
      \<and> (case y of Some m \<Rightarrow> m = output_mode a | None \<Rightarrow> True)"
    using r unfolding apply_config_def x y Let_def z_def
    by (auto split: option.splits json.splits if_split_asm prod.splits)
  moreover have "a' = a \<longleftrightarrow> (case x of Some l \<Rightarrow> l = report_level a | None \<Rightarrow> True) \<and> z = redact_enabled a
      \<and> (case y of Some m \<Rightarrow> m = output_mode a | None \<Rightarrow> True)"
    unfolding a' by (cases a) (auto split: option.splits)
  ultimately have "changes = [] \<longleftrightarrow> a' = a" by blast
  moreover have "report_level a' \<in> set report_levels" "output_mode a' \<in> set output_modes"
    using xs ys assms by (auto simp: a' split: option.split)
  moreover have "jget ''reportLevel'' config \<noteq> None \<or> report_level a' = report_level a" using xn by (cases x) (auto simp: a')
  moreover have "jget ''outputMode'' config \<noteq> None \<or> output_mode a' = output_mode a" using yn by (cases y) (auto simp: a')
  moreover have "jget ''redactEnabled'' config \<noteq> None \<or> redact_enabled a' = redact_enabled a" using zn by (auto simp: a')
  ultimately show ?thesis unfolding r prod.case by blast
qed

text \<open>Exponential back-off: after \<open>n + 1\<close> failed attempts in a row the delay is the report interval doubled \<open>n\<close>
  times, capped at 300 seconds, and the next attempt is scheduled that much later; an acknowledged or a
  refused batch clears it.\<close>

theorem backoff_doubles_capped:
  assumes "0 < report_interval_seconds h" "backoff a = 0" "queue (ag_sink a) \<noteq> []"
  shows "let b = min (of_int (report_interval_seconds h) * 2 ^ length moments) 300;
             a' = retries h (moments @ [now]) a in
    backoff a' = b \<and> next_attempt a' = now + b \<and> queue (ag_sink a') = queue (ag_sink a)
    \<and> (\<exists>a2. fst (flush h now (Hub_Unavailable m) a') = a2 \<and> backoff a' \<le> backoff a2 \<and> queue (ag_sink a2) = queue (ag_sink a))
    \<and> backoff (fst (flush h now (Hub_Rejected m) a')) = 0 \<and> backoff (fst (flush h now (Hub_Ok []) a')) = 0"
proof -
  let ?a = "retries h (moments @ [now]) a"
  have b: "backoff ?a = min (of_int (report_interval_seconds h) * 2 ^ length moments) 300" using retries_backoff [OF assms(1,2)] .
  have n: "next_attempt ?a = now + backoff ?a"
    by (simp add: retries_append schedule_retry_def Let_def)
  have q: "queue (ag_sink (retries h ms x)) = queue (ag_sink x)" for ms x
    by (induction h ms x rule: retries.induct) (simp_all add: schedule_retry_def Let_def)
  have "backoff ?a \<le> backoff (fst (flush h now (Hub_Unavailable m) ?a))"
    using b assms(1,3) q by (simp add: flush_def schedule_retry_def max_backoff_seconds_def Let_def)
  moreover have "queue (ag_sink (fst (flush h now (Hub_Unavailable m) ?a))) = queue (ag_sink a)"
    using q by (simp add: flush_def schedule_retry_def Let_def)
  moreover have "backoff (fst (flush h now (Hub_Rejected m) ?a)) = 0 \<and> backoff (fst (flush h now (Hub_Ok []) ?a)) = 0"
    using q [of "moments @ [now]" a] assms(3)
    by (simp add: flush_def commit_batch_def reset_backoff_def commit_tail_def report_ack_of_def jget_def Let_def)
  ultimately show ?thesis using b n q [of "moments @ [now]" a] by (simp add: Let_def)
qed

subsection \<open>Witnesses\<close>

definition sample_hub :: hub_settings where
  "sample_hub =
     \<lparr>base_url = Some ''https://hub.example'', hub_host_id = Some ''h1'', agent_key = Some ''agt_k'',
      hub_report_level = ''tool'', hub_redact_enabled = True, hub_output_mode = ''preview'', report_enabled = True,
      audit_enabled = True, audit_log_path = None, audit_max_bytes = 33554432, audit_keep_files = 3,
      report_interval_seconds = 30, report_batch_size = 50, report_max_batch = 200, heartbeat_seconds = 60\<rparr>"

text \<open>A parser under which every line is a record that carries its own text.\<close>

definition sample_loads :: "ustr \<Rightarrow> json option" where
  "sample_loads s = Some (JObj (map (\<lambda>fld. (ustr_of fld, JStr s)) required_fields))"

definition two_lines :: bytes where
  "two_lines = [CHR ''a'', newline, CHR ''b'', newline]"


theorem pending_queue_bounded_witness:
  "length (queue (ag_sink (fst (read_more sample_loads [] (single_log (Some 7) True two_lines) (new_agent sample_hub None))))) \<le> max_pending_events"
  using pending_queue_bounded [of "new_agent sample_hub None" sample_loads "[]" "single_log (Some 7) True two_lines"]
  by (simp add: new_agent_def)

lemma two_lines_lines: "lines_of two_lines = [[CHR ''a''], [CHR ''b'']]"
  by (simp add: lines_of_def two_lines_def newline_def)

definition sample_record :: "bytes \<Rightarrow> jdict" where
  "sample_record l = map (\<lambda>fld. (ustr_of fld, JStr (map of_char l))) required_fields"


definition rotated_logs :: logs where
  "rotated_logs = [0 \<mapsto> \<lparr>inode = Some 6, readable = True, content = [CHR ''c'', newline]\<rparr>,
     1 \<mapsto> \<lparr>inode = Some 5, readable = True, content = two_lines\<rparr>]"

theorem restart_during_catch_up_skips_rotated_witness:
  "plan_of rotated_logs (open_tail None) = [(1, 0, Some 5)]
   \<and> (let t' = open_tail (Some (snd (commit_tail 0 (start_drain rotated_logs (open_tail None))))) in
      read_offset t' = 0 \<and> read_new (parse_line sample_loads) Some rotated_logs t' \<lparr>queue = [], dropped = 0\<rparr>
        = read_new (parse_line sample_loads) Some [0 \<mapsto> \<lparr>inode = Some 6, readable = True, content = [CHR ''c'', newline]\<rparr>] t' \<lparr>queue = [], dropped = 0\<rparr>)"
proof -
  have "rotated_files rotated_logs = [1]"
    by (simp add: rotated_files_def rotated_logs_def max_rotated_files_def upt_conv_Cons)
  then have "plan_of rotated_logs (open_tail None) = [(1, 0, Some 5)]"
    by (simp add: plan_of_def open_tail_def load_cursor_def stat_log_def rotated_logs_def map_filter_def Let_def)
  with restart_during_catch_up_skips_rotated [of rotated_logs _ 6 0 "open_tail None" "parse_line sample_loads" Some "\<lparr>queue = [], dropped = 0\<rparr>"]
  show ?thesis by (simp add: rotated_logs_def)
qed

theorem report_level_trims_witness:
  "case prepare_event [] ''tool'' True (map (\<lambda>fld. (ustr_of fld, JStr [65])) (required_fields @ output_fields)) of
     None \<Rightarrow> False | Some out \<Rightarrow> jget ''outputPreview'' out = None"
proof -
  let ?ev = "map (\<lambda>fld. (ustr_of fld, JStr [65])) (required_fields @ output_fields)"
  have "\<forall>fld \<in> set required_fields. truthy_get fld ?ev"
    by (simp add: required_fields_def output_fields_def truthy_get_def jget_def)
  with report_level_trims [where rules = "[]" and level = "''tool''" and enabled = True and ev = ?ev] show ?thesis
    by (auto simp: output_fields_def split: option.splits)
qed

theorem apply_config_typed_witness:
  "case apply_config [(ustr_of ''reportLevel'', JStr (ustr_of '' FULL ''))] (new_agent sample_hub None) of (a', changes) \<Rightarrow>
    report_level a' \<in> set report_levels \<and> output_mode a' = ''preview''"
  using apply_config_typed [of "new_agent sample_hub None" "[(ustr_of ''reportLevel'', JStr (ustr_of '' FULL ''))]"]
  by (auto simp: new_agent_def sample_hub_def report_levels_def output_modes_def jget_def)

theorem backoff_doubles_capped_witness:
  "backoff (retries sample_hub [0, 30, 90] (new_agent sample_hub None\<lparr>ag_sink := \<lparr>queue = [(1, [])], dropped = 0\<rparr>\<rparr>)) = 120"
  using backoff_doubles_capped [of sample_hub "new_agent sample_hub None\<lparr>ag_sink := \<lparr>queue = [(1, [])], dropped = 0\<rparr>\<rparr>" "[0, 30]" 90]
  by (simp add: Let_def sample_hub_def new_agent_def)

end
