(* ===== verification/Exec.thy ===== *)
theory Exec
  imports Env_Config
begin

text \<open>
  Synchronous execution: \<open>run_shell\<close> of \<open>src/remote_host_mcp/executor.py\<close> and \<open>run_argv\<close> of
  \<open>src/remote_host_mcp/agent_ops.py\<close>, with the output budget their two drain tasks share.  What the
  kernel and the child do (the reads of both pipes in the order they happen, the exit, the answers of
  \<open>killpg\<close>) is a record of observations.
\<close>

subsection \<open>The output budget\<close>

record budget =
  bg_limit :: int
  bg_used :: int
  bg_seen :: int
  bg_truncated :: bool

definition new_budget :: "int \<Rightarrow> budget" where
  "new_budget n = \<lparr>bg_limit = n, bg_used = 0, bg_seen = 0, bg_truncated = False\<rparr>"

text \<open>\<open>_Budget.keep\<close> of \<open>executor.py\<close> \<open>\<close>\<close>

definition keep_exec :: "bytes \<Rightarrow> budget \<Rightarrow> budget \<times> bytes" where
  "keep_exec data b =
     (let b1 = b\<lparr>bg_seen := bg_seen b + int (length data)\<rparr>;
          remaining = max 0 (bg_limit b1 - bg_used b1)
      in if remaining \<le> 0
         then (if data \<noteq> [] then b1\<lparr>bg_truncated := True\<rparr> else b1, [])
         else (let chunk = take (nat remaining) data;
                   b2 = b1\<lparr>bg_used := bg_used b1 + int (length chunk)\<rparr>
               in (if remaining < int (length data) then b2\<lparr>bg_truncated := True\<rparr> else b2, chunk)))"

text \<open>\<open>_OutputBudget.keep\<close> of \<open>agent_ops.py\<close> \<open>\<close>\<close>

definition keep_argv :: "bytes \<Rightarrow> budget \<Rightarrow> budget \<times> bytes" where
  "keep_argv data b =
     (let b1 = b\<lparr>bg_seen := bg_seen b + int (length data)\<rparr>;
          remaining = max 0 (bg_limit b1 - bg_used b1);
          kept = take (nat remaining) data;
          b2 = b1\<lparr>bg_used := bg_used b1 + int (length kept)\<rparr>
      in (if remaining < int (length data) then b2\<lparr>bg_truncated := True\<rparr> else b2, kept))"

text \<open>The two drain tasks: each read (standard error when the flag is set) in the order of arrival; an
  empty read ends its stream.\<close>

type_synonym reads = "(bool \<times> bytes) list"

fun drain :: "(bytes \<Rightarrow> 'b \<Rightarrow> 'b \<times> bytes) \<Rightarrow> reads \<Rightarrow> 'b \<Rightarrow> 'b \<times> bytes \<times> bytes" where
  "drain keep [] b = (b, [], [])"
| "drain keep ((err, data) # rs) b =
     (let (b1, kept) = keep data b; (b2, out, er) = drain keep rs b1
      in if err then (b2, out, kept @ er) else (b2, kept @ out, er))"

definition stream_bytes :: "bool \<Rightarrow> reads \<Rightarrow> bytes" where
  "stream_bytes err rs = concat (map snd (filter (\<lambda>r. fst r = err) rs))"

subsection \<open>Results\<close>

record tool_error =
  err_code :: string
  err_message :: string

record exec_result =
  success :: bool
  exit_code :: "int option"
  stdout :: ustr
  stderr :: ustr
  duration_ms :: int
  timed_out :: bool
  terminated_by :: "string option"
  truncated :: bool
  output_bytes_returned :: int
  output_bytes_total :: int
  result_cwd :: string
  error :: "tool_error option"

definition failed :: "string \<Rightarrow> int \<Rightarrow> string \<Rightarrow> string \<Rightarrow> exec_result" where
  "failed cwd dur code message =
     \<lparr>success = False, exit_code = None, stdout = [], stderr = [], duration_ms = dur, timed_out = False,
      terminated_by = None, truncated = False, output_bytes_returned = 0, output_bytes_total = 0, result_cwd = cwd,
      error = Some \<lparr>err_code = code, err_message = message\<rparr>\<rparr>"

subsection \<open>The child\<close>

record child =
  spawns :: bool
  stdin_ok :: bool
  exits_in_time :: bool
  group_gone :: bool
  exits_in_grace :: bool
  child_reads :: reads
  return_code :: "int option"
  elapsed_ms :: int

text \<open>\<open>_terminate_group\<close>, called while the child has no return code unless it has just exited.\<close>

definition terminate_group :: "bool \<Rightarrow> child \<Rightarrow> string option" where
  "terminate_group exited c =
     (if exited then None
      else if group_gone c then Some ''SIGTERM''
      else if exits_in_grace c then Some ''SIGTERM''
      else Some ''SIGKILL'')"

text \<open>From the start of the child to the result; \<open>what\<close> is the noun of the messages.\<close>

definition run_child ::
  "(bytes \<Rightarrow> budget \<Rightarrow> budget \<times> bytes) \<Rightarrow> string \<Rightarrow> string \<Rightarrow> settings \<Rightarrow> string \<Rightarrow> child \<Rightarrow> exec_result"
where
  "run_child keep what not_started st cwd c =
     (if \<not> spawns c then failed cwd (elapsed_ms c) ''EXEC_SETUP_FAILED'' not_started
      else (case drain keep (child_reads c) (new_budget (max_output_bytes st)) of (b, out, er) \<Rightarrow>
        if \<not> stdin_ok c
        then (failed cwd (elapsed_ms c) ''EXEC_SETUP_FAILED'' not_started)
               \<lparr>output_bytes_returned := bg_used b, output_bytes_total := bg_seen b\<rparr>
        else (let to = \<not> exits_in_time c in
          \<lparr>success = (\<not> to \<and> return_code c = Some 0), exit_code = return_code c,
           stdout = redact_key (path_key st) (decode_replace out), stderr = redact_key (path_key st) (decode_replace er),
           duration_ms = elapsed_ms c, timed_out = to,
           terminated_by = (if to then terminate_group False c else None),
           truncated = bg_truncated b, output_bytes_returned = bg_used b, output_bytes_total = bg_seen b, result_cwd = cwd,
           error = (if to then Some \<lparr>err_code = ''TIMEOUT'', err_message = what @ '' exceeded timeout and its process group was terminated''\<rparr>
                    else if return_code c \<noteq> Some 0
                    then Some \<lparr>err_code = ''NONZERO_EXIT'', err_message = what @ '' exited with code ''
                           @ (case return_code c of Some i \<Rightarrow> int_str i | None \<Rightarrow> ''None'')\<rparr>
                    else None)\<rparr>)))"

definition cwd_or_first_root :: "settings \<Rightarrow> path_env \<Rightarrow> ppath \<Rightarrow> path res" where
  "cwd_or_first_root st env here =
     (case resolve_allowed_path st env None (Some here) of
        Inl (ValueError m) \<Rightarrow> Inr (hd (allowed_roots st))
      | r \<Rightarrow> r)"

definition effective_timeout :: "settings \<Rightarrow> int option \<Rightarrow> int" where
  "effective_timeout st t = (case t of None \<Rightarrow> default_timeout_ms st | Some x \<Rightarrow> x)"

definition timeout_message :: "settings \<Rightarrow> string" where
  "timeout_message st = ''timeout_ms must be between 1000 and '' @ int_str (max_timeout_ms st)"

subsection \<open>\<open>run_shell\<close>\<close>

definition run_shell ::
  "settings \<Rightarrow> path_env \<Rightarrow> ppath \<Rightarrow> ustr \<Rightarrow> int option \<Rightarrow> string option \<Rightarrow> child \<Rightarrow> exec_result res"
where
  "run_shell st env here command timeout cwd c =
     and_then (encode_utf8 command) (\<lambda>command_bytes.
       case (case cwd of None \<Rightarrow> cwd_or_first_root st env here | Some d \<Rightarrow> resolve_allowed_path st env (Some d) None) of
         Inl (ValueError m) \<Rightarrow> Inr (failed (ppath_str here) 0 ''INVALID_CWD'' ''cwd is outside RHMCP_ALLOWED_ROOTS'')
       | Inl e \<Rightarrow> Inl e
       | Inr safe \<Rightarrow>
           let safe_cwd = path_str safe in
           if strip command = [] \<or> 0 \<in> set command \<or> max_command_bytes st < int (length command_bytes)
           then Inr (failed safe_cwd 0 ''INVALID_COMMAND'' ''Command is empty, contains NUL, or exceeds the UTF-8 byte limit'')
           else if effective_timeout st timeout < 1000 \<or> max_timeout_ms st < effective_timeout st timeout
           then Inr (failed safe_cwd 0 ''INVALID_TIMEOUT'' (timeout_message st @ ''; use job_start for longer work''))
           else Inr (run_child keep_exec ''Command'' ''Shell process could not be started'' st safe_cwd c))"

text \<open>The environment of the child, \<open>_safe_env\<close>: names as Python sees them, upper-cased.\<close>

definition upper_char :: "char \<Rightarrow> char" where
  "upper_char ch = (let n = (of_char ch :: nat) in if n \<in> {97..122} then char_of (n - 32) else ch)"

definition upper_name :: "string \<Rightarrow> string" where
  "upper_name s = map upper_char s"

definition credential_names :: "string list" where
  "credential_names =
     [''RHMCP_PATH_KEY'', ''DSW_MCP_PATH_KEY'', ''CLOUDFLARED_TOKEN'', ''CF_TUNNEL_TOKEN'', ''TUNNEL_TOKEN'', ''CFD_TOKEN'']"

definition plain_terminal :: "(string \<times> string) list" where
  "plain_terminal =
     [(''TERM'', ''dumb''), (''PAGER'', ''cat''), (''GIT_PAGER'', ''cat''), (''SYSTEMD_PAGER'', ''cat''), (''NO_COLOR'', ''1'')]"

definition set_all :: "(string \<times> string) list \<Rightarrow> (string \<times> string) list \<Rightarrow> (string \<times> string) list" where
  "set_all kvs env = fold (\<lambda>(k, v). dict_set k v) kvs env"

definition safe_env :: "(string \<times> string) list \<Rightarrow> (string \<times> string) list" where
  "safe_env environ = set_all plain_terminal (filter (\<lambda>e. upper_name (fst e) \<notin> set credential_names) environ)"

subsection \<open>\<open>run_argv\<close>\<close>

definition base_env_names :: "string list" where
  "base_env_names = [''PATH'', ''HOME'', ''LANG'', ''LC_ALL'', ''LC_CTYPE'', ''TMPDIR'', ''TZ'']"

definition env_name_char :: "char \<Rightarrow> bool" where
  "env_name_char ch =
     (let n = (of_char ch :: nat) in n \<in> {65..90} \<or> n \<in> {97..122} \<or> n \<in> {48..57} \<or> ch = CHR ''_'')"

definition safe_env_name :: "string \<Rightarrow> bool" where
  "safe_env_name s =
     (s \<noteq> [] \<and> length s \<le> 128 \<and> list_all env_name_char s \<and> (of_char (hd s) :: nat) \<notin> {48..57})"

definition secret_words :: "string list" where
  "secret_words =
     [''TOKEN'', ''SECRET'', ''PASS'', ''APIKEY'', ''API_KEY'', ''API-KEY'', ''PRIVATEKEY'', ''PRIVATE_KEY'', ''PRIVATE-KEY'',
      ''CREDENTIAL'', ''COOKIE'', ''SESSION'', ''AUTH'']"

definition secret_env_name :: "string \<Rightarrow> bool" where
  "secret_env_name s = list_ex (\<lambda>w. occurs w (upper_name s)) secret_words"

definition eligible_env_name :: "string \<Rightarrow> bool" where
  "eligible_env_name s =
     (safe_env_name s \<and> \<not> secret_env_name s
      \<and> \<not> (starts ''RHMCP_'' (upper_name s) \<or> starts ''DSW_MCP_'' (upper_name s) \<or> starts ''CF_'' (upper_name s)))"

definition inherit :: "(string \<Rightarrow> string option) \<Rightarrow> string \<Rightarrow> (string \<times> string) list \<Rightarrow> (string \<times> string) list" where
  "inherit environ name env = (case environ name of Some v \<Rightarrow> dict_set name v env | None \<Rightarrow> env)"

definition base_env :: "(string \<Rightarrow> string option) \<Rightarrow> (string \<times> string) list" where
  "base_env environ =
     (let env = fold (inherit environ) base_env_names [];
          env1 = (if map_of env ''PATH'' = None
                  then dict_set ''PATH'' ''/usr/local/sbin:/usr/local/bin:/usr/sbin:/usr/bin:/sbin:/bin'' env else env)
      in set_all plain_terminal env1)"

text \<open>The loop over the allow-list: the offending name, or the extended environment.\<close>

fun inherit_allowed :: "(string \<Rightarrow> string option) \<Rightarrow> string list \<Rightarrow> (string \<times> string) list \<Rightarrow> string + (string \<times> string) list" where
  "inherit_allowed environ [] env = Inr env"
| "inherit_allowed environ (name # names) env =
     (if \<not> eligible_env_name name then Inl name else inherit_allowed environ names (inherit environ name env))"

datatype argv_check = Argv_Bad string | Argv_Size int

fun check_argv :: "ustr list \<Rightarrow> int \<Rightarrow> argv_check res" where
  "check_argv [] sz = Inr (Argv_Size sz)"
| "check_argv (item # items) sz =
     (if item = [] \<or> 0 \<in> set item then Inr (Argv_Bad ''argv items must be non-empty strings without NUL'')
      else and_then (encode_utf8 item) (\<lambda>encoded.
        if 4096 < length encoded then Inr (Argv_Bad ''each argv item must be <= 4096 UTF-8 bytes'')
        else check_argv items (sz + int (length encoded))))"

definition exec_error :: "settings \<Rightarrow> path_env \<Rightarrow> ppath \<Rightarrow> string \<Rightarrow> string \<Rightarrow> string option \<Rightarrow> exec_result res" where
  "exec_error st env here code message cwd =
     (case cwd of
        None \<Rightarrow> and_then (cwd_or_first_root st env here) (\<lambda>d. Inr (failed (path_str d) 0 code message))
      | Some d \<Rightarrow> Inr (failed (ppath_str (parse_path d)) 0 code message))"

definition run_argv ::
  "settings \<Rightarrow> path_env \<Rightarrow> ppath \<Rightarrow> (string \<Rightarrow> string option) \<Rightarrow> ustr list \<Rightarrow> string option \<Rightarrow> int option \<Rightarrow>
     ustr option \<Rightarrow> string list \<Rightarrow> child \<Rightarrow> (exec_result \<times> (string \<times> string) list option) res"
where
  "run_argv st env here environ argv cwd timeout stdin_text allowlist c =
     (let refuse = (\<lambda>code message d. and_then (exec_error st env here code message d) (\<lambda>r. Inr (r, None))) in
      if argv = [] \<or> 64 < length argv then refuse ''INVALID_ARGV'' ''argv must contain between 1 and 64 items'' cwd
      else and_then (check_argv argv 0) (\<lambda>chk.
        case chk of
          Argv_Bad message \<Rightarrow> refuse ''INVALID_ARGV'' message cwd
        | Argv_Size sz \<Rightarrow>
            if max_command_bytes st < sz then refuse ''INVALID_ARGV'' ''combined argv exceeds command byte limit'' cwd
            else (case resolve_allowed_path st env (case cwd of Some d \<Rightarrow> if d = [] then None else Some d | None \<Rightarrow> None) (Some here) of
                Inl (ValueError m) \<Rightarrow>
                  Inr (failed (path_str (hd (allowed_roots st))) 0 ''INVALID_CWD'' ''cwd is outside RHMCP_ALLOWED_ROOTS'', None)
              | Inl e \<Rightarrow> Inl e
              | Inr safe \<Rightarrow>
                  let safe_cwd = path_str safe in
                  if effective_timeout st timeout < 1000 \<or> max_timeout_ms st < effective_timeout st timeout
                  then Inr (failed safe_cwd 0 ''INVALID_TIMEOUT'' (timeout_message st), None)
                  else if 32 < length allowlist
                  then refuse ''INVALID_ENV_ALLOWLIST'' ''env_allowlist accepts at most 32 names'' (Some safe_cwd)
                  else (case inherit_allowed environ allowlist (base_env environ) of
                      Inl name \<Rightarrow> refuse ''INVALID_ENV_ALLOWLIST'' (''environment name is not eligible for inheritance: '' @ name) (Some safe_cwd)
                    | Inr child_env \<Rightarrow>
                        and_then (case stdin_text of None \<Rightarrow> Inr None | Some s \<Rightarrow> and_then (encode_utf8 s) (\<lambda>b. Inr (Some b))) (\<lambda>stdin_bytes.
                          if (case stdin_bytes of Some b \<Rightarrow> 65536 < length b | None \<Rightarrow> False)
                          then refuse ''INVALID_STDIN'' ''stdin_text must be <= 65536 UTF-8 bytes'' (Some safe_cwd)
                          else Inr (run_child keep_argv ''Process'' ''Process could not be started'' st safe_cwd c, Some child_env))))))"

subsection \<open>What a budget guarantees\<close>

text \<open>The contract of a shared output budget, and what follows for two streams drained through it.\<close>

locale output_budget =
  fixes keep :: "bytes \<Rightarrow> 'b \<Rightarrow> 'b \<times> bytes"
    and used seen limit :: "'b \<Rightarrow> int"
    and cut :: "'b \<Rightarrow> bool"
  assumes keep_law: "keep data b = (b', kept) \<Longrightarrow> used b \<le> limit b \<Longrightarrow>
      kept = take (nat (limit b - used b)) data \<and> used b' = used b + int (length kept)
      \<and> seen b' = seen b + int (length data) \<and> limit b' = limit b
      \<and> (cut b' \<longleftrightarrow> cut b \<or> limit b - used b < int (length data))"
begin

lemma drain_counts:
  "drain keep rs b = (b', out, er) \<Longrightarrow> used b \<le> limit b \<Longrightarrow>
   used b' = min (limit b) (used b + int (length (concat (map snd rs)))) \<and> limit b' = limit b
   \<and> seen b' = seen b + int (length (concat (map snd rs)))
   \<and> used b' = used b + int (length out) + int (length er)
   \<and> (cut b' \<longleftrightarrow> cut b \<or> limit b < used b + int (length (concat (map snd rs))))"
proof (induction rs arbitrary: b b' out er)
  case (Cons r rs)
  obtain err data where r: "r = (err, data)" by (cases r)
  obtain b1 kept where k: "keep data b = (b1, kept)" by fastforce
  obtain b2 o2 e2 where d: "drain keep rs b1 = (b2, o2, e2)" by (metis prod_cases3)
  define n where "n = int (length data)"
  define m where "m = int (length (concat (map snd rs)))"
  have nm: "0 \<le> n" "0 \<le> m" by (simp_all add: n_def m_def)
  from keep_law [OF k Cons.prems(2)]
  have law: "int (length kept) = min (limit b - used b) n" "used b1 = used b + int (length kept)" "seen b1 = seen b + n"
    "limit b1 = limit b" "cut b1 \<longleftrightarrow> cut b \<or> limit b - used b < n"
    using Cons.prems(2) by (auto simp: n_def)
  then have "used b1 \<le> limit b1" using Cons.prems(2) by linarith
  note ih = Cons.IH [OF d this, folded m_def]
  have b': "b' = b2" "int (length out) + int (length er) = int (length kept) + int (length o2) + int (length e2)"
    using Cons.prems(1) by (auto simp: r k d split: if_split_asm)
  have len: "int (length (concat (map snd (r # rs)))) = n + m" by (simp add: r n_def m_def)
  have "cut b2 \<longleftrightarrow> cut b \<or> limit b < used b + (n + m)"
    using ih law nm by (cases "limit b - used b < n") auto
  moreover have "used b2 = min (limit b) (used b + (n + m))" using ih law nm by linarith
  moreover have "used b2 = used b + int (length out) + int (length er)" using ih law b'(2) by linarith
  ultimately show ?case unfolding len b'(1) using ih law by simp
qed simp

lemma drain_full: "drain keep rs b = (b', out, er) \<Longrightarrow> used b = limit b \<Longrightarrow> out = [] \<and> er = []"
proof -
  assume d: "drain keep rs b = (b', out, er)" and u: "used b = limit b"
  from drain_counts [OF d] u have "used b' = limit b" "used b' = used b + int (length out) + int (length er)" by auto
  with u have "int (length out) + int (length er) = 0" by linarith
  then have "length out = 0 \<and> length er = 0" by linarith
  then show ?thesis by simp
qed

lemma drain_prefix:
  "drain keep rs b = (b', out, er) \<Longrightarrow> used b \<le> limit b \<Longrightarrow>
   (\<exists>x. stream_bytes False rs = out @ x) \<and> (\<exists>y. stream_bytes True rs = er @ y)"
proof (induction rs arbitrary: b b' out er)
  case (Cons r rs)
  obtain err data where r: "r = (err, data)" by (cases r)
  obtain b1 kept where k: "keep data b = (b1, kept)" by fastforce
  obtain b2 o2 e2 where d: "drain keep rs b1 = (b2, o2, e2)" by (metis prod_cases3)
  note law = keep_law [OF k Cons.prems(2)]
  then have le: "used b1 \<le> limit b1" using Cons.prems(2) by auto
  obtain x y where ih: "stream_bytes False rs = o2 @ x" "stream_bytes True rs = e2 @ y"
    using Cons.IH [OF d le] Cons.prems(1) r k d by auto
  have res: "out = (if err then o2 else kept @ o2)" "er = (if err then kept @ e2 else e2)"
    using Cons.prems(1) by (auto simp: r k d split: if_split_asm)
  show ?case
  proof (cases "int (length data) \<le> limit b - used b")
    case True
    with law have "kept = data" by simp
    with res ih show ?thesis by (auto simp: r stream_bytes_def)
  next
    case False
    with law Cons.prems(2) have "used b1 = limit b1" by auto
    with drain_full [OF d] have "o2 = []" "e2 = []" by auto
    moreover obtain z where "data = kept @ z" using law append_take_drop_id by metis
    ultimately show ?thesis using res ih by (auto simp: r stream_bytes_def)
  qed
qed (auto simp: stream_bytes_def)

end

interpretation exec_budget: output_budget keep_exec bg_used bg_seen bg_limit bg_truncated
  by unfold_locales (auto simp: keep_exec_def Let_def split: if_split_asm)

interpretation argv_budget: output_budget keep_argv bg_used bg_seen bg_limit bg_truncated
  by unfold_locales (auto simp: keep_argv_def Let_def max_def split: if_split_asm)

lemma keep_exec_eq: "keep_exec = keep_argv"
  by (intro ext) (auto simp: keep_exec_def keep_argv_def Let_def max_def)

text \<open>Both implementations of the output budget, written differently in the two modules, are the same function, so
  the same child gives the same standard output, counts and flags through either.\<close>

theorem output_budgets_agree:
  "keep_exec data b = keep_argv data b
   \<and> run_child keep_exec what msg st cwd c = run_child keep_argv what msg st cwd c"
  by (simp add: keep_exec_eq)

text \<open>However the reads of the two pipes interleave, a command's result keeps exactly as many bytes as the configured
  limit allows, reports the true total, is marked truncated exactly when bytes were dropped, and each stream shows the
  decoding of a prefix of what the child wrote to it.\<close>

theorem exec_output_within_budget:
  assumes "0 \<le> max_output_bytes st" "spawns c" "stdin_ok c" "keep = keep_exec \<or> keep = keep_argv"
  defines "written \<equiv> int (length (concat (map snd (child_reads c))))"
  shows "let r = run_child keep what msg st cwd c in
    output_bytes_total r = written \<and> output_bytes_returned r = min (max_output_bytes st) written
    \<and> (truncated r \<longleftrightarrow> max_output_bytes st < written)
    \<and> (\<exists>out er x y. stream_bytes False (child_reads c) = out @ x \<and> stream_bytes True (child_reads c) = er @ y
         \<and> int (length out + length er) = output_bytes_returned r
         \<and> stdout r = redact_key (path_key st) (decode_replace out) \<and> stderr r = redact_key (path_key st) (decode_replace er))"
proof -
  have eq: "keep = keep_exec" using assms(4) keep_exec_eq by auto
  let ?b = "new_budget (max_output_bytes st)"
  obtain b out er where d: "drain keep_exec (child_reads c) ?b = (b, out, er)" by (metis prod_cases3)
  have le: "bg_used ?b \<le> bg_limit ?b" using assms(1) by (simp add: new_budget_def)
  note n = exec_budget.drain_counts [OF d le]
  obtain x y where p: "stream_bytes False (child_reads c) = out @ x" "stream_bytes True (child_reads c) = er @ y"
    using exec_budget.drain_prefix [OF d le] by blast
  let ?r = "run_child keep_exec what msg st cwd c"
  have r: "output_bytes_total ?r = bg_seen b" "output_bytes_returned ?r = bg_used b" "truncated ?r = bg_truncated b"
    "stdout ?r = redact_key (path_key st) (decode_replace out)" "stderr ?r = redact_key (path_key st) (decode_replace er)"
    using assms(2,3) by (simp_all add: run_child_def d Let_def)
  have "int (length out + length er) = output_bytes_returned ?r" using n r(2) by (simp add: new_budget_def)
  then have "\<exists>out er x y. stream_bytes False (child_reads c) = out @ x \<and> stream_bytes True (child_reads c) = er @ y
      \<and> int (length out + length er) = output_bytes_returned ?r
      \<and> stdout ?r = redact_key (path_key st) (decode_replace out) \<and> stderr ?r = redact_key (path_key st) (decode_replace er)"
    using p r by (intro exI conjI) assumption+
  then show ?thesis
    unfolding eq Let_def using n r by (simp add: new_budget_def written_def)
qed

lemma run_child_classified:
  "let r = run_child keep what msg st cwd c in
    result_cwd r = cwd
    \<and> (success r \<longleftrightarrow> error r = None) \<and> (success r \<longrightarrow> exit_code r = Some 0 \<and> \<not> timed_out r)
    \<and> (timed_out r \<longleftrightarrow> terminated_by r \<noteq> None)
    \<and> (error r \<noteq> None \<longrightarrow> err_code (the (error r)) \<in> {''EXEC_SETUP_FAILED'', ''TIMEOUT'', ''NONZERO_EXIT''})
    \<and> (err_code (the (error r)) = ''TIMEOUT'' \<and> error r \<noteq> None \<longleftrightarrow> timed_out r)"
proof (cases "spawns c \<and> stdin_ok c")
  case True
  obtain b out er where d: "drain keep (child_reads c) (new_budget (max_output_bytes st)) = (b, out, er)" by (metis prod_cases3)
  from True show ?thesis
    by (simp add: run_child_def d Let_def terminate_group_def)
next
  case False
  obtain b out er where d: "drain keep (child_reads c) (new_budget (max_output_bytes st)) = (b, out, er)" by (metis prod_cases3)
  from False show ?thesis
    by (auto simp: run_child_def d Let_def failed_def)
qed

text \<open>\<open>run_shell\<close> answers every request on every branch: whenever it answers, a successful result has no error, exit
  code 0 and no timeout; a timed-out command was terminated by a signal; an error has one of six codes; and the child is
  only started when the working directory resolves below an allowed root, the command is non-blank, free of NUL and within
  its byte limit, and the timeout lies between one second and the configured maximum.\<close>

theorem run_shell_answers:
  assumes "run_shell st env here command t cwd c = Inr r"
  shows "(success r \<longleftrightarrow> error r = None) \<and> (success r \<longrightarrow> exit_code r = Some 0 \<and> \<not> timed_out r)
    \<and> (timed_out r \<longleftrightarrow> terminated_by r \<noteq> None)
    \<and> (error r \<noteq> None \<longrightarrow> err_code (the (error r)) \<in>
          {''INVALID_CWD'', ''INVALID_COMMAND'', ''INVALID_TIMEOUT'', ''EXEC_SETUP_FAILED'', ''TIMEOUT'', ''NONZERO_EXIT''})
    \<and> ((\<forall>c'. run_shell st env here command t cwd c' = Inr r)
       \<or> (\<exists>d. r = run_child keep_exec ''Command'' ''Shell process could not be started'' st (path_str d) c
            \<and> (cwd \<noteq> None \<longrightarrow> is_under_allowed_root st d) \<and> (is_under_allowed_root st d \<or> d = hd (allowed_roots st)))
          \<and> strip command \<noteq> [] \<and> 0 \<notin> set command \<and> int (length (utf8 command)) \<le> max_command_bytes st
          \<and> (t = None \<or> 1000 \<le> the t \<and> the t \<le> max_timeout_ms st))"
proof -
  define dir where "dir = (case cwd of None \<Rightarrow> cwd_or_first_root st env here | Some d \<Rightarrow> resolve_allowed_path st env (Some d) None)"
  have under: "is_under_allowed_root st p" if "resolve_allowed_path st env raw d = Inr p" for raw d p
    using that by (auto simp: resolve_allowed_path_def split: sum.splits if_split_asm option.splits)
  have dir_ok: "(cwd \<noteq> None \<longrightarrow> is_under_allowed_root st p) \<and> (is_under_allowed_root st p \<or> p = hd (allowed_roots st))" if "dir = Inr p" for p
    using that by (auto simp: dir_def cwd_or_first_root_def split: option.splits sum.splits exn.splits intro: under)
  have enc: "encode_utf8 command = Inr (utf8 command)"
    using assms by (auto simp: run_shell_def encode_utf8_def and_then_def split: if_split_asm)
  note rs = run_shell_def [of st env here command t cwd, unfolded enc and_then_simps, folded dir_def]
  consider (cwd) m where "dir = Inl (ValueError m)" | (ok) p where "dir = Inr p"
    using assms unfolding rs by (auto split: sum.splits exn.splits)
  then show ?thesis
  proof cases
    case cwd
    with assms have r: "r = failed (ppath_str here) 0 ''INVALID_CWD'' ''cwd is outside RHMCP_ALLOWED_ROOTS''" by (simp add: rs)
    from cwd have "\<forall>c'. run_shell st env here command t cwd c' = Inr r" by (simp add: rs r)
    with r show ?thesis by (simp add: failed_def)
  next
    case (ok p)
    show ?thesis
    proof (cases "strip command = [] \<or> 0 \<in> set command \<or> max_command_bytes st < int (length (utf8 command))
        \<or> effective_timeout st t < 1000 \<or> max_timeout_ms st < effective_timeout st t")
      case True
      have "(\<forall>c'. run_shell st env here command t cwd c' = Inr r) \<and> (\<exists>m code. r = failed (path_str p) 0 code m \<and> code \<in> {''INVALID_COMMAND'', ''INVALID_TIMEOUT''})"
        using assms True unfolding rs ok by (auto simp: Let_def split: if_split_asm)
      then show ?thesis by (auto simp: failed_def)
    next
      case False
      then have r: "r = run_child keep_exec ''Command'' ''Shell process could not be started'' st (path_str p) c"
        using assms unfolding rs ok by (auto simp: Let_def)
      have "t = None \<or> 1000 \<le> the t \<and> the t \<le> max_timeout_ms st"
        using False by (cases t) (auto simp: effective_timeout_def)
      with r dir_ok [OF ok] False run_child_classified [of keep_exec "''Command''" "''Shell process could not be started''" st "path_str p" c]
      show ?thesis unfolding Let_def by (metis insert_iff not_le)
    qed
  qed
qed

text \<open>Neither execution path returns the capability key: with settings that \<open>from_env\<close> accepts, the key does not occur in
  the standard output or error of a result, even when the child printed it.\<close>

theorem exec_output_redacted:
  assumes "settings_ok st" "path_key st \<noteq> []"
  shows "let r = run_child keep what msg st cwd c in
    \<not> occurs (ustr_of (path_key st)) (stdout r) \<and> \<not> occurs (ustr_of (path_key st)) (stderr r)"
proof -
  have k: "key_ok (path_key st)" using assms by (auto simp: settings_ok_def)
  have "\<not> key_char (CHR ''['')" "\<not> key_char (CHR '']'')" by (simp_all add: key_char_def is_alpha_def)
  with k have "CHR ''['' \<notin> set (path_key st)" "CHR '']'' \<notin> set (path_key st)" "10 \<le> length (path_key st)"
    by (auto simp: key_ok_def list_all_iff)
  then have red: "\<not> occurs (ustr_of (path_key st)) (redact_key (path_key st) s)" for s
    using redact_key_removes by blast
  have nil: "\<not> occurs (ustr_of (path_key st)) []" using assms(2) by (simp add: ustr_of_def)
  obtain b out er where d: "drain keep (child_reads c) (new_budget (max_output_bytes st)) = (b, out, er)" by (metis prod_cases3)
  show ?thesis using red nil by (simp add: run_child_def d Let_def failed_def)
qed

subsection \<open>The environment of a child\<close>

lemma map_of_set_all: "map_of (set_all kvs env) k = (case map_of (rev kvs) k of Some v \<Rightarrow> Some v | None \<Rightarrow> map_of env k)"
  by (induction kvs arbitrary: env) (auto simp: set_all_def map_add_def split: option.split)

lemma map_of_filter_key: "map_of (filter (\<lambda>e. P (fst e)) env) k = (if P k then map_of env k else None)"
  by (induction env) auto

text \<open>The credentials of the server and its tunnel never reach a shell command: no variable of the child has, in any
  capitalisation, one of their names; the five terminal variables are set, and every other variable is passed on.\<close>

theorem safe_env_no_credentials:
  "map_of (safe_env environ) k =
     (case map_of plain_terminal k of Some v \<Rightarrow> Some v
      | None \<Rightarrow> if upper_name k \<in> set credential_names then None else map_of environ k)
   \<and> map_of (safe_env ((name, v) # environ)) name = (if upper_name name \<in> set credential_names then None
        else case map_of plain_terminal name of Some w \<Rightarrow> Some w | None \<Rightarrow> Some v)"
proof -
  have 1: "map_of (safe_env environ) k = (case map_of (rev plain_terminal) k of Some v \<Rightarrow> Some v
      | None \<Rightarrow> if upper_name k \<notin> set credential_names then map_of environ k else None)" for environ k
    unfolding safe_env_def map_of_set_all map_of_filter_key [of "\<lambda>k. upper_name k \<notin> set credential_names"] by (rule refl)
  have 2: "map_of (rev plain_terminal) k = map_of plain_terminal k" for k by (auto simp: plain_terminal_def)
  have "upper_name x \<notin> set credential_names" if "map_of plain_terminal x = Some v" for x v
    using that by (auto simp: plain_terminal_def upper_name_def upper_char_def credential_names_def Let_def split: if_splits)
  then have 3: "map_of plain_terminal k = None" if "upper_name k \<in> set credential_names" for k
    using that by (cases "map_of plain_terminal k") auto
  show ?thesis unfolding 1 2 using 3 by (auto split: option.split)
qed

lemma map_of_inherit: "map_of (inherit environ name env) k = (if k = name \<and> environ name \<noteq> None then environ name else map_of env k)"
  by (auto simp: inherit_def split: option.split)

lemma inherit_allowed_spec:
  "inherit_allowed environ names env = Inr env' \<Longrightarrow>
   (\<forall>n \<in> set names. eligible_env_name n)
   \<and> map_of env' k = (if k \<in> set names \<and> environ k \<noteq> None then environ k else map_of env k)"
  by (induction names arbitrary: env) (auto simp: map_of_inherit split: if_split_asm)

lemma base_env_keys: "map_of (base_env environ) k = Some v \<Longrightarrow> k \<in> set base_env_names \<or> (k, v) \<in> set plain_terminal"
proof -
  assume k: "map_of (base_env environ) k = Some v"
  have f: "map_of (fold (inherit environ) names env) k \<noteq> None \<Longrightarrow> k \<in> set names \<or> map_of env k \<noteq> None" for names env
  proof (induction names arbitrary: env)
    case (Cons a names)
    from Cons.prems Cons.IH [of "inherit environ a env"] show ?case by (auto simp: map_of_inherit split: if_split_asm)
  qed simp
  from k show ?thesis
    using f [of base_env_names "[]"]
    by (auto simp: base_env_def Let_def map_of_set_all base_env_names_def dest!: map_of_SomeD split: option.splits if_split_asm)
qed

lemma run_argv_env:
  assumes "run_argv st env here environ argv cwd t stdin_text allowlist c = Inr (r, Some child_env)"
  shows "inherit_allowed environ allowlist (base_env environ) = Inr child_env"
proof -
  have no: "\<not> (and_then (exec_error st env here code m d) (\<lambda>r. Inr (r, None)) = Inr (r, Some child_env))" for code m d
    by (simp add: and_then_Inr)
  from assms obtain chk where c: "check_argv argv 0 = Inr chk" and a: "argv \<noteq> []" "length argv \<le> 64"
    by (auto simp: run_argv_def Let_def and_then_Inr no split: if_split_asm)
  show ?thesis
  proof (cases chk)
    case (Argv_Bad m)
    with assms c a show ?thesis by (simp add: run_argv_def Let_def no)
  next
    case (Argv_Size sz)
    with assms c a show ?thesis
      by (simp add: run_argv_def Let_def no split: if_split_asm sum.splits exn.splits) (auto simp: and_then_Inr no split: if_split_asm)
  qed
qed

text \<open>A structured command inherits from the server's environment only the seven base variables and allow-listed ones;
  every allow-listed name is an identifier that neither contains a secret word nor has a reserved prefix, and a value is passed
  on unchanged.\<close>

theorem argv_env_safe:
  assumes "run_argv st env here environ argv cwd t stdin_text allowlist c = Inr (r, Some child_env)"
  shows "(case map_of child_env k of
       None \<Rightarrow> True
     | Some v \<Rightarrow> k \<in> set base_env_names \<or> (k, v) \<in> set plain_terminal
         \<or> (k \<in> set allowlist \<and> environ k = Some v \<and> safe_env_name k \<and> \<not> secret_env_name k
            \<and> \<not> starts ''RHMCP_'' (upper_name k) \<and> \<not> starts ''DSW_MCP_'' (upper_name k) \<and> \<not> starts ''CF_'' (upper_name k)))"
proof -
  note a = inherit_allowed_spec [OF run_argv_env [OF assms], of k]
  show ?thesis
  proof (cases "map_of child_env k")
    case (Some v)
    show ?thesis
    proof (cases "k \<in> set allowlist \<and> environ k \<noteq> None")
      case True
      with a Some have "eligible_env_name k" "environ k = Some v" by auto
      with True Some show ?thesis by (simp add: eligible_env_name_def)
    next
      case False
      have "map_of (base_env environ) k = Some v" using a Some unfolding if_not_P [OF False] by simp
      with base_env_keys [OF this] Some show ?thesis by auto
    qed
  qed simp
qed

subsection \<open>Witnesses\<close>

definition sample_child :: child where
  "sample_child =
     \<lparr>spawns = True, stdin_ok = True, exits_in_time = True, group_gone = False, exits_in_grace = True,
      child_reads = [(False, ''ok''), (True, ''warn''), (False, ''!'')], return_code = Some 0, elapsed_ms = 12\<rparr>"

theorem exec_output_within_budget_witness:
  "output_bytes_returned (run_child keep_exec ''Command'' [] (sample_settings\<lparr>max_output_bytes := 5\<rparr>) ''/srv'' sample_child) = 5
   \<and> truncated (run_child keep_exec ''Command'' [] (sample_settings\<lparr>max_output_bytes := 5\<rparr>) ''/srv'' sample_child)"
  using exec_output_within_budget [of "sample_settings\<lparr>max_output_bytes := 5\<rparr>" sample_child keep_exec "''Command''" "[]" "''/srv''"]
  by (simp add: Let_def sample_child_def)

lemma sample_run_shell:
  "run_shell sample_settings plain_env (1, [''srv'', ''x'']) (ustr_of ''ls'') None (Some ''/srv/x'') sample_child
     = Inr (run_child keep_exec ''Command'' ''Shell process could not be started'' sample_settings ''/srv/x'' sample_child)"
  by (simp add: run_shell_def encode_utf8_def ustr_of_def scalar_def resolve_allowed_path_def plain_env_def parse_path_def
      anchor_def normpath_def is_under_allowed_root_def under_root_def sample_settings_def default_settings_def path_str_def
      strip_def is_space_def utf8_def utf8_char_def utf8_units_def effective_timeout_def Let_def)

theorem run_shell_answers_witness:
  "let r = run_child keep_exec ''Command'' ''Shell process could not be started'' sample_settings ''/srv/x'' sample_child in
   success r \<longleftrightarrow> error r = None"
  using run_shell_answers [OF sample_run_shell] by (simp only: Let_def)

lemma sample_settings_ok: "settings_ok sample_settings"
  by (simp add: settings_ok_def sample_settings_def default_settings_def key_ok_def key_char_def is_alpha_def host_ok_def
      host_label_def alnum_def oauth_algorithms_supported_def Let_def)

theorem exec_output_redacted_witness:
  "\<not> occurs (ustr_of (path_key sample_settings)) (stdout (run_child keep_exec ''Command'' [] sample_settings ''/srv''
      (sample_child\<lparr>child_reads := [(False, ''key=0123456789abcdef0123456789abcdef'')]\<rparr>)))"
  using exec_output_redacted [OF sample_settings_ok, of keep_exec "''Command''" "[]" "''/srv''"]
  by (simp add: Let_def) (simp add: sample_settings_def default_settings_def)

lemma sample_run_argv:
  "run_argv sample_settings plain_env (1, [''srv'']) [''LC_TIME'' \<mapsto> ''C'', ''TZ'' \<mapsto> ''UTC''] [ustr_of ''date''] (Some ''/srv/x'') None None
     [''LC_TIME''] sample_child
   = Inr (run_child keep_argv ''Process'' ''Process could not be started'' sample_settings ''/srv/x'' sample_child,
      Some (dict_set ''LC_TIME'' ''C'' (base_env [''LC_TIME'' \<mapsto> ''C'', ''TZ'' \<mapsto> ''UTC''])))"
  by (simp add: run_argv_def encode_utf8_def ustr_of_def scalar_def resolve_allowed_path_def plain_env_def parse_path_def
      anchor_def normpath_def is_under_allowed_root_def under_root_def sample_settings_def default_settings_def path_str_def
      utf8_def utf8_char_def utf8_units_def effective_timeout_def Let_def eligible_env_name_def safe_env_name_def env_name_char_def
      secret_env_name_def secret_words_def upper_name_def upper_char_def starts_def inherit_def)

theorem argv_env_safe_witness:
  "case map_of (dict_set ''LC_TIME'' ''C'' (base_env [''LC_TIME'' \<mapsto> ''C'', ''TZ'' \<mapsto> ''UTC''])) ''LC_TIME'' of
     None \<Rightarrow> False | Some v \<Rightarrow> v = ''C''"
  using argv_env_safe [OF sample_run_argv, of "''LC_TIME''"]
  by (simp add: base_env_names_def plain_terminal_def)

end
