(* ===== verification/Leases.thy ===== *)
theory Leases
  imports Json Env_Config
begin

text \<open>
  Named leases, \<open>lease_*\<close> of \<open>src/remote_host_mcp/agent_ops.py\<close>.  The registry file is represented by the
  JSON value it parses to; its size, which the code checks before it parses, is an argument.  Every
  operation runs under \<open>flock\<close> and is therefore one atomic step.  \<open>now\<close> is the clock the loader reads,
  \<open>now2\<close> the later reading of \<open>lease_acquire\<close>; \<open>token\<close> is the fresh random identifier.
\<close>

subsection \<open>The registry\<close>

datatype json_file = Missing_File | Unreadable_File | Not_UTF8 | Parsed json

definition int_of_json :: "(nat \<Rightarrow> nat option) \<Rightarrow> json \<Rightarrow> int res" where
  "int_of_json ud v =
     (case v of
        JInt i \<Rightarrow> Inr i
      | JBool b \<Rightarrow> Inr (if b then 1 else 0)
      | JFloat x \<Rightarrow> Inr (if 0 \<le> x then \<lfloor>x\<rfloor> else \<lceil>x\<rceil>)
      | JStr s \<Rightarrow> (case py_int ud s of Some i \<Rightarrow> Inr i | None \<Rightarrow> Inl (ValueError ''invalid literal for int()''))
      | _ \<Rightarrow> Inl (TypeError ''int() argument''))"

definition registry_limit :: nat where
  "registry_limit = 1048576"

fun live_items :: "(nat \<Rightarrow> nat option) \<Rightarrow> int \<Rightarrow> json list \<Rightarrow> jdict list res" where
  "live_items ud now [] = Inr []"
| "live_items ud now (JObj d # items) =
     and_then (int_of_json ud (case jget ''expires_at'' d of Some v \<Rightarrow> v | None \<Rightarrow> JInt 0)) (\<lambda>e.
       and_then (live_items ud now items) (\<lambda>ds. Inr (if now < e then d # ds else ds)))"
| "live_items ud now (_ # items) = live_items ud now items"

definition load_leases :: "(nat \<Rightarrow> nat option) \<Rightarrow> (json \<Rightarrow> nat) \<Rightarrow> int \<Rightarrow> json_file \<Rightarrow> jdict list res" where
  "load_leases ud size_of now reg =
     (case reg of
        Missing_File \<Rightarrow> Inr []
      | Unreadable_File \<Rightarrow> Inl (ValueError ''Lease registry is unreadable'')
      | Not_UTF8 \<Rightarrow> Inl (ValueError ''invalid utf-8'')
      | Parsed j \<Rightarrow>
          if registry_limit < size_of j then Inl (ValueError ''Lease registry is too large'')
          else (case j of
              JList items \<Rightarrow> live_items ud now items
            | _ \<Rightarrow> Inl (ValueError ''Lease registry is invalid'')))"

definition save_leases :: "jdict list \<Rightarrow> json_file" where
  "save_leases leases = Parsed (JList (map JObj leases))"

definition validate_resource :: "ustr \<Rightarrow> ustr res" where
  "validate_resource resource =
     (let normalized = strip resource in
      if normalized = [] \<or> 0 \<in> set normalized then Inl (ValueError ''resource must be 1..256 UTF-8 bytes without NUL'')
      else and_then (encode_utf8 normalized) (\<lambda>b.
        if 256 < length b then Inl (ValueError ''resource must be 1..256 UTF-8 bytes without NUL'')
        else Inr normalized))"

subsection \<open>Operations\<close>

record lease_view =
  lv_granted :: bool
  lv_resource :: ustr
  lv_id :: "ustr option"
  lv_holder :: "ustr option"
  lv_expires :: "int option"

text \<open>The result models only accept a string or \<open>null\<close> holder.\<close>

definition holder_of :: "jdict \<Rightarrow> ustr option res" where
  "holder_of d =
     (case jget ''holder'' d of
        None \<Rightarrow> Inr None
      | Some JNull \<Rightarrow> Inr None
      | Some (JStr s) \<Rightarrow> Inr (Some s)
      | Some _ \<Rightarrow> Inl (ValueError ''holder: Input should be a valid string''))"

definition expires_of :: "(nat \<Rightarrow> nat option) \<Rightarrow> jdict \<Rightarrow> int res" where
  "expires_of ud d =
     (case jget ''expires_at'' d of None \<Rightarrow> Inl (KeyError ''expires_at'') | Some v \<Rightarrow> int_of_json ud v)"

definition view_of :: "(nat \<Rightarrow> nat option) \<Rightarrow> bool \<Rightarrow> ustr \<Rightarrow> jdict \<Rightarrow> lease_view res" where
  "view_of ud granted resource d =
     and_then (expires_of ud d) (\<lambda>e. and_then (holder_of d) (\<lambda>h.
       Inr \<lparr>lv_granted = granted, lv_resource = resource, lv_id = None, lv_holder = h, lv_expires = Some e\<rparr>))"

definition holds_resource :: "ustr \<Rightarrow> jdict \<Rightarrow> bool" where
  "holds_resource resource d = (jget ''resource'' d = Some (JStr resource))"

definition opt_str :: "ustr option \<Rightarrow> json" where
  "opt_str h = (case h of Some s \<Rightarrow> JStr s | None \<Rightarrow> JNull)"

definition new_lease :: "ustr \<Rightarrow> ustr \<Rightarrow> ustr option \<Rightarrow> int \<Rightarrow> int \<Rightarrow> jdict" where
  "new_lease token resource holder expires created =
     [(ustr_of ''lease_id'', JStr token), (ustr_of ''resource'', JStr resource), (ustr_of ''holder'', opt_str holder),
      (ustr_of ''expires_at'', JInt expires), (ustr_of ''created_at'', JInt created)]"

definition lease_acquire ::
  "(nat \<Rightarrow> nat option) \<Rightarrow> (json \<Rightarrow> nat) \<Rightarrow> int \<Rightarrow> int \<Rightarrow> ustr \<Rightarrow> ustr \<Rightarrow> ustr option \<Rightarrow> int \<Rightarrow> json_file \<Rightarrow>
     json_file \<times> lease_view res"
where
  "lease_acquire ud size_of now now2 token raw holder ttl reg =
     (case and_then (validate_resource raw) (\<lambda>resource.
             and_then (case holder of None \<Rightarrow> Inr [] | Some h \<Rightarrow> encode_utf8 h) (\<lambda>hb.
               if 128 < length hb then Inl (ValueError ''holder must be <= 128 UTF-8 bytes'')
               else if ttl < 5 \<or> 86400 < ttl then Inl (ValueError ''ttl_seconds must be between 5 and 86400'')
               else and_then (load_leases ud size_of now reg) (\<lambda>leases. Inr (resource, leases)))) of
        Inl e \<Rightarrow> (reg, Inl e)
      | Inr (resource, leases) \<Rightarrow>
          (case find (holds_resource resource) leases of
             Some item \<Rightarrow> (save_leases leases, view_of ud False resource item)
           | None \<Rightarrow>
               (save_leases (leases @ [new_lease token resource holder (now2 + ttl) now2]),
                Inr \<lparr>lv_granted = True, lv_resource = resource, lv_id = Some token, lv_holder = holder,
                     lv_expires = Some (now2 + ttl)\<rparr>)))"

definition lease_status ::
  "(nat \<Rightarrow> nat option) \<Rightarrow> (json \<Rightarrow> nat) \<Rightarrow> int \<Rightarrow> ustr \<Rightarrow> json_file \<Rightarrow> json_file \<times> lease_view res"
where
  "lease_status ud size_of now raw reg =
     (case and_then (validate_resource raw) (\<lambda>resource.
             and_then (load_leases ud size_of now reg) (\<lambda>leases. Inr (resource, leases))) of
        Inl e \<Rightarrow> (reg, Inl e)
      | Inr (resource, leases) \<Rightarrow>
          (save_leases leases,
           case find (holds_resource resource) leases of
             Some item \<Rightarrow> view_of ud True resource item
           | None \<Rightarrow> Inr \<lparr>lv_granted = False, lv_resource = resource, lv_id = None, lv_holder = None, lv_expires = None\<rparr>))"

text \<open>\<open>str(v)\<close> of a JSON value is an argument except for strings.\<close>

definition str_of :: "(json \<Rightarrow> ustr) \<Rightarrow> json \<Rightarrow> ustr" where
  "str_of render v = (case v of JStr s \<Rightarrow> s | _ \<Rightarrow> render v)"

definition resource_key :: "(json \<Rightarrow> ustr) \<Rightarrow> jdict \<Rightarrow> ustr" where
  "resource_key render d = (case jget ''resource'' d of Some v \<Rightarrow> str_of render v | None \<Rightarrow> [])"

fun views :: "(nat \<Rightarrow> nat option) \<Rightarrow> (json \<Rightarrow> ustr) \<Rightarrow> jdict list \<Rightarrow> lease_view list res" where
  "views ud render [] = Inr []"
| "views ud render (d # ds) =
     (case jget ''resource'' d of
        None \<Rightarrow> Inl (KeyError ''resource'')
      | Some v \<Rightarrow> and_then (view_of ud True (str_of render v) d) (\<lambda>x. and_then (views ud render ds) (\<lambda>xs. Inr (x # xs))))"

definition lease_list ::
  "(nat \<Rightarrow> nat option) \<Rightarrow> (json \<Rightarrow> nat) \<Rightarrow> (json \<Rightarrow> ustr) \<Rightarrow> int \<Rightarrow> json_file \<Rightarrow> json_file \<times> lease_view list res"
where
  "lease_list ud size_of render now reg =
     (case load_leases ud size_of now reg of
        Inl e \<Rightarrow> (reg, Inl e)
      | Inr leases \<Rightarrow> (save_leases leases, views ud render (sort_key (resource_key render) leases)))"

definition lease_id_ok :: "ustr \<Rightarrow> bool" where
  "lease_id_ok s = (length s = 32 \<and> list_all (\<lambda>c. c \<in> {48..57} \<or> c \<in> {97..102}) s)"

definition lease_release ::
  "(nat \<Rightarrow> nat option) \<Rightarrow> (json \<Rightarrow> nat) \<Rightarrow> int \<Rightarrow> ustr \<Rightarrow> json_file \<Rightarrow> json_file \<times> bool res"
where
  "lease_release ud size_of now lease_id reg =
     (if \<not> lease_id_ok lease_id then (reg, Inl (ValueError ''Invalid lease_id''))
      else (case load_leases ud size_of now reg of
          Inl e \<Rightarrow> (reg, Inl e)
        | Inr leases \<Rightarrow>
            (let remaining = filter (\<lambda>d. jget ''lease_id'' d \<noteq> Some (JStr lease_id)) leases in
             (save_leases remaining, Inr (length remaining \<noteq> length leases)))))"

subsection \<open>Histories\<close>

datatype lease_op =
    Acquire int int ustr ustr "ustr option" int
  | Status int ustr
  | Listing int
  | Release int ustr

datatype lease_answer = View "lease_view res" | Views "lease_view list res" | Flag "bool res"

fun op_clock :: "lease_op \<Rightarrow> int" where
  "op_clock (Acquire now now2 token raw holder ttl) = now"
| "op_clock (Status now raw) = now"
| "op_clock (Listing now) = now"
| "op_clock (Release now i) = now"

fun lease_step ::
  "(nat \<Rightarrow> nat option) \<Rightarrow> (json \<Rightarrow> nat) \<Rightarrow> (json \<Rightarrow> ustr) \<Rightarrow> lease_op \<Rightarrow> json_file \<Rightarrow> json_file \<times> lease_answer"
where
  "lease_step ud size_of render (Acquire now now2 token raw holder ttl) reg =
     apsnd View (lease_acquire ud size_of now now2 token raw holder ttl reg)"
| "lease_step ud size_of render (Status now raw) reg = apsnd View (lease_status ud size_of now raw reg)"
| "lease_step ud size_of render (Listing now) reg = apsnd Views (lease_list ud size_of render now reg)"
| "lease_step ud size_of render (Release now i) reg = apsnd Flag (lease_release ud size_of now i reg)"

fun lease_run ::
  "(nat \<Rightarrow> nat option) \<Rightarrow> (json \<Rightarrow> nat) \<Rightarrow> (json \<Rightarrow> ustr) \<Rightarrow> lease_op list \<Rightarrow> json_file \<Rightarrow> json_file"
where
  "lease_run ud size_of render [] reg = reg"
| "lease_run ud size_of render (op # ops) reg = lease_run ud size_of render ops (fst (lease_step ud size_of render op reg))"

text \<open>A lease is the only holder of its resource in the file.\<close>

definition sole_lease :: "ustr \<Rightarrow> jdict \<Rightarrow> json_file \<Rightarrow> bool" where
  "sole_lease resource l reg \<longleftrightarrow>
     (\<exists>ds. reg = save_leases ds \<and> l \<in> set ds \<and> (\<forall>d \<in> set ds. holds_resource resource d \<longrightarrow> d = l))"

lemma live_items_objs:
  "live_items ud now (map JObj ds) = Inr leases \<Longrightarrow>
   set leases \<subseteq> set ds \<and> (\<forall>d \<in> set ds. jget ''expires_at'' d = Some (JInt e) \<longrightarrow> now < e \<longrightarrow> d \<in> set leases)"
  by (induction ds arbitrary: leases) (auto simp: and_then_Inr int_of_json_def split: if_split_asm)

lemma load_saved:
  "load_leases ud size_of now (save_leases ds) = Inr leases \<Longrightarrow> live_items ud now (map JObj ds) = Inr leases"
  by (simp add: load_leases_def save_leases_def split: if_split_asm)

lemma sole_lease_loaded:
  assumes "sole_lease resource l reg" "load_leases ud size_of now reg = Inr leases"
    and "jget ''expires_at'' l = Some (JInt e)" "now < e"
  shows "l \<in> set leases \<and> (\<forall>d \<in> set leases. holds_resource resource d \<longrightarrow> d = l)"
proof -
  obtain ds where ds: "reg = save_leases ds" "l \<in> set ds" "\<forall>d \<in> set ds. holds_resource resource d \<longrightarrow> d = l"
    using assms(1) by (auto simp: sole_lease_def)
  note live_items_objs [OF load_saved [OF assms(2) [unfolded ds(1)]], of e]
  with ds assms(3,4) show ?thesis by blast
qed

lemma sole_lease_saved: "l \<in> set ds \<Longrightarrow> (\<forall>d \<in> set ds. holds_resource resource d \<longrightarrow> d = l) \<Longrightarrow> sole_lease resource l (save_leases ds)"
  by (auto simp: sole_lease_def)

lemma find_sole:
  assumes "l \<in> set ds" "\<forall>d \<in> set ds. P d \<longrightarrow> d = l" "P l"
  shows "find P ds = Some l"
proof (cases "find P ds")
  case None
  with assms show ?thesis by (simp add: find_None_iff)
next
  case (Some d)
  with assms(2) find_SomeD [OF Some] show ?thesis by simp
qed

lemma lease_acquire_cases:
  obtains (error) e where "lease_acquire ud size_of now now2 token raw holder ttl reg = (reg, Inl e)"
  | (held) res leases item where "validate_resource raw = Inr res" "load_leases ud size_of now reg = Inr leases"
      "find (holds_resource res) leases = Some item"
      "lease_acquire ud size_of now now2 token raw holder ttl reg = (save_leases leases, view_of ud False res item)"
  | (free) res leases where "validate_resource raw = Inr res" "load_leases ud size_of now reg = Inr leases"
      "find (holds_resource res) leases = None" "5 \<le> ttl"
      "lease_acquire ud size_of now now2 token raw holder ttl reg =
        (save_leases (leases @ [new_lease token res holder (now2 + ttl) now2]),
         Inr \<lparr>lv_granted = True, lv_resource = res, lv_id = Some token, lv_holder = holder, lv_expires = Some (now2 + ttl)\<rparr>)"
proof -
  define chk where "chk = and_then (validate_resource raw) (\<lambda>resource.
             and_then (case holder of None \<Rightarrow> Inr [] | Some h \<Rightarrow> encode_utf8 h) (\<lambda>hb.
               if 128 < length hb then Inl (ValueError ''holder must be <= 128 UTF-8 bytes'')
               else if ttl < 5 \<or> 86400 < ttl then Inl (ValueError ''ttl_seconds must be between 5 and 86400'')
               else and_then (load_leases ud size_of now reg) (\<lambda>leases. Inr (resource, leases))))"
  note d = lease_acquire_def [of ud size_of now now2 token raw holder ttl reg, folded chk_def]
  show thesis
  proof (cases chk)
    case (Inl e)
    then show thesis by (intro error) (simp add: d)
  next
    case (Inr x)
    obtain res leases where x: "x = (res, leases)" by fastforce
    from Inr x have c: "validate_resource raw = Inr res" "load_leases ud size_of now reg = Inr leases" "5 \<le> ttl"
      by (auto simp: chk_def and_then_Inr split: if_split_asm)
    show thesis
    proof (cases "find (holds_resource res) leases")
      case None
      with c show thesis by (intro free) (simp_all add: d Inr x)
    next
      case (Some item)
      with c show thesis by (intro held) (simp_all add: d Inr x)
    qed
  qed
qed

lemma sole_lease_step:
  assumes "sole_lease resource l reg" "holds_resource resource l" "jget ''expires_at'' l = Some (JInt e)"
    and "jget ''lease_id'' l = Some (JStr i)" "op_clock op < e" "\<forall>now. op \<noteq> Release now i"
  shows "sole_lease resource l (fst (lease_step ud size_of render op reg))"
proof -
  note loaded = sole_lease_loaded [OF assms(1) _ assms(3)]
  show ?thesis
  proof (cases op)
    case (Acquire now now2 token raw holder ttl)
    with assms(5) have lt: "now < e" by simp
    show ?thesis
    proof (cases rule: lease_acquire_cases [of ud size_of now now2 token raw holder ttl reg])
      case error
      with assms(1) Acquire show ?thesis by simp
    next
      case (held res leases item)
      with loaded [OF held(2) lt] Acquire show ?thesis by (auto intro!: sole_lease_saved)
    next
      case (free res leases)
      note m = loaded [OF free(2) lt]
      then have "res \<noteq> resource" using free(3) assms(2) by (auto simp: find_None_iff)
      then have "\<not> holds_resource resource (new_lease token res holder (now2 + ttl) now2)"
        by (simp add: holds_resource_def new_lease_def jget_def)
      with m free(5) Acquire show ?thesis by (auto intro!: sole_lease_saved)
    qed
  next
    case (Status now raw)
    with assms(5) have "now < e" by simp
    with Status loaded assms(1) show ?thesis
      by (auto simp: lease_status_def and_then_Inr intro!: sole_lease_saved split: sum.split)
  next
    case (Listing now)
    with assms(5) have "now < e" by simp
    with Listing loaded assms(1) show ?thesis
      by (auto simp: lease_list_def intro!: sole_lease_saved split: sum.split)
  next
    case (Release now j)
    with assms(5) have lt: "now < e" by simp
    from Release assms(6) have "j \<noteq> i" by auto
    with Release loaded [OF _ lt] assms(1,4) show ?thesis
      by (auto simp: lease_release_def Let_def intro!: sole_lease_saved split: sum.split)
  qed
qed

lemma sole_lease_run:
  assumes "holds_resource resource l" "jget ''expires_at'' l = Some (JInt e)" "jget ''lease_id'' l = Some (JStr i)"
    and "\<forall>op \<in> set ops. op_clock op < e \<and> (\<forall>now. op \<noteq> Release now i)"
  shows "sole_lease resource l reg \<Longrightarrow> sole_lease resource l (lease_run ud size_of render ops reg)"
  using assms(4)
proof (induction ops arbitrary: reg)
  case (Cons op ops)
  then have "sole_lease resource l (fst (lease_step ud size_of render op reg))"
    using assms(1-3) by (intro sole_lease_step) auto
  with Cons show ?case by simp
qed simp

lemma acquire_granted:
  assumes "lease_acquire ud size_of now now2 token raw holder ttl reg = (reg', Inr v)" "lv_granted v"
  shows "reg' = save_leases (case load_leases ud size_of now reg of Inr leases \<Rightarrow> leases @ [new_lease token (lv_resource v) holder (now2 + ttl) now2] | Inl e \<Rightarrow> [])
    \<and> is_ok (load_leases ud size_of now reg) \<and> lv_resource v = strip raw \<and> 5 \<le> ttl
    \<and> sole_lease (lv_resource v) (new_lease token (lv_resource v) holder (now2 + ttl) now2) reg'
    \<and> lv_id v = Some token \<and> lv_holder v = holder \<and> lv_expires v = Some (now2 + ttl)"
proof -
  have norm: "res = strip raw" if "validate_resource raw = Inr res" for res
    using that by (auto simp: validate_resource_def and_then_Inr Let_def split: if_split_asm)
  obtain leases where ld: "load_leases ud size_of now reg = Inr leases"
    and f: "find (holds_resource (lv_resource v)) leases = None"
    and r: "reg' = save_leases (leases @ [new_lease token (lv_resource v) holder (now2 + ttl) now2])"
    and v: "lv_id v = Some token" "lv_holder v = holder" "lv_expires v = Some (now2 + ttl)" "lv_resource v = strip raw" "5 \<le> ttl"
  proof (cases rule: lease_acquire_cases [of ud size_of now now2 token raw holder ttl reg])
    case error
    with assms show thesis by simp
  next
    case (held res leases item)
    with assms show thesis by (auto simp: view_of_def and_then_Inr)
  next
    case (free res leases)
    with assms norm [OF free(1)] show thesis by (intro that [of leases]) auto
  qed
  moreover have "sole_lease (lv_resource v) (new_lease token (lv_resource v) holder (now2 + ttl) now2) reg'"
    unfolding r using f by (intro sole_lease_saved) (auto simp: find_None_iff)
  ultimately show ?thesis by simp
qed

text \<open>C18. Mutual exclusion: from the moment a lease is granted until it expires or is released with its own identifier, no
  history of other lease operations by any number of clients lets anybody acquire the resource again; an acquire that
  is answered is refused with the holder and expiry of the lease, and a status that is answered reports them.\<close>

theorem lease_exclusive:
  assumes "lease_acquire ud size_of now now2 token raw holder ttl reg = (reg1, Inr v)" "lv_granted v"
    and "\<forall>op \<in> set ops. op_clock op < now2 + ttl \<and> (\<forall>n. op \<noteq> Release n token)"
    and "n < now2 + ttl" "strip raw' = strip raw"
  shows "let reg2 = lease_run ud size_of render ops reg1 in
    (case snd (lease_acquire ud size_of n n2 token' raw' holder' ttl' reg2) of
       Inl e \<Rightarrow> True
     | Inr w \<Rightarrow> \<not> lv_granted w \<and> lv_holder w = holder \<and> lv_expires w = Some (now2 + ttl))
    \<and> (case snd (lease_status ud size_of n raw' reg2) of
       Inl e \<Rightarrow> True
     | Inr w \<Rightarrow> lv_granted w \<and> lv_holder w = holder \<and> lv_expires w = Some (now2 + ttl))"
proof -
  let ?l = "new_lease token (strip raw) holder (now2 + ttl) now2"
  have "lv_resource v = strip raw" "sole_lease (lv_resource v) (new_lease token (lv_resource v) holder (now2 + ttl) now2) reg1"
    using acquire_granted [OF assms(1,2)] by blast+
  then have sole: "sole_lease (strip raw) ?l reg1" by simp
  have l: "holds_resource (strip raw) ?l" "jget ''expires_at'' ?l = Some (JInt (now2 + ttl))" "jget ''lease_id'' ?l = Some (JStr token)"
    "jget ''holder'' ?l = Some (opt_str holder)"
    by (simp_all add: holds_resource_def new_lease_def jget_def)
  define reg2 where "reg2 = lease_run ud size_of render ops reg1"
  have sole2: "sole_lease (strip raw) ?l reg2"
    unfolding reg2_def by (rule sole_lease_run [OF l(1-3) assms(3) sole])
  have hold: "holder_of ?l = Inr holder" by (auto simp: holder_of_def l(4) opt_str_def split: option.split)
  have view: "view_of ud g res ?l = Inr \<lparr>lv_granted = g, lv_resource = res, lv_id = None, lv_holder = holder, lv_expires = Some (now2 + ttl)\<rparr>" for g res
    by (simp add: view_of_def expires_of_def l(2) int_of_json_def hold)
  have norm: "res = strip raw" if "validate_resource raw' = Inr res" for res
    using that assms(5) by (auto simp: validate_resource_def and_then_Inr Let_def split: if_split_asm)
  have find: "find (holds_resource (strip raw)) leases = Some ?l" if "load_leases ud size_of n reg2 = Inr leases" for leases
    using sole_lease_loaded [OF sole2 that l(2) assms(4)] l(1) by (intro find_sole) auto
  have "case snd (lease_acquire ud size_of n n2 token' raw' holder' ttl' reg2) of
       Inl e \<Rightarrow> True | Inr w \<Rightarrow> \<not> lv_granted w \<and> lv_holder w = holder \<and> lv_expires w = Some (now2 + ttl)"
  proof (cases rule: lease_acquire_cases [of ud size_of n n2 token' raw' holder' ttl' reg2])
    case (held res leases item)
    with find [OF held(2)] norm [OF held(1)] view show ?thesis by auto
  next
    case (free res leases)
    with find [OF free(2)] norm [OF free(1)] show ?thesis by simp
  qed simp
  moreover have "case snd (lease_status ud size_of n raw' reg2) of
       Inl e \<Rightarrow> True | Inr w \<Rightarrow> lv_granted w \<and> lv_holder w = holder \<and> lv_expires w = Some (now2 + ttl)"
  proof (cases "and_then (validate_resource raw') (\<lambda>resource. and_then (load_leases ud size_of n reg2) (\<lambda>leases. Inr (resource, leases)))")
    case (Inr x)
    then obtain res leases where x: "x = (res, leases)" "validate_resource raw' = Inr res" "load_leases ud size_of n reg2 = Inr leases"
      by (auto simp: and_then_Inr)
    with Inr find [OF x(3)] norm [OF x(2)] view show ?thesis by (simp add: lease_status_def)
  qed (simp add: lease_status_def)
  ultimately show ?thesis by (simp add: reg2_def Let_def)
qed

lemma live_items_ok:
  "live_items ud now items = Inr ds \<Longrightarrow> d \<in> set ds \<Longrightarrow>
   is_ok (int_of_json ud (case jget ''expires_at'' d of Some v \<Rightarrow> v | None \<Rightarrow> JInt 0))"
  by (induction ud now items arbitrary: ds rule: live_items.induct) (auto simp: and_then_Inr split: if_split_asm)

lemma live_items_total:
  "(\<forall>d \<in> set ds. is_ok (int_of_json ud (case jget ''expires_at'' d of Some v \<Rightarrow> v | None \<Rightarrow> JInt 0))) \<Longrightarrow>
   \<exists>ls. live_items ud now (map JObj ds) = Inr ls \<and> set ls \<subseteq> set ds"
  by (induction ds) (auto elim!: is_okE)

text \<open>Releasing gives the resource back: a lease that was granted and is still live can be released with its identifier,
  and then the resource can be acquired by anyone at once, as long as the registry stays below its size limit.\<close>

theorem lease_release_frees:
  assumes "lease_acquire ud size_of now now2 token raw holder ttl reg = (reg1, Inr v)" "lv_granted v"
    and "\<And>j. size_of j \<le> registry_limit" "lease_id_ok token" "n < now2 + ttl" "5 \<le> ttl'" "ttl' \<le> 86400"
  shows "case lease_release ud size_of n token reg1 of
    (reg2, a) \<Rightarrow> a = Inr True \<and>
      (\<exists>w. snd (lease_acquire ud size_of n' n2 token' raw None ttl' reg2) = Inr w \<and> lv_granted w \<and> lv_id w = Some token')"
proof -
  let ?l = "new_lease token (strip raw) holder (now2 + ttl) now2"
  have l: "holds_resource (strip raw) ?l" "jget ''expires_at'' ?l = Some (JInt (now2 + ttl))" "jget ''lease_id'' ?l = Some (JStr token)"
    by (simp_all add: holds_resource_def new_lease_def jget_def)
  let ?okd = "\<lambda>d. is_ok (int_of_json ud (case jget ''expires_at'' d of Some v \<Rightarrow> v | None \<Rightarrow> JInt 0))"
  have g: "lv_resource v = strip raw" "sole_lease (lv_resource v) (new_lease token (lv_resource v) holder (now2 + ttl) now2) reg1"
    "is_ok (load_leases ud size_of now reg)"
    "reg1 = save_leases (case load_leases ud size_of now reg of Inr leases \<Rightarrow> leases @ [new_lease token (lv_resource v) holder (now2 + ttl) now2] | Inl e \<Rightarrow> [])"
    using acquire_granted [OF assms(1,2)] by blast+
  then have sole: "sole_lease (strip raw) ?l reg1" by simp
  obtain leases where ld: "load_leases ud size_of now reg = Inr leases" using g(3) by (rule is_okE)
  with g(1,4) have r1: "reg1 = save_leases (leases @ [?l])" by simp
  obtain items where items: "live_items ud now items = Inr leases"
    using ld by (auto simp: load_leases_def split: json_file.splits json.splits if_split_asm intro: that [of "[]"])
  have ok: "\<forall>d \<in> set (leases @ [?l]). ?okd d"
    using live_items_ok [OF items] l(2) by (auto simp: int_of_json_def)
  have load: "load_leases ud size_of t (save_leases ds) = live_items ud t (map JObj ds)" for t ds
    using assms(3) [of "JList (map JObj ds)"] by (simp add: load_leases_def save_leases_def)
  obtain ls where ls: "live_items ud n (map JObj (leases @ [?l])) = Inr ls" "set ls \<subseteq> set (leases @ [?l])"
    using live_items_total [OF ok] by blast
  have "load_leases ud size_of n reg1 = Inr ls" by (simp only: r1 load ls(1))
  note m = sole_lease_loaded [OF sole this l(2) assms(5)]
  define rest where "rest = filter (\<lambda>d. jget ''lease_id'' d \<noteq> Some (JStr token)) ls"
  have "length rest < length ls"
    unfolding rest_def by (rule length_filter_less [of ?l]) (use m l(3) in auto)
  then have len: "length rest \<noteq> length ls" by simp
  have rel: "lease_release ud size_of n token reg1 = (save_leases rest, Inr True)"
    using assms(4) len by (simp add: lease_release_def \<open>load_leases ud size_of n reg1 = Inr ls\<close> rest_def Let_def)
  have free: "\<forall>d \<in> set rest. \<not> holds_resource (strip raw) d"
    using m l(3) by (auto simp: rest_def)
  have "\<forall>d \<in> set rest. ?okd d" using ok ls(2) by (auto simp: rest_def)
  then obtain ls' where ls': "load_leases ud size_of n' (save_leases rest) = Inr ls'" "set ls' \<subseteq> set rest"
    unfolding load using live_items_total by blast
  have "find (holds_resource (strip raw)) ls' = None" using free ls'(2) by (auto simp: find_None_iff)
  moreover have "validate_resource raw = Inr (strip raw)"
    using assms(1) by (auto simp: lease_acquire_def validate_resource_def and_then_Inr and_then_def Let_def split: sum.splits if_split_asm)
  ultimately show ?thesis
    using ls'(1) assms(6,7) by (simp add: rel lease_acquire_def)
qed

text \<open>A registry that outgrows one mebibyte is stuck: the size is checked when it is loaded but not when it is saved, so
  a granted lease can make the file too large, after which every operation fails and leaves it as it is; expiry no longer
  helps, because expired leases are only dropped after a successful load.\<close>

theorem lease_registry_stuck:
  assumes "lease_acquire ud size_of now now2 token raw holder ttl reg = (Parsed j, Inr v)" "lv_granted v" "registry_limit < size_of j"
  shows "lease_run ud size_of render ops (Parsed j) = Parsed j
    \<and> (case snd (lease_step ud size_of render op (Parsed j)) of
         View (Inl e) \<Rightarrow> True | Views (Inl e) \<Rightarrow> True | Flag (Inl e) \<Rightarrow> True | _ \<Rightarrow> False)"
proof -
  have ld: "load_leases ud size_of t (Parsed j) = Inl (ValueError ''Lease registry is too large'')" for t
    using assms(3) by (simp add: load_leases_def)
  have no: "\<not> is_ok (and_then r (\<lambda>x. Inl e))" for r :: "'a res" and e
    by (cases r) simp_all
  have acq: "\<exists>e. lease_acquire ud size_of t t2 tok raw' h ttl' (Parsed j) = (Parsed j, Inl e)" for t t2 tok raw' h ttl'
    by (cases rule: lease_acquire_cases [of ud size_of t t2 tok raw' h ttl' "Parsed j"]) (auto simp: ld)
  have st: "\<exists>e. lease_status ud size_of t raw' (Parsed j) = (Parsed j, Inl e)" for t raw'
    by (cases "validate_resource raw'") (auto simp: lease_status_def ld)
  have step: "fst (lease_step ud size_of render op (Parsed j)) = Parsed j
    \<and> (case snd (lease_step ud size_of render op (Parsed j)) of
         View (Inl e) \<Rightarrow> True | Views (Inl e) \<Rightarrow> True | Flag (Inl e) \<Rightarrow> True | _ \<Rightarrow> False)" for op
  proof (cases op)
    case (Acquire t t2 tok raw' h ttl')
    with acq [of t t2 tok raw' h ttl'] show ?thesis by auto
  next
    case (Status t raw')
    with st [of t raw'] show ?thesis by auto
  qed (auto simp: lease_list_def lease_release_def ld)
  have "lease_run ud size_of render ops (Parsed j) = Parsed j"
    by (induction ops) (simp_all add: step)
  with step show ?thesis by blast
qed

subsection \<open>Witnesses\<close>

definition sample_token :: ustr where
  "sample_token = replicate 32 97"

lemma sample_resource: "validate_resource (ustr_of ''gpu0'') = Inr (ustr_of ''gpu0'')" "strip (ustr_of ''gpu0'') = ustr_of ''gpu0''"
  by (simp_all add: validate_resource_def strip_def is_space_def ustr_of_def encode_utf8_def scalar_def utf8_def utf8_char_def
      utf8_units_def Let_def)

lemma sample_acquire:
  "lease_acquire ascii_digit size_of 100 100 sample_token (ustr_of ''gpu0'') None 60 Missing_File
    = (save_leases [new_lease sample_token (ustr_of ''gpu0'') None 160 100],
       Inr \<lparr>lv_granted = True, lv_resource = ustr_of ''gpu0'', lv_id = Some sample_token, lv_holder = None, lv_expires = Some 160\<rparr>)"
  by (simp add: lease_acquire_def sample_resource load_leases_def)

theorem lease_exclusive_witness:
  "case snd (lease_acquire ascii_digit (\<lambda>j. 100) 130 130 [98] (ustr_of ''gpu0'') None 60
       (lease_run ascii_digit (\<lambda>j. 100) (\<lambda>j. []) [Listing 110, Acquire 120 120 [99] (ustr_of ''gpu1'') None 30]
         (save_leases [new_lease sample_token (ustr_of ''gpu0'') None 160 100]))) of
     Inl e \<Rightarrow> True | Inr w \<Rightarrow> \<not> lv_granted w \<and> lv_expires w = Some 160"
  using lease_exclusive [OF sample_acquire, of "[Listing 110, Acquire 120 120 [99] (ustr_of ''gpu1'') None 30]" 130 "ustr_of ''gpu0''"
      "\<lambda>j. 100" "\<lambda>j. []" 130 "[98]" None 60]
  by (auto simp: Let_def split: sum.splits)

theorem lease_release_frees_witness:
  "snd (lease_release ascii_digit (\<lambda>j. 100) 130 sample_token (save_leases [new_lease sample_token (ustr_of ''gpu0'') None 160 100])) = Inr True"
  using lease_release_frees [OF sample_acquire, of "\<lambda>j. 100" 130 5 131 131 "[98]"]
  by (auto simp: registry_limit_def lease_id_ok_def sample_token_def list_all_iff split: prod.splits)

theorem lease_registry_stuck_witness:
  "lease_run ascii_digit (\<lambda>j. 2000000) (\<lambda>j. []) [Release 500 sample_token, Listing 501]
     (save_leases [new_lease sample_token (ustr_of ''gpu0'') None 160 100])
   = save_leases [new_lease sample_token (ustr_of ''gpu0'') None 160 100]"
  using lease_registry_stuck [OF sample_acquire [unfolded save_leases_def], of "\<lambda>j. 2000000" "\<lambda>j. []"
      "[Release 500 sample_token, Listing 501]" "Listing 1"]
  by (simp add: registry_limit_def save_leases_def)

end
