(* ===== verification/Posix.thy ===== *)
theory Posix
  imports Env_Config
begin

text \<open>
  The part of the POSIX file system that \<open>src/remote_host_mcp/filesystem.py\<close> and its relatives use:
  inodes, directory entries and the system calls on directory descriptors, with the errors Linux gives.
  A descriptor of a directory or file is its inode number.  Other processes run between the calls of an
  operation: the world carries a schedule with one entry per call, either what they did to the disk
  meanwhile or a fault of the call itself.
\<close>

subsection \<open>Inodes\<close>

type_synonym ino = nat

datatype node = Reg bytes | Dir "(string \<times> ino) list" | Sym string | Sock | Fifo | Chr | Blk

record meta =
  m_node :: node
  m_dev :: nat
  m_perm :: int
  m_uid :: int
  m_gid :: int
  m_mtime :: int

record fs =
  inodes :: "ino \<Rightarrow> meta option"
  fresh_ino :: ino
  fs_now :: int

definition entries :: "fs \<Rightarrow> ino \<Rightarrow> (string \<times> ino) list option" where
  "entries f d = (case inodes f d of Some m \<Rightarrow> (case m_node m of Dir es \<Rightarrow> Some es | _ \<Rightarrow> None) | None \<Rightarrow> None)"

definition lookup_at :: "fs \<Rightarrow> ino \<Rightarrow> string \<Rightarrow> ino option" where
  "lookup_at f d name = (case entries f d of Some es \<Rightarrow> map_of es name | None \<Rightarrow> None)"

definition set_node :: "ino \<Rightarrow> node \<Rightarrow> fs \<Rightarrow> fs" where
  "set_node i n f =
     (case inodes f i of
        Some m \<Rightarrow> f\<lparr>inodes := (inodes f)(i \<mapsto> m\<lparr>m_node := n, m_mtime := fs_now f\<rparr>), fs_now := fs_now f + 1\<rparr>
      | None \<Rightarrow> f)"

definition set_entry :: "ino \<Rightarrow> string \<Rightarrow> ino \<Rightarrow> fs \<Rightarrow> fs" where
  "set_entry d name i f = (case entries f d of Some es \<Rightarrow> set_node d (Dir (dict_set name i es)) f | None \<Rightarrow> f)"

definition drop_entry :: "ino \<Rightarrow> string \<Rightarrow> fs \<Rightarrow> fs" where
  "drop_entry d name f = (case entries f d of Some es \<Rightarrow> set_node d (Dir (dict_pop name es)) f | None \<Rightarrow> f)"

text \<open>A new inode on the device of its directory.\<close>

definition new_inode :: "ino \<Rightarrow> string \<Rightarrow> node \<Rightarrow> int \<Rightarrow> fs \<Rightarrow> fs \<times> ino" where
  "new_inode d name n perm f =
     (let i = fresh_ino f;
          dv = (case inodes f d of Some m \<Rightarrow> m_dev m | None \<Rightarrow> 0);
          f1 = f\<lparr>inodes := (inodes f)(i \<mapsto> \<lparr>m_node = n, m_dev = dv, m_perm = perm, m_uid = 0, m_gid = 0, m_mtime = fs_now f\<rparr>),
                 fresh_ino := i + 1, fs_now := fs_now f + 1\<rparr>
      in (set_entry d name i f1, i))"

subsection \<open>System calls\<close>

type_synonym 'a call = "fs \<Rightarrow> fs \<times> 'a res"

definition sys_error :: "errno \<Rightarrow> fs \<Rightarrow> fs \<times> 'a res" where
  "sys_error e f = (f, Inl (OSError e))"

definition sys_fstat :: "ino \<Rightarrow> meta call" where
  "sys_fstat i f = (case inodes f i of Some m \<Rightarrow> (f, Inr m) | None \<Rightarrow> sys_error EIO f)"

definition sys_lstat :: "ino \<Rightarrow> string \<Rightarrow> (ino \<times> meta) call" where
  "sys_lstat d name f =
     (case lookup_at f d name of
        None \<Rightarrow> sys_error ENOENT f
      | Some i \<Rightarrow> (case inodes f i of Some m \<Rightarrow> (f, Inr (i, m)) | None \<Rightarrow> sys_error EIO f))"

text \<open>\<open>openat\<close> with \<open>O_RDONLY | O_NOFOLLOW\<close>, and \<open>O_DIRECTORY\<close> when the flag is set.\<close>

definition sys_open_nofollow :: "bool \<Rightarrow> ino \<Rightarrow> string \<Rightarrow> ino call" where
  "sys_open_nofollow dir d name f =
     (case lookup_at f d name of
        None \<Rightarrow> sys_error ENOENT f
      | Some i \<Rightarrow>
          (case inodes f i of
             None \<Rightarrow> sys_error EIO f
           | Some m \<Rightarrow>
               (case m_node m of
                  Sym t \<Rightarrow> sys_error (if dir then ENOTDIR else ELOOP) f
                | Dir es \<Rightarrow> (f, Inr i)
                | _ \<Rightarrow> if dir then sys_error ENOTDIR f else (f, Inr i))))"

definition sys_create_excl :: "ino \<Rightarrow> string \<Rightarrow> int \<Rightarrow> ino call" where
  "sys_create_excl d name perm f =
     (if entries f d = None then sys_error ENOTDIR f
      else if lookup_at f d name \<noteq> None then sys_error EEXIST f
      else (case new_inode d name (Reg []) perm f of (f', i) \<Rightarrow> (f', Inr i)))"

text \<open>Linux transfers at most \<open>0x7ffff000\<close> bytes in one \<open>write\<close>; the result is the number written.\<close>

definition write_cap :: nat where
  "write_cap = 2147479552"

definition sys_write :: "ino \<Rightarrow> bytes \<Rightarrow> nat call" where
  "sys_write i data f =
     (case inodes f i of
        Some m \<Rightarrow>
          (case m_node m of
             Reg c \<Rightarrow> (set_node i (Reg (c @ take write_cap data)) f, Inr (min write_cap (length data)))
           | _ \<Rightarrow> sys_error EINVAL f)
      | None \<Rightarrow> sys_error EIO f)"

definition sys_read_all :: "ino \<Rightarrow> bytes call" where
  "sys_read_all i f =
     (case inodes f i of
        Some m \<Rightarrow> (case m_node m of Reg c \<Rightarrow> (f, Inr c) | Dir es \<Rightarrow> sys_error EISDIR f | _ \<Rightarrow> (f, Inr []))
      | None \<Rightarrow> sys_error EIO f)"

definition sys_read_at :: "ino \<Rightarrow> nat \<Rightarrow> nat \<Rightarrow> bytes call" where
  "sys_read_at i off n f =
     (case sys_read_all i f of (f', Inr c) \<Rightarrow> (f', Inr (take n (drop off c))) | (f', Inl e) \<Rightarrow> (f', Inl e))"

definition sys_fchmod :: "ino \<Rightarrow> int \<Rightarrow> unit call" where
  "sys_fchmod i perm f =
     (case inodes f i of
        Some m \<Rightarrow> (f\<lparr>inodes := (inodes f)(i \<mapsto> m\<lparr>m_perm := perm\<rparr>)\<rparr>, Inr ())
      | None \<Rightarrow> sys_error EIO f)"

definition sys_fsync :: "ino \<Rightarrow> unit call" where
  "sys_fsync i f = (f, Inr ())"

definition is_dir :: "meta \<Rightarrow> bool" where
  "is_dir m = (case m_node m of Dir es \<Rightarrow> True | _ \<Rightarrow> False)"

definition is_reg :: "meta \<Rightarrow> bool" where
  "is_reg m = (case m_node m of Reg c \<Rightarrow> True | _ \<Rightarrow> False)"

definition is_lnk :: "meta \<Rightarrow> bool" where
  "is_lnk m = (case m_node m of Sym t \<Rightarrow> True | _ \<Rightarrow> False)"

definition st_size :: "meta \<Rightarrow> int" where
  "st_size m = (case m_node m of Reg c \<Rightarrow> int (length c) | Sym t \<Rightarrow> int (length t) | _ \<Rightarrow> 0)"

definition sys_unlink :: "ino \<Rightarrow> string \<Rightarrow> unit call" where
  "sys_unlink d name f =
     (case sys_lstat d name f of
        (_, Inl e) \<Rightarrow> (f, Inl e)
      | (_, Inr (i, m)) \<Rightarrow> if is_dir m then sys_error EISDIR f else (drop_entry d name f, Inr ()))"

definition sys_rmdir :: "ino \<Rightarrow> string \<Rightarrow> unit call" where
  "sys_rmdir d name f =
     (case sys_lstat d name f of
        (_, Inl e) \<Rightarrow> (f, Inl e)
      | (_, Inr (i, m)) \<Rightarrow>
          (case m_node m of
             Dir es \<Rightarrow> if es = [] then (drop_entry d name f, Inr ()) else sys_error ENOTEMPTY f
           | _ \<Rightarrow> sys_error ENOTDIR f))"

definition sys_mkdir :: "ino \<Rightarrow> string \<Rightarrow> int \<Rightarrow> unit call" where
  "sys_mkdir d name perm f =
     (if entries f d = None then sys_error ENOTDIR f
      else if lookup_at f d name \<noteq> None then sys_error EEXIST f
      else (fst (new_inode d name (Dir []) perm f), Inr ()))"

definition sys_symlink :: "string \<Rightarrow> ino \<Rightarrow> string \<Rightarrow> unit call" where
  "sys_symlink target d name f =
     (if entries f d = None then sys_error ENOTDIR f
      else if lookup_at f d name \<noteq> None then sys_error EEXIST f
      else (fst (new_inode d name (Sym target) 511 f), Inr ()))"

definition sys_readlink :: "ino \<Rightarrow> string \<Rightarrow> string call" where
  "sys_readlink d name f =
     (case sys_lstat d name f of
        (_, Inl e) \<Rightarrow> (f, Inl e)
      | (_, Inr (i, m)) \<Rightarrow> (case m_node m of Sym t \<Rightarrow> (f, Inr t) | _ \<Rightarrow> sys_error EINVAL f))"

definition sys_listdir :: "ino \<Rightarrow> string list call" where
  "sys_listdir d f = (case entries f d of Some es \<Rightarrow> (f, Inr (map fst es)) | None \<Rightarrow> sys_error ENOTDIR f)"

text \<open>A directory cannot be moved below itself; \<open>n\<close> bounds the depth searched.\<close>

fun contains_dir :: "fs \<Rightarrow> nat \<Rightarrow> ino \<Rightarrow> ino \<Rightarrow> bool" where
  "contains_dir f 0 i d = (i = d)"
| "contains_dir f (Suc n) i d =
     (i = d \<or> (case entries f i of Some es \<Rightarrow> list_ex (\<lambda>e. contains_dir f n (snd e) d) es | None \<Rightarrow> False))"

definition dev_of :: "fs \<Rightarrow> ino \<Rightarrow> nat" where
  "dev_of f i = (case inodes f i of Some m \<Rightarrow> m_dev m | None \<Rightarrow> 0)"

text \<open>\<open>renameat2\<close> with \<open>RENAME_NOREPLACE\<close>, with \<open>RENAME_EXCHANGE\<close>, and \<open>rename\<close> over a non-directory.\<close>

definition sys_rename_noreplace :: "ino \<Rightarrow> string \<Rightarrow> ino \<Rightarrow> string \<Rightarrow> unit call" where
  "sys_rename_noreplace sd sn dd dn f =
     (if dev_of f sd \<noteq> dev_of f dd then sys_error EXDEV f
      else case lookup_at f sd sn of
        None \<Rightarrow> sys_error ENOENT f
      | Some i \<Rightarrow>
          if entries f dd = None then sys_error ENOTDIR f
          else if lookup_at f dd dn \<noteq> None then sys_error EEXIST f
          else if contains_dir f (fresh_ino f) i dd then sys_error EINVAL f
          else (set_entry dd dn i (drop_entry sd sn f), Inr ()))"

definition sys_rename_exchange :: "ino \<Rightarrow> string \<Rightarrow> ino \<Rightarrow> string \<Rightarrow> unit call" where
  "sys_rename_exchange sd sn dd dn f =
     (if dev_of f sd \<noteq> dev_of f dd then sys_error EXDEV f
      else case (lookup_at f sd sn, lookup_at f dd dn) of
        (Some i, Some j) \<Rightarrow>
          if contains_dir f (fresh_ino f) i dd \<or> contains_dir f (fresh_ino f) j sd then sys_error EINVAL f
          else (set_entry dd dn i (set_entry sd sn j f), Inr ())
      | _ \<Rightarrow> sys_error ENOENT f)"

definition sys_replace :: "ino \<Rightarrow> string \<Rightarrow> ino \<Rightarrow> string \<Rightarrow> unit call" where
  "sys_replace sd sn dd dn f =
     (if dev_of f sd \<noteq> dev_of f dd then sys_error EXDEV f
      else case lookup_at f sd sn of
        None \<Rightarrow> sys_error ENOENT f
      | Some i \<Rightarrow>
          if entries f dd = None then sys_error ENOTDIR f
          else (case lookup_at f dd dn of
              Some j \<Rightarrow>
                (case inodes f j of
                   Some m \<Rightarrow> if is_dir m then sys_error EISDIR f else (set_entry dd dn i (drop_entry sd sn f), Inr ())
                 | None \<Rightarrow> sys_error EIO f)
            | None \<Rightarrow> (set_entry dd dn i (drop_entry sd sn f), Inr ())))"

subsection \<open>Operations as programs\<close>

datatype tick = Meanwhile "fs \<Rightarrow> fs" | Fault errno

record world =
  disk :: fs
  schedule :: "tick list"

text \<open>An operation with state \<open>'s\<close> that may raise; \<open>'a prog\<close> is one over the world of files.\<close>

type_synonym ('s, 'a) run = "'s \<Rightarrow> 's \<times> 'a res"

type_synonym 'a prog = "(world, 'a) run"

definition do_call :: "'a call \<Rightarrow> 'a prog" where
  "do_call c w =
     (case schedule w of
        [] \<Rightarrow> (case c (disk w) of (f, r) \<Rightarrow> (w\<lparr>disk := f\<rparr>, r))
      | Meanwhile g # ts \<Rightarrow> (case c (g (disk w)) of (f, r) \<Rightarrow> (\<lparr>disk = f, schedule = ts\<rparr>, r))
      | Fault e # ts \<Rightarrow> (w\<lparr>schedule := ts\<rparr>, Inl (OSError e)))"

definition ret :: "'a \<Rightarrow> ('s, 'a) run" where
  "ret x w = (w, Inr x)"

definition raise :: "exn \<Rightarrow> ('s, 'a) run" where
  "raise e w = (w, Inl e)"

definition bind_prog :: "('s, 'a) run \<Rightarrow> ('a \<Rightarrow> ('s, 'b) run) \<Rightarrow> ('s, 'b) run" where
  "bind_prog p k w = (case p w of (w', Inl e) \<Rightarrow> (w', Inl e) | (w', Inr x) \<Rightarrow> k x w')"

text \<open>\<open>try: p except E: h\<close>, and \<open>try: p finally: q\<close> (an exception of \<open>q\<close> replaces the outcome of \<open>p\<close>).\<close>

definition handle :: "('s, 'a) run \<Rightarrow> (exn \<Rightarrow> ('s, 'a) run) \<Rightarrow> ('s, 'a) run" where
  "handle p h w = (case p w of (w', Inl e) \<Rightarrow> h e w' | (w', Inr x) \<Rightarrow> (w', Inr x))"

definition finally_do :: "('s, 'a) run \<Rightarrow> ('s, unit) run \<Rightarrow> ('s, 'a) run" where
  "finally_do p q w =
     (case p w of (w', r) \<Rightarrow> (case q w' of (w'', Inl e) \<Rightarrow> (w'', Inl e) | (w'', Inr _) \<Rightarrow> (w'', r)))"

definition lift_res :: "'a res \<Rightarrow> ('s, 'a) run" where
  "lift_res r w = (w, r)"

definition check :: "bool \<Rightarrow> string \<Rightarrow> ('s, unit) run" where
  "check ok message = (if ok then ret () else raise (ValueError message))"

lemmas prog_defs = ret_def raise_def bind_prog_def handle_def finally_do_def lift_res_def check_def

text \<open>The outcome of \<open>p\<close> as a value, for handlers that leave local variables behind.\<close>

definition attempt :: "('s, 'a) run \<Rightarrow> ('s, 'a res) run" where
  "attempt p w = (case p w of (w', r) \<Rightarrow> (w', Inr r))"

text \<open>\<open>try: p except Exception as e: h e else: k\<close>\<close>

definition on_error :: "('s, 'a) run \<Rightarrow> (exn \<Rightarrow> ('s, 'b) run) \<Rightarrow> ('a \<Rightarrow> ('s, 'b) run) \<Rightarrow> ('s, 'b) run" where
  "on_error p h k = bind_prog (attempt p) (\<lambda>r. case r of Inl e \<Rightarrow> h e | Inr x \<Rightarrow> k x)"

fun for_each :: "('a \<Rightarrow> ('s, unit) run) \<Rightarrow> 'a list \<Rightarrow> ('s, unit) run" where
  "for_each p [] = ret ()"
| "for_each p (x # xs) = bind_prog (p x) (\<lambda>_. for_each p xs)"

lemma do_call_Inr: "do_call c w = (w', Inr x) \<Longrightarrow> \<exists>f. c f = (disk w', Inr x)"
  by (auto simp: do_call_def split: list.splits tick.splits prod.splits)

lemma bind_prog_Inr: "bind_prog p k w = (w', Inr y) \<longleftrightarrow> (\<exists>v x. p w = (v, Inr x) \<and> k x v = (w', Inr y))"
  by (auto simp: bind_prog_def split: prod.splits sum.splits)

lemma handle_Inr: "handle p h w = (w', Inr y) \<longleftrightarrow> p w = (w', Inr y) \<or> (\<exists>v e. p w = (v, Inl e) \<and> h e v = (w', Inr y))"
  by (auto simp: handle_def split: prod.splits sum.splits)

lemma lift_res_Inr: "lift_res r w = (w', Inr y) \<longleftrightarrow> w' = w \<and> r = Inr y"
  by (auto simp: lift_res_def)

lemma ret_Inr: "ret x w = (w', Inr y) \<longleftrightarrow> w' = w \<and> y = x"
  by (auto simp: ret_def)

lemma raise_Inr: "\<not> raise e w = (w', Inr y)"
  by (simp add: raise_def)

lemmas prog_Inr = bind_prog_Inr handle_Inr lift_res_Inr ret_Inr raise_Inr

lemma bind_progE:
  assumes "bind_prog p k w = (w', Inr y)"
  obtains v x where "p w = (v, Inr x)" "k x v = (w', Inr y)"
  using assms by (auto simp: bind_prog_Inr)

lemma bind_lift3E:
  assumes "bind_prog (lift_res r) (\<lambda>(a, b, c). k a b c) w = (w', Inr y)"
  obtains a b c where "r = Inr (a, b, c)" "k a b c w = (w', Inr y)"
  using assms by (auto simp: bind_prog_Inr lift_res_def)

lemma bind_prog2E:
  assumes "bind_prog p (\<lambda>(a, b). k a b) w = (w', Inr y)"
  obtains v a b where "p w = (v, Inr (a, b))" "k a b v = (w', Inr y)"
  using assms by (auto simp: bind_prog_Inr)

lemma lift_resE:
  assumes "lift_res r w = (w', Inr y)"
  obtains "w' = w" "r = Inr y"
  using assms by (simp add: lift_res_Inr)

subsection \<open>What the calls change\<close>

definition reg_content :: "fs \<Rightarrow> ino \<Rightarrow> bytes option" where
  "reg_content f i = (case inodes f i of Some m \<Rightarrow> (case m_node m of Reg c \<Rightarrow> Some c | _ \<Rightarrow> None) | None \<Rightarrow> None)"

lemma inodes_set_node:
  "inodes (set_node i n f) j =
     (if j = i then map_option (\<lambda>m. m\<lparr>m_node := n, m_mtime := fs_now f\<rparr>) (inodes f i) else inodes f j)"
  by (auto simp: set_node_def split: option.splits)

lemma entries_set_entry [simp]:
  "entries (set_entry d name i f) e = (if e = d then map_option (dict_set name i) (entries f d) else entries f e)"
  by (auto simp: set_entry_def entries_def inodes_set_node split: option.splits node.splits)

lemma entries_drop_entry [simp]:
  "entries (drop_entry d name f) e = (if e = d then map_option (dict_pop name) (entries f d) else entries f e)"
  by (auto simp: drop_entry_def entries_def inodes_set_node split: option.splits node.splits)

lemma lookup_set_entry:
  "entries f d \<noteq> None \<Longrightarrow> lookup_at (set_entry d name i f) e n = (if e = d \<and> n = name then Some i else lookup_at f e n)"
  by (auto simp: lookup_at_def split: option.splits)

lemma lookup_drop_entry:
  "lookup_at (drop_entry d name f) e n = (if e = d \<and> n = name then None else lookup_at f e n)"
  by (auto simp: lookup_at_def split: option.splits)

lemma lookup_entries: "lookup_at f d n = Some i \<Longrightarrow> entries f d \<noteq> None"
  by (auto simp: lookup_at_def split: option.splits)

lemma inodes_set_entry:
  "entries f j = None \<Longrightarrow> inodes (set_entry d name i f) j = inodes f j"
  by (auto simp: set_entry_def inodes_set_node split: option.splits)

lemma inodes_drop_entry:
  "entries f j = None \<Longrightarrow> inodes (drop_entry d name f) j = inodes f j"
  by (auto simp: drop_entry_def inodes_set_node split: option.splits)

lemma inodes_entry_exists:
  "inodes (set_entry d name i f) j = None \<longleftrightarrow> inodes f j = None"
  "inodes (drop_entry d name f) j = None \<longleftrightarrow> inodes f j = None"
  by (auto simp: set_entry_def drop_entry_def inodes_set_node split: option.splits)

lemma reg_no_entries: "reg_content f i = Some c \<Longrightarrow> entries f i = None"
  by (auto simp: reg_content_def entries_def split: option.splits node.splits)

lemma reg_content_entry [simp]:
  "reg_content (set_entry d name i f) j = reg_content f j"
  "reg_content (drop_entry d name f) j = reg_content f j"
  by (auto simp: set_entry_def drop_entry_def entries_def reg_content_def inodes_set_node split: option.splits node.splits)

lemma read_all_reg: "reg_content f i = Some c \<Longrightarrow> sys_read_all i f = (f, Inr c)"
  by (auto simp: reg_content_def sys_read_all_def split: option.splits node.splits)

lemma exchange_Inr:
  assumes "sys_rename_exchange sd sn dd dn f = (f', Inr x)"
  obtains i j where "lookup_at f sd sn = Some i" "lookup_at f dd dn = Some j" "f' = set_entry dd dn i (set_entry sd sn j f)"
  using assms by (auto simp: sys_rename_exchange_def sys_error_def split: if_splits option.splits)

lemma contains_dir_plain: "entries f i = None \<Longrightarrow> contains_dir f n i d \<longleftrightarrow> i = d"
  by (cases n) auto

lemma dev_of_entry [simp]:
  "dev_of (set_entry d name i f) j = dev_of f j" "dev_of (drop_entry d name f) j = dev_of f j"
  by (auto simp: dev_of_def set_entry_def drop_entry_def inodes_set_node split: option.splits)

end
