(* ===== verification/Secure_Paths.thy ===== *)
theory Secure_Paths
  imports Posix
begin

text \<open>
  \<open>src/remote_host_mcp/secure_paths.py\<close>: opening a path below an allowed root.  \<open>walk\<close> is the kernel's path
  resolution, with the restrictions of \<open>openat2\<close>; whether the kernel offers \<open>openat2\<close> and what
  \<open>/proc/self/fd\<close> shows for a descriptor are arguments.
\<close>

subsection \<open>Path resolution\<close>

definition max_links :: nat where
  "max_links = 40"

text \<open>The stack holds the directories from the current one up to the start; inode 0 is the root directory.\<close>

function walk :: "fs \<Rightarrow> bool \<Rightarrow> bool \<Rightarrow> nat \<Rightarrow> ino list \<Rightarrow> string list \<Rightarrow> ino res" where
  "walk f beneath no_links links [] cs = Inl (OSError EINVAL)"
| "walk f beneath no_links links (cur # up) [] = Inr cur"
| "walk f beneath no_links links (cur # up) (c # cs) =
     (if c = ''..'' then
        (if entries f cur = None then Inl (OSError ENOTDIR)
         else if up = [] then (if beneath then Inl (OSError EXDEV) else walk f beneath no_links links [cur] cs)
         else walk f beneath no_links links up cs)
      else case entries f cur of
        None \<Rightarrow> Inl (OSError ENOTDIR)
      | Some es \<Rightarrow>
          (case map_of es c of
             None \<Rightarrow> Inl (OSError ENOENT)
           | Some i \<Rightarrow>
               (case inodes f i of
                  None \<Rightarrow> Inl (OSError EIO)
                | Some m \<Rightarrow>
                    (case m_node m of
                       Sym t \<Rightarrow>
                         if no_links \<or> links = 0 then Inl (OSError ELOOP)
                         else if anchor t \<noteq> 0
                         then (if beneath then Inl (OSError EXDEV)
                               else walk f beneath no_links (links - 1) [0] (snd (parse_path t) @ cs))
                         else walk f beneath no_links (links - 1) (cur # up) (snd (parse_path t) @ cs)
                     | _ \<Rightarrow> walk f beneath no_links links (i # cur # up) cs))))"
  by pat_completeness auto
termination
  by (relation "measures [\<lambda>(f, b, n, links, st, cs). links, \<lambda>(f, b, n, links, st, cs). length cs]") auto

declare walk.simps [simp del]

definition opened :: "bool \<Rightarrow> ino res \<Rightarrow> ino call" where
  "opened dir r f =
     (case r of
        Inl e \<Rightarrow> (f, Inl e)
      | Inr i \<Rightarrow> if dir \<and> entries f i = None then sys_error ENOTDIR f else (f, Inr i))"

text \<open>\<open>os.open\<close> of an absolute path; with \<open>O_NOFOLLOW\<close> the last component is not followed.\<close>

definition sys_open_path :: "path \<Rightarrow> bool \<Rightarrow> bool \<Rightarrow> ino call" where
  "sys_open_path p dir nofollow f =
     (if nofollow \<and> p \<noteq> []
      then (case walk f False False max_links [0] (butlast p) of
              Inl e \<Rightarrow> (f, Inl e)
            | Inr d \<Rightarrow> sys_open_nofollow dir d (last p) f)
      else opened dir (walk f False False max_links [0] p) f)"

record kernel =
  openat2_refused :: "errno option"
  proc_fd :: "fs \<Rightarrow> ino \<Rightarrow> path option"

definition sys_openat2 :: "kernel \<Rightarrow> ino \<Rightarrow> path \<Rightarrow> bool \<Rightarrow> bool \<Rightarrow> ino call" where
  "sys_openat2 k dir_fd rel dir no_links f =
     (case openat2_refused k of
        Some e \<Rightarrow> sys_error e f
      | None \<Rightarrow> opened dir (walk f True no_links max_links [dir_fd] rel) f)"

subsection \<open>\<open>open_beneath\<close>\<close>

definition lexical_root :: "settings \<Rightarrow> path_env \<Rightarrow> string \<Rightarrow> (path \<times> path \<times> path) res" where
  "lexical_root st env raw =
     and_then (expanduser env raw) (\<lambda>x.
       let p = normpath (parse_path x) in
       if fst p = 0 then Inl (ValueError ''Path must be absolute'')
       else (case find (\<lambda>root. fst p = 1 \<and> under_root root (snd p)) (allowed_roots st) of
           Some root \<Rightarrow> Inr (root, drop (length root) (snd p), snd p)
         | None \<Rightarrow> Inl (ValueError ''Path is outside RHMCP_ALLOWED_ROOTS'')))"

definition verify_fd_beneath :: "settings \<Rightarrow> kernel \<Rightarrow> ino \<Rightarrow> ino prog" where
  "verify_fd_beneath st k fd w =
     (case proc_fd k (disk w) fd of
        Some resolved \<Rightarrow>
          if is_under_allowed_root st resolved then ret fd w
          else raise (ValueError ''Opened path escaped RHMCP_ALLOWED_ROOTS'') w
      | None \<Rightarrow> ret fd w)"

text \<open>\<open>_open_canonical_with_kernel\<close>: \<open>None\<close> when the kernel does not offer \<open>openat2\<close>.\<close>

definition open_canonical :: "settings \<Rightarrow> path_env \<Rightarrow> kernel \<Rightarrow> path \<Rightarrow> bool \<Rightarrow> ino option prog" where
  "open_canonical st env k safe dir =
     bind_prog (lift_res (lexical_root st env (path_str safe))) (\<lambda>(root, rel, lex).
     bind_prog (do_call (sys_open_path root True False)) (\<lambda>root_fd.
       handle (bind_prog (do_call (sys_openat2 k root_fd rel dir True)) (\<lambda>fd. ret (Some fd)))
         (\<lambda>e. if e \<in> {OSError ENOSYS, OSError EINVAL, OSError EPERM} then ret None
              else if e \<in> {OSError EXDEV, OSError ELOOP}
              then raise (ValueError ''Canonical path changed during secure open'')
              else raise e)))"

definition open_beneath :: "settings \<Rightarrow> path_env \<Rightarrow> kernel \<Rightarrow> string \<Rightarrow> bool \<Rightarrow> bool \<Rightarrow> ino prog" where
  "open_beneath st env k raw dir no_links =
     bind_prog (lift_res (lexical_root st env raw)) (\<lambda>(root, rel, lex).
     bind_prog (do_call (sys_open_path root True False)) (\<lambda>root_fd.
     bind_prog
       (handle (bind_prog (do_call (sys_openat2 k root_fd rel dir no_links)) (\<lambda>fd. ret (Some fd, None)))
         (\<lambda>e. if e \<in> {OSError EXDEV, OSError ELOOP}
              then (if no_links
                    then raise (ValueError ''Path resolution escaped the allowed root or traversed a forbidden symlink'')
                    else bind_prog (lift_res (resolve_allowed_path st env (Some (path_str lex)) None)) (\<lambda>safe.
                         bind_prog (open_canonical st env k safe dir) (\<lambda>r.
                           case r of Some fd \<Rightarrow> ret (Some fd, None) | None \<Rightarrow> ret (None, Some safe))))
              else if e \<notin> {OSError ENOSYS, OSError EINVAL, OSError EPERM} then raise e
              else ret (None, None)))
       (\<lambda>(fd, canonical).
          case fd of
            Some i \<Rightarrow> ret i
          | None \<Rightarrow>
              bind_prog
                (if no_links then lift_res (resolve_allowed_entry st env (path_str lex))
                 else (case canonical of Some c \<Rightarrow> ret c
                       | None \<Rightarrow> lift_res (resolve_allowed_path st env (Some (path_str lex)) None)))
                (\<lambda>safe. bind_prog (do_call (sys_open_path safe dir no_links)) (verify_fd_beneath st k)))))"

definition open_parent_beneath :: "settings \<Rightarrow> path_env \<Rightarrow> kernel \<Rightarrow> string \<Rightarrow> (ino \<times> string \<times> path) prog" where
  "open_parent_beneath st env k raw =
     bind_prog (lift_res (lexical_root st env raw)) (\<lambda>(root, rel, lex).
       if lex \<in> set (allowed_roots st)
       then raise (ValueError ''Configured allowed roots do not have a mutable parent entry'')
       else bind_prog (open_beneath st env k (path_str (butlast lex)) True False) (\<lambda>fd. ret (fd, last lex, lex)))"

definition openat2_supported :: "settings \<Rightarrow> kernel \<Rightarrow> bool prog" where
  "openat2_supported st k =
     bind_prog (do_call (sys_open_path (hd (allowed_roots st)) True False)) (\<lambda>root_fd.
       handle (bind_prog (do_call (sys_openat2 k root_fd [] True False)) (\<lambda>fd. ret True))
         (\<lambda>e. if e \<in> {OSError ENOSYS, OSError EINVAL, OSError EPERM} then ret False else raise e))"

subsection \<open>Containment\<close>

text \<open>\<open>below f r i\<close>: inode \<open>i\<close> is reached from \<open>r\<close> through directory entries only.\<close>

inductive below :: "fs \<Rightarrow> ino \<Rightarrow> ino \<Rightarrow> bool" for f where
  here: "below f r r"
| step: "below f r d \<Longrightarrow> lookup_at f d name = Some i \<Longrightarrow> below f r i"

lemma walk_below:
  "walk f True no_links links st cs = Inr i \<Longrightarrow> (\<forall>d \<in> set st. below f r d) \<Longrightarrow> below f r i"
proof (induction f True no_links links st cs rule: walk.induct)
  case (3 f no_links links cur up c cs)
  note s = "3.prems"(1) [unfolded walk.simps(3) [of f True no_links links cur up c cs]]
  show ?case
  proof (cases "c = ''..''")
    case True
    with s have "up \<noteq> []" "entries f cur \<noteq> None" "walk f True no_links links up cs = Inr i" by (auto split: if_split_asm)
    with "3.hyps"(2) [OF True] "3.prems"(2) show ?thesis by auto
  next
    case False
    then obtain es j m where e: "entries f cur = Some es" "map_of es c = Some j" "inodes f j = Some m"
      using s by (auto split: option.splits)
    have j: "below f r j"
      using "3.prems"(2) e by (auto intro: below.step simp: lookup_at_def)
    show ?thesis
    proof (cases "m_node m")
      case (Sym t)
      with s False e have c: "\<not> (no_links \<or> links = 0)" "anchor t = 0"
        "walk f True no_links (links - 1) (cur # up) (snd (parse_path t) @ cs) = Inr i"
        by (auto split: if_split_asm)
      show ?thesis
        using "3.hyps"(6) [OF False e Sym c(1)] c(2,3) "3.prems"(2) by simp
    next
      case (Dir es')
      with s False e have "walk f True no_links links (j # cur # up) cs = Inr i" by simp
      with "3.hyps"(4) [OF False e Dir] j "3.prems"(2) show ?thesis by simp
    next
      case (Reg x)
      with s False e have "walk f True no_links links (j # cur # up) cs = Inr i" by simp
      with "3.hyps"(3) [OF False e Reg] j "3.prems"(2) show ?thesis by simp
    next
      case Sock
      with s False e have "walk f True no_links links (j # cur # up) cs = Inr i" by simp
      with "3.hyps"(7) [OF False e Sock] j "3.prems"(2) show ?thesis by simp
    next
      case Fifo
      with s False e have "walk f True no_links links (j # cur # up) cs = Inr i" by simp
      with "3.hyps"(8) [OF False e Fifo] j "3.prems"(2) show ?thesis by simp
    next
      case Chr
      with s False e have "walk f True no_links links (j # cur # up) cs = Inr i" by simp
      with "3.hyps"(9) [OF False e Chr] j "3.prems"(2) show ?thesis by simp
    next
      case Blk
      with s False e have "walk f True no_links links (j # cur # up) cs = Inr i" by simp
      with "3.hyps"(10) [OF False e Blk] j "3.prems"(2) show ?thesis by simp
    qed
  qed
qed (auto simp: walk.simps)

definition reached_from_root :: "settings \<Rightarrow> ino \<Rightarrow> bool" where
  "reached_from_root st fd \<longleftrightarrow>
     (\<exists>root \<in> set (allowed_roots st). \<exists>f0 f1 r. walk f0 False False max_links [0] root = Inr r \<and> below f1 r fd)"

lemma lexical_root_allowed: "lexical_root st env raw = Inr (root, rel, lexical) \<Longrightarrow> root \<in> set (allowed_roots st) \<and> lexical = root @ rel"
  by (auto simp: lexical_root_def and_then_Inr Let_def under_root_iff dest!: find_SomeD split: if_split_asm option.splits)

lemma opened_Inr: "opened dir r f = (f', Inr i) \<Longrightarrow> r = Inr i"
  by (cases r) (auto simp: opened_def sys_error_def split: if_split_asm)

lemma openat2_reached:
  assumes "do_call (sys_open_path root True False) w = (w1, Inr r)" "do_call (sys_openat2 k r rel dir no_links) w2 = (w3, Inr fd)"
    and "root \<in> set (allowed_roots st)"
  shows "reached_from_root st fd"
proof -
  from do_call_Inr [OF assms(1)] obtain f0 where "walk f0 False False max_links [0] root = Inr r"
    unfolding sys_open_path_def by (auto dest: opened_Inr)
  moreover from do_call_Inr [OF assms(2)] obtain f1 where "walk f1 True no_links max_links [r] rel = Inr fd"
    by (auto simp: sys_openat2_def sys_error_def dest: opened_Inr split: option.splits)
  then have "below f1 r fd" by (rule walk_below) (simp add: below.here)
  ultimately show ?thesis unfolding reached_from_root_def using assms(3) by blast
qed

lemma open_canonical_reached:
  assumes "open_canonical st env k safe dir w = (w', Inr (Some fd))"
  shows "reached_from_root st fd"
proof -
  from assms obtain root rel lexical w1 r where
    l: "lexical_root st env (path_str safe) = Inr (root, rel, lexical)" and
    r: "do_call (sys_open_path root True False) w = (w1, Inr r)" and
    h: "handle (bind_prog (do_call (sys_openat2 k r rel dir True)) (\<lambda>fd. ret (Some fd)))
         (\<lambda>e. if e \<in> {OSError ENOSYS, OSError EINVAL, OSError EPERM} then ret None
              else if e \<in> {OSError EXDEV, OSError ELOOP}
              then raise (ValueError ''Canonical path changed during secure open'')
              else raise e) w1 = (w', Inr (Some fd))"
    unfolding open_canonical_def by (elim bind_progE lift_resE) (simp split: prod.splits, elim bind_progE, blast)
  from h obtain v where "do_call (sys_openat2 k r rel dir True) w1 = (v, Inr fd)"
    by (auto simp: prog_Inr split: if_split_asm)
  then show ?thesis using openat2_reached [OF r] lexical_root_allowed [OF l] by blast
qed


subsection \<open>A sample disk\<close>

definition file_meta :: "node \<Rightarrow> meta" where
  "file_meta n = \<lparr>m_node = n, m_dev = 1, m_perm = 420, m_uid = 0, m_gid = 0, m_mtime = 5\<rparr>"

text \<open>\<open>/srv/data/log\<close> with the content \<open>c\<close>, and \<open>/srv/link\<close> pointing to \<open>data\<close>.\<close>

definition sample_disk :: "bytes \<Rightarrow> fs" where
  "sample_disk c =
     \<lparr>inodes = [0 \<mapsto> file_meta (Dir [(''srv'', 1)]), 1 \<mapsto> file_meta (Dir [(''data'', 2), (''link'', 4)]),
                2 \<mapsto> file_meta (Dir [(''log'', 3)]), 3 \<mapsto> file_meta (Reg c), 4 \<mapsto> file_meta (Sym ''data'')],
      fresh_ino = 5, fs_now = 10\<rparr>"

definition plain_kernel :: kernel where
  "plain_kernel = \<lparr>openat2_refused = None, proc_fd = (\<lambda>f i. None)\<rparr>"

lemma sample_open:
  "open_beneath sample_settings plain_env plain_kernel ''/srv/link/log'' False False \<lparr>disk = sample_disk c, schedule = []\<rparr>
    = (\<lparr>disk = sample_disk c, schedule = []\<rparr>, Inr 3)"
  by (simp add: open_beneath_def prog_defs lexical_root_def plain_env_def parse_path_def anchor_def normpath_def
      sample_settings_def default_settings_def under_root_def do_call_def sys_open_path_def sys_openat2_def plain_kernel_def
      opened_def walk.simps entries_def sample_disk_def file_meta_def max_links_def Let_def)


end
