(* ===== verification/Base64.thy ===== *)
theory Base64
  imports Prelude
begin

text \<open>The standard Base64 encoding, \<open>base64.b64encode\<close>, of the chunk and transfer results.\<close>

definition b64_alphabet :: string where
  "b64_alphabet = ''ABCDEFGHIJKLMNOPQRSTUVWXYZabcdefghijklmnopqrstuvwxyz0123456789+/''"

definition b64_char :: "nat \<Rightarrow> char" where
  "b64_char n = b64_alphabet ! n"

fun b64_units :: "nat list \<Rightarrow> string" where
  "b64_units [] = []"
| "b64_units [a] = [b64_char (a div 4), b64_char (a mod 4 * 16), CHR ''='', CHR ''='']"
| "b64_units [a, b] = [b64_char (a div 4), b64_char (a mod 4 * 16 + b div 16), b64_char (b mod 16 * 4), CHR ''='']"
| "b64_units (a # b # c # r) =
     b64_char (a div 4) # b64_char (a mod 4 * 16 + b div 16) # b64_char (b mod 16 * 4 + c div 64) # b64_char (c mod 64) # b64_units r"

definition b64encode :: "bytes \<Rightarrow> string" where
  "b64encode data = b64_units (map of_char data)"

subsection \<open>Decoding\<close>

text \<open>\<open>base64.b64decode(s, validate=True)\<close>, in the strict mode CPython uses since 3.11: full groups of four from the
  alphabet, padding only at the end.\<close>

definition b64_value :: "char \<Rightarrow> nat option" where
  "b64_value c = find_index (\<lambda>x. x = c) b64_alphabet"

fun b64decode :: "string \<Rightarrow> bytes option" where
  "b64decode [] = Some []"
| "b64decode (c1 # c2 # c3 # c4 # r) =
     (case (b64_value c1, b64_value c2) of
        (Some a, Some b) \<Rightarrow>
          if c3 = CHR ''='' then (if c4 = CHR ''='' \<and> r = [] then Some [char_of (a * 4 + b div 16)] else None)
          else (case b64_value c3 of
              None \<Rightarrow> None
            | Some c \<Rightarrow>
                if c4 = CHR ''='' then (if r = [] then Some [char_of (a * 4 + b div 16), char_of (b mod 16 * 16 + c div 4)] else None)
                else (case b64_value c4 of
                    None \<Rightarrow> None
                  | Some d \<Rightarrow>
                      map_option (\<lambda>bs. char_of (a * 4 + b div 16) # char_of (b mod 16 * 16 + c div 4) # char_of (c mod 4 * 64 + d) # bs)
                        (b64decode r)))
      | _ \<Rightarrow> None)"
| "b64decode _ = None"

lemma b64_value_char: "n < 64 \<Longrightarrow> b64_value (b64_char n) = Some n \<and> b64_char n \<noteq> CHR ''=''"
proof -
  have "list_all (\<lambda>n. b64_value (b64_char n) = Some n \<and> b64_char n \<noteq> CHR ''='') [0..<64]"
    by (simp add: b64_value_def b64_char_def b64_alphabet_def upt_rec)
  then show "n < 64 \<Longrightarrow> ?thesis" by (simp add: list_all_iff)
qed

lemma high_group [simp]: "n < 256 \<Longrightarrow> n div 16 div 16 = 0" "n < 256 \<Longrightarrow> n div 16 mod 16 = n div 16"
    "n < 256 \<Longrightarrow> n div 64 div 4 = 0" "n < 256 \<Longrightarrow> n div 64 mod 4 = n div 64" for n :: nat
  by (auto simp: div_eq_0_iff)

lemma b64decode_units:
  "\<forall>n \<in> set ns. n < 256 \<Longrightarrow> b64decode (b64_units ns) = Some (map char_of ns)"
proof (induction ns rule: b64_units.induct)
  case (2 a)
  then have "a div 4 < 64" "a mod 4 * 16 < 64" by auto
  then show ?case by (simp add: b64_value_char)
next
  case (3 a b)
  then have "a div 4 < 64" "a mod 4 * 16 + b div 16 < 64" "b mod 16 * 4 < 64" by auto
  moreover from 3 have "a < 256" "b < 256" by simp_all
  ultimately show ?case by (simp add: b64_value_char)
next
  case (4 a b c r)
  then have "a div 4 < 64" "a mod 4 * 16 + b div 16 < 64" "b mod 16 * 4 + c div 64 < 64" "c mod 64 < 64" by auto
  moreover from 4 have "a < 256" "b < 256" "c < 256" "c div 64 < 4" by auto
  ultimately show ?case using 4 by (simp add: b64_value_char)
qed simp

lemma b64decode_encode [simp]: "b64decode (b64encode data) = Some data"
  by (simp add: b64encode_def b64decode_units o_def)

end
