(* ===== verification/File_Ops.thy ===== *)
theory File_Ops
  imports Secure_Paths Py_Int Exec Cursor Base64 "HOL-Library.List_Lexorder" "HOL-Library.Char_ord"
begin

text \<open>
  The reading half of \<open>src/remote_host_mcp/filesystem.py\<close> and its shared helpers, as programs over
  \<^theory_text>\<open>Posix\<close> worlds.  File names are lists of bytes read as Latin-1.  SHA-256 is the argument \<open>sha\<close>,
  which yields the hexadecimal digest.
\<close>

subsection \<open>Helpers\<close>

definition is_sha256 :: "(nat \<Rightarrow> nat option) \<Rightarrow> string \<Rightarrow> bool" where
  "is_sha256 ud v = (length v = 64 \<and> py_hex_ok ud (ustr_of v))"

definition ensure_mode :: "int \<Rightarrow> unit prog" where
  "ensure_mode mode = check (\<not> (mode < 0 \<or> mode > 511)) ''mode must be between 0 and 0o777''"

definition path_type :: "meta \<Rightarrow> string" where
  "path_type m =
     (case m_node m of
        Reg c \<Rightarrow> ''file'' | Dir es \<Rightarrow> ''directory'' | Sym t \<Rightarrow> ''symlink'' | Sock \<Rightarrow> ''socket''
      | Fifo \<Rightarrow> ''fifo'' | Chr \<Rightarrow> ''char_device'' | Blk \<Rightarrow> ''block_device'')"

definition reject_root_removal :: "settings \<Rightarrow> ppath \<Rightarrow> unit prog" where
  "reject_root_removal st p =
     check (\<not> list_ex (\<lambda>root. p = (1, root)) (allowed_roots st)) ''Refusing to remove a configured allowed root''"

definition fstat_regular :: "ino \<Rightarrow> string \<Rightarrow> meta prog" where
  "fstat_regular fd message =
     bind_prog (do_call (sys_fstat fd)) (\<lambda>m. if \<not> is_reg m then raise (ValueError message) else ret m)"

definition lstat_at :: "ino \<Rightarrow> string \<Rightarrow> (ino \<times> meta) option prog" where
  "lstat_at d name =
     handle (bind_prog (do_call (sys_lstat d name)) (\<lambda>x. ret (Some x)))
       (\<lambda>e. if e = OSError ENOENT then ret None else raise e)"

text \<open>Reading to the end, \<open>n\<close> bytes at a time.  Once the schedule of the other processes is used up the
  file no longer grows, so the loop ends.\<close>

lemma do_call_schedule:
  "do_call c w = (w', Inr x) \<Longrightarrow> length (schedule w') < length (schedule w)
     \<or> (schedule w' = [] \<and> schedule w = [] \<and> c (disk w) = (disk w', Inr x))"
  by (auto simp: do_call_def split: list.splits tick.splits prod.splits)

lemma sys_read_at_Inr:
  "sys_read_at i off n f = (f', Inr c) \<Longrightarrow> f' = f \<and> (\<exists>all. sys_read_all i f = (f, Inr all) \<and> c = take n (drop off all))"
  by (auto simp: sys_read_at_def sys_read_all_def sys_error_def split: option.splits node.splits)

definition size_of :: "ino \<Rightarrow> fs \<Rightarrow> nat" where
  "size_of i f = (case sys_read_all i f of (_, Inr c) \<Rightarrow> length c | _ \<Rightarrow> 0)"

lemma read_at_less:
  assumes "do_call (sys_read_at i off n) w = (w', Inr c)" "c \<noteq> []"
  shows "length (schedule w') < length (schedule w)
    \<or> length (schedule w') = length (schedule w) \<and> size_of i (disk w') - (off + length c) < size_of i (disk w) - off"
  using do_call_schedule [OF assms(1)] assms(2) by (auto simp: size_of_def dest!: sys_read_at_Inr)

lemma read_at_le:
  assumes "do_call (sys_read_at i off n) w = (w', Inr c)"
  shows "length (schedule w') < length (schedule w) \<or> length (schedule w') = length (schedule w) \<and> disk w' = disk w
      \<and> (c \<noteq> [] \<longrightarrow> size_of i (disk w) - (off + length c) < size_of i (disk w) - off)"
  using do_call_schedule [OF assms(1)] by (auto simp: size_of_def dest!: sys_read_at_Inr)

function read_rest :: "nat \<Rightarrow> ino \<Rightarrow> nat \<Rightarrow> bytes \<Rightarrow> bytes prog" where
  "read_rest n i off acc w =
     (case do_call (sys_read_at i off n) w of
        (w', Inl e) \<Rightarrow> (w', Inl e)
      | (w', Inr c) \<Rightarrow> if c = [] then (w', Inr acc) else read_rest n i (off + length c) (acc @ c) w')"
  by pat_completeness auto
termination
  by (relation "measures [\<lambda>(n, i, off, acc, w). length (schedule w), \<lambda>(n, i, off, acc, w). size_of i (disk w) - off]")
    (auto dest: read_at_less [OF sym] simp: length_0_conv [symmetric] simp del: length_0_conv length_greater_0_conv)

declare read_rest.simps [simp del]

definition read_fd_all :: "ino \<Rightarrow> bytes prog" where
  "read_fd_all fd = read_rest 1048576 fd 0 []"

definition hash_fd :: "(bytes \<Rightarrow> string) \<Rightarrow> ino \<Rightarrow> (string \<times> int) prog" where
  "hash_fd sha fd = bind_prog (read_rest 1048576 fd 0 []) (\<lambda>data. ret (sha data, int (length data)))"

definition content_identity :: "ino \<times> meta \<Rightarrow> nat \<times> ino \<times> int \<times> int" where
  "content_identity x = (m_dev (snd x), fst x, st_size (snd x), m_mtime (snd x))"

definition inode_identity :: "ino \<times> meta \<Rightarrow> nat \<times> ino" where
  "inode_identity x = (m_dev (snd x), fst x)"

text \<open>\<open>f"{mode:04o}"\<close>\<close>

fun octal :: "nat \<Rightarrow> string" where
  "octal n = (if n < 8 then [char_of (48 + n)] else octal (n div 8) @ [char_of (48 + n mod 8)])"

declare octal.simps [simp del]

definition octal4 :: "int \<Rightarrow> string" where
  "octal4 mode = (let s = octal (nat mode) in replicate (4 - length s) (CHR ''0'') @ s)"

subsection \<open>Listing and metadata\<close>

record directory_entry =
  de_name :: string
  de_type :: string
  de_size :: "int option"
  de_modified_ns :: "int option"

record list_directory_result =
  ld_path :: string
  ld_entries :: "directory_entry list"
  ld_truncated :: bool

definition entry_of :: "ino \<Rightarrow> string \<Rightarrow> directory_entry prog" where
  "entry_of d name =
     handle
       (bind_prog (do_call (sys_lstat d name)) (\<lambda>(i, m).
          ret \<lparr>de_name = name, de_type = path_type m,
               de_size = (if path_type m = ''file'' then Some (st_size m) else None), de_modified_ns = Some (m_mtime m)\<rparr>))
       (\<lambda>e. case e of
              OSError n \<Rightarrow> ret \<lparr>de_name = name, de_type = ''unreadable'', de_size = None, de_modified_ns = None\<rparr>
            | _ \<Rightarrow> raise e)"

fun entries_of :: "ino \<Rightarrow> string list \<Rightarrow> directory_entry list prog" where
  "entries_of d [] = ret []"
| "entries_of d (name # names) =
     bind_prog (entry_of d name) (\<lambda>e. bind_prog (entries_of d names) (\<lambda>es. ret (e # es)))"

definition resolved_str :: "settings \<Rightarrow> path_env \<Rightarrow> string \<Rightarrow> string prog" where
  "resolved_str st env raw = bind_prog (lift_res (resolve_allowed_path st env (Some raw) None)) (\<lambda>p. ret (path_str p))"

definition list_directory :: "settings \<Rightarrow> path_env \<Rightarrow> kernel \<Rightarrow> ppath \<Rightarrow> string option \<Rightarrow> int \<Rightarrow> list_directory_result prog" where
  "list_directory st env k here path limit =
     bind_prog (check (\<not> (limit < 1 \<or> limit > 500)) ''limit must be between 1 and 500'') (\<lambda>_.
     bind_prog
       (case path of
          None \<Rightarrow> bind_prog (lift_res (cwd_or_first_root st env here)) (\<lambda>p. ret (path_str p))
        | Some p \<Rightarrow> bind_prog (lift_res (expanduser env p)) (\<lambda>x. ret (ppath_str (parse_path x)))) (\<lambda>display.
     bind_prog (open_beneath st env k display True False) (\<lambda>fd.
     bind_prog (do_call (sys_fstat fd)) (\<lambda>m.
     bind_prog (check (is_dir m) ''Path is not a directory'') (\<lambda>_.
     bind_prog (do_call (sys_listdir fd)) (\<lambda>listed.
       let names = sort_key slower listed in
       bind_prog (entries_of fd (take (nat limit) names)) (\<lambda>es.
       bind_prog (resolved_str st env display) (\<lambda>p.
         ret \<lparr>ld_path = p, ld_entries = es, ld_truncated = (limit < int (length names))\<rparr>))))))))"

record path_info_result =
  pi_path :: string
  pi_type :: string
  pi_size :: "int option"
  pi_mode :: string
  pi_uid :: int
  pi_gid :: int
  pi_modified_ns :: int
  pi_symlink_target :: "string option"

definition path_info_of :: "string \<Rightarrow> meta \<Rightarrow> string option \<Rightarrow> path_info_result" where
  "path_info_of p m target =
     \<lparr>pi_path = p, pi_type = path_type m, pi_size = (if path_type m = ''file'' then Some (st_size m) else None),
      pi_mode = octal4 (m_perm m), pi_uid = m_uid m, pi_gid = m_gid m, pi_modified_ns = m_mtime m, pi_symlink_target = target\<rparr>"

text \<open>\<open>os.lstat\<close> of an absolute path.\<close>

definition sys_lstat_path :: "path \<Rightarrow> meta call" where
  "sys_lstat_path p f =
     (case walk f False False max_links [0] (butlast p) of
        Inl e \<Rightarrow> (f, Inl e)
      | Inr d \<Rightarrow>
          if p = [] then sys_fstat d f
          else (case sys_lstat d (last p) f of (f', Inr (i, m)) \<Rightarrow> (f', Inr m) | (f', Inl e) \<Rightarrow> (f', Inl e)))"

definition path_info :: "settings \<Rightarrow> path_env \<Rightarrow> kernel \<Rightarrow> string \<Rightarrow> path_info_result prog" where
  "path_info st env k path =
     bind_prog (lift_res (expanduser env path)) (\<lambda>x.
       let normalized = normpath (parse_path x) in
       if fst normalized = 1 \<and> snd normalized \<in> set (allowed_roots st)
       then bind_prog (do_call (sys_lstat_path (snd normalized))) (\<lambda>m.
            ret (path_info_of (ppath_str normalized) m None))
       else bind_prog (open_parent_beneath st env k (ppath_str normalized)) (\<lambda>(parent, name, entry).
            bind_prog (lstat_at parent name) (\<lambda>item.
              case item of
                None \<Rightarrow> raise (ValueError ''Path does not exist'')
              | Some (i, m) \<Rightarrow>
                  bind_prog (if is_lnk m then bind_prog (do_call (sys_readlink parent name)) (\<lambda>t. ret (Some t)) else ret None)
                    (\<lambda>target. ret (path_info_of (path_str entry) m target)))))"

subsection \<open>Reading text\<close>

record scan =
  sc_output :: bytes
  sc_used :: int
  sc_returned :: int
  sc_line_no :: int
  sc_in_line :: bool
  sc_truncated :: bool

definition scan_start :: scan where
  "scan_start = \<lparr>sc_output = [], sc_used = 0, sc_returned = 0, sc_line_no = 1, sc_in_line = False, sc_truncated = False\<rparr>"

text \<open>How the loop over a chunk ends: at its end, by \<open>break\<close>, or after the last requested line with the
  rest of the chunk still unread.\<close>

datatype scan_end = Chunk_done scan | Cut scan | Lines_done scan bytes

definition line_end :: "bytes \<Rightarrow> nat \<times> bool" where
  "line_end rest = (case find_index (\<lambda>c. c = CHR 0x0A) rest of Some n \<Rightarrow> (n + 1, True) | None \<Rightarrow> (length rest, False))"

lemma line_end_less: "(n, b) = line_end rest \<Longrightarrow> rest \<noteq> [] \<Longrightarrow> length rest - n < length rest"
  by (auto simp: line_end_def split: option.splits)

function scan_chunk :: "int \<Rightarrow> int \<Rightarrow> int \<Rightarrow> bytes \<Rightarrow> scan \<Rightarrow> scan_end" where
  "scan_chunk start max_lines max_bytes rest s =
     (if rest = [] then Chunk_done s
      else if sc_line_no s < start then
        (case line_end rest of (n, newline) \<Rightarrow>
           scan_chunk start max_lines max_bytes (drop n rest)
             (if newline then s\<lparr>sc_line_no := sc_line_no s + 1\<rparr> else s))
      else if sc_returned s \<ge> max_lines \<or> sc_used s \<ge> max_bytes then Cut (s\<lparr>sc_truncated := True\<rparr>)
      else
        let s1 = (if sc_in_line s then s else s\<lparr>sc_returned := sc_returned s + 1, sc_in_line := True\<rparr>) in
        case line_end rest of (n, newline) \<Rightarrow>
          let segment = take n rest; remaining = max_bytes - sc_used s1 in
          if remaining < int (length segment)
          then Cut (s1\<lparr>sc_output := sc_output s1 @ take (nat remaining) segment, sc_used := sc_used s1 + remaining, sc_truncated := True\<rparr>)
          else
            let s2 = s1\<lparr>sc_output := sc_output s1 @ segment, sc_used := sc_used s1 + int (length segment)\<rparr> in
            if newline
            then (let s3 = s2\<lparr>sc_line_no := sc_line_no s2 + 1, sc_in_line := False\<rparr> in
                  if sc_returned s3 \<ge> max_lines then Lines_done s3 (drop n rest)
                  else scan_chunk start max_lines max_bytes (drop n rest) s3)
            else scan_chunk start max_lines max_bytes (drop n rest) s2)"
  by pat_completeness auto
termination
  by (relation "measure (\<lambda>(start, ml, mb, rest, s). length rest)") (auto dest: line_end_less)

declare scan_chunk.simps [simp del]

function scan_file :: "int \<Rightarrow> int \<Rightarrow> int \<Rightarrow> ino \<Rightarrow> nat \<Rightarrow> scan \<Rightarrow> scan prog" where
  "scan_file start max_lines max_bytes fd off s w =
     (case do_call (sys_read_at fd off 65536) w of
        (w1, Inl e) \<Rightarrow> (w1, Inl e)
      | (w1, Inr chunk) \<Rightarrow>
          if chunk = [] then (w1, Inr s)
          else (case scan_chunk start max_lines max_bytes chunk s of
              Chunk_done s1 \<Rightarrow> scan_file start max_lines max_bytes fd (off + length chunk) s1 w1
            | Cut s1 \<Rightarrow> (w1, Inr s1)
            | Lines_done s1 rest \<Rightarrow>
                if rest \<noteq> [] then (w1, Inr (s1\<lparr>sc_truncated := True\<rparr>))
                else (case do_call (sys_read_at fd (off + length chunk) 1) w1 of
                    (w2, Inl e) \<Rightarrow> (w2, Inl e)
                  | (w2, Inr b) \<Rightarrow>
                      if b \<noteq> [] then (w2, Inr (s1\<lparr>sc_truncated := True\<rparr>))
                      else scan_file start max_lines max_bytes fd (off + length chunk) s1 w2)))"
  by pat_completeness auto
termination
  by (relation "measures [\<lambda>(start, ml, mb, i, off, s, w). length (schedule w), \<lambda>(start, ml, mb, i, off, s, w). size_of i (disk w) - off]")
    (auto dest!: read_at_le [OF sym])

declare scan_file.simps [simp del]

record read_text_file_result =
  rt_path :: string
  rt_start_line :: int
  rt_lines_returned :: int
  rt_text :: ustr
  rt_truncated :: bool

definition read_text_file :: "settings \<Rightarrow> path_env \<Rightarrow> kernel \<Rightarrow> string \<Rightarrow> int \<Rightarrow> int \<Rightarrow> int \<Rightarrow> read_text_file_result prog" where
  "read_text_file st env k path start max_lines max_bytes =
     bind_prog (check (\<not> start < 1) ''start_line must be >= 1'') (\<lambda>_.
     bind_prog (check (\<not> (max_lines < 1 \<or> max_lines > 5000)) ''max_lines must be between 1 and 5000'') (\<lambda>_.
     bind_prog (check (\<not> (max_bytes < 256 \<or> max_bytes > 131072)) ''max_bytes must be between 256 and 131072'') (\<lambda>_.
     bind_prog (open_beneath st env k path False False) (\<lambda>fd.
     bind_prog (fstat_regular fd ''Path is not a regular file'') (\<lambda>m.
     bind_prog (scan_file start max_lines max_bytes fd 0 scan_start) (\<lambda>s.
     bind_prog (resolved_str st env path) (\<lambda>p.
       ret \<lparr>rt_path = p, rt_start_line = start, rt_lines_returned = sc_returned s,
            rt_text = decode_replace (sc_output s), rt_truncated = sc_truncated s\<rparr>)))))))"

record read_file_chunk_result =
  rc_path :: string
  rc_offset :: int
  rc_bytes_returned :: int
  rc_data_base64 :: string
  rc_next_offset :: int
  rc_eof :: bool

definition chunk_bounds_message :: "settings \<Rightarrow> string" where
  "chunk_bounds_message st = ''max_bytes must be between 1 and '' @ int_str (max_file_chunk_bytes st)"

definition read_file_chunk :: "settings \<Rightarrow> path_env \<Rightarrow> kernel \<Rightarrow> string \<Rightarrow> int \<Rightarrow> int \<Rightarrow> read_file_chunk_result prog" where
  "read_file_chunk st env k path offset max_bytes =
     bind_prog (check (\<not> offset < 0) ''offset must be >= 0'') (\<lambda>_.
     bind_prog (check (\<not> (max_bytes < 1 \<or> max_bytes > max_file_chunk_bytes st)) (chunk_bounds_message st)) (\<lambda>_.
     bind_prog (open_beneath st env k path False False) (\<lambda>fd.
     bind_prog (fstat_regular fd ''Path is not a regular file'') (\<lambda>m.
     bind_prog (check (\<not> st_size m < offset) ''offset is beyond end of file'') (\<lambda>_.
     bind_prog (do_call (sys_read_at fd (nat offset) (nat max_bytes))) (\<lambda>data.
     bind_prog (resolved_str st env path) (\<lambda>p.
       ret \<lparr>rc_path = p, rc_offset = offset, rc_bytes_returned = int (length data), rc_data_base64 = b64encode data,
            rc_next_offset = offset + int (length data), rc_eof = (st_size m \<le> offset + int (length data))\<rparr>)))))))"

record hash_file_result =
  hf_path :: string
  hf_algorithm :: string
  hf_digest :: string
  hf_bytes_hashed :: int

definition hash_file :: "(bytes \<Rightarrow> string) \<Rightarrow> settings \<Rightarrow> path_env \<Rightarrow> kernel \<Rightarrow> string \<Rightarrow> hash_file_result prog" where
  "hash_file sha st env k path =
     bind_prog (open_beneath st env k path False False) (\<lambda>fd.
     bind_prog (fstat_regular fd ''Path is not a regular file'') (\<lambda>m.
     bind_prog (hash_fd sha fd) (\<lambda>(digest, n).
     bind_prog (resolved_str st env path) (\<lambda>p.
       ret \<lparr>hf_path = p, hf_algorithm = ''sha256'', hf_digest = digest, hf_bytes_hashed = n\<rparr>))))"

subsection \<open>What a text read returns\<close>

text \<open>The reference: the file as lines, each with its newline.\<close>

function byte_lines :: "bytes \<Rightarrow> bytes list" where
  "byte_lines rest =
     (if rest = [] then [] else take (fst (line_end rest)) rest # byte_lines (drop (fst (line_end rest)) rest))"
  by pat_completeness auto
termination
  by (relation "measure length") (auto dest: line_end_less [OF prod.collapse])

declare byte_lines.simps [simp del]

lemma byte_lines_Nil [simp]: "byte_lines [] = []"
  by (simp add: byte_lines.simps)

lemma byte_lines_eq: "rest \<noteq> [] \<Longrightarrow> line_end rest = (n, b) \<Longrightarrow> byte_lines rest = take n rest # byte_lines (drop n rest)"
  by (subst byte_lines.simps) simp

lemma concat_byte_lines [simp]: "concat (byte_lines rest) = rest"
  by (induction rest rule: byte_lines.induct) (subst byte_lines.simps, simp)

definition chunk_result :: "scan_end \<Rightarrow> scan" where
  "chunk_result e =
     (case e of Chunk_done s \<Rightarrow> s | Cut s \<Rightarrow> s | Lines_done s rest \<Rightarrow> if rest \<noteq> [] then s\<lparr>sc_truncated := True\<rparr> else s)"

lemma line_end_bound: "line_end rest = (n, b) \<Longrightarrow> n \<le> length rest"
  by (auto simp: line_end_def dest: find_index_SomeD split: option.splits)

lemma line_end_last: "line_end rest = (n, False) \<Longrightarrow> n = length rest"
  by (auto simp: line_end_def split: option.splits)

lemma find_index_take: "find_index P xs = Some i \<Longrightarrow> find_index P (take (Suc i) xs @ z) = Some i"
  by (induction xs arbitrary: i) (auto split: if_splits)

lemma byte_lines_cut:
  assumes "line_end rest = (n, b)" "0 < k" "k \<le> n" "rest \<noteq> []" "b \<longrightarrow> k < n"
  shows "byte_lines (take k rest) = [take k rest]"
proof -
  have "find_index (\<lambda>c. c = CHR 0x0A) (take k rest) = None"
  proof (cases "find_index (\<lambda>c. c = CHR 0x0A) rest")
    case None
    then show ?thesis by (auto dest: in_set_takeD)
  next
    case (Some i)
    with assms have "k \<le> i" by (auto simp: line_end_def)
    with find_index_SomeD [OF Some] show ?thesis by (auto simp: in_set_conv_nth)
  qed
  then have "line_end (take k rest) = (length (take k rest), False)" by (simp add: line_end_def del: find_index_None)
  with assms show ?thesis by (subst byte_lines_eq) (auto simp: min_def)
qed

lemma byte_lines_append:
  assumes "line_end rest = (n, True)"
  shows "byte_lines (take n rest @ z) = take n rest # byte_lines z"
proof -
  from assms obtain i where i: "find_index (\<lambda>c. c = CHR 0x0A) rest = Some i" "n = Suc i"
    by (auto simp: line_end_def split: option.splits)
  then have l: "line_end (take n rest @ z) = (n, True)" using find_index_take [OF i(1)] by (simp add: line_end_def)
  have "length (take n rest) = n" using find_index_SomeD [OF i(1)] i(2) by simp
  moreover from this i(2) have "take n rest @ z \<noteq> []" by auto
  ultimately show ?thesis by (subst byte_lines_eq [OF _ l]) simp_all
qed

lemma scan_chunk_selects:
  "start \<le> sc_line_no s \<Longrightarrow> \<not> sc_in_line s \<Longrightarrow> \<not> sc_truncated s \<Longrightarrow> sc_used s = int (length (sc_output s)) \<Longrightarrow>
   sc_used s \<le> mb \<Longrightarrow>
   let e = chunk_result (scan_chunk start ml mb rest s);
       sel = take (nat (mb - sc_used s)) (concat (take (nat (ml - sc_returned s)) (byte_lines rest)))
   in sc_output e = sc_output s @ sel \<and> sc_returned e = sc_returned s + int (length (byte_lines sel)) \<and> (sc_truncated e \<longleftrightarrow> length sel < length rest)"
proof (induction "length rest" arbitrary: rest s rule: less_induct)
  case less
  obtain n b where le: "line_end rest = (n, b)" by (cases "line_end rest")
  show ?case
  proof (cases "rest = [] \<or> ml \<le> sc_returned s \<or> mb \<le> sc_used s")
    case True
    with less.prems show ?thesis
      by (subst scan_chunk.simps) (auto simp: chunk_result_def Let_def)
  next
    case False
    then have ne: "rest \<noteq> []" "sc_returned s < ml" "sc_used s < mb" by auto
    note n = line_end_less [OF le [symmetric] ne(1)] line_end_bound [OF le]
    let ?seg = "take n rest"
    let ?s1 = "s\<lparr>sc_returned := sc_returned s + 1, sc_in_line := True\<rparr>"
    let ?s2 = "?s1\<lparr>sc_output := sc_output s @ ?seg, sc_used := sc_used s + int n\<rparr>"
    let ?s3 = "?s2\<lparr>sc_line_no := sc_line_no s + 1, sc_in_line := False\<rparr>"
    have bl: "byte_lines rest = ?seg # byte_lines (drop n rest)" by (rule byte_lines_eq [OF ne(1) le])
    obtain k where k: "nat (ml - sc_returned s) = Suc k" "k = nat (ml - sc_returned ?s3)"
      using ne(2) by (intro that [of "nat (ml - sc_returned s) - 1"]) auto
    have sel: "concat (take (nat (ml - sc_returned s)) (byte_lines rest)) = ?seg @ concat (take k (byte_lines (drop n rest)))"
      unfolding bl k(1) by simp
    have unf: "scan_chunk start ml mb rest s =
        (if mb - sc_used s < int n
         then Cut (?s1\<lparr>sc_output := sc_output s @ take (nat (mb - sc_used s)) ?seg, sc_used := mb, sc_truncated := True\<rparr>)
         else if b then (if ml \<le> sc_returned s + 1 then Lines_done ?s3 (drop n rest) else scan_chunk start ml mb (drop n rest) ?s3)
         else scan_chunk start ml mb (drop n rest) ?s2)"
    proof -
      have "length ?seg = n" using n by simp
      with less.prems(1,2) ne le show ?thesis by (subst scan_chunk.simps) simp
    qed
    show ?thesis
    proof (cases "mb - sc_used s < int n")
      case True
      have "byte_lines (take (nat (mb - sc_used s)) rest) = [take (nat (mb - sc_used s)) rest]"
        using True n ne by (intro byte_lines_cut [OF le]) auto
      with True show ?thesis
        using n unfolding unf sel by (auto simp: chunk_result_def Let_def min_absorb1)
    next
      case fits: False
      have split: "take (nat (mb - sc_used s)) (?seg @ z) = ?seg @ take (nat (mb - sc_used ?s3)) z" for z
      proof -
        have "nat (mb - sc_used s) = n + nat (mb - sc_used ?s3)" using fits by simp
        with n show ?thesis by (simp add: take_add)
      qed
      show ?thesis
      proof (cases b)
        case False
        with line_end_last [of rest n] le have len: "n = length rest" by simp
        have "byte_lines rest = [rest]" unfolding bl using len by simp
        with len False fits less.prems show ?thesis
          unfolding unf sel split by (simp add: scan_chunk.simps [of _ _ _ "[]"] chunk_result_def Let_def)
      next
        case b: True
        note app = byte_lines_append [OF le [unfolded eqTrueI [OF b]]]
        show ?thesis
        proof (cases "ml \<le> sc_returned s + 1")
          case True
          with b fits k n ne less.prems show ?thesis
            unfolding unf sel split by (auto simp: chunk_result_def Let_def app [of "[]", simplified])
        next
          case False
          have "let e = chunk_result (scan_chunk start ml mb (drop n rest) ?s3);
              r = take (nat (mb - sc_used ?s3)) (concat (take (nat (ml - sc_returned ?s3)) (byte_lines (drop n rest))))
            in sc_output e = sc_output ?s3 @ r \<and> sc_returned e = sc_returned ?s3 + int (length (byte_lines r)) \<and> (sc_truncated e \<longleftrightarrow> length r < length (drop n rest))"
            using less.prems fits n by (intro less.hyps) auto
          with False b fits k(2) n show ?thesis
            unfolding unf sel split by (auto simp: Let_def app less_diff_conv add.commute [of n])
        qed
      qed
    qed
  qed
qed

lemma scan_chunk_skips:
  "sc_line_no s \<le> start \<Longrightarrow>
   (let rest' = concat (drop (nat (start - sc_line_no s)) (byte_lines rest)) in
    if rest' = [] then \<exists>n. scan_chunk start ml mb rest s = Chunk_done (s\<lparr>sc_line_no := n\<rparr>)
    else scan_chunk start ml mb rest s = scan_chunk start ml mb rest' (s\<lparr>sc_line_no := start\<rparr>))"
proof (induction "length rest" arbitrary: rest s rule: less_induct)
  case less
  obtain n b where le: "line_end rest = (n, b)" by (cases "line_end rest")
  have idle: "\<exists>n. Chunk_done s = Chunk_done (s\<lparr>sc_line_no := n\<rparr>)" by (rule exI [of _ "sc_line_no s"]) simp
  show ?case
  proof (cases "rest = [] \<or> start \<le> sc_line_no s")
    case True
    with less.prems idle show ?thesis by (cases "rest = []") (auto simp: Let_def scan_chunk.simps [of _ _ _ "[]"])
  next
    case False
    then have ne: "rest \<noteq> []" "sc_line_no s < start" by auto
    note n = line_end_less [OF le [symmetric] ne(1)]
    let ?s = "if b then s\<lparr>sc_line_no := sc_line_no s + 1\<rparr> else s"
    have bl: "byte_lines rest = take n rest # byte_lines (drop n rest)" by (rule byte_lines_eq [OF ne(1) le])
    obtain k where k: "nat (start - sc_line_no s) = Suc k" using ne(2) by (metis not0_implies_Suc nat_0_iff diff_gt_0_iff_gt linorder_not_less)
    have unf: "scan_chunk start ml mb rest s = scan_chunk start ml mb (drop n rest) ?s"
      using ne le by (subst scan_chunk.simps) simp
    show ?thesis
    proof (cases b)
      case False
      with line_end_last [of rest n] le have "drop n rest = []" by simp
      with idle False show ?thesis unfolding unf bl k by (simp add: Let_def scan_chunk.simps [of _ _ _ "[]"])
    next
      case True
      have e: "nat (start - sc_line_no ?s) = k" using k True by simp
      have "sc_line_no ?s \<le> start" using ne True by simp
      from less.hyps [OF _ this, of "drop n rest"] n True
      have "let rest' = concat (drop k (byte_lines (drop n rest))) in
          if rest' = [] then \<exists>n'. scan_chunk start ml mb (drop n rest) ?s = Chunk_done (?s\<lparr>sc_line_no := n'\<rparr>)
          else scan_chunk start ml mb (drop n rest) ?s = scan_chunk start ml mb rest' (?s\<lparr>sc_line_no := start\<rparr>)"
        unfolding e by simp
      moreover have "?s\<lparr>sc_line_no := n'\<rparr> = s\<lparr>sc_line_no := n'\<rparr>" for n' by simp
      moreover have "concat (drop (Suc k) (take n rest # byte_lines (drop n rest))) = concat (drop k (byte_lines (drop n rest)))"
        by simp
      ultimately show ?thesis unfolding unf bl k by (simp only:)
    qed
  qed
qed

lemma quiet_call: "schedule w = [] \<Longrightarrow> c (disk w) = (disk w, r) \<Longrightarrow> do_call c w = (w, r)"
  by (simp add: do_call_def)

lemma scan_file_end: "schedule w = [] \<Longrightarrow> sys_read_all fd (disk w) = (disk w, Inr c) \<Longrightarrow> length c \<le> off \<Longrightarrow>
    scan_file start ml mb fd off s w = (w, Inr s)"
  by (subst scan_file.simps) (simp add: quiet_call sys_read_at_def)

lemma scan_file_single:
  assumes "schedule w = []" "sys_read_all fd (disk w) = (disk w, Inr c)" "length c \<le> 65536" "c \<noteq> []"
  shows "scan_file start ml mb fd 0 s w = (w, Inr (chunk_result (scan_chunk start ml mb c s)))"
  using assms by (subst scan_file.simps)
    (simp add: quiet_call sys_read_at_def chunk_result_def scan_file_end split: scan_end.splits)

lemma reg_read_all: "inodes f i = Some m \<Longrightarrow> m_node m = Reg c \<Longrightarrow> sys_read_all i f = (f, Inr c)"
  by (simp add: sys_read_all_def)

lemma fstat_regular_quiet:
  "schedule w = [] \<Longrightarrow> inodes (disk w) i = Some m \<Longrightarrow> m_node m = Reg c \<Longrightarrow> fstat_regular i message w = (w, Inr m)"
  by (simp add: fstat_regular_def prog_defs quiet_call sys_fstat_def is_reg_def)

definition selected :: "int \<Rightarrow> int \<Rightarrow> int \<Rightarrow> bytes \<Rightarrow> bytes" where
  "selected start max_lines max_bytes c =
     take (nat max_bytes) (concat (take (nat max_lines) (drop (nat (start - 1)) (byte_lines c))))"

lemma byte_lines_concat_drop: "byte_lines (concat (drop k (byte_lines c))) = drop k (byte_lines c)"
proof (induction k arbitrary: c)
  case (Suc k)
  show ?case
  proof (cases "c = []")
    case False
    obtain n b where le: "line_end c = (n, b)" by (cases "line_end c")
    show ?thesis using Suc.IH [of "drop n c"] unfolding byte_lines_eq [OF False le] by simp
  qed simp
qed simp

lemma scan_single_spec:
  assumes "1 \<le> start" "0 \<le> mb"
  shows "\<exists>s. chunk_result (scan_chunk start ml mb c scan_start) = s \<and> sc_output s = selected start ml mb c
    \<and> sc_returned s = int (length (byte_lines (selected start ml mb c)))
    \<and> (sc_truncated s \<longleftrightarrow> length (selected start ml mb c) < length (concat (drop (nat (start - 1)) (byte_lines c))))"
proof -
  let ?k = "nat (start - 1)" and ?r = "concat (drop (nat (start - 1)) (byte_lines c))"
  have skip: "if ?r = [] then \<exists>n. scan_chunk start ml mb c scan_start = Chunk_done (scan_start\<lparr>sc_line_no := n\<rparr>)
      else scan_chunk start ml mb c scan_start = scan_chunk start ml mb ?r (scan_start\<lparr>sc_line_no := start\<rparr>)"
  proof -
    have one: "sc_line_no scan_start = 1" by (simp add: scan_start_def)
    from scan_chunk_skips [of scan_start start c ml mb] assms(1) show ?thesis unfolding Let_def one by simp
  qed
  show ?thesis
  proof (cases "?r = []")
    case True
    then have e: "concat (take n (drop ?k (byte_lines c))) = []" for n by (auto dest: in_set_takeD)
    from True skip obtain n where "scan_chunk start ml mb c scan_start = Chunk_done (scan_start\<lparr>sc_line_no := n\<rparr>)" by auto
    with True e show ?thesis by (simp add: chunk_result_def scan_start_def selected_def del: concat_eq_Nil_conv)
  next
    case False
    with skip have "scan_chunk start ml mb c scan_start = scan_chunk start ml mb ?r (scan_start\<lparr>sc_line_no := start\<rparr>)" by simp
    with scan_chunk_selects [of start "scan_start\<lparr>sc_line_no := start\<rparr>" mb ml ?r] assms(2) show ?thesis
      unfolding byte_lines_concat_drop by (simp add: Let_def scan_start_def selected_def)
  qed
qed

text \<open>A text file of at most one read chunk: the answer carries exactly the requested lines up to the byte
  budget, counts the lines it started, and is flagged truncated exactly when something of the file from the
  start line on is missing.\<close>

theorem read_text_file_window:
  assumes "schedule w = []" "open_beneath st env k path False False w = (w, Inr fd)"
    and "inodes (disk w) fd = Some m" "m_node m = Reg c" "length c \<le> 65536"
    and "1 \<le> start" "1 \<le> ml" "ml \<le> 5000" "256 \<le> mb" "mb \<le> 131072"
    and "resolve_allowed_path st env (Some path) None = Inr p"
  shows "read_text_file st env k path start ml mb w
    = (w, Inr \<lparr>rt_path = path_str p, rt_start_line = start,
         rt_lines_returned = int (length (byte_lines (selected start ml mb c))),
         rt_text = decode_replace (selected start ml mb c),
         rt_truncated = (length (selected start ml mb c) < length (concat (drop (nat (start - 1)) (byte_lines c))))\<rparr>)"
proof -
  note all = reg_read_all [OF assms(3,4)]
  obtain s where s: "scan_file start ml mb fd 0 scan_start w = (w, Inr s)" "sc_output s = selected start ml mb c"
      "sc_returned s = int (length (byte_lines (selected start ml mb c)))"
      "sc_truncated s \<longleftrightarrow> length (selected start ml mb c) < length (concat (drop (nat (start - 1)) (byte_lines c)))"
  proof (cases "c = []")
    case True
    with that [of scan_start] scan_file_end [OF assms(1) all] show ?thesis by (simp add: scan_start_def selected_def)
  next
    case False
    with that scan_file_single [OF assms(1) all assms(5) False, of start ml mb scan_start] scan_single_spec [of start mb ml c] assms(6,9)
    show ?thesis by auto
  qed
  with assms fstat_regular_quiet [OF assms(1,3,4)] show ?thesis
    by (simp add: read_text_file_def prog_defs resolved_str_def)
qed

text \<open>A requested last line that crosses the boundary of the 64 KiB read buffer is cut there, although the byte
  budget would have covered the whole line.\<close>

theorem read_text_cuts_line_at_chunk:
  assumes "schedule w = []" "open_beneath st env k path False False w = (w, Inr fd)"
    and "inodes (disk w) fd = Some m" "m_node m = Reg c" "CHR 0x0A \<notin> set c" "65536 < length c" "int (length c) \<le> mb" "mb \<le> 131072"
    and "resolve_allowed_path st env (Some path) None = Inr p"
  shows "read_text_file st env k path 1 1 mb w
    = (w, Inr \<lparr>rt_path = path_str p, rt_start_line = 1, rt_lines_returned = 1,
         rt_text = decode_replace (take 65536 c), rt_truncated = True\<rparr>)"
proof -
  note all = reg_read_all [OF assms(3,4)]
  let ?a = "take 65536 c" and ?b = "take 65536 (drop 65536 c)"
  let ?s = "scan_start\<lparr>sc_returned := 1, sc_in_line := True, sc_output := ?a, sc_used := 65536\<rparr>"
  have le: "line_end ?a = (65536, False)"
    using assms(5,6) by (auto simp: line_end_def split: option.splits dest: find_index_SomeD in_set_takeD)
  have "?a \<noteq> []" using assms(6) by auto
  then have one: "scan_chunk 1 1 mb ?a scan_start = Chunk_done ?s"
    using assms(6,7) le by (subst scan_chunk.simps) (simp add: scan_start_def scan_chunk.simps [of _ _ _ "[]"])
  have two: "scan_chunk 1 1 mb ?b ?s = Cut (?s\<lparr>sc_truncated := True\<rparr>)"
    using assms(6) by (subst scan_chunk.simps) (simp add: scan_start_def)
  have "scan_file 1 1 mb fd 0 scan_start w = scan_file 1 1 mb fd 65536 ?s w"
    using assms(1,6) all \<open>?a \<noteq> []\<close> one by (subst scan_file.simps) (simp add: quiet_call sys_read_at_def)
  also have "\<dots> = (w, Inr (?s\<lparr>sc_truncated := True\<rparr>))"
    using assms(1,6) all two by (subst scan_file.simps) (simp add: quiet_call sys_read_at_def)
  finally show ?thesis
    using assms fstat_regular_quiet [OF assms(1,3,4)]
    by (simp add: read_text_file_def prog_defs resolved_str_def scan_start_def)
qed

subsection \<open>The properties at concrete inputs\<close>

lemma sample_resolve: "resolve_allowed_path sample_settings plain_env (Some ''/srv/link/log'') None = Inr [''srv'', ''link'', ''log'']"
  by (simp add: resolve_allowed_path_def plain_env_def parse_path_def anchor_def normpath_def is_under_allowed_root_def under_root_def
      sample_settings_def default_settings_def)

lemma sample_file: "\<exists>m. inodes (sample_disk c) 3 = Some m \<and> m_node m = Reg c"
  by (simp add: sample_disk_def file_meta_def)

lemma sample_bytes: "byte_lines ''ab\<newline>c'' = [''ab\<newline>'', ''c'']"
  by (simp add: byte_lines.simps line_end_def)

theorem read_text_file_window_witness:
  "snd (read_text_file sample_settings plain_env plain_kernel ''/srv/link/log'' 2 1 256
      \<lparr>disk = sample_disk ''ab\<newline>c'', schedule = []\<rparr>)
   = Inr \<lparr>rt_path = ''/srv/link/log'', rt_start_line = 2, rt_lines_returned = 1, rt_text = decode_replace ''c'', rt_truncated = False\<rparr>"
proof -
  from sample_file obtain m where "inodes (sample_disk ''ab\<newline>c'') 3 = Some m" "m_node m = Reg ''ab\<newline>c''" by blast
  from read_text_file_window [of "\<lparr>disk = sample_disk ''ab\<newline>c'', schedule = []\<rparr>", OF _ sample_open _ this(2) _ _ _ _ _ _ sample_resolve, of 2 1 256] this(1)
  show ?thesis by (simp add: selected_def sample_bytes byte_lines.simps [of "''c''"] line_end_def path_str_def)
qed

theorem read_text_cuts_line_at_chunk_witness:
  "snd (read_text_file sample_settings plain_env plain_kernel ''/srv/link/log'' 1 1 131072
      \<lparr>disk = sample_disk (replicate 65537 (CHR ''a'')), schedule = []\<rparr>)
   = Inr \<lparr>rt_path = ''/srv/link/log'', rt_start_line = 1, rt_lines_returned = 1,
          rt_text = decode_replace (take 65536 (replicate 65537 (CHR ''a''))), rt_truncated = True\<rparr>"
proof -
  let ?c = "replicate 65537 (CHR ''a'')"
  from sample_file obtain m where "inodes (sample_disk ?c) 3 = Some m" "m_node m = Reg ?c" by blast
  from read_text_cuts_line_at_chunk [of "\<lparr>disk = sample_disk ?c, schedule = []\<rparr>", OF _ sample_open _ this(2) _ _ _ _ sample_resolve, of 131072] this(1)
  show ?thesis by (simp add: path_str_def)
qed

end
