(* ===== verification/File_Write.thy ===== *)
theory File_Write
  imports File_Ops
begin

text \<open>
  \<open>write_text_file\<close> of \<open>src/remote_host_mcp/filesystem.py\<close>: the new content is staged beside the
  destination and committed by a rename; with \<open>expected_sha256\<close> the commit is an exchange, verified
  afterwards on the object it displaced.  \<open>token\<close> is the random suffix of the staging name.
\<close>

subsection \<open>The operation\<close>

text \<open>\<open>while view: written = os.write(fd, view); ...\<close>\<close>

function write_all :: "exn \<Rightarrow> ino \<Rightarrow> bytes \<Rightarrow> unit prog" where
  "write_all short fd view w =
     (if view = [] then (w, Inr ())
      else case do_call (sys_write fd view) w of
        (w', Inl e) \<Rightarrow> (w', Inl e)
      | (w', Inr written) \<Rightarrow> if written = 0 then (w', Inl short) else write_all short fd (drop written view) w')"
  by pat_completeness auto
termination
  by (relation "measure (\<lambda>(e, fd, view, w). length view)") auto

declare write_all.simps [simp del]

definition changed_error :: exn where
  "changed_error = ValueError ''Destination changed during expected_sha256 guarded replacement''"

definition rollback_exchange_if_ours :: "ino \<Rightarrow> string \<Rightarrow> string \<Rightarrow> nat \<times> ino \<Rightarrow> bool prog" where
  "rollback_exchange_if_ours parent tmp dest published =
     bind_prog (lstat_at parent dest) (\<lambda>current.
     bind_prog (lstat_at parent tmp) (\<lambda>temporary.
       case (current, temporary) of
         (Some c, Some t) \<Rightarrow>
           if inode_identity c \<noteq> published then ret False
           else bind_prog (do_call (sys_rename_exchange parent tmp parent dest)) (\<lambda>_.
                bind_prog (do_call (sys_fsync parent)) (\<lambda>_. ret True))
       | _ \<Rightarrow> ret False))"

text \<open>Before the commit: the destination must have the expected digest; its identity is kept.\<close>

definition expected_now :: "(bytes \<Rightarrow> string) \<Rightarrow> ino \<Rightarrow> string \<Rightarrow> string \<Rightarrow> (nat \<times> ino \<times> int \<times> int) prog" where
  "expected_now sha parent name expected =
     bind_prog (do_call (sys_open_nofollow False parent name)) (\<lambda>fd.
     bind_prog (fstat_regular fd ''Destination changed and is not a regular file'') (\<lambda>_.
     bind_prog (hash_fd sha fd) (\<lambda>(digest, _).
     bind_prog (do_call (sys_fstat fd)) (\<lambda>m.
       if digest \<noteq> expected then raise (ValueError ''Destination SHA-256 no longer matches expected_sha256'')
       else ret (content_identity (fd, m))))))"

definition stage_file :: "ino \<Rightarrow> string \<Rightarrow> int \<Rightarrow> bytes \<Rightarrow> (nat \<times> ino) prog" where
  "stage_file parent tmp mode data =
     bind_prog (do_call (sys_create_excl parent tmp mode)) (\<lambda>fd.
     bind_prog (do_call (sys_fchmod fd mode)) (\<lambda>_.
     bind_prog (write_all (OSMessage ''Short write while writing file'') fd data) (\<lambda>_.
     bind_prog (do_call (sys_fsync fd)) (\<lambda>_.
     bind_prog (do_call (sys_fstat fd)) (\<lambda>m. ret (inode_identity (fd, m)))))))"

text \<open>After the exchange: the displaced object, now under the staging name, must be the one that was checked.\<close>

definition verify_displaced :: "(bytes \<Rightarrow> string) \<Rightarrow> ino \<Rightarrow> string \<Rightarrow> string \<Rightarrow> nat \<times> ino \<times> int \<times> int \<Rightarrow> unit prog" where
  "verify_displaced sha parent tmp expected identity =
     bind_prog (lstat_at parent tmp) (\<lambda>old.
       case old of
         None \<Rightarrow> raise changed_error
       | Some entry \<Rightarrow>
           if \<not> is_reg (snd entry) \<or> content_identity entry \<noteq> identity then raise changed_error
           else bind_prog (do_call (sys_open_nofollow False parent tmp)) (\<lambda>fd.
                bind_prog (fstat_regular fd ''Destination changed during guarded replacement'') (\<lambda>m.
                bind_prog (hash_fd sha fd) (\<lambda>(digest, _).
                  if digest \<noteq> expected \<or> content_identity (fd, m) \<noteq> identity then raise changed_error else ret ()))))"

text \<open>The guarded commit yields the outcome together with \<open>preserve_tmp\<close>.\<close>

definition commit_guarded :: "(bytes \<Rightarrow> string) \<Rightarrow> ino \<Rightarrow> string \<Rightarrow> string \<Rightarrow> string \<Rightarrow> nat \<times> ino \<times> int \<times> int \<Rightarrow> nat \<times> ino \<Rightarrow>
    (bool \<times> unit res) prog" where
  "commit_guarded sha parent tmp name expected identity published =
     bind_prog (attempt (do_call (sys_rename_exchange parent tmp parent name))) (\<lambda>r.
       case r of
         Inl e \<Rightarrow>
           ret (False, Inl (if e = OSError ENOENT
                            then ValueError ''Destination disappeared during expected_sha256 guarded replacement'' else e))
       | Inr _ \<Rightarrow>
           bind_prog (attempt (verify_displaced sha parent tmp expected identity)) (\<lambda>v.
             case v of
               Inr _ \<Rightarrow> bind_prog (attempt (do_call (sys_unlink parent tmp))) (\<lambda>u. ret (False, u))
             | Inl e \<Rightarrow>
                 bind_prog (attempt (rollback_exchange_if_ours parent tmp name published)) (\<lambda>rb.
                   case rb of
                     Inl e' \<Rightarrow> ret (False, Inl e')
                   | Inr rolled_back \<Rightarrow> ret (\<not> rolled_back, Inl changed_error))))"

definition commit_replace :: "ino \<Rightarrow> string \<Rightarrow> string \<Rightarrow> (bool \<times> unit res) prog" where
  "commit_replace parent tmp name =
     bind_prog (attempt (do_call (sys_replace parent tmp parent name))) (\<lambda>u. ret (False, u))"

definition commit_new :: "ino \<Rightarrow> string \<Rightarrow> string \<Rightarrow> (bool \<times> unit res) prog" where
  "commit_new parent tmp name =
     bind_prog (attempt (do_call (sys_rename_noreplace parent tmp parent name))) (\<lambda>u.
       ret (False, case u of
         Inl e \<Rightarrow> Inl (if e = OSError EEXIST then ValueError ''Destination appeared during commit and overwrite=false'' else e)
       | Inr x \<Rightarrow> Inr x))"

text \<open>\<open>finally: if not preserve_tmp: os.unlink(tmp_name)\<close>, where only a missing file is ignored.\<close>

definition discard_staged :: "ino \<Rightarrow> string \<Rightarrow> unit prog" where
  "discard_staged parent tmp =
     handle (do_call (sys_unlink parent tmp)) (\<lambda>e. if e = OSError ENOENT then ret () else raise e)"

definition conclude :: "ino \<Rightarrow> string \<Rightarrow> bool \<times> unit res \<Rightarrow> unit prog" where
  "conclude parent tmp po =
     finally_do
       (case snd po of Inl e \<Rightarrow> raise e | Inr _ \<Rightarrow> do_call (sys_fsync parent))
       (if fst po then ret () else discard_staged parent tmp)"

definition publish :: "ino \<Rightarrow> string \<Rightarrow> int \<Rightarrow> bytes \<Rightarrow> (nat \<times> ino \<Rightarrow> (bool \<times> unit res) prog) \<Rightarrow> unit prog" where
  "publish parent tmp mode data commit =
     bind_prog (attempt (stage_file parent tmp mode data)) (\<lambda>s.
       case s of
         Inl e \<Rightarrow> conclude parent tmp (False, Inl e)
       | Inr published \<Rightarrow> bind_prog (commit published) (conclude parent tmp))"

record file_write_result =
  fw_path :: string
  fw_bytes_written :: int
  fw_sha256 :: string
  fw_mode :: string
  fw_replaced :: bool

definition staging_name :: "string \<Rightarrow> string \<Rightarrow> string" where
  "staging_name name token = ''.'' @ name @ ''.rhmcp-write-'' @ token"

definition check_destination :: "(ino \<times> meta) option \<Rightarrow> bool \<Rightarrow> unit prog" where
  "check_destination existing overwrite =
     (case existing of
        None \<Rightarrow> ret ()
      | Some (i, m) \<Rightarrow>
          if is_lnk m then raise (ValueError ''Refusing to write through a symlink destination'')
          else if \<not> is_reg m then raise (ValueError ''Destination exists and is not a regular file'')
          else if \<not> overwrite then raise (ValueError ''Destination exists and overwrite=false'')
          else ret ())"

definition guard_of :: "(nat \<Rightarrow> nat option) \<Rightarrow> (bytes \<Rightarrow> string) \<Rightarrow> ino \<Rightarrow> string \<Rightarrow> bool \<Rightarrow> string option \<Rightarrow>
    (string \<times> nat \<times> ino \<times> int \<times> int) option prog" where
  "guard_of ud sha parent name existed expected_sha256 =
     (case expected_sha256 of
        None \<Rightarrow> ret None
      | Some v \<Rightarrow>
          let expected = slower v in
          if \<not> is_sha256 ud expected then raise (ValueError ''expected_sha256 must be a 64-character hexadecimal SHA-256'')
          else if \<not> existed then raise (ValueError ''expected_sha256 requires an existing destination file'')
          else bind_prog (expected_now sha parent name expected) (\<lambda>identity. ret (Some (expected, identity))))"

definition write_text_file :: "(nat \<Rightarrow> nat option) \<Rightarrow> (bytes \<Rightarrow> string) \<Rightarrow> settings \<Rightarrow> path_env \<Rightarrow> kernel \<Rightarrow> string \<Rightarrow>
    string \<Rightarrow> ustr \<Rightarrow> bool \<Rightarrow> string option \<Rightarrow> int \<Rightarrow> file_write_result prog" where
  "write_text_file ud sha st env k token path content overwrite expected_sha256 mode =
     bind_prog (ensure_mode mode) (\<lambda>_.
     bind_prog (lift_res (encode_utf8 content)) (\<lambda>data.
     bind_prog (open_parent_beneath st env k path) (\<lambda>(parent, name, target).
     bind_prog (lstat_at parent name) (\<lambda>existing.
     bind_prog (check_destination existing overwrite) (\<lambda>_.
     bind_prog (guard_of ud sha parent name (existing \<noteq> None) expected_sha256) (\<lambda>guard.
       let tmp = staging_name name token in
       bind_prog
         (publish parent tmp mode data
            (case guard of
               Some (expected, identity) \<Rightarrow> commit_guarded sha parent tmp name expected identity
             | None \<Rightarrow> if overwrite then (\<lambda>_. commit_replace parent tmp name) else (\<lambda>_. commit_new parent tmp name))) (\<lambda>_.
       ret \<lparr>fw_path = path_str target, fw_bytes_written = int (length data), fw_sha256 = sha data,
            fw_mode = octal4 mode, fw_replaced = (existing \<noteq> None)\<rparr>)))))))"

end
