(* ===== verification/File_Guard.thy ===== *)
theory File_Guard
  imports File_Write
begin

text \<open>
  The guarded replacement of \<^theory_text>\<open>File_Write\<close> is a compare-and-swap on the destination: what the other
  processes may do, what the commit then guarantees, and where it still loses a version.
\<close>

subsection \<open>The other processes\<close>

text \<open>They replace files whole (by a rename or a new file) and leave the staging entry alone.\<close>

definition keeps_staging :: "string \<Rightarrow> fs \<Rightarrow> fs \<Rightarrow> bool" where
  "keeps_staging tmp f g \<longleftrightarrow>
     (\<forall>d. lookup_at g d tmp = lookup_at f d tmp)
     \<and> (\<forall>i. inodes f i \<noteq> None \<longrightarrow> inodes g i \<noteq> None \<and> reg_content g i = reg_content f i)"

definition respectful :: "string \<Rightarrow> tick \<Rightarrow> bool" where
  "respectful tmp t \<longleftrightarrow> (case t of Meanwhile g \<Rightarrow> \<forall>f. keeps_staging tmp f (g f) | Fault e \<Rightarrow> True)"

text \<open>The disk the next call works on.\<close>

definition at_next_call :: "world \<Rightarrow> fs" where
  "at_next_call w = (case schedule w of Meanwhile g # ts \<Rightarrow> g (disk w) | _ \<Rightarrow> disk w)"

lemma keeps_refl [intro]: "keeps_staging tmp f f"
  by (simp add: keeps_staging_def)

lemma keeps_trans: "keeps_staging tmp f g \<Longrightarrow> keeps_staging tmp g h \<Longrightarrow> keeps_staging tmp f h"
  unfolding keeps_staging_def by metis

lemma keepsD:
  assumes "keeps_staging tmp f g"
  shows "lookup_at g d tmp = lookup_at f d tmp" "inodes f i \<noteq> None \<Longrightarrow> reg_content g i = reg_content f i"
    "inodes f i \<noteq> None \<Longrightarrow> inodes g i \<noteq> None"
  using assms by (auto simp: keeps_staging_def)

lemma next_call:
  assumes "do_call c w = (w', Inr x)" "list_all (respectful tmp) (schedule w)"
  shows "c (at_next_call w) = (disk w', Inr x)" "keeps_staging tmp (disk w) (at_next_call w)" "list_all (respectful tmp) (schedule w')"
  using assms by (auto simp: do_call_def at_next_call_def respectful_def split: list.splits tick.splits prod.splits)

text \<open>A call that only looks.\<close>

definition read_only :: "'a call \<Rightarrow> bool" where
  "read_only c \<longleftrightarrow> (\<forall>f. fst (c f) = f)"

lemma read_only_calls [simp]:
  "read_only (sys_fstat i)" "read_only (sys_lstat d n)" "read_only (sys_open_nofollow b d n)"
  "read_only (sys_read_all i)" "read_only (sys_read_at i off k)"
  by (auto simp: read_only_def sys_fstat_def sys_lstat_def sys_open_nofollow_def sys_read_all_def sys_read_at_def sys_error_def
      split: option.splits node.splits prod.splits sum.splits)

lemma look:
  assumes "do_call c w = (w', Inr x)" "list_all (respectful tmp) (schedule w)" "read_only c"
  shows "c (disk w') = (disk w', Inr x)" "keeps_staging tmp (disk w) (disk w')" "list_all (respectful tmp) (schedule w')"
proof -
  note n = next_call [OF assms(1,2)]
  from assms(3) n(1) have "disk w' = at_next_call w" unfolding read_only_def by (metis fst_conv)
  with n show "c (disk w') = (disk w', Inr x)" "keeps_staging tmp (disk w) (disk w')" "list_all (respectful tmp) (schedule w')"
    by simp_all
qed

lemma look_lstat_at:
  assumes "lstat_at d name w = (w', Inr (Some (i, m)))" "list_all (respectful tmp) (schedule w)"
  shows "lookup_at (disk w') d name = Some i" "inodes (disk w') i = Some m"
    "keeps_staging tmp (disk w) (disk w')" "list_all (respectful tmp) (schedule w')"
proof -
  from assms(1) have c: "do_call (sys_lstat d name) w = (w', Inr (i, m))"
    by (auto simp: lstat_at_def prog_Inr split: if_split_asm)
  note l = look [OF c assms(2) read_only_calls(2)]
  from l(1) show "lookup_at (disk w') d name = Some i" "inodes (disk w') i = Some m"
    by (auto simp: sys_lstat_def sys_error_def split: option.splits)
  from l show "keeps_staging tmp (disk w) (disk w')" "list_all (respectful tmp) (schedule w')" by simp_all
qed

lemma reg_content_inode: "reg_content f i = Some c \<Longrightarrow> inodes f i \<noteq> None"
  by (auto simp: reg_content_def split: option.splits)

lemma read_rest_content:
  assumes "read_rest n i off acc w = (w', Inr data)" "list_all (respectful tmp) (schedule w)" "0 < n"
    and "reg_content (disk w) i = Some c"
  shows "data = acc @ drop off c"
  using assms
proof (induction n i off acc w arbitrary: w' data rule: read_rest.induct)
  case (1 n i off acc w)
  obtain w1 x where d: "do_call (sys_read_at i off n) w = (w1, Inr x)"
    using "1.prems"(1) by (subst (asm) read_rest.simps) (auto split: prod.splits sum.splits)
  note l = look [OF d "1.prems"(2) read_only_calls(5)]
  have "inodes (disk w) i \<noteq> None" using "1.prems"(4) by (rule reg_content_inode)
  with l(2) "1.prems"(4) have c: "reg_content (disk w1) i = Some c" by (simp add: keepsD)
  with l(1) have x: "x = take n (drop off c)" by (simp add: sys_read_at_def read_all_reg)
  show ?case
  proof (cases "x = []")
    case True
    with x "1.prems"(3) have "length c \<le> off" by simp
    moreover from True "1.prems"(1) d have "data = acc" by (subst (asm) read_rest.simps) simp
    ultimately show ?thesis by simp
  next
    case False
    from False "1.prems"(1) d have r: "read_rest n i (off + length x) (acc @ x) w1 = (w', Inr data)"
      by (subst (asm) read_rest.simps) simp
    from "1.IH" [OF d [symmetric] refl False r l(3) "1.prems"(3) c] have "data = acc @ x @ drop (off + length x) c" by simp
    moreover have "x @ drop (off + length x) c = drop off c"
      unfolding x by (cases "n \<le> length c - off") (simp_all add: add.commute [of off] flip: drop_drop)
    ultimately show ?thesis by simp
  qed
qed


text \<open>A verified object, as it is on the disk when the verification starts.\<close>

lemma verify_displaced_content:
  assumes "verify_displaced sha parent tmp expected identity w = (w', Inr ())" "list_all (respectful tmp) (schedule w)"
    and "lookup_at (disk w) parent tmp = Some j" "inodes (disk w) j \<noteq> None"
  shows "\<exists>c. reg_content (disk w) j = Some c \<and> sha c = expected \<and> fst (snd identity) = j"
proof -
  from assms(1) obtain w1 i m where l: "lstat_at parent tmp w = (w1, Inr (Some (i, m)))"
    and m: "is_reg m" "content_identity (i, m) = identity"
    and rest: "bind_prog (do_call (sys_open_nofollow False parent tmp)) (\<lambda>fd.
                bind_prog (fstat_regular fd ''Destination changed during guarded replacement'') (\<lambda>m.
                bind_prog (hash_fd sha fd) (\<lambda>(digest, _).
                  if digest \<noteq> expected \<or> content_identity (fd, m) \<noteq> identity then raise changed_error else ret ()))) w1 = (w', Inr ())"
    unfolding verify_displaced_def by (elim bind_progE) (auto simp: raise_Inr split: option.splits if_split_asm)
  note l = look_lstat_at [OF l assms(2)]
  from l(1,3) assms(3) have i: "i = j" by (simp add: keepsD)
  with l m obtain c where "reg_content (disk w1) j = Some c"
    by (auto simp: reg_content_def is_reg_def split: node.splits)
  with l(3) assms(4) have c: "reg_content (disk w) j = Some c" by (simp add: keepsD)
  from rest obtain w2 fd w3 m2 w4 n where
    o: "do_call (sys_open_nofollow False parent tmp) w1 = (w2, Inr fd)" and
    s: "fstat_regular fd ''Destination changed during guarded replacement'' w2 = (w3, Inr m2)" and
    h: "hash_fd sha fd w3 = (w4, Inr (expected, n))"
    by (elim bind_progE) (auto simp: bind_prog_Inr raise_Inr split: prod.splits if_split_asm)
  note lo = look [OF o l(4) read_only_calls(3)]
  have "lookup_at (disk w2) parent tmp = Some j" using lo(2) l(1) i by (simp add: keepsD)
  with lo(1) have fd: "fd = j"
    by (auto simp: sys_open_nofollow_def sys_error_def split: option.splits node.splits)
  from s obtain m3 where "do_call (sys_fstat fd) w2 = (w3, Inr m3)"
    by (auto simp: fstat_regular_def bind_prog_Inr ret_Inr raise_Inr split: if_split_asm)
  note ls = look [OF this lo(3) read_only_calls(1)]
  have "keeps_staging tmp (disk w) (disk w3)" by (rule keeps_trans [OF keeps_trans [OF l(3) lo(2)] ls(2)])
  with c assms(4) have c3: "reg_content (disk w3) j = Some c" by (simp add: keepsD)
  from h obtain data where "read_rest 1048576 fd 0 [] w3 = (w4, Inr data)" "expected = sha data"
    by (auto simp: hash_fd_def bind_prog_Inr ret_Inr)
  with read_rest_content [OF this(1) ls(3) _ c3 [folded fd]] have "expected = sha c" by simp
  with c m(2) i show ?thesis by (auto simp: content_identity_def)
qed


subsection \<open>One racing writer\<close>

lemma quiet_lstat_at:
  "schedule w = [] \<Longrightarrow> lookup_at (disk w) d n = Some i \<Longrightarrow> inodes (disk w) i = Some m \<Longrightarrow> lstat_at d n w = (w, Inr (Some (i, m)))"
  by (simp add: lstat_at_def prog_defs quiet_call sys_lstat_def)

lemma quiet_open:
  "schedule w = [] \<Longrightarrow> lookup_at (disk w) d n = Some i \<Longrightarrow> reg_content (disk w) i = Some c \<Longrightarrow>
   do_call (sys_open_nofollow False d n) w = (w, Inr i)"
  by (rule quiet_call) (auto simp: sys_open_nofollow_def reg_content_def split: option.splits node.splits)

lemma quiet_read_rest:
  "schedule w = [] \<Longrightarrow> reg_content (disk w) i = Some c \<Longrightarrow> 0 < n \<Longrightarrow> read_rest n i off acc w = (w, Inr (acc @ drop off c))"
proof (induction "length c - off" arbitrary: off acc rule: less_induct)
  case less
  have d: "do_call (sys_read_at i off n) w = (w, Inr (take n (drop off c)))"
    using less.prems by (intro quiet_call) (simp_all add: sys_read_at_def read_all_reg)
  show ?case
  proof (cases "length c \<le> off")
    case True
    with d show ?thesis by (subst read_rest.simps) simp
  next
    case False
    let ?x = "take n (drop off c)"
    have "?x \<noteq> []" using False less.prems(3) by simp
    moreover from this have "read_rest n i (off + length ?x) (acc @ ?x) w = (w, Inr ((acc @ ?x) @ drop (off + length ?x) c))"
      using less.prems False by (intro less.hyps) (auto simp: min_def)
    moreover have "?x @ drop (off + length ?x) c = drop off c"
      by (cases "n \<le> length c - off") (simp_all add: add.commute [of off] flip: drop_drop)
    ultimately show ?thesis using d by (subst read_rest.simps) simp
  qed
qed

lemma quiet_hash: "schedule w = [] \<Longrightarrow> reg_content (disk w) i = Some c \<Longrightarrow> hash_fd sha i w = (w, Inr (sha c, int (length c)))"
  by (simp add: hash_fd_def prog_defs quiet_read_rest)

lemma reg_contentI: "inodes f i = Some m \<Longrightarrow> m_node m = Reg c \<Longrightarrow> reg_content f i = Some c"
  by (simp add: reg_content_def)

lemma quiet_verify:
  assumes "schedule w = []" "lookup_at (disk w) parent tmp = Some j" "inodes (disk w) j = Some m" "m_node m = Reg c"
  shows "verify_displaced sha parent tmp expected identity w
    = (w, if content_identity (j, m) = identity \<and> sha c = expected then Inr () else Inl changed_error)"
proof -
  note c = reg_contentI [OF assms(3,4)]
  note steps = quiet_lstat_at [OF assms(1-3)] quiet_open [OF assms(1,2) c] fstat_regular_quiet [OF assms(1,3,4)] quiet_hash [OF assms(1) c, of sha]
  have "is_reg m" using assms(4) by (simp add: is_reg_def)
  then show ?thesis
    by (simp add: verify_displaced_def prog_defs steps)
qed

lemma exchange_plain:
  assumes "lookup_at f d a = Some i" "lookup_at f d b = Some j" "entries f i = None" "entries f j = None"
  shows "sys_rename_exchange d a d b f = (set_entry d b i (set_entry d a j f), Inr ())"
proof -
  have "entries f d \<noteq> None" using assms(1) by (rule lookup_entries)
  then have "i \<noteq> d" "j \<noteq> d" using assms(3,4) by auto
  with assms show ?thesis by (simp add: sys_rename_exchange_def contains_dir_plain)
qed

lemma commit_one_race:
  assumes "schedule w = [Meanwhile g]" "lookup_at (g (disk w)) parent tmp = Some new" "reg_content (g (disk w)) new = Some data"
    and "published = (dev_of (g (disk w)) new, new)" "tmp \<noteq> name"
    and "lookup_at (g (disk w)) parent name = Some j" "inodes (g (disk w)) j = Some m" "m_node m = Reg c" "j \<noteq> new"
  shows "\<exists>f. commit_guarded sha parent tmp name expected identity published w
      = (\<lparr>disk = f, schedule = []\<rparr>, Inr (False, if content_identity (j, m) = identity \<and> sha c = expected then Inr () else Inl changed_error))
    \<and> reg_content f new = Some data \<and> reg_content f j = Some c
    \<and> lookup_at f parent = (if content_identity (j, m) = identity \<and> sha c = expected
        then (lookup_at (g (disk w)) parent)(name \<mapsto> new, tmp := None) else lookup_at (g (disk w)) parent)"
proof -
  let ?f = "g (disk w)"
  let ?f1 = "set_entry parent name new (set_entry parent tmp j ?f)"
  let ?f2 = "set_entry parent name j (set_entry parent tmp new ?f1)"
  let ?w1 = "\<lparr>disk = ?f1, schedule = []\<rparr>"
  let ?ok = "content_identity (j, m) = identity \<and> sha c = expected"
  note rj = reg_contentI [OF assms(7,8)]
  note ej = reg_no_entries [OF rj] reg_no_entries [OF assms(3)]
  have ep: "entries ?f parent \<noteq> None" using assms(2) by (rule lookup_entries)
  then have ne: "parent \<noteq> j" "parent \<noteq> new" using ej by auto
  have x: "do_call (sys_rename_exchange parent tmp parent name) w = (?w1, Inr ())"
    using assms(1) exchange_plain [OF assms(2,6) ej(2,1)] by (simp add: do_call_def)
  obtain mn where mn: "inodes ?f new = Some mn" "m_node mn = Reg data"
    using assms(3) by (auto simp: reg_content_def split: option.splits node.splits)
  have l1: "lookup_at ?f1 parent tmp = Some j" "lookup_at ?f1 parent name = Some new"
    using ep assms(5) by (simp_all add: lookup_set_entry)
  have i1: "inodes ?f1 j = Some m" "inodes ?f1 new = Some mn"
    using ne ej assms(7) mn(1) by (simp_all add: inodes_set_entry)
  have v: "verify_displaced sha parent tmp expected identity ?w1 = (?w1, if ?ok then Inr () else Inl changed_error)"
    using quiet_verify [of ?w1] l1 i1 assms(8) by simp
  show ?thesis
  proof (cases ?ok)
    case True
    have "sys_unlink parent tmp ?f1 = (drop_entry parent tmp ?f1, Inr ())"
      using l1(1) i1(1) assms(8) by (simp add: sys_unlink_def sys_lstat_def is_dir_def)
    then have "commit_guarded sha parent tmp name expected identity published w
        = (\<lparr>disk = drop_entry parent tmp ?f1, schedule = []\<rparr>, Inr (False, Inr ()))"
      using True x v by (simp add: commit_guarded_def prog_defs attempt_def do_call_def [of "sys_unlink parent tmp"])
    moreover have "lookup_at (drop_entry parent tmp ?f1) parent = (lookup_at ?f parent)(name \<mapsto> new, tmp := None)"
      using ep assms(5) by (auto simp: lookup_drop_entry lookup_set_entry fun_eq_iff)
    ultimately show ?thesis using True assms(3) rj by simp
  next
    case False
    have e1: "entries ?f1 j = None" "entries ?f1 new = None" using ej ne by simp_all
    note v = v [unfolded if_not_P [OF False]]
    have "do_call (sys_rename_exchange parent tmp parent name) ?w1 = (\<lparr>disk = ?f2, schedule = []\<rparr>, Inr ())"
      using exchange_plain [OF l1 e1] by (simp add: do_call_def)
    moreover have "inode_identity (new, mn) = published" using assms(4) mn(1) by (simp add: inode_identity_def dev_of_def)
    moreover have "lstat_at parent name ?w1 = (?w1, Inr (Some (new, mn)))" "lstat_at parent tmp ?w1 = (?w1, Inr (Some (j, m)))"
      using l1 i1 by (simp_all add: quiet_lstat_at)
    moreover have "do_call (sys_fsync parent) \<lparr>disk = ?f2, schedule = []\<rparr> = (\<lparr>disk = ?f2, schedule = []\<rparr>, Inr ())"
      by (simp add: do_call_def sys_fsync_def)
    ultimately have "rollback_exchange_if_ours parent tmp name published ?w1 = (\<lparr>disk = ?f2, schedule = []\<rparr>, Inr True)"
      by (simp add: rollback_exchange_if_ours_def prog_defs)
    with False x v have "commit_guarded sha parent tmp name expected identity published w
        = (\<lparr>disk = ?f2, schedule = []\<rparr>, Inr (False, Inl changed_error))"
      by (simp add: commit_guarded_def prog_defs attempt_def)
    moreover have "lookup_at ?f2 parent = lookup_at ?f parent"
      using ep assms(2,5,6) by (auto simp: lookup_set_entry fun_eq_iff)
    ultimately show ?thesis using False assms(3) rj by simp
  qed
qed

text \<open>Compare-and-swap against one racing writer: whatever another process does to the disk between the check
  and the exchange, if the destination is then still the file that was checked the new content is published under
  its name and the staging entry disappears; if it is any other regular file, the write fails and the directory
  is exactly as that process left it.\<close>

theorem guarded_commit_race:
  assumes "schedule w = [Meanwhile g]" "lookup_at (g (disk w)) parent tmp = Some new" "reg_content (g (disk w)) new = Some data"
    and "published = (dev_of (g (disk w)) new, new)" "tmp \<noteq> name"
    and "lookup_at (g (disk w)) parent name = Some j" "inodes (g (disk w)) j = Some m" "m_node m = Reg c" "j \<noteq> new"
  shows "\<exists>f. commit_guarded sha parent tmp name expected identity published w
      = (\<lparr>disk = f, schedule = []\<rparr>, Inr (False, if content_identity (j, m) = identity \<and> sha c = expected then Inr () else Inl changed_error))
    \<and> reg_content f new = Some data \<and> reg_content f j = Some c
    \<and> lookup_at f parent = (if content_identity (j, m) = identity \<and> sha c = expected
        then (lookup_at (g (disk w)) parent)(name \<mapsto> new, tmp := None) else lookup_at (g (disk w)) parent)"
  using assms by (rule commit_one_race)

subsection \<open>Where a version is lost\<close>

lemma tick_call: "schedule w = Meanwhile g # ts \<Longrightarrow> c (g (disk w)) = (f, r) \<Longrightarrow> do_call c w = (\<lparr>disk = f, schedule = ts\<rparr>, r)"
  by (simp add: do_call_def)

lemma tick_lstat_at:
  "lookup_at f d n = Some i \<Longrightarrow> inodes f i = Some m \<Longrightarrow>
   lstat_at d n \<lparr>disk = f, schedule = Meanwhile (\<lambda>f. f) # ts\<rparr> = (\<lparr>disk = f, schedule = ts\<rparr>, Inr (Some (i, m)))"
  by (simp add: lstat_at_def prog_defs do_call_def sys_lstat_def)

text \<open>When a racing writer replaced the destination and a third process removes the name between the checks
  of the roll-back and its exchange, the roll-back raises instead of answering that it did not happen, the staging
  entry is not preserved, and the clean-up unlinks it although it holds the racing writer's version.\<close>

theorem guarded_commit_loses_version:
  assumes "schedule w = [Meanwhile g, Meanwhile (\<lambda>f. f), Meanwhile (\<lambda>f. f), Meanwhile (\<lambda>f. f), Meanwhile (drop_entry parent name)]"
    and "lookup_at (g (disk w)) parent tmp = Some new" "reg_content (g (disk w)) new = Some data"
    and "published = (dev_of (g (disk w)) new, new)" "tmp \<noteq> name"
    and "lookup_at (g (disk w)) parent name = Some j" "inodes (g (disk w)) j = Some m" "m_node m = Reg c" "j \<noteq> new"
    and "content_identity (j, m) \<noteq> identity"
  shows "\<exists>f. bind_prog (commit_guarded sha parent tmp name expected identity published) (conclude parent tmp) w
      = (\<lparr>disk = f, schedule = []\<rparr>, Inl (OSError ENOENT))
    \<and> lookup_at f parent = (lookup_at (g (disk w)) parent)(name := None, tmp := None)"
proof -
  let ?f = "g (disk w)" and ?id = "Meanwhile (\<lambda>f. f)"
  let ?f1 = "set_entry parent name new (set_entry parent tmp j ?f)"
  let ?f2 = "drop_entry parent name ?f1" and ?f3 = "drop_entry parent tmp (drop_entry parent name ?f1)"
  note rj = reg_contentI [OF assms(7,8)]
  note ej = reg_no_entries [OF rj] reg_no_entries [OF assms(3)]
  have ep: "entries ?f parent \<noteq> None" using assms(2) by (rule lookup_entries)
  then have ne: "parent \<noteq> j" "parent \<noteq> new" using ej by auto
  obtain mn where mn: "inodes ?f new = Some mn" using reg_content_inode [OF assms(3)] by blast
  have l1: "lookup_at ?f1 parent tmp = Some j" "lookup_at ?f1 parent name = Some new"
    using ep assms(5) by (simp_all add: lookup_set_entry)
  have i1: "inodes ?f1 j = Some m" "inodes ?f1 new = Some mn"
    using ne ej assms(7) mn by (simp_all add: inodes_set_entry)
  have x: "do_call (sys_rename_exchange parent tmp parent name) w
      = (\<lparr>disk = ?f1, schedule = [?id, ?id, ?id, Meanwhile (drop_entry parent name)]\<rparr>, Inr ())"
    using assms(1) exchange_plain [OF assms(2,6) ej(2,1)] by (rule tick_call)
  have v: "verify_displaced sha parent tmp expected identity \<lparr>disk = ?f1, schedule = [?id, ?id, ?id, Meanwhile (drop_entry parent name)]\<rparr>
      = (\<lparr>disk = ?f1, schedule = [?id, ?id, Meanwhile (drop_entry parent name)]\<rparr>, Inl changed_error)"
    using tick_lstat_at [OF l1(1) i1(1)] assms(10) by (simp add: verify_displaced_def prog_defs)
  have "inode_identity (new, mn) = published" using assms(4) mn by (simp add: inode_identity_def dev_of_def)
  moreover have "do_call (sys_rename_exchange parent tmp parent name) \<lparr>disk = ?f1, schedule = [Meanwhile (drop_entry parent name)]\<rparr>
      = (\<lparr>disk = ?f2, schedule = []\<rparr>, Inl (OSError ENOENT))"
    using l1 assms(5) by (intro tick_call [OF _ trans])
      (auto simp: sys_rename_exchange_def sys_error_def lookup_drop_entry split: option.splits)
  ultimately have r: "rollback_exchange_if_ours parent tmp name published \<lparr>disk = ?f1, schedule = [?id, ?id, Meanwhile (drop_entry parent name)]\<rparr>
      = (\<lparr>disk = ?f2, schedule = []\<rparr>, Inl (OSError ENOENT))"
    using tick_lstat_at [OF l1(2) i1(2)] tick_lstat_at [OF l1(1) i1(1)]
    by (simp add: rollback_exchange_if_ours_def prog_defs)
  have e2: "entries ?f1 j = None" using ej ne by simp
  have "lookup_at ?f2 parent tmp = Some j" "inodes ?f2 j = Some m"
    using l1 i1 assms(5) inodes_drop_entry [OF e2] by (simp_all add: lookup_drop_entry)
  then have "do_call (sys_unlink parent tmp) \<lparr>disk = ?f2, schedule = []\<rparr> = (\<lparr>disk = ?f3, schedule = []\<rparr>, Inr ())"
    using assms(8) by (simp add: do_call_def sys_unlink_def sys_lstat_def is_dir_def)
  with x v r have "bind_prog (commit_guarded sha parent tmp name expected identity published) (conclude parent tmp) w
      = (\<lparr>disk = ?f3, schedule = []\<rparr>, Inl (OSError ENOENT))"
    by (simp add: commit_guarded_def conclude_def discard_staged_def prog_defs attempt_def)
  moreover have "lookup_at ?f3 parent = (lookup_at ?f parent)(name := None, tmp := None)"
    using ep by (auto simp: lookup_drop_entry lookup_set_entry fun_eq_iff)
  ultimately show ?thesis by blast
qed

subsection \<open>The properties at concrete inputs\<close>

text \<open>A directory with the destination \<open>a\<close>, the staged file and a third file another process is about to rename.\<close>

definition race_disk :: fs where
  "race_disk =
     \<lparr>inodes = [7 \<mapsto> file_meta (Dir [(''a'', 2), (''.a.t'', 3)]), 2 \<mapsto> file_meta (Reg ''old''),
                3 \<mapsto> file_meta (Reg ''new''), 4 \<mapsto> file_meta (Reg ''theirs'')],
      fresh_ino = 8, fs_now = 10\<rparr>"

lemma race_facts:
  "lookup_at race_disk 7 ''a'' = Some 2" "lookup_at race_disk 7 ''.a.t'' = Some 3"
  "inodes race_disk 2 = Some (file_meta (Reg ''old''))" "inodes race_disk 4 = Some (file_meta (Reg ''theirs''))"
  "reg_content race_disk 2 = Some ''old''" "reg_content race_disk 3 = Some ''new''" "dev_of race_disk 3 = 1"
  "entries race_disk 4 = None" "entries race_disk 7 = Some [(''a'', 2), (''.a.t'', 3)]"
  by (simp_all add: race_disk_def file_meta_def lookup_at_def entries_def reg_content_def dev_of_def)

lemma raced_facts:
  "lookup_at (set_entry 7 ''a'' 4 race_disk) 7 ''a'' = Some 4" "lookup_at (set_entry 7 ''a'' 4 race_disk) 7 ''.a.t'' = Some 3"
  "inodes (set_entry 7 ''a'' 4 race_disk) 4 = Some (file_meta (Reg ''theirs''))"
  "reg_content (set_entry 7 ''a'' 4 race_disk) 3 = Some ''new''" "dev_of (set_entry 7 ''a'' 4 race_disk) 3 = 1"
  by (simp_all add: race_facts lookup_set_entry inodes_set_entry)

theorem guarded_commit_race_witness:
  "snd (commit_guarded (\<lambda>c. c) 7 ''.a.t'' ''a'' ''old'' (1, 2, 3, 5) (1, 3)
      \<lparr>disk = race_disk, schedule = [Meanwhile (set_entry 7 ''a'' 4)]\<rparr>) = Inr (False, Inl changed_error)"
  using guarded_commit_race [of "\<lparr>disk = race_disk, schedule = [Meanwhile (set_entry 7 ''a'' 4)]\<rparr>" "set_entry 7 ''a'' 4" 7 "''.a.t''" 3
      "''new''" "(1, 3)" "''a''" 4 "file_meta (Reg ''theirs'')" "''theirs''" "\<lambda>c. c" "''old''" "(1, 2, 3, 5)"]
  by (auto simp: raced_facts race_facts file_meta_def content_identity_def)

theorem guarded_commit_loses_version_witness:
  "snd (bind_prog (commit_guarded (\<lambda>c. c) 7 ''.a.t'' ''a'' ''old'' (1, 2, 3, 5) (1, 3)) (conclude 7 ''.a.t'')
      \<lparr>disk = race_disk, schedule = [Meanwhile (set_entry 7 ''a'' 4), Meanwhile (\<lambda>f. f), Meanwhile (\<lambda>f. f), Meanwhile (\<lambda>f. f),
         Meanwhile (drop_entry 7 ''a'')]\<rparr>) = Inl (OSError ENOENT)"
  using guarded_commit_loses_version [of "\<lparr>disk = race_disk, schedule = [Meanwhile (set_entry 7 ''a'' 4), Meanwhile (\<lambda>f. f),
        Meanwhile (\<lambda>f. f), Meanwhile (\<lambda>f. f), Meanwhile (drop_entry 7 ''a'')]\<rparr>" "set_entry 7 ''a'' 4" 7 "''a''" "''.a.t''" 3
      "''new''" "(1, 3)" 4 "file_meta (Reg ''theirs'')" "''theirs''" "(1, 2, 3, 5)" "\<lambda>c. c" "''old''"]
  by (auto simp: raced_facts race_facts file_meta_def content_identity_def)

lemma sample_commit:
  "\<exists>f. commit_guarded (\<lambda>c. c) 7 ''.a.t'' ''a'' ''old'' (1, 2, 3, 5) (1, 3) \<lparr>disk = race_disk, schedule = [Meanwhile (\<lambda>f. f)]\<rparr>
    = (\<lparr>disk = f, schedule = []\<rparr>, Inr (False, Inr ()))"
  using commit_one_race [of "\<lparr>disk = race_disk, schedule = [Meanwhile (\<lambda>f. f)]\<rparr>" "\<lambda>f. f" 7 "''.a.t''" 3
      "''new''" "(1, 3)" "''a''" 2 "file_meta (Reg ''old'')" "''old''" "\<lambda>c. c" "''old''" "(1, 2, 3, 5)"]
  by (auto simp: race_facts file_meta_def content_identity_def st_size_def)


end
