(* ===== verification/File_Tree.thy ===== *)
theory File_Tree
  imports File_Write
begin

text \<open>
  The directory operations of \<open>src/remote_host_mcp/filesystem.py\<close>: \<open>make_directory\<close>, \<open>move_path\<close>,
  \<open>copy_path\<close>, \<open>remove_path\<close> and \<open>chmod_path\<close>.  The argument \<open>depth\<close> of the recursive ones is what is left of
  Python's recursion limit.
\<close>

record path_action_result =
  pa_action :: string
  pa_path :: string
  pa_destination :: "string option"

definition done_action :: "string \<Rightarrow> path \<Rightarrow> path option \<Rightarrow> path_action_result" where
  "done_action action p d = \<lparr>pa_action = action, pa_path = path_str p, pa_destination = map_option path_str d\<rparr>"

definition fsync_both :: "ino \<Rightarrow> ino \<Rightarrow> unit prog" where
  "fsync_both dst src = bind_prog (do_call (sys_fsync dst)) (\<lambda>_. do_call (sys_fsync src))"

subsection \<open>\<open>make_directory\<close>\<close>

fun make_parts :: "bool \<Rightarrow> bool \<Rightarrow> int \<Rightarrow> ino \<Rightarrow> string list \<Rightarrow> unit prog" where
  "make_parts parents exist_ok mode cur [] = ret ()"
| "make_parts parents exist_ok mode cur (c # cs) =
     bind_prog
       (if \<not> parents \<and> cs \<noteq> [] then do_call (sys_open_nofollow True cur c)
        else
          bind_prog
            (handle (bind_prog (do_call (sys_mkdir cur c (if cs = [] then mode else 493))) (\<lambda>_. ret True))
               (\<lambda>e. if e = OSError EEXIST then (if cs = [] \<and> \<not> exist_ok then raise e else ret False) else raise e))
            (\<lambda>created.
          bind_prog (do_call (sys_open_nofollow True cur c)) (\<lambda>nxt.
          bind_prog (if cs = [] \<and> created then do_call (sys_fchmod nxt mode) else ret ()) (\<lambda>_. ret nxt))))
       (\<lambda>nxt. make_parts parents exist_ok mode nxt cs)"

definition root_for_lexical :: "settings \<Rightarrow> ppath \<Rightarrow> (path \<times> path) res" where
  "root_for_lexical st p =
     (case find (\<lambda>root. fst p = 1 \<and> under_root root (snd p)) (allowed_roots st) of
        Some root \<Rightarrow> Inr (root, drop (length root) (snd p))
      | None \<Rightarrow> Inl (ValueError ''Path is outside RHMCP_ALLOWED_ROOTS''))"

definition make_directory :: "settings \<Rightarrow> path_env \<Rightarrow> string \<Rightarrow> bool \<Rightarrow> bool \<Rightarrow> int \<Rightarrow> path_action_result prog" where
  "make_directory st env path parents exist_ok mode =
     bind_prog (ensure_mode mode) (\<lambda>_.
     bind_prog (lift_res (expanduser env path)) (\<lambda>x.
       let target = normpath (parse_path x) in
       bind_prog (check (fst target \<noteq> 0) ''Path must be absolute'') (\<lambda>_.
       bind_prog (lift_res (root_for_lexical st target)) (\<lambda>(root, parts).
         if parts = [] then
           (if exist_ok then ret (done_action ''mkdir'' root None) else raise (OSMessage (path_str root)))
         else
           bind_prog (do_call (sys_open_path root True False)) (\<lambda>root_fd.
           bind_prog (make_parts parents exist_ok mode root_fd parts) (\<lambda>_.
             ret (done_action ''mkdir'' (snd target) None)))))))"

subsection \<open>Removing\<close>

primrec remove_tree_at :: "nat \<Rightarrow> ino \<Rightarrow> string \<Rightarrow> unit prog" where
  "remove_tree_at 0 = (\<lambda>d name. raise RecursionError)"
| "remove_tree_at (Suc depth) =
     (\<lambda>d name. bind_prog (do_call (sys_lstat d name)) (\<lambda>(i, m).
        if is_lnk m \<or> \<not> is_dir m then do_call (sys_unlink d name)
        else
          bind_prog (do_call (sys_open_nofollow True d name)) (\<lambda>child.
          bind_prog (do_call (sys_listdir child)) (\<lambda>names.
          bind_prog (for_each (remove_tree_at depth child) names) (\<lambda>_.
            do_call (sys_rmdir d name))))))"

definition remove_path :: "nat \<Rightarrow> settings \<Rightarrow> path_env \<Rightarrow> kernel \<Rightarrow> string \<Rightarrow> bool \<Rightarrow> path_action_result prog" where
  "remove_path depth st env k path recursive =
     bind_prog (lift_res (expanduser env path)) (\<lambda>x.
       let target = normpath (parse_path x) in
       bind_prog (reject_root_removal st target) (\<lambda>_.
       bind_prog (open_parent_beneath st env k (ppath_str target)) (\<lambda>(parent, name, normalized).
       bind_prog (lstat_at parent name) (\<lambda>item.
         case item of
           None \<Rightarrow> raise (ValueError ''Path does not exist'')
         | Some (i, m) \<Rightarrow>
             bind_prog
               (if is_dir m \<and> \<not> is_lnk m
                then (if recursive then remove_tree_at depth parent name else do_call (sys_rmdir parent name))
                else do_call (sys_unlink parent name)) (\<lambda>_.
             bind_prog (do_call (sys_fsync parent)) (\<lambda>_.
               ret (done_action ''remove'' normalized None)))))))"

subsection \<open>\<open>move_path\<close>\<close>

definition cross_device_error :: exn where
  "cross_device_error = ValueError ''Secure cross-filesystem move is not supported; copy then remove explicitly''"

text \<open>The exchange over an existing destination, and the removal of what it displaced.\<close>

definition move_exchange :: "nat \<Rightarrow> ino \<Rightarrow> string \<Rightarrow> ino \<Rightarrow> string \<Rightarrow> nat \<times> ino \<Rightarrow> nat \<times> ino \<Rightarrow> unit prog" where
  "move_exchange depth src_fd src_name dst_fd dst_name src_inode dst_inode =
     (let swap = do_call (sys_rename_exchange src_fd src_name dst_fd dst_name) in
      bind_prog (handle swap (\<lambda>e. if e = OSError EXDEV then raise cross_device_error else raise e)) (\<lambda>_.
      bind_prog (lstat_at src_fd src_name) (\<lambda>exchanged_old.
        if (case exchanged_old of None \<Rightarrow> True | Some x \<Rightarrow> inode_identity x \<noteq> dst_inode)
        then
          bind_prog (lstat_at dst_fd dst_name) (\<lambda>current_dst.
          bind_prog (lstat_at src_fd src_name) (\<lambda>current_src.
          bind_prog
            (case (current_dst, current_src) of
               (Some d, Some s) \<Rightarrow>
                 if inode_identity d = src_inode then bind_prog swap (\<lambda>_. fsync_both dst_fd src_fd) else ret ()
             | _ \<Rightarrow> ret ()) (\<lambda>_.
            raise (ValueError ''Destination changed during move commit''))))
        else
          on_error (remove_tree_at depth src_fd src_name)
            (\<lambda>e.
              bind_prog (lstat_at dst_fd dst_name) (\<lambda>current_dst.
              bind_prog (lstat_at src_fd src_name) (\<lambda>current_src.
              bind_prog
                (case (current_dst, current_src) of
                   (Some d, Some s) \<Rightarrow>
                     if inode_identity d = src_inode \<and> inode_identity s = dst_inode
                     then bind_prog swap (\<lambda>_. fsync_both dst_fd src_fd) else ret ()
                 | _ \<Rightarrow> ret ()) (\<lambda>_. raise e))))
            (\<lambda>_. fsync_both dst_fd src_fd))))"

definition refuse_nonempty :: "ino \<Rightarrow> string \<Rightarrow> unit prog" where
  "refuse_nonempty d name =
     bind_prog (do_call (sys_open_nofollow True d name)) (\<lambda>fd.
     bind_prog (do_call (sys_listdir fd)) (\<lambda>names.
       check (names = []) ''Refusing to overwrite a non-empty destination directory''))"

definition move_over :: "nat \<Rightarrow> bool \<Rightarrow> ino \<Rightarrow> string \<Rightarrow> ino \<times> meta \<Rightarrow> ino \<Rightarrow> string \<Rightarrow> (ino \<times> meta) option \<Rightarrow> unit prog" where
  "move_over depth overwrite src_fd src_name src_stat dst_fd dst_name dst_stat =
     (case dst_stat of
        None \<Rightarrow> raise (ValueError ''Destination changed during move'')
      | Some old \<Rightarrow>
          bind_prog (check overwrite ''Destination exists and overwrite=false'') (\<lambda>_.
          bind_prog (check (is_dir (snd old) = is_dir (snd src_stat)) ''Source and destination types are incompatible'') (\<lambda>_.
          bind_prog (if is_dir (snd old) then refuse_nonempty dst_fd dst_name else ret ()) (\<lambda>_.
            move_exchange depth src_fd src_name dst_fd dst_name (inode_identity src_stat) (inode_identity old)))))"

definition move_path :: "nat \<Rightarrow> settings \<Rightarrow> path_env \<Rightarrow> kernel \<Rightarrow> string \<Rightarrow> string \<Rightarrow> bool \<Rightarrow> path_action_result prog" where
  "move_path depth st env k source destination overwrite =
     bind_prog (open_parent_beneath st env k source) (\<lambda>(src_fd, src_name, src_path).
     bind_prog (lstat_at src_fd src_name) (\<lambda>src.
       case src of
         None \<Rightarrow> raise (ValueError ''Source does not exist'')
       | Some src_stat \<Rightarrow>
           bind_prog (open_parent_beneath st env k destination) (\<lambda>(dst_fd, dst_name, dst_path).
             let result = ret (done_action ''move'' src_path (Some dst_path)) in
             if src_path = dst_path then result
             else
               bind_prog (lstat_at dst_fd dst_name) (\<lambda>dst_stat.
                 if dst_stat = None
                 then
                   on_error
                     (bind_prog (do_call (sys_rename_noreplace src_fd src_name dst_fd dst_name)) (\<lambda>_. fsync_both dst_fd src_fd))
                     (\<lambda>e.
                       if e = OSError EXDEV then raise cross_device_error
                       else if e \<noteq> OSError EEXIST then raise e
                       else
                         bind_prog (lstat_at dst_fd dst_name) (\<lambda>dst_stat.
                         bind_prog (move_over depth overwrite src_fd src_name src_stat dst_fd dst_name dst_stat) (\<lambda>_. result)))
                     (\<lambda>_. result)
                 else bind_prog (move_over depth overwrite src_fd src_name src_stat dst_fd dst_name dst_stat) (\<lambda>_. result)))))"

subsection \<open>\<open>copy_path\<close>\<close>

lemma sys_write_size:
  "sys_write d v f = (f', Inr n) \<Longrightarrow> s \<noteq> d \<Longrightarrow> size_of s f' = size_of s f"
  by (auto simp: sys_write_def size_of_def sys_read_all_def sys_error_def inodes_set_node split: option.splits node.splits)

lemma write_all_size:
  assumes "write_all e d v w = (w', Inr x)" "s \<noteq> d"
  shows "length (schedule w') < length (schedule w) \<or> length (schedule w') = length (schedule w) \<and> size_of s (disk w') = size_of s (disk w)"
  using assms
proof (induction e d v w rule: write_all.induct)
  case (1 e d v w)
  show ?case
  proof (cases "v = []")
    case True
    with "1.prems" show ?thesis by (simp add: write_all.simps [of _ _ "[]"])
  next
    case False
    with "1.prems" obtain w1 n where d: "do_call (sys_write d v) w = (w1, Inr n)" "n \<noteq> 0"
      "write_all e d (drop n v) w1 = (w', Inr x)"
      by (subst (asm) write_all.simps) (auto split: prod.splits sum.splits if_split_asm)
    from "1.IH" [OF False d(1) [symmetric] refl d(2,3) "1.prems"(2)] do_call_schedule [OF d(1)] sys_write_size [OF _ "1.prems"(2)]
    show ?thesis by fastforce
  qed
qed

text \<open>The loop over 1 MiB chunks: read from the source at \<open>off\<close>, write all of it.  The destination was created
  with \<open>O_EXCL\<close>, so it is never the source; copying a file onto itself would not end, and the guard only
  makes the function total.\<close>

function copy_bytes :: "ino \<Rightarrow> ino \<Rightarrow> nat \<Rightarrow> unit prog" where
  "copy_bytes src dst off w =
     (if src = dst then (w, Inl (OSError EIO))
      else case do_call (sys_read_at src off 1048576) w of
        (w1, Inl e) \<Rightarrow> (w1, Inl e)
      | (w1, Inr chunk) \<Rightarrow>
          if chunk = [] then (w1, Inr ())
          else (case write_all (OSMessage ''Short write while copying file'') dst chunk w1 of
              (w2, Inl e) \<Rightarrow> (w2, Inl e)
            | (w2, Inr _) \<Rightarrow> copy_bytes src dst (off + length chunk) w2))"
  by pat_completeness auto
termination
  by (relation "measures [\<lambda>(src, dst, off, w). length (schedule w), \<lambda>(src, dst, off, w). size_of src (disk w) - off]")
    (auto dest!: read_at_le [OF sym] write_all_size [OF sym])

declare copy_bytes.simps [simp del]

definition copy_file_at :: "ino \<Rightarrow> string \<Rightarrow> ino \<Rightarrow> string \<Rightarrow> int \<Rightarrow> unit prog" where
  "copy_file_at src_parent src_name dst_parent dst_name mode =
     bind_prog (do_call (sys_open_nofollow False src_parent src_name)) (\<lambda>src_fd.
     bind_prog (fstat_regular src_fd ''Source changed and is not a regular file'') (\<lambda>_.
     bind_prog (do_call (sys_create_excl dst_parent dst_name mode)) (\<lambda>dst_fd.
     bind_prog (copy_bytes src_fd dst_fd 0) (\<lambda>_.
     bind_prog (do_call (sys_fchmod dst_fd mode)) (\<lambda>_. do_call (sys_fsync dst_fd))))))"

primrec copy_tree_at :: "nat \<Rightarrow> ino \<Rightarrow> string \<Rightarrow> ino \<Rightarrow> string \<Rightarrow> unit prog" where
  "copy_tree_at 0 = (\<lambda>sp sn dp dn. raise RecursionError)"
| "copy_tree_at (Suc depth) =
     (\<lambda>sp sn dp dn. bind_prog (do_call (sys_lstat sp sn)) (\<lambda>(i, m).
        if is_lnk m then
          bind_prog (do_call (sys_readlink sp sn)) (\<lambda>t. do_call (sys_symlink t dp dn))
        else if is_reg m then copy_file_at sp sn dp dn (m_perm m)
        else if \<not> is_dir m then raise (ValueError ''Only regular files, directories, and symlinks can be copied'')
        else
          bind_prog (do_call (sys_mkdir dp dn (m_perm m))) (\<lambda>_.
          bind_prog (do_call (sys_open_nofollow True sp sn)) (\<lambda>src_fd.
          bind_prog (do_call (sys_open_nofollow True dp dn)) (\<lambda>dst_fd.
          bind_prog (do_call (sys_listdir src_fd)) (\<lambda>names.
          bind_prog (for_each (\<lambda>child. copy_tree_at depth src_fd child dst_fd child) names) (\<lambda>_.
            do_call (sys_fsync dst_fd))))))))"

text \<open>The commit of a staged copy; the result carries \<open>committed\<close>, \<open>preserve_staging\<close> and the outcome.\<close>

type_synonym copy_state = "bool \<times> bool \<times> unit res"

definition copy_swap :: "nat \<Rightarrow> ino \<Rightarrow> string \<Rightarrow> string \<Rightarrow> nat \<times> ino \<Rightarrow> nat \<times> ino \<Rightarrow> copy_state prog" where
  "copy_swap depth d staging name staged_inode expected_old =
     on_error (do_call (sys_rename_exchange d staging d name)) (\<lambda>e. ret (False, False, Inl e)) (\<lambda>_.
     on_error (lstat_at d staging) (\<lambda>e. ret (True, False, Inl e)) (\<lambda>exchanged_old.
       if (case exchanged_old of None \<Rightarrow> True | Some x \<Rightarrow> inode_identity x \<noteq> expected_old)
       then
         on_error (rollback_exchange_if_ours d staging name staged_inode) (\<lambda>e. ret (True, False, Inl e)) (\<lambda>rolled_back.
           ret (\<not> rolled_back, \<not> rolled_back, Inl (ValueError ''Destination changed during copy commit'')))
       else
         on_error (remove_tree_at depth d staging)
           (\<lambda>e.
             on_error (lstat_at d name) (\<lambda>e. ret (True, False, Inl e)) (\<lambda>now.
             on_error (lstat_at d staging) (\<lambda>e. ret (True, False, Inl e)) (\<lambda>old.
               if (case (now, old) of (Some n, Some _) \<Rightarrow> inode_identity n = staged_inode | _ \<Rightarrow> False)
               then on_error (do_call (sys_rename_exchange d staging d name)) (\<lambda>e. ret (True, False, Inl e))
                      (\<lambda>_. ret (False, False, Inl e))
               else ret (True, True, Inl e))))
           (\<lambda>_. bind_prog (attempt (do_call (sys_fsync d))) (\<lambda>r. ret (True, False, r)))))"

definition copy_over :: "nat \<Rightarrow> bool \<Rightarrow> ino \<Rightarrow> string \<Rightarrow> string \<Rightarrow> nat \<times> ino \<Rightarrow> (ino \<times> meta) option \<Rightarrow> copy_state prog" where
  "copy_over depth overwrite d staging name staged_inode current =
     (case current of
        None \<Rightarrow> ret (False, False, Inl (ValueError ''Destination changed during copy commit''))
      | Some old \<Rightarrow>
          if \<not> overwrite
          then ret (False, False, Inl (ValueError ''Destination appeared during copy and overwrite=false''))
          else copy_swap depth d staging name staged_inode (inode_identity old))"

definition copy_commit :: "nat \<Rightarrow> bool \<Rightarrow> ino \<Rightarrow> string \<Rightarrow> string \<Rightarrow> nat \<times> ino \<Rightarrow> copy_state prog" where
  "copy_commit depth overwrite d staging name staged_inode =
     on_error (bind_prog (do_call (sys_fsync d)) (\<lambda>_. lstat_at d name)) (\<lambda>e. ret (False, False, Inl e)) (\<lambda>current.
       if current = None
       then
         on_error (do_call (sys_rename_noreplace d staging d name))
           (\<lambda>e.
             if e \<noteq> OSError EEXIST then ret (False, False, Inl e)
             else on_error (lstat_at d name) (\<lambda>e. ret (False, False, Inl e)) (copy_over depth overwrite d staging name staged_inode))
           (\<lambda>_. bind_prog (attempt (do_call (sys_fsync d))) (\<lambda>r. ret (True, False, r)))
       else copy_over depth overwrite d staging name staged_inode current)"

text \<open>The \<open>finally\<close> block: an uncommitted staging tree is removed, ignoring \<open>OSError\<close>.\<close>

definition is_os_error :: "exn \<Rightarrow> bool" where
  "is_os_error e = (case e of OSError _ \<Rightarrow> True | OSMessage _ \<Rightarrow> True | _ \<Rightarrow> False)"

definition copy_finish :: "nat \<Rightarrow> ino \<Rightarrow> string \<Rightarrow> copy_state \<Rightarrow> unit prog" where
  "copy_finish depth d staging s =
     (case s of (committed, preserve, outcome) \<Rightarrow>
        finally_do (lift_res outcome)
          (if \<not> committed \<and> \<not> preserve
           then handle
             (bind_prog (lstat_at d staging) (\<lambda>x. if x \<noteq> None then remove_tree_at depth d staging else ret ()))
             (\<lambda>e. if is_os_error e then ret () else raise e)
           else ret ()))"

definition copy_staging_name :: "string \<Rightarrow> string \<Rightarrow> string" where
  "copy_staging_name name token = ''.'' @ name @ ''.rhmcp-copy-'' @ token @ ''.tmp''"

definition copy_to :: "nat \<Rightarrow> bool \<Rightarrow> string \<Rightarrow> ino \<Rightarrow> string \<Rightarrow> ino \<Rightarrow> string \<Rightarrow> unit prog" where
  "copy_to depth overwrite token src_fd src_name dst_fd dst_name =
     (let staging = copy_staging_name dst_name token in
      on_error
        (bind_prog (copy_tree_at depth src_fd src_name dst_fd staging) (\<lambda>_. lstat_at dst_fd staging))
        (\<lambda>e. copy_finish depth dst_fd staging (False, False, Inl e))
        (\<lambda>staged.
          case staged of
            None \<Rightarrow> copy_finish depth dst_fd staging (False, False, Inl (RuntimeError ''Staged copy disappeared before commit''))
          | Some x \<Rightarrow>
              bind_prog (copy_commit depth overwrite dst_fd staging dst_name (inode_identity x)) (copy_finish depth dst_fd staging)))"

definition copy_path :: "nat \<Rightarrow> settings \<Rightarrow> path_env \<Rightarrow> kernel \<Rightarrow> string \<Rightarrow> string \<Rightarrow> string \<Rightarrow> bool \<Rightarrow> bool \<Rightarrow> path_action_result prog" where
  "copy_path depth st env k token source destination recursive overwrite =
     bind_prog (open_parent_beneath st env k source) (\<lambda>(src_fd, src_name, src_path).
     bind_prog (lstat_at src_fd src_name) (\<lambda>src.
       case src of
         None \<Rightarrow> raise (ValueError ''Source does not exist'')
       | Some (i, m) \<Rightarrow>
           bind_prog (check (\<not> (is_dir m \<and> \<not> recursive)) ''Source is a directory; recursive=true is required'') (\<lambda>_.
           bind_prog (open_parent_beneath st env k destination) (\<lambda>(dst_fd, dst_name, dst_path).
           bind_prog (check (src_path \<noteq> dst_path) ''Source and destination must differ'') (\<lambda>_.
           bind_prog (lstat_at dst_fd dst_name) (\<lambda>initial_dst.
           bind_prog (check (\<not> (initial_dst \<noteq> None \<and> \<not> overwrite)) ''Destination exists and overwrite=false'') (\<lambda>_.
           bind_prog (copy_to depth overwrite token src_fd src_name dst_fd dst_name) (\<lambda>_.
             ret (done_action ''copy'' src_path (Some dst_path))))))))))"

subsection \<open>\<open>chmod_path\<close>\<close>

definition chmod_path :: "settings \<Rightarrow> path_env \<Rightarrow> kernel \<Rightarrow> string \<Rightarrow> int \<Rightarrow> path_action_result prog" where
  "chmod_path st env k path mode =
     bind_prog (ensure_mode mode) (\<lambda>_.
     bind_prog (path_info st env k path) (\<lambda>info.
     bind_prog (check (pi_type info \<noteq> ''symlink'') ''Refusing chmod on a symlink'') (\<lambda>_.
     bind_prog (open_beneath st env k path False True) (\<lambda>fd.
     bind_prog (do_call (sys_fchmod fd mode)) (\<lambda>_.
       ret \<lparr>pa_action = ''chmod:'' @ octal4 mode, pa_path = pi_path info, pa_destination = None\<rparr>)))))"

subsection \<open>A failed copy and the previous destination\<close>

text \<open>The directory \<open>d\<close> with the files \<open>x\<close> and \<open>y\<close>, and the staged copy that is to replace it.\<close>

definition swap_disk :: fs where
  "swap_disk =
     \<lparr>inodes = [7 \<mapsto> file_meta (Dir [(''d'', 2), (''s'', 3)]), 2 \<mapsto> file_meta (Dir [(''x'', 4), (''y'', 5)]),
                3 \<mapsto> file_meta (Dir []), 4 \<mapsto> file_meta (Reg ''1''), 5 \<mapsto> file_meta (Reg ''2'')],
      fresh_ino = 8, fs_now = 10\<rparr>"

text \<open>When the removal of the displaced directory fails half-way, \<open>copy_path\<close> puts it back as the destination: the
  call reports the error, and the previous destination has lost the children removed so far.\<close>

theorem copy_failure_damages_destination:
  "\<exists>f. bind_prog (copy_swap 2 7 ''s'' ''d'' (1, 3) (1, 2)) (copy_finish 2 7 ''s'')
        \<lparr>disk = swap_disk, schedule = replicate 8 (Meanwhile (\<lambda>f. f)) @ [Fault EIO]\<rparr>
      = (\<lparr>disk = f, schedule = []\<rparr>, Inl (OSError EIO))
    \<and> lookup_at f 7 ''d'' = Some 2 \<and> entries f 2 = Some [(''y'', 5)]"
  by (simp add: copy_swap_def copy_finish_def on_error_def attempt_def prog_defs lstat_at_def do_call_def
   sys_rename_exchange_def sys_lstat_def sys_open_nofollow_def sys_listdir_def sys_unlink_def sys_rmdir_def swap_disk_def file_meta_def
   lookup_at_def entries_def dev_of_def set_entry_def set_node_def drop_entry_def dict_pop_def inode_identity_def is_dir_def is_lnk_def
   numeral_eq_Suc contains_dir.simps)
end
