(* ===== verification/Agent_Files.thy ===== *)
theory Agent_Files
  imports File_Write
begin

text \<open>
  The file tools of \<open>src/remote_host_mcp/agent_ops.py\<close>: \<open>file_diff\<close>, \<open>apply_line_patch\<close>, \<open>inspect_paths\<close>,
  \<open>artifact_info\<close> and \<open>artifact_preview\<close>.  \<open>difflib.unified_diff\<close>, \<open>mimetypes.guess_type\<close> and the text of an exception
  are arguments.
\<close>

subsection \<open>Reading a whole text file\<close>

function read_bounded :: "int \<Rightarrow> ino \<Rightarrow> bytes \<Rightarrow> bytes prog" where
  "read_bounded limit fd data w =
     (case do_call (sys_read_at fd (length data) (nat (min 65536 (limit + 1 - int (length data))))) w of
        (w', Inl e) \<Rightarrow> (w', Inl e)
      | (w', Inr chunk) \<Rightarrow>
          if chunk = [] then (w', Inr data)
          else if limit < int (length (data @ chunk))
          then (w', Inl (ValueError (''File grew beyond max_file_bytes='' @ int_str limit)))
          else read_bounded limit fd (data @ chunk) w')"
  by pat_completeness auto
termination
  by (relation "measures [\<lambda>(l, i, d, w). length (schedule w), \<lambda>(l, i, d, w). size_of i (disk w) - length d]")
    (auto dest!: read_at_le [OF sym])

declare read_bounded.simps [simp del]

definition read_text_bounded :: "(bytes \<Rightarrow> string) \<Rightarrow> settings \<Rightarrow> path_env \<Rightarrow> kernel \<Rightarrow> string \<Rightarrow> int \<Rightarrow> (ustr \<times> string \<times> int) prog" where
  "read_text_bounded sha st env k path limit =
     bind_prog (check (\<not> (limit < 1 \<or> limit > 4194304)) ''max_file_bytes must be between 1 and 4194304'') (\<lambda>_.
     bind_prog (open_beneath st env k path False False) (\<lambda>fd.
     bind_prog (fstat_regular fd ''Path is not a regular file'') (\<lambda>m.
     bind_prog (check (\<not> st_size m > limit) (''File exceeds max_file_bytes='' @ int_str limit)) (\<lambda>_.
     bind_prog (read_bounded limit fd []) (\<lambda>data.
       case decode_strict data of
         Inl e \<Rightarrow> raise (ValueError ''File is not valid UTF-8 text'')
       | Inr t \<Rightarrow> ret (t, sha data, st_size m))))))"

subsection \<open>\<open>file_diff\<close>\<close>

record file_diff_result =
  fd_path :: string
  fd_current_sha256 :: string
  fd_proposed_sha256 :: string
  fd_diff :: ustr
  fd_truncated :: bool

definition diff_note :: ustr where
  "diff_note = 10 # ustr_of ''... [diff truncated]'' @ [10]"

text \<open>Cutting the diff at \<open>limit\<close> bytes, dropping a code point cut in two.\<close>

definition clip_diff :: "int \<Rightarrow> ustr \<Rightarrow> ustr \<times> bool" where
  "clip_diff limit diff =
     (let encoded = utf8 diff in
      if int (length encoded) > limit then (decode_ignore (take (nat limit) encoded) @ diff_note, True) else (diff, False))"

definition file_diff :: "(ustr list \<Rightarrow> ustr list \<Rightarrow> string \<Rightarrow> string \<Rightarrow> ustr list) \<Rightarrow> (bytes \<Rightarrow> string) \<Rightarrow> settings \<Rightarrow> path_env \<Rightarrow> kernel \<Rightarrow>
    string \<Rightarrow> ustr \<Rightarrow> int \<Rightarrow> int \<Rightarrow> file_diff_result prog" where
  "file_diff udiff sha st env k path proposed max_file max_diff =
     bind_prog (check (\<not> (max_diff < 1024 \<or> max_diff > 262144)) ''max_diff_bytes must be between 1024 and 262144'') (\<lambda>_.
     bind_prog (lift_res (encode_utf8 proposed)) (\<lambda>raw.
     bind_prog (check (\<not> int (length raw) > max_file) ''proposed_text exceeds max_file_bytes'') (\<lambda>_.
     bind_prog (read_text_bounded sha st env k path max_file) (\<lambda>(current, current_sha, _).
       let diff = concat (udiff (splitlines_keep current) (splitlines_keep proposed) path (path @ '' (proposed)'')) in
       bind_prog (lift_res (encode_utf8 diff)) (\<lambda>_.
       bind_prog (resolved_str st env path) (\<lambda>p.
         ret \<lparr>fd_path = p, fd_current_sha256 = current_sha, fd_proposed_sha256 = sha raw,
              fd_diff = fst (clip_diff max_diff diff), fd_truncated = snd (clip_diff max_diff diff)\<rparr>))))))"

subsection \<open>\<open>apply_line_patch\<close>\<close>

record line_edit =
  start_line :: int
  delete_lines :: int
  replacement :: ustr

definition hex64 :: "string \<Rightarrow> bool" where
  "hex64 v = (length v = 64 \<and> list_all (\<lambda>c. let n = (of_char c :: nat) in n \<in> {48..57} \<or> n \<in> {65..70} \<or> n \<in> {97..102}) v)"

definition edit_start :: "line_edit \<Rightarrow> int" where
  "edit_start e = start_line e - 1"

definition edit_end :: "line_edit \<Rightarrow> int" where
  "edit_end e = edit_start e + delete_lines e"

fun check_edits :: "int \<Rightarrow> int \<Rightarrow> line_edit list \<Rightarrow> unit res" where
  "check_edits n previous_end [] = Inr ()"
| "check_edits n previous_end (e # es) =
     (if edit_start e > n then Inl (ValueError (''start_line '' @ int_str (start_line e) @ '' is beyond end of file''))
      else if edit_end e > n then Inl (ValueError (''edit at line '' @ int_str (start_line e) @ '' deletes beyond end of file''))
      else if edit_start e < previous_end then Inl (ValueError ''edits overlap'')
      else check_edits n (edit_end e) es)"

definition replacement_lines :: "ustr \<Rightarrow> ustr list" where
  "replacement_lines r = (if r \<noteq> [] \<and> splitlines_keep r = [] then [r] else splitlines_keep r)"

text \<open>\<open>new_lines[a:b] = xs\<close>, with Python's slice indices.\<close>

definition set_slice :: "'a list \<Rightarrow> int \<Rightarrow> int \<Rightarrow> 'a list \<Rightarrow> 'a list" where
  "set_slice ls a b xs =
     (let lo = slice_index (length ls) a; hi = max lo (slice_index (length ls) b) in take lo ls @ xs @ drop hi ls)"

definition apply_edit :: "line_edit \<Rightarrow> ustr list \<Rightarrow> ustr list" where
  "apply_edit e ls = set_slice ls (edit_start e) (edit_end e) (replacement_lines (replacement e))"

definition patched :: "ustr list \<Rightarrow> line_edit list \<Rightarrow> ustr res" where
  "patched ls edits =
     (let normalized = sort_key start_line edits in
      and_then (check_edits (int (length ls)) 0 normalized) (\<lambda>_. Inr (concat (fold apply_edit (rev normalized) ls))))"

definition apply_line_patch :: "(nat \<Rightarrow> nat option) \<Rightarrow> (bytes \<Rightarrow> string) \<Rightarrow> settings \<Rightarrow> path_env \<Rightarrow> kernel \<Rightarrow> string \<Rightarrow>
    string \<Rightarrow> string \<Rightarrow> line_edit list \<Rightarrow> int \<Rightarrow> int \<Rightarrow> file_write_result prog" where
  "apply_line_patch ud sha st env k token path expected edits mode max_file =
     bind_prog (check (hex64 expected) ''expected_sha256 must be 64 hex characters'') (\<lambda>_.
     bind_prog (check (\<not> (edits = [] \<or> length edits > 100)) ''edits must contain between 1 and 100 operations'') (\<lambda>_.
     bind_prog (read_text_bounded sha st env k path max_file) (\<lambda>(current, current_sha, _).
     bind_prog (check (slower current_sha = slower expected) ''File changed since expected_sha256 was observed'') (\<lambda>_.
     bind_prog (lift_res (patched (splitlines_keep current) edits)) (\<lambda>result.
     bind_prog (lift_res (encode_utf8 result)) (\<lambda>raw.
     bind_prog (check (\<not> int (length raw) > max_file) ''patched result exceeds max_file_bytes'') (\<lambda>_.
       write_text_file ud sha st env k token path result True (Some (slower expected)) mode)))))))"

subsection \<open>\<open>inspect_paths\<close>\<close>

definition os_or_value :: "exn \<Rightarrow> bool" where
  "os_or_value e = (case e of OSError _ \<Rightarrow> True | OSMessage _ \<Rightarrow> True | ValueError _ \<Rightarrow> True | _ \<Rightarrow> False)"

record path_inspection =
  in_path :: string
  in_ok :: bool
  in_type :: "string option"
  in_size :: "int option"
  in_mode :: "string option"
  in_modified_ns :: "int option"
  in_sha256 :: "string option"
  in_hash_skipped :: bool
  in_text_preview :: "ustr option"
  in_preview_truncated :: bool
  in_error :: "string option"

definition no_inspection :: "string \<Rightarrow> path_inspection" where
  "no_inspection p =
     \<lparr>in_path = p, in_ok = False, in_type = None, in_size = None, in_mode = None, in_modified_ns = None, in_sha256 = None,
      in_hash_skipped = False, in_text_preview = None, in_preview_truncated = False, in_error = None\<rparr>"

definition inspect_one :: "(bytes \<Rightarrow> string) \<Rightarrow> settings \<Rightarrow> path_env \<Rightarrow> kernel \<Rightarrow> bool \<Rightarrow> int \<Rightarrow> int \<Rightarrow> string \<Rightarrow> path_inspection prog" where
  "inspect_one sha st env k include_sha max_text hash_max raw =
     bind_prog (path_info st env k raw) (\<lambda>info.
       let base = (no_inspection (pi_path info))\<lparr>in_ok := True, in_type := Some (pi_type info), in_size := pi_size info,
                     in_mode := Some (pi_mode info), in_modified_ns := Some (pi_modified_ns info)\<rparr> in
       case pi_size info of
         Some nbytes \<Rightarrow>
           if pi_type info \<noteq> ''file'' then ret base
           else
             bind_prog (open_beneath st env k raw False False) (\<lambda>fd.
             bind_prog
               (if \<not> include_sha then ret base
                else if nbytes \<le> hash_max
                then bind_prog (hash_fd sha fd) (\<lambda>(digest, _). ret (base\<lparr>in_sha256 := Some digest\<rparr>))
                else ret (base\<lparr>in_hash_skipped := True\<rparr>)) (\<lambda>hashed.
             if max_text = 0 then ret hashed
             else
               bind_prog (do_call (sys_read_at fd 0 (nat (max_text + 1)))) (\<lambda>data.
                 ret (if CHR 0x00 \<in> set (take (nat max_text) data) then hashed
                      else hashed\<lparr>in_text_preview := Some (decode_replace (take (nat max_text) data)),
                                  in_preview_truncated := (int (length data) > max_text \<or> nbytes > max_text)\<rparr>))))
       | None \<Rightarrow> ret base)"

fun inspect_all :: "(bytes \<Rightarrow> string) \<Rightarrow> (exn \<Rightarrow> string) \<Rightarrow> settings \<Rightarrow> path_env \<Rightarrow> kernel \<Rightarrow> bool \<Rightarrow> int \<Rightarrow> int \<Rightarrow> string list \<Rightarrow>
    path_inspection list prog" where
  "inspect_all sha err st env k include_sha max_text hash_max [] = ret []"
| "inspect_all sha err st env k include_sha max_text hash_max (raw # paths) =
     bind_prog
       (handle (inspect_one sha st env k include_sha max_text hash_max raw)
          (\<lambda>e. if os_or_value e then ret ((no_inspection raw)\<lparr>in_error := Some (err e)\<rparr>) else raise e))
       (\<lambda>x. bind_prog (inspect_all sha err st env k include_sha max_text hash_max paths) (\<lambda>xs. ret (x # xs)))"

definition inspect_paths :: "(bytes \<Rightarrow> string) \<Rightarrow> (exn \<Rightarrow> string) \<Rightarrow> settings \<Rightarrow> path_env \<Rightarrow> kernel \<Rightarrow> string list \<Rightarrow> bool \<Rightarrow> int \<Rightarrow> int \<Rightarrow>
    path_inspection list prog" where
  "inspect_paths sha err st env k paths include_sha max_text hash_max =
     bind_prog (check (\<not> (paths = [] \<or> length paths > 20)) ''paths must contain between 1 and 20 items'') (\<lambda>_.
     bind_prog (check (\<not> (max_text < 0 \<or> max_text > 16384)) ''max_text_bytes must be between 0 and 16384'') (\<lambda>_.
     bind_prog (check (\<not> (hash_max < 0 \<or> hash_max > 1073741824)) ''hash_max_bytes must be between 0 and 1073741824'') (\<lambda>_.
       inspect_all sha err st env k include_sha max_text hash_max paths)))"

subsection \<open>Artifacts\<close>

definition image_mimes :: "string list" where
  "image_mimes = [''image/png'', ''image/jpeg'', ''image/gif'', ''image/webp'']"

definition text_mimes :: "string list" where
  "text_mimes = [''application/json'', ''application/xml'', ''application/javascript'', ''application/x-sh'', ''text/csv'', ''text/markdown'']"

definition bytes_of :: "nat list \<Rightarrow> bytes" where
  "bytes_of ns = map char_of ns"

definition mime_from :: "(string \<Rightarrow> string option) \<Rightarrow> string \<Rightarrow> bytes \<Rightarrow> string" where
  "mime_from guess name prefix =
     (if starts (bytes_of [0x89, 80, 78, 71, 13, 10, 0x1A, 10]) prefix then ''image/png''
      else if starts (bytes_of [0xFF, 0xD8, 0xFF]) prefix then ''image/jpeg''
      else if starts ''GIF87a'' prefix \<or> starts ''GIF89a'' prefix then ''image/gif''
      else if length prefix \<ge> 12 \<and> take 4 prefix = ''RIFF'' \<and> take 4 (drop 8 prefix) = ''WEBP'' then ''image/webp''
      else case guess name of Some g \<Rightarrow> if g = [] then ''application/octet-stream'' else g | None \<Rightarrow> ''application/octet-stream'')"

definition text_like :: "string \<Rightarrow> bytes \<Rightarrow> bool" where
  "text_like mime prefix = (CHR 0x00 \<notin> set prefix \<and> (starts ''text/'' mime \<or> mime \<in> set text_mimes))"

definition path_name :: "ppath \<Rightarrow> string" where
  "path_name p = (if snd p = [] then [] else last (snd p))"

definition inline_limit :: int where
  "inline_limit = 8388608"

record artifact_info_result =
  ai_path :: string
  ai_name :: string
  ai_mime_type :: string
  ai_size :: int
  ai_modified_ns :: int
  ai_sha256 :: "string option"
  ai_inline_eligible :: bool
  ai_image :: bool
  ai_text_like :: bool

definition artifact_info :: "(string \<Rightarrow> string option) \<Rightarrow> (bytes \<Rightarrow> string) \<Rightarrow> settings \<Rightarrow> path_env \<Rightarrow> kernel \<Rightarrow> string \<Rightarrow> bool \<Rightarrow>
    artifact_info_result prog" where
  "artifact_info guess sha st env k path include_sha =
     bind_prog (lift_res (expanduser env path)) (\<lambda>x.
     bind_prog (open_beneath st env k path False False) (\<lambda>fd.
     bind_prog (fstat_regular fd ''Artifact path is not a regular file'') (\<lambda>m.
     bind_prog (do_call (sys_read_at fd 0 64)) (\<lambda>prefix.
     bind_prog (if include_sha then bind_prog (hash_fd sha fd) (\<lambda>(d, _). ret (Some d)) else ret None) (\<lambda>digest.
     bind_prog (resolved_str st env path) (\<lambda>p.
       let name = path_name (parse_path x); mime = mime_from guess name prefix in
       ret \<lparr>ai_path = p, ai_name = name, ai_mime_type = mime, ai_size = st_size m, ai_modified_ns = m_mtime m, ai_sha256 = digest,
            ai_inline_eligible = (st_size m \<le> inline_limit), ai_image = (mime \<in> set image_mimes), ai_text_like = text_like mime prefix\<rparr>))))))"

record artifact_preview_result =
  ap_path :: string
  ap_mime_type :: string
  ap_size :: int
  ap_preview :: "ustr option"
  ap_truncated :: bool
  ap_binary :: bool

definition artifact_preview :: "(string \<Rightarrow> string option) \<Rightarrow> settings \<Rightarrow> path_env \<Rightarrow> kernel \<Rightarrow> string \<Rightarrow> int \<Rightarrow> artifact_preview_result prog" where
  "artifact_preview guess st env k path max_bytes =
     bind_prog (check (\<not> (max_bytes < 256 \<or> max_bytes > 131072)) ''max_bytes must be between 256 and 131072'') (\<lambda>_.
     bind_prog (lift_res (expanduser env path)) (\<lambda>x.
     bind_prog (open_beneath st env k path False False) (\<lambda>fd.
     bind_prog (fstat_regular fd ''Artifact path is not a regular file'') (\<lambda>m.
     bind_prog (do_call (sys_read_at fd 0 (nat (max_bytes + 1)))) (\<lambda>data.
     bind_prog (resolved_str st env path) (\<lambda>p.
       let prefix = take 64 data; mime = mime_from guess (path_name (parse_path x)) prefix; binary = \<not> text_like mime prefix in
       ret \<lparr>ap_path = p, ap_mime_type = mime, ap_size = st_size m,
            ap_preview = (if binary then None else Some (decode_replace (take (nat max_bytes) data))),
            ap_truncated = (st_size m > max_bytes \<or> int (length data) > max_bytes), ap_binary = binary\<rparr>))))))"

subsection \<open>What a patch produces\<close>

text \<open>The reference: one pass from the top, copying untouched lines and inserting the replacements.\<close>

fun forward :: "nat \<Rightarrow> ustr list \<Rightarrow> line_edit list \<Rightarrow> ustr" where
  "forward pos ls [] = concat ls"
| "forward pos ls (e # es) =
     concat (take (nat (edit_start e) - pos) ls) @ replacement e @ forward (nat (edit_end e)) (drop (nat (edit_end e) - pos) ls) es"

lemma concat_replacement [simp]: "concat (replacement_lines r) = r"
  by (simp add: replacement_lines_def)

lemma set_slice_prefix:
  assumes "0 \<le> a" "a \<le> b" "nat b = length xs"
  shows "set_slice (xs @ zs) a b ys = take (nat a) xs @ ys @ zs"
proof -
  have "slice_index (length (xs @ zs)) a = nat a" "slice_index (length (xs @ zs)) b = length xs"
    using assms by (auto simp: slice_index_def)
  moreover have "nat a \<le> length xs" using assms by simp
  ultimately show ?thesis by (simp add: set_slice_def Let_def)
qed

lemma fold_edits_forward:
  assumes "check_edits (int (length ls)) p es = Inr ()" "0 \<le> p" "p \<le> int (length ls)" "list_all (\<lambda>e. 0 \<le> delete_lines e) es"
  shows "\<exists>zs. fold apply_edit (rev es) ls = take (nat p) ls @ zs \<and> concat zs = forward (nat p) (drop (nat p) ls) es"
  using assms
proof (induction es arbitrary: p)
  case Nil
  show ?case by (rule exI [of _ "drop (nat p) ls"]) simp
next
  case (Cons e es)
  let ?a = "nat (edit_start e)" and ?b = "nat (edit_end e)" and ?p = "nat p"
  from Cons.prems have c: "check_edits (int (length ls)) (edit_end e) es = Inr ()" "p \<le> edit_start e" "edit_end e \<le> int (length ls)"
    "edit_start e \<le> edit_end e" "list_all (\<lambda>e. 0 \<le> delete_lines e) es"
    by (auto simp: edit_end_def split: if_split_asm)
  with Cons.IH [of "edit_end e"] Cons.prems(2) obtain zs where zs: "fold apply_edit (rev es) ls = take ?b ls @ zs"
    "concat zs = forward ?b (drop ?b ls) es" by auto
  have ord: "?p \<le> ?a" "?a \<le> ?b" "?b \<le> length ls" using c Cons.prems(2) by auto
  have "apply_edit e (take ?b ls @ zs) = take ?a ls @ replacement_lines (replacement e) @ zs"
    unfolding apply_edit_def using c Cons.prems(2) ord by (subst set_slice_prefix) (auto simp: min_absorb1 min_absorb2)
  moreover have "take ?a ls = take ?p ls @ take (?a - ?p) (drop ?p ls)"
    using ord(1) by (metis le_add_diff_inverse take_add)
  moreover have "drop (?b - ?p) (drop ?p ls) = drop ?b ls" using ord by simp
  ultimately show ?case using zs
    by (intro exI [of _ "take (?a - ?p) (drop ?p ls) @ replacement_lines (replacement e) @ zs"]) simp
qed

text \<open>C28. Applying the edits from the last to the first by slice assignment gives the text a single forward pass
  over the lines gives: every line outside the edits is kept in place, every edit contributes its replacement at
  its position, and two insertions at one line keep the order of the request.\<close>

theorem patched_forward:
  assumes "patched ls edits = Inr r" "list_all (\<lambda>e. 1 \<le> start_line e \<and> 0 \<le> delete_lines e) edits"
  shows "r = forward 0 ls (sort_key start_line edits)"
proof -
  from assms(1) have "check_edits (int (length ls)) 0 (sort_key start_line edits) = Inr ()"
    "r = concat (fold apply_edit (rev (sort_key start_line edits)) ls)"
    by (auto simp: patched_def Let_def and_then_Inr)
  moreover have "list_all (\<lambda>e. 0 \<le> delete_lines e) (sort_key start_line edits)"
    using assms(2) by (auto simp: list_all_iff)
  ultimately show ?thesis using fold_edits_forward [of ls 0 "sort_key start_line edits"] by auto
qed

text \<open>A clipped diff is the longest prefix of whole characters that fits the byte budget, followed by the note;
  a diff that fits is unchanged.  The answer never exceeds the budget by more than the note.\<close>

theorem clip_diff_prefix:
  assumes "list_all scalar diff" "0 \<le> limit"
  shows "clip_diff limit diff =
      (if int (length (utf8 diff)) \<le> limit then (diff, False) else (take (fitting (nat limit) diff) diff @ diff_note, True))
    \<and> int (length (utf8 (fst (clip_diff limit diff)))) \<le> limit + 22"
proof -
  have "length (utf8 diff_note) = 22" by (simp add: diff_note_def utf8_def utf8_char_def utf8_units_def ustr_of_def)
  moreover have "length (utf8 (take (fitting (nat limit) diff) diff)) \<le> nat limit" by (rule fitting_bound)
  moreover have "decode_ignore (take (nat limit) (utf8 diff)) = take (fitting (nat limit) diff) diff"
    using assms by (simp add: decode_ignore_take)
  ultimately show ?thesis using assms(2) by (auto simp: clip_diff_def Let_def)
qed

definition sample_edits :: "line_edit list" where
  "sample_edits = [\<lparr>start_line = 2, delete_lines = 1, replacement = [120, 10]\<rparr>, \<lparr>start_line = 1, delete_lines = 0, replacement = [121, 10]\<rparr>]"

theorem patched_forward_witness:
  "patched [[97, 10], [98, 10], [99]] sample_edits = Inr [121, 10, 97, 10, 120, 10, 99]
   \<and> [121, 10, 97, 10, 120, 10, 99] = forward 0 [[97, 10], [98, 10], [99]] (sort_key start_line sample_edits)"
proof -
  have p: "patched [[97, 10], [98, 10], [99]] sample_edits = Inr [121, 10, 97, 10, 120, 10, 99]"
    by (simp add: patched_def sample_edits_def edit_start_def edit_end_def apply_edit_def set_slice_def slice_index_def
        replacement_lines_def splitlines_keep_def is_line_end_def Let_def)
  with patched_forward [OF p] show ?thesis by (simp add: sample_edits_def)
qed

theorem clip_diff_prefix_witness:
  "fst (clip_diff 2 [97, 233, 98]) = take (fitting 2 [97, 233, 98]) [97, 233, 98] @ diff_note"
  using clip_diff_prefix [of "[97, 233, 98]" 2] by (simp add: scalar_def utf8_def utf8_char_def utf8_units_def)

end
