(* ===== verification/Uploads.thy ===== *)
theory Uploads
  imports File_Write Base64
begin

text \<open>
  Resumable uploads and downloads, \<open>src/remote_host_mcp/transfer.py\<close>.  An upload is its metadata record, kept in
  the state directory under its identifier, and a staging file beside the target.  \<open>flock\<close> makes each
  operation on an upload atomic with respect to the others; the schedule of the world stands for everything
  else that happens to the disk.
\<close>

subsection \<open>State\<close>

record upload_meta =
  um_upload_id :: string
  um_target_path :: string
  um_staging_path :: string
  um_total_size :: int
  um_expected_sha256 :: string
  um_mode :: int
  um_overwrite :: bool
  um_status :: string
  um_created_at :: int
  um_expires_at :: int
  um_committed_at :: "int option"
  um_final_sha256 :: "string option"
  um_replaced :: bool

text \<open>The metadata files (\<open>Some None\<close> is one that cannot be parsed), the outcome of the coming metadata writes
  (\<open>None\<close> once the list is used up: they succeed), the files, and \<open>time.time()\<close>.\<close>

record xfer =
  uploads :: "string \<Rightarrow> upload_meta option option"
  write_faults :: "errno option list"
  files :: world
  clock :: int

type_synonym 'a xprog = "(xfer, 'a) run"

definition on_files :: "'a prog \<Rightarrow> 'a xprog" where
  "on_files p s = (case p (files s) of (w, r) \<Rightarrow> (s\<lparr>files := w\<rparr>, r))"

definition now :: "int xprog" where
  "now s = (s, Inr (clock s))"

definition hex_lower :: "char \<Rightarrow> bool" where
  "hex_lower c = (let n = (of_char c :: nat) in n \<in> {48..57} \<or> n \<in> {97..102})"

definition upload_id_ok :: "string \<Rightarrow> bool" where
  "upload_id_ok v = (length v = 32 \<and> list_all hex_lower v)"

definition validate_upload_id :: "string \<Rightarrow> unit xprog" where
  "validate_upload_id uid = check (upload_id_ok uid) ''Invalid upload_id''"

definition write_meta :: "upload_meta \<Rightarrow> unit xprog" where
  "write_meta um =
     bind_prog (validate_upload_id (um_upload_id um)) (\<lambda>_ s.
       case write_faults s of
         Some e # fs \<Rightarrow> (s\<lparr>write_faults := fs\<rparr>, Inl (OSError e))
       | fs \<Rightarrow> (s\<lparr>write_faults := drop 1 fs, uploads := (uploads s)(um_upload_id um \<mapsto> Some um)\<rparr>, Inr ()))"

definition load_meta :: "string \<Rightarrow> upload_meta xprog" where
  "load_meta uid =
     bind_prog (validate_upload_id uid) (\<lambda>_ s.
       (s, case uploads s uid of
          None \<Rightarrow> Inl (ValueError ''Unknown upload_id'')
        | Some None \<Rightarrow> Inl (ValueError ''Upload metadata is unreadable'')
        | Some (Some um) \<Rightarrow> if um_upload_id um \<noteq> uid then Inl (ValueError ''Upload metadata identity mismatch'') else Inr um))"

definition sha256_ok :: "string \<Rightarrow> bool" where
  "sha256_ok v = (length v = 64 \<and> list_all (\<lambda>c. hex_lower c \<or> (of_char c :: nat) \<in> {65..70}) v)"

definition validate_sha256 :: "string \<Rightarrow> string xprog" where
  "validate_sha256 v =
     (if sha256_ok v then ret (slower v) else raise (ValueError ''SHA-256 must be a 64-character hexadecimal string''))"

definition part_name :: "string \<Rightarrow> string \<Rightarrow> string" where
  "part_name target_name uid = ''.'' @ target_name @ ''.rhmcp-upload-'' @ uid @ ''.part''"

subsection \<open>Staging\<close>

definition validated_meta_paths :: "settings \<Rightarrow> path_env \<Rightarrow> kernel \<Rightarrow> upload_meta \<Rightarrow> (path \<times> path) xprog" where
  "validated_meta_paths st env k um =
     bind_prog (validate_upload_id (um_upload_id um)) (\<lambda>_.
     bind_prog (on_files (open_parent_beneath st env k (um_target_path um))) (\<lambda>(_, target_name, target).
     bind_prog (on_files (open_parent_beneath st env k (um_staging_path um))) (\<lambda>(_, part, staging).
       if butlast staging \<noteq> butlast target \<or> part \<noteq> part_name target_name (um_upload_id um)
       then raise (ValueError ''Upload metadata staging path is invalid'')
       else ret (target, staging))))"

definition open_staging :: "settings \<Rightarrow> path_env \<Rightarrow> kernel \<Rightarrow> path \<Rightarrow> ino prog" where
  "open_staging st env k staging =
     bind_prog (open_beneath st env k (path_str staging) False True) (\<lambda>fd.
     bind_prog (fstat_regular fd ''Upload staging path is not a regular file'') (\<lambda>_. ret fd))"

definition staging_size :: "settings \<Rightarrow> path_env \<Rightarrow> kernel \<Rightarrow> path \<Rightarrow> int prog" where
  "staging_size st env k staging =
     bind_prog (open_staging st env k staging) (\<lambda>fd. bind_prog (do_call (sys_fstat fd)) (\<lambda>m. ret (st_size m)))"

text \<open>Best effort: every \<open>OSError\<close> and \<open>ValueError\<close> is swallowed.\<close>

definition os_or_value_error :: "exn \<Rightarrow> bool" where
  "os_or_value_error e = (case e of OSError _ \<Rightarrow> True | OSMessage _ \<Rightarrow> True | ValueError _ \<Rightarrow> True | _ \<Rightarrow> False)"

definition unlink_allowed :: "settings \<Rightarrow> path_env \<Rightarrow> kernel \<Rightarrow> path \<Rightarrow> unit prog" where
  "unlink_allowed st env k p =
     handle
       (bind_prog (open_parent_beneath st env k (path_str p)) (\<lambda>(parent, name, _).
          handle (bind_prog (do_call (sys_unlink parent name)) (\<lambda>_. do_call (sys_fsync parent)))
            (\<lambda>e. if e = OSError ENOENT then ret () else raise e)))
       (\<lambda>e. if os_or_value_error e then ret () else raise e)"

definition expire_if_needed :: "settings \<Rightarrow> path_env \<Rightarrow> kernel \<Rightarrow> upload_meta \<Rightarrow> upload_meta xprog" where
  "expire_if_needed st env k um =
     bind_prog now (\<lambda>t.
       if um_status um = ''open'' \<and> um_expires_at um < t
       then
         let expired = um\<lparr>um_status := ''expired''\<rparr> in
         bind_prog (validated_meta_paths st env k expired) (\<lambda>(_, staging).
         bind_prog (on_files (unlink_allowed st env k staging)) (\<lambda>_.
         bind_prog (write_meta expired) (\<lambda>_. ret expired)))
       else ret um)"

definition current_meta :: "settings \<Rightarrow> path_env \<Rightarrow> kernel \<Rightarrow> string \<Rightarrow> upload_meta xprog" where
  "current_meta st env k uid = bind_prog (load_meta uid) (expire_if_needed st env k)"

subsection \<open>\<open>begin_upload\<close>\<close>

record upload_begin_result =
  ub_upload_id :: string
  ub_path :: string
  ub_total_size :: int
  ub_expected_sha256 :: string
  ub_next_offset :: int
  ub_max_chunk_bytes :: int
  ub_expires_at :: int

definition create_staging :: "settings \<Rightarrow> path_env \<Rightarrow> kernel \<Rightarrow> string \<Rightarrow> string \<Rightarrow> bool \<Rightarrow> (path \<times> path \<times> bool) prog" where
  "create_staging st env k uid path overwrite =
     bind_prog (open_parent_beneath st env k path) (\<lambda>(parent, target_name, target).
     bind_prog (lstat_at parent target_name) (\<lambda>target_stat.
     bind_prog
       (case target_stat of
          None \<Rightarrow> ret ()
        | Some (i, m) \<Rightarrow>
            if is_lnk m then raise (ValueError ''Refusing to upload through a symlink destination'')
            else if \<not> is_reg m then raise (ValueError ''Destination exists and is not a regular file'')
            else if \<not> overwrite then raise (ValueError ''Destination exists and overwrite=false'')
            else ret ()) (\<lambda>_.
       let part = part_name target_name uid in
       bind_prog (do_call (sys_create_excl parent part 384)) (\<lambda>_.
       bind_prog (do_call (sys_fsync parent)) (\<lambda>_.
         ret (target, butlast target @ [part], target_stat \<noteq> None))))))"

definition total_size_message :: "settings \<Rightarrow> string" where
  "total_size_message st = ''total_size must be between 0 and '' @ int_str (max_transfer_bytes st)"

text \<open>\<open>uid\<close> is the random \<open>secrets.token_hex(16)\<close>.\<close>

definition begin_upload :: "settings \<Rightarrow> path_env \<Rightarrow> kernel \<Rightarrow> string \<Rightarrow> string \<Rightarrow> int \<Rightarrow> string \<Rightarrow> int \<Rightarrow> bool \<Rightarrow> upload_begin_result xprog" where
  "begin_upload st env k uid path total_size expected_sha256 mode overwrite =
     bind_prog (check (\<not> (total_size < 0 \<or> total_size > max_transfer_bytes st)) (total_size_message st)) (\<lambda>_.
     bind_prog (validate_sha256 expected_sha256) (\<lambda>expected.
     bind_prog (check (\<not> (mode < 0 \<or> mode > 511)) ''mode must be between 0 and 0o777'') (\<lambda>_.
     bind_prog (on_files (create_staging st env k uid path overwrite)) (\<lambda>(target, staging, replaced).
     bind_prog now (\<lambda>t.
       let um = \<lparr>um_upload_id = uid, um_target_path = path_str target, um_staging_path = path_str staging,
                 um_total_size = total_size, um_expected_sha256 = expected, um_mode = mode, um_overwrite = overwrite,
                 um_status = ''open'', um_created_at = t, um_expires_at = t + upload_ttl_seconds st, um_committed_at = None,
                 um_final_sha256 = None, um_replaced = replaced\<rparr> in
       bind_prog
         (handle (write_meta um)
            (\<lambda>e. bind_prog (on_files (unlink_allowed st env k staging)) (\<lambda>_. raise e))) (\<lambda>_.
         ret \<lparr>ub_upload_id = uid, ub_path = path_str target, ub_total_size = total_size, ub_expected_sha256 = expected,
              ub_next_offset = 0, ub_max_chunk_bytes = max_file_chunk_bytes st, ub_expires_at = um_expires_at um\<rparr>))))))"

subsection \<open>\<open>upload_chunk\<close>\<close>

record upload_chunk_result =
  uc_duplicate :: bool
  uc_bytes_received :: int
  uc_next_offset :: int
  uc_complete :: bool

definition chunk_result_of :: "bool \<Rightarrow> int \<Rightarrow> int \<Rightarrow> upload_chunk_result" where
  "chunk_result_of duplicate n declared = \<lparr>uc_duplicate = duplicate, uc_bytes_received = n, uc_next_offset = n, uc_complete = (n = declared)\<rparr>"

definition append_chunk :: "settings \<Rightarrow> path_env \<Rightarrow> kernel \<Rightarrow> path \<Rightarrow> int \<Rightarrow> int \<Rightarrow> bytes \<Rightarrow> upload_chunk_result prog" where
  "append_chunk st env k staging declared offset data =
     bind_prog (open_staging st env k staging) (\<lambda>fd.
     bind_prog (do_call (sys_fstat fd)) (\<lambda>m.
       let current = st_size m; n = int (length data) in
       if offset < current then
         if offset + n > current then raise (ValueError ''Chunk partially overlaps existing upload data'')
         else
           bind_prog (open_staging st env k staging) (\<lambda>read_fd.
           bind_prog (do_call (sys_read_at read_fd (nat offset) (length data))) (\<lambda>existing.
             if existing \<noteq> data then raise (ValueError ''Conflicting retry: bytes at this offset differ'')
             else ret (chunk_result_of True current declared)))
       else if offset > current
       then raise (ValueError (''Expected offset '' @ int_str current @ '', got '' @ int_str offset))
       else if current + n > declared then raise (ValueError ''Chunk would exceed declared total_size'')
       else
         bind_prog (write_all (OSMessage ''Short write while appending upload chunk'') fd data) (\<lambda>_.
         bind_prog (do_call (sys_fsync fd)) (\<lambda>_. ret (chunk_result_of False (current + n) declared)))))"

definition not_open_message :: "string \<Rightarrow> string" where
  "not_open_message status = ''Upload is not open (status='' @ status @ '')''"

definition decoded_message :: "settings \<Rightarrow> string" where
  "decoded_message st = ''Decoded chunk exceeds '' @ int_str (max_file_chunk_bytes st) @ '' bytes''"

definition upload_chunk :: "(bytes \<Rightarrow> string) \<Rightarrow> settings \<Rightarrow> path_env \<Rightarrow> kernel \<Rightarrow> string \<Rightarrow> int \<Rightarrow> string \<Rightarrow> string option \<Rightarrow>
    upload_chunk_result xprog" where
  "upload_chunk sha st env k uid offset data_base64 chunk_sha256 =
     bind_prog (check (\<not> offset < 0) ''offset must be >= 0'') (\<lambda>_.
       case b64decode data_base64 of
         None \<Rightarrow> raise (ValueError ''data_base64 is not valid base64'')
       | Some data \<Rightarrow>
           bind_prog (check (\<not> int (length data) > max_file_chunk_bytes st) (decoded_message st)) (\<lambda>_.
           bind_prog
             (case chunk_sha256 of
                None \<Rightarrow> ret ()
              | Some v \<Rightarrow> bind_prog (validate_sha256 v) (\<lambda>expected. check (sha data = expected) ''Chunk SHA-256 mismatch'')) (\<lambda>_.
           bind_prog (current_meta st env k uid) (\<lambda>um.
           bind_prog (check (um_status um = ''open'') (not_open_message (um_status um))) (\<lambda>_.
           bind_prog (validated_meta_paths st env k um) (\<lambda>(_, staging).
             on_files (append_chunk st env k staging (um_total_size um) offset data)))))))"

subsection \<open>\<open>upload_status\<close> and \<open>abort_upload\<close>\<close>

record upload_status_result =
  us_upload_id :: string
  us_path :: string
  us_status :: string
  us_total_size :: int
  us_bytes_received :: int
  us_expected_sha256 :: string
  us_final_sha256 :: "string option"
  us_next_offset :: int
  us_expires_at :: int

definition status_of :: "upload_meta \<Rightarrow> string \<Rightarrow> int \<Rightarrow> upload_status_result" where
  "status_of um status received =
     \<lparr>us_upload_id = um_upload_id um, us_path = um_target_path um, us_status = status, us_total_size = um_total_size um,
      us_bytes_received = received, us_expected_sha256 = um_expected_sha256 um, us_final_sha256 = um_final_sha256 um,
      us_next_offset = received, us_expires_at = um_expires_at um\<rparr>"

definition upload_status :: "settings \<Rightarrow> path_env \<Rightarrow> kernel \<Rightarrow> string \<Rightarrow> upload_status_result xprog" where
  "upload_status st env k uid =
     bind_prog (current_meta st env k uid) (\<lambda>um.
     bind_prog
       (if um_status um = ''committed'' then ret (um_total_size um)
        else if um_status um \<in> {''aborted'', ''expired''} then ret 0
        else
          bind_prog (validated_meta_paths st env k um) (\<lambda>(_, staging).
            handle (on_files (staging_size st env k staging)) (\<lambda>e. if os_or_value_error e then ret 0 else raise e)))
       (\<lambda>received. ret (status_of um (um_status um) received)))"

definition abort_upload :: "settings \<Rightarrow> path_env \<Rightarrow> kernel \<Rightarrow> string \<Rightarrow> upload_status_result xprog" where
  "abort_upload st env k uid =
     bind_prog (load_meta uid) (\<lambda>um.
     bind_prog (check (um_status um \<noteq> ''committed'') ''Committed upload cannot be aborted'') (\<lambda>_.
     bind_prog (validated_meta_paths st env k um) (\<lambda>(_, staging).
     bind_prog (on_files (unlink_allowed st env k staging)) (\<lambda>_.
     bind_prog (write_meta (um\<lparr>um_status := ''aborted''\<rparr>)) (\<lambda>_.
       ret (status_of um ''aborted'' 0))))))"

subsection \<open>\<open>finish_upload\<close>\<close>

record upload_finish_result =
  uf_upload_id :: string
  uf_path :: string
  uf_bytes_written :: int
  uf_sha256 :: string
  uf_mode :: string
  uf_replaced :: bool
  uf_already_committed :: bool

definition incomplete_message :: "int \<Rightarrow> int \<Rightarrow> string" where
  "incomplete_message declared n = ''Upload incomplete: expected '' @ int_str declared @ '' bytes, have '' @ int_str n"

definition refuse_target :: "(ino \<times> meta) option \<Rightarrow> unit prog" where
  "refuse_target target_stat =
     (case target_stat of
        None \<Rightarrow> ret ()
      | Some (i, m) \<Rightarrow>
          if is_lnk m then raise (ValueError ''Refusing to replace a symlink upload destination'')
          else if \<not> is_reg m then raise (ValueError ''Destination appeared and is not a regular file'')
          else ret ())"

definition appeared_error :: exn where
  "appeared_error = ValueError ''Destination appeared after upload began and overwrite=false''"

text \<open>The staged file opened and measured; then its digest.\<close>

definition staged_digest :: "(bytes \<Rightarrow> string) \<Rightarrow> ino \<Rightarrow> string \<Rightarrow> int \<Rightarrow> (ino \<times> string) prog" where
  "staged_digest sha parent part declared =
     bind_prog (do_call (sys_open_nofollow False parent part)) (\<lambda>fd.
     bind_prog (fstat_regular fd ''Upload staging path is not a regular file'') (\<lambda>m.
     bind_prog (check (\<not> st_size m \<noteq> declared) (incomplete_message declared (st_size m))) (\<lambda>_.
     bind_prog (hash_fd sha fd) (\<lambda>(actual, _). ret (fd, actual)))))"

text \<open>Publishing the verified staging file; the result is \<open>replaced\<close>.\<close>

definition commit_rename :: "ino \<Rightarrow> string \<Rightarrow> string \<Rightarrow> bool \<Rightarrow> (ino \<times> meta) option \<Rightarrow> bool prog" where
  "commit_rename parent part target_name overwrite target_stat =
     (let publish_new = do_call (sys_rename_noreplace parent part parent target_name);
          replace = bind_prog (do_call (sys_replace parent part parent target_name)) (\<lambda>_. ret True) in
      if overwrite then
        (if target_stat = None then
           on_error publish_new
             (\<lambda>e. if e \<noteq> OSError EEXIST then raise e
                  else bind_prog (lstat_at parent target_name) (\<lambda>latest. bind_prog (refuse_target latest) (\<lambda>_. replace)))
             (\<lambda>_. ret False)
         else replace)
      else on_error publish_new (\<lambda>e. if e = OSError EEXIST then raise appeared_error else raise e) (\<lambda>_. ret False))"

definition commit_staged :: "ino \<Rightarrow> string \<Rightarrow> string \<Rightarrow> bool \<Rightarrow> int \<Rightarrow> ino \<Rightarrow> bool prog" where
  "commit_staged parent part target_name overwrite mode fd =
     bind_prog (lstat_at parent target_name) (\<lambda>target_stat.
     bind_prog (refuse_target target_stat) (\<lambda>_.
     bind_prog (if target_stat \<noteq> None \<and> \<not> overwrite then raise appeared_error else ret ()) (\<lambda>_.
     bind_prog (do_call (sys_fchmod fd mode)) (\<lambda>_.
     bind_prog (do_call (sys_fsync fd)) (\<lambda>_.
     bind_prog (do_call (sys_fstat fd)) (\<lambda>staged.
     bind_prog (do_call (sys_lstat parent part)) (\<lambda>now_there.
     bind_prog (check (is_reg (snd now_there)) ''Upload staging file changed during finalization'') (\<lambda>_.
     bind_prog (check (inode_identity now_there = inode_identity (fd, staged)) ''Upload staging file changed during finalization'') (\<lambda>_.
     bind_prog (commit_rename parent part target_name overwrite target_stat) (\<lambda>replaced.
     bind_prog (do_call (sys_fsync parent)) (\<lambda>_. ret replaced)))))))))))"

definition finish_result :: "upload_meta \<Rightarrow> string \<Rightarrow> string \<Rightarrow> bool \<Rightarrow> bool \<Rightarrow> upload_finish_result" where
  "finish_result um p digest replaced already =
     \<lparr>uf_upload_id = um_upload_id um, uf_path = p, uf_bytes_written = um_total_size um, uf_sha256 = digest,
      uf_mode = octal4 (um_mode um), uf_replaced = replaced, uf_already_committed = already\<rparr>"

definition finish_upload :: "(bytes \<Rightarrow> string) \<Rightarrow> settings \<Rightarrow> path_env \<Rightarrow> kernel \<Rightarrow> string \<Rightarrow> upload_finish_result xprog" where
  "finish_upload sha st env k uid =
     bind_prog (current_meta st env k uid) (\<lambda>um.
       if um_status um = ''committed''
       then ret (finish_result um (um_target_path um) (case um_final_sha256 um of Some d \<Rightarrow> d | None \<Rightarrow> ''None'') (um_replaced um) True)
       else
         bind_prog (check (um_status um = ''open'') (''Upload cannot be finalized (status='' @ um_status um @ '')'')) (\<lambda>_.
         bind_prog (validated_meta_paths st env k um) (\<lambda>(target, staging).
         bind_prog (on_files (open_parent_beneath st env k (path_str target))) (\<lambda>(parent, target_name, stable_target).
         bind_prog (check (butlast stable_target @ [last staging] = staging) ''Upload staging and target parents no longer match'') (\<lambda>_.
         bind_prog (on_files (staged_digest sha parent (last staging) (um_total_size um))) (\<lambda>(fd, actual).
           if actual \<noteq> um_expected_sha256 um
           then
             bind_prog (write_meta (um\<lparr>um_status := ''hash_mismatch'', um_final_sha256 := Some actual\<rparr>)) (\<lambda>_.
               raise (ValueError ''Final SHA-256 mismatch; upload was not committed''))
           else
             bind_prog (on_files (commit_staged parent (last staging) target_name (um_overwrite um) (um_mode um) fd)) (\<lambda>replaced.
             bind_prog now (\<lambda>t.
             bind_prog (write_meta (um\<lparr>um_status := ''committed'', um_final_sha256 := Some actual, um_committed_at := Some t,
                                        um_replaced := replaced\<rparr>)) (\<lambda>_.
               ret (finish_result um (path_str target) actual replaced False))))))))))"

subsection \<open>Downloads\<close>

record download_info_result =
  di_path :: string
  di_size :: int
  di_modified_ns :: int
  di_sha256 :: "string option"
  di_max_chunk_bytes :: int

definition download_info :: "(bytes \<Rightarrow> string) \<Rightarrow> settings \<Rightarrow> path_env \<Rightarrow> kernel \<Rightarrow> string \<Rightarrow> bool \<Rightarrow> download_info_result prog" where
  "download_info sha st env k path include_sha =
     bind_prog (open_beneath st env k path False False) (\<lambda>fd.
     bind_prog (fstat_regular fd ''Path is not a regular file'') (\<lambda>m.
     bind_prog (if include_sha then bind_prog (hash_fd sha fd) (\<lambda>(d, _). ret (Some d)) else ret None) (\<lambda>digest.
     bind_prog (resolved_str st env path) (\<lambda>p.
       ret \<lparr>di_path = p, di_size = st_size m, di_modified_ns = m_mtime m, di_sha256 = digest, di_max_chunk_bytes = max_file_chunk_bytes st\<rparr>))))"

definition download_chunk :: "settings \<Rightarrow> path_env \<Rightarrow> kernel \<Rightarrow> string \<Rightarrow> int \<Rightarrow> int \<Rightarrow> read_file_chunk_result prog" where
  "download_chunk = read_file_chunk"

end
