(* ===== verification/Upload_Steps.thy ===== *)
theory Upload_Steps
  imports Uploads File_Guard
begin

text \<open>
  What the transfers guarantee: a download followed to its end yields the file, the staging file is an
  append-only log of the declared bytes, and a finished upload publishes exactly the data the client sent.
\<close>

subsection \<open>Downloads\<close>

text \<open>One chunk request on the content of a file, without the wire format.\<close>

definition file_slice :: "bytes \<Rightarrow> nat \<Rightarrow> nat \<Rightarrow> exn + bytes \<times> nat \<times> bool" where
  "file_slice c off n =
     (if length c < off then Inl (ValueError ''offset is beyond end of file'')
      else let data = take n (drop off c) in Inr (data, off + length data, length c \<le> off + length data))"

interpretation file_chunks: cursor_source "\<lambda>c. 0" "\<lambda>c. c" limit file_slice for limit
  by unfold_locales (simp add: file_slice_def Let_def)

text \<open>The client decodes the Base64 of an answer.\<close>

definition download_at :: "settings \<Rightarrow> path_env \<Rightarrow> kernel \<Rightarrow> string \<Rightarrow> world \<Rightarrow> nat \<Rightarrow> nat \<Rightarrow> exn + bytes \<times> nat \<times> bool" where
  "download_at st env k path w off n =
     (case snd (download_chunk st env k path (int off) (int n) w) of
        Inl e \<Rightarrow> Inl e
      | Inr r \<Rightarrow>
          (case b64decode (rc_data_base64 r) of
             None \<Rightarrow> Inl (ValueError ''bad base64'')
           | Some data \<Rightarrow> Inr (data, nat (rc_next_offset r), rc_eof r)))"

lemma download_at_slice:
  assumes "schedule w = []" "open_beneath st env k path False False w = (w, Inr fd)" "reg_content (disk w) fd = Some c"
    and "resolve_allowed_path st env (Some path) None = Inr p" "1 \<le> n" "int n \<le> max_file_chunk_bytes st" "off \<le> length c"
  shows "download_at st env k path w off n = file_slice c off n"
proof -
  obtain m where m: "inodes (disk w) fd = Some m" "m_node m = Reg c"
    using assms(3) by (auto simp: reg_content_def split: option.splits node.splits)
  have "do_call (sys_read_at fd off n) w = (w, Inr (take n (drop off c)))"
    using assms(1,3) by (intro quiet_call) (simp_all add: sys_read_at_def read_all_reg)
  moreover have "int (length c) \<le> int off + int k \<longleftrightarrow> length c \<le> off + k" for k by linarith
  ultimately show ?thesis using assms m fstat_regular_quiet [OF assms(1) m]
    by (simp add: download_at_def download_chunk_def read_file_chunk_def prog_defs resolved_str_def file_slice_def st_size_def Let_def nat_add_distrib)
qed

lemma follow_cong:
  assumes "\<And>off. off \<le> N \<Longrightarrow> r1 s1 off n = r2 s2 off n" "\<And>off d o' e. r2 s2 off n = Inr (d, o', e) \<Longrightarrow> off \<le> N \<Longrightarrow> o' \<le> N"
  shows "off \<le> N \<Longrightarrow> follow r1 fuel s1 off n = follow r2 fuel s2 off n"
proof (induction fuel arbitrary: off)
  case (Suc fuel)
  then show ?case using assms(1) [OF Suc.prems] assms(2) [OF _ Suc.prems] by (auto split: sum.splits)
qed simp

text \<open>A client that asks for chunk after chunk at the offset each answer names, until the end flag is set, and
  decodes the Base64 of the answers, has the exact content of the file, whatever chunk size it chose.\<close>

theorem download_roundtrip:
  assumes "schedule w = []" "open_beneath st env k path False False w = (w, Inr fd)" "reg_content (disk w) fd = Some c"
    and "resolve_allowed_path st env (Some path) None = Inr p" "1 \<le> n" "int n \<le> max_file_chunk_bytes st"
  shows "follow (download_at st env k path) (Suc (length c)) w 0 n = Some c"
proof -
  have "follow (download_at st env k path) (Suc (length c)) w 0 n = follow file_slice (Suc (length c)) c 0 n"
    by (rule follow_cong [where N = "length c"])
      (use download_at_slice [OF assms(1-6)] in \<open>auto simp: file_slice_def Let_def split: if_split_asm\<close>)
  also have "\<dots> = Some c" using file_chunks.follow_complete [of 0 c n "nat (max_file_chunk_bytes st)" "Suc (length c)"] assms(5,6) by simp
  finally show ?thesis .
qed

subsection \<open>Content changes keep every path\<close>

definition link_at :: "fs \<Rightarrow> ino \<Rightarrow> string option" where
  "link_at f i = (case inodes f i of Some m \<Rightarrow> (case m_node m of Sym t \<Rightarrow> Some t | _ \<Rightarrow> None) | None \<Rightarrow> None)"

definition same_shape :: "fs \<Rightarrow> fs \<Rightarrow> bool" where
  "same_shape f g \<longleftrightarrow>
     (\<forall>i. entries f i = entries g i \<and> (inodes f i = None \<longleftrightarrow> inodes g i = None) \<and> link_at f i = link_at g i
        \<and> (reg_content f i = None \<longleftrightarrow> reg_content g i = None))"

lemma same_shape_refl [simp]: "same_shape f f"
  by (simp add: same_shape_def)

lemma same_shape_trans: "same_shape f g \<Longrightarrow> same_shape g h \<Longrightarrow> same_shape f h"
  by (simp add: same_shape_def)

lemma same_shape_set_node: "reg_content f i = Some c \<Longrightarrow> same_shape f (set_node i (Reg d) f)"
  by (auto simp: same_shape_def entries_def link_at_def inodes_set_node reg_content_def split: option.splits node.splits)

lemma shape_node:
  assumes "same_shape f g" "inodes f i = Some m"
  shows "\<exists>m'. inodes g i = Some m' \<and> (\<forall>t. m_node m = Sym t \<longleftrightarrow> m_node m' = Sym t)"
proof -
  from assms obtain m' where m': "inodes g i = Some m'" unfolding same_shape_def by (metis not_None_eq)
  have "link_at f i = link_at g i" using assms(1) by (simp add: same_shape_def)
  with assms(2) m' have "m_node m = Sym t \<longleftrightarrow> m_node m' = Sym t" for t
    by (cases "m_node m"; cases "m_node m'") (simp_all add: link_at_def)
  with m' show ?thesis by blast
qed

lemma walk_shape:
  "same_shape f g \<Longrightarrow> walk f b nl links stk cs = walk g b nl links stk cs"
proof (induction f b nl links stk cs rule: walk.induct)
  case (3 f b nl links cur up c cs)
  have e: "entries g cur = entries f cur" using "3.prems" by (simp add: same_shape_def)
  show ?case
  proof (cases "c = ''..''")
    case True
    with "3.prems" show ?thesis
      unfolding walk.simps(3) [of _ b nl links cur up c cs] e using "3.IH"(1,2) by (auto split: if_split)
  next
    case False
    show ?thesis
    proof (cases "entries f cur")
      case None
      with False show ?thesis unfolding walk.simps(3) [of _ b nl links cur up c cs] e by simp
    next
      case (Some es)
      show ?thesis
      proof (cases "map_of es c")
        case None
        with False Some show ?thesis unfolding walk.simps(3) [of _ b nl links cur up c cs] e by simp
      next
        case i: (Some i)
        show ?thesis
        proof (cases "inodes f i")
          case None
          moreover from this "3.prems" have "inodes g i = None" by (simp add: same_shape_def)
          ultimately show ?thesis using False Some i unfolding walk.simps(3) [of _ b nl links cur up c cs] e by simp
        next
          case m: (Some m)
          from shape_node [OF "3.prems" m] obtain m' where m': "inodes g i = Some m'" "\<And>t. m_node m = Sym t \<longleftrightarrow> m_node m' = Sym t" by blast
          note ih = "3.IH"(3-) [OF False Some i m]
          show ?thesis
          proof (cases "\<exists>t. m_node m = Sym t")
            case True
            then obtain t where t: "m_node m = Sym t" "m_node m' = Sym t" using m' by blast
            with False Some i m m' "3.prems" show ?thesis
              unfolding walk.simps(3) [of _ b nl links cur up c cs] e using ih by (auto split: if_split)
          next
            case False': False
            with m' have f': "\<not> (\<exists>t. m_node m' = Sym t)" by blast
            have "walk f b nl links (i # cur # up) cs = walk g b nl links (i # cur # up) cs"
              using ih False' "3.prems" by (cases "m_node m") auto
            with False Some i m m' False' f' show ?thesis
              unfolding walk.simps(3) [of _ b nl links cur up c cs] e by (auto split: node.splits)
          qed
        qed
      qed
    qed
  qed
qed (simp_all add: walk.simps)

text \<open>A path that the first \<open>openat2\<close> of \<open>open_beneath\<close> resolves.\<close>

definition opens :: "settings \<Rightarrow> path_env \<Rightarrow> fs \<Rightarrow> string \<Rightarrow> bool \<Rightarrow> bool \<Rightarrow> ino \<Rightarrow> bool" where
  "opens st env f raw dir no_links fd \<longleftrightarrow>
     (\<exists>root rel lexical r. lexical_root st env raw = Inr (root, rel, lexical) \<and> walk f False False max_links [0] root = Inr r
        \<and> entries f r \<noteq> None \<and> walk f True no_links max_links [r] rel = Inr fd \<and> (dir \<longrightarrow> entries f fd \<noteq> None))"

lemma opens_shape: "opens st env f raw dir no_links fd \<Longrightarrow> same_shape f g \<Longrightarrow> opens st env g raw dir no_links fd"
proof -
  assume o: "opens st env f raw dir no_links fd" and s: "same_shape f g"
  then have e: "entries f i = entries g i" for i by (simp add: same_shape_def)
  from o show ?thesis unfolding opens_def walk_shape [OF s] e .
qed

lemma opens_run:
  assumes "opens st env (disk w) raw dir no_links fd" "openat2_refused k = None" "schedule w = []"
  shows "open_beneath st env k raw dir no_links w = (w, Inr fd)"
proof -
  from assms(1) obtain root rel lexical r where l: "lexical_root st env raw = Inr (root, rel, lexical)"
    and r: "walk (disk w) False False max_links [0] root = Inr r" "entries (disk w) r \<noteq> None"
    and f: "walk (disk w) True no_links max_links [r] rel = Inr fd" "dir \<longrightarrow> entries (disk w) fd \<noteq> None"
    by (auto simp: opens_def)
  have "do_call (sys_open_path root True False) w = (w, Inr r)"
    using assms(3) r by (intro quiet_call) (auto simp: sys_open_path_def opened_def)
  moreover have "do_call (sys_openat2 k r rel dir no_links) w = (w, Inr fd)"
    using assms(2,3) f by (intro quiet_call) (auto simp: sys_openat2_def opened_def)
  ultimately show ?thesis using l by (simp add: open_beneath_def prog_defs)
qed

subsection \<open>The staging file as an append-only log\<close>

text \<open>The specification of one chunk on the bytes received so far.\<close>

definition chunk_spec :: "int \<Rightarrow> int \<Rightarrow> bytes \<Rightarrow> bytes \<Rightarrow> exn + bytes \<times> upload_chunk_result" where
  "chunk_spec declared offset data c =
     (if offset < int (length c) then
        (if offset + int (length data) > int (length c) then Inl (ValueError ''Chunk partially overlaps existing upload data'')
         else if take (length data) (drop (nat offset) c) \<noteq> data then Inl (ValueError ''Conflicting retry: bytes at this offset differ'')
         else Inr (c, chunk_result_of True (int (length c)) declared))
      else if offset > int (length c)
      then Inl (ValueError (''Expected offset '' @ int_str (int (length c)) @ '', got '' @ int_str offset))
      else if int (length c) + int (length data) > declared then Inl (ValueError ''Chunk would exceed declared total_size'')
      else Inr (c @ data, chunk_result_of False (int (length (c @ data))) declared))"

lemma quiet_write_all:
  assumes "schedule w = []" "reg_content (disk w) fd = Some c"
  shows "\<exists>f. write_all e fd data w = (w\<lparr>disk := f\<rparr>, Inr ()) \<and> reg_content f fd = Some (c @ data) \<and> same_shape (disk w) f"
  using assms
proof (induction "length data" arbitrary: data c w rule: less_induct)
  case less
  show ?case
  proof (cases "data = []")
    case True
    with less.prems show ?thesis by (subst write_all.simps) (intro exI [of _ "disk w"], simp)
  next
    case False
    let ?f = "set_node fd (Reg (c @ take write_cap data)) (disk w)" and ?n = "min write_cap (length data)"
    have "sys_write fd data (disk w) = (?f, Inr ?n)"
      using less.prems(2) by (auto simp: sys_write_def reg_content_def split: option.splits node.splits)
    then have d: "do_call (sys_write fd data) w = (w\<lparr>disk := ?f\<rparr>, Inr ?n)"
      using less.prems(1) by (simp add: do_call_def)
    have n: "0 < ?n" using False by (simp add: write_cap_def)
    have "inodes (disk w) fd \<noteq> None" using less.prems(2) by (auto simp: reg_content_def split: option.splits)
    then have c: "reg_content ?f fd = Some (c @ take write_cap data)"
      by (auto simp: reg_content_def inodes_set_node)
    from n False obtain f where f: "write_all e fd (drop ?n data) (w\<lparr>disk := ?f\<rparr>) = (w\<lparr>disk := f\<rparr>, Inr ())"
      "reg_content f fd = Some ((c @ take write_cap data) @ drop ?n data)" "same_shape ?f f"
      using less.hyps [of "drop ?n data" "w\<lparr>disk := ?f\<rparr>" "c @ take write_cap data"] less.prems(1) c by auto
    have "take write_cap data @ drop ?n data = data"
      by (cases "write_cap \<le> length data") (simp_all add: min_def)
    moreover have "write_all e fd data w = (w\<lparr>disk := f\<rparr>, Inr ())"
      using d n False f(1) by (subst write_all.simps) simp
    moreover have "same_shape (disk w) f" using same_shape_set_node [OF less.prems(2)] f(3) by (rule same_shape_trans)
    ultimately show ?thesis using f(2) by (intro exI [of _ f]) simp
  qed
qed

lemma upload_chunk_refines_lemma:
  assumes "schedule w = []" "openat2_refused k = None" "opens st env (disk w) (path_str staging) False True fd"
    and "reg_content (disk w) fd = Some c" "0 \<le> offset"
  shows "\<exists>f. append_chunk st env k staging declared offset data w
      = (w\<lparr>disk := f\<rparr>, case chunk_spec declared offset data c of Inl e \<Rightarrow> Inl e | Inr (_, r) \<Rightarrow> Inr r)
    \<and> reg_content f fd = Some (case chunk_spec declared offset data c of Inl e \<Rightarrow> c | Inr (c', _) \<Rightarrow> c')
    \<and> same_shape (disk w) f"
proof -
  obtain m where m: "inodes (disk w) fd = Some m" "m_node m = Reg c"
    using assms(4) by (auto simp: reg_content_def split: option.splits node.splits)
  note run = opens_run [OF assms(3,2,1)]
  have os: "open_staging st env k staging w = (w, Inr fd)"
    using run fstat_regular_quiet [OF assms(1) m] by (simp add: open_staging_def prog_defs)
  have st: "do_call (sys_fstat fd) w = (w, Inr m)" using assms(1) m by (intro quiet_call) (simp_all add: sys_fstat_def)
  have sz: "st_size m = int (length c)" using m(2) by (simp add: st_size_def)
  have rd: "do_call (sys_read_at fd (nat offset) (length data)) w = (w, Inr (take (length data) (drop (nat offset) c)))"
    using assms(1,4) by (intro quiet_call) (simp_all add: sys_read_at_def read_all_reg)
  obtain f where wa: "write_all (OSMessage ''Short write while appending upload chunk'') fd data w = (w\<lparr>disk := f\<rparr>, Inr ())"
    "reg_content f fd = Some (c @ data)" "same_shape (disk w) f"
    using quiet_write_all [OF assms(1,4)] by blast
  have fs: "do_call (sys_fsync fd) (w\<lparr>disk := f\<rparr>) = (w\<lparr>disk := f\<rparr>, Inr ())"
    using assms(1) by (simp add: do_call_def sys_fsync_def)
  consider "offset < int (length c)" | "int (length c) < offset" | "offset = int (length c)" "declared < offset + int (length data)"
    | "offset = int (length c)" "offset + int (length data) \<le> declared" by linarith
  then show ?thesis
  proof cases
    case 4
    then show ?thesis
      using os st wa fs by (intro exI [of _ f]) (simp add: append_chunk_def prog_defs sz chunk_spec_def)
  qed (use os st rd assms(4) in \<open>intro exI [of _ "disk w"], simp add: append_chunk_def prog_defs sz chunk_spec_def\<close>)+
qed

text \<open>C29. A chunk refines the append-only log: with nothing else running it answers and raises exactly as the
  specification on the bytes received so far, and the staging file then holds the bytes of the specification.\<close>

theorem upload_chunk_refines:
  assumes "schedule w = []" "openat2_refused k = None" "opens st env (disk w) (path_str staging) False True fd"
    and "reg_content (disk w) fd = Some c" "0 \<le> offset"
  shows "\<exists>f. append_chunk st env k staging declared offset data w
      = (w\<lparr>disk := f\<rparr>, case chunk_spec declared offset data c of Inl e \<Rightarrow> Inl e | Inr (_, r) \<Rightarrow> Inr r)
    \<and> reg_content f fd = Some (case chunk_spec declared offset data c of Inl e \<Rightarrow> c | Inr (c', _) \<Rightarrow> c')
    \<and> same_shape (disk w) f"
  using assms by (rule upload_chunk_refines_lemma)

subsection \<open>A whole upload\<close>

definition parent_opens :: "settings \<Rightarrow> path_env \<Rightarrow> fs \<Rightarrow> path \<Rightarrow> ino \<Rightarrow> bool" where
  "parent_opens st env f p parent \<longleftrightarrow>
     (\<exists>root rel. lexical_root st env (path_str p) = Inr (root, rel, p)) \<and> p \<notin> set (allowed_roots st)
     \<and> opens st env f (path_str (butlast p)) True False parent"

lemma parent_opens_run:
  assumes "parent_opens st env (disk w) p parent" "openat2_refused k = None" "schedule w = []"
  shows "open_parent_beneath st env k (path_str p) w = (w, Inr (parent, last p, p))"
  using assms opens_run [of st env w "path_str (butlast p)" True False parent k]
  by (auto simp: parent_opens_def open_parent_beneath_def prog_defs)

text \<open>An open upload on a quiet host: its metadata, its staging file \<open>fd\<close> in the directory of the target.\<close>

definition upload_open :: "settings \<Rightarrow> path_env \<Rightarrow> xfer \<Rightarrow> upload_meta \<Rightarrow> path \<Rightarrow> path \<Rightarrow> ino \<Rightarrow> ino \<Rightarrow> bool" where
  "upload_open st env s um target staging parent fd \<longleftrightarrow>
     uploads s (um_upload_id um) = Some (Some um) \<and> upload_id_ok (um_upload_id um) \<and> um_status um = ''open''
     \<and> clock s \<le> um_expires_at um \<and> schedule (files s) = []
     \<and> um_target_path um = path_str target \<and> um_staging_path um = path_str staging
     \<and> target \<noteq> [] \<and> staging = butlast target @ [part_name (last target) (um_upload_id um)]
     \<and> parent_opens st env (disk (files s)) target parent \<and> parent_opens st env (disk (files s)) staging parent
     \<and> opens st env (disk (files s)) (path_str staging) False True fd
     \<and> lookup_at (disk (files s)) parent (last staging) = Some fd"

lemma upload_open_shape:
  "upload_open st env s um target staging parent fd \<Longrightarrow> same_shape (disk (files s)) f \<Longrightarrow>
   upload_open st env (s\<lparr>files := (files s)\<lparr>disk := f\<rparr>\<rparr>) um target staging parent fd"
  unfolding upload_open_def parent_opens_def
  by (auto intro: opens_shape) (auto simp: same_shape_def lookup_at_def)

lemma on_files_run: "p (files s) = (w, r) \<Longrightarrow> on_files p s = (s\<lparr>files := w\<rparr>, r)"
  by (simp add: on_files_def)

lemma current_meta_run:
  assumes "upload_open st env s um target staging parent fd"
  shows "current_meta st env k (um_upload_id um) s = (s, Inr um)"
  using assms by (auto simp: upload_open_def current_meta_def load_meta_def validate_upload_id_def expire_if_needed_def now_def prog_defs)

lemma meta_paths_run:
  assumes "upload_open st env s um target staging parent fd" "openat2_refused k = None"
  shows "validated_meta_paths st env k um s = (s, Inr (target, staging))"
proof -
  from assms have "on_files (open_parent_beneath st env k (um_target_path um)) s = (s, Inr (parent, last target, target))"
    "on_files (open_parent_beneath st env k (um_staging_path um)) s = (s, Inr (parent, last staging, staging))"
    by (auto simp: upload_open_def parent_opens_run on_files_def)
  with assms(1) show ?thesis
    by (simp add: validated_meta_paths_def validate_upload_id_def prog_defs upload_open_def)
qed

lemma upload_chunk_run:
  assumes "upload_open st env s um target staging parent fd" "openat2_refused k = None"
    and "0 \<le> offset" "int (length data) \<le> max_file_chunk_bytes st"
  shows "upload_chunk sha st env k (um_upload_id um) offset (b64encode data) None s
    = on_files (append_chunk st env k staging (um_total_size um) offset data) s"
  using assms current_meta_run [OF assms(1)] meta_paths_run [OF assms(1,2)]
  by (simp add: upload_chunk_def prog_defs upload_open_def)

text \<open>The client: it sends \<open>n\<close> bytes at the offset the last answer named, until an answer says the upload is
  complete.\<close>

fun upload_client :: "(bytes \<Rightarrow> string) \<Rightarrow> settings \<Rightarrow> path_env \<Rightarrow> kernel \<Rightarrow> string \<Rightarrow> nat \<Rightarrow> bytes \<Rightarrow> nat \<Rightarrow> nat \<Rightarrow> bool xprog" where
  "upload_client sha st env k uid n content 0 off = ret False"
| "upload_client sha st env k uid n content (Suc fuel) off =
     bind_prog (upload_chunk sha st env k uid (int off) (b64encode (take n (drop off content))) None) (\<lambda>r.
       if uc_complete r then ret True else upload_client sha st env k uid n content fuel (nat (uc_next_offset r)))"

lemma upload_client_run:
  assumes "upload_open st env s um target staging parent fd" "openat2_refused k = None"
    and "um_total_size um = int (length content)" "1 \<le> n" "int n \<le> max_file_chunk_bytes st"
    and "reg_content (disk (files s)) fd = Some (take off content)" "off \<le> length content" "length content - off < fuel"
  shows "\<exists>s'. upload_client sha st env k (um_upload_id um) n content fuel off s = (s', Inr True)
    \<and> upload_open st env s' um target staging parent fd \<and> reg_content (disk (files s')) fd = Some content
    \<and> same_shape (disk (files s)) (disk (files s')) \<and> write_faults s' = write_faults s"
  using assms
proof (induction fuel arbitrary: off s)
  case (Suc fuel)
  let ?data = "take n (drop off content)" and ?c = "take off content"
  have len: "int (length ?data) \<le> max_file_chunk_bytes st" "length ?c = off" using Suc.prems(5,7) by auto
  have app: "?c @ ?data = take (off + n) content" by (simp add: take_add)
  have spec: "chunk_spec (um_total_size um) (int off) ?data ?c
      = Inr (?c @ ?data, chunk_result_of False (int (length (?c @ ?data))) (um_total_size um))"
  proof -
    have "off + length ?data \<le> length content" using Suc.prems(7) by simp
    then have "int (length ?c) + int (length ?data) \<le> um_total_size um" using Suc.prems(3) len(2) by linarith
    with len(2) show ?thesis by (simp add: chunk_spec_def del: length_take length_drop)
  qed
  have "schedule (files s) = []" "opens st env (disk (files s)) (path_str staging) False True fd"
    using Suc.prems(1) by (auto simp: upload_open_def)
  from upload_chunk_refines_lemma [OF this(1) Suc.prems(2) this(2) Suc.prems(6), of "int off" "um_total_size um" ?data] spec
  obtain f where f: "append_chunk st env k staging (um_total_size um) (int off) ?data (files s)
      = ((files s)\<lparr>disk := f\<rparr>, Inr (chunk_result_of False (int (length (?c @ ?data))) (um_total_size um)))"
    "reg_content f fd = Some (?c @ ?data)" "same_shape (disk (files s)) f" by auto
  let ?s = "s\<lparr>files := (files s)\<lparr>disk := f\<rparr>\<rparr>"
  have call: "upload_chunk sha st env k (um_upload_id um) (int off) (b64encode ?data) None s
      = (?s, Inr (chunk_result_of False (int (length (?c @ ?data))) (um_total_size um)))"
    using upload_chunk_run [OF Suc.prems(1,2) _ len(1), of "int off"] by (simp add: on_files_def f(1))
  have open': "upload_open st env ?s um target staging parent fd" by (rule upload_open_shape [OF Suc.prems(1) f(3)])
  show ?case
  proof (cases "length content \<le> off + n")
    case True
    with app have all: "?c @ ?data = content" by simp
    with call Suc.prems(3) have "upload_client sha st env k (um_upload_id um) n content (Suc fuel) off s = (?s, Inr True)"
      by (simp add: prog_defs chunk_result_of_def)
    with open' f all show ?thesis by (intro exI [of _ ?s]) simp
  next
    case False
    then have l: "length (?c @ ?data) = off + n" unfolding app by simp
    with call False Suc.prems(3) have step: "upload_client sha st env k (um_upload_id um) n content (Suc fuel) off s
        = upload_client sha st env k (um_upload_id um) n content fuel (off + n) ?s"
      by (simp add: prog_defs chunk_result_of_def nat_add_distrib)
    have "reg_content (disk (files ?s)) fd = Some (take (off + n) content)" using f(2) app by simp
    moreover have "off + n \<le> length content" "length content - (off + n) < fuel" using False Suc.prems(4,8) by linarith+
    ultimately obtain s' where
      "upload_client sha st env k (um_upload_id um) n content fuel (off + n) ?s = (s', Inr True)"
      "upload_open st env s' um target staging parent fd" "reg_content (disk (files s')) fd = Some content"
      "same_shape f (disk (files s'))" "write_faults s' = write_faults s"
      using Suc.IH [OF open' Suc.prems(2-5)] by auto
    with step f(3) show ?thesis by (intro exI [of _ s']) (auto intro: same_shape_trans)
  qed
qed simp

text \<open>Publishing: the target of the upload is missing, or is a regular file the upload may overwrite.\<close>

definition target_free :: "fs \<Rightarrow> ino \<Rightarrow> string \<Rightarrow> bool \<Rightarrow> bool" where
  "target_free f parent name overwrite \<longleftrightarrow>
     lookup_at f parent name = None \<or> overwrite \<and> (\<exists>j. lookup_at f parent name = Some j \<and> reg_content f j \<noteq> None)"

definition chmod_inode :: "ino \<Rightarrow> int \<Rightarrow> fs \<Rightarrow> fs" where
  "chmod_inode i perm f = fst (sys_fchmod i perm f)"

lemma chmod_inode_facts [simp]:
  "entries (chmod_inode i perm f) d = entries f d" "lookup_at (chmod_inode i perm f) d n = lookup_at f d n"
  "reg_content (chmod_inode i perm f) j = reg_content f j" "dev_of (chmod_inode i perm f) j = dev_of f j"
  by (auto simp: chmod_inode_def sys_fchmod_def sys_error_def entries_def lookup_at_def reg_content_def dev_of_def split: option.splits)

lemma reg_meta:
  assumes "reg_content f i = Some c"
  obtains m where "inodes f i = Some m" "m_node m = Reg c" "is_reg m" "\<not> is_lnk m" "\<not> is_dir m" "st_size m = int (length c)"
  using assms by (auto simp: reg_content_def is_reg_def is_lnk_def is_dir_def st_size_def split: option.splits node.splits)

lemma commit_rename_run:
  assumes "schedule w = []" "lookup_at (disk w) parent part = Some fd" "reg_content (disk w) fd = Some c" "part \<noteq> name"
    and "target_free (disk w) parent name overwrite" "target_stat = None \<longleftrightarrow> lookup_at (disk w) parent name = None"
  shows "commit_rename parent part name overwrite target_stat w
    = (w\<lparr>disk := set_entry parent name fd (drop_entry parent part (disk w))\<rparr>, Inr (target_stat \<noteq> None))"
proof (cases "lookup_at (disk w) parent name")
  case None
  with assms(6) have none: "target_stat = None" by simp
  have e: "entries (disk w) parent \<noteq> None" using assms(2) by (rule lookup_entries)
  then have "fd \<noteq> parent" using reg_no_entries [OF assms(3)] by auto
  then have cd: "\<not> contains_dir (disk w) (fresh_ino (disk w)) fd parent"
    using reg_no_entries [OF assms(3)] by (simp add: contains_dir_plain)
  from e obtain es where "entries (disk w) parent = Some es" by auto
  with None cd assms(1,2) have "do_call (sys_rename_noreplace parent part parent name) w = (w\<lparr>disk := set_entry parent name fd (drop_entry parent part (disk w))\<rparr>, Inr ())"
    by (simp add: do_call_def sys_rename_noreplace_def)
  with none show ?thesis by (simp add: commit_rename_def on_error_def attempt_def prog_defs Let_def)
next
  case (Some j)
  with assms(5) obtain cj where j: "reg_content (disk w) j = Some cj" "overwrite" by (auto simp: target_free_def)
  from j(1) obtain m where m: "inodes (disk w) j = Some m" "\<not> is_dir m" by (rule reg_meta)
  from assms(6) Some obtain x where some: "target_stat = Some x" by (cases target_stat) auto
  obtain es where "entries (disk w) parent = Some es" using lookup_entries [OF assms(2)] by auto
  with Some m assms(1,2) have "do_call (sys_replace parent part parent name) w = (w\<lparr>disk := set_entry parent name fd (drop_entry parent part (disk w))\<rparr>, Inr ())"
    by (simp add: do_call_def sys_replace_def)
  with some j(2) show ?thesis by (simp add: commit_rename_def on_error_def attempt_def prog_defs Let_def)
qed

lemma quiet_lstat_none:
  "schedule w = [] \<Longrightarrow> lookup_at (disk w) d n = None \<Longrightarrow> lstat_at d n w = (w, Inr None)"
  by (simp add: lstat_at_def prog_defs do_call_def sys_lstat_def sys_error_def)

lemma commit_staged_run:
  assumes "schedule w = []" "lookup_at (disk w) parent part = Some fd" "reg_content (disk w) fd = Some c" "part \<noteq> name"
    and "target_free (disk w) parent name overwrite"
  shows "\<exists>f. commit_staged parent part name overwrite mode fd w = (w\<lparr>disk := f\<rparr>, Inr (lookup_at (disk w) parent name \<noteq> None))
    \<and> lookup_at f parent = (lookup_at (disk w) parent)(part := None, name \<mapsto> fd) \<and> reg_content f fd = Some c"
proof -
  let ?w1 = "w\<lparr>disk := chmod_inode fd mode (disk w)\<rparr>"
  let ?f = "set_entry parent name fd (drop_entry parent part (disk ?w1))"
  obtain ts where ts: "lstat_at parent name w = (w, Inr ts)" "ts = None \<longleftrightarrow> lookup_at (disk w) parent name = None"
    "refuse_target ts w = (w, Inr ())"
  proof (cases "lookup_at (disk w) parent name")
    case None
    with that [of None] quiet_lstat_none [OF assms(1) None] show ?thesis by (simp add: refuse_target_def prog_defs)
  next
    case (Some j)
    with assms(5) obtain cj where "reg_content (disk w) j = Some cj" by (auto simp: target_free_def)
    then obtain m where "inodes (disk w) j = Some m" "is_reg m" "\<not> is_lnk m" by (rule reg_meta)
    with that [of "Some (j, m)"] quiet_lstat_at [OF assms(1) Some] Some show ?thesis by (simp add: refuse_target_def prog_defs)
  qed
  have ok: "ts = None \<or> overwrite" using ts(2) assms(5) by (auto simp: target_free_def)
  obtain m0 where m0: "inodes (disk w) fd = Some m0" using assms(3) by (rule reg_meta)
  have ch: "do_call (sys_fchmod fd mode) w = (?w1, Inr ())"
    using assms(1) m0 by (simp add: do_call_def sys_fchmod_def chmod_inode_def)
  have "reg_content (disk ?w1) fd = Some c" using assms(3) by simp
  then obtain m where m: "inodes (disk ?w1) fd = Some m" "is_reg m" by (rule reg_meta)
  have s1: "schedule ?w1 = []" using assms(1) by simp
  have fs: "do_call (sys_fsync i) v = (v, Inr ())" if "schedule v = []" for i v
    using that by (simp add: do_call_def sys_fsync_def)
  have st: "do_call (sys_fstat fd) ?w1 = (?w1, Inr m)" using s1 m(1) by (intro quiet_call) (simp_all add: sys_fstat_def)
  have ls: "do_call (sys_lstat parent part) ?w1 = (?w1, Inr (fd, m))"
    using s1 m(1) assms(2) by (intro quiet_call) (simp_all add: sys_lstat_def)
  have cr: "commit_rename parent part name overwrite ts ?w1 = (?w1\<lparr>disk := ?f\<rparr>, Inr (ts \<noteq> None))"
  proof (rule commit_rename_run [OF s1 _ _ assms(4)])
    show "ts = None \<longleftrightarrow> lookup_at (disk ?w1) parent name = None" using ts(2) by simp
  qed (use assms in \<open>simp_all add: target_free_def\<close>)
  have "commit_staged parent part name overwrite mode fd w = (?w1\<lparr>disk := ?f\<rparr>, Inr (ts \<noteq> None))"
    using ts ok ch fs st ls cr m(2) s1 assms(1) by (auto simp: commit_staged_def prog_defs)
  moreover have "lookup_at ?f parent = (lookup_at (disk w) parent)(part := None, name \<mapsto> fd)"
    using lookup_entries [OF assms(2)] by (auto simp: lookup_set_entry lookup_drop_entry fun_eq_iff)
  ultimately show ?thesis using assms(3) ts(2) by (intro exI [of _ ?f]) simp
qed

lemma staged_digest_run:
  assumes "schedule w = []" "lookup_at (disk w) parent part = Some fd" "reg_content (disk w) fd = Some c"
  shows "staged_digest sha parent part (int (length c)) w = (w, Inr (fd, sha c))"
proof -
  obtain m where m: "inodes (disk w) fd = Some m" "m_node m = Reg c" "st_size m = int (length c)" using assms(3) by (rule reg_meta)
  show ?thesis
    using quiet_open [OF assms] fstat_regular_quiet [OF assms(1) m(1,2)] quiet_hash [OF assms(1,3), of sha] m(3)
    by (simp add: staged_digest_def prog_defs)
qed

lemma finish_upload_run:
  assumes "upload_open st env s um target staging parent fd" "openat2_refused k = None" "write_faults s = []"
    and "reg_content (disk (files s)) fd = Some content" "um_total_size um = int (length content)" "um_expected_sha256 um = sha content"
    and "target_free (disk (files s)) parent (last target) (um_overwrite um)" "last staging \<noteq> last target"
  shows "\<exists>s' r. finish_upload sha st env k (um_upload_id um) s = (s', Inr r)
    \<and> uf_already_committed r = False \<and> uf_sha256 r = sha content
    \<and> lookup_at (disk (files s')) parent = (lookup_at (disk (files s)) parent)(last staging := None, last target \<mapsto> fd)
    \<and> reg_content (disk (files s')) fd = Some content
    \<and> (\<exists>um'. uploads s' (um_upload_id um) = Some (Some um') \<and> um_status um' = ''committed'' \<and> um_final_sha256 um' = Some (sha content))"
proof -
  note cm = current_meta_run [OF assms(1), of k] and mp = meta_paths_run [OF assms(1,2)]
  have q: "schedule (files s) = []" "lookup_at (disk (files s)) parent (last staging) = Some fd"
    "parent_opens st env (disk (files s)) target parent" "upload_id_ok (um_upload_id um)" "um_status um = ''open''"
    "butlast target @ [last staging] = staging"
    using assms(1) by (auto simp: upload_open_def)
  have op: "on_files (open_parent_beneath st env k (path_str target)) s = (s, Inr (parent, last target, target))"
    by (simp add: on_files_def parent_opens_run [OF q(3) assms(2) q(1)])
  have dg: "on_files (staged_digest sha parent (last staging) (um_total_size um)) s = (s, Inr (fd, sha content))"
    using staged_digest_run [OF q(1,2) assms(4), of sha] by (simp add: on_files_def assms(5))
  from commit_staged_run [OF q(1,2) assms(4,8,7), of "um_mode um"] obtain f where f:
    "commit_staged parent (last staging) (last target) (um_overwrite um) (um_mode um) fd (files s)
      = ((files s)\<lparr>disk := f\<rparr>, Inr (lookup_at (disk (files s)) parent (last target) \<noteq> None))"
    "lookup_at f parent = (lookup_at (disk (files s)) parent)(last staging := None, last target \<mapsto> fd)"
    "reg_content f fd = Some content" by blast
  let ?r = "lookup_at (disk (files s)) parent (last target) \<noteq> None"
  let ?um = "um\<lparr>um_status := ''committed'', um_final_sha256 := Some (sha content), um_committed_at := Some (clock s), um_replaced := ?r\<rparr>"
  let ?s1 = "s\<lparr>files := (files s)\<lparr>disk := f\<rparr>\<rparr>"
  let ?s2 = "?s1\<lparr>uploads := (uploads s)(um_upload_id um \<mapsto> Some ?um)\<rparr>"
  have cs: "on_files (commit_staged parent (last staging) (last target) (um_overwrite um) (um_mode um) fd) s = (?s1, Inr ?r)"
    by (simp add: on_files_def f(1))
  have wm: "write_meta ?um ?s1 = (?s2, Inr ())"
    using assms(3) q(4) by (simp add: write_meta_def validate_upload_id_def prog_defs)
  have "finish_upload sha st env k (um_upload_id um) s = (?s2, Inr (finish_result um (path_str target) (sha content) ?r False))"
    using cm mp op dg cs wm q(5,6) assms(6) by (simp add: finish_upload_def prog_defs now_def)
  with f(2,3) show ?thesis by (intro exI [of _ ?s2] exI) (auto simp: finish_result_def)
qed

text \<open>C17. A client that sends its data in chunks of any allowed size, encoded in Base64, each at the offset the last
  answer named, completes the upload after finitely many calls; finishing it then publishes exactly that data under the
  target name, removes the staging entry and records the upload as committed with the digest of the data.\<close>

theorem upload_roundtrip:
  assumes "upload_open st env s um target staging parent fd" "openat2_refused k = None" "write_faults s = []"
    and "reg_content (disk (files s)) fd = Some []" "um_total_size um = int (length content)" "um_expected_sha256 um = sha content"
    and "target_free (disk (files s)) parent (last target) (um_overwrite um)" "last staging \<noteq> last target"
    and "1 \<le> n" "int n \<le> max_file_chunk_bytes st"
  shows "\<exists>s1 s2 r. upload_client sha st env k (um_upload_id um) n content (Suc (length content)) 0 s = (s1, Inr True)
    \<and> finish_upload sha st env k (um_upload_id um) s1 = (s2, Inr r) \<and> uf_sha256 r = sha content
    \<and> lookup_at (disk (files s2)) parent = (lookup_at (disk (files s)) parent)(last staging := None, last target \<mapsto> fd)
    \<and> reg_content (disk (files s2)) fd = Some content
    \<and> (\<exists>um'. uploads s2 (um_upload_id um) = Some (Some um') \<and> um_status um' = ''committed'' \<and> um_final_sha256 um' = Some (sha content))"
proof -
  from upload_client_run [OF assms(1,2,5,9,10), of 0 "Suc (length content)"] assms(3,4) obtain s1 where
    s1: "upload_client sha st env k (um_upload_id um) n content (Suc (length content)) 0 s = (s1, Inr True)"
    and o1: "upload_open st env s1 um target staging parent fd" "reg_content (disk (files s1)) fd = Some content"
    and sh: "same_shape (disk (files s)) (disk (files s1))" and wf: "write_faults s1 = []" by auto
  have l: "lookup_at (disk (files s1)) d m = lookup_at (disk (files s)) d m" for d m
    using sh by (simp add: same_shape_def lookup_at_def)
  have "target_free (disk (files s1)) parent (last target) (um_overwrite um)"
  proof -
    have rc: "reg_content (disk (files s1)) j = None \<longleftrightarrow> reg_content (disk (files s)) j = None" for j
      using sh by (simp add: same_shape_def)
    from assms(7) show ?thesis by (simp only: target_free_def l rc)
  qed
  from finish_upload_run [where sha = sha, OF o1(1) assms(2) wf o1(2) assms(5,6) this assms(8)] s1 show ?thesis
    unfolding l [abs_def] by blast
qed

subsection \<open>The properties at concrete inputs\<close>

lemma sample_chunk_limit: "max_file_chunk_bytes sample_settings = 262144"
  by (simp add: sample_settings_def default_settings_def)

theorem download_roundtrip_witness:
  "follow (download_at sample_settings plain_env plain_kernel ''/srv/link/log'') 6 \<lparr>disk = sample_disk ''hello'', schedule = []\<rparr> 0 2 = Some ''hello''"
proof -
  have c: "reg_content (disk \<lparr>disk = sample_disk ''hello'', schedule = []\<rparr>) 3 = Some ''hello''"
    by (simp add: reg_content_def sample_disk_def file_meta_def)
  show ?thesis
    using download_roundtrip [OF _ sample_open c sample_resolve, of 2] sample_chunk_limit
    by (simp add: numeral_eq_Suc del: follow.simps)
qed

definition sample_uid :: string where
  "sample_uid = replicate 32 (CHR ''a'')"

definition upload_disk :: "bytes \<Rightarrow> fs" where
  "upload_disk c =
     \<lparr>inodes = [0 \<mapsto> file_meta (Dir [(''srv'', 7)]), 7 \<mapsto> file_meta (Dir [(part_name ''a'' sample_uid, 2)]), 2 \<mapsto> file_meta (Reg c)],
      fresh_ino = 8, fs_now = 10\<rparr>"

definition sample_upload :: upload_meta where
  "sample_upload =
     \<lparr>um_upload_id = sample_uid, um_target_path = ''/srv/a'', um_staging_path = ''/srv/'' @ part_name ''a'' sample_uid,
      um_total_size = 5, um_expected_sha256 = ''hello'', um_mode = 420, um_overwrite = False, um_status = ''open'', um_created_at = 1,
      um_expires_at = 100, um_committed_at = None, um_final_sha256 = None, um_replaced = False\<rparr>"

definition sample_xfer :: "bytes \<Rightarrow> xfer" where
  "sample_xfer c =
     \<lparr>uploads = [sample_uid \<mapsto> Some sample_upload], write_faults = [], files = \<lparr>disk = upload_disk c, schedule = []\<rparr>, clock = 1\<rparr>"

lemma sample_opens: "opens sample_settings plain_env (upload_disk c) (path_str [''srv'', part_name ''a'' sample_uid]) False True 2"
  by (simp add: opens_def lexical_root_def plain_env_def parse_path_def anchor_def normpath_def sample_settings_def default_settings_def
      under_root_def walk.simps entries_def upload_disk_def file_meta_def Let_def path_str_def part_name_def sample_uid_def numeral_eq_Suc)

lemma sample_parents:
  "parent_opens sample_settings plain_env (upload_disk c) [''srv'', ''a''] 7"
  "parent_opens sample_settings plain_env (upload_disk c) [''srv'', part_name ''a'' sample_uid] 7"
  by (simp_all add: parent_opens_def opens_def lexical_root_def plain_env_def parse_path_def anchor_def normpath_def sample_settings_def
      default_settings_def under_root_def walk.simps entries_def upload_disk_def file_meta_def Let_def path_str_def part_name_def
      sample_uid_def numeral_eq_Suc)

lemma sample_content: "reg_content (upload_disk c) 2 = Some c"
  by (simp add: reg_content_def upload_disk_def file_meta_def)

lemma sample_upload_open:
  "upload_open sample_settings plain_env (sample_xfer c) sample_upload [''srv'', ''a''] [''srv'', part_name ''a'' sample_uid] 7 2"
proof -
  have "upload_id_ok sample_uid" by (simp add: upload_id_ok_def sample_uid_def hex_lower_def numeral_eq_Suc)
  moreover have "lookup_at (upload_disk c) 7 (part_name ''a'' sample_uid) = Some 2"
    by (simp add: lookup_at_def entries_def upload_disk_def file_meta_def)
  ultimately show ?thesis using sample_opens sample_parents
    by (simp add: upload_open_def sample_xfer_def sample_upload_def path_str_def)
qed

theorem upload_chunk_refines_witness:
  "snd (append_chunk sample_settings plain_env plain_kernel [''srv'', part_name ''a'' sample_uid] 5 2 ''llo''
      \<lparr>disk = upload_disk ''he'', schedule = []\<rparr>) = Inr (chunk_result_of False 5 5)"
  using upload_chunk_refines [of "\<lparr>disk = upload_disk ''he'', schedule = []\<rparr>" plain_kernel sample_settings plain_env
      "[''srv'', part_name ''a'' sample_uid]" 2 "''he''" 2 5 "''llo''"] sample_opens sample_content
  by (auto simp: plain_kernel_def chunk_spec_def)

theorem upload_roundtrip_witness:
  "\<exists>s1 s2 r. upload_client (\<lambda>c. c) sample_settings plain_env plain_kernel sample_uid 2 ''hello'' 6 0 (sample_xfer []) = (s1, Inr True)
    \<and> finish_upload (\<lambda>c. c) sample_settings plain_env plain_kernel sample_uid s1 = (s2, Inr r) \<and> uf_sha256 r = ''hello''
    \<and> lookup_at (disk (files s2)) 7 ''a'' = Some 2 \<and> reg_content (disk (files s2)) 2 = Some ''hello''"
proof -
  let ?s = "sample_xfer []" and ?p = "part_name ''a'' sample_uid"
  have f: "disk (files ?s) = upload_disk []" "write_faults ?s = []" "um_upload_id sample_upload = sample_uid"
    "um_total_size sample_upload = 5" "um_expected_sha256 sample_upload = ''hello''" "openat2_refused plain_kernel = None"
    by (simp_all add: sample_xfer_def sample_upload_def plain_kernel_def)
  have ne: "?p \<noteq> ''a''" by (simp add: part_name_def)
  then have "lookup_at (upload_disk []) 7 ''a'' = None"
    by (simp add: lookup_at_def entries_def upload_disk_def file_meta_def)
  then have "target_free (disk (files ?s)) 7 (last [''srv'', ''a'']) (um_overwrite sample_upload)" by (simp add: target_free_def f)
  from upload_roundtrip [OF sample_upload_open f(6,2) _ _ _ this, of "''hello''" "\<lambda>c. c" 2] ne f sample_content
  show ?thesis by (auto simp: sample_chunk_limit numeral_eq_Suc simp del: upload_client.simps)
qed

end
