(* ===== verification/Proc_Stat.thy ===== *)
theory Proc_Stat
  imports Py_Int
begin

text \<open>
  Reading the start time of a process from the text of \<open>/proc/<pid>/stat\<close>, as
  \<open>proc_start_ticks\<close> of \<open>src/remote_host_mcp/jobs.py\<close> and the \<open>process_exit\<close> probe of
  \<open>agent_ops.py\<close> do.  The second field of that text is the command name in parentheses, which may itself
  contain spaces and parentheses, so the parsers search for the last closing one.
\<close>

text \<open>\<open>s.split()\<close>: the maximal runs without white space.\<close>

fun split_ws_acc :: "ustr \<Rightarrow> ustr \<Rightarrow> ustr list" where
  "split_ws_acc cur [] = (if cur = [] then [] else [cur])"
| "split_ws_acc cur (c # s) =
     (if is_space c then (if cur = [] then split_ws_acc [] s else cur # split_ws_acc [] s)
      else split_ws_acc (cur @ [c]) s)"

definition split_ws :: "ustr \<Rightarrow> ustr list" where
  "split_ws s = split_ws_acc [] s"

text \<open>\<open>raw.rfind(")")\<close>; \<open>None\<close> stands for \<open>-1\<close>.\<close>

definition last_paren :: "ustr \<Rightarrow> nat option" where
  "last_paren raw = map_option (\<lambda>n. length raw - 1 - n) (find_index (\<lambda>c. c = 41) (rev raw))"

text \<open>The fields after the command name; the twentieth of them is the start time.\<close>

definition stat_fields :: "ustr \<Rightarrow> ustr list option" where
  "stat_fields raw = map_option (\<lambda>close. split_ws (drop (close + 2) raw)) (last_paren raw)"

definition stat_ticks :: "(nat \<Rightarrow> nat option) \<Rightarrow> ustr \<Rightarrow> int option" where
  "stat_ticks ud raw =
     (case stat_fields raw of
        None \<Rightarrow> None
      | Some fields \<Rightarrow> if length fields \<le> 19 then None else py_int ud (fields ! 19))"

subsection \<open>The command name does not matter\<close>

lemma split_ws_acc_word:
  "list_all (\<lambda>c. \<not> is_space c) w \<Longrightarrow> split_ws_acc cur (w @ s) = split_ws_acc (cur @ w) s"
  by (induction w arbitrary: cur) auto

text \<open>Fields, each followed by one space but the last one by a newline.\<close>

definition field_ok :: "ustr \<Rightarrow> bool" where
  "field_ok f \<longleftrightarrow> f \<noteq> [] \<and> list_all (\<lambda>c. \<not> is_space c \<and> c \<noteq> 41) f"

definition stat_line :: "nat \<Rightarrow> ustr \<Rightarrow> ustr list \<Rightarrow> ustr" where
  "stat_line pid comm fields = ustr_of (nat_str pid) @ [32, 40] @ comm @ [41, 32] @ concat (map (\<lambda>f. f @ [32]) fields) @ [10]"

lemma split_ws_fields: "list_all field_ok fs \<Longrightarrow> split_ws (concat (map (\<lambda>f. f @ [32]) fs) @ [10]) = fs"
proof (induction fs)
  case Nil
  show ?case by (simp add: split_ws_def is_space_def)
next
  case (Cons f fs)
  then have f: "f \<noteq> []" "list_all (\<lambda>c. \<not> is_space c) f"
    by (auto simp: field_ok_def list_all_iff)
  from Cons f split_ws_acc_word [OF f(2), of "[]" "32 # concat (map (\<lambda>f. f @ [32]) fs) @ [10]"]
  show ?case by (simp add: split_ws_def is_space_def)
qed

lemma find_index_first: "list_all (\<lambda>c. \<not> P c) xs \<Longrightarrow> P y \<Longrightarrow> find_index P (xs @ y # ys) = Some (length xs)"
  by (induction xs) auto

lemma stat_fields_line:
  assumes "list_all field_ok fs"
  shows "stat_fields (stat_line pid comm fs) = Some fs"
proof -
  define tl where "tl = 32 # concat (map (\<lambda>f. f @ [32]) fs) @ [10]"
  define hd where "hd = ustr_of (nat_str pid) @ [32, 40] @ comm"
  have line: "stat_line pid comm fs = hd @ 41 # tl" by (simp add: stat_line_def hd_def tl_def)
  from assms have "list_all (\<lambda>c. c \<noteq> 41) tl" by (auto simp: tl_def field_ok_def list_all_iff)
  then have "last_paren (hd @ 41 # tl) = Some (length hd)"
    using find_index_first [of "\<lambda>c. c = 41" "rev tl" 41 "rev hd"] by (simp add: last_paren_def list_all_iff)
  then show ?thesis
    using split_ws_fields [OF assms] by (simp add: stat_fields_def line tl_def)
qed

subsection \<open>A sample line\<close>

text \<open>A \<open>stat\<close> line whose command name has a closing and an opening parenthesis, start time 5.\<close>

definition sample_fields :: "ustr list" where
  "sample_fields = replicate 19 [49] @ [ustr_of (nat_str 5)]"

definition sample_line :: ustr where
  "sample_line = stat_line 7 [97, 41, 32, 40] sample_fields"

lemma ustr_of_digit: "n < 10 \<Longrightarrow> ustr_of (nat_str n) = [48 + n]"
  by (subst nat_str.simps) (simp add: ustr_of_def)

lemma sample_line_utf8: "decode_strict (utf8 sample_line) = Inr sample_line"
  by (rule decode_strict_utf8) (simp add: sample_line_def stat_line_def sample_fields_def ustr_of_digit scalar_def list_all_iff)

end
