(* ===== verification/Run_Relation.thy ===== *)
theory Run_Relation
  imports Posix
begin

text \<open>
  What holds between the state before and after an operation.  \<open>obeys R p\<close> says that \<open>p\<close> relates them
  by \<open>R\<close> however it ends; for a preorder the combinators keep this, so that a fact about each
  access gives one about every operation built from them.
\<close>

definition obeys :: "('s \<Rightarrow> 's \<Rightarrow> bool) \<Rightarrow> ('s, 'a) run \<Rightarrow> bool" where
  "obeys R p \<longleftrightarrow> (\<forall>w w' r. p w = (w', r) \<longrightarrow> R w w')"

lemma obeysD: "obeys R p \<Longrightarrow> p w = (w', r) \<Longrightarrow> R w w'"
  by (simp add: obeys_def)

lemma obeys_fst: "obeys R p \<Longrightarrow> R w (fst (p w))"
  by (cases "p w") (simp add: obeys_def)

lemma on_error_cases: "on_error p h k w = (case p w of (w1, Inl e) \<Rightarrow> h e w1 | (w1, Inr x) \<Rightarrow> k x w1)"
  by (simp add: on_error_def attempt_def bind_prog_def split: prod.split sum.split)

lemma on_error_Inr:
  "on_error p h k w = (w', Inr y) \<longleftrightarrow>
     (\<exists>v x. p w = (v, Inr x) \<and> k x v = (w', Inr y)) \<or> (\<exists>v e. p w = (v, Inl e) \<and> h e v = (w', Inr y))"
  by (auto simp: on_error_cases split: prod.splits sum.splits)

lemma check_Inr: "check b m w = (w', Inr u) \<longleftrightarrow> w' = w \<and> b"
  by (auto simp: check_def ret_def raise_def)

lemmas runs_Inr = prog_Inr on_error_Inr check_Inr

locale run_preorder =
  fixes R :: "'s \<Rightarrow> 's \<Rightarrow> bool"
  assumes refl: "R w w"
    and trans: "R u v \<Longrightarrow> R v w \<Longrightarrow> R u w"
begin

lemma still: "obeys R (ret x)" "obeys R (raise e)" "obeys R (lift_res r)" "obeys R (check b m)" "obeys R (\<lambda>w. (w, r))"
  by (auto simp: obeys_def ret_def raise_def lift_res_def check_def intro: refl)

lemma bind:
  assumes "obeys R p" "\<And>x. obeys R (k x)"
  shows "obeys R (bind_prog p k)"
  unfolding obeys_def
proof (intro allI impI)
  fix w w' r
  assume run: "bind_prog p k w = (w', r)"
  obtain v q where p: "p w = (v, q)" by fastforce
  show "R w w'"
    using run p obeysD [OF assms(1) p] obeysD [OF assms(2)]
    by (cases q) (auto simp: bind_prog_def intro: trans)
qed

text \<open>The same for the runs that raise only.\<close>

lemma bind_fails:
  assumes "obeys R p" "\<And>x v w' e. k x v = (w', Inl e) \<Longrightarrow> R v w'" "bind_prog p k w = (w', Inl e)"
  shows "R w w'"
proof -
  obtain v q where p: "p w = (v, q)" by fastforce
  with assms(3) obeysD [OF assms(1) p] show ?thesis
    by (cases q) (auto simp: bind_prog_def intro: trans assms(2))
qed

lemma handle_fails:
  assumes "\<And>v e. p w = (v, Inl e) \<Longrightarrow> R w v" "\<And>e. obeys R (h e)" "handle p h w = (w', Inl e)"
  shows "R w w'"
  using assms(1,3) obeysD [OF assms(2)]
  by (auto simp: handle_def intro: trans split: prod.splits sum.splits)

lemma attempts: "obeys R p \<Longrightarrow> obeys R (attempt p)"
  by (auto simp: obeys_def attempt_def split: prod.splits)

lemma on_errors: "obeys R p \<Longrightarrow> (\<And>e. obeys R (h e)) \<Longrightarrow> (\<And>x. obeys R (k x)) \<Longrightarrow> obeys R (on_error p h k)"
  unfolding on_error_def by (intro bind attempts) (simp_all split: sum.split)

lemma handles:
  assumes "obeys R p" "\<And>e. obeys R (h e)"
  shows "obeys R (handle p h)"
  unfolding obeys_def
proof (intro allI impI)
  fix w w' r
  assume run: "handle p h w = (w', r)"
  obtain v q where p: "p w = (v, q)" by fastforce
  show "R w w'"
    using run p obeysD [OF assms(1) p] obeysD [OF assms(2)]
    by (cases q) (auto simp: handle_def intro: trans)
qed

lemma finallies:
  assumes "obeys R p" "obeys R q"
  shows "obeys R (finally_do p q)"
  unfolding obeys_def
proof (intro allI impI)
  fix w w' r
  assume run: "finally_do p q w = (w', r)"
  obtain v x where p: "p w = (v, x)" by fastforce
  obtain u y where q: "q v = (u, y)" by fastforce
  show "R w w'"
    using run p q obeysD [OF assms(1) p] obeysD [OF assms(2) q]
    by (cases y) (auto simp: finally_do_def intro: trans)
qed

text \<open>A checked value is as its check says in what follows.\<close>

lemma lift_then: "(\<And>x. r = Inr x \<Longrightarrow> obeys R (k x)) \<Longrightarrow> obeys R (bind_prog (lift_res r) k)"
  by (cases r) (auto simp: obeys_def bind_prog_def lift_res_def refl)

lemma check_then: "(b \<Longrightarrow> obeys R (k ())) \<Longrightarrow> obeys R (bind_prog (check b m) k)"
  by (cases b) (auto simp: obeys_def bind_prog_def check_def ret_def raise_def refl)

lemmas combinators = still bind attempts on_errors handles finallies

end

end
