(* ===== verification/Reading.thy ===== *)
theory Reading
  imports Agent_Files File_Guard Run_Relation
begin

text \<open>
  The operations that only read: a preorder across what happens to the disk between two calls holds across every operation
  made of calls that look.  The locale states it for any such relation between the states before and after.
\<close>

subsection \<open>System calls that look\<close>

lemma opened_read_only: "fst (opened dir r f) = f"
  by (auto simp: opened_def sys_error_def split: sum.split)

lemma open_calls_read_only [simp]: "read_only (sys_open_path p dir nofollow)" "read_only (sys_openat2 k d rel dir no_links)"
  using read_only_calls(3)
  by (auto simp: read_only_def sys_open_path_def sys_openat2_def sys_error_def opened_read_only split: option.split sum.split)

lemma list_calls_read_only [simp]: "read_only (sys_listdir d)" "read_only (sys_readlink d n)" "read_only (sys_lstat_path p)"
  by (auto simp: read_only_def sys_listdir_def sys_readlink_def sys_lstat_path_def sys_lstat_def sys_fstat_def sys_error_def
      split: option.split node.split prod.split sum.split)

subsection \<open>Operations made of looks\<close>

locale reading = run_preorder R for R :: "world \<Rightarrow> world \<Rightarrow> bool" +
  assumes meanwhile: "schedule w = Meanwhile g # ts \<Longrightarrow> R w \<lparr>disk = g (disk w), schedule = ts\<rparr>"
    and fault: "schedule w = Fault e # ts \<Longrightarrow> R w (w\<lparr>schedule := ts\<rparr>)"
begin

lemma look_step:
  assumes "do_call c w = (v, r)" "read_only c"
  shows "R w v"
proof (cases "schedule w")
  case Nil
  with assms have "v = w" by (cases "c (disk w)") (auto simp: do_call_def read_only_def dest: spec [of _ "disk w"])
  then show ?thesis using refl by simp
next
  case (Cons t ts)
  show ?thesis
  proof (cases t)
    case (Meanwhile g)
    with Cons assms have "v = \<lparr>disk = g (disk w), schedule = ts\<rparr>"
      by (cases "c (g (disk w))") (auto simp: do_call_def read_only_def dest: spec [of _ "g (disk w)"])
    with meanwhile Cons Meanwhile show ?thesis by simp
  next
    case (Fault e)
    with fault Cons assms show ?thesis by (auto simp: do_call_def)
  qed
qed

lemma looks: "read_only c \<Longrightarrow> obeys R (do_call c)"
  unfolding obeys_def using look_step by blast

lemma verify: "obeys R (verify_fd_beneath st k fd)"
  by (auto simp: obeys_def verify_fd_beneath_def ret_def raise_def refl split: option.splits if_splits)

lemma canonical: "obeys R (open_canonical st env k safe dir)"
  unfolding open_canonical_def by (auto intro!: combinators looks split: prod.split)

lemma opens: "obeys R (open_beneath st env k raw dir no_links)"
  unfolding open_beneath_def by (auto intro!: combinators looks canonical verify split: prod.split option.split)

lemma parent: "obeys R (open_parent_beneath st env k raw)"
  unfolding open_parent_beneath_def by (auto intro!: combinators opens split: prod.split)

lemma lstat: "obeys R (lstat_at d name)"
  unfolding lstat_at_def by (auto intro!: combinators looks)

lemma regular: "obeys R (fstat_regular fd message)"
  unfolding fstat_regular_def by (auto intro!: combinators looks)

lemma resolved: "obeys R (resolved_str st env raw)"
  unfolding resolved_str_def by (auto intro!: combinators)

text \<open>The loops: each takes a step of its own and goes on from the state it left.\<close>

lemma rest_step: "R w (fst (read_rest n i off acc w))"
proof (induction n i off acc w rule: read_rest.induct)
  case (1 n i off acc w)
  obtain v r where c: "do_call (sys_read_at i off n) w = (v, r)" by fastforce
  from look_step [OF c] have "R w v" by simp
  with 1 [OF c [symmetric]] c show ?case
    by (subst read_rest.simps) (auto intro: trans split: sum.split)
qed

lemma bounded_step: "R w (fst (read_bounded limit fd data w))"
proof (induction limit fd data w rule: read_bounded.induct)
  case (1 limit fd data w)
  obtain v r where c: "do_call (sys_read_at fd (length data) (nat (min 65536 (limit + 1 - int (length data))))) w = (v, r)" by fastforce
  from look_step [OF c] have "R w v" by simp
  with 1 [OF c [symmetric]] c show ?case
    by (subst read_bounded.simps) (auto intro: trans split: sum.split)
qed

lemma scan_step: "R w (fst (scan_file start ml mb fd off s w))"
proof (induction start ml mb fd off s w rule: scan_file.induct)
  case (1 start ml mb fd off s w)
  obtain v r where c: "do_call (sys_read_at fd off 65536) w = (v, r)" by fastforce
  from look_step [OF c] have wv: "R w v" by simp
  show ?case
  proof (cases r)
    case (Inr chunk)
    show ?thesis
    proof (cases "chunk = []")
      case False
      show ?thesis
      proof (cases "scan_chunk start ml mb chunk s")
        case (Chunk_done s1)
        with 1(1) [OF c [symmetric] Inr False Chunk_done] c Inr False wv show ?thesis
          by (subst scan_file.simps) (auto intro: trans)
      next
        case (Lines_done s1 rest)
        obtain u q where d: "do_call (sys_read_at fd (off + length chunk) 1) v = (u, q)" by fastforce
        from look_step [OF d] wv have "R w u" by (auto intro: trans)
        with 1(2) [OF c [symmetric] Inr False Lines_done _ d [symmetric]] c d Inr False Lines_done wv show ?thesis
          by (subst scan_file.simps) (auto intro: trans split: sum.split)
      qed (use c Inr False wv in \<open>subst scan_file.simps, simp\<close>)
    qed (use c Inr wv in \<open>subst scan_file.simps, simp\<close>)
  qed (use c wv in \<open>subst scan_file.simps, simp\<close>)
qed

lemma loops: "obeys R (read_rest n i off acc)" "obeys R (read_bounded limit fd data)" "obeys R (scan_file start ml mb fd off' s)"
  using rest_step bounded_step scan_step unfolding obeys_def by (metis fst_conv)+

lemma hashes: "obeys R (hash_fd sha fd)"
  unfolding hash_fd_def by (auto intro!: combinators loops)

lemmas steps = combinators looks loops opens parent lstat regular resolved hashes

subsection \<open>The operations\<close>

lemma entry: "obeys R (entry_of d name)"
  unfolding entry_of_def by (auto intro!: steps split: prod.split exn.split)

lemma entries: "obeys R (entries_of d names)"
  by (induction names) (auto intro!: steps entry)

lemma list_directory: "obeys R (list_directory st env k here path limit)"
  unfolding list_directory_def Let_def by (auto intro!: steps entries split: option.split)

lemma path_info: "obeys R (path_info st env k path)"
  unfolding path_info_def Let_def by (auto intro!: steps split: prod.split option.split)

lemma read_text_file: "obeys R (read_text_file st env k path start ml mb)"
  unfolding read_text_file_def by (auto intro!: steps)

lemma read_file_chunk: "obeys R (read_file_chunk st env k path offset mb)"
  unfolding read_file_chunk_def by (auto intro!: steps)

lemma hash_file: "obeys R (hash_file sha st env k path)"
  unfolding hash_file_def by (auto intro!: steps split: prod.split)

lemma text_bounded: "obeys R (read_text_bounded sha st env k path limit)"
  unfolding read_text_bounded_def by (auto intro!: steps split: sum.split)

lemma file_diff: "obeys R (file_diff udiff sha st env k path proposed mf md)"
  unfolding file_diff_def Let_def by (auto intro!: steps text_bounded split: prod.split)

lemma inspect_one: "obeys R (inspect_one sha st env k include mt hm raw)"
  unfolding inspect_one_def Let_def by (auto intro!: steps path_info split: prod.split option.split)

lemma inspect_all: "obeys R (inspect_all sha err st env k include mt hm paths)"
  by (induction paths) (auto intro!: steps inspect_one)

lemma inspect_paths: "obeys R (inspect_paths sha err st env k paths include mt hm)"
  unfolding inspect_paths_def by (auto intro!: steps inspect_all)

lemma artifact_info: "obeys R (artifact_info guess sha st env k path include)"
  unfolding artifact_info_def Let_def by (auto intro!: steps split: prod.split)

lemma artifact_preview: "obeys R (artifact_preview guess st env k path mb)"
  unfolding artifact_preview_def Let_def by (auto intro!: steps)

end

end
