(* ===== verification/Jobs.thy ===== *)
theory Jobs
  imports Complex_Main Proc_Stat Run_Relation Exec
begin

text \<open>
  Durable jobs, \<open>src/remote_host_mcp/jobs.py\<close>: a job is a directory of small files which a detached worker
  process (\<open>Job_Worker\<close>) keeps up to date and which the operations here read, so that no server has to
  survive for a job to go on.  The state is the jobs directory, the process table and the clocks.  Every
  access is one step; between steps anything in the schedule may happen, and an access may fail.
\<close>

subsection \<open>The files of a job\<close>

text \<open>What \<open>read_json\<close> finds: no file or one that is not JSON, not UTF-8, not an object, or the document.\<close>

datatype 'a doc = Absent | Corrupt | Not_text | Not_object | Doc 'a

record job_meta =
  jm_status :: string
  jm_cwd :: string
  jm_created_at :: int
  jm_started_at :: "int option"
  jm_completed_at :: "int option"
  jm_heartbeat_at :: int
  jm_last_output_at :: "int option"
  jm_stdout_size :: int
  jm_stderr_size :: int
  jm_worker_pid :: "int option"
  jm_worker_ticks :: "int option"
  jm_child_pid :: "int option"
  jm_child_ticks :: "int option"
  jm_command_sha256 :: string
  jm_command_bytes :: int
  jm_timeout_ms :: "int option"
  jm_idempotency_hash :: "string option"

record job_result =
  jr_status :: string
  jr_exit_code :: "int option"
  jr_timed_out :: bool
  jr_terminated_by :: "string option"
  jr_started_at :: "int option"
  jr_completed_at :: int
  jr_duration_ms :: int
  jr_stdout_truncated :: bool
  jr_stderr_truncated :: bool
  jr_error :: "string option"

record job_spec =
  js_cwd :: string
  js_timeout_ms :: "int option"
  js_kill_grace_ms :: int
  js_max_log_bytes :: int
  js_heartbeat_seconds :: int

record job_dir =
  metadata :: "job_meta doc"
  result_doc :: "job_result doc"
  spec_doc :: "job_spec doc"
  command_bin :: "bytes option"
  cancel_request :: bool
  stdout_log :: "bytes option"
  stderr_log :: "bytes option"
  stdout_marker :: bool
  stderr_marker :: bool

definition empty_dir :: job_dir where
  "empty_dir = \<lparr>metadata = Absent, result_doc = Absent, spec_doc = Absent, command_bin = None, cancel_request = False,
     stdout_log = None, stderr_log = None, stdout_marker = False, stderr_marker = False\<rparr>"

text \<open>An idempotency file; \<open>ie_cleaned_at\<close> stands for the tombstone that a clean-up leaves.\<close>

record idem_entry =
  ie_job_id :: string
  ie_fingerprint :: string
  ie_cleaned_at :: "int option"

subsection \<open>The host\<close>

text \<open>A process: the bytes of its \<open>/proc/<pid>/stat\<close>, its group, and its exit status once it has ended and
  waits to be reaped.  \<open>launched\<close> records the workers started, with their environment,
  and \<open>executed\<close> the commands that workers have handed to a shell.\<close>

record process =
  pr_stat :: bytes
  pr_pgid :: int
  pr_exit :: "int option"

record host =
  job_dirs :: "(string \<times> job_dir) list"
  idem_files :: "string \<Rightarrow> idem_entry doc"
  procs :: "(int \<times> process) list"
  launched :: "(string \<times> (string \<times> string) list) list"
  executed :: "(string \<times> ustr) list"
  epoch :: int
  mono :: rat

datatype event = Others "host \<Rightarrow> host" | Failing errno

record jworld =
  host :: host
  events :: "event list"

type_synonym 'a jrun = "(jworld, 'a) run"

text \<open>Whatever the others do, the monotonic clock does not go back.\<close>

definition pass :: "(host \<Rightarrow> host) \<Rightarrow> host \<Rightarrow> host" where
  "pass g h = (g h)\<lparr>mono := max (mono h) (mono (g h))\<rparr>"

definition step :: "(host \<Rightarrow> host \<times> 'a res) \<Rightarrow> 'a jrun" where
  "step c w =
     (case events w of
        [] \<Rightarrow> (case c (host w) of (h, r) \<Rightarrow> (w\<lparr>host := h\<rparr>, r))
      | Others g # es \<Rightarrow> (case c (pass g (host w)) of (h, r) \<Rightarrow> (\<lparr>host = h, events = es\<rparr>, r))
      | Failing e # es \<Rightarrow> (w\<lparr>events := es\<rparr>, Inl (OSError e)))"

definition peek :: "(host \<Rightarrow> 'a) \<Rightarrow> 'a jrun" where
  "peek f w = (w, Inr (f (host w)))"

text \<open>Sleeping cannot fail: a failure in the schedule belongs to the next access.\<close>

definition sleep :: "rat \<Rightarrow> unit jrun" where
  "sleep d w =
     (let later = (\<lambda>h. h\<lparr>mono := mono h + d\<rparr>) in
      case events w of
        Others g # es \<Rightarrow> (\<lparr>host = later (pass g (host w)), events = es\<rparr>, Inr ())
      | _ \<Rightarrow> (w\<lparr>host := later (host w)\<rparr>, Inr ()))"

subsection \<open>Accesses to a job directory\<close>

definition of_dir :: "string \<Rightarrow> (job_dir \<Rightarrow> 'a) \<Rightarrow> 'a jrun" where
  "of_dir jd f =
     step (\<lambda>h. (h, case map_of (job_dirs h) jd of None \<Rightarrow> Inl (OSError ENOENT) | Some d \<Rightarrow> Inr (f d)))"

definition change_dir :: "string \<Rightarrow> (job_dir \<Rightarrow> job_dir) \<Rightarrow> unit jrun" where
  "change_dir jd f =
     step (\<lambda>h. case map_of (job_dirs h) jd of
         None \<Rightarrow> (h, Inl (OSError ENOENT))
       | Some d \<Rightarrow> (h\<lparr>job_dirs := dict_set jd (f d) (job_dirs h)\<rparr>, Inr ()))"

text \<open>\<open>Path.exists\<close> of the directory and of something in it.\<close>

definition dir_exists :: "string \<Rightarrow> bool jrun" where
  "dir_exists jd = step (\<lambda>h. (h, Inr (map_of (job_dirs h) jd \<noteq> None)))"

definition has_file :: "string \<Rightarrow> (job_dir \<Rightarrow> bool) \<Rightarrow> bool jrun" where
  "has_file jd f =
     step (\<lambda>h. (h, Inr (case map_of (job_dirs h) jd of None \<Rightarrow> False | Some d \<Rightarrow> f d)))"

definition parsed :: "string \<Rightarrow> 'a doc \<Rightarrow> 'a res" where
  "parsed name x =
     (case x of
        Doc a \<Rightarrow> Inr a
      | Not_text \<Rightarrow> Inl (ValueError ''invalid utf-8'')
      | Not_object \<Rightarrow> Inl (ValueError (''State file is invalid: '' @ name))
      | _ \<Rightarrow> Inl (ValueError (''State file is unreadable: '' @ name)))"

definition read_json :: "string \<Rightarrow> 'a doc jrun \<Rightarrow> 'a jrun" where
  "read_json name access =
     on_error access (\<lambda>_. raise (ValueError (''State file is unreadable: '' @ name))) (\<lambda>x. lift_res (parsed name x))"

definition read_meta :: "string \<Rightarrow> job_meta jrun" where
  "read_meta jd = read_json ''metadata.json'' (of_dir jd metadata)"

definition write_meta_file :: "string \<Rightarrow> job_meta \<Rightarrow> unit jrun" where
  "write_meta_file jd jm = change_dir jd (\<lambda>d. d\<lparr>metadata := Doc jm\<rparr>)"

text \<open>Entering \<open>job_lock\<close>: the directory is created if it is missing.\<close>

definition enter_lock :: "string \<Rightarrow> unit jrun" where
  "enter_lock jd =
     step (\<lambda>h. (case map_of (job_dirs h) jd of None \<Rightarrow> h\<lparr>job_dirs := job_dirs h @ [(jd, empty_dir)]\<rparr> | Some _ \<Rightarrow> h, Inr ()))"

definition patch_meta :: "string \<Rightarrow> (job_meta \<Rightarrow> job_meta) \<Rightarrow> job_meta jrun" where
  "patch_meta jd f =
     bind_prog (enter_lock jd) (\<lambda>_.
     bind_prog (read_meta jd) (\<lambda>jm.
     bind_prog (write_meta_file jd (f jm)) (\<lambda>_. ret (f jm))))"

definition locked_meta :: "string \<Rightarrow> job_meta jrun" where
  "locked_meta jd = bind_prog (enter_lock jd) (\<lambda>_. read_meta jd)"

subsection \<open>Processes\<close>

definition proc_start_ticks :: "(nat \<Rightarrow> nat option) \<Rightarrow> int \<Rightarrow> int option jrun" where
  "proc_start_ticks ud pid =
     (if pid \<le> 0 then ret None
      else on_error
        (step (\<lambda>h. (h, case map_of (procs h) pid of None \<Rightarrow> Inl (OSError ENOENT) | Some p \<Rightarrow> Inr (pr_stat p))))
        (\<lambda>_. ret None)
        (\<lambda>raw. bind_prog (lift_res (decode_strict raw)) (\<lambda>u. ret (stat_ticks ud u))))"

definition proc_identity_alive :: "(nat \<Rightarrow> nat option) \<Rightarrow> int option \<Rightarrow> int option \<Rightarrow> bool jrun" where
  "proc_identity_alive ud pid start_ticks =
     (case pid of
        None \<Rightarrow> ret False
      | Some p \<Rightarrow>
          if p \<le> 0 then ret False
          else bind_prog (proc_start_ticks ud p) (\<lambda>current.
            case current of
              None \<Rightarrow> ret False
            | Some c \<Rightarrow> ret (case start_ticks of None \<Rightarrow> True | Some t \<Rightarrow> c = t)))"

definition getpgid :: "int \<Rightarrow> int jrun" where
  "getpgid pid = step (\<lambda>h. (h, case map_of (procs h) pid of None \<Rightarrow> Inl (OSError ESRCH) | Some p \<Rightarrow> Inr (pr_pgid p)))"

definition proc_group_identity_alive :: "(nat \<Rightarrow> nat option) \<Rightarrow> int option \<Rightarrow> int option \<Rightarrow> bool jrun" where
  "proc_group_identity_alive ud pid start_ticks =
     bind_prog (proc_identity_alive ud pid start_ticks) (\<lambda>alive.
       case pid of
         Some p \<Rightarrow> if alive then on_error (getpgid p) (\<lambda>_. ret False) (\<lambda>g. ret (g = p)) else ret False
       | None \<Rightarrow> ret False)"

text \<open>\<open>os.killpg\<close>.  What the group does on \<open>SIGTERM\<close> is up to it; \<open>SIGKILL\<close> ends its live members.\<close>

datatype signal_kind = SIGTERM | SIGKILL

definition killed :: "int \<Rightarrow> int \<times> process \<Rightarrow> int \<times> process" where
  "killed g e = (if pr_pgid (snd e) = g \<and> pr_exit (snd e) = None then (fst e, (snd e)\<lparr>pr_exit := Some (-9)\<rparr>) else e)"

definition killpg :: "int \<Rightarrow> signal_kind \<Rightarrow> unit jrun" where
  "killpg g sig =
     step (\<lambda>h. if list_ex (\<lambda>e. pr_pgid (snd e) = g) (procs h)
               then (case sig of SIGTERM \<Rightarrow> h | SIGKILL \<Rightarrow> h\<lparr>procs := map (killed g) (procs h)\<rparr>, Inr ())
               else (h, Inl (OSError ESRCH)))"

definition unless_gone :: "unit jrun \<Rightarrow> unit jrun" where
  "unless_gone p = handle p (\<lambda>e. if e = OSError ESRCH then ret () else raise e)"

subsection \<open>Status\<close>

definition terminal_states :: "string list" where
  "terminal_states = [''completed'', ''failed'', ''canceled'', ''timed_out'', ''interrupted'', ''start_failed'']"

record job_status =
  st_job_id :: string
  st_status :: string
  st_cwd :: string
  st_created_at :: int
  st_started_at :: "int option"
  st_completed_at :: "int option"
  st_heartbeat_at :: int
  st_last_output_at :: "int option"
  st_worker :: "int option \<times> int option"
  st_child :: "int option \<times> int option"
  st_exit_code :: "int option"
  st_timed_out :: bool
  st_cancel_requested :: bool
  st_terminated_by :: "string option"
  st_duration_ms :: "int option"
  st_stdout_bytes :: int
  st_stderr_bytes :: int
  st_stdout_truncated :: bool
  st_stderr_truncated :: bool
  st_command_sha256 :: string
  st_command_bytes :: int
  st_error :: "string option"

definition terminal :: "job_status \<Rightarrow> bool" where
  "terminal s = (st_status s \<in> set terminal_states)"

text \<open>32 characters that \<open>int(job_id, 16)\<close> accepts, lower-cased.\<close>

definition validate_job_id :: "(nat \<Rightarrow> nat option) \<Rightarrow> string \<Rightarrow> string res" where
  "validate_job_id ud jid =
     (if length jid \<noteq> 32 \<or> \<not> py_hex_ok ud (ustr_of jid) then Inl (ValueError ''Invalid job_id'') else Inr (slower jid))"

definition result_or_none :: "string \<Rightarrow> job_result option jrun" where
  "result_or_none jd =
     bind_prog (has_file jd (\<lambda>d. result_doc d \<noteq> Absent)) (\<lambda>there.
       if \<not> there then ret None
       else handle (bind_prog (read_json ''result.json'' (of_dir jd result_doc)) (\<lambda>r. ret (Some r)))
              (\<lambda>e. case e of ValueError _ \<Rightarrow> ret None | _ \<Rightarrow> raise e))"

definition ignore_os_error :: "unit jrun \<Rightarrow> unit jrun" where
  "ignore_os_error p = handle p (\<lambda>e. case e of OSError _ \<Rightarrow> ret () | OSMessage _ \<Rightarrow> ret () | _ \<Rightarrow> raise e)"

text \<open>\<open>command.bin\<close> is unlinked, \<open>missing_ok\<close>.\<close>

definition unlink_command :: "string \<Rightarrow> unit jrun" where
  "unlink_command jd =
     step (\<lambda>h. (case map_of (job_dirs h) jd of
         None \<Rightarrow> h | Some d \<Rightarrow> h\<lparr>job_dirs := dict_set jd (d\<lparr>command_bin := None\<rparr>) (job_dirs h)\<rparr>, Inr ()))"

text \<open>Without a result the status follows from which of the two processes are alive.\<close>

definition settle_interrupted :: "string \<Rightarrow> job_meta \<Rightarrow> job_meta jrun" where
  "settle_interrupted jd jm =
     bind_prog
       (if jm_status jm \<notin> set terminal_states
        then bind_prog (peek epoch) (\<lambda>t.
               let jm1 = jm\<lparr>jm_status := ''interrupted'', jm_completed_at := Some t\<rparr> in
               bind_prog (write_meta_file jd jm1) (\<lambda>_. ret jm1))
        else ret jm) (\<lambda>jm1.
     bind_prog (ignore_os_error (unlink_command jd)) (\<lambda>_. ret jm1))"

definition observed_status :: "bool \<Rightarrow> bool \<Rightarrow> bool \<Rightarrow> string" where
  "observed_status child_alive worker_alive cancel_requested =
     (if child_alive \<and> worker_alive then (if cancel_requested then ''cancel_requested'' else ''running'')
      else if child_alive then (if cancel_requested then ''cancel_requested'' else ''lost'')
      else if worker_alive then (if cancel_requested then ''cancel_requested'' else ''starting'')
      else ''interrupted'')"

definition observe :: "(nat \<Rightarrow> nat option) \<Rightarrow> string \<Rightarrow> job_meta \<Rightarrow> bool \<Rightarrow> (string \<times> job_meta) jrun" where
  "observe ud jd jm cancel_requested =
     bind_prog (proc_identity_alive ud (jm_child_pid jm) (jm_child_ticks jm)) (\<lambda>child_alive.
     bind_prog (proc_identity_alive ud (jm_worker_pid jm) (jm_worker_ticks jm)) (\<lambda>worker_alive.
       let s = observed_status child_alive worker_alive cancel_requested in
       bind_prog (if child_alive \<or> worker_alive then ret jm else settle_interrupted jd jm) (\<lambda>jm1. ret (s, jm1))))"

definition log_size :: "string \<Rightarrow> (job_dir \<Rightarrow> bytes option) \<Rightarrow> int jrun" where
  "log_size jd which =
     bind_prog (attempt (of_dir jd which)) (\<lambda>r. ret (case r of Inr (Some b) \<Rightarrow> int (length b) | _ \<Rightarrow> 0))"

definition report :: "string \<Rightarrow> string \<Rightarrow> job_meta \<Rightarrow> job_result option \<Rightarrow> bool \<Rightarrow> string \<Rightarrow> job_status jrun" where
  "report jid jd jm result cancel_requested status_value =
     bind_prog (log_size jd stdout_log) (\<lambda>out_bytes.
     bind_prog (log_size jd stderr_log) (\<lambda>err_bytes.
     bind_prog (case result of Some r \<Rightarrow> ret (jr_stdout_truncated r) | None \<Rightarrow> has_file jd stdout_marker) (\<lambda>out_cut.
     bind_prog (case result of Some r \<Rightarrow> ret (jr_stderr_truncated r) | None \<Rightarrow> has_file jd stderr_marker) (\<lambda>err_cut.
       ret \<lparr>st_job_id = jid, st_status = status_value, st_cwd = jm_cwd jm, st_created_at = jm_created_at jm,
            st_started_at = (case result of Some r \<Rightarrow> jr_started_at r | None \<Rightarrow> jm_started_at jm),
            st_completed_at = (case result of Some r \<Rightarrow> Some (jr_completed_at r) | None \<Rightarrow> jm_completed_at jm),
            st_heartbeat_at = jm_heartbeat_at jm, st_last_output_at = jm_last_output_at jm,
            st_worker = (jm_worker_pid jm, jm_worker_ticks jm), st_child = (jm_child_pid jm, jm_child_ticks jm),
            st_exit_code = (case result of Some r \<Rightarrow> jr_exit_code r | None \<Rightarrow> None),
            st_timed_out = (case result of Some r \<Rightarrow> jr_timed_out r | None \<Rightarrow> False),
            st_cancel_requested = cancel_requested,
            st_terminated_by = (case result of Some r \<Rightarrow> jr_terminated_by r | None \<Rightarrow> None),
            st_duration_ms = (case result of Some r \<Rightarrow> Some (jr_duration_ms r) | None \<Rightarrow> None),
            st_stdout_bytes = out_bytes, st_stderr_bytes = err_bytes,
            st_stdout_truncated = out_cut, st_stderr_truncated = err_cut,
            st_command_sha256 = jm_command_sha256 jm, st_command_bytes = jm_command_bytes jm,
            st_error = (case result of Some r \<Rightarrow> jr_error r | None \<Rightarrow> None)\<rparr>))))"

definition job_status_in :: "(nat \<Rightarrow> nat option) \<Rightarrow> string \<Rightarrow> string \<Rightarrow> job_status jrun" where
  "job_status_in ud jid jd =
     bind_prog (enter_lock jd) (\<lambda>_.
     bind_prog (read_meta jd) (\<lambda>jm.
     bind_prog (result_or_none jd) (\<lambda>result.
     bind_prog (has_file jd cancel_request) (\<lambda>cancel_requested.
     bind_prog (case result of Some r \<Rightarrow> ret (jr_status r, jm) | None \<Rightarrow> observe ud jd jm cancel_requested) (\<lambda>(s, jm1).
       report jid jd jm1 result cancel_requested s)))))"

definition job_status :: "(nat \<Rightarrow> nat option) \<Rightarrow> string \<Rightarrow> job_status jrun" where
  "job_status ud jid =
     bind_prog (lift_res (validate_job_id ud jid)) (\<lambda>jd.
     bind_prog (dir_exists jd) (\<lambda>there.
     bind_prog (if there then has_file jd (\<lambda>d. metadata d \<noteq> Absent) else ret False) (\<lambda>known.
       if known then job_status_in ud jid jd else raise (ValueError ''Unknown job_id''))))"

subsection \<open>Reading the logs\<close>

definition read_log :: "string \<Rightarrow> (job_dir \<Rightarrow> bytes option) \<Rightarrow> int \<Rightarrow> int \<Rightarrow> (bytes \<times> int \<times> bool) jrun" where
  "read_log jd which offset max_bytes =
     bind_prog (check (0 \<le> offset) ''Log offset must be >= 0'') (\<lambda>_.
     bind_prog (log_size jd which) (\<lambda>size_now.
     bind_prog (check (offset \<le> size_now) ''Log offset is beyond currently retained data'') (\<lambda>_.
     bind_prog (has_file jd (\<lambda>d. which d \<noteq> None)) (\<lambda>there.
       if \<not> there then ret ([], offset, True)
       else
         bind_prog (of_dir jd which) (\<lambda>content.
           case content of
             None \<Rightarrow> raise (OSError ENOENT)
           | Some b \<Rightarrow>
               let data = take (nat max_bytes) (drop (nat offset) b);
                   next_offset = offset + int (length data)
               in ret (data, next_offset, size_now \<le> next_offset))))))"

record job_read_result =
  rd_status :: string
  rd_stdout :: ustr
  rd_stderr :: ustr
  rd_next_stdout :: int
  rd_next_stderr :: int
  rd_stdout_at_end :: bool
  rd_stderr_at_end :: bool
  rd_job_done :: bool
  rd_stdout_truncated :: bool
  rd_stderr_truncated :: bool

definition job_read :: "(nat \<Rightarrow> nat option) \<Rightarrow> settings \<Rightarrow> string \<Rightarrow> int \<Rightarrow> int \<Rightarrow> int \<Rightarrow> job_read_result jrun" where
  "job_read ud st jid stdout_offset stderr_offset max_bytes =
     bind_prog (check (\<not> (max_bytes < 1 \<or> job_read_max_bytes st < max_bytes))
       (''max_bytes must be between 1 and '' @ int_str (job_read_max_bytes st))) (\<lambda>_.
     bind_prog (job_status ud jid) (\<lambda>s.
     bind_prog (lift_res (validate_job_id ud jid)) (\<lambda>jd.
     bind_prog (read_log jd stdout_log stdout_offset max_bytes) (\<lambda>(out, next_out, out_end).
     bind_prog (read_log jd stderr_log stderr_offset max_bytes) (\<lambda>(err, next_err, err_end).
       ret \<lparr>rd_status = st_status s,
            rd_stdout = redact_key (path_key st) (decode_replace out), rd_stderr = redact_key (path_key st) (decode_replace err),
            rd_next_stdout = next_out, rd_next_stderr = next_err, rd_stdout_at_end = out_end, rd_stderr_at_end = err_end,
            rd_job_done = terminal s, rd_stdout_truncated = st_stdout_truncated s,
            rd_stderr_truncated = st_stderr_truncated s\<rparr>)))))"

subsection \<open>Listing, clean-up, recovery\<close>

text \<open>The job directories among the entries of the jobs root.\<close>

definition job_names :: "string list jrun" where
  "job_names = step (\<lambda>h. (h, Inr (filter (\<lambda>n. length n = 32) (map fst (job_dirs h)))))"

text \<open>\<open>try: ... except ValueError: continue\<close> around one \<open>job_status\<close>.\<close>

definition status_or_skip :: "(nat \<Rightarrow> nat option) \<Rightarrow> string \<Rightarrow> job_status option jrun" where
  "status_or_skip ud name =
     handle (bind_prog (job_status ud name) (\<lambda>s. ret (Some s))) (\<lambda>e. case e of ValueError _ \<Rightarrow> ret None | _ \<Rightarrow> raise e)"

primrec statuses :: "(nat \<Rightarrow> nat option) \<Rightarrow> string list \<Rightarrow> job_status list jrun" where
  "statuses ud [] = ret []"
| "statuses ud (n # ns) =
     bind_prog (status_or_skip ud n) (\<lambda>s. bind_prog (statuses ud ns) (\<lambda>rest. ret (case s of Some x \<Rightarrow> x # rest | None \<Rightarrow> rest)))"

definition list_jobs :: "(nat \<Rightarrow> nat option) \<Rightarrow> int \<Rightarrow> (job_status list \<times> bool) jrun" where
  "list_jobs ud limit =
     bind_prog (check (\<not> (limit < 1 \<or> 500 < limit)) ''limit must be between 1 and 500'') (\<lambda>_.
     bind_prog job_names (\<lambda>names.
     bind_prog (statuses ud names) (\<lambda>rows.
       let sorted_rows = sort_key (\<lambda>s. - st_created_at s) rows in
       ret (take (nat limit) sorted_rows, limit < int (length sorted_rows)))))"

text \<open>The idempotency file named by a digest.\<close>

definition read_idem :: "string \<Rightarrow> idem_entry jrun" where
  "read_idem digest =
     read_json (digest @ ''.json'')
       (step (\<lambda>h. (h, case idem_files h digest of Absent \<Rightarrow> Inl (OSError ENOENT) | x \<Rightarrow> Inr x)))"

definition write_idem :: "string \<Rightarrow> idem_entry \<Rightarrow> unit jrun" where
  "write_idem digest ie = step (\<lambda>h. (h\<lparr>idem_files := (idem_files h)(digest := Doc ie)\<rparr>, Inr ()))"

definition idem_exists :: "string \<Rightarrow> bool jrun" where
  "idem_exists digest = step (\<lambda>h. (h, Inr (idem_files h digest \<noteq> Absent)))"

definition bury_idem :: "string \<Rightarrow> string \<Rightarrow> unit jrun" where
  "bury_idem jid digest =
     bind_prog (idem_exists digest) (\<lambda>there.
       if \<not> there then ret ()
       else handle
         (bind_prog (read_idem digest) (\<lambda>stored.
            if ie_job_id stored = jid
            then bind_prog (peek epoch) (\<lambda>t. write_idem digest (stored\<lparr>ie_cleaned_at := Some t\<rparr>))
            else ret ()))
         (\<lambda>e. case e of ValueError _ \<Rightarrow> ret () | _ \<Rightarrow> raise e))"

definition rmtree_job :: "string \<Rightarrow> unit jrun" where
  "rmtree_job jd =
     step (\<lambda>h. if map_of (job_dirs h) jd = None then (h, Inl (OSError ENOENT))
               else (h\<lparr>job_dirs := dict_pop jd (job_dirs h)\<rparr>, Inr ()))"

text \<open>The result says whether the job was removed.\<close>

definition cleanup_job :: "(nat \<Rightarrow> nat option) \<Rightarrow> string \<Rightarrow> bool jrun" where
  "cleanup_job ud jid =
     bind_prog (lift_res (validate_job_id ud jid)) (\<lambda>jd.
     bind_prog (dir_exists jd) (\<lambda>there.
       if \<not> there then ret False
       else
         bind_prog (job_status ud jid) (\<lambda>s.
         bind_prog (check (terminal s) ''Refusing to clean up a job that is still active'') (\<lambda>_.
         bind_prog (read_meta jd) (\<lambda>jm.
         bind_prog
           (case jm_idempotency_hash jm of
              Some digest \<Rightarrow> if length digest = 64 then bury_idem jid digest else ret ()
            | None \<Rightarrow> ret ()) (\<lambda>_.
         bind_prog (rmtree_job jd) (\<lambda>_. ret True)))))))"

record recovery =
  reconciled :: int
  interrupted_jobs :: int
  removed_jobs :: int

definition finished_at :: "job_status \<Rightarrow> int" where
  "finished_at s = (case st_completed_at s of Some t \<Rightarrow> if t = 0 then st_created_at s else t | None \<Rightarrow> st_created_at s)"

definition recover_one :: "(nat \<Rightarrow> nat option) \<Rightarrow> settings \<Rightarrow> int \<Rightarrow> string \<Rightarrow> recovery \<Rightarrow> recovery jrun" where
  "recover_one ud st t name acc =
     bind_prog (status_or_skip ud name) (\<lambda>r.
       case r of
         None \<Rightarrow> ret acc
       | Some s \<Rightarrow>
           let acc1 = acc\<lparr>reconciled := reconciled acc + 1,
                          interrupted_jobs := interrupted_jobs acc + (if st_status s = ''interrupted'' then 1 else 0)\<rparr> in
           if terminal s \<and> job_retention_seconds st \<le> t - finished_at s
           then handle
             (bind_prog (cleanup_job ud name) (\<lambda>_. ret (acc1\<lparr>removed_jobs := removed_jobs acc1 + 1\<rparr>)))
             (\<lambda>e. case e of ValueError _ \<Rightarrow> ret acc1 | _ \<Rightarrow> raise e)
           else ret acc1)"

primrec recover_each :: "(nat \<Rightarrow> nat option) \<Rightarrow> settings \<Rightarrow> int \<Rightarrow> string list \<Rightarrow> recovery \<Rightarrow> recovery jrun" where
  "recover_each ud st t [] acc = ret acc"
| "recover_each ud st t (n # ns) acc = bind_prog (recover_one ud st t n acc) (recover_each ud st t ns)"

definition recover_jobs :: "(nat \<Rightarrow> nat option) \<Rightarrow> settings \<Rightarrow> recovery jrun" where
  "recover_jobs ud st =
     bind_prog (peek epoch) (\<lambda>t.
     bind_prog job_names (\<lambda>names.
       recover_each ud st t names \<lparr>reconciled = 0, interrupted_jobs = 0, removed_jobs = 0\<rparr>))"

subsection \<open>Starting a job\<close>

definition secret_env_names :: "string list" where
  "secret_env_names =
     [''RHMCP_PATH_KEY'', ''DSW_MCP_PATH_KEY'', ''CLOUDFLARED_TOKEN'', ''CF_TUNNEL_TOKEN'', ''TUNNEL_TOKEN'', ''CFD_TOKEN'']"

definition safe_child_env :: "(string \<times> string) list \<Rightarrow> (string \<times> string) list" where
  "safe_child_env environ =
     set_all [(''TERM'', ''dumb''), (''PAGER'', ''cat''), (''GIT_PAGER'', ''cat''), (''SYSTEMD_PAGER'', ''cat''), (''NO_COLOR'', ''1'')]
       (filter (\<lambda>e. upper_name (fst e) \<notin> set secret_env_names) environ)"

text \<open>\<open>json.dumps\<close> of a string and of the fingerprint's three members, in key order without spaces.\<close>

definition hex_char :: "nat \<Rightarrow> char" where
  "hex_char n = char_of (if n < 10 then 48 + n else 87 + n)"

definition json_char :: "char \<Rightarrow> string" where
  "json_char ch =
     (let n = (of_char ch :: nat) in
      if ch = CHR 0x22 then [CHR 0x5C, CHR 0x22]
      else if ch = CHR 0x5C then [CHR 0x5C, CHR 0x5C]
      else if 32 \<le> n \<and> n \<le> 126 then [ch]
      else if n = 10 then [CHR 0x5C, CHR ''n''] else if n = 13 then [CHR 0x5C, CHR ''r'']
      else if n = 9 then [CHR 0x5C, CHR ''t''] else if n = 12 then [CHR 0x5C, CHR ''f'']
      else if n = 8 then [CHR 0x5C, CHR ''b'']
      else [CHR 0x5C, CHR ''u'', CHR ''0'', CHR ''0'', hex_char (n div 16), hex_char (n mod 16)])"

definition json_string :: "string \<Rightarrow> string" where
  "json_string s = [CHR 0x22] @ concat (map json_char s) @ [CHR 0x22]"

definition fingerprint_text :: "string \<Rightarrow> string \<Rightarrow> int option \<Rightarrow> string" where
  "fingerprint_text command_sha256 cwd timeout_ms =
     ''{'' @ json_string ''command_sha256'' @ '':'' @ json_string command_sha256
     @ '','' @ json_string ''cwd'' @ '':'' @ json_string cwd
     @ '','' @ json_string ''timeout_ms'' @ '':'' @ (case timeout_ms of None \<Rightarrow> ''null'' | Some t \<Rightarrow> int_str t) @ ''}''"

definition job_fingerprint :: "(bytes \<Rightarrow> string) \<Rightarrow> string \<Rightarrow> string \<Rightarrow> int option \<Rightarrow> string" where
  "job_fingerprint sha command_sha256 cwd timeout_ms = sha (fingerprint_text command_sha256 cwd timeout_ms)"

definition idem_digest :: "(bytes \<Rightarrow> string) \<Rightarrow> ustr \<Rightarrow> string res" where
  "idem_digest sha key =
     and_then (encode_utf8 key) (\<lambda>b.
       if key = [] \<or> 256 < length b then Inl (ValueError ''idempotency_key must be 1..256 UTF-8 bytes'') else Inr (sha b))"

record job_start_result =
  sr_job_id :: string
  sr_status :: string
  sr_cwd :: string
  sr_command_sha256 :: string
  sr_command_bytes :: int
  sr_created_at :: int
  sr_idempotent_reuse :: bool

text \<open>What a start takes from outside: \<open>SHA-256\<close>, the directory test, the working directory and environment of
  the server, the fresh identifier, and the process identifier and \<open>/proc\<close> entry the worker will get.\<close>

record start_env =
  sha256_of :: "bytes \<Rightarrow> string"
  is_directory :: "path \<Rightarrow> bool"
  here :: ppath
  environ :: "(string \<times> string) list"
  token :: string
  worker_pid :: int
  worker_process :: process

definition active_job_count :: "(nat \<Rightarrow> nat option) \<Rightarrow> int jrun" where
  "active_job_count ud =
     bind_prog job_names (\<lambda>names.
     bind_prog (statuses ud names) (\<lambda>rows. ret (int (length (filter (\<lambda>s. \<not> terminal s) rows)))))"

definition make_job_dir :: "string \<Rightarrow> unit jrun" where
  "make_job_dir jd =
     step (\<lambda>h. case map_of (job_dirs h) jd of
         Some _ \<Rightarrow> (h, Inl (OSError EEXIST))
       | None \<Rightarrow> (h\<lparr>job_dirs := job_dirs h @ [(jd, empty_dir)]\<rparr>, Inr ()))"

definition launch_worker :: "start_env \<Rightarrow> string \<Rightarrow> int jrun" where
  "launch_worker se jd =
     step (\<lambda>h. (h\<lparr>procs := dict_set (worker_pid se) (worker_process se) (procs h),
                 launched := launched h @ [(jd, safe_child_env (environ se))]\<rparr>, Inr (worker_pid se)))"

definition new_meta :: "string \<Rightarrow> int \<Rightarrow> string \<Rightarrow> int \<Rightarrow> int option \<Rightarrow> string option \<Rightarrow> job_meta" where
  "new_meta cwd t command_sha256 command_len timeout_ms idem_hash =
     \<lparr>jm_status = ''starting'', jm_cwd = cwd, jm_created_at = t, jm_started_at = None, jm_completed_at = None,
      jm_heartbeat_at = t, jm_last_output_at = None, jm_stdout_size = 0, jm_stderr_size = 0, jm_worker_pid = None,
      jm_worker_ticks = None, jm_child_pid = None, jm_child_ticks = None, jm_command_sha256 = command_sha256,
      jm_command_bytes = command_len, jm_timeout_ms = timeout_ms, jm_idempotency_hash = idem_hash\<rparr>"

definition exn_class :: "exn \<Rightarrow> string" where
  "exn_class e =
     (case e of
        OSError ENOENT \<Rightarrow> ''FileNotFoundError'' | OSError EEXIST \<Rightarrow> ''FileExistsError''
      | OSError EACCES \<Rightarrow> ''PermissionError'' | OSError EPERM \<Rightarrow> ''PermissionError''
      | OSError ENOTDIR \<Rightarrow> ''NotADirectoryError'' | OSError EISDIR \<Rightarrow> ''IsADirectoryError''
      | OSError ESRCH \<Rightarrow> ''ProcessLookupError'' | OSError _ \<Rightarrow> ''OSError'' | OSMessage _ \<Rightarrow> ''OSError''
      | ValueError _ \<Rightarrow> ''ValueError'' | RuntimeError _ \<Rightarrow> ''RuntimeError'' | RecursionError \<Rightarrow> ''RecursionError''
      | TypeError _ \<Rightarrow> ''TypeError'' | KeyError _ \<Rightarrow> ''KeyError'')"

definition launch_failure :: "int \<Rightarrow> exn \<Rightarrow> job_result" where
  "launch_failure t e =
     \<lparr>jr_status = ''start_failed'', jr_exit_code = None, jr_timed_out = False, jr_terminated_by = None, jr_started_at = None,
      jr_completed_at = t, jr_duration_ms = 0, jr_stdout_truncated = False, jr_stderr_truncated = False,
      jr_error = Some (''worker launch failed: '' @ exn_class e)\<rparr>"

text \<open>A key that is already known: the recorded job is reported, or the request is refused.\<close>

definition reuse_job :: "(nat \<Rightarrow> nat option) \<Rightarrow> string \<Rightarrow> string \<Rightarrow> job_start_result jrun" where
  "reuse_job ud digest fingerprint =
     bind_prog (read_idem digest) (\<lambda>mapping.
     bind_prog (check (ie_fingerprint mapping = fingerprint) ''idempotency_key was already used for a different job request'') (\<lambda>_.
     bind_prog (lift_res (validate_job_id ud (ie_job_id mapping))) (\<lambda>jd.
     bind_prog (dir_exists jd) (\<lambda>there.
       if there
       then bind_prog (job_status ud (ie_job_id mapping)) (\<lambda>s.
         ret \<lparr>sr_job_id = st_job_id s, sr_status = st_status s, sr_cwd = st_cwd s, sr_command_sha256 = st_command_sha256 s,
              sr_command_bytes = st_command_bytes s, sr_created_at = st_created_at s, sr_idempotent_reuse = True\<rparr>)
       else raise (ValueError ''idempotency_key refers to a cleaned durable job and cannot be replayed'')))))"

definition write_command :: "string \<Rightarrow> bytes \<Rightarrow> unit jrun" where
  "write_command jd raw =
     bind_prog (change_dir jd (\<lambda>d. d\<lparr>command_bin := Some []\<rparr>)) (\<lambda>_. change_dir jd (\<lambda>d. d\<lparr>command_bin := Some raw\<rparr>))"

text \<open>The directory of a new job with its command, specification and metadata.\<close>

definition prepare_job ::
  "(nat \<Rightarrow> nat option) \<Rightarrow> settings \<Rightarrow> start_env \<Rightarrow> bytes \<Rightarrow> string \<Rightarrow> int option \<Rightarrow> string option \<Rightarrow> (string \<times> job_start_result) jrun"
where
  "prepare_job ud st se raw cwd timeout_ms idem =
     (let jid = token se; command_sha256 = sha256_of se raw; command_len = int (length raw) in
     bind_prog (lift_res (validate_job_id ud jid)) (\<lambda>jd.
     bind_prog (make_job_dir jd) (\<lambda>_.
     bind_prog (peek epoch) (\<lambda>t.
     bind_prog (write_command jd raw) (\<lambda>_.
     bind_prog (change_dir jd (\<lambda>d. d\<lparr>spec_doc := Doc \<lparr>js_cwd = cwd, js_timeout_ms = timeout_ms, js_kill_grace_ms = kill_grace_ms st,
        js_max_log_bytes = job_log_max_bytes st, js_heartbeat_seconds = job_heartbeat_seconds st\<rparr>\<rparr>)) (\<lambda>_.
     bind_prog (write_meta_file jd (new_meta cwd t command_sha256 command_len timeout_ms idem)) (\<lambda>_.
       ret (jd, \<lparr>sr_job_id = jid, sr_status = ''starting'', sr_cwd = cwd, sr_command_sha256 = command_sha256,
                 sr_command_bytes = command_len, sr_created_at = t, sr_idempotent_reuse = False\<rparr>))))))))"

text \<open>The worker and its identity; when it cannot be launched the job is recorded as such.\<close>

definition start_worker :: "(nat \<Rightarrow> nat option) \<Rightarrow> start_env \<Rightarrow> string \<Rightarrow> job_start_result \<Rightarrow> job_start_result jrun" where
  "start_worker ud se jd started =
     on_error (launch_worker se jd)
       (\<lambda>e.
         bind_prog (unlink_command jd) (\<lambda>_.
         bind_prog (peek epoch) (\<lambda>t1.
         bind_prog (change_dir jd (\<lambda>d. d\<lparr>result_doc := Doc (launch_failure t1 e)\<rparr>)) (\<lambda>_.
         bind_prog (patch_meta jd (\<lambda>jm. jm\<lparr>jm_status := ''start_failed'', jm_completed_at := Some t1\<rparr>)) (\<lambda>_.
           ret (started\<lparr>sr_status := ''start_failed''\<rparr>))))))
       (\<lambda>pid.
         bind_prog (proc_start_ticks ud pid) (\<lambda>ticks.
         bind_prog (peek epoch) (\<lambda>t1.
         bind_prog (patch_meta jd (\<lambda>jm. jm\<lparr>jm_worker_pid := Some pid, jm_worker_ticks := ticks, jm_heartbeat_at := t1\<rparr>)) (\<lambda>_.
           ret started))))"

definition create_job ::
  "(nat \<Rightarrow> nat option) \<Rightarrow> settings \<Rightarrow> start_env \<Rightarrow> bytes \<Rightarrow> string \<Rightarrow> int option \<Rightarrow> string option \<Rightarrow> string \<Rightarrow> job_start_result jrun"
where
  "create_job ud st se raw cwd timeout_ms idem fingerprint =
     bind_prog (prepare_job ud st se raw cwd timeout_ms idem) (\<lambda>(jd, started).
     bind_prog (case idem of
                  Some digest \<Rightarrow> write_idem digest \<lparr>ie_job_id = token se, ie_fingerprint = fingerprint, ie_cleaned_at = None\<rparr>
                | None \<Rightarrow> ret ()) (\<lambda>_. start_worker ud se jd started))"

definition job_cwd :: "settings \<Rightarrow> path_env \<Rightarrow> start_env \<Rightarrow> string option \<Rightarrow> path res" where
  "job_cwd st env se cwd =
     (case cwd of None \<Rightarrow> cwd_or_first_root st env (here se) | Some d \<Rightarrow> resolve_allowed_path st env (Some d) None)"

text \<open>The checks before the manager lock is taken: the encoded command and the working directory.\<close>

definition admit :: "settings \<Rightarrow> path_env \<Rightarrow> start_env \<Rightarrow> ustr \<Rightarrow> string option \<Rightarrow> int option \<Rightarrow> (bytes \<times> string) res" where
  "admit st env se command cwd timeout_ms =
     and_then (encode_utf8 command) (\<lambda>raw.
       if strip command = [] \<or> 0 \<in> set command \<or> max_command_bytes st < int (length raw)
       then Inl (ValueError ''Command is empty, contains NUL, or exceeds RHMCP_MAX_COMMAND_BYTES'')
       else and_then (job_cwd st env se cwd) (\<lambda>safe_cwd.
         if \<not> is_directory se safe_cwd then Inl (ValueError ''cwd is not an existing allowed directory'')
         else case timeout_ms of
             None \<Rightarrow> Inr (raw, path_str safe_cwd)
           | Some t \<Rightarrow>
               if t < 1000 \<or> job_max_timeout_ms st < t
               then Inl (ValueError (''timeout_ms must be null or between 1000 and '' @ int_str (job_max_timeout_ms st)))
               else Inr (raw, path_str safe_cwd)))"

definition start_job ::
  "(nat \<Rightarrow> nat option) \<Rightarrow> settings \<Rightarrow> path_env \<Rightarrow> start_env \<Rightarrow> ustr \<Rightarrow> string option \<Rightarrow> int option \<Rightarrow> ustr option \<Rightarrow> job_start_result jrun"
where
  "start_job ud st env se command cwd timeout_ms idempotency_key =
     bind_prog (lift_res (admit st env se command cwd timeout_ms)) (\<lambda>(raw, safe_cwd).
       let fingerprint = job_fingerprint (sha256_of se) (sha256_of se raw) safe_cwd timeout_ms in
       bind_prog (case idempotency_key of
                    None \<Rightarrow> ret None
                  | Some key \<Rightarrow> bind_prog (lift_res (idem_digest (sha256_of se) key)) (\<lambda>d. ret (Some d))) (\<lambda>idem.
       bind_prog (case idem of None \<Rightarrow> ret False | Some digest \<Rightarrow> idem_exists digest) (\<lambda>known.
         if known then reuse_job ud (the idem) fingerprint
         else
           bind_prog (active_job_count ud) (\<lambda>n.
           bind_prog (check (n < max_jobs st) (''Active job limit reached ('' @ int_str (max_jobs st) @ '')'')) (\<lambda>_.
             create_job ud st se raw safe_cwd timeout_ms idem fingerprint)))))"

subsection \<open>Cancelling\<close>

text \<open>\<open>SIGTERM\<close> or \<open>SIGKILL\<close> to the child's group, if the leader still is the recorded process.\<close>

definition signal_child :: "(nat \<Rightarrow> nat option) \<Rightarrow> job_meta \<Rightarrow> signal_kind \<Rightarrow> unit jrun" where
  "signal_child ud jm sig =
     bind_prog (proc_group_identity_alive ud (jm_child_pid jm) (jm_child_ticks jm)) (\<lambda>alive.
       if alive then unless_gone (killpg (the (jm_child_pid jm)) sig) else ret ())"

definition touch_cancel :: "string \<Rightarrow> unit jrun" where
  "touch_cancel jd = change_dir jd (\<lambda>d. d\<lparr>cancel_request := True\<rparr>)"

text \<open>A preorder on worlds that allows what the schedule and the clock do: it is respected by every access that
  only looks.  What changes of the host it allows is up to the extensions below.\<close>

locale clocked_relation = run_preorder R for R :: "jworld \<Rightarrow> jworld \<Rightarrow> bool" +
  assumes others: "events w = Others g # es \<Longrightarrow> R w \<lparr>host = pass g (host w), events = es\<rparr>"
    and failing: "events w = Failing e # es \<Longrightarrow> R w (w\<lparr>events := es\<rparr>)"
    and later: "0 \<le> d \<Longrightarrow> R w (w\<lparr>host := (host w)\<lparr>mono := mono (host w) + d\<rparr>\<rparr>)"
begin

lemma own_steps:
  assumes c: "\<And>v. R v (v\<lparr>host := fst (c (host v))\<rparr>)"
  shows "obeys R (step c)"
  unfolding obeys_def
proof (intro allI impI)
  fix w w' r
  assume run: "step c w = (w', r)"
  show "R w w'"
  proof (cases "events w")
    case Nil
    with run c [of w] show ?thesis by (auto simp: step_def split: prod.splits)
  next
    case (Cons t es)
    show ?thesis
    proof (cases t)
      case (Others g)
      with Cons have "R w \<lparr>host = pass g (host w), events = es\<rparr>" by (simp add: others)
      with run c [of "\<lparr>host = pass g (host w), events = es\<rparr>"] Cons Others show ?thesis
        by (auto simp: step_def split: prod.splits intro: trans)
    next
      case (Failing e)
      with run Cons failing [of w e es] show ?thesis by (auto simp: step_def)
    qed
  qed
qed

lemma looks: "obeys R (step (\<lambda>h. (h, r h)))"
  by (rule own_steps) (simp add: refl)

lemma peeks: "obeys R (peek f)"
  by (simp add: obeys_def peek_def refl)

lemma sleeps: "0 \<le> d \<Longrightarrow> obeys R (sleep d)"
  unfolding obeys_def
proof (intro allI impI)
  fix w w' r
  assume d: "0 \<le> d" and run: "sleep d w = (w', r)"
  show "R w w'"
  proof (cases "\<exists>g es. events w = Others g # es")
    case True
    then obtain g es where e: "events w = Others g # es" by blast
    with run have "w' = (\<lparr>host = pass g (host w), events = es\<rparr>)
        \<lparr>host := (pass g (host w))\<lparr>mono := mono (pass g (host w)) + d\<rparr>\<rparr>"
      by (simp add: sleep_def)
    with others [OF e] later [OF d, of "\<lparr>host = pass g (host w), events = es\<rparr>"] show ?thesis
      by (auto intro: trans)
  next
    case False
    with run later [OF d, of w] show ?thesis
      by (auto simp: sleep_def split: list.splits event.splits)
  qed
qed

lemma observations:
  "obeys R (of_dir jd f)" "obeys R (dir_exists jd)" "obeys R (has_file jd b)" "obeys R (getpgid pid)"
  unfolding of_dir_def dir_exists_def has_file_def getpgid_def by (rule looks)+

lemmas observing = combinators looks peeks observations

lemma reads_json: "obeys R access \<Longrightarrow> obeys R (read_json name access)"
  unfolding read_json_def by (intro observing)

lemma reads_meta: "obeys R (read_meta jd)"
  unfolding read_meta_def by (intro reads_json observations)

lemma log_sizes: "obeys R (log_size jd f)"
  unfolding log_size_def by (intro observing)

lemma ticks: "obeys R (proc_start_ticks ud n)"
  unfolding proc_start_ticks_def by (simp, intro conjI impI observing)

end

text \<open>The readers change directories, idempotency files and the process table, and nothing else.\<close>

definition own_change :: "host \<Rightarrow> host \<Rightarrow> bool" where
  "own_change h h' \<longleftrightarrow> h' = h\<lparr>job_dirs := job_dirs h', idem_files := idem_files h', procs := procs h'\<rparr>"

lemma own_change_iff:
  "own_change h h' \<longleftrightarrow> launched h' = launched h \<and> executed h' = executed h \<and> epoch h' = epoch h \<and> mono h' = mono h"
  by (cases h; cases h'; simp add: own_change_def; blast)

locale job_relation = clocked_relation R for R :: "jworld \<Rightarrow> jworld \<Rightarrow> bool" +
  assumes own: "own_change (host w) h \<Longrightarrow> R w (w\<lparr>host := h\<rparr>)"
begin

lemma steps: "(\<And>h. own_change h (fst (c h))) \<Longrightarrow> obeys R (step c)"
  by (rule own_steps) (rule own)

lemma changes: "obeys R (change_dir jd g)" "obeys R (enter_lock jd)" "obeys R (unlink_command jd)"
  unfolding change_dir_def enter_lock_def unlink_command_def
  by (rule steps, simp add: own_change_iff split: option.split)+

lemmas accesses = observations changes

lemma kills: "obeys R (killpg pid sig)"
  unfolding killpg_def
  by (rule steps) (simp add: own_change_iff split: signal_kind.split)

lemmas intros = combinators looks peeks accesses

lemma locked_metas: "obeys R (locked_meta jd)"
  unfolding locked_meta_def by (intro intros reads_meta)

lemma alives: "obeys R (proc_identity_alive ud pid ticks)" "obeys R (proc_group_identity_alive ud pid ticks)"
proof -
  show i: "obeys R (proc_identity_alive ud pid ticks)"
    unfolding proc_identity_alive_def
    by (cases pid; simp; intro conjI impI intros ticks) (simp split: option.split add: intros)
  show "obeys R (proc_group_identity_alive ud pid ticks)"
    unfolding proc_group_identity_alive_def
    by (intro bind i) (auto split: option.split intro!: intros)
qed

lemma job_statuses: "obeys R (job_status ud jid)"
proof -
  have s: "obeys R (settle_interrupted jd jm)" for jd jm
    unfolding settle_interrupted_def ignore_os_error_def write_meta_file_def
    by (intro bind handles accesses; (simp add: intros Let_def split: exn.split)?)
  have o: "obeys R (observe ud jd jm c)" for jd jm c
    unfolding observe_def Let_def
    by (intro bind alives) (simp_all add: intros s)
  have r: "obeys R (report i jd jm x c v)" for i jd jm x c v
    unfolding report_def
    by (intro bind log_sizes) (auto split: option.split intro!: intros)
  have n: "obeys R (result_or_none jd)" for jd
    unfolding result_or_none_def
    by (intro bind accesses) (auto split: exn.split intro!: intros reads_json)
  have i: "obeys R (job_status_in ud i jd)" for i jd
    unfolding job_status_in_def
    by (intro bind accesses reads_meta n) (auto split: option.split prod.split intro!: intros o r)
  show ?thesis
    unfolding job_status_def
    by (intro bind still accesses) (auto intro!: intros i)
qed

end

text \<open>No operation turns the monotonic clock back, so waiting with a deadline ends.\<close>

definition not_before :: "jworld \<Rightarrow> jworld \<Rightarrow> bool" where
  "not_before w w' \<longleftrightarrow> mono (host w) \<le> mono (host w')"

lemma mono_pass: "mono h \<le> mono (pass g h)"
  by (simp add: pass_def)

interpretation time: job_relation not_before
  by unfold_locales (auto simp: not_before_def mono_pass own_change_iff)

lemma sleep_passes: "mono (host w) + d \<le> mono (host (fst (sleep d w)))"
  using mono_pass [of "host w"] by (simp add: sleep_def split: list.split event.split)

text \<open>A wait for \<open>deadline\<close> in steps of \<open>1/k\<close> is bounded by the number of steps left.\<close>

lemma steps_left:
  assumes "mono (host w) < deadline" "mono (host w) \<le> t" "t + 1 / k \<le> mono (host w')" "0 < k"
  shows "nat \<lceil>(deadline - mono (host w')) * k\<rceil> < nat \<lceil>(deadline - mono (host w)) * k\<rceil>"
proof -
  have "(deadline - mono (host w')) * k \<le> (deadline - mono (host w) - 1 / k) * k"
    using assms by (intro mult_right_mono) linarith+
  also have "\<dots> = (deadline - mono (host w)) * k - 1" using assms(4) by (simp add: field_simps)
  finally have "\<lceil>(deadline - mono (host w')) * k + 1\<rceil> \<le> \<lceil>(deadline - mono (host w)) * k\<rceil>" by (intro ceiling_mono) simp
  moreover have "0 < \<lceil>(deadline - mono (host w)) * k\<rceil>" using assms(1,4) by simp
  ultimately show ?thesis by simp
qed

text \<open>The first wait of \<open>cancel_job\<close>: a status once the job is over, \<open>None\<close> when the deadline has passed or
  the group is gone.\<close>

function cancel_wait :: "(nat \<Rightarrow> nat option) \<Rightarrow> string \<Rightarrow> string \<Rightarrow> rat \<Rightarrow> job_status option jrun" where
  "cancel_wait ud jid jd deadline w =
     (if \<not> mono (host w) < deadline then (w, Inr None)
      else case job_status ud jid w of
          (w1, Inl e) \<Rightarrow> (w1, Inl e)
        | (w1, Inr current) \<Rightarrow>
            if terminal current then (w1, Inr (Some current))
            else (case locked_meta jd w1 of
                (w2, Inl e) \<Rightarrow> (w2, Inl e)
              | (w2, Inr jm) \<Rightarrow>
                  (case proc_group_identity_alive ud (jm_child_pid jm) (jm_child_ticks jm) w2 of
                     (w3, Inl e) \<Rightarrow> (w3, Inl e)
                   | (w3, Inr alive) \<Rightarrow>
                       if \<not> alive then (w3, Inr None) else cancel_wait ud jid jd deadline (fst (sleep (1/10) w3)))))"
  by pat_completeness auto

termination
  apply (relation "measure (\<lambda>(ud, jid, jd, deadline, w). nat \<lceil>(deadline - mono (host w)) * 10\<rceil>)")
   apply simp
  apply (simp only: in_measure split_conv not_less not_not)
  apply (rule steps_left [OF _ _ sleep_passes])
    apply simp
   prefer 2 apply simp
  apply (drule obeysD [OF time.job_statuses, OF sym] obeysD [OF time.locked_metas, OF sym]
      obeysD [OF time.alives(2), OF sym])+
  apply (simp add: not_before_def)
  done

declare cancel_wait.simps [simp del]

primrec settle_wait :: "(nat \<Rightarrow> nat option) \<Rightarrow> string \<Rightarrow> nat \<Rightarrow> job_status option jrun" where
  "settle_wait ud jid 0 = ret None"
| "settle_wait ud jid (Suc n) =
     bind_prog (sleep (1/10)) (\<lambda>_.
     bind_prog (job_status ud jid) (\<lambda>current.
       if terminal current then ret (Some current) else settle_wait ud jid n))"

definition cancel_job :: "(nat \<Rightarrow> nat option) \<Rightarrow> settings \<Rightarrow> string \<Rightarrow> job_status jrun" where
  "cancel_job ud st jid =
     bind_prog (job_status ud jid) (\<lambda>s.
       if terminal s then ret s
       else
         bind_prog (lift_res (validate_job_id ud jid)) (\<lambda>jd.
         bind_prog (touch_cancel jd) (\<lambda>_.
         bind_prog (locked_meta jd) (\<lambda>jm.
         bind_prog (signal_child ud jm SIGTERM) (\<lambda>_.
         bind_prog (peek mono) (\<lambda>t.
         bind_prog (cancel_wait ud jid jd (t + of_int (kill_grace_ms st) / 1000)) (\<lambda>over.
           case over of
             Some s1 \<Rightarrow> ret s1
           | None \<Rightarrow>
               bind_prog (locked_meta jd) (\<lambda>jm1.
               bind_prog (signal_child ud jm1 SIGKILL) (\<lambda>_.
               bind_prog (settle_wait ud jid 20) (\<lambda>settled.
                 case settled of Some s1 \<Rightarrow> ret s1 | None \<Rightarrow> job_status ud jid))))))))))"

end
