(* ===== verification/Job_Worker.thy ===== *)
theory Job_Worker
  imports Jobs
begin

text \<open>
  The worker of one durable job, \<open>src/remote_host_mcp/job_worker.py\<close>: it takes the command from
  \<open>command.bin\<close>, unlinks that file, hands the command to a shell in its own process group, keeps the heartbeat
  and the logs, and classifies the end in \<open>result.json\<close>.
\<close>

subsection \<open>State files\<close>

definition worker_patch :: "string \<Rightarrow> (job_meta \<Rightarrow> job_meta) \<Rightarrow> unit jrun" where
  "worker_patch jd f =
     bind_prog (enter_lock jd) (\<lambda>_.
     bind_prog (read_meta jd) (\<lambda>jm. write_meta_file jd (f jm)))"

definition write_result :: "string \<Rightarrow> job_result \<Rightarrow> unit jrun" where
  "write_result jd payload =
     bind_prog (enter_lock jd) (\<lambda>_.
     bind_prog (change_dir jd (\<lambda>d. d\<lparr>result_doc := Doc payload\<rparr>)) (\<lambda>_.
     bind_prog (read_meta jd) (\<lambda>jm.
       write_meta_file jd (jm\<lparr>jm_status := jr_status payload, jm_started_at := jr_started_at payload,
         jm_completed_at := Some (jr_completed_at payload)\<rparr>))))"

subsection \<open>Draining one stream\<close>

text \<open>A log file of the job and its marker, chosen by \<open>out\<close>.\<close>

definition log_of :: "bool \<Rightarrow> job_dir \<Rightarrow> bytes option" where
  "log_of out d = (if out then stdout_log d else stderr_log d)"

definition set_log :: "bool \<Rightarrow> bytes \<Rightarrow> job_dir \<Rightarrow> job_dir" where
  "set_log out b d = (if out then d\<lparr>stdout_log := Some b\<rparr> else d\<lparr>stderr_log := Some b\<rparr>)"

definition marker_of :: "bool \<Rightarrow> job_dir \<Rightarrow> bool" where
  "marker_of out d = (if out then stdout_marker d else stderr_marker d)"

definition set_marker :: "bool \<Rightarrow> job_dir \<Rightarrow> job_dir" where
  "set_marker out d = (if out then d\<lparr>stdout_marker := True\<rparr> else d\<lparr>stderr_marker := True\<rparr>)"

text \<open>One \<open>os.write\<close> through the open descriptor; the kernel takes at most \<open>write_cap\<close> bytes.\<close>

definition append_log :: "string \<Rightarrow> bool \<Rightarrow> bytes \<Rightarrow> nat jrun" where
  "append_log jd out view =
     step (\<lambda>h. let n = min (length view) write_cap in
       (case map_of (job_dirs h) jd of
          None \<Rightarrow> h
        | Some d \<Rightarrow> (case log_of out d of
            None \<Rightarrow> h
          | Some b \<Rightarrow> h\<lparr>job_dirs := dict_set jd (set_log out (b @ take n view) d) (job_dirs h)\<rparr>), Inr n))"

function append_all :: "string \<Rightarrow> bool \<Rightarrow> bytes \<Rightarrow> unit jrun" where
  "append_all jd out view w =
     (if view = [] then (w, Inr ())
      else case append_log jd out view w of
          (w1, Inl e) \<Rightarrow> (w1, Inl e)
        | (w1, Inr written) \<Rightarrow> if written = 0 then (w1, Inl (OSMessage ''short write'')) else append_all jd out (drop written view) w1)"
  by pat_completeness auto
termination
  by (relation "measure (\<lambda>(jd, out, view, w). length view)") auto

declare append_all.simps [simp del]

text \<open>The marker, and its permissions, for which an \<open>OSError\<close> is ignored.\<close>

definition mark_truncated :: "string \<Rightarrow> bool \<Rightarrow> unit jrun" where
  "mark_truncated jd out =
     bind_prog (has_file jd (marker_of out)) (\<lambda>there.
       if there then ret ()
       else bind_prog (change_dir jd (set_marker out)) (\<lambda>_. ignore_os_error (step (\<lambda>h. (h, Inr ())))))"

text \<open>The loop over the reads of the pipe; an exception ends the thread, which leaves \<open>truncated\<close> behind.\<close>

primrec drain_reads :: "string \<Rightarrow> bool \<Rightarrow> int \<Rightarrow> bytes list \<Rightarrow> int \<Rightarrow> bool \<Rightarrow> bool jrun" where
  "drain_reads jd out limit [] kept trunc = bind_prog (attempt (step (\<lambda>h. (h, Inr ())))) (\<lambda>_. ret trunc)"
| "drain_reads jd out limit (data # reads) kept trunc =
     (let remaining = max 0 (limit - kept); chunk = take (nat remaining) data in
      on_error (if remaining \<noteq> 0 then append_all jd out chunk else ret ()) (\<lambda>_. ret trunc) (\<lambda>_.
      let kept1 = (if remaining \<noteq> 0 then kept + int (length chunk) else kept) in
      if remaining < int (length data)
      then on_error (mark_truncated jd out) (\<lambda>_. ret True) (\<lambda>_. drain_reads jd out limit reads kept1 True)
      else drain_reads jd out limit reads kept1 trunc))"

text \<open>\<open>O_CREAT | O_TRUNC\<close>; if it fails, \<open>state\<close> keeps its initial \<open>False\<close>.\<close>

definition drain_log :: "string \<Rightarrow> bool \<Rightarrow> int \<Rightarrow> bytes list \<Rightarrow> bool jrun" where
  "drain_log jd out limit reads =
     on_error (change_dir jd (set_log out [])) (\<lambda>_. ret False) (\<lambda>_. drain_reads jd out limit (takeWhile (\<lambda>r. r \<noteq> []) reads) 0 False)"

subsection \<open>The child process\<close>

text \<open>\<open>proc.poll()\<close>: the known return code, or what \<open>waitpid\<close> reaps now.\<close>

definition poll :: "int \<Rightarrow> int option \<Rightarrow> int option jrun" where
  "poll pid code =
     (case code of
        Some c \<Rightarrow> ret (Some c)
      | None \<Rightarrow>
          on_error
            (step (\<lambda>h. case map_of (procs h) pid of
                 Some p \<Rightarrow> if pr_exit p \<noteq> None then (h\<lparr>procs := dict_pop pid (procs h)\<rparr>, Inr (pr_exit p)) else (h, Inr None)
               | None \<Rightarrow> (h, Inr None)))
            (\<lambda>_. ret None) ret)"

text \<open>\<open>proc.wait(timeout)\<close>: \<open>None\<close> when the child is still running after that time.\<close>

definition wait_for :: "int \<Rightarrow> int option \<Rightarrow> rat \<Rightarrow> int option jrun" where
  "wait_for pid code d =
     bind_prog (poll pid code) (\<lambda>c. if c \<noteq> None then ret c else bind_prog (sleep d) (\<lambda>_. poll pid c))"

lemma poll_not_before: "obeys not_before (poll pid code)"
  unfolding poll_def
  by (auto simp: own_change_iff split: option.split prod.split intro!: time.combinators time.steps)

text \<open>The grace period, polled every 50 ms.\<close>

function grace_wait :: "int \<Rightarrow> rat \<Rightarrow> int option jrun" where
  "grace_wait pid deadline w =
     (if \<not> mono (host w) < deadline then (w, Inr None)
      else case poll pid None w of
          (w1, Inl e) \<Rightarrow> (w1, Inl e)
        | (w1, Inr code) \<Rightarrow> if code \<noteq> None then (w1, Inr code) else grace_wait pid deadline (fst (sleep (1/20) w1)))"
  by pat_completeness auto
termination
  apply (relation "measure (\<lambda>(pid, deadline, w). nat \<lceil>(deadline - mono (host w)) * 20\<rceil>)")
   apply simp
  apply (simp only: in_measure split_conv not_less not_not)
  apply (rule steps_left [OF _ _ sleep_passes])
    apply simp
   prefer 2 apply simp
  apply (drule obeysD [OF poll_not_before, OF sym])
  apply (simp add: not_before_def)
  done

declare grace_wait.simps [simp del]

text \<open>The name of the signal that was needed, and the return code if it is known by then.\<close>

definition terminate_process_group :: "int \<Rightarrow> int option \<Rightarrow> int \<Rightarrow> (string option \<times> int option) jrun" where
  "terminate_process_group pid code grace_ms =
     bind_prog (poll pid code) (\<lambda>c.
       if c \<noteq> None then ret (None, c)
       else
         on_error (killpg pid SIGTERM)
           (\<lambda>e. if e = OSError ESRCH then ret (Some ''SIGTERM'', None) else raise e)
           (\<lambda>_.
             bind_prog (peek mono) (\<lambda>t.
             bind_prog (grace_wait pid (t + of_int grace_ms / 1000)) (\<lambda>c1.
               if c1 \<noteq> None then ret (Some ''SIGTERM'', c1)
               else
                 bind_prog (unless_gone (killpg pid SIGKILL)) (\<lambda>_.
                 bind_prog (wait_for pid None 5) (\<lambda>c2. ret (Some ''SIGKILL'', c2)))))))"

subsection \<open>Watching the child\<close>

text \<open>What the worker takes from outside: the identity of its child, and what the two drain threads had recorded
  when they were joined.\<close>

record run_env =
  child_pid :: int
  child_process :: process
  drained :: "bool \<times> bool"

definition spawn_child :: "run_env \<Rightarrow> string \<Rightarrow> ustr \<Rightarrow> unit jrun" where
  "spawn_child re jd command =
     step (\<lambda>h. (h\<lparr>procs := dict_set (child_pid re) (child_process re) (procs h), executed := executed h @ [(jd, command)]\<rparr>, Inr ()))"

record watch_state =
  next_heartbeat :: rat
  last_sizes :: "int \<times> int"
  last_output_at :: "int option"

definition heartbeat :: "string \<Rightarrow> int \<Rightarrow> rat \<Rightarrow> watch_state \<Rightarrow> watch_state jrun" where
  "heartbeat jd heartbeat_seconds now_mono ws =
     (if now_mono < next_heartbeat ws then ret ws
      else
        bind_prog (log_size jd stdout_log) (\<lambda>out_size.
        bind_prog (log_size jd stderr_log) (\<lambda>err_size.
        bind_prog (peek epoch) (\<lambda>t.
          let ws1 = (if (out_size, err_size) \<noteq> last_sizes ws
                     then ws\<lparr>last_output_at := Some t, last_sizes := (out_size, err_size)\<rparr> else ws) in
          bind_prog (worker_patch jd (\<lambda>jm. jm\<lparr>jm_heartbeat_at := t, jm_last_output_at := last_output_at ws1,
             jm_stdout_size := out_size, jm_stderr_size := err_size\<rparr>)) (\<lambda>_.
            ret (ws1\<lparr>next_heartbeat := now_mono + of_int heartbeat_seconds\<rparr>))))))"

text \<open>How the loop ended: the return code if it is known, \<open>canceled\<close>, \<open>timed_out\<close>, \<open>terminated_by\<close>.\<close>

record watch_end =
  we_code :: "int option"
  we_canceled :: bool
  we_timed_out :: bool
  we_by :: "string option"
  we_state :: watch_state

text \<open>The polling loop, \<open>None\<close> while it is still going after \<open>n\<close> rounds.\<close>

primrec watch_child :: "nat \<Rightarrow> string \<Rightarrow> int \<Rightarrow> int \<Rightarrow> int \<Rightarrow> rat option \<Rightarrow> watch_state \<Rightarrow> watch_end option jrun" where
  "watch_child 0 jd pid grace_ms beat deadline ws = ret None"
| "watch_child (Suc n) jd pid grace_ms beat deadline ws =
     bind_prog (poll pid None) (\<lambda>code.
       if code \<noteq> None
       then ret (Some \<lparr>we_code = code, we_canceled = False, we_timed_out = False, we_by = None, we_state = ws\<rparr>)
       else
         bind_prog (peek mono) (\<lambda>now_mono.
         bind_prog (heartbeat jd beat now_mono ws) (\<lambda>ws1.
         bind_prog (has_file jd cancel_request) (\<lambda>asked.
           let expired = (case deadline of None \<Rightarrow> False | Some d \<Rightarrow> d \<le> now_mono) in
           if asked \<or> expired
           then bind_prog (terminate_process_group pid None grace_ms) (\<lambda>(by, code1).
             ret (Some \<lparr>we_code = code1, we_canceled = asked, we_timed_out = (\<not> asked), we_by = by, we_state = ws1\<rparr>))
           else bind_prog (sleep (1/10)) (\<lambda>_. watch_child n jd pid grace_ms beat deadline ws1)))))"

text \<open>\<open>proc.wait()\<close> without a timeout, for at most \<open>n\<close> looks.\<close>

primrec await_exit :: "nat \<Rightarrow> int \<Rightarrow> int option \<Rightarrow> int option jrun" where
  "await_exit 0 pid code = ret code"
| "await_exit (Suc n) pid code =
     bind_prog (poll pid code) (\<lambda>c. if c \<noteq> None then ret c else bind_prog (sleep (1/20)) (\<lambda>_. await_exit n pid c))"

definition final_code :: "nat \<Rightarrow> int \<Rightarrow> int \<Rightarrow> watch_end \<Rightarrow> (int option \<times> string option) jrun" where
  "final_code n pid grace_ms we =
     bind_prog (wait_for pid (we_code we) 5) (\<lambda>c.
       if c \<noteq> None then ret (c, we_by we)
       else bind_prog (terminate_process_group pid None grace_ms) (\<lambda>(by, c1).
            bind_prog (await_exit n pid c1) (\<lambda>c2. ret (c2, if by \<noteq> None then by else we_by we))))"

definition linux_signals :: "string list" where
  "linux_signals =
     [''SIGHUP'', ''SIGINT'', ''SIGQUIT'', ''SIGILL'', ''SIGTRAP'', ''SIGABRT'', ''SIGBUS'', ''SIGFPE'', ''SIGKILL'', ''SIGUSR1'',
      ''SIGSEGV'', ''SIGUSR2'', ''SIGPIPE'', ''SIGALRM'', ''SIGTERM'', ''SIGSTKFLT'', ''SIGCHLD'', ''SIGCONT'', ''SIGSTOP'', ''SIGTSTP'',
      ''SIGTTIN'', ''SIGTTOU'', ''SIGURG'', ''SIGXCPU'', ''SIGXFSZ'', ''SIGVTALRM'', ''SIGPROF'', ''SIGWINCH'', ''SIGIO'', ''SIGPWR'',
      ''SIGSYS'']"

definition signal_name :: "int \<Rightarrow> string" where
  "signal_name k =
     (if 1 \<le> k \<and> k \<le> 31 then linux_signals ! nat (k - 1)
      else if k = 34 then ''SIGRTMIN'' else if k = 64 then ''SIGRTMAX'' else ''SIGNAL'')"

definition end_status :: "bool \<Rightarrow> bool \<Rightarrow> int \<Rightarrow> string" where
  "end_status canceled late code =
     (if canceled then ''canceled'' else if late then ''timed_out'' else if code = 0 then ''completed'' else ''failed'')"

definition elapsed_since :: "rat \<Rightarrow> rat \<Rightarrow> int" where
  "elapsed_since started t = max 0 \<lfloor>(t - started) * 1000\<rfloor>"

text \<open>After the child: the marker decides between cancellation and failure, then the last heartbeat and the result.\<close>

definition finish_job :: "string \<Rightarrow> run_env \<Rightarrow> rat \<Rightarrow> int \<Rightarrow> watch_end \<Rightarrow> int \<Rightarrow> string option \<Rightarrow> unit jrun" where
  "finish_job jd re started_mono started_at we code by =
     bind_prog (if we_timed_out we then ret False else has_file jd cancel_request) (\<lambda>asked.
       let canceled = (we_canceled we \<or> asked);
           by1 = (if asked \<and> by = None \<and> code < 0 then Some (signal_name (- code)) else by) in
       bind_prog (peek epoch) (\<lambda>completed_at.
       bind_prog (peek mono) (\<lambda>t.
       bind_prog (log_size jd stdout_log) (\<lambda>out_size.
       bind_prog (log_size jd stderr_log) (\<lambda>err_size.
         let output_at = (if (out_size, err_size) \<noteq> last_sizes (we_state we) then Some completed_at else last_output_at (we_state we)) in
         bind_prog (worker_patch jd (\<lambda>jm. jm\<lparr>jm_heartbeat_at := completed_at, jm_last_output_at := output_at,
            jm_stdout_size := out_size, jm_stderr_size := err_size\<rparr>)) (\<lambda>_.
         write_result jd
           \<lparr>jr_status = end_status canceled (we_timed_out we) code, jr_exit_code = Some code,
            jr_timed_out = we_timed_out we, jr_terminated_by = by1, jr_started_at = Some started_at,
            jr_completed_at = completed_at, jr_duration_ms = elapsed_since started_mono t,
            jr_stdout_truncated = fst (drained re), jr_stderr_truncated = snd (drained re), jr_error = None\<rparr>))))))"

subsection \<open>The worker\<close>

definition early_cancel :: "int \<Rightarrow> job_result" where
  "early_cancel t =
     \<lparr>jr_status = ''canceled'', jr_exit_code = None, jr_timed_out = False, jr_terminated_by = None, jr_started_at = None,
      jr_completed_at = t, jr_duration_ms = 0, jr_stdout_truncated = False, jr_stderr_truncated = False, jr_error = None\<rparr>"

definition worker_failure :: "int option \<Rightarrow> int \<Rightarrow> int \<Rightarrow> exn \<Rightarrow> job_result" where
  "worker_failure started_at t duration e =
     \<lparr>jr_status = ''start_failed'', jr_exit_code = None, jr_timed_out = False, jr_terminated_by = None, jr_started_at = started_at,
      jr_completed_at = t, jr_duration_ms = duration, jr_stdout_truncated = False, jr_stderr_truncated = False,
      jr_error = Some (''job worker failed: '' @ exn_class e)\<rparr>"

definition record_start_failure :: "string \<Rightarrow> int option \<Rightarrow> rat \<Rightarrow> exn \<Rightarrow> unit jrun" where
  "record_start_failure jd started_at started_mono e =
     bind_prog (peek epoch) (\<lambda>t.
     bind_prog (peek mono) (\<lambda>t1. write_result jd (worker_failure started_at t (elapsed_since started_mono t1) e)))"

text \<open>\<open>except BaseException\<close>: the command file goes, the failure is recorded if possible, the exit status is 1.\<close>

definition give_up :: "string \<Rightarrow> int option \<Rightarrow> rat \<Rightarrow> exn \<Rightarrow> int option jrun" where
  "give_up jd started_at started_mono e =
     bind_prog (ignore_os_error (unlink_command jd)) (\<lambda>_.
     bind_prog (attempt (record_start_failure jd started_at started_mono e)) (\<lambda>_. ret (Some 1)))"

text \<open>From the running child to its result; \<open>None\<close> while the child is still running after the given rounds.\<close>

definition attend_child :: "(nat \<Rightarrow> nat option) \<Rightarrow> nat \<Rightarrow> string \<Rightarrow> run_env \<Rightarrow> job_spec \<Rightarrow> rat \<Rightarrow> int \<Rightarrow> int option jrun" where
  "attend_child ud n jd re spec started_mono started_at =
     bind_prog (proc_start_ticks ud (child_pid re)) (\<lambda>ticks.
     bind_prog (worker_patch jd (\<lambda>jm. jm\<lparr>jm_status := ''running'', jm_started_at := Some started_at, jm_heartbeat_at := started_at,
        jm_child_pid := Some (child_pid re), jm_child_ticks := ticks\<rparr>)) (\<lambda>_.
     bind_prog (peek mono) (\<lambda>t.
     bind_prog (watch_child n jd (child_pid re) (js_kill_grace_ms spec) (max 1 (js_heartbeat_seconds spec))
         (map_option (\<lambda>ms. t + of_int ms / 1000) (js_timeout_ms spec))
         \<lparr>next_heartbeat = t, last_sizes = (0, 0), last_output_at = None\<rparr>) (\<lambda>over.
       case over of
         None \<Rightarrow> ret None
       | Some we \<Rightarrow>
           bind_prog (final_code n (child_pid re) (js_kill_grace_ms spec) we) (\<lambda>(code, by).
             case code of
               None \<Rightarrow> ret None
             | Some c \<Rightarrow> bind_prog (finish_job jd re started_mono started_at we c by) (\<lambda>_. ret (Some 0)))))))"

definition take_command :: "string \<Rightarrow> (job_spec \<times> ustr) jrun" where
  "take_command jd =
     bind_prog (read_json ''spec.json'' (of_dir jd spec_doc)) (\<lambda>spec.
     bind_prog (of_dir jd command_bin) (\<lambda>b.
     bind_prog (lift_res (case b of None \<Rightarrow> Inl (OSError ENOENT) | Some raw \<Rightarrow> decode_strict raw)) (\<lambda>command.
     bind_prog (unlink_command jd) (\<lambda>_. ret (spec, command)))))"

definition run_worker :: "(nat \<Rightarrow> nat option) \<Rightarrow> nat \<Rightarrow> string \<Rightarrow> run_env \<Rightarrow> int option jrun" where
  "run_worker ud n jd re =
     bind_prog (peek mono) (\<lambda>started_mono.
       on_error
         (bind_prog (take_command jd) (\<lambda>(spec, command).
          bind_prog (has_file jd cancel_request) (\<lambda>asked.
            if asked
            then bind_prog (peek epoch) (\<lambda>t. bind_prog (write_result jd (early_cancel t)) (\<lambda>_. ret None))
            else bind_prog (spawn_child re jd command) (\<lambda>_. ret (Some spec)))))
         (give_up jd None started_mono)
         (\<lambda>running.
           case running of
             None \<Rightarrow> ret (Some 0)
           | Some spec \<Rightarrow>
               bind_prog (peek epoch) (\<lambda>started_at.
                 on_error (attend_child ud n jd re spec started_mono started_at) (give_up jd (Some started_at) started_mono) ret)))"

end
