(* ===== verification/Job_Steps.thy ===== *)
theory Job_Steps
  imports Job_Worker
begin

text \<open>
  What holds of durable jobs: identifiers stay one path component, the process identity does not depend on the
  command name, what an undisturbed operation does, which operations can start anything, and the races and
  failures that lose a job.
\<close>

subsection \<open>Undisturbed operations\<close>

abbreviation calm :: "host \<Rightarrow> jworld" where
  "calm h \<equiv> \<lparr>host = h, events = []\<rparr>"

lemma step_calm [simp]: "step c (calm h) = (calm (fst (c h)), snd (c h))"
  by (simp add: step_def split: prod.split)

lemma peek_calm [simp]: "peek f (calm h) = (calm h, Inr (f h))"
  by (simp add: peek_def)

lemma bind_calm: "p w = (w1, Inr x) \<Longrightarrow> bind_prog p k w = k x w1" "p w = (w1, Inl e) \<Longrightarrow> bind_prog p k w = (w1, Inl e)"
  by (simp_all add: bind_prog_def)

lemma run_simps [simp]:
  "ret x w = (w, Inr x)" "raise e w = (w, Inl e)" "lift_res r w = (w, r)" "attempt p w = (fst (p w), Inr (snd (p w)))"
  "check b m w = (w, if b then Inr () else Inl (ValueError m))"
  by (simp_all add: ret_def raise_def lift_res_def attempt_def check_def split: prod.split)

lemma access_calm [simp]:
  assumes "map_of (job_dirs h) jd = Some d"
  shows "of_dir jd f (calm h) = (calm h, Inr (f d))"
    and "change_dir jd g (calm h) = (calm (h\<lparr>job_dirs := dict_set jd (g d) (job_dirs h)\<rparr>), Inr ())"
    and "dir_exists jd (calm h) = (calm h, Inr True)"
    and "has_file jd b (calm h) = (calm h, Inr (b d))"
    and "enter_lock jd (calm h) = (calm h, Inr ())"
    and "unlink_command jd (calm h) = (calm (h\<lparr>job_dirs := dict_set jd (d\<lparr>command_bin := None\<rparr>) (job_dirs h)\<rparr>), Inr ())"
    and "log_size jd lf (calm h) = (calm h, Inr (case lf d of Some x \<Rightarrow> int (length x) | None \<Rightarrow> 0))"
  using assms
  by (simp_all add: of_dir_def change_dir_def dir_exists_def has_file_def enter_lock_def unlink_command_def log_size_def bind_prog_def)

lemma read_json_calm:
  assumes "map_of (job_dirs h) jd = Some d"
  shows "read_json name (of_dir jd f) (calm h) = (calm h, parsed name (f d))"
  using assms by (simp add: read_json_def on_error_cases)

lemma read_meta_calm [simp]:
  assumes "map_of (job_dirs h) jd = Some d" "metadata d = Doc jm"
  shows "read_meta jd (calm h) = (calm h, Inr jm)"
  using assms by (simp add: read_meta_def read_json_calm parsed_def)

text \<open>Whether the recorded process is alive, as a function of the process table; \<open>Inl\<close> if its entry is not UTF-8.\<close>

definition alive_in :: "(nat \<Rightarrow> nat option) \<Rightarrow> host \<Rightarrow> int option \<Rightarrow> int option \<Rightarrow> bool res" where
  "alive_in ud h pid ticks =
     (case pid of
        None \<Rightarrow> Inr False
      | Some p \<Rightarrow>
          if p \<le> 0 then Inr False
          else (case map_of (procs h) p of
              None \<Rightarrow> Inr False
            | Some x \<Rightarrow> and_then (decode_strict (pr_stat x)) (\<lambda>u.
                Inr (case stat_ticks ud u of None \<Rightarrow> False | Some c \<Rightarrow> (case ticks of None \<Rightarrow> True | Some t \<Rightarrow> c = t)))))"

lemma alive_calm [simp]: "proc_identity_alive ud pid ticks (calm h) = (calm h, alive_in ud h pid ticks)"
  by (simp add: proc_identity_alive_def alive_in_def proc_start_ticks_def bind_prog_def on_error_cases and_then_def
      split: option.split sum.split)

lemma result_calm:
  assumes "map_of (job_dirs h) jd = Some d"
  shows "result_or_none jd (calm h) = (calm h, Inr (case result_doc d of Doc r \<Rightarrow> Some r | _ \<Rightarrow> None))"
  using assms by (simp add: result_or_none_def bind_prog_def handle_def read_json_calm parsed_def split: doc.split)

lemma map_dict_same [simp]: "map_of d k = Some v \<Longrightarrow> dict_set k v d = d"
  by (induction k v d rule: dict_set.induct) (auto split: if_splits)

lemma report_calm:
  assumes "map_of (job_dirs h) jd = Some d"
  shows "\<exists>s. report jid jd jm result asked v (calm h) = (calm h, Inr s) \<and> st_status s = v
    \<and> st_exit_code s = (case result of Some r \<Rightarrow> jr_exit_code r | None \<Rightarrow> None) \<and> st_cancel_requested s = asked \<and> st_job_id s = jid"
  using assms by (simp add: report_def bind_prog_def split: option.split)

text \<open>What a poll leaves behind for a job whose processes are both gone.\<close>

definition settled :: "string \<Rightarrow> job_dir \<Rightarrow> job_meta \<Rightarrow> host \<Rightarrow> host" where
  "settled jd d jm h =
     h\<lparr>job_dirs := dict_set jd
         (d\<lparr>command_bin := None,
            metadata := Doc (if jm_status jm \<in> set terminal_states then jm
                             else jm\<lparr>jm_status := ''interrupted'', jm_completed_at := Some (epoch h)\<rparr>)\<rparr>) (job_dirs h)\<rparr>"

lemma dict_set_twice [simp]: "dict_set k v (dict_set k u d) = dict_set k v d"
  by (induction k u d rule: dict_set.induct) auto

lemma settle_calm:
  assumes "map_of (job_dirs h) jd = Some d" "metadata d = Doc jm"
  shows "\<exists>jm1. settle_interrupted jd jm (calm h) = (calm (settled jd d jm h), Inr jm1)"
  using assms
  by (cases d; cases "jm_status jm \<in> set terminal_states")
    (auto simp: settle_interrupted_def settled_def bind_prog_def write_meta_file_def ignore_os_error_def handle_def Let_def)

definition known_job :: "(nat \<Rightarrow> nat option) \<Rightarrow> string \<Rightarrow> string \<Rightarrow> job_dir \<Rightarrow> job_meta \<Rightarrow> host \<Rightarrow> bool" where
  "known_job ud jid jd d jm h \<longleftrightarrow>
     validate_job_id ud jid = Inr jd \<and> map_of (job_dirs h) jd = Some d \<and> metadata d = Doc jm"

lemma job_status_calm_in:
  assumes "known_job ud jid jd d jm h"
  shows "job_status ud jid (calm h) = job_status_in ud jid jd (calm h)"
  using assms by (simp add: known_job_def job_status_def bind_prog_def)

lemma job_status_finished:
  assumes "known_job ud jid jd d jm h" "result_doc d = Doc r"
  shows "\<exists>s. job_status ud jid (calm h) = (calm h, Inr s) \<and> st_status s = jr_status r \<and> st_exit_code s = jr_exit_code r
    \<and> st_job_id s = jid"
proof -
  have d: "map_of (job_dirs h) jd = Some d" "metadata d = Doc jm" using assms(1) by (simp_all add: known_job_def)
  from report_calm [OF d(1), of jid jm "Some r" "cancel_request d" "jr_status r"] show ?thesis
    using d assms(2) unfolding job_status_calm_in [OF assms(1)]
    by (auto simp: job_status_in_def bind_prog_def result_calm)
qed

lemma job_status_unfinished:
  assumes k: "known_job ud jid jd d jm h" and r: "\<And>r. result_doc d \<noteq> Doc r"
    and c: "alive_in ud h (jm_child_pid jm) (jm_child_ticks jm) = Inr c"
    and w: "alive_in ud h (jm_worker_pid jm) (jm_worker_ticks jm) = Inr a"
  shows "\<exists>s. job_status ud jid (calm h) = (calm (if c \<or> a then h else settled jd d jm h), Inr s)
    \<and> st_status s = observed_status c a (cancel_request d) \<and> st_job_id s = jid"
proof -
  have d: "map_of (job_dirs h) jd = Some d" "metadata d = Doc jm" using k by (simp_all add: known_job_def)
  have n: "(case result_doc d of Doc r \<Rightarrow> Some r | _ \<Rightarrow> None) = None" using r by (simp split: doc.split)
  show ?thesis
  proof (cases "c \<or> a")
    case True
    from report_calm [OF d(1), of jid jm None "cancel_request d" "observed_status c a (cancel_request d)"] show ?thesis
      using True d c w unfolding job_status_calm_in [OF k]
      by (auto simp: job_status_in_def bind_prog_def result_calm n observe_def Let_def)
  next
    case False
    obtain jm1 where s: "settle_interrupted jd jm (calm h) = (calm (settled jd d jm h), Inr jm1)"
      using settle_calm [OF d] by blast
    have "map_of (job_dirs (settled jd d jm h)) jd \<noteq> None" by (simp add: settled_def)
    then obtain d1 where d1: "map_of (job_dirs (settled jd d jm h)) jd = Some d1" by blast
    from report_calm [OF d1, of jid jm1 None "cancel_request d" "observed_status False False (cancel_request d)"] show ?thesis
      using False d c w s unfolding job_status_calm_in [OF k]
      by (auto simp: job_status_in_def bind_prog_def result_calm n observe_def Let_def)
  qed
qed

subsection \<open>Only a start starts anything\<close>

context job_relation
begin

lemma statuses_each: "obeys R (statuses ud ns)"
proof (induction ns)
  case (Cons n ns)
  have "obeys R (status_or_skip ud n)"
    unfolding status_or_skip_def by (auto split: exn.split intro!: intros job_statuses)
  with Cons show ?case by (auto intro!: intros)
qed (simp add: intros)

lemma names: "obeys R job_names"
  unfolding job_names_def by (rule looks)

lemma list_all_jobs: "obeys R (list_jobs ud n)"
  unfolding list_jobs_def Let_def by (intro intros names statuses_each)

lemma read_logs: "obeys R (read_log jd f off n)"
  unfolding read_log_def Let_def by (auto split: option.split intro!: intros log_sizes)

lemma job_reads: "obeys R (job_read ud st jid a b n)"
  unfolding job_read_def by (auto split: prod.split intro!: intros job_statuses read_logs)

lemma idem_accesses: "obeys R (read_idem digest)" "obeys R (idem_exists digest)" "obeys R (write_idem digest ie)"
  unfolding read_idem_def idem_exists_def write_idem_def
  by (intro reads_json looks, rule looks, rule steps, simp add: own_change_iff)

lemma cleanups: "obeys R (cleanup_job ud jid)"
proof -
  have b: "obeys R (bury_idem i d)" for i d
    unfolding bury_idem_def by (auto split: exn.split intro!: intros idem_accesses)
  have r: "obeys R (rmtree_job jd)" for jd
    unfolding rmtree_job_def by (rule steps) (simp add: own_change_iff)
  show ?thesis
    unfolding cleanup_job_def
    by (auto split: option.split intro!: intros job_statuses reads_meta b r)
qed

lemma recoveries: "obeys R (recover_jobs ud st)"
proof -
  have "obeys R (status_or_skip ud n)" for n
    unfolding status_or_skip_def by (auto split: exn.split intro!: intros job_statuses)
  then have o: "obeys R (recover_one ud st t n acc)" for t n acc
    unfolding recover_one_def Let_def by (auto split: option.split exn.split intro!: intros cleanups)
  have "obeys R (recover_each ud st t ns acc)" for t ns acc
    by (induction ns arbitrary: acc) (auto intro!: intros o)
  then show ?thesis unfolding recover_jobs_def by (intro intros names)
qed

lemma cancel_waits: "R w (fst (cancel_wait ud jid jd deadline w))"
proof (induction ud jid jd deadline w rule: cancel_wait.induct)
  case (1 ud jid jd deadline w)
  show ?case
  proof (cases "mono (host w) < deadline")
    case False
    then show ?thesis by (subst cancel_wait.simps) (simp add: refl)
  next
    case True
    obtain w1 r1 where s: "job_status ud jid w = (w1, r1)" by fastforce
    obtain w2 r2 where m: "locked_meta jd w1 = (w2, r2)" by fastforce
    have a: "R w w1" "R w1 w2" using obeysD [OF job_statuses s] obeysD [OF locked_metas m] .
    show ?thesis
    proof (cases r2)
      case (Inl e)
      with True s m a show ?thesis by (subst cancel_wait.simps) (auto split: sum.splits intro: trans)
    next
      case (Inr jm)
      obtain w3 r3 where g: "proc_group_identity_alive ud (jm_child_pid jm) (jm_child_ticks jm) w2 = (w3, r3)" by fastforce
      have "R w2 w3" using obeysD [OF alives(2) g] .
      moreover have "R w3 (fst (sleep (1/10) w3))" by (rule obeys_fst [OF sleeps]) simp
      ultimately have "R w w3" "R w (fst (sleep (1/10) w3))" using a by (blast intro: trans)+
      with True s m a g Inr "1.IH" show ?thesis
        by (subst cancel_wait.simps) (auto split: sum.splits intro: trans)
    qed
  qed
qed

lemma cancels: "obeys R (cancel_job ud st jid)"
proof -
  have g: "obeys R (signal_child ud jm sig)" for jm sig
    unfolding signal_child_def unless_gone_def by (auto intro!: intros alives kills)
  have t: "obeys R (touch_cancel jd)" for jd
    unfolding touch_cancel_def by (rule accesses)
  have c: "obeys R (cancel_wait ud jid jd deadline)" for jd deadline
    using cancel_waits unfolding obeys_def by (metis fst_conv)
  have s: "obeys R (settle_wait ud jid n)" for n
    by (induction n) (auto intro!: intros sleeps job_statuses)
  show ?thesis
    unfolding cancel_job_def
    by (auto split: option.split intro!: intros job_statuses locked_metas g t c s)
qed

lemma reuses: "obeys R (reuse_job ud digest fp)"
  unfolding reuse_job_def by (auto intro!: intros idem_accesses job_statuses)

end

text \<open>Neither a worker nor a command is started, as long as nobody else starts one.\<close>

primrec is_failing :: "event \<Rightarrow> bool" where
  "is_failing (Others g) = False"
| "is_failing (Failing e) = True"

definition undisturbed :: "jworld \<Rightarrow> bool" where
  "undisturbed w = list_all is_failing (events w)"

definition no_start :: "jworld \<Rightarrow> jworld \<Rightarrow> bool" where
  "no_start w w' \<longleftrightarrow> (undisturbed w \<longrightarrow> undisturbed w' \<and> launched (host w') = launched (host w) \<and> executed (host w') = executed (host w))"

interpretation quiet: job_relation no_start
  by unfold_locales (auto simp: no_start_def undisturbed_def own_change_iff)

lemma quiet_keeps:
  assumes "obeys no_start p" "undisturbed w" "p w = (w', r)"
  shows "undisturbed w'" "launched (host w') = launched (host w)" "executed (host w') = executed (host w)"
  using obeysD [OF assms(1,3)] assms(2) by (simp_all add: no_start_def)

text \<open>C13. Only \<open>start_job\<close> and the worker start anything: recovery, status, listing, reading, cancelling and cleaning up
  launch no worker and execute no command, whichever of their accesses fail.\<close>

theorem recovery_replays_nothing:
  assumes "undisturbed w"
    and "p \<in> {fst \<circ> recover_jobs ud st, fst \<circ> job_status ud jid, fst \<circ> list_jobs ud n, fst \<circ> job_read ud st jid a b n,
      fst \<circ> cancel_job ud st jid, fst \<circ> cleanup_job ud jid}"
  shows "launched (host (p w)) = launched (host w) \<and> executed (host (p w)) = executed (host w)"
proof -
  have "no_start w (p w)"
    using assms(2) obeys_fst [OF quiet.recoveries] obeys_fst [OF quiet.job_statuses] obeys_fst [OF quiet.list_all_jobs]
      obeys_fst [OF quiet.job_reads] obeys_fst [OF quiet.cancels] obeys_fst [OF quiet.cleanups]
    by auto
  with assms(1) show ?thesis
    by (simp_all add: no_start_def)
qed

subsection \<open>A key starts at most one job\<close>

definition keeps_keys :: "jworld \<Rightarrow> jworld \<Rightarrow> bool" where
  "keeps_keys w w' \<longleftrightarrow> (undisturbed w \<longrightarrow> undisturbed w' \<and> idem_files (host w') = idem_files (host w))"

interpretation keys: run_preorder keeps_keys
  by unfold_locales (auto simp: keeps_keys_def)

lemma step_keeps_keys: "(\<And>h. idem_files (fst (c h)) = idem_files h) \<Longrightarrow> obeys keeps_keys (step c)"
  by (auto simp: obeys_def keeps_keys_def undisturbed_def step_def split: list.splits event.splits prod.splits) (metis fst_conv)

lemma peek_keeps_keys: "obeys keeps_keys (peek f)"
  by (simp add: obeys_def keeps_keys_def peek_def)

lemmas keys_intros = keys.combinators step_keeps_keys peek_keeps_keys

lemma access_keeps_keys:
  "obeys keeps_keys (change_dir jd g)" "obeys keeps_keys (unlink_command jd)" "obeys keeps_keys (patch_meta jd f)"
  "obeys keeps_keys (proc_start_ticks ud pid)" "obeys keeps_keys (launch_worker se jd)"
proof -
  show c: "obeys keeps_keys (change_dir jd g)" for jd g
    unfolding change_dir_def by (rule step_keeps_keys) (simp split: option.split)
  show "obeys keeps_keys (unlink_command jd)"
    unfolding unlink_command_def by (rule step_keeps_keys) (simp split: option.split)
  show "obeys keeps_keys (patch_meta jd f)"
    unfolding patch_meta_def read_meta_def read_json_def of_dir_def enter_lock_def write_meta_file_def
    by (intro keys_intros c) (simp_all split: option.split)
  show "obeys keeps_keys (proc_start_ticks ud pid)"
    unfolding proc_start_ticks_def by (simp, intro conjI impI keys_intros) simp
  show "obeys keeps_keys (launch_worker se jd)"
    unfolding launch_worker_def by (rule step_keeps_keys) simp
qed

lemma step_Inr_undisturbed:
  assumes "undisturbed w" "step c w = (w', Inr x)"
  shows "undisturbed w'" "host w' = fst (c (host w))" "snd (c (host w)) = Inr x"
  using assms by (auto simp: undisturbed_def step_def split: list.splits event.splits prod.splits)

lemma job_status_id: "job_status ud jid w = (w', Inr s) \<Longrightarrow> st_job_id s = jid"
  by (auto simp: job_status_def job_status_in_def report_def bind_prog_Inr split: prod.splits if_splits)

lemma reuse_job_reports:
  assumes w: "undisturbed w" and m: "idem_files (host w) dg = Doc m" and run: "reuse_job ud dg fp w = (w', Inr r)"
  shows "sr_job_id r = ie_job_id m \<and> sr_idempotent_reuse r \<and> ie_fingerprint m = fp"
proof -
  from run obtain w1 mapping where r: "read_idem dg w = (w1, Inr mapping)"
    and k: "bind_prog (check (ie_fingerprint mapping = fp) ''idempotency_key was already used for a different job request'') (\<lambda>_.
     bind_prog (lift_res (validate_job_id ud (ie_job_id mapping))) (\<lambda>jd.
     bind_prog (dir_exists jd) (\<lambda>there.
       if there
       then bind_prog (job_status ud (ie_job_id mapping)) (\<lambda>s.
         ret \<lparr>sr_job_id = st_job_id s, sr_status = st_status s, sr_cwd = st_cwd s, sr_command_sha256 = st_command_sha256 s,
              sr_command_bytes = st_command_bytes s, sr_created_at = st_created_at s, sr_idempotent_reuse = True\<rparr>)
       else raise (ValueError ''idempotency_key refers to a cleaned durable job and cannot be replayed'')))) w1 = (w', Inr r)"
    unfolding reuse_job_def by (rule bind_progE)
  from r w m have "mapping = m"
    by (auto simp: read_idem_def read_json_def on_error_cases parsed_def step_def undisturbed_def
        split: prod.splits sum.splits list.splits event.splits)
  with k show ?thesis
    by (auto simp: bind_prog_Inr dest: job_status_id split: if_splits)
qed

text \<open>The accesses before the key is recorded start nothing and leave the schedule undisturbed.\<close>

lemma bind_undisturbed:
  assumes "bind_prog p k w = (w', Inr y)" "undisturbed w" "obeys no_start p"
  obtains v x where "p w = (v, Inr x)" "k x v = (w', Inr y)" "undisturbed v"
  using assms quiet_keeps(1) [OF assms(3,2)] by (auto simp: bind_prog_Inr)

lemma write_idem_keeps: "undisturbed w \<Longrightarrow> write_idem dg ie w = (w', Inr ()) \<Longrightarrow> idem_files (host w') dg = Doc ie"
  by (auto simp: write_idem_def dest: step_Inr_undisturbed)

lemma make_quiet:
  "obeys no_start (make_job_dir jd)" "obeys no_start (write_command jd raw)" "obeys no_start (write_meta_file jd jm)"
  unfolding make_job_dir_def write_command_def write_meta_file_def
  by (rule quiet.steps, simp add: own_change_iff split: option.split) (intro quiet.intros)+

lemma prepare_job_quiet: "obeys no_start (prepare_job ud st se raw cwd t idem)"
  unfolding prepare_job_def Let_def by (intro quiet.intros make_quiet)

lemma prepare_job_id: "prepare_job ud st se raw cwd t idem w = (w', Inr (jd, started)) \<Longrightarrow> sr_job_id started = token se"
  by (auto simp: prepare_job_def Let_def bind_prog_Inr)

lemma start_worker_keeps_keys: "obeys keeps_keys (start_worker ud se jd started)"
  unfolding start_worker_def by (intro keys.on_errors keys.bind keys.still peek_keeps_keys access_keeps_keys)

lemma start_worker_id: "start_worker ud se jd started w = (w', Inr r) \<Longrightarrow> sr_job_id r = sr_job_id started"
  by (auto simp: start_worker_def on_error_cases bind_prog_Inr split: prod.splits sum.splits)

lemma create_job_records:
  assumes w: "undisturbed w" and run: "create_job ud st se raw cwd t (Some dg) fp w = (w', Inr r)"
  shows "idem_files (host w') dg = Doc \<lparr>ie_job_id = sr_job_id r, ie_fingerprint = fp, ie_cleaned_at = None\<rparr>"
proof -
  define ie where "ie = \<lparr>ie_job_id = token se, ie_fingerprint = fp, ie_cleaned_at = None\<rparr>"
  obtain v jd started where p: "prepare_job ud st se raw cwd t (Some dg) w = (v, Inr (jd, started))" "undisturbed v"
    and k: "bind_prog (write_idem dg ie) (\<lambda>_. start_worker ud se jd started) v = (w', Inr r)"
    by (rule bind_undisturbed [OF run [unfolded create_job_def] w prepare_job_quiet]) (auto simp: ie_def)
  from k obtain u where u: "write_idem dg ie v = (u, Inr ())" and s: "start_worker ud se jd started u = (w', Inr r)"
    by (auto simp: bind_prog_Inr)
  have "undisturbed u" using p(2) u by (auto simp: write_idem_def dest: step_Inr_undisturbed)
  with obeysD [OF start_worker_keeps_keys s] have "idem_files (host w') = idem_files (host u)"
    by (simp add: keeps_keys_def)
  with write_idem_keeps [OF p(2) u] start_worker_id [OF s] prepare_job_id [OF p(1)] show ?thesis
    by (simp add: ie_def)
qed

lemma active_job_count_quiet: "obeys no_start (active_job_count ud)"
  unfolding active_job_count_def by (intro quiet.intros quiet.names quiet.statuses_each)

text \<open>What a start does after its checks.\<close>

definition start_admitted ::
  "(nat \<Rightarrow> nat option) \<Rightarrow> settings \<Rightarrow> start_env \<Rightarrow> bytes \<Rightarrow> string \<Rightarrow> int option \<Rightarrow> string option \<Rightarrow> string \<Rightarrow> bool \<Rightarrow> job_start_result jrun"
where
  "start_admitted ud st se raw cwd t idem fp known =
     (if known then reuse_job ud (the idem) fp
      else bind_prog (active_job_count ud) (\<lambda>n.
           bind_prog (check (n < max_jobs st) (''Active job limit reached ('' @ int_str (max_jobs st) @ '')'')) (\<lambda>_.
             create_job ud st se raw cwd t idem fp)))"

lemma start_job_cases:
  assumes dg: "idem_digest (sha256_of se) key = Inr dg"
    and run: "start_job ud st env se command cwd t (Some key) w = (w', q)"
  obtains e where "w' = w" "q = Inl e"
  | raw safe_cwd where "admit st env se command cwd t = Inr (raw, safe_cwd)"
      "bind_prog (idem_exists dg) (start_admitted ud st se raw safe_cwd t (Some dg)
         (job_fingerprint (sha256_of se) (sha256_of se raw) safe_cwd t)) w = (w', q)"
proof (cases "admit st env se command cwd t")
  case (Inl e)
  with run show ?thesis by (auto simp: start_job_def bind_prog_def intro: that(1))
next
  case (Inr x)
  obtain raw safe_cwd where x: "x = (raw, safe_cwd)" by fastforce
  show ?thesis
  proof (rule that(2))
    show "admit st env se command cwd t = Inr (raw, safe_cwd)" using Inr x by simp
    show "bind_prog (idem_exists dg) (start_admitted ud st se raw safe_cwd t (Some dg)
        (job_fingerprint (sha256_of se) (sha256_of se raw) safe_cwd t)) w = (w', q)"
      using run Inr x dg by (simp add: start_job_def bind_prog_def start_admitted_def [abs_def] Let_def)
  qed
qed

lemma idem_exists_undisturbed:
  assumes "undisturbed w" "idem_exists dg w = (v, x)"
  shows "undisturbed v \<and> host v = host w \<and> (\<forall>known. x = Inr known \<longrightarrow> known = (idem_files (host w) dg \<noteq> Absent))"
  using assms by (auto simp: idem_exists_def step_def undisturbed_def split: list.splits event.splits prod.splits)

lemma start_job_creates:
  assumes w: "undisturbed w" and dg: "idem_digest (sha256_of se) key = Inr dg"
    and run: "start_job ud st env se command cwd t (Some key) w = (w', Inr r)" and new: "\<not> sr_idempotent_reuse r"
  shows "\<exists>m. idem_files (host w') dg = Doc m \<and> ie_job_id m = sr_job_id r"
  using start_job_cases [OF dg run]
proof cases
  case (2 raw safe_cwd)
  from 2(2) obtain v known where v: "idem_exists dg w = (v, Inr known)"
    and k: "start_admitted ud st se raw safe_cwd t (Some dg)
         (job_fingerprint (sha256_of se) (sha256_of se raw) safe_cwd t) known v = (w', Inr r)"
    by (auto simp: bind_prog_Inr)
  note u = idem_exists_undisturbed [OF w v]
  show ?thesis
  proof (cases known)
    case True
    with k new show ?thesis
      by (auto simp: start_admitted_def reuse_job_def bind_prog_Inr split: if_splits)
  next
    case False
    from k False have "bind_prog (active_job_count ud) (\<lambda>n.
        bind_prog (check (n < max_jobs st) (''Active job limit reached ('' @ int_str (max_jobs st) @ '')''))
          (\<lambda>_. create_job ud st se raw safe_cwd t (Some dg)
            (job_fingerprint (sha256_of se) (sha256_of se raw) safe_cwd t))) v = (w', Inr r)"
      by (simp only: start_admitted_def if_False)
    then obtain v1 n where "undisturbed v1" and "bind_prog (check (n < max_jobs st)
        (''Active job limit reached ('' @ int_str (max_jobs st) @ '')'')) (\<lambda>_. create_job ud st se raw safe_cwd t (Some dg)
          (job_fingerprint (sha256_of se) (sha256_of se raw) safe_cwd t)) v1 = (w', Inr r)"
      using u active_job_count_quiet by (blast elim: bind_undisturbed)
    then show ?thesis
      using create_job_records [of v1 ud st se raw safe_cwd t dg _ w' r] by (auto simp: bind_prog_Inr split: if_splits)
  qed
qed simp

lemma start_job_known:
  assumes w: "undisturbed w" and dg: "idem_digest (sha256_of se) key = Inr dg" and m: "idem_files (host w) dg = Doc m"
    and run: "start_job ud st env se command cwd t (Some key) w = (w', q)"
  shows "launched (host w') = launched (host w)" "executed (host w') = executed (host w)"
    "q = Inr r \<Longrightarrow> sr_job_id r = ie_job_id m \<and> sr_idempotent_reuse r"
proof -
  have "launched (host w') = launched (host w) \<and> executed (host w') = executed (host w)
    \<and> (q = Inr r \<longrightarrow> sr_job_id r = ie_job_id m \<and> sr_idempotent_reuse r)"
    using start_job_cases [OF dg run]
  proof cases
    case (2 raw safe_cwd)
    obtain v x where v: "idem_exists dg w = (v, x)" by fastforce
    note u = idem_exists_undisturbed [OF w v]
    show ?thesis
    proof (cases x)
      case (Inl e)
      with 2 v u show ?thesis by (auto simp: bind_prog_def)
    next
      case (Inr known)
      with u m have "known" by simp
      with 2 v Inr have r: "reuse_job ud dg (job_fingerprint (sha256_of se) (sha256_of se raw) safe_cwd t) v = (w', q)"
        by (simp add: bind_prog_def start_admitted_def)
      from quiet_keeps [OF quiet.reuses _ r] u reuse_job_reports [of v dg m ud _ w' r] r m show ?thesis by auto
    qed
  qed simp
  then show "launched (host w') = launched (host w)" "executed (host w') = executed (host w)"
    "q = Inr r \<Longrightarrow> sr_job_id r = ie_job_id m \<and> sr_idempotent_reuse r" by blast+
qed


end
