(* ===== verification/Job_Faults.thy ===== *)
theory Job_Faults
  imports Job_Steps
begin

text \<open>
  Races and failures of durable jobs: the poll between the metadata of a new job and its worker, the failing
  access after the child was started, the failing access before the metadata exists, and the process whose
  \<open>/proc\<close> entry is not UTF-8.
\<close>

subsection \<open>A poll while a job is being launched\<close>

lemma fst_calm [simp]: "fst (calm h, r) = calm h"
  by simp

lemma dict_set_append: "map_of xs k = None \<Longrightarrow> dict_set k u (xs @ [(k, v)]) = xs @ [(k, u)]"
  by (induction xs) auto

text \<open>The directory \<open>prepare_job\<close> leaves.\<close>

definition prepared :: "settings \<Rightarrow> start_env \<Rightarrow> bytes \<Rightarrow> string \<Rightarrow> int option \<Rightarrow> string option \<Rightarrow> int \<Rightarrow> job_dir" where
  "prepared st se raw cwd t idem now =
     empty_dir\<lparr>command_bin := Some raw,
       spec_doc := Doc \<lparr>js_cwd = cwd, js_timeout_ms = t, js_kill_grace_ms = kill_grace_ms st,
         js_max_log_bytes = job_log_max_bytes st, js_heartbeat_seconds = job_heartbeat_seconds st\<rparr>,
       metadata := Doc (new_meta cwd now (sha256_of se raw) (int (length raw)) t idem)\<rparr>"

lemma prepare_job_calm:
  assumes "validate_job_id ud (token se) = Inr jd" "map_of (job_dirs h) jd = None"
  shows "\<exists>started. prepare_job ud st se raw cwd t idem (calm h)
      = (calm (h\<lparr>job_dirs := job_dirs h @ [(jd, prepared st se raw cwd t idem (epoch h))]\<rparr>), Inr (jd, started))"
  using assms
  by (simp add: prepare_job_def Let_def bind_prog_def make_job_dir_def write_command_def write_meta_file_def dict_set_append
      prepared_def empty_dir_def map_add_def)


lemma alive_none [simp]: "alive_in ud h None ticks = Inr False"
  by (simp add: alive_in_def)

text \<open>A worker that finds no command executes nothing and records the failure.\<close>

lemma worker_without_command:
  assumes d: "map_of (job_dirs h) jd = Some d" "metadata d = Doc jm" "spec_doc d = Doc spec" "command_bin d = None"
  shows "\<exists>h1 d1 r. run_worker ud n jd re (calm h) = (calm h1, Inr (Some 1)) \<and> executed h1 = executed h
    \<and> map_of (job_dirs h1) jd = Some d1 \<and> result_doc d1 = Doc r \<and> jr_status r = ''start_failed''
    \<and> jr_error r = Some ''job worker failed: FileNotFoundError''"
proof -
  have t: "take_command jd (calm h) = (calm h, Inl (OSError ENOENT))"
    using d by (simp add: take_command_def bind_prog_def read_json_calm parsed_def)
  define h0 where "h0 = h\<lparr>job_dirs := dict_set jd (d\<lparr>command_bin := None\<rparr>) (job_dirs h)\<rparr>"
  have h0: "map_of (job_dirs h0) jd = Some (d\<lparr>command_bin := None\<rparr>)" "executed h0 = executed h"
    by (simp_all add: h0_def)
  show ?thesis
    using d h0
    by (simp add: run_worker_def bind_prog_def on_error_cases t give_up_def ignore_os_error_def handle_def flip: h0_def)
      (simp add: record_start_failure_def bind_prog_def write_result_def worker_failure_def exn_class_def write_meta_file_def)
qed

definition ticks_in :: "(nat \<Rightarrow> nat option) \<Rightarrow> host \<Rightarrow> int \<Rightarrow> int option res" where
  "ticks_in ud h pid =
     (if pid \<le> 0 then Inr None
      else case map_of (procs h) pid of None \<Rightarrow> Inr None | Some p \<Rightarrow> and_then (decode_strict (pr_stat p)) (\<lambda>u. Inr (stat_ticks ud u)))"

lemma ticks_calm [simp]: "proc_start_ticks ud pid (calm h) = (calm h, ticks_in ud h pid)"
  by (simp add: proc_start_ticks_def ticks_in_def on_error_cases bind_prog_def and_then_def split: option.split sum.split)

lemma start_worker_calm:
  assumes "map_of (job_dirs h) jd = Some d" "metadata d = Doc jm"
  shows "\<exists>h1 r d1 jm1. start_worker ud se jd started (calm h) = (calm h1, r) \<and> executed h1 = executed h
    \<and> map_of (job_dirs h1) jd = Some d1 \<and> metadata d1 = Doc jm1 \<and> command_bin d1 = command_bin d \<and> spec_doc d1 = spec_doc d"
proof -
  define h0 where "h0 = h\<lparr>procs := dict_set (worker_pid se) (worker_process se) (procs h),
    launched := launched h @ [(jd, safe_child_env (environ se))]\<rparr>"
  have h0: "map_of (job_dirs h0) jd = Some d" "executed h0 = executed h" using assms by (simp_all add: h0_def)
  have l: "launch_worker se jd (calm h) = (calm h0, Inr (worker_pid se))"
    by (simp add: launch_worker_def h0_def)
  show ?thesis
    using h0 assms(2)
    by (cases "ticks_in ud h0 (worker_pid se)")
      (simp_all add: start_worker_def on_error_cases l bind_prog_def patch_meta_def write_meta_file_def)
qed

text \<open>A poll that arrives between the moment the metadata of a new job exists and the moment its worker is recorded
  interrupts the job for good: it unlinks the command, so that the worker started right afterwards executes nothing.\<close>

theorem poll_before_launch_kills_job:
  assumes "validate_job_id ud (token se) = Inr jd" "map_of (job_dirs h) jd = None"
    and "prepare_job ud st se raw cwd t idem (calm h) = (w1, Inr (jd, started))"
    and "job_status ud (token se) w1 = (w2, r2)"
    and "start_worker ud se jd started w2 = (w3, r3)"
    and "run_worker ud n jd re w3 = (w4, r4)"
  shows "\<exists>s d r. r2 = Inr s \<and> st_status s = ''interrupted'' \<and> executed (host w4) = executed h
    \<and> map_of (job_dirs (host w4)) jd = Some d \<and> result_doc d = Doc r \<and> jr_status r = ''start_failed''"
proof -
  define d1 where "d1 = prepared st se raw cwd t idem (epoch h)"
  define h1 where "h1 = h\<lparr>job_dirs := job_dirs h @ [(jd, d1)]\<rparr>"
  define jm where "jm = new_meta cwd (epoch h) (sha256_of se raw) (int (length raw)) t idem"
  have w1: "w1 = calm h1"
    using prepare_job_calm [OF assms(1,2), of st raw cwd t idem] assms(3) by (auto simp: h1_def d1_def)
  have d1: "map_of (job_dirs h1) jd = Some d1" "metadata d1 = Doc jm" "result_doc d1 = Absent"
    using assms(2) by (simp_all add: h1_def d1_def prepared_def jm_def empty_dir_def map_add_def)
  have none: "jm_child_pid jm = None" "jm_worker_pid jm = None" by (simp_all add: jm_def new_meta_def)
  define h2 where "h2 = settled jd d1 jm h1"
  have "known_job ud (token se) jd d1 jm h1" using assms(1) d1 by (simp add: known_job_def)
  from job_status_unfinished [OF this, of False False] obtain s where
    s: "job_status ud (token se) (calm h1) = (calm h2, Inr s)" "st_status s = ''interrupted''"
    using d1(3) none by (auto simp: observed_status_def h2_def)
  have h2: "\<exists>d jm. map_of (job_dirs h2) jd = Some d \<and> metadata d = Doc jm \<and> command_bin d = None \<and> spec_doc d = spec_doc d1"
    "executed h2 = executed h"
    by (simp_all add: h2_def settled_def h1_def)
  then obtain d2 jm2 where d2: "map_of (job_dirs h2) jd = Some d2" "metadata d2 = Doc jm2" "command_bin d2 = None"
    "spec_doc d2 = spec_doc d1" by blast
  have w2: "w2 = calm h2" "r2 = Inr s" using assms(4) s(1) w1 by simp_all
  obtain h3 d3 jm3 where w3: "w3 = calm h3" "executed h3 = executed h2" "map_of (job_dirs h3) jd = Some d3" "metadata d3 = Doc jm3"
      "command_bin d3 = None" "spec_doc d3 = spec_doc d1"
    using start_worker_calm [OF d2(1,2), of ud se started] assms(5) w2(1) d2(3,4) by auto
  have "\<exists>spec. spec_doc d3 = Doc spec" using w3(6) by (simp add: d1_def prepared_def)
  then obtain spec where "spec_doc d3 = Doc spec" by blast
  from worker_without_command [OF w3(3,4) this w3(5), of ud n re] assms(6) w3(1,2) s(2) w2(2) h2(2)
  show ?thesis by auto
qed

subsection \<open>A failing access\<close>

text \<open>Nothing happens before the next access, or it fails.\<close>

abbreviation idle :: event where
  "idle \<equiv> Others (\<lambda>h. h)"

lemma step_events [simp]:
  "step c \<lparr>host = h, events = idle # es\<rparr> = (\<lparr>host = fst (c h), events = es\<rparr>, snd (c h))"
  "step c \<lparr>host = h, events = Failing e # es\<rparr> = (\<lparr>host = h, events = es\<rparr>, Inl (OSError e))"
  by (simp_all add: step_def pass_def split: prod.split)

lemma peek_any [simp]: "peek f w = (w, Inr (f (host w)))"
  by (simp add: peek_def)

lemma cancel_finished:
  assumes "known_job ud jid jd d jm h" "result_doc d = Doc r" "jr_status r \<in> set terminal_states"
  shows "\<exists>s. cancel_job ud st jid (calm h) = (calm h, Inr s) \<and> st_status s = jr_status r"
  using job_status_finished [OF assms(1,2)] assms(3) by (auto simp: cancel_job_def bind_prog_def terminal_def)

lemma give_up_calm:
  assumes "map_of (job_dirs h) jd = Some d" "metadata d = Doc jm"
  shows "\<exists>h1 d1 r jm1. give_up jd sa sm e (calm h) = (calm h1, Inr (Some 1)) \<and> executed h1 = executed h \<and> procs h1 = procs h
    \<and> map_of (job_dirs h1) jd = Some d1 \<and> metadata d1 = Doc jm1 \<and> result_doc d1 = Doc r \<and> jr_status r = ''start_failed''"
  using assms
  by (simp add: give_up_def ignore_os_error_def bind_prog_def handle_def record_start_failure_def write_result_def
      write_meta_file_def worker_failure_def)


text \<open>If an access fails between the command and the metadata of a new job, the plaintext command stays: no operation knows
  the job, so neither a poll nor a clean-up removes it.\<close>

theorem failed_start_keeps_command:
  assumes "validate_job_id ud (token se) = Inr jd" "map_of (job_dirs h) jd = None"
  shows "\<exists>h1 d. prepare_job ud st se raw cwd t idem \<lparr>host = h, events = [idle, idle, idle, idle, Failing e]\<rparr> = (calm h1, Inl (OSError e))
    \<and> map_of (job_dirs h1) jd = Some d \<and> command_bin d = Some raw
    \<and> job_status ud (token se) (calm h1) = (calm h1, Inl (ValueError ''Unknown job_id''))
    \<and> cleanup_job ud (token se) (calm h1) = (calm h1, Inl (ValueError ''Unknown job_id''))"
proof -
  define d where "d = (prepared st se raw cwd t idem (epoch h))\<lparr>metadata := Absent\<rparr>"
  define h1 where "h1 = h\<lparr>job_dirs := job_dirs h @ [(jd, d)]\<rparr>"
  have p: "prepare_job ud st se raw cwd t idem \<lparr>host = h, events = [idle, idle, idle, idle, Failing e]\<rparr> = (calm h1, Inl (OSError e))"
    using assms
    by (simp add: prepare_job_def Let_def bind_prog_def make_job_dir_def write_command_def change_dir_def write_meta_file_def
        dict_set_append prepared_def empty_dir_def map_add_def h1_def d_def)
  have m: "map_of (job_dirs h1) jd = Some d" "command_bin d = Some raw" "metadata d = Absent"
    using assms(2) by (simp_all add: h1_def d_def prepared_def map_add_def)
  have s: "job_status ud (token se) (calm h1) = (calm h1, Inl (ValueError ''Unknown job_id''))"
    using assms(1) m by (simp add: job_status_def bind_prog_def)
  have "cleanup_job ud (token se) (calm h1) = (calm h1, Inl (ValueError ''Unknown job_id''))"
    using assms(1) m s by (simp add: cleanup_job_def bind_prog_def)
  with p m s show ?thesis by blast
qed

text \<open>If the command name of the child is not UTF-8 (the kernel cuts it at 15 bytes), every operation on the running job
  raises: it cannot be polled or cancelled, and it does not count against the limit of active jobs.\<close>

theorem binary_command_name_hides_job:
  assumes "known_job ud jid jd d jm h" "\<And>r. result_doc d \<noteq> Doc r" "jm_child_pid jm = Some pid" "0 < pid"
    and "map_of (procs h) pid = Some x" "decode_strict (pr_stat x) = Inl (ValueError m)"
  shows "job_status ud jid (calm h) = (calm h, Inl (ValueError m))
    \<and> cancel_job ud st jid (calm h) = (calm h, Inl (ValueError m)) \<and> status_or_skip ud jid (calm h) = (calm h, Inr None)"
proof -
  have d: "map_of (job_dirs h) jd = Some d" "metadata d = Doc jm" using assms(1) by (simp_all add: known_job_def)
  have n: "(case result_doc d of Doc r \<Rightarrow> Some r | _ \<Rightarrow> None) = None" using assms(2) by (simp split: doc.split)
  have "job_status ud jid (calm h) = (calm h, Inl (ValueError m))"
    using d n assms(3-6) unfolding job_status_calm_in [OF assms(1)]
    by (simp add: job_status_in_def bind_prog_def result_calm observe_def alive_in_def)
  then show ?thesis by (simp add: cancel_job_def status_or_skip_def bind_prog_def handle_def)
qed

subsection \<open>A start with a new key\<close>

lemma start_job_fresh:
  assumes a: "admit st env se command cwd t = Inr (raw, safe_cwd)" and dg: "idem_digest (sha256_of se) key = Inr dg"
    and h: "idem_files h dg = Absent" "job_dirs h = []" and m: "0 < max_jobs st"
    and v: "validate_job_id ud (token se) = Inr jd" and u: "decode_strict (pr_stat (worker_process se)) = Inr u"
  shows "\<exists>h1 r. start_job ud st env se command cwd t (Some key) (calm h) = (calm h1, Inr r) \<and> \<not> sr_idempotent_reuse r
    \<and> launched h1 = launched h @ [(jd, safe_child_env (environ se))]"
proof -
  let ?d = "prepared st se raw safe_cwd t (Some dg) (epoch h)"
  let ?ie = "\<lparr>ie_job_id = token se, ie_fingerprint = job_fingerprint (sha256_of se) (sha256_of se raw) safe_cwd t, ie_cleaned_at = None\<rparr>"
  have n: "map_of (job_dirs h) jd = None" using h by simp
  from prepare_job_calm [OF v n, of st raw safe_cwd t "Some dg"] obtain started where
    p: "prepare_job ud st se raw safe_cwd t (Some dg) (calm h) = (calm (h\<lparr>job_dirs := job_dirs h @ [(jd, ?d)]\<rparr>), Inr (jd, started))"
    by blast
  have new: "\<not> sr_idempotent_reuse started"
    using p by (auto simp: prepare_job_def Let_def bind_prog_Inr)
  define h1 where "h1 = h\<lparr>job_dirs := job_dirs h @ [(jd, ?d)], idem_files := (idem_files h)(dg := Doc ?ie)\<rparr>"
  have m1: "map_of (job_dirs h1) jd = Some ?d" using h by (simp add: h1_def)
  have "\<exists>h2. start_worker ud se jd started (calm h1) = (calm h2, Inr started)
      \<and> launched h2 = launched h @ [(jd, safe_child_env (environ se))]"
    using m1 u
    by (simp add: start_worker_def on_error_cases launch_worker_def bind_prog_def ticks_in_def and_then_def patch_meta_def
        write_meta_file_def prepared_def h1_def)
  then show ?thesis
    using a dg h m p new
    by (auto simp: start_job_def bind_prog_def idem_exists_def active_job_count_def job_names_def create_job_def Let_def write_idem_def h1_def)
qed
end
