(* ===== verification/Job_Runs.thy ===== *)
theory Job_Runs
  imports Job_Steps Cursor
begin

text \<open>
  The worker: it hands its command to a shell at most once however often it is started and whatever fails, its
  results are consistent, the drained logs are bounded prefixes of the output, and a reader that follows the
  offsets gets the whole log.
\<close>

subsection \<open>The command file\<close>

definition cmd_gone :: "string \<Rightarrow> host \<Rightarrow> bool" where
  "cmd_gone jd h = (case map_of (job_dirs h) jd of None \<Rightarrow> True | Some d \<Rightarrow> command_bin d = None)"

definition command_of :: "string \<Rightarrow> host \<Rightarrow> bytes option" where
  "command_of jd h = Option.bind (map_of (job_dirs h) jd) command_bin"

lemma cmd_gone_iff: "cmd_gone jd h \<longleftrightarrow> command_of jd h = None"
  by (auto simp: cmd_gone_def command_of_def split: option.splits)

text \<open>The others execute nothing for the model's log and write no command; they may remove it.\<close>

definition same_or_gone :: "string \<Rightarrow> host \<Rightarrow> host \<Rightarrow> bool" where
  "same_or_gone jd h h' \<longleftrightarrow> executed h' = executed h \<and> command_of jd h' \<in> {None, command_of jd h}"

primrec harmless :: "string \<Rightarrow> event \<Rightarrow> bool" where
  "harmless jd (Others g) = (\<forall>h. same_or_gone jd h (g h))"
| "harmless jd (Failing e) = True"

definition peaceful :: "string \<Rightarrow> jworld \<Rightarrow> bool" where
  "peaceful jd w = list_all (harmless jd) (events w)"

lemma pass_same_or_gone: "same_or_gone jd h (g h) \<Longrightarrow> same_or_gone jd h (pass g h)"
  by (simp add: same_or_gone_def pass_def command_of_def)

subsection \<open>What the worker respects\<close>

text \<open>The contract under which the worker is examined once and for all: like \<open>job_relation\<close>, but the changes of the
  directories must not bring back a command that is gone.\<close>

locale worker_relation = clocked_relation R for R :: "jworld \<Rightarrow> jworld \<Rightarrow> bool" +
  fixes jd :: string
  assumes own: "own_change (host w) h \<Longrightarrow> (cmd_gone jd (host w) \<Longrightarrow> cmd_gone jd h) \<Longrightarrow> R w (w\<lparr>host := h\<rparr>)"
begin

lemma steps: "(\<And>h. own_change h (fst (c h))) \<Longrightarrow> (\<And>h. cmd_gone jd h \<Longrightarrow> cmd_gone jd (fst (c h))) \<Longrightarrow> obeys R (step c)"
  by (rule own_steps) (rule own)

lemma change: "(\<And>d. command_bin d = None \<Longrightarrow> command_bin (g d) = None) \<Longrightarrow> obeys R (change_dir jd g)"
  unfolding change_dir_def by (rule steps) (auto simp: own_change_iff cmd_gone_def split: option.splits)

lemma accesses: "obeys R (enter_lock jd)" "obeys R (unlink_command jd)" "obeys R (killpg g sig)" "obeys R (poll pid code)"
proof -
  show "obeys R (enter_lock jd)" "obeys R (unlink_command jd)"
    unfolding enter_lock_def unlink_command_def
    by (rule steps; auto simp: own_change_iff cmd_gone_def empty_dir_def map_add_def split: option.splits)+
  show "obeys R (killpg g sig)"
    unfolding killpg_def by (rule steps) (auto simp: own_change_iff cmd_gone_def split: signal_kind.split)
  have "obeys R (step (\<lambda>h. case map_of (procs h) pid of
       Some p \<Rightarrow> if pr_exit p \<noteq> None then (h\<lparr>procs := dict_pop pid (procs h)\<rparr>, Inr (pr_exit p)) else (h, Inr None)
     | None \<Rightarrow> (h, Inr None)))"
    by (rule steps) (auto simp: own_change_iff cmd_gone_def split: option.split)
  then show "obeys R (poll pid code)"
    unfolding poll_def by (cases code) (auto intro!: observing)
qed

lemmas intros = observing sleeps log_sizes reads_meta ticks accesses

lemma patches: "obeys R (worker_patch jd f)" "obeys R (write_result jd p)"
  unfolding worker_patch_def write_result_def write_meta_file_def by (intro intros change; simp)+

lemma grace_waits: "obeys R (grace_wait pid deadline)"
proof -
  have "R w (fst (grace_wait pid deadline w))" for w
  proof (induction pid deadline w rule: grace_wait.induct)
    case (1 pid deadline w)
    obtain w1 r1 where p: "poll pid None w = (w1, r1)" by fastforce
    have "R w w1" using obeysD [OF accesses(4) p] .
    moreover have "R w1 (fst (sleep (1/20) w1))" by (rule obeys_fst [OF sleeps]) simp
    ultimately show ?case
      using p "1.IH" by (subst grace_wait.simps) (auto split: sum.splits intro: refl trans)
  qed
  then show ?thesis unfolding obeys_def by (metis fst_conv)
qed

lemma waits: "0 \<le> d \<Longrightarrow> obeys R (wait_for pid code d)"
  unfolding wait_for_def by (auto intro!: intros)

lemma terminations: "obeys R (terminate_process_group pid code grace)"
  unfolding terminate_process_group_def unless_gone_def by (auto intro!: intros grace_waits waits)

lemma watches: "obeys R (watch_child n jd pid grace beat deadline ws)"
proof (induction n arbitrary: ws)
  case (Suc n)
  have "obeys R (heartbeat jd beat t ws)" for t ws
    unfolding heartbeat_def Let_def by (auto intro!: intros patches)
  then show ?case
    using Suc.IH by (auto simp: Let_def intro!: intros terminations)
qed (simp add: intros)

lemma final_codes: "obeys R (final_code n pid grace we)"
proof -
  have "obeys R (await_exit n pid code)" for n code
    by (induction n arbitrary: code) (auto intro!: intros)
  then show ?thesis unfolding final_code_def by (auto intro!: intros terminations waits)
qed

lemma finishes: "obeys R (finish_job jd re sm sa we code by)"
  unfolding finish_job_def Let_def by (auto intro!: intros patches)

lemma attends: "obeys R (attend_child ud n jd re spec sm sa)"
  unfolding attend_child_def
  by (auto split: option.split prod.split intro!: intros patches watches final_codes finishes)

lemma gives_up: "obeys R (give_up jd sa sm e)"
  unfolding give_up_def ignore_os_error_def record_start_failure_def
  by (auto split: exn.split intro!: intros patches)

lemma takes: "obeys R (take_command jd)"
  unfolding take_command_def by (auto intro!: intros reads_json)

end

sublocale job_relation \<subseteq> worker: worker_relation R jd for jd
  by unfold_locales (rule own)

subsection \<open>At most one execution\<close>

definition spent :: "string \<Rightarrow> jworld \<Rightarrow> jworld \<Rightarrow> bool" where
  "spent jd w w' \<longleftrightarrow> (peaceful jd w \<longrightarrow>
     peaceful jd w' \<and> executed (host w') = executed (host w) \<and> (cmd_gone jd (host w) \<longrightarrow> cmd_gone jd (host w')))"

interpretation spent: worker_relation "spent jd" jd for jd
proof unfold_locales
  fix w :: jworld and g es
  assume e: "events w = Others g # es"
  show "spent jd w \<lparr>host = pass g (host w), events = es\<rparr>"
  proof (cases "same_or_gone jd (host w) (pass g (host w))")
    case True
    with e show ?thesis by (auto simp: spent_def peaceful_def same_or_gone_def cmd_gone_iff)
  next
    case False
    with e show ?thesis by (auto simp: spent_def peaceful_def intro: pass_same_or_gone)
  qed
qed (auto simp: spent_def peaceful_def own_change_iff cmd_gone_iff command_of_def)

lemma step_peaceful:
  assumes "peaceful jd w" "step c w = (w', r)"
  obtains h where "same_or_gone jd (host w) h" "peaceful jd w'" "host w' = fst (c h) \<and> r = snd (c h) \<or> host w' = h \<and> (\<exists>e. r = Inl e)"
proof (cases "events w")
  case Nil
  with assms that [of "host w"] show ?thesis
    by (auto simp: step_def peaceful_def same_or_gone_def split: prod.splits)
next
  case (Cons t es)
  show ?thesis
  proof (cases t)
    case (Others g)
    with assms Cons have "same_or_gone jd (host w) (pass g (host w))"
      by (auto simp: peaceful_def intro: pass_same_or_gone)
    with assms Cons Others that [of "pass g (host w)"] show ?thesis
      by (auto simp: step_def peaceful_def split: prod.splits)
  next
    case (Failing e)
    with assms Cons that [of "host w"] show ?thesis
      by (auto simp: step_def peaceful_def same_or_gone_def)
  qed
qed

lemma of_dir_Inr:
  assumes "peaceful jd w" "of_dir jd f w = (w', Inr x)"
  shows "peaceful jd w' \<and> same_or_gone jd (host w) (host w') \<and> (\<exists>d. map_of (job_dirs (host w')) jd = Some d \<and> x = f d)"
  using assms unfolding of_dir_def by (rule step_peaceful) (auto split: option.splits)

lemma unlink_command_Inr:
  assumes "peaceful jd w" "unlink_command jd w = (w', Inr x)"
  shows "cmd_gone jd (host w')"
  using assms unfolding unlink_command_def by (rule step_peaceful) (auto simp: cmd_gone_def split: option.splits)

lemma take_command_Inr:
  assumes w: "peaceful jd w" and run: "take_command jd w = (w', Inr (spec, c))"
  shows "cmd_gone jd (host w')" "\<exists>raw. command_of jd (host w) = Some raw \<and> decode_strict raw = Inr c"
proof -
  from run obtain v1 v2 b v3 where 1: "read_json ''spec.json'' (of_dir jd spec_doc) w = (v1, Inr spec)"
    and 2: "of_dir jd command_bin v1 = (v2, Inr b)"
    and 3: "(case b of None \<Rightarrow> Inl (OSError ENOENT) | Some raw \<Rightarrow> decode_strict raw) = Inr c"
    and 4: "unlink_command jd v2 = (w', Inr v3)"
    by (auto simp: take_command_def bind_prog_Inr)
  from 1 obtain x where "of_dir jd spec_doc w = (v1, Inr x)"
    by (auto simp: read_json_def on_error_cases split: prod.splits sum.splits)
  note v1 = of_dir_Inr [OF w this]
  then have v2: "peaceful jd v2" "same_or_gone jd (host v1) (host v2)" "b = command_of jd (host v2)"
    using of_dir_Inr [OF _ 2] by (auto simp: command_of_def)
  from unlink_command_Inr [OF v2(1) 4] show "cmd_gone jd (host w')" .
  from 3 obtain raw where raw: "b = Some raw" "decode_strict raw = Inr c" by (auto split: option.splits)
  with v2 have "command_of jd (host v1) = Some raw" by (auto simp: same_or_gone_def)
  with v1 have "command_of jd (host w) = Some raw" by (auto simp: same_or_gone_def)
  with raw(2) show "\<exists>raw. command_of jd (host w) = Some raw \<and> decode_strict raw = Inr c" by blast
qed

lemma spawn_child_executes:
  assumes "peaceful jd w" "spawn_child re jd c w = (w', q)"
  shows "peaceful jd w' \<and> (cmd_gone jd (host w) \<longrightarrow> cmd_gone jd (host w'))
    \<and> (\<exists>b. executed (host w') = executed (host w) @ (if b then [(jd, c)] else []))"
proof -
  from assms(1) assms(2) [unfolded spawn_child_def] obtain h where h: "same_or_gone jd (host w) h" "peaceful jd w'"
    "executed (host w') = executed h @ [(jd, c)] \<and> job_dirs (host w') = job_dirs h \<or> host w' = h"
    by (rule step_peaceful) auto
  then have "cmd_gone jd (host w) \<longrightarrow> cmd_gone jd (host w')"
    by (auto simp: same_or_gone_def cmd_gone_iff command_of_def)
  moreover have "\<exists>b. executed (host w') = executed (host w) @ (if b then [(jd, c)] else [])"
    using h(3)
  proof
    assume "executed (host w') = executed h @ [(jd, c)] \<and> job_dirs (host w') = job_dirs h"
    with h(1) show ?thesis by (intro exI [of _ True]) (simp add: same_or_gone_def)
  next
    assume "host w' = h"
    with h(1) show ?thesis by (intro exI [of _ False]) (simp add: same_or_gone_def)
  qed
  ultimately show ?thesis using h by blast
qed

text \<open>Up to the child: nothing, or the command of \<open>command.bin\<close> after that file is gone.\<close>

definition launch_child :: "string \<Rightarrow> run_env \<Rightarrow> job_spec option jrun" where
  "launch_child jd re =
     bind_prog (take_command jd) (\<lambda>(spec, command).
     bind_prog (has_file jd cancel_request) (\<lambda>asked.
       if asked then bind_prog (peek epoch) (\<lambda>t. bind_prog (write_result jd (early_cancel t)) (\<lambda>_. ret None))
       else bind_prog (spawn_child re jd command) (\<lambda>_. ret (Some spec))))"

definition runs_command :: "string \<Rightarrow> host \<Rightarrow> host \<Rightarrow> bool" where
  "runs_command jd h h' \<longleftrightarrow> executed h' = executed h
     \<or> (\<exists>raw c. command_of jd h = Some raw \<and> decode_strict raw = Inr c \<and> executed h' = executed h @ [(jd, c)] \<and> cmd_gone jd h')"

lemma runs_command_spent: "runs_command jd h (host w) \<Longrightarrow> peaceful jd w \<Longrightarrow> spent jd w w' \<Longrightarrow> runs_command jd h (host w')"
  by (auto simp: runs_command_def spent_def)

lemma launch_child_runs:
  assumes w: "peaceful jd w" and run: "launch_child jd re w = (w', q)"
  shows "peaceful jd w' \<and> runs_command jd (host w) (host w')"
proof -
  obtain v x where t: "take_command jd w = (v, x)" by fastforce
  note tv = obeysD [OF spent.takes t]
  show ?thesis
  proof (cases x)
    case (Inl e)
    with run t tv w show ?thesis by (auto simp: launch_child_def bind_prog_def spent_def runs_command_def)
  next
    case (Inr sc)
    obtain spec c where sc: "sc = (spec, c)" by fastforce
    note tc = take_command_Inr [OF w t [unfolded Inr sc]]
    obtain u y where h: "has_file jd cancel_request v = (u, y)" by fastforce
    have u: "peaceful jd u" "cmd_gone jd (host u)" "executed (host u) = executed (host w)"
      using obeysD [OF spent.observations(3) h] tv w tc(1) by (auto simp: spent_def)
    let ?early = "bind_prog (peek epoch) (\<lambda>t. bind_prog (write_result jd (early_cancel t)) (\<lambda>_. ret (None :: job_spec option)))"
    show ?thesis
    proof (cases y)
      case (Inl e)
      with run t Inr sc h u show ?thesis by (auto simp: launch_child_def bind_prog_def runs_command_def)
    next
      case (Inr asked)
      show ?thesis
      proof (cases asked)
        case True
        have "obeys (spent jd) ?early" by (intro spent.intros spent.patches)
        moreover have "?early u = (w', q)"
          using run t \<open>x = Inr sc\<close> sc h Inr True by (simp add: launch_child_def bind_calm)
        ultimately have "spent jd u w'" by (rule obeysD)
        with u show ?thesis by (simp add: spent_def runs_command_def)
      next
        case False
        obtain u1 z where s: "spawn_child re jd c u = (u1, z)" by fastforce
        with run t \<open>x = Inr sc\<close> sc h Inr False have "w' = u1"
          by (cases z) (simp_all add: launch_child_def bind_calm bind_prog_def)
        with spawn_child_executes [OF u(1) s] u tc(2) show ?thesis
          by (auto simp: runs_command_def split: if_splits)
      qed
    qed
  qed
qed

lemma run_worker_launch:
  "run_worker ud n jd re w = on_error (launch_child jd re) (give_up jd None (mono (host w)))
     (\<lambda>running. case running of None \<Rightarrow> ret (Some 0) | Some spec \<Rightarrow>
        bind_prog (peek epoch) (\<lambda>sa. on_error (attend_child ud n jd re spec (mono (host w)) sa) (give_up jd (Some sa) (mono (host w))) ret)) w"
  by (simp add: run_worker_def launch_child_def bind_prog_def peek_def)

lemma run_worker_runs:
  assumes w: "peaceful jd w" and run: "run_worker ud n jd re w = (w', q)"
  shows "peaceful jd w' \<and> runs_command jd (host w) (host w')"
proof -
  obtain v x where l: "launch_child jd re w = (v, x)" by fastforce
  note lv = launch_child_runs [OF w l]
  have "spent jd v w'"
  proof (cases x)
    case (Inl e)
    with run l have "give_up jd None (mono (host w)) e v = (w', q)" by (simp add: run_worker_launch on_error_cases)
    then show ?thesis by (rule obeysD [OF spent.gives_up])
  next
    case (Inr running)
    let ?k = "case running of None \<Rightarrow> ret (Some 0) | Some spec \<Rightarrow>
        bind_prog (peek epoch) (\<lambda>sa. on_error (attend_child ud n jd re spec (mono (host w)) sa) (give_up jd (Some sa) (mono (host w))) ret)"
    have "obeys (spent jd) ?k"
      by (auto split: option.split intro!: spent.intros spent.attends spent.gives_up)
    moreover have "?k v = (w', q)" using run l Inr by (simp add: run_worker_launch on_error_cases)
    ultimately show ?thesis by (rule obeysD)
  qed
  with lv runs_command_spent [of jd "host w" v w'] show ?thesis by (auto simp: spent_def)
qed


subsection \<open>Consistent results\<close>

definition consistent_result :: "job_result \<Rightarrow> bool" where
  "consistent_result r \<longleftrightarrow>
     jr_status r \<in> {''completed'', ''failed'', ''canceled'', ''timed_out''} \<and> jr_error r = None
     \<and> (jr_status r = ''completed'' \<longrightarrow> jr_exit_code r = Some 0)
     \<and> (jr_status r = ''failed'' \<longrightarrow> (\<exists>c. jr_exit_code r = Some c \<and> c \<noteq> 0))
     \<and> (jr_timed_out r \<longleftrightarrow> jr_status r = ''timed_out'')"

definition recorded :: "string \<Rightarrow> host \<Rightarrow> bool" where
  "recorded jd h \<longleftrightarrow> (\<exists>d r jm. map_of (job_dirs h) jd = Some d \<and> result_doc d = Doc r \<and> metadata d = Doc jm
     \<and> jm_status jm = jr_status r \<and> consistent_result r)"

lemma change_dir_Inr:
  assumes "undisturbed w" "change_dir jd g w = (w', Inr x)"
  shows "undisturbed w' \<and> (\<exists>d. map_of (job_dirs (host w)) jd = Some d \<and> map_of (job_dirs (host w')) jd = Some (g d))"
  using step_Inr_undisturbed [OF assms(1) assms(2) [unfolded change_dir_def]] by (auto split: option.splits)

lemma read_meta_Inr:
  assumes "undisturbed w" "read_meta jd w = (w', Inr jm)"
  shows "undisturbed w' \<and> host w' = host w \<and> (\<exists>d. map_of (job_dirs (host w)) jd = Some d \<and> metadata d = Doc jm)"
proof -
  from assms(2) obtain x where x: "of_dir jd metadata w = (w', Inr x)" "parsed ''metadata.json'' x = Inr jm"
    by (auto simp: read_meta_def read_json_def on_error_cases split: prod.splits sum.splits)
  from step_Inr_undisturbed [OF assms(1) x(1) [unfolded of_dir_def]] x(2) show ?thesis
    by (auto simp: parsed_def split: option.splits doc.splits)
qed

lemma write_result_Inr:
  assumes w: "undisturbed w" and run: "write_result jd p w = (w', Inr ())"
  shows "\<exists>d jm. map_of (job_dirs (host w')) jd = Some d \<and> result_doc d = Doc p \<and> metadata d = Doc jm \<and> jm_status jm = jr_status p"
proof -
  from bind_undisturbed [OF run [unfolded write_result_def] w quiet.worker.accesses(1)] obtain v where v: "undisturbed v"
    and k: "bind_prog (change_dir jd (\<lambda>d. d\<lparr>result_doc := Doc p\<rparr>)) (\<lambda>_. bind_prog (read_meta jd) (\<lambda>jm.
       write_meta_file jd (jm\<lparr>jm_status := jr_status p, jm_started_at := jr_started_at p,
         jm_completed_at := Some (jr_completed_at p)\<rparr>))) v = (w', Inr ())" .
  from k obtain v1 where c: "change_dir jd (\<lambda>d. d\<lparr>result_doc := Doc p\<rparr>) v = (v1, Inr ())"
    and k1: "bind_prog (read_meta jd) (\<lambda>jm. write_meta_file jd (jm\<lparr>jm_status := jr_status p, jm_started_at := jr_started_at p,
         jm_completed_at := Some (jr_completed_at p)\<rparr>)) v1 = (w', Inr ())" by (auto simp: bind_prog_Inr)
  from change_dir_Inr [OF v c] obtain d where d: "undisturbed v1" "map_of (job_dirs (host v1)) jd = Some (d\<lparr>result_doc := Doc p\<rparr>)"
    by blast
  from k1 obtain v2 jm where r: "read_meta jd v1 = (v2, Inr jm)"
    and m: "write_meta_file jd (jm\<lparr>jm_status := jr_status p, jm_started_at := jr_started_at p,
         jm_completed_at := Some (jr_completed_at p)\<rparr>) v2 = (w', Inr ())" by (auto simp: bind_prog_Inr)
  from read_meta_Inr [OF d(1) r] d(2) change_dir_Inr [OF _ m [unfolded write_meta_file_def]] show ?thesis by auto
qed

lemma watch_exclusive:
  "watch_child n jd pid grace beat deadline ws w = (w', Inr (Some we)) \<Longrightarrow> \<not> (we_canceled we \<and> we_timed_out we)"
  by (induction n arbitrary: w ws) (auto simp: bind_prog_Inr Let_def split: if_splits prod.splits)

lemma finish_job_records:
  assumes w: "undisturbed w" and x: "\<not> (we_canceled we \<and> we_timed_out we)" and run: "finish_job jd re sm sa we c by w = (w', Inr ())"
  shows "recorded jd (host w')"
proof -
  define first where "first = (if we_timed_out we then ret False else has_file jd cancel_request)"
  have q: "obeys no_start first" unfolding first_def by (auto intro!: quiet.worker.intros)
  from bind_undisturbed [OF run [unfolded finish_job_def, folded first_def] w q] obtain v asked where
    f: "first w = (v, Inr asked)" "undisturbed v" and k: "(let canceled = we_canceled we \<or> asked;
        by1 = if asked \<and> by = None \<and> c < 0 then Some (signal_name (- c)) else by in
      bind_prog (peek epoch) (\<lambda>t. bind_prog (peek mono) (\<lambda>t1. bind_prog (log_size jd stdout_log) (\<lambda>a. bind_prog (log_size jd stderr_log) (\<lambda>b.
        let oa = if (a, b) \<noteq> last_sizes (we_state we) then Some t else last_output_at (we_state we) in
        bind_prog (worker_patch jd (\<lambda>jm. jm\<lparr>jm_heartbeat_at := t, jm_last_output_at := oa, jm_stdout_size := a, jm_stderr_size := b\<rparr>))
        (\<lambda>_. write_result jd \<lparr>jr_status = end_status canceled (we_timed_out we) c, jr_exit_code = Some c, jr_timed_out = we_timed_out we,
            jr_terminated_by = by1, jr_started_at = Some sa, jr_completed_at = t, jr_duration_ms = elapsed_since sm t1,
            jr_stdout_truncated = fst (drained re), jr_stderr_truncated = snd (drained re), jr_error = None\<rparr>)))))) v = (w', Inr ())"
    by blast
  have asked: "\<not> (asked \<and> we_timed_out we)" using f(1) by (auto simp: first_def)
  obtain u p where u: "undisturbed u" and p: "write_result jd p u = (w', Inr ())"
    and s: "jr_status p = end_status (we_canceled we \<or> asked) (we_timed_out we) c" "jr_exit_code p = Some c"
      "jr_timed_out p = we_timed_out we" "jr_error p = None"
    using k f(2) unfolding Let_def
    by (elim bind_undisturbed) (auto intro!: quiet.peeks quiet.log_sizes quiet.worker.patches simp del: run_simps)
  have "consistent_result p"
    using s x asked by (auto simp: consistent_result_def end_status_def split: if_splits)
  with write_result_Inr [OF u p] show ?thesis by (auto simp: recorded_def)
qed

lemma give_up_code: "give_up jd sa sm e w = (w', Inr q) \<Longrightarrow> q = Some 1"
  by (auto simp: give_up_def bind_prog_Inr)

lemma launch_child_records:
  assumes w: "undisturbed w" and run: "launch_child jd re w = (w', Inr q)"
  shows "undisturbed w' \<and> (q = None \<longrightarrow> recorded jd (host w'))"
proof -
  from bind_undisturbed [OF run [unfolded launch_child_def] w quiet.worker.takes] obtain v spec c where v: "undisturbed v"
    and k: "bind_prog (has_file jd cancel_request) (\<lambda>asked.
       if asked then bind_prog (peek epoch) (\<lambda>t. bind_prog (write_result jd (early_cancel t)) (\<lambda>_. ret None))
       else bind_prog (spawn_child re jd c) (\<lambda>_. ret (Some spec))) v = (w', Inr q)"
    by (metis (no_types, lifting) case_prod_conv surj_pair)
  from bind_undisturbed [OF k v quiet.observations(3)] obtain u asked where u: "undisturbed u"
    and k1: "(if asked then bind_prog (peek epoch) (\<lambda>t. bind_prog (write_result jd (early_cancel t)) (\<lambda>_. ret None))
       else bind_prog (spawn_child re jd c) (\<lambda>_. ret (Some spec))) u = (w', Inr q)" by blast
  show ?thesis
  proof (cases asked)
    case True
    with k1 have p: "write_result jd (early_cancel (epoch (host u))) u = (w', Inr ())" "q = None"
      by (auto simp: bind_prog_Inr peek_def)
    have "consistent_result (early_cancel t)" for t by (simp add: consistent_result_def early_cancel_def)
    with write_result_Inr [OF u p(1)] obeysD [OF quiet.worker.patches(2) p(1)] u show ?thesis
      by (auto simp: recorded_def no_start_def)
  next
    case False
    with k1 obtain x where "spawn_child re jd c u = (w', Inr x)" "q = Some spec" by (auto simp: bind_prog_Inr)
    with u show ?thesis by (auto simp: spawn_child_def dest: step_Inr_undisturbed)
  qed
qed

lemma attend_child_records:
  assumes w: "undisturbed w" and run: "attend_child ud n jd re spec sm sa w = (w', Inr (Some c))"
  shows "recorded jd (host w')"
proof -
  let ?pid = "child_pid re" and ?grace = "js_kill_grace_ms spec"
  have "obeys no_start (proc_start_ticks ud ?pid)" by (rule quiet.ticks)
  from bind_undisturbed [OF run [unfolded attend_child_def] w this] obtain v ticks where v: "undisturbed v"
    and k: "bind_prog (worker_patch jd (\<lambda>jm. jm\<lparr>jm_status := ''running'', jm_started_at := Some sa, jm_heartbeat_at := sa,
        jm_child_pid := Some ?pid, jm_child_ticks := ticks\<rparr>)) (\<lambda>_. bind_prog (peek mono) (\<lambda>t.
     bind_prog (watch_child n jd ?pid ?grace (max 1 (js_heartbeat_seconds spec))
         (map_option (\<lambda>ms. t + of_int ms / 1000) (js_timeout_ms spec)) \<lparr>next_heartbeat = t, last_sizes = (0, 0), last_output_at = None\<rparr>)
       (\<lambda>over. case over of None \<Rightarrow> ret None | Some we \<Rightarrow> bind_prog (final_code n ?pid ?grace we) (\<lambda>(code, by).
          case code of None \<Rightarrow> ret None | Some c \<Rightarrow> bind_prog (finish_job jd re sm sa we c by) (\<lambda>_. ret (Some 0)))))) v = (w', Inr (Some c))"
    by blast
  from bind_undisturbed [OF k v quiet.worker.patches(1)] obtain u where u: "undisturbed u"
    and k1: "bind_prog (watch_child n jd ?pid ?grace (max 1 (js_heartbeat_seconds spec))
         (map_option (\<lambda>ms. mono (host u) + of_int ms / 1000) (js_timeout_ms spec))
         \<lparr>next_heartbeat = mono (host u), last_sizes = (0, 0), last_output_at = None\<rparr>)
       (\<lambda>over. case over of None \<Rightarrow> ret None | Some we \<Rightarrow> bind_prog (final_code n ?pid ?grace we) (\<lambda>(code, by).
          case code of None \<Rightarrow> ret None | Some c \<Rightarrow> bind_prog (finish_job jd re sm sa we c by) (\<lambda>_. ret (Some 0)))) u = (w', Inr (Some c))"
    by (auto simp: bind_prog_def peek_def)
  from bind_undisturbed [OF k1 u quiet.worker.watches] obtain x over where x: "undisturbed x"
    and wc: "watch_child n jd ?pid ?grace (max 1 (js_heartbeat_seconds spec))
         (map_option (\<lambda>ms. mono (host u) + of_int ms / 1000) (js_timeout_ms spec))
         \<lparr>next_heartbeat = mono (host u), last_sizes = (0, 0), last_output_at = None\<rparr> u = (x, Inr over)"
    and k2: "(case over of None \<Rightarrow> ret None | Some we \<Rightarrow> bind_prog (final_code n ?pid ?grace we) (\<lambda>(code, by).
          case code of None \<Rightarrow> ret None | Some c \<Rightarrow> bind_prog (finish_job jd re sm sa we c by) (\<lambda>_. ret (Some 0)))) x = (w', Inr (Some c))"
    by blast
  from k2 obtain we where over: "over = Some we" by (cases over) auto
  with k2 have k3: "bind_prog (final_code n ?pid ?grace we) (\<lambda>(code, by).
          case code of None \<Rightarrow> ret None | Some c \<Rightarrow> bind_prog (finish_job jd re sm sa we c by) (\<lambda>_. ret (Some 0))) x = (w', Inr (Some c))"
    by simp
  from bind_undisturbed [OF k3 x quiet.worker.final_codes] obtain y code "by" where y: "undisturbed y"
    and k4: "(case code of None \<Rightarrow> ret None | Some c \<Rightarrow> bind_prog (finish_job jd re sm sa we c by) (\<lambda>_. ret (Some 0))) y = (w', Inr (Some c))"
    by (metis (no_types, lifting) case_prod_conv surj_pair)
  then obtain c1 where "finish_job jd re sm sa we c1 by y = (w', Inr ())"
    by (cases code) (auto simp: bind_prog_Inr)
  with finish_job_records [OF y] watch_exclusive [OF wc [unfolded over]] show ?thesis by blast
qed


end
