(* ===== verification/Job_Logs.thy ===== *)
theory Job_Logs
  imports Job_Steps Cursor
begin

text \<open>
  The logs of a job from both ends: what the drain threads of the worker keep of the output, and what a reader
  that follows the offsets of \<open>job_read\<close> gets back; then the identifiers, fingerprints and process identities
  that the job directory rests on.
\<close>

subsection \<open>Draining\<close>

lemma log_of_set [simp]:
  "log_of out (set_log out b d) = Some b" "marker_of out (set_marker out d)" "marker_of out (set_log out b d) = marker_of out d"
  "log_of out (set_marker out d) = log_of out d"
  by (simp_all add: log_of_def set_log_def marker_of_def set_marker_def)

lemma set_log_twice [simp]: "set_log out c (set_log out b d) = set_log out c d"
  "set_log out c (set_marker out d) = set_marker out (set_log out c d)" "marker_of out d \<Longrightarrow> set_marker out d = d"
  by (cases d; auto simp: set_log_def set_marker_def marker_of_def)+

lemma set_log_same [simp]: "log_of out d = Some b \<Longrightarrow> set_log out b d = d"
  by (cases d; auto simp: set_log_def log_of_def)

definition put_dir :: "string \<Rightarrow> job_dir \<Rightarrow> host \<Rightarrow> host" where
  "put_dir jd d h = h\<lparr>job_dirs := dict_set jd d (job_dirs h)\<rparr>"

lemma put_dir_simps [simp]:
  "map_of (job_dirs (put_dir jd d h)) jd = Some d" "put_dir jd e (put_dir jd d h) = put_dir jd e h"
  by (simp_all add: put_dir_def)

lemma put_dir_same: "map_of (job_dirs h) jd = Some d \<Longrightarrow> put_dir jd d h = h"
  by (simp add: put_dir_def)

lemma append_all_calm:
  assumes "map_of (job_dirs h) jd = Some d" "log_of out d = Some b"
  shows "append_all jd out view (calm h) = (calm (put_dir jd (set_log out (b @ view) d) h), Inr ())"
  using assms
proof (induction "length view" arbitrary: view h d b rule: less_induct)
  case less
  show ?case
  proof (cases "view = []")
    case True
    with less.prems show ?thesis by (subst append_all.simps) (simp add: put_dir_same)
  next
    case False
    define n where "n = min (length view) write_cap"
    have n: "0 < n" "n \<le> length view" using False by (simp_all add: n_def write_cap_def)
    have "append_log jd out view (calm h) = (calm (put_dir jd (set_log out (b @ take n view) d) h), Inr n)"
      using less.prems by (simp add: append_log_def n_def put_dir_def Let_def)
    moreover have "append_all jd out (drop n view) (calm (put_dir jd (set_log out (b @ take n view) d) h))
        = (calm (put_dir jd (set_log out ((b @ take n view) @ drop n view) d) h), Inr ())"
      by (subst less.hyps [where d = "set_log out (b @ take n view) d" and b = "b @ take n view"]) (use n in simp_all)
    ultimately show ?thesis using n False by (subst append_all.simps) simp
  qed
qed

text \<open>The directory after \<open>bytes\<close> have been drained.\<close>

definition drained_dir :: "bool \<Rightarrow> int \<Rightarrow> bytes \<Rightarrow> job_dir \<Rightarrow> job_dir" where
  "drained_dir out limit bytes d =
     (let d1 = set_log out (take (nat limit) bytes) d in if limit < int (length bytes) then set_marker out d1 else d1)"

lemma mark_calm:
  assumes "map_of (job_dirs h) jd = Some d"
  shows "mark_truncated jd out (calm h) = (calm (put_dir jd (set_marker out d) h), Inr ())"
  using assms put_dir_same [OF assms]
  by (simp add: mark_truncated_def bind_prog_def ignore_os_error_def handle_def put_dir_def)

lemma drain_reads_calm:
  assumes "map_of (job_dirs h) jd = Some (drained_dir out limit seen d)" "0 \<le> limit"
  shows "drain_reads jd out limit reads (min limit (int (length seen))) (limit < int (length seen)) (calm h)
    = (calm (put_dir jd (drained_dir out limit (seen @ concat reads) d) h), Inr (limit < int (length (seen @ concat reads))))"
  using assms
proof (induction reads arbitrary: seen h)
  case Nil
  then show ?case by (simp add: bind_prog_def put_dir_same)
next
  case (Cons data reads)
  let ?kept = "min limit (int (length seen))" and ?dir = "drained_dir out limit seen d"
  define rem where "rem = max 0 (limit - ?kept)"
  define d1 where "d1 = set_log out (take (nat limit) (seen @ data)) ?dir"
  have log: "log_of out ?dir = Some (take (nat limit) seen)" by (simp add: drained_dir_def Let_def)
  have rem: "nat rem = nat limit - length seen" "(rem = 0) = (limit \<le> int (length seen))"
    using Cons.prems(2) by (auto simp: rem_def min_def max_def)
  have keep: "take (nat limit) seen @ take (nat rem) data = take (nat limit) (seen @ data)"
    by (simp add: rem(1))
  have w: "(if rem \<noteq> 0 then append_all jd out (take (nat rem) data) else ret ()) (calm h) = (calm (put_dir jd d1 h), Inr ())"
  proof (cases "rem = 0")
    case True
    with rem have "take (nat limit) (seen @ data) = take (nat limit) seen" by simp
    with True log put_dir_same [OF Cons.prems(1)] show ?thesis by (simp add: d1_def)
  next
    case False
    with append_all_calm [OF Cons.prems(1) log, of "take (nat rem) data"] show ?thesis
      by (simp add: d1_def keep)
  qed
  have kept: "(if rem \<noteq> 0 then ?kept + int (length (take (nat rem) data)) else ?kept) = min limit (int (length (seen @ data)))"
    using Cons.prems(2) by (auto simp: rem_def min_def max_def)
  have over: "rem < int (length data) \<Longrightarrow> limit < int (length (seen @ data))"
    "\<not> rem < int (length data) \<Longrightarrow> limit < int (length (seen @ data)) \<longleftrightarrow> limit < int (length seen)"
    using Cons.prems(2) by (cases data; auto simp: rem_def min_def max_def split: if_splits)+
  show ?case
  proof (cases "rem < int (length data)")
    case True
    have "set_marker out d1 = drained_dir out limit (seen @ data) d"
      using over(1) [OF True] by (auto simp: d1_def drained_dir_def Let_def)
    then show ?thesis
      using Cons.IH [of "put_dir jd (drained_dir out limit (seen @ data) d) h" "seen @ data"] Cons.prems(2) True over(1) w kept
      by (simp add: Let_def on_error_cases mark_calm flip: rem_def)
  next
    case False
    have "d1 = drained_dir out limit (seen @ data) d"
      using over(2) [OF False] by (auto simp: d1_def drained_dir_def Let_def)
    then show ?thesis
      using Cons.IH [of "put_dir jd (drained_dir out limit (seen @ data) d) h" "seen @ data"] Cons.prems(2) False over(2) w kept
      by (simp add: Let_def on_error_cases flip: rem_def)
  qed
qed

lemma drain_log_calm:
  assumes "map_of (job_dirs h) jd = Some d" "0 \<le> limit"
  shows "drain_log jd out limit reads (calm h) =
    (calm (put_dir jd (drained_dir out limit (concat (takeWhile (\<lambda>r. r \<noteq> []) reads)) d) h),
     Inr (limit < int (length (concat (takeWhile (\<lambda>r. r \<noteq> []) reads)))))"
proof -
  let ?reads = "takeWhile (\<lambda>r. r \<noteq> []) reads"
  have e: "drained_dir out limit [] d = set_log out [] d" "min limit (int (length ([] :: bytes))) = 0" "\<not> limit < int (length ([] :: bytes))"
    using assms(2) by (simp_all add: drained_dir_def)
  have m: "map_of (job_dirs (put_dir jd (set_log out [] d) h)) jd = Some (drained_dir out limit [] d)" by (simp add: e)
  have "drain_log jd out limit reads (calm h) = drain_reads jd out limit ?reads 0 False (calm (put_dir jd (set_log out [] d) h))"
    using assms by (simp add: drain_log_def on_error_cases put_dir_def)
  also have "\<dots> = (calm (put_dir jd (drained_dir out limit (concat ?reads) d) h), Inr (limit < int (length (concat ?reads))))"
    using drain_reads_calm [OF m assms(2), of ?reads] unfolding e(2) using e(3) by simp
  finally show ?thesis .
qed

text \<open>Draining keeps exactly the first \<open>max_log_bytes\<close> bytes of the output, and it reports and marks truncation exactly
  when there were more.\<close>

theorem drained_log_is_prefix:
  assumes "map_of (job_dirs h) jd = Some d" "0 \<le> limit"
  shows "\<exists>h1 d1. drain_log jd out limit reads (calm h)
        = (calm h1, Inr (limit < int (length (concat (takeWhile (\<lambda>r. r \<noteq> []) reads)))))
    \<and> map_of (job_dirs h1) jd = Some d1 \<and> log_of out d1 = Some (take (nat limit) (concat (takeWhile (\<lambda>r. r \<noteq> []) reads)))
    \<and> (marker_of out d1 \<longleftrightarrow> marker_of out d \<or> limit < int (length (concat (takeWhile (\<lambda>r. r \<noteq> []) reads))))"
  unfolding drain_log_calm [OF assms] by (auto simp: drained_dir_def Let_def)

text \<open>If a write to the log fails, the drain thread ends and reports that nothing was truncated, however much output follows:
  the rest of the pipe is never read.\<close>

theorem failed_drain_reports_complete:
  assumes "map_of (job_dirs h) jd = Some d" "0 < limit" "data \<noteq> []"
  shows "\<exists>h1. drain_log jd out limit (data # reads) \<lparr>host = h, events = [Others (\<lambda>h. h), Failing e]\<rparr> = (calm h1, Inr False)
    \<and> (\<exists>d1. map_of (job_dirs h1) jd = Some d1 \<and> log_of out d1 = Some [] \<and> marker_of out d1 = marker_of out d)"
proof -
  have e: "step c \<lparr>host = h, events = Others (\<lambda>h. h) # es\<rparr> = (\<lparr>host = fst (c h), events = es\<rparr>, snd (c h))"
    "step c \<lparr>host = h, events = Failing x # es\<rparr> = (\<lparr>host = h, events = es\<rparr>, Inl (OSError x))" for c h es x
    by (simp_all add: step_def pass_def split: prod.split)
  have a: "append_all jd out (take (nat limit) data) \<lparr>host = h, events = [Failing e]\<rparr> = (calm h, Inl (OSError e))" for h
    using assms(2,3) by (subst append_all.simps) (simp add: append_log_def e)
  have "drain_log jd out limit (data # reads) \<lparr>host = h, events = [Others (\<lambda>h. h), Failing e]\<rparr>
      = (calm (put_dir jd (set_log out [] d) h), Inr False)"
    using assms by (simp add: drain_log_def on_error_cases change_dir_def e a put_dir_def Let_def)
  then show ?thesis by auto
qed

subsection \<open>Following a log\<close>

text \<open>A finished or quiet log, read at natural offsets.\<close>

definition log_read_at :: "string \<Rightarrow> bool \<Rightarrow> host \<Rightarrow> nat \<Rightarrow> nat \<Rightarrow> exn + bytes \<times> nat \<times> bool" where
  "log_read_at jd out h off n =
     (case snd (read_log jd (log_of out) (int off) (int n) (calm h)) of
        Inl e \<Rightarrow> Inl e
      | Inr (data, next_off, at_end) \<Rightarrow> Inr (data, nat next_off, at_end))"

lemma read_log_calm:
  assumes "map_of (job_dirs h) jd = Some d" "which d = Some b" "off \<le> length b"
  shows "read_log jd which (int off) (int n) (calm h)
    = (calm h, Inr (take n (drop off b), int off + int (length (take n (drop off b))),
         int (length b) \<le> int off + int (length (take n (drop off b)))))"
  using assms by (simp add: read_log_def bind_prog_def Let_def)

text \<open>The log of a host, for which reading obeys the contract of a cursor.\<close>

definition log_bytes :: "string \<Rightarrow> bool \<Rightarrow> host \<Rightarrow> bytes" where
  "log_bytes jd out h = (case map_of (job_dirs h) jd of Some d \<Rightarrow> (case log_of out d of Some b \<Rightarrow> b | None \<Rightarrow> []) | None \<Rightarrow> [])"

lemma read_log_none:
  assumes "map_of (job_dirs h) jd = None \<or> (\<exists>d. map_of (job_dirs h) jd = Some d \<and> which d = None)"
  shows "read_log jd which (int 0) (int n) (calm h) = (calm h, Inr ([], 0, True))"
  using assms by (auto simp: read_log_def bind_prog_def log_size_def has_file_def of_dir_def)

lemma log_read_at_law:
  assumes "off \<le> length (log_bytes jd out h)"
  shows "log_read_at jd out h off n =
    (let data = take n (drop off (log_bytes jd out h)); next_off = off + length data
     in Inr (data, next_off, length (log_bytes jd out h) \<le> next_off))"
proof (cases "\<exists>d b. map_of (job_dirs h) jd = Some d \<and> log_of out d = Some b")
  case True
  then obtain d b where d: "map_of (job_dirs h) jd = Some d" "log_of out d = Some b" by blast
  with assms have b: "log_bytes jd out h = b" "off \<le> length b" by (simp_all add: log_bytes_def)
  have n: "nat (int off + int k) = off + k" for k by simp
  have l: "(int (length b) \<le> int off + int k) = (length b \<le> off + k)" for k by linarith
  show ?thesis
    unfolding log_read_at_def read_log_calm [where which = "log_of out", OF d b(2)] Let_def b(1)
    by (simp only: snd_conv sum.case prod.case n l)
next
  case False
  then have "log_bytes jd out h = []" "map_of (job_dirs h) jd = None \<or> (\<exists>d. map_of (job_dirs h) jd = Some d \<and> log_of out d = None)"
    by (auto simp: log_bytes_def split: option.split)
  with assms show ?thesis using read_log_none [where which = "log_of out" and n = n] by (simp add: log_read_at_def)
qed

interpretation job_log: cursor_source "\<lambda>h. 0" "log_bytes jd out" limit "log_read_at jd out" for jd out limit
  by unfold_locales (simp add: log_read_at_law)

text \<open>C16. A reader of a job's log that follows \<open>next_offset\<close> from 0 until the end flag gets, in any chunk size, what the drain
  thread kept of the command's output: its first \<open>max_log_bytes\<close> bytes.\<close>

theorem job_log_roundtrip:
  assumes "map_of (job_dirs h) jd = Some d" "0 \<le> limit" "1 \<le> n" "nat limit < fuel"
  shows "follow (log_read_at jd out) fuel (host (fst (drain_log jd out limit reads (calm h)))) 0 n
    = Some (take (nat limit) (concat (takeWhile (\<lambda>r. r \<noteq> []) reads)))"
proof -
  let ?bytes = "concat (takeWhile (\<lambda>r. r \<noteq> []) reads)" and ?h = "host (fst (drain_log jd out limit reads (calm h)))"
  have b: "log_bytes jd out ?h = take (nat limit) ?bytes"
    unfolding drain_log_calm [OF assms(1,2)] by (simp add: log_bytes_def drained_dir_def Let_def)
  have "length (take (nat limit) ?bytes) < fuel" using assms(4) by simp
  then show ?thesis
    using job_log.follow_complete [where s = ?h and off = 0 and n = n and limit = n and jd = jd and out = out and fuel = fuel] assms(3) by (simp add: b)
qed

end
