(* ===== verification/Job_Ids.thy ===== *)
theory Job_Ids
  imports Job_Steps
begin

text \<open>
  What the job directory rests on: identifiers that stay one path component, the identity of a process, which
  does not depend on its command name, and fingerprints that tell requests apart.
\<close>

subsection \<open>Identifiers\<close>

lemma set_dropWhile_or: "c \<in> set s \<Longrightarrow> P c \<or> c \<in> set (dropWhile P s)"
  by (metis Un_iff set_append set_takeWhileD takeWhile_dropWhile_id)

lemma strip_keeps: "c \<in> set s \<Longrightarrow> is_space c \<or> c \<in> set (strip s)"
  unfolding strip_def by (metis set_dropWhile_or set_rev)

lemma digits_of_chars: "digits_of f b s = Some ds \<Longrightarrow> c \<in> set s \<Longrightarrow> c = 95 \<or> f c \<noteq> None"
  by (induction s arbitrary: b ds) (auto split: if_splits option.splits)

lemma set_cases_take_drop: "c \<in> set r \<Longrightarrow> take 1 r = [a] \<Longrightarrow> take 1 (drop 1 r) \<in> {[x], [y]} \<Longrightarrow> c \<in> {a, x, y} \<or> c \<in> set (drop 2 r)"
  by (cases r; cases "tl r"; auto)

lemma py_hex_ok_chars:
  assumes "py_hex_ok ud s" "c \<in> set s"
  shows "is_space c \<or> c \<in> {45, 43, 48, 120, 88, 95} \<or> hex_digit ud c \<noteq> None"
proof (rule ccontr)
  assume n: "\<not> ?thesis"
  define t where "t = strip s"
  define r where "r = (case t of c # cs \<Rightarrow> if c = 45 \<or> c = 43 then cs else t | [] \<Rightarrow> [])"
  define r' where "r' = (if take 1 r = [48] \<and> take 1 (drop 1 r) \<in> {[120], [88]}
                then (if take 1 (drop 2 r) = [95] then drop 3 r else drop 2 r) else r)"
  from n assms(2) strip_keeps have "c \<in> set t" by (auto simp: t_def)
  with n have r: "c \<in> set r" by (cases t) (auto simp: r_def)
  have "c \<in> set r'"
  proof (cases "take 1 r = [48] \<and> take 1 (drop 1 r) \<in> {[120], [88]}")
    case True
    with set_cases_take_drop [OF r, of 48 120 88] n have d: "c \<in> set (drop 2 r)" by auto
    have "drop 3 r = drop 1 (drop 2 r)" by (simp add: numeral_3_eq_3)
    with d n have "take 1 (drop 2 r) = [95] \<Longrightarrow> c \<in> set (drop 3 r)" by (cases "drop 2 r") auto
    with True d show ?thesis by (simp add: r'_def)
  next
    case False
    then have "r' = r" unfolding r'_def by (rule if_not_P)
    with r show ?thesis by simp
  qed
  moreover obtain ds where "digits_of (hex_digit ud) False r' = Some ds"
    using assms(1) unfolding py_hex_ok_def Let_def by (fold t_def, fold r_def, fold r'_def) auto
  ultimately show False using digits_of_chars n by blast
qed

text \<open>A job identifier that is accepted names one entry of the jobs directory: 32 characters, no slash, no NUL, so it
  is neither empty nor a dot name, whatever the caller sent.\<close>

theorem job_ids_are_components:
  assumes "digit_table ud" "validate_job_id ud jid = Inr jd"
  shows "length jd = 32 \<and> CHR ''/'' \<notin> set jd \<and> CHR 0x00 \<notin> set jd \<and> jd \<noteq> ''.'' \<and> jd \<noteq> ''..''"
proof -
  from assms(2) have jd: "length jid = 32" "py_hex_ok ud (ustr_of jid)" "jd = slower jid"
    by (auto simp: validate_job_id_def split: if_splits)
  have len: "length jd = 32" using jd by (simp add: slower_def)
  have no: "k \<notin> set (ustr_of jid)" if k: "k \<in> {47, 0}" for k
  proof
    assume "k \<in> set (ustr_of jid)"
    from py_hex_ok_chars [OF jd(2) this] k assms(1) show False
      by (auto simp: is_space_def hex_digit_def digit_table_def ascii_digit_def)
  qed
  have lower: "of_char (lower_char ch) = k \<Longrightarrow> of_char ch = k" if "k \<in> {47, 0 :: nat}" for ch k
    using that by (auto simp: lower_char_def Let_def split: if_splits dest!: dvd_imp_le)
  have char_no: "ch \<notin> set jd" if "of_char ch \<in> {47, 0 :: nat}" for ch
  proof
    assume "ch \<in> set jd"
    then obtain c0 where "c0 \<in> set jid" "ch = lower_char c0" by (auto simp: jd(3) slower_def)
    with that lower [of "of_char ch" c0] have "(of_char ch :: nat) \<in> set (ustr_of jid)" by (force simp: ustr_of_def)
    with no that show False by blast
  qed
  have "CHR ''/'' \<notin> set jd" "CHR 0x00 \<notin> set jd" by (rule char_no; simp)+
  with len show ?thesis by auto
qed

subsection \<open>Process identity\<close>

text \<open>The identity check does not depend on the command name: whatever spaces and parentheses it has, the recorded process counts
  as alive exactly if the start time in \<open>/proc/<pid>/stat\<close> is the recorded one.\<close>

theorem identity_ignores_command_name:
  assumes "digit_table ud" "0 < pid" "map_of (procs h) pid = Some x" "decode_strict (pr_stat x) = Inr (stat_line n comm fs)"
    and "list_all field_ok fs" "19 < length fs" "fs ! 19 = ustr_of (nat_str t)" "length (nat_str t) \<le> 4300"
  shows "proc_identity_alive ud (Some pid) (Some start) (calm h) = (calm h, Inr (start = int t))"
proof -
  have "stat_ticks ud (stat_line n comm fs) = Some (int t)"
    using assms(6-8) py_int_nat_str [OF assms(1)] by (simp add: stat_ticks_def stat_fields_line [OF assms(5)] int_max_str_digits_def)
  with assms(2-4) show ?thesis by (auto simp: alive_in_def)
qed

subsection \<open>Fingerprints\<close>

definition un_hex :: "char \<Rightarrow> nat" where
  "un_hex ch = (let n = of_char ch in if n < 58 then n - 48 else n - 87)"

lemma un_hex_char: "k < 16 \<Longrightarrow> un_hex (hex_char k) = k"
  by (auto simp: un_hex_def hex_char_def Let_def)

text \<open>Reading one character of a JSON string back.\<close>

definition read_char :: "string \<Rightarrow> char \<times> string" where
  "read_char s =
     (if hd s \<noteq> CHR 0x5C then (hd s, tl s)
      else let e = s ! 1 in
        if e = CHR ''u'' then (char_of (16 * un_hex (s ! 4) + un_hex (s ! 5)), drop 6 s)
        else (if e = CHR ''n'' then CHR 0x0A else if e = CHR ''r'' then CHR 0x0D else if e = CHR ''t'' then CHR 0x09
              else if e = CHR ''f'' then CHR 0x0C else if e = CHR ''b'' then CHR 0x08 else e, drop 2 s))"

lemma char_of_nat_eq: "of_char ch = (n :: nat) \<Longrightarrow> ch = char_of n"
  by (metis char_of_char)

lemma char_of_of_nat [simp]: "char_of (of_char ch :: nat) = ch"
  by (rule char_of_char)

lemma read_json_char: "read_char (json_char ch @ p) = (ch, p)"
proof -
  define n where "n = (of_char ch :: nat)"
  have ch: "ch = char_of n" by (simp add: n_def)
  have n: "n < 256" by (simp add: n_def)
  consider "ch = CHR 0x22" | "ch = CHR 0x5C" | "ch \<noteq> CHR 0x22 \<and> ch \<noteq> CHR 0x5C \<and> 32 \<le> n \<and> n \<le> 126"
    | "n \<in> {10, 13, 9, 12, 8}" | "\<not> (32 \<le> n \<and> n \<le> 126) \<and> n \<notin> {10, 13, 9, 12, 8}" by blast
  then show ?thesis
  proof cases
    case 3
    then show ?thesis by (simp add: json_char_def read_char_def Let_def flip: n_def)
  next
    case 4
    moreover have "char_of (10 :: nat) = CHR 0x0A" "char_of (13 :: nat) = CHR 0x0D" "char_of (9 :: nat) = CHR 0x09"
      "char_of (12 :: nat) = CHR 0x0C" "char_of (8 :: nat) = CHR 0x08"
      using char_of_of_nat [of "CHR 0x0A"] char_of_of_nat [of "CHR 0x0D"] char_of_of_nat [of "CHR 0x09"]
        char_of_of_nat [of "CHR 0x0C"] char_of_of_nat [of "CHR 0x08"] by simp_all
    ultimately show ?thesis by (elim insertE) (simp_all add: ch json_char_def read_char_def Let_def)
  next
    case 5
    then have c: "ch \<noteq> CHR 0x22" "ch \<noteq> CHR 0x5C" by (auto simp: n_def)
    have "json_char ch = [CHR 0x5C, CHR ''u'', CHR ''0'', CHR ''0'', hex_char (n div 16), hex_char (n mod 16)]"
      unfolding json_char_def Let_def n_def [symmetric] using 5 c by auto
    moreover have "16 * un_hex (hex_char (n div 16)) + un_hex (hex_char (n mod 16)) = n"
      using n by (simp add: un_hex_char)
    ultimately show ?thesis by (simp add: read_char_def Let_def flip: ch)
  next
    case 1
    then have "json_char ch = [CHR 0x5C, CHR 0x22]" by (simp add: json_char_def)
    then show ?thesis by (simp add: read_char_def Let_def 1)
  next
    case 2
    then have "json_char ch = [CHR 0x5C, CHR 0x5C]" by (simp add: json_char_def)
    then show ?thesis by (simp add: read_char_def Let_def 2)
  qed
qed

lemma json_char_no_quote: "\<exists>c cs. json_char ch = c # cs \<and> c \<noteq> CHR 0x22"
  by (simp add: json_char_def Let_def)

lemma json_chars_inj: "concat (map json_char s) @ CHR 0x22 # x = concat (map json_char t) @ CHR 0x22 # y \<Longrightarrow> s = t \<and> x = y"
proof (induction s arbitrary: t)
  case Nil
  then show ?case using json_char_no_quote by (cases t) (auto, metis append_Cons list.inject)
next
  case (Cons c s)
  obtain d t1 where t: "t = d # t1"
    using Cons.prems json_char_no_quote [of c] by (cases t) auto
  have "read_char (json_char c @ concat (map json_char s) @ CHR 0x22 # x) = read_char (json_char d @ concat (map json_char t1) @ CHR 0x22 # y)"
    using Cons.prems t by simp
  then have "c = d" "concat (map json_char s) @ CHR 0x22 # x = concat (map json_char t1) @ CHR 0x22 # y"
    by (simp_all only: read_json_char prod.inject)
  with Cons.IH [of t1] t show ?case by simp
qed

lemma json_string_inj: "json_string s @ x = json_string t @ y \<Longrightarrow> s = t \<and> x = y"
  using json_chars_inj [of s x t y] by (simp add: json_string_def)

lemma nat_str_inj:
  assumes "nat_str m = nat_str n"
  shows "m = n"
proof -
  obtain ds where "digits_of ascii_digit True (ustr_of (nat_str m)) = Some ds" "digits_value ds = m"
    using nat_str_parses [OF digit_table_ascii] by blast
  moreover obtain es where "digits_of ascii_digit True (ustr_of (nat_str n)) = Some es" "digits_value es = n"
    using nat_str_parses [OF digit_table_ascii] by blast
  ultimately show ?thesis using assms by simp
qed

lemma nat_str_head: "nat_str n \<noteq> [] \<and> hd (nat_str n) \<noteq> CHR ''-'' \<and> hd (nat_str n) \<noteq> CHR ''n''"
proof -
  have ne: "nat_str n \<noteq> []" by (subst nat_str.simps) simp
  then have "(of_char (hd (nat_str n)) :: nat) \<in> {48..57}" using nat_str_digits [OF hd_in_set [OF ne]] by simp
  with ne show ?thesis by auto
qed

lemma int_str_inj:
  assumes "int_str i = int_str j"
  shows "i = j"
proof -
  have "(i < 0) = (j < 0)"
    using assms nat_str_head [of "nat i"] nat_str_head [of "nat j"] by (auto simp: int_str_def split: if_splits dest: sym)
  with assms have "nat \<bar>i\<bar> = nat \<bar>j\<bar>"
    by (auto simp: int_str_def split: if_splits dest!: nat_str_inj)
  with \<open>(i < 0) = (j < 0)\<close> show ?thesis by linarith
qed

text \<open>The text a fingerprint is taken of determines the request: requests that differ in the command's digest, the working
  directory or the timeout never share it, whatever characters the directory has.\<close>

theorem fingerprint_determines_request:
  assumes "fingerprint_text a c t = fingerprint_text b d u"
  shows "a = b \<and> c = d \<and> t = u"
proof -
  have "json_string a @ ('','' @ json_string ''cwd'' @ '':'' @ json_string c @ '','' @ json_string ''timeout_ms'' @ '':''
        @ (case t of None \<Rightarrow> ''null'' | Some t \<Rightarrow> int_str t) @ ''}'')
      = json_string b @ ('','' @ json_string ''cwd'' @ '':'' @ json_string d @ '','' @ json_string ''timeout_ms'' @ '':''
        @ (case u of None \<Rightarrow> ''null'' | Some t \<Rightarrow> int_str t) @ ''}'')"
    using assms by (simp add: fingerprint_text_def)
  from json_string_inj [OF this] have 1: "a = b" and "json_string c @ ('','' @ json_string ''timeout_ms'' @ '':''
        @ (case t of None \<Rightarrow> ''null'' | Some t \<Rightarrow> int_str t) @ ''}'')
      = json_string d @ ('','' @ json_string ''timeout_ms'' @ '':'' @ (case u of None \<Rightarrow> ''null'' | Some t \<Rightarrow> int_str t) @ ''}'')"
    by simp_all
  from json_string_inj [OF this(2)] have 2: "c = d"
    and n: "(case t of None \<Rightarrow> ''null'' | Some t \<Rightarrow> int_str t) = (case u of None \<Rightarrow> ''null'' | Some t \<Rightarrow> int_str t)"
    by simp_all
  have null: "int_str i \<noteq> ''null''" for i
    using nat_str_head [of "nat i"] by (auto simp: int_str_def)
  from n null null [symmetric] int_str_inj have "t = u" by (cases t; cases u) auto
  with 1 2 show ?thesis by simp
qed

end
