(* ===== verification/Job_Samples.thy ===== *)
theory Job_Samples
  imports Job_Faults Job_Runs Job_Logs Job_Ids
begin

text \<open>
  A small host on which the properties of durable jobs are applied: one identifier, one job directory, a process
  that ends at once.
\<close>

subsection \<open>A host\<close>

definition sample_jid :: string where
  "sample_jid = ''0123456789abcdef0123456789abcdef''"

definition sample_dir :: job_dir where
  "sample_dir = empty_dir\<lparr>metadata := Doc (new_meta ''/srv'' 100 ''c0ffee'' 4 None None), command_bin := Some ''true'',
     spec_doc := Doc \<lparr>js_cwd = ''/srv'', js_timeout_ms = None, js_kill_grace_ms = 100, js_max_log_bytes = 1000,
                      js_heartbeat_seconds = 5\<rparr>\<rparr>"

definition sample_host :: "(string \<times> job_dir) list \<Rightarrow> (int \<times> process) list \<Rightarrow> host" where
  "sample_host ds ps = \<lparr>job_dirs = ds, idem_files = (\<lambda>_. Absent), procs = ps, launched = [], executed = [], epoch = 100, mono = 0\<rparr>"

abbreviation one_job :: host where
  "one_job \<equiv> sample_host [(sample_jid, sample_dir)] []"

definition sample_process :: "bytes \<Rightarrow> process" where
  "sample_process b = \<lparr>pr_stat = b, pr_pgid = 7, pr_exit = Some 0\<rparr>"

definition sample_start :: start_env where
  "sample_start = \<lparr>sha256_of = (\<lambda>b. b), is_directory = (\<lambda>_. True), here = (1, [''srv'']), environ = [], token = sample_jid,
     worker_pid = 6, worker_process = sample_process ''6 (py)''\<rparr>"

definition sample_run :: run_env where
  "sample_run = \<lparr>child_pid = 7, child_process = sample_process ''7 (sh)'', drained = (False, False)\<rparr>"

lemma sample_simps [simp]:
  "job_dirs (sample_host ds ps) = ds" "idem_files (sample_host ds ps) k = Absent" "procs (sample_host ds ps) = ps"
  "token sample_start = sample_jid" "executed (sample_host ds ps) = []" "launched (sample_host ds ps) = []"
  "child_pid sample_run = 7" "child_process sample_run = sample_process ''7 (sh)''" "pr_stat (sample_process b) = b"
  "pr_exit (sample_process b) = Some 0" "worker_process sample_start = sample_process ''6 (py)''"
  by (simp_all add: sample_host_def sample_start_def sample_run_def sample_process_def)

lemma sample_jid_valid [simp]: "validate_job_id ascii_digit sample_jid = Inr sample_jid"
  by (simp add: sample_jid_def validate_job_id_def py_hex_ok_def ustr_of_def strip_def is_space_def Let_def hex_digit_def
      slower_def lower_char_def ascii_digit_def)

lemma sample_admit:
  "admit sample_settings plain_env sample_start (ustr_of ''true'') None None = Inr (''true'', ''/srv'')"
  by (simp add: admit_def job_cwd_def cwd_or_first_root_def encode_utf8_def ustr_of_def scalar_def resolve_allowed_path_def
      plain_env_def parse_path_def anchor_def normpath_def is_under_allowed_root_def under_root_def sample_settings_def
      default_settings_def path_str_def strip_def is_space_def utf8_def utf8_char_def utf8_units_def Let_def sample_start_def)
    code_simp

lemma sample_digest: "idem_digest (sha256_of sample_start) (ustr_of ''k'') = Inr ''k''"
  by (simp add: idem_digest_def encode_utf8_def ustr_of_def scalar_def utf8_def utf8_char_def utf8_units_def sample_start_def)
    code_simp

lemma sample_texts:
  "decode_strict ''6 (py)'' = Inr (ustr_of ''6 (py)'')" "decode_strict ''7 (sh)'' = Inr (ustr_of ''7 (sh)'')"
  "decode_strict ''true'' = Inr (ustr_of ''true'')"
  by code_simp+

lemma sample_binary: "decode_strict [CHR 0xFF] = Inl (ValueError ''invalid utf-8'')"
  by code_simp

lemma sample_known: "known_job ascii_digit sample_jid sample_jid sample_dir (new_meta ''/srv'' 100 ''c0ffee'' 4 None None)
   (sample_host [(sample_jid, sample_dir)] ps)"
  by (simp add: known_job_def sample_dir_def)

subsection \<open>The properties on it\<close>

abbreviation sample_key_start :: "string \<Rightarrow> jworld \<Rightarrow> jworld \<times> job_start_result res" where
  "sample_key_start command \<equiv>
     start_job ascii_digit sample_settings plain_env sample_start (ustr_of command) None None (Some (ustr_of ''k''))"



theorem recovery_replays_nothing_witness:
  "launched (host (fst (recover_jobs ascii_digit sample_settings (calm one_job)))) = []"
  using recovery_replays_nothing [of "calm one_job" "fst \<circ> recover_jobs ascii_digit sample_settings" ascii_digit sample_settings]
  by (simp add: undisturbed_def)

lemma sample_completes: "\<exists>h1. run_worker ascii_digit 3 sample_jid sample_run (calm one_job) = (calm h1, Inr (Some 0))"
  by (simp add: run_worker_def on_error_cases bind_prog_def take_command_def sample_dir_def read_json_calm parsed_def sample_texts
      spawn_child_def attend_child_def ticks_in_def and_then_def worker_patch_def write_meta_file_def eval_nat_numeral
      poll_def Let_def final_code_def wait_for_def finish_job_def write_result_def new_meta_def empty_dir_def)


theorem job_log_roundtrip_witness:
  "follow (log_read_at sample_jid True) 6 (host (fst (drain_log sample_jid True 5 [''abc'', ''defg''] (calm one_job)))) 0 2
   = Some ''abcde''"
  using job_log_roundtrip [of one_job sample_jid sample_dir 5 2 6 True "[''abc'', ''defg'']"] by simp

theorem poll_before_launch_kills_job_witness:
  "case prepare_job ascii_digit sample_settings sample_start ''true'' ''/srv'' None None (calm (sample_host [] [])) of
     (w1, Inl e) \<Rightarrow> False
   | (w1, Inr (jd, started)) \<Rightarrow>
       executed (host (fst (run_worker ascii_digit 3 jd sample_run
         (fst (start_worker ascii_digit sample_start jd started (fst (job_status ascii_digit sample_jid w1))))))) = []"
proof -
  let ?h = "sample_host [] []"
  from prepare_job_calm [of ascii_digit sample_start sample_jid ?h sample_settings "''true''" "''/srv''" None None] obtain w1 started
    where p: "prepare_job ascii_digit sample_settings sample_start ''true'' ''/srv'' None None (calm ?h) = (w1, Inr (sample_jid, started))"
    by auto
  obtain w2 r2 where 2: "job_status ascii_digit sample_jid w1 = (w2, r2)" by fastforce
  obtain w3 r3 where 3: "start_worker ascii_digit sample_start sample_jid started w2 = (w3, r3)" by fastforce
  obtain w4 r4 where 4: "run_worker ascii_digit 3 sample_jid sample_run w3 = (w4, r4)" by fastforce
  from poll_before_launch_kills_job [OF _ _ p _ 3 4, of r2] 2 have "executed (host w4) = []" by auto
  with p 2 3 4 show ?thesis by simp
qed


theorem failed_start_keeps_command_witness:
  "let h = host (fst (prepare_job ascii_digit sample_settings sample_start ''true'' ''/srv'' None None
       \<lparr>host = sample_host [] [], events = [idle, idle, idle, idle, Failing ENOSPC]\<rparr>)) in
   (case map_of (job_dirs h) sample_jid of None \<Rightarrow> False | Some d \<Rightarrow> command_bin d = Some ''true'')
   \<and> cleanup_job ascii_digit sample_jid (calm h) = (calm h, Inl (ValueError ''Unknown job_id''))"
  using failed_start_keeps_command [of ascii_digit sample_start sample_jid "sample_host [] []" sample_settings "''true''" "''/srv''" None None
      ENOSPC]
  by auto

theorem binary_command_name_hides_job_witness:
  "let h = sample_host [(sample_jid, sample_dir\<lparr>metadata := Doc ((new_meta ''/srv'' 100 ''c0ffee'' 4 None None)\<lparr>jm_child_pid := Some 7\<rparr>)\<rparr>)]
       [(7, sample_process [CHR 0xFF])] in
   cancel_job ascii_digit sample_settings sample_jid (calm h) = (calm h, Inl (ValueError ''invalid utf-8''))"
proof -
  let ?jm = "(new_meta ''/srv'' 100 ''c0ffee'' 4 None None)\<lparr>jm_child_pid := Some 7\<rparr>"
  let ?d = "sample_dir\<lparr>metadata := Doc ?jm\<rparr>"
  have "known_job ascii_digit sample_jid sample_jid ?d ?jm (sample_host [(sample_jid, ?d)] [(7, sample_process [CHR 0xFF])])"
    by (simp add: known_job_def)
  from binary_command_name_hides_job [OF this, of 7 "sample_process [CHR 0xFF]" "''invalid utf-8''"] show ?thesis
    by (simp add: sample_dir_def empty_dir_def sample_binary)
qed

theorem identity_ignores_command_name_witness:
  "let h = sample_host [] [(7, sample_process (utf8 sample_line))] in
   proc_identity_alive ascii_digit (Some 7) (Some 5) (calm h) = (calm h, Inr True)"
proof -
  have "list_all field_ok sample_fields"
    by (simp add: sample_fields_def field_ok_def ustr_of_digit is_space_def list_all_iff)
  then show ?thesis
    using identity_ignores_command_name [OF digit_table_ascii, of 7 "sample_host [] [(7, sample_process (utf8 sample_line))]"
      "sample_process (utf8 sample_line)" 7 "[97, 41, 32, 40]" sample_fields 5 5] sample_line_utf8
    by (simp add: nth_append sample_fields_def sample_line_def nat_str.simps [of 5])
qed

theorem job_ids_are_components_witness: "length sample_jid = 32 \<and> CHR ''/'' \<notin> set sample_jid"
  using job_ids_are_components [OF digit_table_ascii sample_jid_valid] by simp

theorem fingerprint_determines_request_witness:
  "fingerprint_text ''c0ffee'' ''/srv'' (Some 1000) = fingerprint_text ''c0ffee'' ''/srv'' (Some 1000) \<and> ''/srv'' = ''/srv''"
  using fingerprint_determines_request [of "''c0ffee''" "''/srv''" "Some 1000" "''c0ffee''" "''/srv''" "Some 1000"] by simp

end
