(* ===== verification/Wait_Condition.thy ===== *)
theory Wait_Condition
  imports Agent_Files Job_Steps
begin

text \<open>
  \<open>wait_condition\<close> of \<open>src/remote_host_mcp/agent_ops.py\<close>: one bounded wait on a file, a process, a job, a
  loopback port or a log.  The probes read the files, the jobs and the process table; the loop sleeps on the
  clock of the job world and returns once a probe is satisfied or the timeout has passed.
\<close>

subsection \<open>Probes\<close>

text \<open>The files, the jobs with the process table and the clock, and the coming connection attempts: how many seconds
  each takes and whether it is accepted (refused at once when the list is used up).  The wait for one ends after a
  second.\<close>

record wait_world =
  wt_files :: world
  wt_jobs :: jworld
  wt_connects :: "(rat \<times> bool) list"

type_synonym 'a wrun = "(wait_world, 'a) run"

definition in_files :: "'a prog \<Rightarrow> 'a wrun" where
  "in_files p s = (case p (wt_files s) of (w, r) \<Rightarrow> (s\<lparr>wt_files := w\<rparr>, r))"

definition in_jobs :: "'a jrun \<Rightarrow> 'a wrun" where
  "in_jobs p s = (case p (wt_jobs s) of (w, r) \<Rightarrow> (s\<lparr>wt_jobs := w\<rparr>, r))"

definition delay :: "rat \<Rightarrow> jworld \<Rightarrow> jworld" where
  "delay d w = w\<lparr>host := (host w)\<lparr>mono := mono (host w) + max 0 d\<rparr>\<rparr>"

definition connect :: "bool wrun" where
  "connect s =
     (case wt_connects s of
        [] \<Rightarrow> (s, Inr False)
      | (d, accepts) # cs \<Rightarrow> (s\<lparr>wt_jobs := delay (min 1 d) (wt_jobs s), wt_connects := cs\<rparr>, Inr (accepts \<and> d < 1)))"

record condition =
  cd_name :: string
  cd_path :: "string option"
  cd_pid :: "int option"
  cd_start_ticks :: "int option"
  cd_size_bytes :: "int option"
  cd_job_id :: "string option"
  cd_host :: "string option"
  cd_port :: "int option"
  cd_pattern :: "ustr option"

definition given :: "string option \<Rightarrow> bool" where
  "given x = (case x of None \<Rightarrow> False | Some s \<Rightarrow> s \<noteq> [])"

text \<open>\<open>path_info\<close>, with \<open>OSError\<close> and \<open>ValueError\<close> as \<open>None\<close>.\<close>

definition info_or_none :: "settings \<Rightarrow> path_env \<Rightarrow> kernel \<Rightarrow> string \<Rightarrow> path_info_result option wrun" where
  "info_or_none st env k p =
     handle (bind_prog (in_files (path_info st env k p)) (\<lambda>i. ret (Some i))) (\<lambda>e. if os_or_value e then ret None else raise e)"

definition probe_size :: "settings \<Rightarrow> path_env \<Rightarrow> kernel \<Rightarrow> condition \<Rightarrow> (bool \<times> string option) wrun" where
  "probe_size st env k c =
     (if \<not> given (cd_path c) \<or> cd_size_bytes c = None
      then raise (ValueError ''path and size_bytes are required for file_size_at_least'')
      else bind_prog (info_or_none st env k (the (cd_path c))) (\<lambda>info.
        case info of
          None \<Rightarrow> ret (False, None)
        | Some i \<Rightarrow>
            (case pi_size i of
               Some n \<Rightarrow>
                 if pi_type i \<noteq> ''file'' then raise (ValueError ''path must be a regular file'')
                 else ret (the (cd_size_bytes c) \<le> n, Some (''size='' @ int_str n))
             | None \<Rightarrow> raise (ValueError ''path must be a regular file''))))"

text \<open>The identity of the awaited process from the text of its \<open>stat\<close>.\<close>

definition exit_seen :: "(nat \<Rightarrow> nat option) \<Rightarrow> int \<Rightarrow> ustr \<Rightarrow> bool \<times> string option" where
  "exit_seen ud start_ticks raw =
     (let fs = (case stat_fields raw of None \<Rightarrow> [] | Some fs \<Rightarrow> fs) in
      if length fs \<le> 19 then (True, Some ''process identity is unavailable'')
      else case py_int ud (fs ! 19) of
          None \<Rightarrow> (True, Some ''process identity is unavailable'')
        | Some t \<Rightarrow> if t \<noteq> start_ticks then (True, Some ''PID was reused'') else (False, None))"

definition probe_exit :: "(nat \<Rightarrow> nat option) \<Rightarrow> condition \<Rightarrow> (bool \<times> string option) wrun" where
  "probe_exit ud c =
     (case (cd_pid c, cd_start_ticks c) of
        (Some pid, Some start_ticks) \<Rightarrow>
          on_error
            (in_jobs (step (\<lambda>h. (h, case map_of (procs h) pid of None \<Rightarrow> Inl (OSError ENOENT) | Some p \<Rightarrow> Inr (pr_stat p)))))
            (\<lambda>_. ret (True, Some ''process is absent''))
            (\<lambda>b. bind_prog (lift_res (decode_strict b)) (\<lambda>raw. ret (exit_seen ud start_ticks raw)))
      | _ \<Rightarrow> raise (ValueError ''pid and expected_start_ticks are required for process_exit''))"

definition probe_port :: "condition \<Rightarrow> (bool \<times> string option) wrun" where
  "probe_port c =
     (if cd_host c \<notin> {Some ''127.0.0.1'', Some ''localhost'', Some ''::1''}
      then raise (ValueError ''port_open is restricted to loopback hosts'')
      else case cd_port c of
          None \<Rightarrow> raise (ValueError ''valid port is required for port_open'')
        | Some p \<Rightarrow>
            if p < 1 \<or> 65535 < p then raise (ValueError ''valid port is required for port_open'')
            else bind_prog connect (\<lambda>accepts.
              ret (if accepts then (True, Some (the (cd_host c) @ '':'' @ int_str p @ '' accepts TCP'')) else (False, None))))"

definition read_tail :: "settings \<Rightarrow> path_env \<Rightarrow> kernel \<Rightarrow> string \<Rightarrow> int \<Rightarrow> bytes prog" where
  "read_tail st env k p log_tail_bytes =
     bind_prog (open_beneath st env k p False False) (\<lambda>fd.
     bind_prog (do_call (sys_fstat fd)) (\<lambda>m.
       if \<not> is_reg m then raise (ValueError ''log path is not a regular file'')
       else do_call (sys_read_at fd (nat (max 0 (st_size m - log_tail_bytes))) (nat log_tail_bytes))))"

definition probe_log :: "settings \<Rightarrow> path_env \<Rightarrow> kernel \<Rightarrow> int \<Rightarrow> condition \<Rightarrow> (bool \<times> string option) wrun" where
  "probe_log st env k log_tail_bytes c =
     (case cd_pattern c of
        None \<Rightarrow> raise (ValueError ''path and pattern are required for log_contains'')
      | Some pattern \<Rightarrow>
          if \<not> given (cd_path c) then raise (ValueError ''path and pattern are required for log_contains'')
          else bind_prog (lift_res (encode_utf8 pattern)) (\<lambda>b.
            if 512 < length b then raise (ValueError ''pattern must be <= 512 UTF-8 bytes'')
            else on_error (in_files (read_tail st env k (the (cd_path c)) log_tail_bytes))
              (\<lambda>e. if e = OSError ENOENT then ret (False, None) else raise e)
              (\<lambda>data. ret (occurs pattern (decode_replace data), Some (''scanned_tail_bytes='' @ int_str (int (length data)))))))"

definition probe_condition ::
  "(nat \<Rightarrow> nat option) \<Rightarrow> settings \<Rightarrow> path_env \<Rightarrow> kernel \<Rightarrow> int \<Rightarrow> condition \<Rightarrow> (bool \<times> string option) wrun"
where
  "probe_condition ud st env k log_tail_bytes c =
     (if cd_name c = ''file_exists'' then
        (if \<not> given (cd_path c) then raise (ValueError ''path is required for file_exists'')
         else bind_prog (info_or_none st env k (the (cd_path c))) (\<lambda>i.
           ret (if i \<noteq> None then (True, Some ''path exists'') else (False, None))))
      else if cd_name c = ''file_not_exists'' then
        (if \<not> given (cd_path c) then raise (ValueError ''path is required for file_not_exists'')
         else bind_prog (info_or_none st env k (the (cd_path c))) (\<lambda>i.
           ret (if i \<noteq> None then (False, None) else (True, Some ''path is absent''))))
      else if cd_name c = ''file_size_at_least'' then probe_size st env k c
      else if cd_name c = ''process_exit'' then probe_exit ud c
      else if cd_name c = ''job_terminal'' then
        (if \<not> given (cd_job_id c) then raise (ValueError ''job_id is required for job_terminal'')
         else bind_prog (in_jobs (job_status ud (the (cd_job_id c)))) (\<lambda>s. ret (terminal s, Some (''status='' @ st_status s))))
      else if cd_name c = ''port_open'' then probe_port c
      else if cd_name c = ''log_contains'' then probe_log st env k log_tail_bytes c
      else raise (ValueError (''Unsupported wait condition: '' @ cd_name c)))"

subsection \<open>The wait\<close>

record wait_result =
  wr_condition :: string
  wr_satisfied :: bool
  wr_elapsed_ms :: int
  wr_attempts :: int
  wr_detail :: "string option"

abbreviation now :: "wait_world \<Rightarrow> rat" where
  "now s \<equiv> mono (host (wt_jobs s))"

partial_function (option) wait_loop ::
  "(nat \<Rightarrow> nat option) \<Rightarrow> settings \<Rightarrow> path_env \<Rightarrow> kernel \<Rightarrow> condition \<Rightarrow> int \<Rightarrow> int \<Rightarrow> int \<Rightarrow> rat \<Rightarrow> int \<Rightarrow> string option
    \<Rightarrow> wait_world \<Rightarrow> (wait_world \<times> wait_result res) option"
where
  "wait_loop ud st env k c timeout_ms poll_ms log_tail_bytes started attempts last_detail s =
     (case probe_condition ud st env k log_tail_bytes c s of
        (s1, Inl e) \<Rightarrow> Some (s1, Inl e)
      | (s1, Inr (satisfied, detail)) \<Rightarrow>
          let seen = (if detail \<noteq> None then detail else last_detail);
              elapsed_ms = \<lfloor>(now s1 - started) * 1000\<rfloor> in
          if satisfied \<or> timeout_ms \<le> elapsed_ms
          then Some (s1, Inr \<lparr>wr_condition = cd_name c, wr_satisfied = satisfied, wr_elapsed_ms = elapsed_ms,
                               wr_attempts = attempts + 1, wr_detail = seen\<rparr>)
          else wait_loop ud st env k c timeout_ms poll_ms log_tail_bytes started (attempts + 1) seen
                 (fst (in_jobs (sleep (of_int (min poll_ms (max 0 (timeout_ms - elapsed_ms))) / 1000)) s1)))"

definition wait_condition ::
  "(nat \<Rightarrow> nat option) \<Rightarrow> settings \<Rightarrow> path_env \<Rightarrow> kernel \<Rightarrow> condition \<Rightarrow> int \<Rightarrow> int \<Rightarrow> int \<Rightarrow> wait_world
    \<Rightarrow> (wait_world \<times> wait_result res) option"
where
  "wait_condition ud st env k c timeout_ms poll_ms log_tail_bytes s =
     (if timeout_ms < 0 \<or> max_timeout_ms st < timeout_ms
      then Some (s, Inl (ValueError (''timeout_ms must be between 0 and '' @ int_str (max_timeout_ms st))))
      else if poll_ms < 100 \<or> 5000 < poll_ms then Some (s, Inl (ValueError ''poll_ms must be between 100 and 5000''))
      else if log_tail_bytes < 256 \<or> 1048576 < log_tail_bytes
      then Some (s, Inl (ValueError ''log_tail_bytes must be between 256 and 1048576''))
      else wait_loop ud st env k c timeout_ms poll_ms log_tail_bytes (now s) 0 None s)"

subsection \<open>The wait ends\<close>

definition not_earlier :: "wait_world \<Rightarrow> wait_world \<Rightarrow> bool" where
  "not_earlier s s' \<longleftrightarrow> not_before (wt_jobs s) (wt_jobs s')"

interpretation waiting: run_preorder not_earlier
  by unfold_locales (auto simp: not_earlier_def not_before_def)

lemma in_files_not_earlier: "obeys not_earlier (in_files p)"
  by (auto simp: obeys_def in_files_def not_earlier_def not_before_def split: prod.splits)

lemma in_jobs_not_earlier: "obeys not_before p \<Longrightarrow> obeys not_earlier (in_jobs p)"
  by (auto simp: obeys_def in_jobs_def not_earlier_def split: prod.splits)

lemma connect_not_earlier: "obeys not_earlier connect"
  by (auto simp: obeys_def connect_def delay_def not_earlier_def not_before_def split: list.splits)

lemmas waiting_intros = waiting.combinators in_files_not_earlier in_jobs_not_earlier connect_not_earlier

lemma probe_not_earlier: "obeys not_earlier (probe_condition ud st env k n c)"
proof -
  have i: "obeys not_earlier (info_or_none st env k p)" for p
    unfolding info_or_none_def by (intro waiting_intros) (simp add: waiting_intros)
  have z: "obeys not_earlier (probe_size st env k c)"
    unfolding probe_size_def by (auto intro!: waiting_intros i split: option.split)
  have x: "obeys not_earlier (probe_exit ud c)"
    unfolding probe_exit_def by (auto intro!: waiting_intros time.looks split: option.split)
  have p: "obeys not_earlier (probe_port c)"
    unfolding probe_port_def by (auto intro!: waiting_intros split: option.split)
  have l: "obeys not_earlier (probe_log st env k n c)"
    unfolding probe_log_def by (auto intro!: waiting_intros split: option.split)
  show ?thesis
    unfolding probe_condition_def
    by (auto intro!: waiting_intros i z x p l time.job_statuses)
qed

lemma sleep_wait_passes: "now s + d \<le> now (fst (in_jobs (sleep d) s))"
  using sleep_passes [of "wt_jobs s" d] by (auto simp: in_jobs_def split: prod.split)

text \<open>The number of polls left after \<open>e\<close> milliseconds.\<close>

definition polls_left :: "int \<Rightarrow> int \<Rightarrow> int \<Rightarrow> int" where
  "polls_left timeout_ms poll_ms e = (max 0 (timeout_ms - e) + poll_ms - 1) div poll_ms"

lemma polls_left_step:
  assumes "0 < poll_ms" "e < timeout_ms" "e + min poll_ms (timeout_ms - e) \<le> e'"
  shows "polls_left timeout_ms poll_ms e' < polls_left timeout_ms poll_ms e"
proof (cases "timeout_ms - e \<le> poll_ms")
  case True
  with assms have "polls_left timeout_ms poll_ms e' = 0" by (simp add: polls_left_def)
  moreover have "1 \<le> polls_left timeout_ms poll_ms e"
    using assms zdiv_mono1 [of poll_ms "timeout_ms - e + poll_ms - 1" poll_ms] by (simp add: polls_left_def)
  ultimately show ?thesis by simp
next
  case False
  with assms have "max 0 (timeout_ms - e') + poll_ms - 1 \<le> timeout_ms - e - 1" by simp
  with assms(1) have "polls_left timeout_ms poll_ms e' \<le> (timeout_ms - e - 1) div poll_ms"
    unfolding polls_left_def by (rule zdiv_mono1 [rotated])
  moreover have "(timeout_ms - e + poll_ms - 1) div poll_ms = (timeout_ms - e - 1) div poll_ms + 1"
    using assms(1) div_add_self2 [of poll_ms "timeout_ms - e - 1"] by (simp add: algebra_simps)
  ultimately show ?thesis using assms(2) by (simp add: polls_left_def)
qed

definition good_answer :: "int \<Rightarrow> int \<Rightarrow> int \<Rightarrow> wait_result res \<Rightarrow> bool" where
  "good_answer timeout_ms least most r =
     (case r of Inl _ \<Rightarrow> True
      | Inr x \<Rightarrow> (wr_satisfied x \<or> timeout_ms \<le> wr_elapsed_ms x) \<and> 0 \<le> wr_elapsed_ms x
          \<and> least < wr_attempts x \<and> wr_attempts x \<le> most)"

lemma good_answer_weaken:
  "good_answer timeout_ms least most r \<Longrightarrow> least' \<le> least \<Longrightarrow> most \<le> most' \<Longrightarrow> good_answer timeout_ms least' most' r"
  by (auto simp: good_answer_def split: sum.splits)

lemma wait_loop_once:
  assumes "probe_condition ud st env k n c s = (s1, Inr (ok, d))" "\<lfloor>(now s1 - started) * 1000\<rfloor> = e"
  shows "wait_loop ud st env k c timeout_ms poll_ms n started attempts detail s =
    (if ok \<or> timeout_ms \<le> e
     then Some (s1, Inr \<lparr>wr_condition = cd_name c, wr_satisfied = ok, wr_elapsed_ms = e, wr_attempts = attempts + 1,
                         wr_detail = if d \<noteq> None then d else detail\<rparr>)
     else wait_loop ud st env k c timeout_ms poll_ms n started (attempts + 1) (if d \<noteq> None then d else detail)
            (fst (in_jobs (sleep (of_int (min poll_ms (max 0 (timeout_ms - e))) / 1000)) s1)))"
  by (subst wait_loop.simps) (simp only: assms Let_def prod.case sum.case)

text \<open>A wait that has polled \<open>attempts\<close> times returns within the polls left, one more for the last look.\<close>

lemma wait_loop_returns:
  assumes "0 < poll_ms" "started \<le> now s"
  shows "\<exists>s' r. wait_loop ud st env k c timeout_ms poll_ms n started attempts detail s = Some (s', r)
    \<and> good_answer timeout_ms attempts (attempts + 1 + polls_left timeout_ms poll_ms \<lfloor>(now s - started) * 1000\<rfloor>) r"
  using assms(2)
proof (induction "nat (polls_left timeout_ms poll_ms \<lfloor>(now s - started) * 1000\<rfloor>)" arbitrary: s attempts detail
    rule: less_induct)
  case less
  have left: "0 \<le> polls_left timeout_ms poll_ms e" for e
    using assms(1) by (simp add: polls_left_def pos_imp_zdiv_nonneg_iff)
  obtain s1 r where p: "probe_condition ud st env k n c s = (s1, r)" by fastforce
  have on: "now s \<le> now s1"
    using obeysD [OF probe_not_earlier p] by (simp add: not_earlier_def not_before_def)
  show ?case
  proof (cases r)
    case (Inl e)
    with p show ?thesis by (simp add: wait_loop.simps good_answer_def)
  next
    case (Inr x)
    obtain ok d where x: "x = (ok, d)" by fastforce
    define e where "e = \<lfloor>(now s1 - started) * 1000\<rfloor>"
    have e: "\<lfloor>(now s - started) * 1000\<rfloor> \<le> e" using on unfolding e_def by (intro floor_mono) simp
    have e0: "0 \<le> e" using on less.prems by (simp add: e_def)
    have mono: "polls_left timeout_ms poll_ms e \<le> polls_left timeout_ms poll_ms \<lfloor>(now s - started) * 1000\<rfloor>"
      using e assms(1) by (auto simp: polls_left_def intro!: zdiv_mono1)
    show ?thesis
    proof (cases "ok \<or> timeout_ms \<le> e")
      case True
      with wait_loop_once [OF p [unfolded Inr x] e_def [symmetric]] e0 left show ?thesis by (simp add: good_answer_def)
    next
      case False
      define t where "t = min poll_ms (max 0 (timeout_ms - e))"
      define s2 where "s2 = fst (in_jobs (sleep (of_int t / 1000)) s1)"
      define seen where "seen = (if d \<noteq> None then d else detail)"
      have s2: "now s1 + of_int t / 1000 \<le> now s2" unfolding s2_def by (rule sleep_wait_passes)
      have "(now s1 - started) * 1000 + of_int t \<le> (now s2 - started) * 1000" using s2 by (simp add: field_simps)
      then have "\<lfloor>(now s1 - started) * 1000 + of_int t\<rfloor> \<le> \<lfloor>(now s2 - started) * 1000\<rfloor>" by (rule floor_mono)
      then have "e + t \<le> \<lfloor>(now s2 - started) * 1000\<rfloor>" by (simp only: floor_add_int e_def)
      moreover have "t = min poll_ms (timeout_ms - e)" using False by (simp add: t_def)
      ultimately have later: "e + min poll_ms (timeout_ms - e) \<le> \<lfloor>(now s2 - started) * 1000\<rfloor>" by simp
      have fewer: "polls_left timeout_ms poll_ms \<lfloor>(now s2 - started) * 1000\<rfloor> < polls_left timeout_ms poll_ms e"
        using polls_left_step [OF assms(1) _ later] False by simp
      have "0 \<le> t" using False assms(1) by (simp add: t_def)
      with s2 on less.prems have begun: "started \<le> now s2" by (simp add: field_simps)
      have "nat (polls_left timeout_ms poll_ms \<lfloor>(now s2 - started) * 1000\<rfloor>)
          < nat (polls_left timeout_ms poll_ms \<lfloor>(now s - started) * 1000\<rfloor>)"
        using order_less_le_trans [OF fewer mono] left nat_less_eq_zless by blast
      from less.hyps [OF this begun] obtain s' r' where
        go: "wait_loop ud st env k c timeout_ms poll_ms n started (attempts + 1) seen s2 = Some (s', r')"
          "good_answer timeout_ms (attempts + 1) (attempts + 1 + 1 + polls_left timeout_ms poll_ms \<lfloor>(now s2 - started) * 1000\<rfloor>) r'"
        by blast
      have "wait_loop ud st env k c timeout_ms poll_ms n started attempts detail s = Some (s', r')"
        unfolding wait_loop_once [OF p [unfolded Inr x] e_def [symmetric]] t_def [symmetric] s2_def [symmetric]
          seen_def [symmetric]
        using False go(1) by simp
      moreover have "good_answer timeout_ms attempts
          (attempts + 1 + polls_left timeout_ms poll_ms \<lfloor>(now s - started) * 1000\<rfloor>) r'"
        using order_less_le_trans [OF fewer mono] by (intro good_answer_weaken [OF go(2)]) linarith+
      ultimately show ?thesis by blast
    qed
  qed
qed

text \<open>C15. A bounded wait returns: with checked arguments it polls at most one time more than the timeout holds polls
  (rounded up), however the files, jobs, processes and sockets it watches behave, and what it reports is the condition or
  a timeout that has passed.\<close>

theorem wait_condition_returns:
  "\<exists>s' r. wait_condition ud st env k c timeout_ms poll_ms n s = Some (s', r)
    \<and> good_answer timeout_ms 0 ((timeout_ms + poll_ms - 1) div poll_ms + 1) r"
proof (cases "0 \<le> timeout_ms \<and> 100 \<le> poll_ms")
  case True
  with wait_loop_returns [of poll_ms "now s" s ud st env k c timeout_ms n 0 None] show ?thesis
    by (auto simp: wait_condition_def polls_left_def add.commute good_answer_def)
next
  case False
  then show ?thesis by (auto simp: wait_condition_def good_answer_def)
qed

end
