(* ===== verification/Argv_Redact.thy ===== *)
theory Argv_Redact
  imports Py_Text
begin

text \<open>
  The argument vector that \<open>process_info\<close> and \<open>process_list\<close> of \<open>src/remote_host_mcp/system_helpers.py\<close>
  show of other people's processes: option values, user information and query parameters that
  look like credentials are replaced first.  \<open>netloc_ok\<close> stands for the checks of \<open>urlsplit\<close> on a
  bracketed host and on the normal form of a host name.
\<close>

subsection \<open>Percent decoding\<close>

definition hex_byte :: "nat \<Rightarrow> nat option" where
  "hex_byte c =
     (if 48 \<le> c \<and> c \<le> 57 then Some (c - 48)
      else if 97 \<le> c \<and> c \<le> 102 then Some (c - 87)
      else if 65 \<le> c \<and> c \<le> 70 then Some (c - 55) else None)"

text \<open>\<open>unquote_to_bytes\<close> on an ASCII run.\<close>

fun percent_decode :: "ustr \<Rightarrow> ustr" where
  "percent_decode [] = []"
| "percent_decode (c # s) =
     (case s of
        a # b # t \<Rightarrow>
          (case (hex_byte a, hex_byte b) of
             (Some x, Some y) \<Rightarrow> if c = 37 then (16 * x + y) # percent_decode t else c # percent_decode s
           | _ \<Rightarrow> c # percent_decode s)
      | _ \<Rightarrow> c # percent_decode s)"

text \<open>\<open>unquote\<close>: each maximal ASCII run is decoded to bytes and read as UTF-8 with replacement.\<close>

function unquote :: "ustr \<Rightarrow> ustr" where
  "unquote [] = []"
| "unquote (c # s) =
     (if c < 128
      then decode_replace (map char_of (percent_decode (c # takeWhile (\<lambda>x. x < 128) s))) @ unquote (dropWhile (\<lambda>x. x < 128) s)
      else c # unquote s)"
  by pat_completeness auto
termination
  by (relation "measure length") (auto intro: le_imp_less_Suc length_dropWhile_le)

definition unquote_plus :: "ustr \<Rightarrow> ustr" where
  "unquote_plus s = unquote (map (\<lambda>c. if c = 43 then 32 else c) s)"

subsection \<open>Sensitive names\<close>

definition redacted_value :: ustr where
  "redacted_value = ustr_of ''<redacted>''"

definition sensitive_long_options :: "string list" where
  "sensitive_long_options =
     [''token'', ''password'', ''passwd'', ''secret'', ''api-key'', ''apikey'', ''access-token'', ''auth-token'', ''authorization'',
      ''credential'', ''credentials'', ''client-secret'', ''client-password'', ''bearer-token'', ''refresh-token'',
      ''private-key-passphrase'', ''path-key'', ''capability-key'', ''tunnel-token'']"

definition sensitive_option_suffixes :: "string list" where
  "sensitive_option_suffixes = [''-token'', ''-password'', ''-passwd'', ''-secret'', ''-credential'', ''-credentials'', ''-api-key'']"

text \<open>\<open>str.lower\<close> as far as ASCII results go: besides the capitals, the Kelvin sign becomes \<open>k\<close> and the dotted capital
  I an \<open>i\<close> with a combining dot.\<close>

definition lower_units :: "nat \<Rightarrow> ustr" where
  "lower_units c =
     (if 65 \<le> c \<and> c \<le> 90 then [c + 32] else if c = 0x212A then [107] else if c = 0x130 then [105, 0x307] else [c])"

definition normalized_secret_name :: "ustr \<Rightarrow> ustr" where
  "normalized_secret_name v =
     map (\<lambda>c. if c = 95 then 45 else c) (dropWhile (\<lambda>c. c = 45) (concat (map lower_units (strip (unquote_plus v)))))"

definition ends_with :: "ustr \<Rightarrow> ustr \<Rightarrow> bool" where
  "ends_with suffix s = starts (rev suffix) (rev s)"

definition is_sensitive_long_option :: "ustr \<Rightarrow> bool" where
  "is_sensitive_long_option v =
     (let normalized = normalized_secret_name v in
      normalized \<in> set (map ustr_of sensitive_long_options)
      \<or> list_ex (\<lambda>x. ends_with (ustr_of x) normalized) sensitive_option_suffixes)"

definition is_sensitive_query_key :: "ustr \<Rightarrow> bool" where
  "is_sensitive_query_key v =
     (normalized_secret_name v \<in> set (map ustr_of (''key'' # sensitive_long_options)) \<or> is_sensitive_long_option v)"

subsection \<open>URLs\<close>

text \<open>\<open>s.split(c, 1)\<close> when \<open>c\<close> occurs: what is before the first one and what is after it.\<close>

definition before :: "nat \<Rightarrow> ustr \<Rightarrow> ustr" where
  "before c s = takeWhile (\<lambda>x. x \<noteq> c) s"

definition after :: "nat \<Rightarrow> ustr \<Rightarrow> ustr" where
  "after c s = drop 1 (dropWhile (\<lambda>x. x \<noteq> c) s)"

record url =
  u_scheme :: ustr
  u_netloc :: ustr
  u_path :: ustr
  u_query :: ustr
  u_fragment :: ustr

definition ascii_alpha :: "nat \<Rightarrow> bool" where
  "ascii_alpha c = ((65 \<le> c \<and> c \<le> 90) \<or> (97 \<le> c \<and> c \<le> 122))"

definition scheme_char :: "nat \<Rightarrow> bool" where
  "scheme_char c = (ascii_alpha c \<or> (48 \<le> c \<and> c \<le> 57) \<or> c \<in> {43, 45, 46})"

definition ascii_lower :: "nat \<Rightarrow> nat" where
  "ascii_lower c = (if 65 \<le> c \<and> c \<le> 90 then c + 32 else c)"

text \<open>Leading control characters and spaces go, tabs and line ends go everywhere.\<close>

definition url_clean :: "ustr \<Rightarrow> ustr" where
  "url_clean s = filter (\<lambda>c. c \<notin> {9, 10, 13}) (dropWhile (\<lambda>c. c \<le> 32) s)"

definition split_scheme :: "ustr \<Rightarrow> ustr \<times> ustr" where
  "split_scheme s =
     (let sch = before 58 s in
      if 58 \<in> set s \<and> sch \<noteq> [] \<and> ascii_alpha (hd sch) \<and> list_all scheme_char sch
      then (map ascii_lower sch, after 58 s) else ([], s))"

definition split_netloc :: "ustr \<Rightarrow> ustr \<times> ustr" where
  "split_netloc s =
     (if take 2 s = [47, 47]
      then (takeWhile (\<lambda>c. c \<notin> {47, 63, 35}) (drop 2 s), dropWhile (\<lambda>c. c \<notin> {47, 63, 35}) (drop 2 s))
      else ([], s))"

definition urlsplit :: "(ustr \<Rightarrow> bool) \<Rightarrow> ustr \<Rightarrow> url res" where
  "urlsplit netloc_ok v =
     (let (sch, s1) = split_scheme (url_clean v); (netloc, s2) = split_netloc s1;
          s3 = before 35 s2 in
      if (91 \<in> set netloc) \<noteq> (93 \<in> set netloc) then Inl (ValueError ''Invalid IPv6 URL'')
      else if \<not> netloc_ok netloc then Inl (ValueError ''invalid netloc'')
      else Inr \<lparr>u_scheme = sch, u_netloc = netloc, u_path = before 63 s3, u_query = after 63 s3, u_fragment = after 35 s2\<rparr>)"

text \<open>\<open>urlunsplit\<close> of components whose network location is not empty.\<close>

definition urlunsplit :: "url \<Rightarrow> ustr" where
  "urlunsplit u =
     (let p = (if u_path u \<noteq> [] \<and> hd (u_path u) \<noteq> 47 then 47 # u_path u else u_path u);
          s = [47, 47] @ u_netloc u @ p;
          t = (if u_scheme u \<noteq> [] then u_scheme u @ [58] @ s else s) in
      t @ (if u_query u \<noteq> [] then 63 # u_query u else []) @ (if u_fragment u \<noteq> [] then 35 # u_fragment u else []))"

text \<open>\<open>s.split("&")\<close> and \<open>"&".join\<close>.\<close>

fun split_amp :: "ustr \<Rightarrow> ustr list" where
  "split_amp [] = [[]]"
| "split_amp (c # s) = (if c = 38 then [] # split_amp s else (case split_amp s of p # ps \<Rightarrow> (c # p) # ps | [] \<Rightarrow> [[c]]))"

fun join_amp :: "ustr list \<Rightarrow> ustr" where
  "join_amp [] = []"
| "join_amp [p] = p"
| "join_amp (p # ps) = p @ 38 # join_amp ps"

definition redact_piece :: "ustr \<Rightarrow> ustr" where
  "redact_piece piece =
     (if 61 \<in> set piece \<and> is_sensitive_query_key (before 61 piece)
      then before 61 piece @ 61 # redacted_value else piece)"

definition piece_changes :: "ustr \<Rightarrow> bool" where
  "piece_changes piece = (61 \<in> set piece \<and> is_sensitive_query_key (before 61 piece))"

definition redact_netloc :: "ustr \<Rightarrow> ustr" where
  "redact_netloc netloc =
     (if 64 \<in> set netloc then redacted_value @ 64 # rev (before 64 (rev netloc)) else netloc)"

definition redact_url :: "(ustr \<Rightarrow> bool) \<Rightarrow> ustr \<Rightarrow> ustr" where
  "redact_url netloc_ok v =
     (case urlsplit netloc_ok v of
        Inl _ \<Rightarrow> v
      | Inr u \<Rightarrow>
          if u_scheme u = [] \<or> u_netloc u = [] then v
          else
            let pieces = split_amp (u_query u);
                changed = (64 \<in> set (u_netloc u) \<or> (u_query u \<noteq> [] \<and> list_ex (piece_changes) pieces));
                query = (if u_query u \<noteq> [] then join_amp (map (redact_piece) pieces) else u_query u) in
            if \<not> changed then v else urlunsplit (u\<lparr>u_netloc := redact_netloc (u_netloc u), u_query := query\<rparr>))"

subsection \<open>Arguments\<close>

definition dashes :: ustr where
  "dashes = [45, 45]"

definition redact_argument :: "(ustr \<Rightarrow> bool) \<Rightarrow> ustr \<Rightarrow> ustr" where
  "redact_argument netloc_ok v =
     (if 61 \<in> set v then
        (let prefix = before 61 v; remainder = after 61 v; r = redact_url netloc_ok remainder in
         if starts dashes prefix \<and> is_sensitive_long_option prefix then prefix @ 61 # redacted_value
         else if r \<noteq> remainder then prefix @ 61 # r
         else redact_url netloc_ok v)
      else redact_url netloc_ok v)"

definition secret_option :: "ustr \<Rightarrow> bool" where
  "secret_option v = (starts dashes v \<and> 61 \<notin> set v \<and> is_sensitive_long_option v)"

fun redact_argv :: "(ustr \<Rightarrow> bool) \<Rightarrow> ustr list \<Rightarrow> ustr list" where
  "redact_argv netloc_ok [] = []"
| "redact_argv netloc_ok [v] = [if secret_option v then v else redact_argument netloc_ok v]"
| "redact_argv netloc_ok (v # w # vs) =
     (if secret_option v then v # redacted_value # redact_argv netloc_ok vs
      else redact_argument netloc_ok v # redact_argv netloc_ok (w # vs))"

text \<open>\<open>_cmdline\<close> on the bytes of \<open>/proc/<pid>/cmdline\<close>: the parts between NULs, redacted, joined by spaces and cut to
  4096 bytes.\<close>

fun join_space :: "ustr list \<Rightarrow> ustr" where
  "join_space [] = []"
| "join_space [p] = p"
| "join_space (p # ps) = p @ 32 # join_space ps"

definition cmdline_of :: "(ustr \<Rightarrow> bool) \<Rightarrow> bytes \<Rightarrow> ustr" where
  "cmdline_of netloc_ok raw =
     (let argv = map decode_replace (filter (\<lambda>p. p \<noteq> []) (split_on (CHR 0x00) raw));
          t = join_space (redact_argv netloc_ok argv); b = utf8 t in
      if length b \<le> 4096 then t else decode_ignore (take 4096 b) @ [0x2026])"

subsection \<open>What the redaction hides\<close>

text \<open>Whether the walk over the arguments before a position leaves an option that takes the next argument.\<close>

fun open_option :: "ustr list \<Rightarrow> bool" where
  "open_option [] = False"
| "open_option [v] = secret_option v"
| "open_option (v # w # vs) = (if secret_option v then open_option vs else open_option (w # vs))"

lemma redact_argv_append:
  "\<not> open_option pre \<Longrightarrow> redact_argv ok (pre @ post) = redact_argv ok pre @ redact_argv ok post"
proof (induction pre rule: open_option.induct)
  case (2 v)
  then show ?case by (cases post) auto
next
  case (3 v w vs)
  then show ?case by (simp split: if_splits)
qed simp

lemma redact_argv_option:
  "secret_option opt \<Longrightarrow> redact_argv ok (opt # v # post) = opt # redacted_value # redact_argv ok post"
  by simp

text \<open>C32. The value of a credential option does not show: whatever follows \<open>--token\<close>, \<open>--db-password\<close> and the like as the
  next argument or after an equals sign is replaced, wherever the option stands where an option is expected.\<close>

theorem argv_hides_option_values:
  assumes "\<not> open_option pre" "starts dashes opt" "61 \<notin> set opt" "is_sensitive_long_option opt"
  shows "redact_argv ok (pre @ opt # v # post)
      = redact_argv ok pre @ opt # redacted_value # redact_argv ok post
    \<and> redact_argv ok (pre @ (opt @ 61 # v) # post)
      = redact_argv ok pre @ (opt @ 61 # redacted_value) # redact_argv ok post"
proof -
  have "before 61 (opt @ 61 # v) = opt" using assms(3) by (auto simp: before_def takeWhile_append)
  then have r: "redact_argument ok (opt @ 61 # v) = opt @ 61 # redacted_value"
    using assms(2,4) by (simp add: redact_argument_def Let_def)
  have "redact_argv ok ((opt @ 61 # v) # post) = (opt @ 61 # redacted_value) # redact_argv ok post"
    by (cases post) (simp_all add: r secret_option_def)
  with assms show ?thesis by (simp add: redact_argv_append secret_option_def)
qed

lemma url_clean_plain: "list_all (\<lambda>c. 32 < c) s \<Longrightarrow> url_clean (s @ t) = s @ filter (\<lambda>c. c \<notin> {9, 10, 13}) t" if "s \<noteq> []" for s t
proof -
  assume a: "list_all (\<lambda>c. 32 < c) s"
  from that obtain c s' where s: "s = c # s'" by (cases s) auto
  have "filter (\<lambda>c. c \<notin> {9, 10, 13}) s = s" using a by (induction s) auto
  with a show ?thesis by (simp add: url_clean_def s)
qed

lemma scheme_chars: "list_all scheme_char sch \<Longrightarrow> list_all (\<lambda>c. 32 < c \<and> c \<noteq> 58) sch"
  by (auto simp: list_all_iff scheme_char_def ascii_alpha_def)

lemma split_scheme_plain:
  assumes "sch \<noteq> []" "ascii_alpha (hd sch)" "list_all scheme_char sch"
  shows "split_scheme (sch @ 58 # s) = (map ascii_lower sch, s)"
proof -
  have n: "list_all (\<lambda>x. x \<noteq> 58) sch" using scheme_chars [OF assms(3)] by (auto simp: list_all_iff)
  then have "before 58 (sch @ 58 # s) = sch" "after 58 (sch @ 58 # s) = s"
    by (auto simp: before_def after_def list_all_iff takeWhile_append dropWhile_append)
  with assms show ?thesis by (simp add: split_scheme_def)
qed

definition plain_user :: "ustr \<Rightarrow> bool" where
  "plain_user user = list_all (\<lambda>c. 32 < c \<and> c \<notin> {47, 63, 35, 91, 93}) user"

definition plain_host :: "ustr \<Rightarrow> bool" where
  "plain_host host = list_all (\<lambda>c. 32 < c \<and> c \<notin> {47, 63, 35, 64, 91, 93}) host"

lemma redact_url_userinfo:
  assumes sch: "sch \<noteq> []" "ascii_alpha (hd sch)" "list_all scheme_char sch"
    and user: "plain_user user" and host: "plain_host host" and rest: "rest = [] \<or> hd rest \<in> {47, 63, 35}"
    and ok: "ok (user @ 64 # host)"
  shows "redact_url ok (sch @ [58, 47, 47] @ user @ 64 # host @ rest)
    = (let s2 = filter (\<lambda>c. c \<notin> {9, 10, 13}) rest; s3 = before 35 s2; q = after 63 s3 in
       urlunsplit \<lparr>u_scheme = map ascii_lower sch, u_netloc = redacted_value @ 64 # host, u_path = before 63 s3,
         u_query = (if q \<noteq> [] then join_amp (map redact_piece (split_amp q)) else q), u_fragment = after 35 s2\<rparr>)"
proof -
  define net where "net = user @ 64 # host"
  define s2 where "s2 = filter (\<lambda>c. c \<notin> {9, 10, 13}) rest"
  have big: "list_all (\<lambda>c. 32 < c) (sch @ [58, 47, 47] @ net)"
    using scheme_chars [OF sch(3)] user host by (auto simp: list_all_iff plain_user_def plain_host_def net_def)
  have "url_clean ((sch @ [58, 47, 47] @ net) @ rest) = (sch @ [58, 47, 47] @ net) @ s2"
    using url_clean_plain [OF _ big, of rest] by (simp add: s2_def)
  then have c: "url_clean (sch @ 58 # 47 # 47 # user @ 64 # host @ rest) = sch @ 58 # 47 # 47 # net @ s2"
    by (simp add: net_def)
  have plain: "list_all (\<lambda>c. c \<notin> {47, 63, 35}) net" "91 \<notin> set net" "93 \<notin> set net" "64 \<in> set net"
    using user host by (auto simp: list_all_iff plain_user_def plain_host_def net_def)
  have s2: "s2 = [] \<or> hd s2 \<in> {47, 63, 35}"
    using rest by (cases rest) (auto simp: s2_def)
  have "takeWhile (\<lambda>c. c \<notin> {47, 63, 35}) (net @ s2) = net" "dropWhile (\<lambda>c. c \<notin> {47, 63, 35}) (net @ s2) = s2"
    using plain(1) s2 by (cases s2; auto simp: list_all_iff takeWhile_append dropWhile_append)+
  then have n: "split_netloc (47 # 47 # net @ s2) = (net, s2)" by (simp add: split_netloc_def)
  have "before 64 (rev net) = rev host"
    using host by (auto simp: before_def net_def plain_host_def list_all_iff takeWhile_append)
  then have r: "redact_netloc net = redacted_value @ 64 # host" using plain(4) by (simp add: redact_netloc_def)
  have ok': "ok net" using ok by (simp add: net_def)
  have ne: "net \<noteq> []" by (simp add: net_def)
  have "redact_url ok (sch @ [58, 47, 47] @ user @ 64 # host @ rest) = (let s3 = before 35 s2; q = after 63 s3 in
       urlunsplit \<lparr>u_scheme = map ascii_lower sch, u_netloc = redacted_value @ 64 # host, u_path = before 63 s3,
         u_query = (if q \<noteq> [] then join_amp (map redact_piece (split_amp q)) else q), u_fragment = after 35 s2\<rparr>)"
    using plain sch ok' ne
    by (simp add: redact_url_def urlsplit_def c split_scheme_plain [OF sch] n Let_def r)
  then show ?thesis by (simp add: s2_def Let_def)
qed

text \<open>The user information of a URL does not show: what is displayed for \<open>scheme://user@host\<close> with a user that can
  stand there is the same for every such user.\<close>

theorem url_hides_userinfo:
  assumes "sch \<noteq> []" "ascii_alpha (hd sch)" "list_all scheme_char sch"
    and "plain_user user1" "plain_user user2" "plain_host host" and "rest = [] \<or> hd rest \<in> {47, 63, 35}"
    and "ok (user1 @ 64 # host)" "ok (user2 @ 64 # host)"
  shows "redact_url ok (sch @ [58, 47, 47] @ user1 @ 64 # host @ rest) = redact_url ok (sch @ [58, 47, 47] @ user2 @ 64 # host @ rest)"
  using redact_url_userinfo [where ok = ok, OF assms(1-3,4,6,7,8)] redact_url_userinfo [where ok = ok, OF assms(1-3,5,6,7,9)] by simp

text \<open>An option whose name merely ends like a credential but takes no value hides the next option instead, and the
  password after that one shows.\<close>

theorem flag_shows_next_password:
  assumes "secret_option flag" "61 \<notin> set password" "redact_url ok password = password"
  shows "redact_argv ok [flag, opt, password] = [flag, redacted_value, password]"
  using assms by (simp add: redact_argument_def)

text \<open>A URL that \<open>urlsplit\<close> rejects is shown as it is, password and all: one bracket in the password is enough.\<close>

theorem bracket_shows_password:
  assumes "sch \<noteq> []" "ascii_alpha (hd sch)" "list_all scheme_char sch"
    and "list_all (\<lambda>c. 32 < c \<and> c \<notin> {47, 63, 35, 93}) user" "91 \<in> set user" "plain_host host"
  shows "redact_url ok (sch @ [58, 47, 47] @ user @ 64 # host) = sch @ [58, 47, 47] @ user @ 64 # host"
proof -
  have big: "list_all (\<lambda>c. 32 < c) (sch @ [58, 47, 47] @ user @ 64 # host)"
    using scheme_chars [OF assms(3)] assms(4,6) by (auto simp: list_all_iff plain_host_def)
  have c: "url_clean (sch @ 58 # 47 # 47 # user @ 64 # host) = sch @ 58 # 47 # 47 # user @ 64 # host"
    using url_clean_plain [OF _ big, of "[]"] by simp
  have "takeWhile (\<lambda>c. c \<notin> {47, 63, 35}) (user @ 64 # host) = user @ 64 # host"
    "dropWhile (\<lambda>c. c \<notin> {47, 63, 35}) (user @ 64 # host) = []"
    using assms(4,6) by (auto simp: list_all_iff plain_host_def takeWhile_append dropWhile_append)
  then have n: "split_netloc (47 # 47 # user @ 64 # host) = (user @ 64 # host, [])" by (simp add: split_netloc_def)
  have "91 \<in> set (user @ 64 # host)" "93 \<notin> set (user @ 64 # host)"
    using assms(4-6) by (auto simp: list_all_iff plain_host_def)
  then show ?thesis
    by (simp add: redact_url_def urlsplit_def c split_scheme_plain [OF assms(1-3)] n Let_def)
qed

subsection \<open>Samples\<close>

lemma percent_decode_other: "c \<noteq> 37 \<Longrightarrow> percent_decode (c # s) = c # percent_decode s"
  by (simp split: list.split option.split)

declare percent_decode.simps(2) [simp del]

lemma percent_decode_plain: "list_all (\<lambda>c. c \<noteq> 37) s \<Longrightarrow> percent_decode s = s"
  by (induction s) (simp_all add: percent_decode_other)

lemma utf8_ascii: "list_all (\<lambda>c. c < 128) s \<Longrightarrow> utf8 s = map char_of s"
  by (induction s) (auto simp: utf8_char_def utf8_units_def)

text \<open>A plain name is its own decoding.\<close>

lemma unquote_plain:
  assumes "list_all (\<lambda>c. c < 128 \<and> c \<notin> {37, 43}) s"
  shows "unquote_plus s = s"
proof (cases s)
  case Nil
  then show ?thesis by (simp add: unquote_plus_def)
next
  case (Cons c t)
  have m: "map (\<lambda>c. if c = 43 then 32 else c) s = s" using assms by (induction s) auto
  have a: "list_all (\<lambda>c. c < 128) s" "list_all (\<lambda>c. c \<noteq> 37) s" "list_all scalar s"
    using assms by (auto simp: list_all_iff scalar_def)
  have t: "takeWhile (\<lambda>x. x < 128) t = t" "dropWhile (\<lambda>x. x < 128) t = []" using a(1) Cons by (auto simp: list_all_iff)
  have "decode_replace (map char_of s) = s" using a decode_replace_utf8 [of s] by (simp add: utf8_ascii)
  then have "unquote s = s" using a by (simp add: Cons t percent_decode_plain)
  with m show ?thesis by (simp add: unquote_plus_def)
qed

lemma sample_sensitive:
  "is_sensitive_long_option (ustr_of ''--db-password'')" "is_sensitive_long_option (ustr_of ''--use-auth-token'')"
  by (simp_all add: is_sensitive_long_option_def normalized_secret_name_def unquote_plain ustr_of_def strip_def is_space_def
      lower_units_def sensitive_option_suffixes_def ends_with_def)

theorem argv_hides_option_values_witness:
  "redact_argv (\<lambda>_. True) ([ustr_of ''psql''] @ ustr_of ''--db-password'' # ustr_of ''hunter2'' # []) =
     [ustr_of ''psql'', ustr_of ''--db-password'', redacted_value]"
proof -
  have o: "\<not> open_option [ustr_of ''psql'']" "redact_argv (\<lambda>_. True) [ustr_of ''psql''] = [ustr_of ''psql'']" by code_simp+
  have p: "starts dashes (ustr_of ''--db-password'')" "61 \<notin> set (ustr_of ''--db-password'')"
    by (simp_all add: dashes_def ustr_of_def)
  from argv_hides_option_values [OF o(1) p sample_sensitive(1), of "\<lambda>_. True" "ustr_of ''hunter2''" "[]"] o(2) show ?thesis by simp
qed

theorem url_hides_userinfo_witness:
  "redact_url (\<lambda>_. True) (ustr_of ''https'' @ [58, 47, 47] @ ustr_of ''bob:hunter2'' @ 64 # ustr_of ''db'' @ ustr_of ''/x'')
     = redact_url (\<lambda>_. True) (ustr_of ''https'' @ [58, 47, 47] @ ustr_of ''al'' @ 64 # ustr_of ''db'' @ ustr_of ''/x'')"
  by (rule url_hides_userinfo)
    (simp_all add: ustr_of_def ascii_alpha_def scheme_char_def plain_user_def plain_host_def)

theorem flag_shows_next_password_witness:
  "redact_argv (\<lambda>_. True) [ustr_of ''--use-auth-token'', ustr_of ''--password'', ustr_of ''hunter2'']
     = [ustr_of ''--use-auth-token'', redacted_value, ustr_of ''hunter2'']"
  by (rule flag_shows_next_password)
    (simp add: secret_option_def dashes_def ustr_of_def sample_sensitive(2) [unfolded ustr_of_def, simplified],
     simp add: ustr_of_def, code_simp)

theorem bracket_shows_password_witness:
  "redact_url (\<lambda>_. True) (ustr_of ''https'' @ [58, 47, 47] @ ustr_of ''bob:hun[ter2'' @ 64 # ustr_of ''db'')
     = ustr_of ''https'' @ [58, 47, 47] @ ustr_of ''bob:hun[ter2'' @ 64 # ustr_of ''db''"
  by (rule bracket_shows_password) (simp_all add: ustr_of_def ascii_alpha_def scheme_char_def plain_host_def)

end
