(* ===== verification/Processes.thy ===== *)
theory Processes
  imports Argv_Redact Proc_Stat Run_Relation Env_Config
begin

text \<open>
  Processes of \<open>src/remote_host_mcp/system_helpers.py\<close>: \<open>process_info\<close>, \<open>process_list\<close> and
  \<open>process_signal\<close>, which refuses to signal a reused process identifier.  The state is the process table; every
  access is one step, before which other processes may start and end, or which the kernel may refuse.
\<close>

subsection \<open>The process table\<close>

text \<open>\<open>p_instance\<close> tells the successive owners of an identifier apart; a process file descriptor refers to one
  instance.  \<open>p_start\<close> is the start time the kernel keeps, which field 22 of \<open>stat\<close> shows.  \<open>signalled\<close> records the instances that got a signal, and \<open>boot_ticks\<close> is the clock that start times are
  taken from.\<close>

record proc =
  p_instance :: nat
  p_start :: int
  p_stat :: bytes
  p_status :: "bytes option"
  p_cmdline :: "bytes option"
  p_cwd :: "string option"
  p_exe :: "string option"

record proc_table =
  table :: "(int \<times> proc) list"
  signalled :: "(proc \<times> int) list"
  boot_ticks :: int
  next_instance :: nat

datatype change = Meantime "proc_table \<Rightarrow> proc_table" | Refused errno

record proc_world =
  ptab :: proc_table
  changes :: "change list"

type_synonym 'a prun = "(proc_world, 'a) run"

definition look_up :: "(proc_table \<Rightarrow> proc_table \<times> 'a res) \<Rightarrow> 'a prun" where
  "look_up c w =
     (case changes w of
        [] \<Rightarrow> (case c (ptab w) of (h, r) \<Rightarrow> (w\<lparr>ptab := h\<rparr>, r))
      | Meantime g # es \<Rightarrow> (case c (g (ptab w)) of (h, r) \<Rightarrow> (\<lparr>ptab = h, changes = es\<rparr>, r))
      | Refused e # es \<Rightarrow> (w\<lparr>changes := es\<rparr>, Inl (OSError e)))"

text \<open>A file below \<open>/proc/<pid>\<close>.\<close>

definition proc_file :: "int \<Rightarrow> (proc \<Rightarrow> 'a option) \<Rightarrow> 'a prun" where
  "proc_file pid f =
     look_up (\<lambda>h. (h, case Option.bind (map_of (table h) pid) f of None \<Rightarrow> Inl (OSError ENOENT) | Some x \<Rightarrow> Inr x))"

subsection \<open>\<open>_proc_stat\<close>\<close>

record stat_info =
  si_state :: ustr
  si_ppid :: int
  si_pgid :: int
  si_session :: int
  si_ticks :: int

definition parse_stat :: "(nat \<Rightarrow> nat option) \<Rightarrow> ustr \<Rightarrow> stat_info res" where
  "parse_stat ud raw =
     (case stat_fields raw of
        None \<Rightarrow> Inl (ValueError ''Process stat is malformed'')
      | Some fs \<Rightarrow>
          if length fs \<le> 19 then Inl (ValueError ''Process stat is incomplete'')
          else case (py_int ud (fs ! 1), py_int ud (fs ! 2), py_int ud (fs ! 3), py_int ud (fs ! 19)) of
              (Some a, Some b, Some c, Some t) \<Rightarrow>
                Inr \<lparr>si_state = fs ! 0, si_ppid = a, si_pgid = b, si_session = c, si_ticks = t\<rparr>
            | _ \<Rightarrow> Inl (ValueError ''Process stat is malformed''))"

definition proc_stat :: "(nat \<Rightarrow> nat option) \<Rightarrow> int \<Rightarrow> stat_info prun" where
  "proc_stat ud pid =
     bind_prog (check (0 < pid) ''pid must be > 0'') (\<lambda>_.
       on_error (proc_file pid (\<lambda>p. Some (p_stat p)))
         (\<lambda>_. raise (ValueError ''Process does not exist or cannot be inspected''))
         (\<lambda>b. bind_prog (lift_res (decode_strict b)) (\<lambda>u. lift_res (parse_stat ud u))))"

subsection \<open>\<open>process_info\<close> and \<open>process_list\<close>\<close>

text \<open>The first number of a \<open>Uid:\<close> or \<open>Gid:\<close> line of \<open>/proc/<pid>/status\<close>; the last such line with one counts.\<close>

definition id_of_line :: "(nat \<Rightarrow> nat option) \<Rightarrow> ustr \<Rightarrow> int option" where
  "id_of_line ud line = (case drop 1 (split_ws line) of [] \<Rightarrow> None | x # _ \<Rightarrow> py_int ud x)"

definition scan_ids :: "(nat \<Rightarrow> nat option) \<Rightarrow> ustr \<Rightarrow> int option \<times> int option" where
  "scan_ids ud text =
     fold (\<lambda>line (uid, gid).
        if starts (ustr_of ''Uid:'') line then (if id_of_line ud line = None then uid else id_of_line ud line, gid)
        else if starts (ustr_of ''Gid:'') line then (uid, if id_of_line ud line = None then gid else id_of_line ud line)
        else (uid, gid)) (splitlines_keep text) (None, None)"

definition uid_gid :: "(nat \<Rightarrow> nat option) \<Rightarrow> int \<Rightarrow> (int option \<times> int option) prun" where
  "uid_gid ud pid =
     on_error (proc_file pid p_status) (\<lambda>_. ret (None, None)) (\<lambda>b. ret (scan_ids ud (decode_replace b)))"

definition read_link :: "int \<Rightarrow> (proc \<Rightarrow> string option) \<Rightarrow> string option prun" where
  "read_link pid f = on_error (proc_file pid f) (\<lambda>_. ret None) (\<lambda>t. ret (Some t))"

definition cmdline :: "(ustr \<Rightarrow> bool) \<Rightarrow> int \<Rightarrow> ustr prun" where
  "cmdline netloc_ok pid = on_error (proc_file pid p_cmdline) (\<lambda>_. ret []) (\<lambda>b. ret (cmdline_of netloc_ok b))"

record process_info_result =
  po_pid :: int
  po_stat :: stat_info
  po_uid :: "int option"
  po_gid :: "int option"
  po_cmdline :: ustr
  po_cwd :: "string option"
  po_executable :: "string option"

definition process_info :: "(nat \<Rightarrow> nat option) \<Rightarrow> (ustr \<Rightarrow> bool) \<Rightarrow> int \<Rightarrow> process_info_result prun" where
  "process_info ud netloc_ok pid =
     bind_prog (proc_stat ud pid) (\<lambda>si.
     bind_prog (uid_gid ud pid) (\<lambda>(uid, gid).
     bind_prog (cmdline netloc_ok pid) (\<lambda>cl.
     bind_prog (read_link pid p_cwd) (\<lambda>cwd.
     bind_prog (read_link pid p_exe) (\<lambda>exe.
       ret \<lparr>po_pid = pid, po_stat = si, po_uid = uid, po_gid = gid, po_cmdline = cl, po_cwd = cwd, po_executable = exe\<rparr>)))))"

text \<open>The scan stops at the first process beyond the limit.\<close>

primrec collect :: "(nat \<Rightarrow> nat option) \<Rightarrow> (ustr \<Rightarrow> bool) \<Rightarrow> int \<Rightarrow> process_info_result list \<Rightarrow> int list \<Rightarrow>
    (process_info_result list \<times> bool) prun" where
  "collect ud netloc_ok limit rows [] = ret (rows, False)"
| "collect ud netloc_ok limit rows (pid # pids) =
     bind_prog (handle (bind_prog (process_info ud netloc_ok pid) (\<lambda>i. ret (Some i)))
        (\<lambda>e. case e of ValueError _ \<Rightarrow> ret None | _ \<Rightarrow> raise e)) (\<lambda>row.
       case row of
         None \<Rightarrow> collect ud netloc_ok limit rows pids
       | Some i \<Rightarrow> if limit < int (length (rows @ [i])) then ret (rows, True) else collect ud netloc_ok limit (rows @ [i]) pids)"

definition process_list :: "(nat \<Rightarrow> nat option) \<Rightarrow> (ustr \<Rightarrow> bool) \<Rightarrow> int \<Rightarrow> (process_info_result list \<times> bool) prun" where
  "process_list ud netloc_ok limit =
     bind_prog (check (\<not> (limit < 1 \<or> 500 < limit)) ''limit must be between 1 and 500'') (\<lambda>_.
     on_error (look_up (\<lambda>h. (h, Inr (sort (map fst (table h)))))) (\<lambda>_. raise (ValueError ''/proc is unavailable''))
       (\<lambda>pids. collect ud netloc_ok limit [] pids))"

subsection \<open>\<open>process_signal\<close>\<close>

definition allowed_signals :: "(string \<times> int) list" where
  "allowed_signals = [(''SIGINT'', 2), (''SIGHUP'', 1), (''SIGTERM'', 15), (''SIGKILL'', 9), (''SIGSTOP'', 19), (''SIGCONT'', 18)]"

definition signal_number :: "ustr \<Rightarrow> (string \<times> int) option" where
  "signal_number raw =
     (let n0 = concat (map upper_units (strip raw));
          n = (if starts (ustr_of ''SIG'') n0 then n0 else ustr_of ''SIG'' @ n0) in
      find (\<lambda>e. ustr_of (fst e) = n) allowed_signals)"

definition pidfd_open :: "int \<Rightarrow> nat prun" where
  "pidfd_open pid =
     look_up (\<lambda>h. (h, case map_of (table h) pid of None \<Rightarrow> Inl (OSError ESRCH) | Some p \<Rightarrow> Inr (p_instance p)))"

definition pidfd_send_signal :: "nat \<Rightarrow> int \<Rightarrow> unit prun" where
  "pidfd_send_signal x sig =
     look_up (\<lambda>h. case find (\<lambda>p. p_instance p = x) (map snd (table h)) of
         None \<Rightarrow> (h, Inl (OSError ESRCH))
       | Some p \<Rightarrow> (h\<lparr>signalled := signalled h @ [(p, sig)]\<rparr>, Inr ()))"

definition os_kill :: "int \<Rightarrow> int \<Rightarrow> unit prun" where
  "os_kill pid sig =
     look_up (\<lambda>h. case map_of (table h) pid of
         None \<Rightarrow> (h, Inl (OSError ESRCH))
       | Some p \<Rightarrow> (h\<lparr>signalled := signalled h @ [(p, sig)]\<rparr>, Inr ()))"

text \<open>\<open>None\<close> when process descriptors are not available; another \<open>OSError\<close> than \<open>ESRCH\<close> falls back too.\<close>

definition open_verified_pidfd :: "(nat \<Rightarrow> nat option) \<Rightarrow> bool \<Rightarrow> int \<Rightarrow> int \<Rightarrow> nat option prun" where
  "open_verified_pidfd ud supported pid expected =
     bind_prog (proc_stat ud pid) (\<lambda>si.
     bind_prog (check (si_ticks si = expected) ''Process identity mismatch; refusing to signal a reused/stale PID'') (\<lambda>_.
       if \<not> supported then ret None
       else
         on_error (pidfd_open pid)
           (\<lambda>e. if e = OSError ESRCH then raise (ValueError ''Process disappeared before pidfd acquisition'') else ret None)
           (\<lambda>x.
             bind_prog (proc_stat ud pid) (\<lambda>sj.
             bind_prog (check (si_ticks sj = expected) ''Process identity changed during pidfd acquisition'') (\<lambda>_.
               ret (Some x))))))"

record process_signal_result =
  ps_pid :: int
  ps_ticks :: int
  ps_signal :: string
  ps_alive_after :: bool

definition gone_error :: "exn \<Rightarrow> 'a prun" where
  "gone_error e =
     (if e = OSError ESRCH then raise (ValueError ''Process disappeared before signal delivery'') else raise e)"

definition process_signal ::
  "(nat \<Rightarrow> nat option) \<Rightarrow> bool \<Rightarrow> int \<Rightarrow> int \<Rightarrow> ustr \<Rightarrow> process_signal_result prun"
where
  "process_signal ud supported pid expected signal_name =
     (case signal_number signal_name of
        None \<Rightarrow> raise (ValueError (''signal must be one of ['' @ quoted_list [''SIGCONT'', ''SIGHUP'', ''SIGINT'', ''SIGKILL'', ''SIGSTOP'', ''SIGTERM''] @ '']''))
      | Some (name, sig) \<Rightarrow>
          bind_prog (open_verified_pidfd ud supported pid expected) (\<lambda>pidfd.
          bind_prog
            (case pidfd of
               Some x \<Rightarrow> on_error (pidfd_send_signal x sig) gone_error ret
             | None \<Rightarrow>
                 bind_prog (proc_stat ud pid) (\<lambda>si.
                 bind_prog (check (si_ticks si = expected) ''Process identity mismatch; refusing to signal a reused/stale PID'') (\<lambda>_.
                   on_error (os_kill pid sig) gone_error ret))) (\<lambda>_.
          bind_prog (look_up (\<lambda>h. (h, Inr (map_of (table h) pid \<noteq> None)))) (\<lambda>alive.
            ret \<lparr>ps_pid = pid, ps_ticks = expected, ps_signal = name, ps_alive_after = alive\<rparr>))))"

subsection \<open>What the kernel keeps\<close>

definition start_of :: "(nat \<Rightarrow> nat option) \<Rightarrow> proc \<Rightarrow> int option" where
  "start_of ud p = (case decode_strict (p_stat p) of Inl _ \<Rightarrow> None | Inr u \<Rightarrow> stat_ticks ud u)"

definition proc_ok :: "(nat \<Rightarrow> nat option) \<Rightarrow> proc_table \<Rightarrow> proc \<Rightarrow> bool" where
  "proc_ok ud h p \<longleftrightarrow> p_instance p < next_instance h \<and> p_start p \<le> boot_ticks h \<and> start_of ud p \<in> {None, Some (p_start p)}"

definition kernel_ok :: "(nat \<Rightarrow> nat option) \<Rightarrow> proc_table \<Rightarrow> bool" where
  "kernel_ok ud h \<longleftrightarrow> distinct (map fst (table h)) \<and> (\<forall>pid p. map_of (table h) pid = Some p \<longrightarrow> proc_ok ud h p)
     \<and> (\<forall>pid p qid q. map_of (table h) pid = Some p \<and> map_of (table h) qid = Some q \<and> p_instance p = p_instance q \<longrightarrow> p_start p = p_start q)"

text \<open>Time goes on: an identifier keeps its owner, or gets a new one that was started meanwhile.\<close>

definition kernel_moves :: "(nat \<Rightarrow> nat option) \<Rightarrow> proc_table \<Rightarrow> proc_table \<Rightarrow> bool" where
  "kernel_moves ud h h' \<longleftrightarrow> kernel_ok ud h' \<and> boot_ticks h \<le> boot_ticks h' \<and> next_instance h \<le> next_instance h'
     \<and> signalled h' = signalled h
     \<and> (\<forall>pid p'. map_of (table h') pid = Some p' \<longrightarrow>
          (\<exists>p. map_of (table h) pid = Some p \<and> p_instance p = p_instance p' \<and> p_start p = p_start p')
          \<or> (next_instance h \<le> p_instance p' \<and> boot_ticks h \<le> p_start p'))"

primrec lawful_change :: "(nat \<Rightarrow> nat option) \<Rightarrow> change \<Rightarrow> bool" where
  "lawful_change ud (Meantime g) = (\<forall>h. kernel_ok ud h \<longrightarrow> kernel_moves ud h (g h))"
| "lawful_change ud (Refused e) = False"

definition lawful :: "(nat \<Rightarrow> nat option) \<Rightarrow> proc_world \<Rightarrow> bool" where
  "lawful ud w \<longleftrightarrow> kernel_ok ud (ptab w) \<and> list_all (lawful_change ud) (changes w)"

definition passes :: "(nat \<Rightarrow> nat option) \<Rightarrow> proc_world \<Rightarrow> proc_world \<Rightarrow> bool" where
  "passes ud w w' \<longleftrightarrow> (lawful ud w \<longrightarrow> lawful ud w' \<and> kernel_moves ud (ptab w) (ptab w'))"

lemma kernel_moves_refl: "kernel_ok ud h \<Longrightarrow> kernel_moves ud h h"
  by (simp add: kernel_moves_def)

lemma kernel_moves_trans:
  assumes "kernel_moves ud h h'" "kernel_moves ud h' h''"
  shows "kernel_moves ud h h''"
  unfolding kernel_moves_def
proof (intro conjI allI impI)
  fix pid p''
  assume p: "map_of (table h'') pid = Some p''"
  then consider p' where "map_of (table h') pid = Some p'" "p_instance p' = p_instance p''" "p_start p' = p_start p''"
    | "next_instance h' \<le> p_instance p''" "boot_ticks h' \<le> p_start p''"
    using assms(2) unfolding kernel_moves_def by blast
  then show "(\<exists>p. map_of (table h) pid = Some p \<and> p_instance p = p_instance p'' \<and> p_start p = p_start p'')
      \<or> (next_instance h \<le> p_instance p'' \<and> boot_ticks h \<le> p_start p'')"
    using assms(1) by cases (fastforce simp: kernel_moves_def)+
qed (use assms in \<open>auto simp: kernel_moves_def\<close>)

interpretation going: run_preorder "passes ud" for ud
  by unfold_locales (auto simp: passes_def lawful_def kernel_moves_refl intro: kernel_moves_trans)

lemma looks_pass:
  assumes "lawful ud w" "look_up (\<lambda>h. (h, r h)) w = (w', x)"
  shows "lawful ud w' \<and> kernel_moves ud (ptab w) (ptab w') \<and> x = r (ptab w')"
  using assms
  by (cases "changes w"; cases "hd (changes w)"; auto simp: look_up_def lawful_def kernel_moves_refl; simp add: kernel_moves_def)

lemma looks_passes: "obeys (passes ud) (look_up (\<lambda>h. (h, r h)))"
  by (auto simp: obeys_def passes_def dest: looks_pass)

lemma kernel_movesE:
  assumes "kernel_moves ud h h'" "map_of (table h') pid = Some p'"
  obtains p where "map_of (table h) pid = Some p" "p_instance p = p_instance p'" "p_start p = p_start p'"
  | "next_instance h \<le> p_instance p'" "boot_ticks h \<le> p_start p'"
  using assms unfolding kernel_moves_def by blast

lemma known_proc: "kernel_ok ud h \<Longrightarrow> map_of (table h) pid = Some p \<Longrightarrow> proc_ok ud h p"
  by (simp add: kernel_ok_def)

lemma parse_stat_ticks: "parse_stat ud u = Inr si \<Longrightarrow> stat_ticks ud u = Some (si_ticks si)"
  by (auto simp: parse_stat_def stat_ticks_def split: option.splits if_splits)

lemma proc_stat_pass:
  assumes "lawful ud w" "proc_stat ud pid w = (w', Inr si)"
  shows "lawful ud w' \<and> kernel_moves ud (ptab w) (ptab w')
    \<and> (\<exists>p. map_of (table (ptab w')) pid = Some p \<and> p_start p = si_ticks si)"
proof -
  from assms(2) obtain b where b: "proc_file pid (\<lambda>p. Some (p_stat p)) w = (w', Inr b)"
    and si: "and_then (decode_strict b) (parse_stat ud) = Inr si"
    by (auto simp: proc_stat_def runs_Inr and_then_def)
  from looks_pass [OF assms(1) b [unfolded proc_file_def]] obtain p where
    k: "lawful ud w'" "kernel_moves ud (ptab w) (ptab w')" and p: "map_of (table (ptab w')) pid = Some p" "b = p_stat p"
    by (cases "map_of (table (ptab w')) pid") auto
  from si p(2) have "start_of ud p = Some (si_ticks si)"
    by (auto simp: start_of_def and_then_def parse_stat_ticks split: sum.splits)
  moreover have "proc_ok ud (ptab w') p" using k(1) p(1) known_proc by (auto simp: lawful_def)
  ultimately have "p_start p = si_ticks si" by (simp add: proc_ok_def)
  with k p(1) show ?thesis by blast
qed

text \<open>The descriptor belongs to a process with the expected start time: between two reads of that time no later process can
  have taken the identifier.\<close>

lemma verified_pidfd:
  assumes w: "lawful ud w" and run: "open_verified_pidfd ud True pid expected w = (w', Inr fd)"
  shows "lawful ud w' \<and> kernel_moves ud (ptab w) (ptab w')
    \<and> (\<exists>x. fd = Some x \<and> x < next_instance (ptab w')
      \<and> (\<forall>qid p. map_of (table (ptab w')) qid = Some p \<and> p_instance p = x \<longrightarrow> p_start p = expected))"
proof -
  from run obtain w1 si where 1: "proc_stat ud pid w = (w1, Inr si)" and t1: "si_ticks si = expected"
    and k: "on_error (pidfd_open pid)
           (\<lambda>e. if e = OSError ESRCH then raise (ValueError ''Process disappeared before pidfd acquisition'') else ret None)
           (\<lambda>x.
             bind_prog (proc_stat ud pid) (\<lambda>sj.
             bind_prog (check (si_ticks sj = expected) ''Process identity changed during pidfd acquisition'') (\<lambda>_.
               ret (Some x)))) w1 = (w', Inr fd)"
    by (auto simp: open_verified_pidfd_def runs_Inr)
  note p1 = proc_stat_pass [OF w 1]
  obtain w2 r where 2: "pidfd_open pid w1 = (w2, r)" by fastforce
  from looks_pass [OF _ 2 [unfolded pidfd_open_def]] p1 have
    p2: "lawful ud w2" "kernel_moves ud (ptab w1) (ptab w2)"
      "r = (case map_of (table (ptab w2)) pid of None \<Rightarrow> Inl (OSError ESRCH) | Some p \<Rightarrow> Inr (p_instance p))" by auto
  with k 2 obtain q where q: "map_of (table (ptab w2)) pid = Some q" "r = Inr (p_instance q)"
    by (auto simp: runs_Inr split: option.splits if_splits)
  with k 2 obtain sj where 3: "proc_stat ud pid w2 = (w', Inr sj)" and t3: "si_ticks sj = expected" and fd: "fd = Some (p_instance q)"
    by (auto simp: runs_Inr)
  note p3 = proc_stat_pass [OF p2(1) 3]
  have okq: "proc_ok ud (ptab w2) q" using p2(1) q(1) known_proc by (auto simp: lawful_def)
  have ge: "expected \<le> p_start q"
  proof -
    from p1 t1 obtain p where p: "map_of (table (ptab w1)) pid = Some p" "p_start p = expected" by auto
    with p1 have "expected \<le> boot_ticks (ptab w1)" using known_proc [of ud "ptab w1" pid p] by (simp add: lawful_def proc_ok_def)
    with p show ?thesis by (cases rule: kernel_movesE [OF p2(2) q(1)]) auto
  qed
  have le: "p_start q \<le> expected"
  proof -
    from p3 t3 obtain p where p: "map_of (table (ptab w')) pid = Some p" "p_start p = expected" by auto
    from p3 have "kernel_moves ud (ptab w2) (ptab w')" by simp
    then show ?thesis using p(2) q(1) okq by (cases rule: kernel_movesE [OF _ p(1)]) (auto simp: proc_ok_def)
  qed
  have "p_start p = expected" if p: "map_of (table (ptab w')) qid = Some p" "p_instance p = p_instance q" for qid p
  proof -
    from p3 have "kernel_moves ud (ptab w2) (ptab w')" by simp
    from kernel_movesE [OF this p(1)] show ?thesis
    proof cases
      case (1 p0)
      have u: "kernel_ok ud (ptab w2)" using p2(1) by (simp add: lawful_def)
      have "p_start p0 = p_start q"
        using u 1(1,2) q(1) p(2) unfolding kernel_ok_def by metis
      with 1 ge le show ?thesis by simp
    next
      case 2
      with okq p(2) show ?thesis by (simp add: proc_ok_def)
    qed
  qed
  moreover have "p_instance q < next_instance (ptab w')" using okq p3 by (auto simp: proc_ok_def kernel_moves_def)
  moreover have "kernel_moves ud (ptab w) (ptab w')" using p1 p2(2) p3 kernel_moves_trans by blast
  ultimately show ?thesis using p3 fd by blast
qed

lemma lawful_now:
  assumes "lawful ud w" "look_up c w = (w', x)"
  obtains h where "kernel_moves ud (ptab w) h" "c h = (ptab w', x)" "list_all (lawful_change ud) (changes w')"
proof (cases "changes w")
  case Nil
  with assms show ?thesis by (intro that [of "ptab w"]) (auto simp: look_up_def lawful_def kernel_moves_refl split: prod.splits)
next
  case (Cons ch es)
  with assms obtain g where "ch = Meantime g" by (cases ch) (auto simp: lawful_def)
  with assms Cons show ?thesis by (intro that [of "g (ptab w)"]) (auto simp: look_up_def lawful_def split: prod.splits)
qed

lemma kernel_ok_signalled [simp]: "kernel_ok ud (h\<lparr>signalled := x\<rparr>) = kernel_ok ud h"
  by (simp add: kernel_ok_def proc_ok_def)

lemma send_signals:
  assumes w: "lawful ud w" and run: "pidfd_send_signal x sig w = (w', Inr ())" and x: "x < next_instance (ptab w)"
    and t: "\<And>qid p. map_of (table (ptab w)) qid = Some p \<Longrightarrow> p_instance p = x \<Longrightarrow> p_start p = expected"
  shows "lawful ud w' \<and> (\<exists>p. signalled (ptab w') = signalled (ptab w) @ [(p, sig)] \<and> p_start p = expected)"
proof -
  obtain h where m: "kernel_moves ud (ptab w) h" and l: "list_all (lawful_change ud) (changes w')"
    and c: "(case find (\<lambda>p. p_instance p = x) (map snd (table h)) of
         None \<Rightarrow> (h, Inl (OSError ESRCH))
       | Some p \<Rightarrow> (h\<lparr>signalled := signalled h @ [(p, sig)]\<rparr>, Inr ())) = (ptab w', Inr ())"
    by (rule lawful_now [OF w run [unfolded pidfd_send_signal_def]])
  from c obtain p where p: "find (\<lambda>p. p_instance p = x) (map snd (table h)) = Some p"
    and h: "ptab w' = h\<lparr>signalled := signalled h @ [(p, sig)]\<rparr>" by (auto split: option.splits)
  from p have px: "p_instance p = x" and "p \<in> snd ` set (table h)" by (auto simp: find_Some_iff in_set_conv_nth) force
  then obtain qid where q: "(qid, p) \<in> set (table h)" by auto
  from m have ok: "kernel_ok ud h" by (simp add: kernel_moves_def)
  with q have q': "map_of (table h) qid = Some p" by (simp add: kernel_ok_def)
  have "p_start p = expected"
    using kernel_movesE [OF m q']
  proof cases
    case (1 p0)
    with t [of qid p0] px show ?thesis by simp
  next
    case 2
    with px x show ?thesis by simp
  qed
  moreover have "kernel_ok ud (ptab w')" using ok by (simp add: h)
  moreover have "signalled h = signalled (ptab w)" using m by (simp add: kernel_moves_def)
  ultimately show ?thesis using l h by (auto simp: lawful_def)
qed

lemma gone_error_Inl: "\<not> gone_error e w = (w', Inr y)"
  by (simp add: gone_error_def raise_Inr)


text \<open>Without process descriptors the last check is no protection: a process that takes over the identifier right
  after it gets the signal.\<close>

theorem fallback_signals_successor:
  assumes "map_of (table h) pid = Some p" "0 < pid" "decode_strict (p_stat p) = Inr u" "parse_stat ud u = Inr si"
    and "signal_number raw = Some (name, sig)"
  shows "\<exists>h' r. process_signal ud False pid (si_ticks si) raw
       \<lparr>ptab = h, changes = [Meantime (\<lambda>h. h), Meantime (\<lambda>h. h), Meantime (\<lambda>h. h\<lparr>table := dict_set pid q (table h)\<rparr>)]\<rparr>
     = (\<lparr>ptab = h', changes = []\<rparr>, Inr r) \<and> signalled h' = signalled h @ [(q, sig)]"
  using assms
  by (simp add: process_signal_def open_verified_pidfd_def proc_stat_def proc_file_def bind_prog_def on_error_cases check_def ret_def
      look_up_def lift_res_def os_kill_def)

lemma collect_bound:
  "int (length rows) \<le> limit \<Longrightarrow> collect ud netloc_ok limit rows pids w = (w', Inr (found, more_there)) \<Longrightarrow> int (length found) \<le> limit"
proof (induction pids arbitrary: rows w)
  case Nil
  then show ?case by (simp add: runs_Inr)
next
  case (Cons pid pids)
  from Cons.prems(2) [unfolded collect.simps] obtain v row where
    k: "(case row of
         None \<Rightarrow> collect ud netloc_ok limit rows pids
       | Some i \<Rightarrow> if limit < int (length (rows @ [i])) then ret (rows, True) else collect ud netloc_ok limit (rows @ [i]) pids) v
       = (w', Inr (found, more_there))"
    by (rule bind_progE)
  show ?case
  proof (cases row)
    case None
    with k Cons.prems(1) show ?thesis by (auto intro: Cons.IH)
  next
    case (Some i)
    with k Cons.prems(1) Cons.IH [of "rows @ [i]" v] show ?thesis by (auto simp: ret_Inr split: if_splits)
  qed
qed

text \<open>\<open>process_list\<close> never answers with more processes than asked for.\<close>

theorem process_list_bounded:
  assumes "process_list ud netloc_ok limit w = (w', Inr (found, more_there))"
  shows "int (length found) \<le> limit \<and> limit \<le> 500"
  using assms collect_bound [of "[]" limit ud netloc_ok] by (auto simp: process_list_def runs_Inr)

subsection \<open>A sample table\<close>

definition sample_proc :: proc where
  "sample_proc = \<lparr>p_instance = 3, p_start = 5, p_stat = utf8 sample_line, p_status = None, p_cmdline = None, p_cwd = None, p_exe = None\<rparr>"

definition sample_table :: proc_table where
  "sample_table = \<lparr>table = [(7, sample_proc)], signalled = [], boot_ticks = 100, next_instance = 4\<rparr>"

lemma sample_fields_stat: "stat_fields sample_line = Some sample_fields"
  unfolding sample_line_def
  by (rule stat_fields_line) (simp add: sample_fields_def field_ok_def ustr_of_digit is_space_def list_all_iff)

lemma sample_parse:
  "parse_stat ascii_digit sample_line = Inr \<lparr>si_state = [49], si_ppid = 1, si_pgid = 1, si_session = 1, si_ticks = 5\<rparr>"
proof -
  have "py_int ascii_digit [49] = Some 1" "py_int ascii_digit (ustr_of (nat_str 5)) = Some 5"
    by (simp_all add: ustr_of_digit py_int_def strip_def is_space_def ascii_digit_def digits_value_def int_max_str_digits_def)
  then show ?thesis
    by (simp add: parse_stat_def sample_fields_stat sample_fields_def nth_append)
qed

lemma sample_lawful: "lawful ascii_digit \<lparr>ptab = sample_table, changes = []\<rparr>"
proof -
  have "start_of ascii_digit sample_proc = Some 5"
    using parse_stat_ticks [OF sample_parse] by (simp add: start_of_def sample_proc_def sample_line_utf8)
  then have "proc_ok ascii_digit sample_table sample_proc"
    by (simp add: proc_ok_def sample_table_def) (simp add: sample_proc_def)
  moreover have "map_of (table sample_table) pid = Some p \<Longrightarrow> p = sample_proc" for pid p
    by (simp add: sample_table_def split: if_splits)
  moreover have "distinct (map fst (table sample_table))" by (simp add: sample_table_def)
  ultimately show ?thesis unfolding lawful_def kernel_ok_def by (metis list.pred_inject(1) proc_world.select_convs)
qed

lemma sample_signal_number: "signal_number (ustr_of ''term'') = Some (''SIGTERM'', 15)"
  by (simp add: signal_number_def upper_units_def strip_def is_space_def allowed_signals_def ustr_of_def)


theorem fallback_signals_successor_witness:
  "signalled (ptab (fst (process_signal ascii_digit False 7 5 (ustr_of ''term'')
     \<lparr>ptab = sample_table, changes = [Meantime (\<lambda>h. h), Meantime (\<lambda>h. h),
        Meantime (\<lambda>h. h\<lparr>table := dict_set 7 (sample_proc\<lparr>p_instance := 9, p_start := 77\<rparr>) (table h)\<rparr>)]\<rparr>)))
   = [(sample_proc\<lparr>p_instance := 9, p_start := 77\<rparr>, 15)]"
proof -
  have "map_of (table sample_table) 7 = Some sample_proc" "decode_strict (p_stat sample_proc) = Inr sample_line" "signalled sample_table = []"
    by (simp_all add: sample_table_def sample_proc_def sample_line_utf8)
  from fallback_signals_successor [OF this(1) _ this(2) sample_parse sample_signal_number, of
      "sample_proc\<lparr>p_instance := 9, p_start := 77\<rparr>"] this(3)
  show ?thesis by auto
qed

end
