(* ===== verification/Services.thy ===== *)
theory Services
  imports Env_Config Proc_Stat Run_Relation
begin

text \<open>
  The systemd services of \<open>src/remote_host_mcp/system_helpers.py\<close>: \<open>service_status\<close> and
  \<open>service_action\<close> run \<open>systemctl\<close> with an argument vector of their own, after a probe of the service
  manager.  The outcomes of the coming runs are given, and every vector that is run is recorded.
\<close>

subsection \<open>Running \<open>systemctl\<close>\<close>

text \<open>A run ends with a return code and its two streams, times out, cannot be started (the exception class is given),
  or prints something that is not text.\<close>

datatype outcome = Finished int ustr ustr | Timed_Out | Not_Started string | Undecodable

record svc_world =
  outcomes :: "outcome list"
  ran :: "string list list"

type_synonym 'a srun = "(svc_world, 'a) run"

datatype run_end = Completed int ustr ustr | Failed_With string

definition subprocess_run :: "string list \<Rightarrow> run_end srun" where
  "subprocess_run argv w =
     (let w1 = \<lparr>outcomes = drop 1 (outcomes w), ran = ran w @ [argv]\<rparr> in
      case outcomes w of
        [] \<Rightarrow> (w1, Inr (Failed_With ''FileNotFoundError''))
      | Finished c out err # _ \<Rightarrow> (w1, Inr (Completed c out err))
      | Timed_Out # _ \<Rightarrow> (w1, Inr (Failed_With ''TimeoutExpired''))
      | Not_Started e # _ \<Rightarrow> (w1, Inr (Failed_With e))
      | Undecodable # _ \<Rightarrow> (w1, Inl (ValueError ''invalid utf-8'')))"

text \<open>\<open>_bounded\<close>: at most 8192 bytes of the text.\<close>

definition bounded :: "ustr \<Rightarrow> ustr" where
  "bounded text =
     (let raw = utf8 text in if length raw \<le> 8192 then text else decode_ignore (take 8192 raw) @ 10 # ustr_of ''[truncated]'')"

definition streams :: "ustr \<Rightarrow> ustr \<Rightarrow> ustr" where
  "streams out err = bounded (strip (if err \<noteq> [] then err else out))"

subsection \<open>Names\<close>

definition service_char :: "char \<Rightarrow> bool" where
  "service_char c = (alnum c \<or> c \<in> {CHR ''_'', CHR ''.'', CHR ''@''})"

definition service_re :: "string \<Rightarrow> bool" where
  "service_re s =
     (s \<noteq> [] \<and> length s \<le> 200 \<and> service_char (hd s) \<and> list_all (\<lambda>c. service_char c \<or> c \<in> {CHR '':'', CHR ''-''}) (tl s))"

definition service_name :: "string \<Rightarrow> string res" where
  "service_name service =
     (let v = sstrip service in
      if service_re v then Inr v else Inl (ValueError ''service contains unsupported characters''))"

subsection \<open>The service manager\<close>

text \<open>What the host has: \<open>systemctl\<close> on the path and whether process 1 is systemd (unknown without \<open>/proc\<close>).\<close>

record svc_host =
  has_systemctl :: bool
  pid1_systemd :: "bool option"

record capability =
  cap_present :: bool
  cap_pid1 :: "bool option"
  cap_reachable :: bool
  cap_reason :: "string option"
  cap_code :: "int option"
  cap_output :: ustr

definition probe_argv :: "string list" where
  "probe_argv = [''systemctl'', ''show'', ''--no-pager'', ''--property=Version'', ''--value'']"

definition manager_capability :: "svc_host \<Rightarrow> capability srun" where
  "manager_capability h =
     (if \<not> has_systemctl h
      then ret \<lparr>cap_present = False, cap_pid1 = pid1_systemd h, cap_reachable = False, cap_reason = Some ''systemctl_missing'',
                cap_code = None, cap_output = ustr_of ''systemctl is unavailable''\<rparr>
      else bind_prog (subprocess_run probe_argv) (\<lambda>r. ret
        (case r of
           Failed_With e \<Rightarrow>
             \<lparr>cap_present = True, cap_pid1 = pid1_systemd h, cap_reachable = False,
              cap_reason = Some (if e = ''TimeoutExpired'' then ''manager_probe_timeout'' else ''manager_probe_failed''),
              cap_code = None,
              cap_output = ustr_of (if e = ''TimeoutExpired'' then ''systemd manager probe timed out''
                                    else ''systemd manager probe failed: '' @ e)\<rparr>
         | Completed c out err \<Rightarrow>
             (let t = streams out err in
              if c \<noteq> 0
              then \<lparr>cap_present = True, cap_pid1 = pid1_systemd h, cap_reachable = False,
                    cap_reason = Some (if pid1_systemd h = Some False then ''manager_unreachable_pid1_not_systemd'' else ''manager_unreachable''),
                    cap_code = Some c, cap_output = (if t = [] then ustr_of ''systemd manager is unavailable'' else t)\<rparr>
              else \<lparr>cap_present = True, cap_pid1 = pid1_systemd h, cap_reachable = True, cap_reason = None, cap_code = Some c,
                    cap_output = t\<rparr>))))"

subsection \<open>\<open>service_status\<close>\<close>

record service_status =
  ss_service :: string
  ss_available :: bool
  ss_systemctl_present :: bool
  ss_pid1 :: "bool option"
  ss_reachable :: bool
  ss_operational :: bool
  ss_reason :: "string option"
  ss_active :: "ustr option"
  ss_sub :: "ustr option"
  ss_unit_file :: "ustr option"
  ss_code :: "int option"
  ss_output :: ustr

definition no_line_end :: "ustr \<Rightarrow> ustr" where
  "no_line_end l = rev (dropWhile is_line_end (rev l))"

text \<open>The properties printed, as \<open>key=value\<close> lines; a later line for the same key wins.\<close>

definition status_values :: "ustr \<Rightarrow> (ustr \<times> ustr) list" where
  "status_values out =
     fold (\<lambda>l m. if 61 \<in> set l then dict_set (takeWhile (\<lambda>c. c \<noteq> 61) l) (drop 1 (dropWhile (\<lambda>c. c \<noteq> 61) l)) m else m)
       (map no_line_end (splitlines_keep out)) []"

definition status_argv :: "string \<Rightarrow> string list" where
  "status_argv name =
     [''systemctl'', ''show'', ''--no-pager'', ''--property=ActiveState'', ''--property=SubState'', ''--property=UnitFileState'', ''--'', name]"

definition service_status_of :: "svc_host \<Rightarrow> string \<Rightarrow> service_status srun" where
  "service_status_of h service =
     bind_prog (lift_res (service_name service)) (\<lambda>name.
     bind_prog (manager_capability h) (\<lambda>cap.
       if \<not> cap_reachable cap
       then ret \<lparr>ss_service = name, ss_available = cap_present cap, ss_systemctl_present = cap_present cap, ss_pid1 = cap_pid1 cap,
                 ss_reachable = False, ss_operational = False, ss_reason = cap_reason cap, ss_active = None, ss_sub = None,
                 ss_unit_file = None, ss_code = cap_code cap, ss_output = cap_output cap\<rparr>
       else bind_prog (subprocess_run (status_argv name)) (\<lambda>r. ret
         (case r of
            Failed_With e \<Rightarrow>
              \<lparr>ss_service = name, ss_available = True, ss_systemctl_present = True, ss_pid1 = cap_pid1 cap, ss_reachable = True,
               ss_operational = True, ss_reason = None, ss_active = None, ss_sub = None, ss_unit_file = None, ss_code = None,
               ss_output = ustr_of (''systemctl status failed: '' @ e)\<rparr>
          | Completed c out err \<Rightarrow>
              (let m = status_values out in
               \<lparr>ss_service = name, ss_available = True, ss_systemctl_present = True, ss_pid1 = cap_pid1 cap, ss_reachable = True,
                ss_operational = True, ss_reason = None, ss_active = map_of m (ustr_of ''ActiveState''),
                ss_sub = map_of m (ustr_of ''SubState''), ss_unit_file = map_of m (ustr_of ''UnitFileState''),
                ss_code = Some c, ss_output = streams out err\<rparr>)))))"

subsection \<open>\<open>service_action\<close>\<close>

record service_action_result =
  sa_success :: bool
  sa_service :: string
  sa_action :: string
  sa_code :: "int option"
  sa_output :: ustr
  sa_status :: service_status

definition action_argv :: "string \<Rightarrow> string \<Rightarrow> string list" where
  "action_argv verb name = [''systemctl'', ''--no-pager'', verb, ''--'', name]"

definition service_action :: "svc_host \<Rightarrow> string \<Rightarrow> string \<Rightarrow> service_action_result srun" where
  "service_action h service action =
     bind_prog (lift_res (service_name service)) (\<lambda>name.
     let verb = slower (sstrip action) in
     bind_prog (check (verb \<in> {''start'', ''stop'', ''restart''}) ''action must be start, stop, or restart'') (\<lambda>_.
     bind_prog (service_status_of h name) (\<lambda>preflight.
       if \<not> ss_operational preflight
       then ret \<lparr>sa_success = False, sa_service = name, sa_action = verb, sa_code = None,
                 sa_output = ustr_of (''systemd manager unavailable: '' @ (case ss_reason preflight of
                    Some r \<Rightarrow> if r = [] then ''manager_unreachable'' else r | None \<Rightarrow> ''manager_unreachable'')),
                 sa_status = preflight\<rparr>
       else bind_prog (subprocess_run (action_argv verb name)) (\<lambda>r.
            bind_prog (service_status_of h name) (\<lambda>s. ret
              (case r of
                 Completed c out err \<Rightarrow>
                   \<lparr>sa_success = (c = 0), sa_service = name, sa_action = verb, sa_code = Some c, sa_output = streams out err, sa_status = s\<rparr>
               | Failed_With e \<Rightarrow>
                   \<lparr>sa_success = False, sa_service = name, sa_action = verb, sa_code = None,
                    sa_output = ustr_of (''systemctl action failed: '' @ e), sa_status = s\<rparr>))))))"

subsection \<open>\<open>/proc/meminfo\<close>\<close>

text \<open>Total and available memory in bytes, from the lines \<open>key: number unit\<close>.\<close>

definition meminfo_line :: "(nat \<Rightarrow> nat option) \<Rightarrow> ustr \<Rightarrow> (ustr \<times> int) list \<Rightarrow> (ustr \<times> int) list" where
  "meminfo_line ud line m =
     (if 58 \<notin> set line then m
      else case split_ws (drop 1 (dropWhile (\<lambda>c. c \<noteq> 58) line)) of
          [] \<Rightarrow> m
        | x # _ \<Rightarrow> (case py_int ud x of None \<Rightarrow> m | Some n \<Rightarrow> dict_set (takeWhile (\<lambda>c. c \<noteq> 58) line) (n * 1024) m))"

definition meminfo :: "(nat \<Rightarrow> nat option) \<Rightarrow> ustr option \<Rightarrow> int option \<times> int option" where
  "meminfo ud text =
     (case text of
        None \<Rightarrow> (None, None)
      | Some t \<Rightarrow>
          (let m = fold (meminfo_line ud) (splitlines_keep t) [] in
           (map_of m (ustr_of ''MemTotal''), map_of m (ustr_of ''MemAvailable''))))"

subsection \<open>What is run\<close>

definition argv_ok :: "string list \<Rightarrow> bool" where
  "argv_ok a \<longleftrightarrow> a = probe_argv \<or> (\<exists>name. service_re name \<and> (a = status_argv name
      \<or> (\<exists>verb. verb \<in> {''start'', ''stop'', ''restart''} \<and> a = action_argv verb name)))"

definition runs_ok :: "svc_world \<Rightarrow> svc_world \<Rightarrow> bool" where
  "runs_ok w w' \<longleftrightarrow> (\<exists>news. ran w' = ran w @ news \<and> list_all argv_ok news)"

interpretation runs: run_preorder runs_ok
  by unfold_locales (auto simp: runs_ok_def)

lemma run_ok: "argv_ok a \<Longrightarrow> obeys runs_ok (subprocess_run a)"
  by (auto simp: obeys_def runs_ok_def subprocess_run_def Let_def split: list.splits outcome.splits)

lemma argv_ok_cases [simp]:
  "argv_ok probe_argv" "service_re name \<Longrightarrow> argv_ok (status_argv name)"
  "service_re name \<Longrightarrow> verb \<in> {''start'', ''stop'', ''restart''} \<Longrightarrow> argv_ok (action_argv verb name)"
  by (auto simp: argv_ok_def)

lemma service_name_Inr: "service_name s = Inr name \<Longrightarrow> service_re name"
  by (simp add: service_name_def Let_def split: if_splits)

lemma capability_runs: "obeys runs_ok (manager_capability h)"
  unfolding manager_capability_def by (auto intro!: runs.combinators run_ok)

lemma status_runs: "obeys runs_ok (service_status_of h service)"
  unfolding service_status_of_def
  by (rule runs.lift_then, drule service_name_Inr) (auto intro!: runs.combinators run_ok capability_runs)

text \<open>A caller chooses a unit name and one of three verbs, nothing else: every command that \<open>service_action\<close> runs is the
  probe, the status query or the action with the unit name as one argument after the option terminator.\<close>

theorem service_argv_confined:
  assumes "service_action h service action w = (w', r)"
  shows "\<exists>news. ran w' = ran w @ news \<and> list_all argv_ok news"
proof -
  have "obeys runs_ok (service_action h service action)"
    unfolding service_action_def Let_def
    by (rule runs.lift_then, drule service_name_Inr, rule runs.check_then) (auto intro!: runs.combinators run_ok status_runs)
  from obeysD [OF this assms] show ?thesis by (simp add: runs_ok_def)
qed

text \<open>Nothing is started, stopped or restarted unless the probe of the service manager, made in the same call, succeeded.\<close>

theorem service_action_needs_manager:
  assumes "service_name service = Inr name" "service_name name = Inr name" "slower (sstrip action) \<in> {''start'', ''stop'', ''restart''}"
    and "\<not> has_systemctl h \<or> (case outcomes w of Finished c out err # _ \<Rightarrow> c \<noteq> 0 | Undecodable # _ \<Rightarrow> False | _ \<Rightarrow> True)"
  shows "\<exists>w' r. service_action h service action w = (w', Inr r) \<and> \<not> sa_success r
    \<and> ran w' = ran w @ (if has_systemctl h then [probe_argv] else [])"
  using assms
  by (auto simp: service_action_def bind_prog_def lift_res_def check_def ret_def service_status_of_def manager_capability_def
      subprocess_run_def Let_def split: list.splits outcome.splits)

definition sample_host_svc :: svc_host where
  "sample_host_svc = \<lparr>has_systemctl = True, pid1_systemd = Some True\<rparr>"

lemma sample_service: "service_name ''nginx'' = Inr ''nginx''" "slower (sstrip ''restart '') = ''restart''"
  by (simp_all add: service_name_def sstrip_def is_space_def service_re_def service_char_def alnum_def is_alpha_def slower_def
      lower_char_def)

theorem service_argv_confined_witness:
  "\<exists>news. ran (fst (service_action sample_host_svc ''nginx'' ''restart '' \<lparr>outcomes = [Finished 0 [] [], Finished 0 [] []], ran = []\<rparr>)) = news
    \<and> list_all argv_ok news"
  using service_argv_confined [of sample_host_svc "''nginx''" "''restart ''" "\<lparr>outcomes = [Finished 0 [] [], Finished 0 [] []], ran = []\<rparr>"]
  by (metis append_Nil prod.collapse svc_world.select_convs(2))

theorem service_action_needs_manager_witness:
  "ran (fst (service_action sample_host_svc ''nginx'' ''restart '' \<lparr>outcomes = [Finished 1 [] []], ran = []\<rparr>)) = [probe_argv]"
  using service_action_needs_manager [of "''nginx''" "''nginx''" "''restart ''" sample_host_svc "\<lparr>outcomes = [Finished 1 [] []], ran = []\<rparr>"]
  by (auto simp: sample_service sample_host_svc_def)

end
