(* ===== verification/Audit_Log.thy ===== *)
theory Audit_Log
  imports Run_Relation "HOL-Library.Sublist"
begin

text \<open>
  The sink of the audit log, class \<open>AuditWriter\<close> of \<open>src/remote_host_mcp/audit.py\<close>: records are appended to one file,
  which is renamed to \<open>.1\<close> (and \<open>.1\<close> to \<open>.2\<close>, ...) when it has reached its budget.  The state is the
  family of log files by generation, 0 being the live one, whether the live file is open, and what the coming
  system calls do.
\<close>

subsection \<open>Files\<close>

datatype fate = Works | Fails errno | Short nat

record log_state =
  generations :: "(nat \<times> bytes) list"
  opened :: bool
  fates :: "fate list"

type_synonym 'a lrun = "(log_state, 'a) run"

definition log_call :: "((nat \<times> bytes) list \<Rightarrow> (nat \<times> bytes) list \<times> 'a res) \<Rightarrow> 'a lrun" where
  "log_call c s =
     (let s1 = s\<lparr>fates := drop 1 (fates s)\<rparr> in
      case fates s of
        Fails e # _ \<Rightarrow> (s1, Inl (OSError e))
      | _ \<Rightarrow> (case c (generations s) of (g, r) \<Rightarrow> (s1\<lparr>generations := g\<rparr>, r)))"

definition unlink_log :: "nat \<Rightarrow> unit lrun" where
  "unlink_log i =
     log_call (\<lambda>g. if map_of g i = None then (g, Inl (OSError ENOENT)) else (dict_pop i g, Inr ()))"

text \<open>\<open>Path.exists\<close>: some errors mean that there is no file.\<close>

definition log_exists :: "nat \<Rightarrow> bool lrun" where
  "log_exists i =
     handle (log_call (\<lambda>g. (g, Inr (map_of g i \<noteq> None))))
       (\<lambda>e. if e \<in> {OSError ENOENT, OSError ENOTDIR, OSError ELOOP} then ret False else raise e)"

definition rename_log :: "nat \<Rightarrow> nat \<Rightarrow> unit lrun" where
  "rename_log i j =
     log_call (\<lambda>g. case map_of g i of
         None \<Rightarrow> (g, Inl (OSError ENOENT))
       | Some b \<Rightarrow> (dict_set j b (dict_pop i g), Inr ()))"

text \<open>\<open>O_CREAT | O_APPEND\<close>.\<close>

definition open_log :: "unit lrun" where
  "open_log s =
     (if opened s then (s, Inr ())
      else bind_prog (log_call (\<lambda>g. (if map_of g 0 = None then dict_set 0 [] g else g, Inr ())))
             (\<lambda>_ s1. (s1\<lparr>opened := True\<rparr>, Inr ())) s)"

text \<open>One \<open>os.write\<close>: the kernel may take only a part.\<close>

definition write_log :: "bytes \<Rightarrow> unit lrun" where
  "write_log payload s =
     (let n = (case fates s of Short n # _ \<Rightarrow> min n (length payload) | _ \<Rightarrow> length payload) in
      log_call (\<lambda>g. (dict_set 0 ((case map_of g 0 of None \<Rightarrow> [] | Some b \<Rightarrow> b) @ take n payload) g, Inr ())) s)"

subsection \<open>Rotation\<close>

record log_config =
  log_enabled :: bool
  log_max :: "int option"
  log_keep :: int

text \<open>\<open>__init__\<close>: a budget that is not positive disables the rotation, and at least 0 generations are kept.\<close>

definition new_log_config :: "bool \<Rightarrow> int option \<Rightarrow> int \<Rightarrow> log_config" where
  "new_log_config enabled max_bytes keep_files =
     \<lparr>log_enabled = enabled,
      log_max = (case max_bytes of None \<Rightarrow> None | Some m \<Rightarrow> if 0 < m then Some m else None),
      log_keep = max 0 keep_files\<rparr>"

definition should_rotate :: "log_config \<Rightarrow> nat \<Rightarrow> bool lrun" where
  "should_rotate cfg incoming =
     (case log_max cfg of
        None \<Rightarrow> ret False
      | Some m \<Rightarrow>
          on_error (log_call (\<lambda>g. (g, Inr (case map_of g 0 of None \<Rightarrow> 0 | Some b \<Rightarrow> length b)))) (\<lambda>_. ret False)
            (\<lambda>n. ret (0 < n \<and> m < int (n + incoming))))"

definition ignore_missing :: "unit lrun \<Rightarrow> unit lrun" where
  "ignore_missing p = handle p (\<lambda>e. if e = OSError ENOENT then ret () else raise e)"

text \<open>Every generation below \<open>keep\<close> moves up by one, the highest first.\<close>

primrec shift_logs :: "nat \<Rightarrow> unit lrun" where
  "shift_logs 0 = ret ()"
| "shift_logs (Suc i) =
     bind_prog (log_exists (Suc i)) (\<lambda>there.
     bind_prog (if there then rename_log (Suc i) (Suc (Suc i)) else ret ()) (\<lambda>_. shift_logs i))"

definition rotate_files :: "nat \<Rightarrow> unit lrun" where
  "rotate_files keep =
     (if keep = 0 then ignore_missing (unlink_log 0)
      else
        bind_prog (ignore_missing (unlink_log keep)) (\<lambda>_.
        bind_prog (shift_logs (keep - 1)) (\<lambda>_.
        bind_prog (log_exists 0) (\<lambda>there. if there then rename_log 0 1 else ret ()))))"

definition close_log :: "unit lrun" where
  "close_log s = (s\<lparr>opened := False\<rparr>, Inr ())"

definition rotate_locked :: "log_config \<Rightarrow> unit lrun" where
  "rotate_locked cfg =
     bind_prog close_log (\<lambda>_.
     bind_prog (handle (rotate_files (nat (log_keep cfg))) (\<lambda>e. ret ())) (\<lambda>_. open_log))"

definition append_record :: "log_config \<Rightarrow> bytes \<Rightarrow> unit lrun" where
  "append_record cfg payload =
     bind_prog open_log (\<lambda>_.
     bind_prog (should_rotate cfg (length payload)) (\<lambda>full.
     bind_prog (if full then rotate_locked cfg else ret ()) (\<lambda>_. write_log payload)))"

text \<open>\<open>record\<close> of an event whose line is given, \<open>None\<close> if it could not be serialised: whether it was written.\<close>

definition record_event :: "log_config \<Rightarrow> bytes option \<Rightarrow> bool lrun" where
  "record_event cfg line =
     (if \<not> log_enabled cfg then ret False
      else case line of
          None \<Rightarrow> ret False
        | Some payload \<Rightarrow> on_error (append_record cfg payload) (\<lambda>_. ret False) (\<lambda>_. ret True))"

subsection \<open>What the log keeps\<close>

abbreviation gens :: "log_state \<Rightarrow> nat \<Rightarrow> bytes option" where
  "gens s \<equiv> map_of (generations s)"

definition log_part :: "nat \<Rightarrow> log_state \<Rightarrow> bytes" where
  "log_part i s = (case gens s i of None \<Rightarrow> [] | Some b \<Rightarrow> b)"

text \<open>The generations up to \<open>k\<close>, the oldest first.\<close>

primrec log_text :: "nat \<Rightarrow> log_state \<Rightarrow> bytes" where
  "log_text 0 s = log_part 0 s"
| "log_text (Suc k) s = log_part (Suc k) s @ log_text k s"

definition smooth :: "log_state \<Rightarrow> bool" where
  "smooth s = list_all (\<lambda>f. f = Works) (fates s)"

definition rotates :: "log_config \<Rightarrow> bytes \<Rightarrow> log_state \<Rightarrow> bool" where
  "rotates cfg p s =
     (case log_max cfg of None \<Rightarrow> False
      | Some m \<Rightarrow> 0 < length (log_part 0 s) \<and> m < int (length (log_part 0 s) + length p))"

lemma smooth_call: "smooth s \<Longrightarrow> log_call c s = (s\<lparr>fates := drop 1 (fates s), generations := fst (c (generations s))\<rparr>, snd (c (generations s)))"
  by (cases "fates s") (auto simp: smooth_def log_call_def split: prod.split)

lemma smooth_steps [simp]:
  "smooth s \<Longrightarrow> smooth (s\<lparr>fates := drop n (fates s)\<rparr>)" "smooth (s\<lparr>generations := g\<rparr>) = smooth s" "smooth (s\<lparr>opened := b\<rparr>) = smooth s"
  by (auto simp: smooth_def list_all_iff dest: in_set_dropD)

text \<open>In a smooth state each call does its work; \<open>does p s G\<close>: \<open>p\<close> succeeds and leaves the generations \<open>G\<close>.\<close>

definition does :: "unit lrun \<Rightarrow> log_state \<Rightarrow> (nat \<Rightarrow> bytes option) \<Rightarrow> bool" where
  "does p s G \<longleftrightarrow> (\<exists>s'. p s = (s', Inr ()) \<and> gens s' = G \<and> smooth s' \<and> opened s' = opened s)"

lemma does_ret: "smooth s \<Longrightarrow> does (ret ()) s (gens s)"
  by (simp add: does_def ret_def)

lemma does_bind:
  assumes "does p s G" "\<And>s'. smooth s' \<Longrightarrow> gens s' = G \<Longrightarrow> opened s' = opened s \<Longrightarrow> does (k ()) s' H"
  shows "does (bind_prog p k) s H"
  using assms unfolding does_def bind_prog_def by fastforce

lemma does_exists:
  assumes "smooth s" "\<And>s'. smooth s' \<Longrightarrow> gens s' = gens s \<Longrightarrow> opened s' = opened s \<Longrightarrow> does (k (gens s i \<noteq> None)) s' H"
  shows "does (bind_prog (log_exists i) k) s H"
  using assms unfolding does_def bind_prog_def log_exists_def handle_def by (simp add: smooth_call)

lemma does_rename: "smooth s \<Longrightarrow> gens s i = Some b \<Longrightarrow> i \<noteq> j \<Longrightarrow> does (rename_log i j) s ((gens s)(i := None, j := Some b))"
  by (simp add: does_def rename_log_def smooth_call fun_eq_iff)

lemma does_unlink: "smooth s \<Longrightarrow> does (ignore_missing (unlink_log i)) s ((gens s)(i := None))"
  by (auto simp: does_def ignore_missing_def handle_def unlink_log_def smooth_call ret_def fun_eq_iff)

lemma does_shift:
  "smooth s \<Longrightarrow> gens s (Suc n) = None \<Longrightarrow>
    does (shift_logs n) s (\<lambda>i. if i = 1 then None else if 2 \<le> i \<and> i \<le> Suc n then gens s (i - 1) else gens s i)"
proof (induction n arbitrary: s)
  case 0
  then have "(\<lambda>i. if i = 1 then None else if 2 \<le> i \<and> i \<le> Suc 0 then gens s (i - 1) else gens s i) = gens s"
    by (auto simp: fun_eq_iff)
  with does_ret [OF 0(1)] show ?case by simp
next
  case (Suc n)
  show ?case
    unfolding shift_logs.simps
  proof (rule does_exists [OF Suc.prems(1)])
    fix s1
    assume s1: "smooth s1" "gens s1 = gens s"
    let ?G = "(gens s)(Suc n := None, Suc (Suc n) := gens s (Suc n))"
    have "does (if gens s (Suc n) \<noteq> None then rename_log (Suc n) (Suc (Suc n)) else ret ()) s1 ?G"
    proof (cases "gens s (Suc n)")
      case None
      then have "?G = gens s1" using Suc.prems(2) s1(2) by (auto simp: fun_eq_iff)
      with None does_ret [OF s1(1)] show ?thesis by simp
    next
      case (Some b)
      with does_rename [OF s1(1), of "Suc n" b "Suc (Suc n)"] s1(2) show ?thesis by simp
    qed
    then show "does (bind_prog (if gens s (Suc n) \<noteq> None then rename_log (Suc n) (Suc (Suc n)) else ret ()) (\<lambda>_. shift_logs n)) s1
        (\<lambda>i. if i = 1 then None else if 2 \<le> i \<and> i \<le> Suc (Suc n) then gens s (i - 1) else gens s i)"
    proof (rule does_bind)
      fix s2
      assume s2: "smooth s2" "gens s2 = ?G"
      have "does (shift_logs n) s2 (\<lambda>i. if i = 1 then None else if 2 \<le> i \<and> i \<le> Suc n then gens s2 (i - 1) else gens s2 i)"
        by (rule Suc.IH) (use s2 in simp_all)
      also have "(\<lambda>i. if i = 1 then None else if 2 \<le> i \<and> i \<le> Suc n then gens s2 (i - 1) else gens s2 i)
        = (\<lambda>i. if i = 1 then None else if 2 \<le> i \<and> i \<le> Suc (Suc n) then gens s (i - 1) else gens s i)"
        using s2(2) by (auto simp: fun_eq_iff)
      finally show "does (shift_logs n) s2 (\<lambda>i. if i = 1 then None else if 2 \<le> i \<and> i \<le> Suc (Suc n) then gens s (i - 1) else gens s i)" .
    qed
  qed
qed

lemma rotate_files_Suc:
  "rotate_files (Suc n) =
     bind_prog (ignore_missing (unlink_log (Suc n))) (\<lambda>_.
     bind_prog (shift_logs n) (\<lambda>_. bind_prog (log_exists 0) (\<lambda>there. if there then rename_log 0 1 else ret ())))"
  by (simp add: rotate_files_def)

text \<open>A rotation moves every generation up by one and drops the oldest.\<close>

lemma does_rotate:
  assumes "smooth s"
  shows "does (rotate_files k) s (\<lambda>i. if i = 0 then None else if i \<le> k then gens s (i - 1) else gens s i)"
proof (cases k)
  case 0
  have "(gens s)(0 := None) = (\<lambda>i. if i = 0 then None else if i \<le> k then gens s (i - 1) else gens s i)"
    using 0 by (auto simp: fun_eq_iff)
  with 0 does_unlink [OF assms, of 0] show ?thesis by (simp add: rotate_files_def)
next
  case (Suc n)
  let ?G = "\<lambda>i. if i = 1 then None else if 2 \<le> i \<and> i \<le> Suc n then gens s (i - 1) else gens s i"
  show ?thesis
    unfolding Suc rotate_files_Suc
  proof (rule does_bind [OF does_unlink [OF assms]])
    fix s1
    assume s1: "smooth s1" "gens s1 = (gens s)(Suc n := None)"
    have "(\<lambda>i. if i = 1 then None else if 2 \<le> i \<and> i \<le> Suc n then gens s1 (i - 1) else gens s1 i) = ?G"
      using s1(2) by (auto simp: fun_eq_iff)
    with does_shift [OF s1(1), of n] s1(2) have "does (shift_logs n) s1 ?G" by simp
    then show "does (bind_prog (shift_logs n) (\<lambda>_. bind_prog (log_exists 0) (\<lambda>there. if there then rename_log 0 1 else ret ()))) s1
        (\<lambda>i. if i = 0 then None else if i \<le> Suc n then gens s (i - 1) else gens s i)"
    proof (rule does_bind)
      fix s2
      assume s2: "smooth s2" "gens s2 = ?G"
      show "does (bind_prog (log_exists 0) (\<lambda>there. if there then rename_log 0 1 else ret ())) s2
          (\<lambda>i. if i = 0 then None else if i \<le> Suc n then gens s (i - 1) else gens s i)"
      proof (rule does_exists [OF s2(1)])
        fix s3
        assume s3: "smooth s3" "gens s3 = gens s2"
        show "does (if gens s2 0 \<noteq> None then rename_log 0 1 else ret ()) s3
            (\<lambda>i. if i = 0 then None else if i \<le> Suc n then gens s (i - 1) else gens s i)"
        proof (cases "gens s2 0")
          case None
          have "gens s3 = (\<lambda>i. if i = 0 then None else if i \<le> Suc n then gens s (i - 1) else gens s i)"
            using None s2(2) s3(2) by (auto simp: fun_eq_iff)
          with None does_ret [OF s3(1)] show ?thesis by simp
        next
          case (Some b)
          have "(gens s3)(0 := None, 1 := Some b) = (\<lambda>i. if i = 0 then None else if i \<le> Suc n then gens s (i - 1) else gens s i)"
            using Some s2(2) s3(2) by (auto simp: fun_eq_iff)
          with Some does_rename [OF s3(1), of 0 b 1] s3(2) show ?thesis by simp
        qed
      qed
    qed
  qed
qed


subsection \<open>Without faults\<close>

definition log_ok :: "log_state \<Rightarrow> bool" where
  "log_ok s \<longleftrightarrow> (opened s \<longrightarrow> gens s 0 \<noteq> None)"

lemma open_smooth:
  "smooth s \<Longrightarrow> log_ok s \<Longrightarrow>
    \<exists>s'. open_log s = (s', Inr ()) \<and> smooth s' \<and> opened s' \<and> gens s' = (gens s)(0 := Some (log_part 0 s))"
  by (auto simp: open_log_def bind_prog_def smooth_call log_ok_def log_part_def fun_eq_iff split: option.split)

lemma fstat_smooth:
  "smooth s \<Longrightarrow> gens s 0 \<noteq> None \<Longrightarrow>
    \<exists>s'. should_rotate cfg n s = (s', Inr (case log_max cfg of None \<Rightarrow> False
          | Some m \<Rightarrow> 0 < length (log_part 0 s) \<and> m < int (length (log_part 0 s) + n)))
      \<and> smooth s' \<and> opened s' = opened s \<and> gens s' = gens s"
  by (auto simp: should_rotate_def on_error_cases smooth_call ret_def log_part_def split: option.split)

lemma write_smooth:
  "smooth s \<Longrightarrow>
    \<exists>s'. write_log p s = (s', Inr ()) \<and> smooth s' \<and> opened s' = opened s \<and> gens s' = (gens s)(0 := Some (log_part 0 s @ p))"
  by (cases "fates s") (auto simp: write_log_def smooth_call smooth_def log_call_def log_part_def fun_eq_iff split: option.split)

definition rotated :: "nat \<Rightarrow> (nat \<Rightarrow> bytes option) \<Rightarrow> nat \<Rightarrow> bytes option" where
  "rotated k g i = (if i = 0 then None else if i \<le> k then g (i - 1) else g i)"

lemma rotate_smooth:
  assumes "smooth s"
  shows "\<exists>s'. rotate_locked cfg s = (s', Inr ()) \<and> smooth s' \<and> opened s'
           \<and> gens s' = (rotated (nat (log_keep cfg)) (gens s))(0 := Some [])"
proof -
  let ?c = "s\<lparr>opened := False\<rparr>"
  have c: "smooth ?c" "gens ?c = gens s" using assms by simp_all
  obtain s1 where s1: "rotate_files (nat (log_keep cfg)) ?c = (s1, Inr ())" "gens s1 = rotated (nat (log_keep cfg)) (gens s)" "smooth s1" "\<not> opened s1"
    using does_rotate [OF c(1), of "nat (log_keep cfg)"] unfolding does_def rotated_def c(2) by auto
  obtain s2 where s2: "open_log s1 = (s2, Inr ())" "smooth s2" "opened s2" "gens s2 = (gens s1)(0 := Some (log_part 0 s1))"
    using open_smooth [OF s1(3)] s1(4) by (auto simp: log_ok_def)
  have "rotate_locked cfg s = (s2, Inr ())"
    by (simp add: rotate_locked_def bind_prog_def close_log_def handle_def s1(1) s2(1))
  moreover have "log_part 0 s1 = []" by (simp add: log_part_def s1(2) rotated_def)
  ultimately show ?thesis using s2 s1(2) by auto
qed

definition after_record :: "log_config \<Rightarrow> bytes \<Rightarrow> log_state \<Rightarrow> nat \<Rightarrow> bytes option" where
  "after_record cfg p s =
     (if rotates cfg p s then (rotated (nat (log_keep cfg)) ((gens s)(0 := Some (log_part 0 s))))(0 := Some p)
      else (gens s)(0 := Some (log_part 0 s @ p)))"

lemma log_part_upd: "gens s' = (gens s)(0 := Some b) \<Longrightarrow> log_part 0 s' = b"
  by (simp add: log_part_def)

lemma append_smooth:
  assumes "smooth s" "log_ok s"
  shows "\<exists>s'. append_record cfg p s = (s', Inr ()) \<and> smooth s' \<and> log_ok s' \<and> gens s' = after_record cfg p s"
proof -
  obtain s1 where s1: "open_log s = (s1, Inr ())" "smooth s1" "opened s1" "gens s1 = (gens s)(0 := Some (log_part 0 s))"
    using open_smooth [OF assms] by blast
  have p1: "log_part 0 s1 = log_part 0 s" by (rule log_part_upd [OF s1(4)])
  obtain s2 where s2: "should_rotate cfg (length p) s1 = (s2, Inr (rotates cfg p s))" "smooth s2" "opened s2" "gens s2 = gens s1"
    using fstat_smooth [OF s1(2), of cfg "length p"] s1(3,4) unfolding rotates_def p1 [symmetric] by auto
  obtain s3 where s3: "(if rotates cfg p s then rotate_locked cfg else ret ()) s2 = (s3, Inr ())" "smooth s3" "opened s3"
      "gens s3 = (if rotates cfg p s then (rotated (nat (log_keep cfg)) (gens s1))(0 := Some []) else gens s1)"
  proof (cases "rotates cfg p s")
    case True
    with rotate_smooth [OF s2(2), of cfg] s2(4) that show ?thesis by auto
  next
    case False
    with s2 that show ?thesis by (simp add: ret_def)
  qed
  obtain s4 where s4: "write_log p s3 = (s4, Inr ())" "smooth s4" "opened s4" "gens s4 = (gens s3)(0 := Some (log_part 0 s3 @ p))"
    using write_smooth [OF s3(2), of p] s3(3) by blast
  have "gens s4 = after_record cfg p s"
    using s3(4) s4(4) s1(4) by (auto simp: after_record_def log_part_def)
  with s1(1) s2(1) s3(1) s4 show ?thesis
    by (auto simp: append_record_def bind_prog_def log_ok_def)
qed

lemma record_smooth:
  assumes "smooth s" "log_ok s" "log_enabled cfg"
  shows "\<exists>s'. record_event cfg (Some p) s = (s', Inr True) \<and> smooth s' \<and> log_ok s' \<and> gens s' = after_record cfg p s"
  using append_smooth [OF assms(1,2), of cfg p] assms(3) by (auto simp: record_event_def on_error_cases ret_def)


text \<open>After a rotation the oldest generation is gone and the rest is still there, in order.\<close>

lemma log_text_rotated:
  assumes "\<And>i. 1 \<le> i \<Longrightarrow> i \<le> k \<Longrightarrow> gens s' i = gens s (i - 1)"
  shows "log_text k s' = drop (length (log_part k s)) (log_text k s) @ log_part 0 s'"
  using assms
proof (induction k)
  case 0
  then show ?case by (simp add: log_part_def)
next
  case (Suc n)
  have "log_part (Suc n) s' = log_part n s" using Suc.prems [of "Suc n"] by (simp add: log_part_def)
  moreover have "log_text n s = log_part n s @ drop (length (log_part n s)) (log_text n s)" by (cases n) simp_all
  ultimately show ?case using Suc by simp
qed

lemma log_text_live:
  assumes "gens s' = (gens s)(0 := Some (log_part 0 s @ p))"
  shows "log_text k s' = log_text k s @ p"
  using assms by (induction k) (simp_all add: log_part_def)

lemma log_text_after:
  assumes "gens s' = after_record cfg p s"
  shows "log_text (nat (log_keep cfg)) s'
     = drop (if rotates cfg p s then length (log_part (nat (log_keep cfg)) s) else 0) (log_text (nat (log_keep cfg)) s) @ p"
proof (cases "rotates cfg p s")
  case True
  have "log_text (nat (log_keep cfg)) s' = drop (length (log_part (nat (log_keep cfg)) s)) (log_text (nat (log_keep cfg)) s) @ log_part 0 s'"
    apply (rule log_text_rotated)
    using assms True by (auto simp: after_record_def rotated_def rotates_def log_part_def split: option.splits)
  moreover have "log_part 0 s' = p" using assms True by (simp add: after_record_def log_part_def)
  ultimately show ?thesis using True by simp
next
  case False
  then show ?thesis using log_text_live [of s' s p] assms by (simp add: after_record_def)
qed

text \<open>Any number of records, each of them accepted or not.\<close>

primrec record_all :: "log_config \<Rightarrow> bytes list \<Rightarrow> log_state \<Rightarrow> log_state" where
  "record_all cfg [] s = s"
| "record_all cfg (p # ps) s = record_all cfg ps (fst (record_event cfg (Some p) s))"

definition within :: "nat \<Rightarrow> log_state \<Rightarrow> bool" where
  "within m s \<longleftrightarrow> (\<forall>i. length (log_part i s) \<le> m)"

lemma within_after:
  assumes "within m s" "length p \<le> m" "log_max cfg = Some (int m)" "gens s' = after_record cfg p s"
  shows "within m s'"
  unfolding within_def
proof
  fix i
  have le: "length (log_part j s) \<le> m" for j using assms(1) by (simp add: within_def)
  show "length (log_part i s') \<le> m"
  proof (cases "rotates cfg p s")
    case True
    with le [of i] le [of "i - 1"] assms(2,4) show ?thesis
      by (auto simp: after_record_def rotated_def log_part_def split: option.splits if_splits)
  next
    case False
    with assms(3) assms(2) have "length (log_part 0 s) + length p \<le> m" by (auto simp: rotates_def)
    with False le [of i] assms(4) show ?thesis
      by (cases "i = 0") (auto simp: after_record_def log_part_def)
  qed
qed

lemma log_text_within: "within m s \<Longrightarrow> length (log_text k s) \<le> Suc k * m"
proof (induction k)
  case (Suc k)
  then have "length (log_part (Suc k) s) \<le> m" unfolding within_def by blast
  with Suc show ?case by simp
qed (simp add: within_def)

lemma record_all_keeps:
  assumes "log_enabled cfg" "log_max cfg = Some (int m)" "\<forall>p \<in> set ps. length p \<le> m"
  shows "smooth s \<Longrightarrow> log_ok s \<Longrightarrow> within m s \<Longrightarrow> suffix (log_text (nat (log_keep cfg)) s) done_before \<Longrightarrow>
    within m (record_all cfg ps s) \<and> suffix (log_text (nat (log_keep cfg)) (record_all cfg ps s)) (done_before @ concat ps)
      \<and> (ps \<noteq> [] \<longrightarrow> suffix (last ps) (log_text (nat (log_keep cfg)) (record_all cfg ps s)))"
  using assms(3)
proof (induction ps arbitrary: s done_before)
  case (Cons p ps)
  obtain s' where s': "record_event cfg (Some p) s = (s', Inr True)" "smooth s'" "log_ok s'" "gens s' = after_record cfg p s"
    using record_smooth [OF Cons.prems(1,2) assms(1)] by blast
  have w: "within m s'" by (rule within_after [OF Cons.prems(3) _ assms(2) s'(4)]) (use Cons.prems(5) in simp)
  have t: "suffix (log_text (nat (log_keep cfg)) s') (done_before @ p)" "suffix p (log_text (nat (log_keep cfg)) s')"
    unfolding log_text_after [OF s'(4)]
    by (simp_all add: suffix_order.trans [OF suffix_drop Cons.prems(4)] Cons.prems(4) suffixI)
  have "within m (record_all cfg ps s') \<and> suffix (log_text (nat (log_keep cfg)) (record_all cfg ps s')) ((done_before @ p) @ concat ps)
      \<and> (ps \<noteq> [] \<longrightarrow> suffix (last ps) (log_text (nat (log_keep cfg)) (record_all cfg ps s')))"
    by (rule Cons.IH [OF s'(2,3) w t(1)]) (use Cons.prems(5) in simp)
  then show ?case using t(2) by (cases ps) (simp_all add: s'(1))
qed simp


definition fresh_log :: "fate list \<Rightarrow> log_state" where
  "fresh_log fs = \<lparr>generations = [], opened = False, fates = fs\<rparr>"

lemma fresh_log_facts: "log_ok (fresh_log fs)" "log_part i (fresh_log fs) = []" "log_text k (fresh_log fs) = []"
proof -
  show p: "log_part i (fresh_log fs) = []" for i by (simp add: log_part_def fresh_log_def)
  show "log_ok (fresh_log fs)" by (simp add: log_ok_def fresh_log_def)
  show "log_text k (fresh_log fs) = []" by (induction k) (simp_all add: p)
qed



subsection \<open>With faults\<close>

definition fewer_fates :: "log_state \<Rightarrow> log_state \<Rightarrow> bool" where
  "fewer_fates s s' \<longleftrightarrow> set (fates s') \<subseteq> set (fates s)"

interpretation fated: run_preorder fewer_fates
  by unfold_locales (auto simp: fewer_fates_def)

lemma fated_call: "obeys fewer_fates (log_call c)"
  by (auto simp: obeys_def log_call_def fewer_fates_def Let_def dest: in_set_dropD split: list.splits fate.splits prod.splits)

lemma fated_open: "obeys fewer_fates open_log"
proof -
  have "obeys fewer_fates (bind_prog (log_call c) (\<lambda>_ s1. (s1\<lparr>opened := True\<rparr>, Inr ())))" for c
    by (intro fated.bind fated_call) (simp add: obeys_def fewer_fates_def)
  then show ?thesis by (auto simp: obeys_def open_log_def fewer_fates_def split: if_splits)
qed

lemma fated_unlink: "obeys fewer_fates (ignore_missing (unlink_log i))"
  unfolding ignore_missing_def unlink_log_def by (intro fated.handles fated_call) (simp add: fated.still)

lemma fated_exists: "obeys fewer_fates (log_exists i)"
  unfolding log_exists_def by (intro fated.handles fated_call) (simp add: fated.still)

lemma fated_rename: "obeys fewer_fates (rename_log i j)"
  unfolding rename_log_def by (rule fated_call)

lemma fated_shift: "obeys fewer_fates (shift_logs n)"
  by (induction n) (auto intro!: fated.bind fated_exists fated_rename simp: fated.still)

lemma fated_rotate: "obeys fewer_fates (rotate_files k)"
  unfolding rotate_files_def
  by (auto intro!: fated.bind fated_unlink fated_shift fated_exists fated_rename simp: fated.still)

lemma fated_before_write:
  "obeys fewer_fates (should_rotate cfg n)" "obeys fewer_fates (if full then rotate_locked cfg else ret ())"
proof -
  show "obeys fewer_fates (should_rotate cfg n)"
    unfolding should_rotate_def by (cases "log_max cfg") (auto intro!: fated.on_errors fated_call simp: fated.still)
  have "obeys fewer_fates close_log" by (simp add: obeys_def close_log_def fewer_fates_def)
  then have "obeys fewer_fates (rotate_locked cfg)"
    unfolding rotate_locked_def by (intro fated.bind fated.handles fated_rotate fated_open fated.still)
  then show "obeys fewer_fates (if full then rotate_locked cfg else ret ())" by (simp add: fated.still)
qed

lemma write_tail:
  assumes "write_log p s = (s', Inr ())" "\<forall>n. Short n \<notin> set (fates s)"
  shows "\<exists>b. gens s' 0 = Some (b @ p)"
  using assms by (cases "fates s") (auto simp: write_log_def log_call_def Let_def split: fate.splits)

text \<open>Whatever calls fail, an event that \<open>record\<close> reports as written is at the end of the live log file, if
  no write was short.\<close>

theorem audit_record_is_durable:
  assumes "record_event cfg line s = (s', Inr True)" "\<forall>n. Short n \<notin> set (fates s)"
  shows "\<exists>p b. line = Some p \<and> gens s' 0 = Some (b @ p)"
proof -
  obtain p where p: "line = Some p" "append_record cfg p s = (s', Inr ())"
    using assms(1) by (auto simp: record_event_def on_error_cases ret_def split: if_splits option.splits prod.splits sum.splits)
  obtain s1 full s2 s3 where run: "open_log s = (s1, Inr ())" "should_rotate cfg (length p) s1 = (s2, Inr full)"
      "(if full then rotate_locked cfg else ret ()) s2 = (s3, Inr ())" "write_log p s3 = (s', Inr ())"
    using p(2) unfolding append_record_def prog_Inr by (auto simp: unit_eq)
  have "set (fates s3) \<subseteq> set (fates s)"
    using obeysD [OF fated_open run(1)] obeysD [OF fated_before_write(1) run(2)] obeysD [OF fated_before_write(2) run(3)]
    by (auto simp: fewer_fates_def)
  with assms(2) have "\<forall>n. Short n \<notin> set (fates s3)" by blast
  from write_tail [OF run(4) this] p(1) show ?thesis by blast
qed

definition two_logs :: "fate list \<Rightarrow> log_state" where
  "two_logs fs = \<lparr>generations = [(0, ''ab''), (1, ''z'')], opened = True, fates = fs\<rparr>"

lemma audit_record_is_durable_witness:
  "\<exists>b. gens (fst (record_event (new_log_config True (Some 3) 1) (Some ''cd'') (two_logs [Works, Fails EACCES]))) 0 = Some (b @ ''cd'')"
proof -
  let ?r = "record_event (new_log_config True (Some 3) 1) (Some ''cd'') (two_logs [Works, Fails EACCES])"
  have "?r = (fst ?r, Inr True)"
    by (simp add: record_event_def append_record_def on_error_cases bind_prog_def open_log_def should_rotate_def log_call_def
        rotate_locked_def close_log_def handle_def rotate_files_def ignore_missing_def unlink_log_def write_log_def
        new_log_config_def two_logs_def ret_def raise_def)
  then show ?thesis using audit_record_is_durable [of _ "Some ''cd''" _ "fst ?r"] by (fastforce simp: two_logs_def)
qed

text \<open>A rotation whose last rename fails has not moved the live file, as its handler says, but has already deleted
  the older generation: with one generation kept, all history but the live file is lost, which stays over its budget.\<close>

theorem failed_rotation_deletes_history:
  assumes "log_enabled cfg" "log_keep cfg = 1" "log_max cfg = Some m"
    and "opened s" "gens s 0 = Some b" "gens s 1 = Some old" "b \<noteq> []" "m < int (length b + length p)"
    and "fates s = [Works, Works, Works, Fails e]"
  shows "\<exists>s'. record_event cfg (Some p) s = (s', Inr True) \<and> gens s' 0 = Some (b @ p) \<and> gens s' 1 = None
           \<and> m < int (length (b @ p))"
  using assms
  by (simp add: record_event_def append_record_def on_error_cases bind_prog_def open_log_def should_rotate_def log_call_def
      rotate_locked_def close_log_def handle_def rotate_files_def ignore_missing_def unlink_log_def log_exists_def rename_log_def
      write_log_def ret_def raise_def)

lemma failed_rotation_deletes_history_witness:
  "\<exists>s'. record_event (new_log_config True (Some 3) 1) (Some ''cd'') (two_logs [Works, Works, Works, Fails EACCES]) = (s', Inr True)
     \<and> gens s' 0 = Some ''abcd'' \<and> gens s' 1 = None"
  using failed_rotation_deletes_history [of "new_log_config True (Some 3) 1" 3 "two_logs [Works, Works, Works, Fails EACCES]" "''ab''" "''z''" "''cd''" EACCES]
  by (auto simp: new_log_config_def two_logs_def)

text \<open>The result of \<open>os.write\<close> is not looked at: a short write counts as a success.\<close>

theorem short_write_reported_written:
  assumes "log_enabled cfg" "log_max cfg = None" "opened s" "gens s 0 = Some b" "fates s = [Short n]"
  shows "\<exists>s'. record_event cfg (Some p) s = (s', Inr True) \<and> gens s' 0 = Some (b @ take n p)"
  using assms
  by (simp add: record_event_def append_record_def on_error_cases bind_prog_def open_log_def should_rotate_def log_call_def
      write_log_def ret_def min_def)

end
