(* ===== verification/Client_Context.thy ===== *)
theory Client_Context
  imports Py_Text
begin

text \<open>
  Who is calling, read from the headers of a request: \<open>src/remote_host_mcp/client_context.py\<close>.  Headers are the list of
  their names and values; \<open>lo\<close> and \<open>up\<close> are the case tables of \<open>str.lower\<close> and \<open>str.upper\<close>.
\<close>

type_synonym headers = "(ustr \<times> ustr) list"

record client_context =
  client_ip :: "ustr option"
  client_country :: "ustr option"
  client_ua :: "ustr option"

definition no_client :: client_context where
  "no_client = \<lparr>client_ip = None, client_country = None, client_ua = None\<rparr>"

definition cased :: "(nat \<Rightarrow> ustr) \<Rightarrow> ustr \<Rightarrow> ustr" where
  "cased t s = concat (map t s)"

definition some_text :: "ustr \<Rightarrow> ustr option" where
  "some_text s = (if s = [] then None else Some s)"

definition header :: "(nat \<Rightarrow> ustr) \<Rightarrow> headers \<Rightarrow> ustr \<Rightarrow> ustr option" where
  "header lo hs name =
     (case (case map_of hs name of Some v \<Rightarrow> Some v
            | None \<Rightarrow> map_option snd (find (\<lambda>(k, _). cased lo k = cased lo name) hs)) of
        None \<Rightarrow> None
      | Some v \<Rightarrow> some_text (strip v))"

definition first_hop :: "ustr option \<Rightarrow> ustr option" where
  "first_hop v = Option.bind v (\<lambda>s. some_text (strip (takeWhile (\<lambda>c. c \<noteq> 44) s)))"

definition max_ip_chars :: nat where
  "max_ip_chars = 64"

definition max_ua_chars :: nat where
  "max_ua_chars = 512"

definition clean_ip :: "ustr option \<Rightarrow> ustr option" where
  "clean_ip v =
     (case v of None \<Rightarrow> None
      | Some s \<Rightarrow> if max_ip_chars < length s \<or> (\<exists>c \<in> set s. is_space c) then None else Some s)"

definition unknown_countries :: "ustr list" where
  "unknown_countries = [ustr_of ''XX'', ustr_of ''T1'']"

definition clean_country :: "(nat \<Rightarrow> ustr) \<Rightarrow> ustr option \<Rightarrow> ustr option" where
  "clean_country up v =
     (case v of None \<Rightarrow> None
      | Some s \<Rightarrow>
          let code = cased up (strip s) in
          if \<not> (length code = 2 \<and> list_all (\<lambda>c. c \<in> {65..90}) code) \<or> code \<in> set unknown_countries then None
          else Some code)"

definition clean_ua :: "ustr option \<Rightarrow> ustr option" where
  "clean_ua v = map_option (take max_ua_chars) v"

definition extract_client_context :: "(nat \<Rightarrow> ustr) \<Rightarrow> (nat \<Rightarrow> ustr) \<Rightarrow> headers \<Rightarrow> ustr option \<Rightarrow> client_context" where
  "extract_client_context lo up hs peer =
     (let cf = clean_ip (header lo hs (ustr_of ''cf-connecting-ip''));
          fwd = (case cf of Some a \<Rightarrow> Some a | None \<Rightarrow> clean_ip (first_hop (header lo hs (ustr_of ''x-forwarded-for''))));
          ip = (case fwd of Some a \<Rightarrow> Some a | None \<Rightarrow> clean_ip peer)
      in \<lparr>client_ip = ip,
          client_country = clean_country up (header lo hs (ustr_of ''cf-ipcountry'')),
          client_ua = clean_ua (header lo hs (ustr_of ''user-agent''))\<rparr>)"

text \<open>\<open>capture_client_context\<close>: a request may have no headers and no peer.\<close>

record request =
  rq_headers :: "headers option"
  rq_peer :: "ustr option"

definition capture_client_context :: "(nat \<Rightarrow> ustr) \<Rightarrow> (nat \<Rightarrow> ustr) \<Rightarrow> request \<Rightarrow> client_context" where
  "capture_client_context lo up rq =
     (case rq_headers rq of None \<Rightarrow> no_client | Some hs \<Rightarrow> extract_client_context lo up hs (rq_peer rq))"

subsection \<open>What a captured identity is\<close>

definition country_code :: "ustr \<Rightarrow> bool" where
  "country_code c \<longleftrightarrow> length c = 2 \<and> (\<forall>u \<in> set c. 65 \<le> u \<and> u \<le> 90) \<and> c \<notin> set unknown_countries"

definition client_ok :: "client_context \<Rightarrow> bool" where
  "client_ok c \<longleftrightarrow>
     (\<forall>a. client_ip c = Some a \<longrightarrow> length a \<le> max_ip_chars \<and> (\<forall>u \<in> set a. \<not> is_space u))
     \<and> (\<forall>a. client_country c = Some a \<longrightarrow> country_code a)
     \<and> (\<forall>a. client_ua c = Some a \<longrightarrow> length a \<le> max_ua_chars)"

lemma clean_ip_ok: "clean_ip v = Some a \<Longrightarrow> v = Some a \<and> length a \<le> max_ip_chars \<and> (\<forall>u \<in> set a. \<not> is_space u)"
  by (auto simp: clean_ip_def split: option.splits if_splits)

lemma clean_country_ok: "clean_country up v = Some a \<Longrightarrow> country_code a"
  by (auto simp: clean_country_def country_code_def Let_def list_all_iff split: option.splits if_splits)

lemma clean_ua_ok: "clean_ua v = Some a \<Longrightarrow> length a \<le> max_ua_chars"
  by (auto simp: clean_ua_def)

lemma captured_ok: "client_ok (capture_client_context lo up rq)"
proof -
  have "client_ok (extract_client_context lo up hs peer)" for hs peer
    unfolding client_ok_def extract_client_context_def Let_def
    by (auto dest: clean_ip_ok clean_country_ok clean_ua_ok split: option.splits)
  then show ?thesis
    by (auto simp: capture_client_context_def client_ok_def no_client_def split: option.split)
qed

text \<open>Behind the tunnel no other header decides the address.\<close>

lemma tunnel_header_decides:
  assumes "header lo hs (ustr_of ''cf-connecting-ip'') = Some a" "clean_ip (Some a) = Some a"
  shows "client_ip (extract_client_context lo up hs peer) = Some a"
  using assms by (simp add: extract_client_context_def Let_def)

end
