(* ===== verification/Audit_Event.thy ===== *)
theory Audit_Event
  imports Audit_Log Client_Context
begin

text \<open>
  The record of one tool call and the middleware that writes it: the other half of
  \<open>src/remote_host_mcp/audit.py\<close>.  The case tables of \<open>str\<close>, \<open>json.dumps\<close>, the clock and the random event
  identifier are arguments.
\<close>

subsection \<open>Error codes\<close>

record case_table =
  uppercase_char :: "nat \<Rightarrow> bool"
  lowercase_char :: "nat \<Rightarrow> bool"
  digit_char :: "nat \<Rightarrow> bool"
  alnum_char :: "nat \<Rightarrow> bool"
  lowered :: "nat \<Rightarrow> ustr"

text \<open>The pieces \<open>error_code_for\<close> collects, \<open>prev\<close> being the character before.\<close>

fun code_pieces :: "case_table \<Rightarrow> nat option \<Rightarrow> ustr \<Rightarrow> ustr" where
  "code_pieces ct prev [] = []"
| "code_pieces ct prev (c # s) =
     (if \<not> uppercase_char ct c then (if alnum_char ct c then lowered ct c else [95])
      else (case prev of
              None \<Rightarrow> []
            | Some p \<Rightarrow>
                if lowercase_char ct p \<or> digit_char ct p \<or> uppercase_char ct p \<and> (\<exists>f t. s = f # t \<and> lowercase_char ct f) then [95] else [])
           @ lowered ct c)
     @ code_pieces ct (Some c) s"

definition strip_underscores :: "ustr \<Rightarrow> ustr" where
  "strip_underscores s = rev (dropWhile (\<lambda>c. c = 95) (rev (dropWhile (\<lambda>c. c = 95) s)))"

lemma replace_all_step: "\<not> starts old (c # s) \<Longrightarrow> replace_all old new (c # s) = c # replace_all old new s"
  by simp

lemma replace_pair_shorter: "length (replace_all [u, u] [u] s) \<le> length s"
  by (induction "[u, u]" "[u]" s rule: replace_all.induct) (auto simp: starts_iff)

lemma replace_pair_less: "occurs [u, u] s \<Longrightarrow> length (replace_all [u, u] [u] s) < length s"
proof (induction "[u, u]" "[u]" s rule: replace_all.induct)
  case (2 c s)
  show ?case
  proof (cases "starts [u, u] (c # s)")
    case True
    then obtain t where s: "c = u" "s = u # t" by (auto simp: starts_iff)
    then show ?thesis using replace_pair_shorter [of u t] by simp
  next
    case False
    have "occurs [u, u] s" using 2(3) False by (simp del: starts_Cons)
    then show ?thesis unfolding replace_all_step [OF False] using 2(2) False by (simp del: starts_Cons)
  qed
qed simp

text \<open>\<open>while "__" in code: code = code.replace("__", "_")\<close>\<close>

function squeeze_loop :: "ustr \<Rightarrow> ustr" where
  "squeeze_loop code = (if occurs [95, 95] code then squeeze_loop (replace_all [95, 95] [95] code) else code)"
  by pat_completeness auto
termination
  by (relation "measure length") (simp_all add: replace_pair_less del: replace_all.simps occurs.simps)

declare squeeze_loop.simps [simp del]

definition error_code_max :: nat where
  "error_code_max = 64"

definition error_code_for :: "case_table \<Rightarrow> ustr \<Rightarrow> ustr" where
  "error_code_for ct name =
     (let code = strip_underscores (code_pieces ct None name);
          code1 = (if code = [] then ustr_of ''error'' else code)
      in take error_code_max (squeeze_loop code1))"

text \<open>One pass that keeps a single underscore of each run.\<close>

fun squeeze :: "ustr \<Rightarrow> ustr" where
  "squeeze (a # b # s) = (if a = 95 \<and> b = 95 then squeeze (b # s) else a # squeeze (b # s))"
| "squeeze s = s"

lemma squeeze_Cons: "squeeze (c # s) = (if c = 95 \<and> (\<exists>t. s = 95 # t) then squeeze s else c # squeeze s)"
  by (cases s) auto

lemma squeeze_starts: "(\<exists>t. squeeze s = 95 # t) \<longleftrightarrow> (\<exists>t. s = 95 # t)"
  by (induction s rule: squeeze.induct) auto

lemma replace_starts: "(\<exists>t. replace_all [95, 95] [95] s = 95 # t) \<longleftrightarrow> (\<exists>t. s = 95 # (t::ustr))"
  by (cases s) (auto simp: starts_iff)

lemma squeeze_replace: "squeeze (replace_all [95, 95] [95] s) = squeeze s"
proof (induction "[95, 95::nat]" "[95::nat]" s rule: replace_all.induct)
  case (2 c s)
  show ?case
  proof (cases "starts [95, 95] (c # s)")
    case True
    then obtain t where s: "c = 95" "s = 95 # t" by (auto simp: starts_iff)
    with 2 have ih: "squeeze (replace_all [95, 95] [95] t) = squeeze t" by simp
    have "squeeze (95 # replace_all [95, 95] [95] t) = squeeze (95 # t)"
      unfolding squeeze_Cons [of 95] ih replace_starts ..
    with s show ?thesis by simp
  next
    case False
    have ih: "squeeze (replace_all [95, 95] [95] s) = squeeze s" by (rule 2(2)) (use False in \<open>simp del: starts_Cons\<close>)
    have "squeeze (c # replace_all [95, 95] [95] s) = squeeze (c # s)"
      unfolding squeeze_Cons [of c] ih replace_starts ..
    then show ?thesis unfolding replace_all_step [OF False] .
  qed
qed simp

lemma squeeze_absent: "\<not> occurs [95, 95] s \<Longrightarrow> squeeze s = s"
  by (induction s rule: squeeze.induct) auto

lemma squeeze_loop_squeeze: "squeeze_loop s = squeeze s"
proof (induction s rule: squeeze_loop.induct)
  case (1 s)
  then show ?case by (subst squeeze_loop.simps) (simp add: squeeze_replace squeeze_absent)
qed

lemma squeeze_absent_result: "\<not> occurs [95, 95] (squeeze_loop s)"
proof (induction s rule: squeeze_loop.induct)
  case (1 s)
  then show ?case by (subst squeeze_loop.simps) simp
qed

lemma set_squeeze: "set (squeeze s) \<subseteq> set s"
  by (induction s rule: squeeze.induct) auto

lemma squeeze_nonempty: "squeeze s = [] \<longleftrightarrow> s = []"
  by (induction s rule: squeeze.induct) auto


definition ascii_case :: "case_table \<Rightarrow> bool" where
  "ascii_case ct \<longleftrightarrow>
     (\<forall>c < 128. (uppercase_char ct c \<longleftrightarrow> 65 \<le> c \<and> c \<le> 90) \<and> (lowercase_char ct c \<longleftrightarrow> 97 \<le> c \<and> c \<le> 122)
        \<and> (digit_char ct c \<longleftrightarrow> 48 \<le> c \<and> c \<le> 57)
        \<and> (alnum_char ct c \<longleftrightarrow> 48 \<le> c \<and> c \<le> 57 \<or> 65 \<le> c \<and> c \<le> 90 \<or> 97 \<le> c \<and> c \<le> 122)
        \<and> lowered ct c = (if 65 \<le> c \<and> c \<le> 90 then [c + 32] else [c]))"

lemma ascii_caseD:
  assumes "ascii_case ct" "c < 128"
  shows "uppercase_char ct c \<longleftrightarrow> 65 \<le> c \<and> c \<le> 90"
    and "alnum_char ct c \<longleftrightarrow> 48 \<le> c \<and> c \<le> 57 \<or> 65 \<le> c \<and> c \<le> 90 \<or> 97 \<le> c \<and> c \<le> 122"
    and "lowered ct c = (if 65 \<le> c \<and> c \<le> 90 then [c + 32] else [c])"
  using assms unfolding ascii_case_def by blast+

definition ascii_table :: case_table where
  "ascii_table =
     \<lparr>uppercase_char = (\<lambda>c. 65 \<le> c \<and> c \<le> 90), lowercase_char = (\<lambda>c. 97 \<le> c \<and> c \<le> 122), digit_char = (\<lambda>c. 48 \<le> c \<and> c \<le> 57),
      alnum_char = (\<lambda>c. 48 \<le> c \<and> c \<le> 57 \<or> 65 \<le> c \<and> c \<le> 90 \<or> 97 \<le> c \<and> c \<le> 122),
      lowered = (\<lambda>c. if 65 \<le> c \<and> c \<le> 90 then [c + 32] else [c])\<rparr>"

lemma ascii_table_ok: "ascii_case ascii_table"
  by (simp add: ascii_case_def ascii_table_def)

definition code_char :: "nat \<Rightarrow> bool" where
  "code_char c \<longleftrightarrow> 48 \<le> c \<and> c \<le> 57 \<or> 97 \<le> c \<and> c \<le> 122 \<or> c = 95"

lemma code_pieces_chars:
  assumes "ascii_case ct"
  shows "\<forall>c \<in> set name. c < 128 \<Longrightarrow> x \<in> set (code_pieces ct prev name) \<Longrightarrow> code_char x"
proof (induction name arbitrary: prev)
  case (Cons c s)
  then have "c < 128" by simp
  with assms have "x \<in> set (lowered ct c) \<Longrightarrow> uppercase_char ct c \<or> alnum_char ct c \<Longrightarrow> code_char x"
    by (auto simp: ascii_caseD code_char_def split: if_splits)
  with Cons show ?case by (auto simp: code_char_def split: if_splits option.splits)
qed simp

lemma set_strip_underscores: "set (strip_underscores s) \<subseteq> set s"
  unfolding strip_underscores_def by (auto dest!: set_dropWhileD)

lemma occurs_take: "occurs old (take n s) \<Longrightarrow> occurs old s"
  by (metis append_assoc append_take_drop_id occurs_iff)

text \<open>The error code of an exception whose class has an ASCII name has 1 to 64 characters, each a small letter, a
  digit or an underscore, and no two underscores in a row: what the Hub accepts.\<close>

theorem error_code_valid:
  assumes "ascii_case ct" "\<forall>c \<in> set name. c < 128"
  shows "1 \<le> length (error_code_for ct name) \<and> length (error_code_for ct name) \<le> 64
    \<and> list_all code_char (error_code_for ct name) \<and> \<not> occurs [95, 95] (error_code_for ct name)"
proof -
  define code where "code = (let c = strip_underscores (code_pieces ct None name) in if c = [] then ustr_of ''error'' else c)"
  have e: "error_code_for ct name = take 64 (squeeze_loop code)"
    by (simp add: error_code_for_def error_code_max_def code_def Let_def)
  have "\<forall>x \<in> set code. code_char x"
    using code_pieces_chars [OF assms] set_strip_underscores
    by (auto simp: code_def Let_def ustr_of_def code_char_def subset_iff split: if_splits)
  then have "list_all code_char (take 64 (squeeze_loop code))"
    using set_squeeze [of code] by (auto simp: list_all_iff squeeze_loop_squeeze dest: in_set_takeD)
  moreover have "code \<noteq> []" by (simp add: code_def Let_def ustr_of_def)
  then have "1 \<le> length (squeeze_loop code)" using squeeze_nonempty [of code] by (cases "squeeze code") (simp_all add: squeeze_loop_squeeze)
  ultimately show ?thesis
    unfolding e using squeeze_absent_result occurs_take by auto
qed

lemma error_code_valid_witness: "\<not> occurs [95, 95] (error_code_for ascii_table (ustr_of ''HTTP_Error''))"
  using error_code_valid [OF ascii_table_ok, of "ustr_of ''HTTP_Error''"] by (simp add: ustr_of_def)

lemma error_code_example: "error_code_for ascii_table (ustr_of ''HTTPError'') = ustr_of ''http_error''"
  by (simp add: error_code_for_def squeeze_loop_squeeze ascii_table_def ustr_of_def strip_underscores_def error_code_max_def)

text \<open>The loop that replaces pairs of underscores ends and leaves what one pass over the runs leaves.\<close>

theorem error_code_one_pass:
  "error_code_for ct name =
     take error_code_max (squeeze (let code = strip_underscores (code_pieces ct None name) in if code = [] then ustr_of ''error'' else code))"
  by (simp add: error_code_for_def squeeze_loop_squeeze Let_def)

subsection \<open>Events\<close>

record audit_event =
  ev_id :: ustr
  ev_provider :: ustr
  ev_tool_name :: ustr
  ev_status :: string
  ev_started_at :: ustr
  ev_duration_ms :: "int option"
  ev_exit_code :: "int option"
  ev_error_code :: "ustr option"
  ev_client_ip :: "ustr option"
  ev_client_country :: "ustr option"
  ev_client_city :: "ustr option"
  ev_client_region :: "ustr option"
  ev_client_org :: "ustr option"
  ev_client_asn :: "ustr option"
  ev_client_ua :: "ustr option"
  ev_args_text :: "ustr option"
  ev_output_bytes :: "nat option"
  ev_output_preview :: "ustr option"
  ev_output_ref :: "ustr option"

definition args_text_limit :: nat where
  "args_text_limit = 16 * 1024"

definition output_preview_limit :: nat where
  "output_preview_limit = 4 * 1024"

definition truncate_utf8 :: "ustr \<Rightarrow> nat \<Rightarrow> ustr res" where
  "truncate_utf8 s limit =
     and_then (encode_utf8 s) (\<lambda>b. Inr (if length b \<le> limit then s else decode_ignore (take limit b)))"

text \<open>The arguments are \<open>None\<close> or what \<open>json.dumps\<close> makes of them; \<open>TypeError\<close> and \<open>ValueError\<close>, of which the
  encoding error is one, leave them out.\<close>

definition args_of :: "ustr res option \<Rightarrow> ustr option res" where
  "args_of arguments =
     (case arguments of None \<Rightarrow> Inr None
      | Some dumped \<Rightarrow>
          (case and_then dumped (\<lambda>t. truncate_utf8 t args_text_limit) of
             Inr t \<Rightarrow> Inr (Some t)
           | Inl (TypeError m) \<Rightarrow> Inr None
           | Inl (ValueError m) \<Rightarrow> Inr None
           | Inl e \<Rightarrow> Inl e))"

definition build_event ::
    "ustr \<Rightarrow> ustr \<Rightarrow> string \<Rightarrow> ustr \<Rightarrow> int option \<Rightarrow> ustr res option \<Rightarrow> client_context \<Rightarrow> ustr option \<Rightarrow> int option
       \<Rightarrow> ustr option \<Rightarrow> audit_event res" where
  "build_event new_id tool status started duration arguments context output exit_code error_code =
     and_then (args_of arguments) (\<lambda>args.
     and_then (case output of None \<Rightarrow> Inr (None, None)
               | Some text \<Rightarrow>
                   and_then (encode_utf8 text) (\<lambda>b.
                   and_then (truncate_utf8 text output_preview_limit) (\<lambda>preview. Inr (Some (length b), Some preview))))
       (\<lambda>(output_bytes, preview).
          Inr \<lparr>ev_id = new_id, ev_provider = ustr_of ''rhmcp'', ev_tool_name = tool, ev_status = status, ev_started_at = started,
               ev_duration_ms = duration, ev_exit_code = exit_code, ev_error_code = error_code,
               ev_client_ip = client_ip context, ev_client_country = client_country context, ev_client_city = None,
               ev_client_region = None, ev_client_org = None, ev_client_asn = None, ev_client_ua = client_ua context,
               ev_args_text = args, ev_output_bytes = output_bytes, ev_output_preview = preview, ev_output_ref = None\<rparr>))"

lemma truncate_utf8_fitting:
  "truncate_utf8 s limit = (if list_all scalar s then Inr (take (fitting limit s) s) else Inl (ValueError ''surrogates not allowed''))"
proof (cases "list_all scalar s")
  case True
  have "length (utf8 s) \<le> limit \<Longrightarrow> fitting limit s = length s"
    using fitting_maximal [of "length s" s limit] fitting_le [of limit s] by simp
  with True show ?thesis by (auto simp: truncate_utf8_def encode_utf8_def decode_ignore_take)
qed (simp add: truncate_utf8_def encode_utf8_def)

lemma truncate_utf8_bounded:
  "truncate_utf8 s limit = Inr t \<Longrightarrow> length (utf8 t) \<le> limit \<and> starts t s"
  using fitting_bound [of limit s] fitting_le [of limit s] by (auto simp: truncate_utf8_fitting starts_def split: if_splits)

text \<open>An event holds at most 16 KiB of arguments and 4 KiB of output, each a prefix cut between characters, the
  exact size of the whole output, and an identity of the caller within its bounds.\<close>

theorem event_fields_bounded:
  assumes "build_event new_id tool status started duration arguments (capture_client_context lo up rq) output exit_code error_code = Inr e"
  shows "(\<forall>t. ev_args_text e = Some t \<longrightarrow> length (utf8 t) \<le> 16384 \<and> (\<exists>full. arguments = Some (Inr full) \<and> starts t full))
    \<and> (\<forall>t. ev_output_preview e = Some t \<longrightarrow> length (utf8 t) \<le> 4096
          \<and> (\<exists>full. output = Some full \<and> starts t full \<and> ev_output_bytes e = Some (length (utf8 full))))
    \<and> (\<forall>a. ev_client_ip e = Some a \<longrightarrow> length a \<le> 64 \<and> (\<forall>u \<in> set a. \<not> is_space u))
    \<and> (\<forall>a. ev_client_country e = Some a \<longrightarrow> country_code a)
    \<and> (\<forall>a. ev_client_ua e = Some a \<longrightarrow> length a \<le> 512)"
proof -
  obtain args where args: "args_of arguments = Inr args" "ev_args_text e = args"
    using assms by (auto simp: build_event_def and_then_Inr)
  have a: "length (utf8 t) \<le> 16384 \<and> (\<exists>full. arguments = Some (Inr full) \<and> starts t full)" if "args = Some t" for t
    using args(1) that truncate_utf8_bounded [of _ args_text_limit t]
    by (auto simp: args_of_def args_text_limit_def and_then_Inr split: option.splits sum.splits exn.splits)
  have o: "length (utf8 t) \<le> 4096 \<and> (\<exists>full. output = Some full \<and> starts t full \<and> ev_output_bytes e = Some (length (utf8 full)))"
    if "ev_output_preview e = Some t" for t
    using assms that truncate_utf8_bounded [of _ output_preview_limit t]
    by (auto simp: build_event_def and_then_Inr output_preview_limit_def encode_utf8_def split: option.splits if_splits)
  have c: "ev_client_ip e = client_ip (capture_client_context lo up rq)" "ev_client_country e = client_country (capture_client_context lo up rq)"
      "ev_client_ua e = client_ua (capture_client_context lo up rq)"
    using assms by (auto simp: build_event_def and_then_Inr)
  show ?thesis
    using a args(2) o c captured_ok [of lo up rq] by (auto simp: client_ok_def max_ip_chars_def max_ua_chars_def)
qed

definition sample_request :: request where
  "sample_request =
     \<lparr>rq_headers = Some [(ustr_of ''cf-connecting-ip'', ustr_of ''10.0.0.1''), (ustr_of ''cf-ipcountry'', ustr_of ''se'')],
      rq_peer = Some (ustr_of ''127.0.0.1'')\<rparr>"

lemma event_fields_bounded_witness:
  "\<exists>e t. build_event [1] [2] ''ok'' [3] (Some 5) (Some (Inr [97])) (capture_client_context (\<lambda>c. [c]) upper_units sample_request)
       (Some [98, 99]) (Some 0) None = Inr e \<and> ev_args_text e = Some t \<and> length (utf8 t) \<le> 16384"
proof -
  obtain e where e: "build_event [1] [2] ''ok'' [3] (Some 5) (Some (Inr [97])) (capture_client_context (\<lambda>c. [c]) upper_units sample_request)
       (Some [98, 99]) (Some 0) None = Inr e" "ev_args_text e = Some [97]"
    by (simp add: build_event_def args_of_def truncate_utf8_def encode_utf8_def scalar_def utf8_char_def utf8_units_def args_text_limit_def output_preview_limit_def)
  with event_fields_bounded [OF e(1)] show ?thesis by blast
qed

end
