(* ===== verification/Audit_Call.thy ===== *)
theory Audit_Call
  imports Audit_Event
begin

text \<open>
  \<open>ClientContextMiddleware\<close> of \<open>src/remote_host_mcp/client_context.py\<close> and \<open>AuditMiddleware\<close> of
  \<open>src/remote_host_mcp/audit.py\<close> around the dispatch of a request.  A handler changes the state of the server and ends
  with a result or with an exception, of which the name of its class is seen.
\<close>

subsection \<open>Results\<close>

text \<open>A value of a handler: a plain value, a mapping, or an object with attributes.\<close>

datatype pyval =
    PNone
  | PBool bool
  | PInt int
  | PText ustr
  | PList "pyval list"
  | PMap "(string \<times> pyval) list"
  | PObj "(string \<times> pyval) list"

definition attr :: "string \<Rightarrow> pyval \<Rightarrow> pyval" where
  "attr name v = (case v of PObj a \<Rightarrow> (case map_of a name of None \<Rightarrow> PNone | Some x \<Rightarrow> x) | _ \<Rightarrow> PNone)"

definition map_get :: "string \<Rightarrow> pyval \<Rightarrow> pyval" where
  "map_get key v = (case v of PMap d \<Rightarrow> (case map_of d key of None \<Rightarrow> PNone | Some x \<Rightarrow> x) | _ \<Rightarrow> PNone)"

text \<open>\<open>d.get(key, d.get(other))\<close>\<close>

definition map_get2 :: "string \<Rightarrow> string \<Rightarrow> pyval \<Rightarrow> pyval" where
  "map_get2 key other v = (case v of PMap d \<Rightarrow> (case map_of d key of None \<Rightarrow> map_get other v | Some x \<Rightarrow> x) | _ \<Rightarrow> PNone)"

fun py_true :: "pyval \<Rightarrow> bool" where
  "py_true PNone = False"
| "py_true (PBool b) = b"
| "py_true (PInt i) = (i \<noteq> 0)"
| "py_true (PText s) = (s \<noteq> [])"
| "py_true (PList xs) = (xs \<noteq> [])"
| "py_true (PMap d) = (d \<noteq> [])"
| "py_true (PObj a) = True"

definition text_of_item :: "pyval \<Rightarrow> ustr option" where
  "text_of_item item =
     (case (if attr ''text'' item = PNone then map_get ''text'' item else attr ''text'' item) of PText t \<Rightarrow> Some t | _ \<Rightarrow> None)"

text \<open>\<open>"\n".join(parts)\<close>\<close>

fun join_lines :: "ustr list \<Rightarrow> ustr" where
  "join_lines [] = []"
| "join_lines [p] = p"
| "join_lines (p # ps) = p @ 10 # join_lines ps"

text \<open>Characters and keys have no text, so strings and mappings contribute nothing; other values are not iterable.\<close>

definition content_text :: "pyval \<Rightarrow> ustr res" where
  "content_text result =
     (let content = (if attr ''content'' result = PNone then map_get ''content'' result else attr ''content'' result) in
      if \<not> py_true content then Inr []
      else case content of
          PList items \<Rightarrow> Inr (join_lines (List.map_filter text_of_item items))
        | PText s \<Rightarrow> Inr []
        | PMap d \<Rightarrow> Inr []
        | _ \<Rightarrow> Inl (TypeError ''not iterable''))"

definition structured :: "pyval \<Rightarrow> pyval" where
  "structured result =
     (if attr ''structured_content'' result = PNone then map_get2 ''structuredContent'' ''structured_content'' result
      else attr ''structured_content'' result)"

definition is_error_result :: "pyval \<Rightarrow> bool" where
  "is_error_result result =
     py_true (if attr ''is_error'' result = PNone then map_get2 ''isError'' ''is_error'' result else attr ''is_error'' result)"

definition code_field :: "string \<Rightarrow> pyval \<Rightarrow> int option" where
  "code_field key s =
     (case (case s of PMap d \<Rightarrow> map_get key s | _ \<Rightarrow> attr key s) of PInt i \<Rightarrow> Some i | _ \<Rightarrow> None)"

definition extract_exit_code :: "pyval \<Rightarrow> int option" where
  "extract_exit_code result =
     (let s = structured result in
      if s = PNone then None
      else case code_field ''exit_code'' s of Some i \<Rightarrow> Some i | None \<Rightarrow> code_field ''exitCode'' s)"

subsection \<open>The middleware\<close>

record 's serving =
  sv_client :: client_context
  sv_log :: log_state
  sv_app :: 's

type_synonym 's handler = "'s serving \<Rightarrow> 's serving \<times> (ustr + pyval)"

definition bind_client :: "client_context \<Rightarrow> 's handler \<Rightarrow> 's handler" where
  "bind_client c inner w = (case inner (w\<lparr>sv_client := c\<rparr>) of (w1, r) \<Rightarrow> (w1\<lparr>sv_client := sv_client w\<rparr>, r))"

definition client_middleware :: "(nat \<Rightarrow> ustr) \<Rightarrow> (nat \<Rightarrow> ustr) \<Rightarrow> request option \<Rightarrow> 's handler \<Rightarrow> 's handler" where
  "client_middleware lo up rq inner =
     bind_client (case rq of None \<Rightarrow> no_client | Some r \<Rightarrow> capture_client_context lo up r) inner"

record call_context =
  cc_method :: string
  cc_request_id :: bool
  cc_params :: pyval

text \<open>What one call takes from its surroundings.\<close>

record surroundings =
  new_event_id :: ustr
  utc_now :: ustr
  elapsed_ms :: int
  dumps_args :: "pyval \<Rightarrow> ustr res"
  dumps_event :: "audit_event \<Rightarrow> ustr res"
  cases :: case_table

definition event_line :: "surroundings \<Rightarrow> audit_event \<Rightarrow> bytes option" where
  "event_line u e =
     (case and_then (dumps_event u e) (\<lambda>j. encode_utf8 (j @ [10])) of Inl _ \<Rightarrow> None | Inr b \<Rightarrow> Some b)"

definition call_event :: "surroundings \<Rightarrow> client_context \<Rightarrow> ustr \<Rightarrow> pyval \<Rightarrow> string \<Rightarrow> pyval \<Rightarrow> ustr option \<Rightarrow> audit_event res" where
  "call_event u client tool params status result error_code =
     (let arguments = (case map_get ''arguments'' params of PNone \<Rightarrow> None | a \<Rightarrow> Some (dumps_args u a)) in
      and_then (if result = PNone then Inr None else and_then (content_text result) (\<lambda>t. Inr (Some t))) (\<lambda>output.
        build_event (new_event_id u) tool status (utc_now u) (Some (elapsed_ms u)) arguments client output
          (if result = PNone then None else extract_exit_code result) error_code))"

definition emit_event :: "log_config \<Rightarrow> surroundings \<Rightarrow> ustr \<Rightarrow> pyval \<Rightarrow> string \<Rightarrow> pyval \<Rightarrow> ustr option \<Rightarrow> 's serving \<Rightarrow> 's serving" where
  "emit_event cfg u tool params status result error_code w =
     (case call_event u (sv_client w) tool params status result error_code of
        Inl _ \<Rightarrow> w
      | Inr e \<Rightarrow> w\<lparr>sv_log := fst (record_event cfg (event_line u e) (sv_log w))\<rparr>)"

text \<open>The name of the tool, if the request is a call of one.\<close>

definition tool_name_of :: "call_context \<Rightarrow> ustr option" where
  "tool_name_of cc =
     (if cc_method cc \<noteq> ''tools/call'' \<or> \<not> cc_request_id cc then None
      else case map_get ''name'' (cc_params cc) of PText n \<Rightarrow> if n = [] then None else Some n | _ \<Rightarrow> None)"

definition call_status :: "ustr + pyval \<Rightarrow> string" where
  "call_status r = (case r of Inl _ \<Rightarrow> ''error'' | Inr v \<Rightarrow> if is_error_result v then ''error'' else ''ok'')"

definition audit_middleware :: "log_config \<Rightarrow> surroundings \<Rightarrow> call_context \<Rightarrow> 's handler \<Rightarrow> 's handler" where
  "audit_middleware cfg u cc inner w =
     (case tool_name_of cc of
        None \<Rightarrow> inner w
      | Some tool \<Rightarrow>
          (case inner w of
             (w1, Inl exc) \<Rightarrow>
               (emit_event cfg u tool (cc_params cc) ''error'' PNone (Some (error_code_for (cases u) exc)) w1, Inl exc)
           | (w1, Inr result) \<Rightarrow>
               (emit_event cfg u tool (cc_params cc) (if is_error_result result then ''error'' else ''ok'') result None w1,
                Inr result)))"

text \<open>The two as the server stacks them, the identity outermost.\<close>

definition serve_call ::
    "(nat \<Rightarrow> ustr) \<Rightarrow> (nat \<Rightarrow> ustr) \<Rightarrow> log_config \<Rightarrow> surroundings \<Rightarrow> request option \<Rightarrow> call_context \<Rightarrow> 's handler \<Rightarrow> 's handler" where
  "serve_call lo up cfg u rq cc inner = client_middleware lo up rq (audit_middleware cfg u cc inner)"


subsection \<open>What the middleware does to a call\<close>

definition result_val :: "ustr + pyval \<Rightarrow> pyval" where
  "result_val r = (case r of Inl _ \<Rightarrow> PNone | Inr v \<Rightarrow> v)"

definition error_code_of :: "surroundings \<Rightarrow> ustr + pyval \<Rightarrow> ustr option" where
  "error_code_of u r = (case r of Inl exc \<Rightarrow> Some (error_code_for (cases u) exc) | Inr _ \<Rightarrow> None)"

lemma audit_middleware_eq:
  "audit_middleware cfg u cc inner w =
     (case inner w of (w1, r) \<Rightarrow>
        (case tool_name_of cc of None \<Rightarrow> w1
         | Some tool \<Rightarrow> emit_event cfg u tool (cc_params cc) (call_status r) (result_val r) (error_code_of u r) w1, r))"
  by (auto simp: audit_middleware_def call_status_def result_val_def error_code_of_def split: option.split prod.split sum.split)

lemma emit_event_only_logs:
  "sv_app (emit_event cfg u tool params status result code w) = sv_app w"
  "sv_client (emit_event cfg u tool params status result code w) = sv_client w"
  by (auto simp: emit_event_def split: sum.split)

definition caller :: "(nat \<Rightarrow> ustr) \<Rightarrow> (nat \<Rightarrow> ustr) \<Rightarrow> request option \<Rightarrow> client_context" where
  "caller lo up rq = (case rq of None \<Rightarrow> no_client | Some r \<Rightarrow> capture_client_context lo up r)"

lemma serve_call_eq:
  "serve_call lo up cfg u rq cc inner w =
     (case inner (w\<lparr>sv_client := caller lo up rq\<rparr>) of (w1, r) \<Rightarrow>
        ((case tool_name_of cc of None \<Rightarrow> w1
          | Some tool \<Rightarrow> emit_event cfg u tool (cc_params cc) (call_status r) (result_val r) (error_code_of u r) w1)
           \<lparr>sv_client := sv_client w\<rparr>, r))"
  by (simp add: serve_call_def client_middleware_def bind_client_def audit_middleware_eq caller_def split: prod.split)


lemma build_event_fields:
  "build_event new_id tool status started duration arguments context output exit_code code = Inr e \<Longrightarrow>
     ev_tool_name e = tool \<and> ev_status e = status \<and> ev_error_code e = code \<and> ev_exit_code e = exit_code
     \<and> ev_client_ip e = client_ip context"
  by (auto simp: build_event_def and_then_Inr)

lemma call_event_fields:
  "call_event u client tool params status result code = Inr e \<Longrightarrow>
     ev_tool_name e = tool \<and> ev_status e = status \<and> ev_error_code e = code \<and> ev_client_ip e = client_ip client
     \<and> ev_exit_code e = (if result = PNone then None else extract_exit_code result)"
  unfolding call_event_def Let_def and_then_Inr by (blast dest: build_event_fields)


definition sample_surroundings :: surroundings where
  "sample_surroundings =
     \<lparr>new_event_id = [99], utc_now = [50], elapsed_ms = 7, dumps_args = (\<lambda>a. Inr [123, 125]),
      dumps_event = (\<lambda>e. Inr (ev_tool_name e)), cases = ascii_table\<rparr>"

definition sample_call :: call_context where
  "sample_call = \<lparr>cc_method = ''tools/call'', cc_request_id = True, cc_params = PMap [(''name'', PText [65])]\<rparr>"

definition sample_handler :: "unit handler" where
  "sample_handler w = (w, Inr (PMap [(''isError'', PBool True)]))"


text \<open>A call whose output is not encodable runs and leaves no line.\<close>

theorem unencodable_output_unrecorded:
  assumes "tool_name_of cc = Some tool" "inner (w\<lparr>sv_client := caller lo up rq\<rparr>) = (w1, Inr v)" "v \<noteq> PNone"
    and "content_text v = Inr text" "\<not> list_all scalar text"
  shows "sv_log (fst (serve_call lo up cfg u rq cc inner w)) = sv_log w1"
proof -
  have "build_event i tool st t d a c (Some text) x y \<noteq> Inr e" for i st t d a c x y e
    using assms(5) by (auto simp: build_event_def and_then_Inr encode_utf8_def)
  then have "call_event u (sv_client w1) tool (cc_params cc) (call_status (Inr v)) v None \<noteq> Inr e" for e
    using assms(3,4) by (auto simp: call_event_def Let_def and_then_Inr)
  then show ?thesis
    by (auto simp: serve_call_eq assms(1,2) result_val_def error_code_of_def emit_event_def split: sum.split)
qed

end
