(* ===== verification/Ssh_Client.thy ===== *)
theory Ssh_Client
  imports Exec Run_Relation
begin

text \<open>
  The OpenSSH client of \<open>src/remote_host_mcp/ssh_helpers.py\<close>: validation of what names a host, the argument vectors, one run
  of \<open>ssh\<close> or \<open>scp\<close> with its shared output budget, \<open>ssh_check\<close> and \<open>ssh_exec\<close>.  What a run does to the remote host and
  to the private staging directory, and what the local child does, is the argument \<open>net\<close>; every vector that is run is
  recorded with its standard input.  \<open>ip\<close> is \<open>ipaddress.ip_address\<close> (the normal form of an address), \<open>which\<close> is
  \<open>shutil.which\<close>.
\<close>

subsection \<open>Validation\<close>

definition space_char :: "char \<Rightarrow> bool" where
  "space_char c = is_space (of_char c)"

definition host_char :: "char \<Rightarrow> bool" where
  "host_char c = (alnum c \<or> c \<in> {CHR ''.'', CHR ''_'', CHR ''-''})"

definition host_re :: "string \<Rightarrow> bool" where
  "host_re s = (1 \<le> length s \<and> length s \<le> 253 \<and> alnum (hd s) \<and> alnum (last s) \<and> list_all host_char s)"

definition host_error :: exn where
  "host_error = ValueError ''host must be an SSH config alias, DNS hostname, or IP address''"

definition validate_host :: "(string \<Rightarrow> string option) \<Rightarrow> string \<Rightarrow> string res" where
  "validate_host ip host =
     (let v = sstrip host in
      if v = [] \<or> hd v = CHR ''-'' \<or> list_ex space_char v then Inl host_error
      else case ip v of
          Some a \<Rightarrow> Inr a
        | None \<Rightarrow> if \<not> host_re v \<or> occurs ''..'' v then Inl host_error else Inr v)"

definition user_re :: "string \<Rightarrow> bool" where
  "user_re s =
     (s \<noteq> [] \<and> length s \<le> 64 \<and> (is_alpha (hd s) \<or> hd s = CHR ''_'') \<and> list_all host_char s)"

definition validate_user :: "string option \<Rightarrow> string option res" where
  "validate_user user =
     (case user of
        None \<Rightarrow> Inr None
      | Some u \<Rightarrow>
          let v = sstrip u in
          if user_re v then Inr (Some v) else Inl (ValueError ''user must be a conservative OpenSSH username''))"

definition validate_port :: "int option \<Rightarrow> int option res" where
  "validate_port pnum =
     (case pnum of
        Some p \<Rightarrow> if p < 1 \<or> 65535 < p then Inl (ValueError ''port must be between 1 and 65535'') else Inr pnum
      | None \<Rightarrow> Inr None)"

definition remote_char :: "char \<Rightarrow> bool" where
  "remote_char c = (alnum c \<or> c \<in> {CHR ''.'', CHR ''_'', CHR ''/'', CHR ''+'', CHR ''='', CHR '','', CHR ''@'', CHR ''%'', CHR '':'', CHR ''-''})"

definition validate_remote_path :: "string \<Rightarrow> string res" where
  "validate_remote_path path =
     (if \<not> (2 \<le> length path \<and> hd path = CHR ''/'' \<and> list_all remote_char (drop 1 path)) \<or> occurs ''//'' path
      then Inl (ValueError ''remote_path must be an absolute path using conservative POSIX filename characters'')
      else if list_ex (\<lambda>part. part = ''.'' \<or> part = ''..'') (filter (\<lambda>p. p \<noteq> []) (split_on CHR ''/'' path))
      then Inl (ValueError ''remote_path must not contain . or .. components'')
      else if 4096 < length path then Inl (ValueError ''remote_path is too long'')
      else Inr path)"

subsection \<open>Argument vectors\<close>

definition client_binary :: "(string \<Rightarrow> string option) \<Rightarrow> string \<Rightarrow> string res" where
  "client_binary which name =
     (case which name of
        Some b \<Rightarrow> if b = [] then Inl (ValueError (''OpenSSH client binary '' @ [CHR 0x27] @ name @ [CHR 0x27] @ '' is not installed'')) else Inr b
      | None \<Rightarrow> Inl (ValueError (''OpenSSH client binary '' @ [CHR 0x27] @ name @ [CHR 0x27] @ '' is not installed'')))"

definition option_list :: "int \<Rightarrow> string list" where
  "option_list t =
     [''-o'', ''BatchMode=yes'', ''-o'', ''PasswordAuthentication=no'', ''-o'', ''KbdInteractiveAuthentication=no'',
      ''-o'', ''StrictHostKeyChecking=yes'', ''-o'', ''UpdateHostKeys=no'', ''-o'', ''LogLevel=ERROR'',
      ''-o'', ''ConnectTimeout='' @ int_str t]"

definition ssh_options :: "int \<Rightarrow> string list res" where
  "ssh_options t =
     (if t < 1 \<or> 30 < t then Inl (ValueError ''connect_timeout_seconds must be between 1 and 30'') else Inr (option_list t))"

definition destination :: "string \<Rightarrow> string option \<Rightarrow> string" where
  "destination host user = (case user of Some u \<Rightarrow> if u \<noteq> [] then u @ ''@'' @ host else host | None \<Rightarrow> host)"

definition remote_spec :: "string \<Rightarrow> string option \<Rightarrow> string \<Rightarrow> string" where
  "remote_spec host user path =
     destination (if CHR '':'' \<in> set host then ''['' @ host @ '']'' else host) user @ '':'' @ path"

subsection \<open>One run\<close>

text \<open>\<open>_Budget.keep\<close>\<close>

definition keep_ssh :: "bytes \<Rightarrow> budget \<Rightarrow> budget \<times> bytes" where
  "keep_ssh data b =
     (let b1 = b\<lparr>bg_seen := bg_seen b + int (length data)\<rparr>;
          remaining = max 0 (bg_limit b1 - bg_used b1)
      in if remaining \<le> 0 then (if data \<noteq> [] then b1\<lparr>bg_truncated := True\<rparr> else b1, [])
         else (let chunk = take (nat remaining) data;
                   b2 = b1\<lparr>bg_used := bg_used b1 + int (length chunk)\<rparr>
               in (if remaining < int (length data) then b2\<lparr>bg_truncated := True\<rparr> else b2, chunk)))"

record run_outcome =
  ro_returncode :: "int option"
  ro_stdout :: ustr
  ro_stderr :: ustr
  ro_duration_ms :: int
  ro_timed_out :: bool
  ro_terminated_by :: "string option"
  ro_truncated :: bool
  ro_bytes_returned :: int
  ro_bytes_total :: int

text \<open>The child, with the exception of a start or of a write to its standard input that fails.\<close>

record ssh_child = child +
  broken :: exn

definition safe_env_names :: "string list" where
  "safe_env_names = [''PATH'', ''HOME'', ''LANG'', ''LC_ALL'', ''SSH_AUTH_SOCK'']"

definition ssh_safe_env :: "(string \<Rightarrow> string option) \<Rightarrow> (string \<times> string) list" where
  "ssh_safe_env environ =
     fold (\<lambda>k env. case environ k of Some v \<Rightarrow> if v \<noteq> [] then dict_set k v env else env | None \<Rightarrow> env) safe_env_names []"

definition outcome_of :: "settings \<Rightarrow> bool \<Rightarrow> ssh_child \<Rightarrow> run_outcome res" where
  "outcome_of st has_input c =
     (if \<not> spawns c \<or> has_input \<and> \<not> stdin_ok c then Inl (broken c)
      else case drain keep_ssh (child_reads c) (new_budget (max_output_bytes st)) of (b, out, er) \<Rightarrow>
        let late = \<not> exits_in_time c in
        Inr \<lparr>ro_returncode = return_code c,
             ro_stdout = redact_key (path_key st) (decode_replace out), ro_stderr = redact_key (path_key st) (decode_replace er),
             ro_duration_ms = elapsed_ms c, ro_timed_out = late,
             ro_terminated_by = (if late then terminate_group False (child.truncate c) else None),
             ro_truncated = bg_truncated b, ro_bytes_returned = bg_used b, ro_bytes_total = bg_seen b\<rparr>)"

text \<open>The state: the files of the private directory \<open>state_dir/ssh\<close>, the remote side, and what has been run.\<close>

type_synonym staged = "(string \<times> node) list"

record 'r ssh_world =
  sw_files :: world
  sw_stage :: staged
  sw_remote :: 'r
  sw_ran :: "(string list \<times> bytes option) list"

type_synonym ('r, 'a) hrun = "('r ssh_world, 'a) run"

type_synonym 'r net = "string list \<Rightarrow> bytes option \<Rightarrow> staged \<times> 'r \<Rightarrow> (staged \<times> 'r) \<times> ssh_child"

definition run_process :: "settings \<Rightarrow> 'r net \<Rightarrow> string list \<Rightarrow> bytes option \<Rightarrow> ('r, run_outcome) hrun" where
  "run_process st net argv input w =
     (case net argv input (sw_stage w, sw_remote w) of ((stage, r), c) \<Rightarrow>
        (w\<lparr>sw_stage := stage, sw_remote := r, sw_ran := sw_ran w @ [(argv, input)]\<rparr>, outcome_of st (input \<noteq> None) c))"

definition port_args :: "string \<Rightarrow> int option \<Rightarrow> string list" where
  "port_args flag pnum = (case pnum of Some p \<Rightarrow> [flag, int_str p] | None \<Rightarrow> [])"

definition ssh_vector :: "string \<Rightarrow> string \<Rightarrow> string option \<Rightarrow> int option \<Rightarrow> int \<Rightarrow> string list" where
  "ssh_vector ssh host user pnum t = ssh # option_list t @ port_args ''-p'' pnum @ [destination host user, ''sh'', ''-s'', ''--'']"

definition run_ssh_script ::
    "settings \<Rightarrow> (string \<Rightarrow> string option) \<Rightarrow> 'r net \<Rightarrow> string \<Rightarrow> string option \<Rightarrow> int option \<Rightarrow> int \<Rightarrow> bytes \<Rightarrow> ('r, run_outcome) hrun" where
  "run_ssh_script st which net host user pnum t script =
     bind_prog (lift_res (client_binary which ''ssh'')) (\<lambda>ssh.
     bind_prog (lift_res (ssh_options t)) (\<lambda>opts.
       run_process st net (ssh # opts @ port_args ''-p'' pnum @ [destination host user, ''sh'', ''-s'', ''--'']) (Some script)))"

subsection \<open>\<open>ssh_check\<close> and \<open>ssh_exec\<close>\<close>

record ssh_check_result =
  sk_success :: bool
  sk_host :: string
  sk_port :: "int option"
  sk_user :: "string option"
  sk_duration_ms :: int
  sk_error :: "tool_error option"

definition target_of ::
    "(string \<Rightarrow> string option) \<Rightarrow> string \<Rightarrow> string option \<Rightarrow> int option \<Rightarrow> (string \<times> string option \<times> int option) res" where
  "target_of ip host user pnum =
     and_then (validate_host ip host) (\<lambda>h.
     and_then (validate_user user) (\<lambda>u.
     and_then (validate_port pnum) (\<lambda>p. Inr (h, u, p))))"

definition ok_outcome :: "run_outcome \<Rightarrow> bool" where
  "ok_outcome o1 = (\<not> ro_timed_out o1 \<and> ro_returncode o1 = Some 0)"

definition ssh_check ::
    "(string \<Rightarrow> string option) \<Rightarrow> settings \<Rightarrow> (string \<Rightarrow> string option) \<Rightarrow> 'r net \<Rightarrow> string \<Rightarrow> string option \<Rightarrow> int option \<Rightarrow> int
       \<Rightarrow> ('r, ssh_check_result) hrun" where
  "ssh_check ip st which net host user pnum t =
     bind_prog (lift_res (target_of ip host user pnum)) (\<lambda>(h, u, p).
     bind_prog (run_ssh_script st which net h u p t (''exit 0'' @ [CHR 0x0A])) (\<lambda>out. ret
       \<lparr>sk_success = ok_outcome out, sk_host = h, sk_port = p, sk_user = u, sk_duration_ms = ro_duration_ms out,
        sk_error = (if ok_outcome out then None
                    else Some \<lparr>err_code = ''SSH_CONNECT_FAILED'', err_message = ''SSH connection/authentication failed''\<rparr>)\<rparr>))"

record ssh_exec_result =
  se_success :: bool
  se_host :: string
  se_port :: "int option"
  se_user :: "string option"
  se_exit_code :: "int option"
  se_stdout :: ustr
  se_stderr :: ustr
  se_duration_ms :: int
  se_timed_out :: bool
  se_terminated_by :: "string option"
  se_truncated :: bool
  se_bytes_returned :: int
  se_bytes_total :: int
  se_error :: "tool_error option"

definition exec_failure :: "run_outcome \<Rightarrow> tool_error option" where
  "exec_failure out =
     (if ro_timed_out out
      then Some \<lparr>err_code = ''SSH_TIMEOUT'', err_message = ''Remote command exceeded timeout and the local SSH client was terminated''\<rparr>
      else if ro_returncode out \<noteq> Some 0
      then Some \<lparr>err_code = ''SSH_NONZERO_EXIT'', err_message = ''Remote command exited with code ''
             @ (case ro_returncode out of Some i \<Rightarrow> int_str i | None \<Rightarrow> ''None'')\<rparr>
      else None)"

definition ssh_exec ::
    "(string \<Rightarrow> string option) \<Rightarrow> settings \<Rightarrow> (string \<Rightarrow> string option) \<Rightarrow> 'r net \<Rightarrow> string \<Rightarrow> string option \<Rightarrow> int option \<Rightarrow> ustr
       \<Rightarrow> int \<Rightarrow> int option \<Rightarrow> ('r, ssh_exec_result) hrun" where
  "ssh_exec ip st which net host user pnum command t timeout =
     bind_prog (lift_res (target_of ip host user pnum)) (\<lambda>(h, u, p).
     bind_prog (lift_res (encode_utf8 command)) (\<lambda>command_bytes.
     bind_prog (check (\<not> (strip command = [] \<or> CHR 0x00 \<in> set command_bytes \<or> max_command_bytes st < int (length command_bytes)))
                  ''command is empty, contains NUL, or exceeds the configured UTF-8 byte limit'') (\<lambda>_.
     bind_prog (check (\<not> (effective_timeout st timeout < 1000 \<or> max_timeout_ms st < effective_timeout st timeout))
                  (timeout_message st)) (\<lambda>_.
     bind_prog (run_ssh_script st which net h u p t (command_bytes @ [CHR 0x0A])) (\<lambda>out. ret
       \<lparr>se_success = ok_outcome out, se_host = h, se_port = p, se_user = u, se_exit_code = ro_returncode out,
        se_stdout = ro_stdout out, se_stderr = ro_stderr out, se_duration_ms = ro_duration_ms out,
        se_timed_out = ro_timed_out out, se_terminated_by = ro_terminated_by out, se_truncated = ro_truncated out,
        se_bytes_returned = ro_bytes_returned out, se_bytes_total = ro_bytes_total out, se_error = exec_failure out\<rparr>)))))"

subsection \<open>The budget of a run\<close>


interpretation ssh_budget: output_budget keep_ssh bg_used bg_seen bg_limit bg_truncated
  by unfold_locales (auto simp: keep_ssh_def Let_def split: if_split_asm)

text \<open>The third copy of the budget is the same function as the other two.\<close>

lemma keep_ssh_eq: "keep_ssh = keep_exec"
  by (intro ext) (simp add: keep_ssh_def keep_exec_def)

lemma outcome_within_budget:
  assumes "outcome_of st has_input c = Inr out" "0 \<le> max_output_bytes st"
  shows "ro_bytes_returned out = min (max_output_bytes st) (ro_bytes_total out)
    \<and> (ro_truncated out \<longleftrightarrow> max_output_bytes st < ro_bytes_total out) \<and> 0 \<le> ro_bytes_returned out"
proof -
  obtain b so se where d: "drain keep_ssh (child_reads c) (new_budget (max_output_bytes st)) = (b, so, se)" by (metis prod_cases3)
  have "bg_used (new_budget (max_output_bytes st)) \<le> bg_limit (new_budget (max_output_bytes st))" using assms(2) by (simp add: new_budget_def)
  note counts = ssh_budget.drain_counts [OF d this]
  have n: "bg_used (new_budget n) = 0" "bg_seen (new_budget n) = 0" "bg_limit (new_budget n) = n" "\<not> bg_truncated (new_budget n)" for n
    by (simp_all add: new_budget_def)
  have "ro_bytes_returned out = bg_used b" "ro_bytes_total out = bg_seen b" "ro_truncated out = bg_truncated b"
    using assms(1) by (auto simp: outcome_of_def d Let_def split: if_splits)
  with counts n assms(2) show ?thesis by auto
qed

subsection \<open>What is run\<close>

definition plain_word :: "string \<Rightarrow> bool" where
  "plain_word s \<longleftrightarrow> s \<noteq> [] \<and> hd s \<noteq> CHR ''-'' \<and> \<not> list_ex space_char s"

text \<open>The normal form of an address is a word of its own.\<close>

definition ip_ok :: "(string \<Rightarrow> string option) \<Rightarrow> bool" where
  "ip_ok ip \<longleftrightarrow> (\<forall>s a. ip s = Some a \<longrightarrow> plain_word s \<longrightarrow> plain_word a)"

lemma of_char_digits: "(of_char c :: nat) \<in> {48..57} \<Longrightarrow> \<not> space_char c"
  by (auto simp: space_char_def is_space_def)

lemma alnum_plain: "alnum c \<Longrightarrow> \<not> space_char c \<and> c \<noteq> CHR ''-'' \<and> c \<noteq> CHR ''@''"
proof -
  assume "alnum c"
  then have "(of_char c :: nat) \<in> {48..57} \<or> (of_char c :: nat) \<in> {65..90} \<or> (of_char c :: nat) \<in> {97..122}"
    by (auto simp: alnum_def is_alpha_def Let_def)
  then show ?thesis by (auto simp: space_char_def is_space_def)
qed

lemma host_char_plain: "host_char c \<Longrightarrow> \<not> space_char c \<and> c \<noteq> CHR ''@''"
  unfolding host_char_def using alnum_plain by (auto simp: space_char_def is_space_def)

lemma validate_host_plain:
  assumes "ip_ok ip" "validate_host ip host = Inr h"
  shows "plain_word h"
  using assms by (auto simp: validate_host_def ip_ok_def plain_word_def Let_def split: if_splits option.splits)

lemma validate_user_chars: "validate_user user = Inr (Some u) \<Longrightarrow> u \<noteq> [] \<and> hd u \<noteq> CHR ''-'' \<and> list_all host_char u"
  using alnum_plain [of "hd u"] by (auto simp: validate_user_def user_re_def Let_def alnum_def split: option.splits if_splits)

lemma destination_plain:
  assumes "plain_word h" "user = None \<or> (\<exists>u. user = Some u \<and> u \<noteq> [] \<and> hd u \<noteq> CHR ''-'' \<and> list_all host_char u)"
  shows "plain_word (destination h user)"
  using assms host_char_plain
  by (auto simp: destination_def plain_word_def list_ex_iff list_all_iff space_char_def is_space_def hd_append split: option.split)

lemma target_of_plain:
  assumes "ip_ok ip" "target_of ip host user pnum = Inr (h, u, p)"
  shows "plain_word (destination h u)"
proof (rule destination_plain)
  show "plain_word h" using assms by (auto simp: target_of_def and_then_Inr intro: validate_host_plain)
  show "u = None \<or> (\<exists>v. u = Some v \<and> v \<noteq> [] \<and> hd v \<noteq> CHR ''-'' \<and> list_all host_char v)"
    using assms(2) validate_user_chars [of user] by (cases u) (auto simp: target_of_def and_then_Inr)
qed

lemma script_ran:
  assumes "run_ssh_script st which net h u p t script w = (w', r)"
  shows "sw_ran w' = sw_ran w \<or>
    (\<exists>ssh. which ''ssh'' = Some ssh \<and> 1 \<le> t \<and> t \<le> 30 \<and> sw_ran w' = sw_ran w @ [(ssh_vector ssh h u p t, Some script)])"
  using assms
  by (auto simp: run_ssh_script_def bind_prog_def lift_res_def client_binary_def ssh_options_def run_process_def ssh_vector_def
      split: option.splits if_splits prod.splits)

text \<open>C23. \<open>ssh_exec\<close> runs at most one local process, with a vector that the command has no part in: \<open>ssh\<close>, the fixed options
  with host keys checked and no password asked, a port, one destination word that is no option, and \<open>sh -s --\<close>; the
  command travels on its standard input.\<close>

theorem ssh_command_not_in_argv:
  assumes "ip_ok ip" "ssh_exec ip st which net host user pnum command t timeout w = (w', r)"
  shows "sw_ran w' = sw_ran w \<or>
    (\<exists>ssh h u p. which ''ssh'' = Some ssh \<and> target_of ip host user pnum = Inr (h, u, p) \<and> plain_word (destination h u)
      \<and> 1 \<le> t \<and> t \<le> 30 \<and> list_all scalar command
      \<and> sw_ran w' = sw_ran w @ [(ssh # option_list t @ port_args ''-p'' p @ [destination h u, ''sh'', ''-s'', ''--''],
            Some (utf8 command @ [CHR 0x0A]))])"
proof (cases "target_of ip host user pnum")
  case (Inl e)
  with assms(2) show ?thesis by (simp add: ssh_exec_def prog_defs)
next
  case (Inr hup)
  obtain h u p where hup: "hup = (h, u, p)" by (cases hup)
  show ?thesis
  proof (cases "sw_ran w' = sw_ran w")
    case False
    have enc: "list_all scalar command" "encode_utf8 command = Inr (utf8 command)"
      using assms(2) False Inr hup by (auto simp: ssh_exec_def bind_prog_def lift_res_def encode_utf8_def split: if_splits)
    obtain w1 q where run: "run_ssh_script st which net h u p t (utf8 command @ [CHR 0x0A]) w = (w1, q)" by fastforce
    then have "sw_ran w' = sw_ran w1"
      using assms(2) False Inr hup enc(2)
      by (auto simp: ssh_exec_def bind_prog_def lift_res_def check_def ret_def raise_def split: if_splits sum.splits prod.splits)
    with script_ran [OF run] False enc(1) target_of_plain [OF assms(1)] Inr hup show ?thesis by (auto simp: ssh_vector_def)
  qed simp
qed

subsection \<open>Which host is contacted\<close>

text \<open>\<open>ssh\<close> takes the part of its destination after the last at sign for the host.\<close>

definition contacted :: "string \<Rightarrow> string" where
  "contacted dest = rev (takeWhile (\<lambda>c. c \<noteq> CHR ''@'') (rev dest))"

lemma contacted_suffix: "CHR ''@'' \<notin> set h \<Longrightarrow> contacted (a @ ''@'' @ h) = h" "CHR ''@'' \<notin> set h \<Longrightarrow> contacted h = h"
proof -
  assume h: "CHR ''@'' \<notin> set h"
  then have t: "takeWhile (\<lambda>c. c \<noteq> CHR ''@'') (rev h) = rev h" by (subst takeWhile_eq_all_conv) auto
  then show "contacted h = h" unfolding contacted_def by (simp only: rev_rev_ident)
  have "takeWhile (\<lambda>c. c \<noteq> CHR ''@'') (rev h @ CHR ''@'' # rev a) = rev h" using h by (subst takeWhile_append2) auto
  then show "contacted (a @ ''@'' @ h) = h" by (simp add: contacted_def)
qed

text \<open>The check of the host does not confine it: an IPv6 address whose scope contains an at sign is accepted, and the host
  that is contacted is what follows the sign.\<close>

theorem scoped_address_names_another_host:
  assumes "s = addr @ ''%x@'' @ evil" "ip s = Some s" "sstrip s = s" "plain_word s" "CHR ''@'' \<notin> set evil"
  shows "validate_host ip s = Inr s \<and> contacted (destination s u) = evil"
proof
  show "validate_host ip s = Inr s"
    using assms(2-4) by (simp add: validate_host_def plain_word_def)
  have "destination s u = (case u of Some v \<Rightarrow> if v \<noteq> [] then v @ ''@'' @ addr @ ''%x'' else addr @ ''%x'' | None \<Rightarrow> addr @ ''%x'') @ ''@'' @ evil"
    by (simp add: destination_def assms(1) split: option.split)
  then show "contacted (destination s u) = evil" by (simp only: contacted_suffix(1) [OF assms(5)])
qed

lemma host_is_contacted:
  assumes "validate_host ip host = Inr h" "ip (sstrip host) = None"
  shows "contacted (destination h u) = h"
proof -
  from assms have "list_all host_char h" by (auto simp: validate_host_def host_re_def Let_def split: if_splits)
  then have "CHR ''@'' \<notin> set h" using host_char_plain by (auto simp: list_all_iff)
  from contacted_suffix [OF this] show ?thesis by (auto simp: destination_def split: option.split)
qed


definition ok_child :: "bytes \<Rightarrow> ssh_child" where
  "ok_child out =
     \<lparr>spawns = True, stdin_ok = True, exits_in_time = True, group_gone = False, exits_in_grace = True, child_reads = [(False, out)],
      return_code = Some 0, elapsed_ms = 1, broken = RuntimeError ''no''\<rparr>"

definition no_files :: world where
  "no_files = \<lparr>disk = \<lparr>inodes = (\<lambda>i. None), fresh_ino = 0, fs_now = 0\<rparr>, schedule = []\<rparr>"

theorem ssh_command_not_in_argv_witness:
  "let w = \<lparr>sw_files = no_files, sw_stage = [], sw_remote = (), sw_ran = []\<rparr>;
       w' = fst (ssh_exec (\<lambda>s. None) sample_settings (\<lambda>n. Some (''/usr/bin/'' @ n)) (\<lambda>argv input sr. (sr, ok_child [])) ''host'' None (Some 22) [108, 115] 5 None w)
   in length (sw_ran w') \<le> 1 \<and> (\<forall>run \<in> set (sw_ran w'). hd (fst run) = ''/usr/bin/ssh'')"
  unfolding Let_def
  using ssh_command_not_in_argv [of "\<lambda>s. None" sample_settings "\<lambda>n. Some (''/usr/bin/'' @ n)" "\<lambda>argv input sr. (sr, ok_child [])" "''host''" None "Some 22" "[108, 115]" 5 None
      "\<lparr>sw_files = no_files, sw_stage = [], sw_remote = (), sw_ran = []\<rparr>", OF _ prod.collapse [symmetric]]
  by (auto simp: ip_ok_def)

theorem scoped_address_names_another_host_witness:
  "validate_host (\<lambda>s. Some s) ''::1%x@evil'' = Inr ''::1%x@evil'' \<and> contacted (destination ''::1%x@evil'' (Some ''root'')) = ''evil''"
proof -
  have "plain_word ''::1%x@evil''" "sstrip ''::1%x@evil'' = ''::1%x@evil''"
    by (simp_all add: plain_word_def space_char_def is_space_def sstrip_def)
  then show ?thesis using scoped_address_names_another_host [of "''::1%x@evil''" "''::1''" "''evil''" "\<lambda>s. Some s" "Some ''root''"] by simp
qed

end
