(* ===== verification/Ssh_Transfer.thy ===== *)
theory Ssh_Transfer
  imports Ssh_Client File_Write Argv_Redact
begin

text \<open>
  File transfers of \<open>src/remote_host_mcp/ssh_helpers.py\<close>: \<open>ssh_upload\<close> freezes the local file, copies it with \<open>scp\<close> to a
  staging name beside the remote target, publishes it there by a script and verifies its digest; \<open>ssh_download\<close> copies to
  the private directory, verifies, and publishes locally by a rename.  \<open>sha\<close> is SHA-256, \<open>token\<close> the random
  suffixes; clocks are left out of the results, and the private directory does not fail.
\<close>

definition with_files :: "'a prog \<Rightarrow> ('r, 'a) hrun" where
  "with_files p s = (case p (sw_files s) of (w, r) \<Rightarrow> (s\<lparr>sw_files := w\<rparr>, r))"

subsection \<open>The private copy\<close>

definition stage_put :: "string \<Rightarrow> bytes \<Rightarrow> ('r, unit) hrun" where
  "stage_put name data s = (s\<lparr>sw_stage := dict_set name (Reg data) (sw_stage s)\<rparr>, Inr ())"

definition stage_drop :: "string \<Rightarrow> ('r, unit) hrun" where
  "stage_drop name s = (s\<lparr>sw_stage := dict_pop name (sw_stage s)\<rparr>, Inr ())"

text \<open>\<open>_freeze_allowed_file\<close>: name, size and digest of the copy.\<close>

definition freeze_allowed_file ::
    "(bytes \<Rightarrow> string) \<Rightarrow> settings \<Rightarrow> path_env \<Rightarrow> kernel \<Rightarrow> string \<Rightarrow> string \<Rightarrow> ('r, string \<times> int \<times> string) hrun" where
  "freeze_allowed_file sha st env k stage path =
     bind_prog (with_files (open_beneath st env k path False True)) (\<lambda>fd.
     bind_prog (with_files (fstat_regular fd ''Path is not a regular file'')) (\<lambda>m.
     bind_prog (check (\<not> max_transfer_bytes st < st_size m) (''File exceeds transfer limit '' @ int_str (max_transfer_bytes st))) (\<lambda>_.
     bind_prog (with_files (read_fd_all fd)) (\<lambda>data.
     bind_prog (stage_put stage data) (\<lambda>_. ret (stage, int (length data), sha data))))))"

subsection \<open>Scripts\<close>

definition shell_safe :: "char \<Rightarrow> bool" where
  "shell_safe c = (alnum c \<or> c \<in> {CHR ''_'', CHR ''@'', CHR ''%'', CHR ''+'', CHR ''='', CHR '':'', CHR '','', CHR ''.'', CHR ''/'', CHR ''-''})"

text \<open>\<open>shlex.quote\<close>\<close>

definition shlex_quote :: "string \<Rightarrow> string" where
  "shlex_quote s =
     (if s = [] then [CHR 0x27, CHR 0x27]
      else if list_all shell_safe s then s
      else [CHR 0x27] @ replace_all [CHR 0x27] [CHR 0x27, CHR 0x22, CHR 0x27, CHR 0x22, CHR 0x27] s @ [CHR 0x27])"

definition nl :: string where
  "nl = [CHR 0x0A]"

definition quoted :: "string \<Rightarrow> string" where
  "quoted s = [CHR 0x27] @ s @ [CHR 0x27]"

definition info_script :: "string \<Rightarrow> bytes" where
  "info_script path =
     ''set -eu'' @ nl @ ''stat -c '' @ quoted ''%s'' @ '' -- '' @ shlex_quote path @ nl
       @ ''sha256sum -- '' @ shlex_quote path @ '' | cut -d '' @ quoted '' '' @ '' -f1'' @ nl"

definition remove_script :: "string \<Rightarrow> bytes" where
  "remove_script temp = ''rm -f -- '' @ shlex_quote temp @ nl"

definition move_script :: "string \<Rightarrow> string \<Rightarrow> bytes" where
  "move_script temp path = ''set -eu'' @ nl @ ''mv -fT -- '' @ shlex_quote temp @ '' '' @ shlex_quote path @ nl"

definition link_script :: "string \<Rightarrow> string \<Rightarrow> bytes" where
  "link_script temp path =
     ''set -eu'' @ nl @ ''ln -- '' @ shlex_quote temp @ '' '' @ shlex_quote path @ nl @ ''rm -f -- '' @ shlex_quote temp @ nl"

text \<open>Where a transfer goes.\<close>

record link =
  lk_host :: string
  lk_user :: "string option"
  lk_port :: "int option"
  lk_connect_timeout :: int

definition script_on :: "settings \<Rightarrow> (string \<Rightarrow> string option) \<Rightarrow> 'r net \<Rightarrow> link \<Rightarrow> bytes \<Rightarrow> ('r, run_outcome) hrun" where
  "script_on st which net l script = run_ssh_script st which net (lk_host l) (lk_user l) (lk_port l) (lk_connect_timeout l) script"

text \<open>\<open>_remote_file_info\<close>: \<open>dg\<close> is \<open>str.isdigit\<close> on one character, \<open>ud\<close> the digit table of \<open>int\<close>.\<close>

definition hex_digest :: "ustr \<Rightarrow> bool" where
  "hex_digest s = (length s = 64 \<and> list_all (\<lambda>c. 97 \<le> c \<and> c \<le> 102 \<or> 48 \<le> c \<and> c \<le> 57) s)"

definition text_lines :: "ustr \<Rightarrow> ustr list" where
  "text_lines out = filter (\<lambda>l. l \<noteq> []) (map strip (splitlines_keep out))"

definition parse_info :: "(nat \<Rightarrow> bool) \<Rightarrow> (nat \<Rightarrow> nat option) \<Rightarrow> run_outcome \<Rightarrow> (int option \<times> ustr option) res" where
  "parse_info dg ud out =
     (case text_lines (ro_stdout out) of
        l1 # l2 # ls \<Rightarrow>
          if ro_returncode out \<noteq> Some 0 \<or> \<not> list_all dg l1 then Inr (None, None)
          else (case py_int ud l1 of
              None \<Rightarrow> Inl (ValueError ''invalid literal for int() with base 10'')
            | Some n \<Rightarrow> if hex_digest (map ascii_lower l2) then Inr (Some n, Some (map ascii_lower l2)) else Inr (None, None))
      | _ \<Rightarrow> Inr (None, None))"

definition remote_file_info ::
    "(nat \<Rightarrow> bool) \<Rightarrow> (nat \<Rightarrow> nat option) \<Rightarrow> settings \<Rightarrow> (string \<Rightarrow> string option) \<Rightarrow> 'r net \<Rightarrow> link \<Rightarrow> string
       \<Rightarrow> ('r, int option \<times> ustr option \<times> run_outcome) hrun" where
  "remote_file_info dg ud st which net l path =
     bind_prog (script_on st which net l (info_script path)) (\<lambda>out.
     bind_prog (lift_res (parse_info dg ud out)) (\<lambda>(n, d). ret (n, d, out)))"

definition cleanup_remote_temp :: "settings \<Rightarrow> (string \<Rightarrow> string option) \<Rightarrow> 'r net \<Rightarrow> link \<Rightarrow> string \<Rightarrow> ('r, unit) hrun" where
  "cleanup_remote_temp st which net l temp = on_error (script_on st which net l (remove_script temp)) (\<lambda>_. ret ()) (\<lambda>_. ret ())"

subsection \<open>Results\<close>

datatype direction = Upload | Download

record ssh_transfer_result =
  st_success :: bool
  st_direction :: direction
  st_link :: link
  st_local_path :: string
  st_remote_path :: string
  st_bytes :: int
  st_sha256 :: "string option"
  st_replaced :: bool
  st_error :: "tool_error option"

definition transfer_failed :: "direction \<Rightarrow> link \<Rightarrow> string \<Rightarrow> string \<Rightarrow> int \<Rightarrow> string option \<Rightarrow> bool \<Rightarrow> string \<Rightarrow> string \<Rightarrow> ssh_transfer_result" where
  "transfer_failed d l local remote n digest replaced code message =
     \<lparr>st_success = False, st_direction = d, st_link = l, st_local_path = local, st_remote_path = remote, st_bytes = n,
      st_sha256 = digest, st_replaced = replaced, st_error = Some \<lparr>err_code = code, err_message = message\<rparr>\<rparr>"

definition transfer_done :: "direction \<Rightarrow> link \<Rightarrow> string \<Rightarrow> string \<Rightarrow> int \<Rightarrow> string \<Rightarrow> bool \<Rightarrow> ssh_transfer_result" where
  "transfer_done d l local remote n digest replaced =
     \<lparr>st_success = True, st_direction = d, st_link = l, st_local_path = local, st_remote_path = remote, st_bytes = n,
      st_sha256 = Some digest, st_replaced = replaced, st_error = None\<rparr>"

subsection \<open>\<open>ssh_upload\<close>\<close>

text \<open>\<open>posixpath.join(posixpath.dirname(path) or "/", f".{basename}.rhmcp-{token}.part")\<close>\<close>

definition dirname :: "string \<Rightarrow> string" where
  "dirname path =
     (let d = rev (dropWhile (\<lambda>c. c \<noteq> CHR ''/'') (rev path)) in
      if list_all (\<lambda>c. c = CHR ''/'') d then d else rev (dropWhile (\<lambda>c. c = CHR ''/'') (rev d)))"

definition basename :: "string \<Rightarrow> string" where
  "basename path = rev (takeWhile (\<lambda>c. c \<noteq> CHR ''/'') (rev path))"

definition posix_join :: "string \<Rightarrow> string \<Rightarrow> string" where
  "posix_join a b =
     (if b \<noteq> [] \<and> hd b = CHR ''/'' then b else if a = [] \<or> last a = CHR ''/'' then a @ b else a @ ''/'' @ b)"

definition remote_temp_name :: "string \<Rightarrow> string \<Rightarrow> string" where
  "remote_temp_name path token =
     posix_join (if dirname path = [] then ''/'' else dirname path) (''.'' @ basename path @ ''.rhmcp-'' @ token @ ''.part'')"

definition scp_upload_vector :: "string \<Rightarrow> link \<Rightarrow> string \<Rightarrow> string \<Rightarrow> string list" where
  "scp_upload_vector scp l frozen temp =
     scp # option_list (lk_connect_timeout l) @ [''-q''] @ port_args ''-P'' (lk_port l)
       @ [''--'', frozen, remote_spec (lk_host l) (lk_user l) temp]"

definition bad_run :: "run_outcome \<Rightarrow> bool" where
  "bad_run out = (ro_timed_out out \<or> ro_returncode out \<noteq> Some 0)"

text \<open>After the publication: the remote file must have the size and digest of the frozen copy.\<close>

definition verify_upload ::
    "(nat \<Rightarrow> bool) \<Rightarrow> (nat \<Rightarrow> nat option) \<Rightarrow> settings \<Rightarrow> path_env \<Rightarrow> (string \<Rightarrow> string option) \<Rightarrow> 'r net \<Rightarrow> link \<Rightarrow> string \<Rightarrow> string
       \<Rightarrow> bool \<Rightarrow> int \<Rightarrow> string \<Rightarrow> ('r, ssh_transfer_result) hrun" where
  "verify_upload dg ud st env which net l local path overwrite sz digest =
     bind_prog (remote_file_info dg ud st which net l path) (\<lambda>(remote_size, remote_digest, hashed).
     bind_prog (with_files (resolved_str st env local)) (\<lambda>p. ret
       (if ro_returncode hashed \<noteq> Some 0 \<or> remote_size \<noteq> Some sz \<or> remote_digest \<noteq> Some (ustr_of digest)
        then transfer_failed Upload l p path sz (Some digest) overwrite ''SSH_HASH_MISMATCH''
               ''Remote SHA-256 verification failed after upload''
        else transfer_done Upload l p path sz digest overwrite)))"

text \<open>From the frozen copy to the result; \<open>local\<close> is resolved anew for each result.\<close>

definition upload_frozen ::
    "(nat \<Rightarrow> bool) \<Rightarrow> (nat \<Rightarrow> nat option) \<Rightarrow> settings \<Rightarrow> path_env \<Rightarrow> (string \<Rightarrow> string option) \<Rightarrow> 'r net \<Rightarrow> link \<Rightarrow> string \<Rightarrow> string
       \<Rightarrow> string \<Rightarrow> bool \<Rightarrow> string \<Rightarrow> int \<Rightarrow> string \<Rightarrow> ('r, ssh_transfer_result) hrun" where
  "upload_frozen dg ud st env which net l local path temp overwrite frozen sz digest =
     (let local_str = with_files (resolved_str st env local) in
      bind_prog (lift_res (client_binary which ''scp'')) (\<lambda>scp.
      bind_prog (lift_res (ssh_options (lk_connect_timeout l))) (\<lambda>opts.
      bind_prog (run_process st net
                   (scp # opts @ [''-q''] @ port_args ''-P'' (lk_port l) @ [''--'', frozen, remote_spec (lk_host l) (lk_user l) temp]) None)
        (\<lambda>copied.
         if bad_run copied
         then bind_prog (cleanup_remote_temp st which net l temp) (\<lambda>_.
              bind_prog local_str (\<lambda>p. ret
                (transfer_failed Upload l p path 0 (Some digest) False ''SSH_TRANSFER_FAILED'' ''SCP upload to remote staging failed'')))
         else
           bind_prog (script_on st which net l (if overwrite then move_script temp path else link_script temp path)) (\<lambda>committed.
             if bad_run committed
             then bind_prog (cleanup_remote_temp st which net l temp) (\<lambda>_.
                  bind_prog local_str (\<lambda>p. ret
                    (transfer_failed Upload l p path 0 (Some digest) False ''SSH_REMOTE_COMMIT_FAILED'' ''Remote publication failed'')))
             else
               verify_upload dg ud st env which net l local path overwrite sz digest)))))"

definition ssh_upload ::
    "(bytes \<Rightarrow> string) \<Rightarrow> (nat \<Rightarrow> bool) \<Rightarrow> (nat \<Rightarrow> nat option) \<Rightarrow> (string \<Rightarrow> string option) \<Rightarrow> settings \<Rightarrow> path_env \<Rightarrow> kernel
       \<Rightarrow> (string \<Rightarrow> string option) \<Rightarrow> 'r net \<Rightarrow> string \<Rightarrow> string \<Rightarrow> string \<Rightarrow> string option \<Rightarrow> int option \<Rightarrow> string \<Rightarrow> string \<Rightarrow> int
       \<Rightarrow> int \<Rightarrow> bool \<Rightarrow> ('r, ssh_transfer_result) hrun" where
  "ssh_upload sha dg ud ip st env k which net frozen_name token host user pnum local remote t timeout overwrite =
     bind_prog (lift_res (target_of ip host user pnum)) (\<lambda>(h, u, p).
     bind_prog (lift_res (validate_remote_path remote)) (\<lambda>path.
     bind_prog (check (\<not> (timeout < 1000 \<or> 3600000 < timeout)) ''timeout_ms must be between 1000 and 3600000'') (\<lambda>_.
     bind_prog (freeze_allowed_file sha st env k frozen_name local) (\<lambda>(frozen, sz, digest).
     bind_prog (lift_res (validate_remote_path (remote_temp_name path token))) (\<lambda>temp.
       finally_do
         (upload_frozen dg ud st env which net \<lparr>lk_host = h, lk_user = u, lk_port = p, lk_connect_timeout = t\<rparr>
            local path temp overwrite frozen sz digest)
         (stage_drop frozen))))))"

subsection \<open>\<open>ssh_download\<close>\<close>

definition refuse_existing :: "(ino \<times> meta) option \<Rightarrow> bool \<Rightarrow> unit prog" where
  "refuse_existing existing overwrite =
     (case existing of
        None \<Rightarrow> ret ()
      | Some (i, m) \<Rightarrow>
          if is_lnk m then raise (ValueError ''Refusing to replace a symlink download destination'')
          else if \<not> is_reg m then raise (ValueError ''Download destination exists and is not a regular file'')
          else if \<not> overwrite then raise (ValueError ''Download destination exists and overwrite=false'')
          else ret ())"

definition download_stage_name :: "string \<Rightarrow> string \<Rightarrow> string" where
  "download_stage_name name token = ''.'' @ name @ ''.rhmcp-ssh-'' @ token @ ''.part''"

definition write_stage :: "ino \<Rightarrow> string \<Rightarrow> int \<Rightarrow> bytes \<Rightarrow> unit prog" where
  "write_stage parent stage mode data =
     bind_prog (do_call (sys_create_excl parent stage mode)) (\<lambda>fd.
     bind_prog (do_call (sys_fchmod fd mode)) (\<lambda>_.
     bind_prog (write_all (OSMessage ''Short write while publishing SSH download'') fd data) (\<lambda>_. do_call (sys_fsync fd))))"

definition commit_stage :: "ino \<Rightarrow> string \<Rightarrow> string \<Rightarrow> bool \<Rightarrow> unit prog" where
  "commit_stage parent stage name overwrite =
     (if overwrite then do_call (sys_replace parent stage parent name)
      else handle (do_call (sys_rename_noreplace parent stage parent name))
             (\<lambda>e. if e = OSError EEXIST
                  then raise (ValueError ''Download destination appeared during commit and overwrite=false'') else raise e))"

definition publish_staged :: "ino \<Rightarrow> string \<Rightarrow> string \<Rightarrow> int \<Rightarrow> bytes \<Rightarrow> bool \<Rightarrow> unit prog" where
  "publish_staged parent stage name mode data overwrite =
     bind_prog (write_stage parent stage mode data) (\<lambda>_.
     bind_prog (commit_stage parent stage name overwrite) (\<lambda>_. do_call (sys_fsync parent)))"

text \<open>\<open>_publish_download\<close> of the content of the temporary file.\<close>

definition publish_download ::
    "settings \<Rightarrow> path_env \<Rightarrow> kernel \<Rightarrow> string \<Rightarrow> bytes \<Rightarrow> string \<Rightarrow> bool \<Rightarrow> int \<Rightarrow> (string \<times> bool) prog" where
  "publish_download st env k token data local overwrite mode =
     bind_prog (ensure_mode mode) (\<lambda>_.
     bind_prog (open_parent_beneath st env k local) (\<lambda>(parent, name, target).
     bind_prog (lstat_at parent name) (\<lambda>existing.
     bind_prog (refuse_existing existing overwrite) (\<lambda>_.
     bind_prog
       (finally_do (publish_staged parent (download_stage_name name token) name mode data overwrite)
          (discard_staged parent (download_stage_name name token))) (\<lambda>_.
       ret (path_str target, existing \<noteq> None))))))"

text \<open>Opening the temporary file: a symbolic link is not followed.\<close>

definition open_temp :: "string \<Rightarrow> ('r, node) hrun" where
  "open_temp temp s =
     (s, case map_of (sw_stage s) temp of
           None \<Rightarrow> Inl (OSError ENOENT)
         | Some (Sym t) \<Rightarrow> Inl (OSError ELOOP)
         | Some n \<Rightarrow> Inr n)"

definition temp_content :: "settings \<Rightarrow> node \<Rightarrow> bytes res" where
  "temp_content st n =
     (case n of
        Reg c \<Rightarrow>
          if max_transfer_bytes st < int (length c)
          then Inl (ValueError (''Downloaded file exceeds transfer limit '' @ int_str (max_transfer_bytes st))) else Inr c
      | _ \<Rightarrow> Inl (ValueError ''Downloaded object is not a regular file''))"

text \<open>The copy from the remote host; \<open>None\<close> if \<open>scp\<close> failed.\<close>

definition receive_copy ::
    "settings \<Rightarrow> (string \<Rightarrow> string option) \<Rightarrow> 'r net \<Rightarrow> link \<Rightarrow> string \<Rightarrow> string \<Rightarrow> ('r, bytes option) hrun" where
  "receive_copy st which net l path temp =
     bind_prog (lift_res (client_binary which ''scp'')) (\<lambda>scp.
     bind_prog (lift_res (ssh_options (lk_connect_timeout l))) (\<lambda>opts.
     bind_prog (run_process st net
                  (scp # opts @ [''-q''] @ port_args ''-P'' (lk_port l) @ [''--'', remote_spec (lk_host l) (lk_user l) path, temp]) None)
       (\<lambda>copied.
          if bad_run copied then ret None
          else bind_prog (open_temp temp) (\<lambda>node.
               bind_prog (lift_res (temp_content st node)) (\<lambda>data. ret (Some data))))))"

definition download_to ::
    "(bytes \<Rightarrow> string) \<Rightarrow> (nat \<Rightarrow> bool) \<Rightarrow> (nat \<Rightarrow> nat option) \<Rightarrow> settings \<Rightarrow> path_env \<Rightarrow> kernel \<Rightarrow> (string \<Rightarrow> string option)
       \<Rightarrow> 'r net \<Rightarrow> link \<Rightarrow> string \<Rightarrow> string \<Rightarrow> string \<Rightarrow> string \<Rightarrow> bool \<Rightarrow> int \<Rightarrow> ('r, ssh_transfer_result) hrun" where
  "download_to sha dg ud st env k which net l path local temp token overwrite mode =
     (let local_str = with_files (bind_prog (lift_res (expanduser env local)) (\<lambda>x. ret (ppath_str (parse_path x)))) in
      bind_prog (remote_file_info dg ud st which net l path) (\<lambda>(remote_size, remote_digest, hashed).
        case (remote_size, remote_digest) of
          (Some n, Some digest) \<Rightarrow>
            if ro_returncode hashed \<noteq> Some 0
            then bind_prog local_str (\<lambda>p. ret (transfer_failed Download l p path 0 None False ''SSH_REMOTE_HASH_FAILED''
                   ''Could not obtain remote SHA-256 before download''))
            else
              bind_prog (check (\<not> max_transfer_bytes st < n) (''Remote file exceeds transfer limit '' @ int_str (max_transfer_bytes st))) (\<lambda>_.
              bind_prog (receive_copy st which net l path temp) (\<lambda>got.
                case got of
                  None \<Rightarrow>
                    bind_prog local_str (\<lambda>p. ret (transfer_failed Download l p path 0 None False ''SSH_TRANSFER_FAILED'' ''SCP download failed''))
                | Some data \<Rightarrow>
                    if ustr_of (sha data) \<noteq> digest
                    then bind_prog local_str (\<lambda>p. ret
                           (transfer_failed Download l p path (int (length data)) (Some (sha data)) False ''SSH_HASH_MISMATCH''
                             ''Remote file changed or transfer integrity verification failed''))
                    else
                      bind_prog (with_files (publish_download st env k token data local overwrite mode)) (\<lambda>(published, replaced). ret
                        (transfer_done Download l published path (int (length data)) (sha data) replaced))))
        | _ \<Rightarrow> bind_prog local_str (\<lambda>p. ret (transfer_failed Download l p path 0 None False ''SSH_REMOTE_HASH_FAILED''
                 ''Could not obtain remote SHA-256 before download''))))"

definition ssh_download ::
    "(bytes \<Rightarrow> string) \<Rightarrow> (nat \<Rightarrow> bool) \<Rightarrow> (nat \<Rightarrow> nat option) \<Rightarrow> (string \<Rightarrow> string option) \<Rightarrow> settings \<Rightarrow> path_env \<Rightarrow> kernel
       \<Rightarrow> (string \<Rightarrow> string option) \<Rightarrow> 'r net \<Rightarrow> string \<Rightarrow> string \<Rightarrow> string \<Rightarrow> string option \<Rightarrow> int option \<Rightarrow> string \<Rightarrow> string \<Rightarrow> int
       \<Rightarrow> int \<Rightarrow> bool \<Rightarrow> int \<Rightarrow> ('r, ssh_transfer_result) hrun" where
  "ssh_download sha dg ud ip st env k which net temp token host user pnum remote local t timeout overwrite mode =
     bind_prog (lift_res (target_of ip host user pnum)) (\<lambda>(h, u, p).
     bind_prog (lift_res (validate_remote_path remote)) (\<lambda>path.
     bind_prog (check (\<not> (timeout < 1000 \<or> 3600000 < timeout)) ''timeout_ms must be between 1000 and 3600000'') (\<lambda>_.
     bind_prog (with_files (open_parent_beneath st env k local)) (\<lambda>_.
       finally_do
         (download_to sha dg ud st env k which net \<lparr>lk_host = h, lk_user = u, lk_port = p, lk_connect_timeout = t\<rparr>
            path local temp token overwrite mode)
         (stage_drop temp)))))"

end
