(* ===== verification/Ssh_Steps.thy ===== *)
theory Ssh_Steps
  imports Ssh_Transfer Upload_Steps
begin

text \<open>
  What the file transfers over SSH guarantee, the remote host being described by the documented behaviour of the tools that are
  run there: nothing is replaced without \<open>overwrite\<close>, a success has been verified, the private copies are removed.
\<close>

subsection \<open>Paths are themselves in a script\<close>

lemma remote_char_safe: "remote_char c \<Longrightarrow> shell_safe c"
  by (auto simp: remote_char_def shell_safe_def)

lemma remote_path_chars: "validate_remote_path path = Inr p \<Longrightarrow> p = path \<and> 2 \<le> length path \<and> list_all shell_safe path"
proof -
  assume v: "validate_remote_path path = Inr p"
  then have p: "p = path" "2 \<le> length path" "hd path = CHR ''/''" "list_all remote_char (drop 1 path)"
    by (auto simp: validate_remote_path_def split: if_splits)
  then have "path = CHR ''/'' # drop 1 path" by (cases path) auto
  moreover have "list_all shell_safe (drop 1 path)" using p(4) remote_char_safe by (auto simp: list_all_iff)
  ultimately have "list_all shell_safe path" by (metis list.pred_inject(2) remote_char_safe remote_char_def insertI1 insertI2)
  with p show ?thesis by simp
qed

text \<open>A remote path that is accepted needs no quoting: it stands in every script exactly as it is, one word to the remote
  shell and, being absolute, no option.\<close>

theorem remote_path_is_one_word:
  assumes "validate_remote_path path = Inr p"
  shows "p = path \<and> shlex_quote path = path \<and> hd path = CHR ''/''
    \<and> list_all (\<lambda>c. \<not> space_char c \<and> c \<notin> {CHR 0x27, CHR 0x22, CHR 0x5C, CHR ''$'', CHR 0x60, CHR '';'', CHR ''&'', CHR ''|'',
         CHR ''<'', CHR ''>'', CHR ''*'', CHR ''?'', CHR ''['', CHR ''~'', CHR 0x23, CHR ''('', CHR '')'', CHR 0x21}) path"
proof -
  note c = remote_path_chars [OF assms]
  have "hd path = CHR ''/''" using assms by (auto simp: validate_remote_path_def split: if_splits)
  moreover have "shlex_quote path = path" using c by (cases path) (auto simp: shlex_quote_def)
  moreover have "\<not> space_char d \<and> d \<notin> {CHR 0x27, CHR 0x22, CHR 0x5C, CHR ''$'', CHR 0x60, CHR '';'', CHR ''&'', CHR ''|'',
         CHR ''<'', CHR ''>'', CHR ''*'', CHR ''?'', CHR ''['', CHR ''~'', CHR 0x23, CHR ''('', CHR '')'', CHR 0x21}" if "shell_safe d" for d
    using that by (auto simp: shell_safe_def space_char_def is_space_def alnum_def is_alpha_def Let_def)
  ultimately show ?thesis using c by (auto simp: list_all_iff)
qed

lemma remote_path_is_one_word_witness: "shlex_quote ''/srv/a:b@c'' = ''/srv/a:b@c''"
proof -
  have "validate_remote_path ''/srv/a:b@c'' = Inr ''/srv/a:b@c''"
    by (simp add: validate_remote_path_def remote_char_def alnum_def is_alpha_def)
  from remote_path_is_one_word [OF this] show ?thesis by simp
qed

subsection \<open>Without \<open>overwrite\<close>\<close>

definition target_kept :: "('r \<Rightarrow> string \<Rightarrow> bytes option) \<Rightarrow> string \<Rightarrow> 'r ssh_world \<Rightarrow> 'r ssh_world \<Rightarrow> bool" where
  "target_kept held path w w' \<longleftrightarrow> (\<forall>b. held (sw_remote w) path = Some b \<longrightarrow> held (sw_remote w') path = Some b)"

interpretation kept: run_preorder "target_kept held path" for held path
  by unfold_locales (auto simp: target_kept_def)

text \<open>A run that leaves an existing file \<open>path\<close> as it is.\<close>

definition keeps :: "'r net \<Rightarrow> ('r \<Rightarrow> string \<Rightarrow> bytes option) \<Rightarrow> string \<Rightarrow> string list \<Rightarrow> bytes option \<Rightarrow> bool" where
  "keeps net held path argv input \<longleftrightarrow>
     (\<forall>stage r b. held r path = Some b \<longrightarrow> held (snd (fst (net argv input (stage, r)))) path = Some b)"

text \<open>The tools: \<open>scp\<close> writes the name it is given, \<open>ln\<close> without \<open>-f\<close> refuses an existing name, \<open>rm\<close> removes the name it is
  given, \<open>stat\<close> and \<open>sha256sum\<close> read.\<close>

definition tools_keep :: "'r net \<Rightarrow> ('r \<Rightarrow> string \<Rightarrow> bytes option) \<Rightarrow> string \<Rightarrow> bool" where
  "tools_keep net held path \<longleftrightarrow>
     (\<forall>scp l frozen temp. temp \<noteq> path \<longrightarrow> keeps net held path (scp_upload_vector scp l frozen temp) None)
     \<and> (\<forall>argv temp. temp \<noteq> path \<longrightarrow> keeps net held path argv (Some (link_script temp path)))
     \<and> (\<forall>argv temp. temp \<noteq> path \<longrightarrow> keeps net held path argv (Some (remove_script temp)))
     \<and> (\<forall>argv. keeps net held path argv (Some (info_script path)))"

lemma kept_run: "keeps net held path argv input \<Longrightarrow> obeys (target_kept held path) (run_process st net argv input)"
  unfolding obeys_def target_kept_def run_process_def keeps_def
  by (auto split: prod.splits) (metis fst_conv snd_conv)

lemma kept_script:
  assumes "\<And>argv. keeps net held path argv (Some script)"
  shows "obeys (target_kept held path) (script_on st which net l script)"
  unfolding script_on_def run_ssh_script_def by (intro kept.combinators kept_run assms)

lemma kept_files: "obeys (target_kept held path) (with_files p)"
  by (auto simp: obeys_def with_files_def target_kept_def split: prod.splits)

lemma kept_stage: "obeys (target_kept held path) (stage_put name data)" "obeys (target_kept held path) (stage_drop name)"
  by (auto simp: obeys_def stage_put_def stage_drop_def target_kept_def)

lemma kept_freeze: "obeys (target_kept held path) (freeze_allowed_file sha st env k stage local)"
  unfolding freeze_allowed_file_def by (intro kept.combinators kept_files kept_stage)

lemma kept_bind_pair: "obeys R p \<Longrightarrow> (\<And>a b c. obeys R (k a b c)) \<Longrightarrow> run_preorder R \<Longrightarrow> obeys R (bind_prog p (\<lambda>(a, b, c). k a b c))"
  by (rule run_preorder.bind) (auto split: prod.split)



lemma basename_slash: "CHR ''/'' \<notin> set b \<Longrightarrow> basename (x @ CHR ''/'' # b) = b"
proof -
  assume "CHR ''/'' \<notin> set b"
  then have "takeWhile (\<lambda>c. c \<noteq> CHR ''/'') (rev b @ CHR ''/'' # rev x) = rev b" by (subst takeWhile_append2) auto
  then show ?thesis by (simp add: basename_def)
qed

lemma basename_join:
  assumes "CHR ''/'' \<notin> set b" "b \<noteq> []" "a \<noteq> []"
  shows "basename (posix_join a b) = b"
proof -
  have "hd b \<noteq> CHR ''/''" using assms(1,2) by (cases b) auto
  then have "posix_join a b = (if last a = CHR ''/'' then butlast a else a) @ CHR ''/'' # b"
    using assms(3) append_butlast_last_id [OF assms(3)] by (auto simp: posix_join_def simp del: append_butlast_last_id)
  then show ?thesis using basename_slash [OF assms(1)] by simp
qed

lemma temp_differs: "CHR ''/'' \<notin> set token \<Longrightarrow> remote_temp_name path token \<noteq> path"
proof
  assume t: "CHR ''/'' \<notin> set token" and eq: "remote_temp_name path token = path"
  have "CHR ''/'' \<notin> set (basename path)" by (auto simp: basename_def dest: set_takeWhileD)
  with t have "basename (remote_temp_name path token) = ''.'' @ basename path @ ''.rhmcp-'' @ token @ ''.part''"
    unfolding remote_temp_name_def by (intro basename_join) auto
  with eq have "length (basename path) = length (''.'' @ basename path @ ''.rhmcp-'' @ token @ ''.part'')" by simp
  then show False by simp
qed

lemma kept_upload:
  assumes "tools_keep net held path" "temp \<noteq> path"
  shows "obeys (target_kept held path) (upload_frozen dg ud st env which net l local path temp False frozen sz digest)"
proof -
  have scp: "keeps net held path (scp # option_list (lk_connect_timeout l) @ ''-q'' # port_args ''-P'' (lk_port l)
      @ [''--'', frozen, remote_spec (lk_host l) (lk_user l) temp]) None" for scp
    using assms by (simp add: tools_keep_def scp_upload_vector_def)
  have opts: "ssh_options t = Inr opts \<Longrightarrow> opts = option_list t" for t opts by (simp add: ssh_options_def split: if_splits)
  have link: "obeys (target_kept held path) (script_on st which net l (link_script temp path))"
    and remove: "obeys (target_kept held path) (script_on st which net l (remove_script temp))"
    and info: "obeys (target_kept held path) (script_on st which net l (info_script path))"
    using assms by (auto simp: tools_keep_def intro!: kept_script)
  have clean: "obeys (target_kept held path) (cleanup_remote_temp st which net l temp)"
    unfolding cleanup_remote_temp_def by (intro kept.on_errors remove kept.still)
  have look: "obeys (target_kept held path) (remote_file_info dg ud st which net l path)"
    unfolding remote_file_info_def by (intro kept.bind info) (auto intro!: kept.bind kept.still split: prod.split)
  have check_upload: "obeys (target_kept held path) (verify_upload dg ud st env which net l local path False sz digest)"
    unfolding verify_upload_def by (intro kept.bind look) (auto intro!: kept.combinators kept_files split: prod.split)
  show ?thesis
    unfolding upload_frozen_def Let_def if_False append_Cons append_Nil
    by (rule kept.lift_then, rule kept.lift_then, drule opts, hypsubst)
      (auto intro!: kept.combinators kept_run scp link clean check_upload kept_files)
qed



subsection \<open>A success is verified\<close>

text \<open>What the size and digest script prints with status 0 is the size and digest of the file.\<close>

definition info_true ::
    "'r net \<Rightarrow> ('r \<Rightarrow> string \<Rightarrow> bytes option) \<Rightarrow> (bytes \<Rightarrow> string) \<Rightarrow> (nat \<Rightarrow> bool) \<Rightarrow> (nat \<Rightarrow> nat option) \<Rightarrow> settings \<Rightarrow> string \<Rightarrow> bool" where
  "info_true net held sha dg ud st path \<longleftrightarrow>
     (\<forall>argv sr stage r c out n d.
        net argv (Some (info_script path)) sr = ((stage, r), c) \<longrightarrow> outcome_of st True c = Inr out \<longrightarrow> ro_returncode out = Some 0 \<longrightarrow>
        parse_info dg ud out = Inr (Some n, Some d) \<longrightarrow> (\<exists>b. held r path = Some b \<and> n = int (length b) \<and> d = ustr_of (sha b)))"

lemma with_files_remote: "with_files p w = (w', r) \<Longrightarrow> sw_remote w' = sw_remote w \<and> sw_stage w' = sw_stage w \<and> sw_ran w' = sw_ran w"
  by (auto simp: with_files_def split: prod.splits)

lemma script_on_Inr:
  assumes "script_on st which net l script w = (w', Inr out)"
  shows "\<exists>argv c. net argv (Some script) (sw_stage w, sw_remote w) = ((sw_stage w', sw_remote w'), c) \<and> outcome_of st True c = Inr out"
proof -
  obtain argv where "run_process st net argv (Some script) w = (w', Inr out)"
    using assms unfolding script_on_def run_ssh_script_def prog_Inr by blast
  then show ?thesis
    unfolding run_process_def by (cases "net argv (Some script) (sw_stage w, sw_remote w)") (auto split: prod.splits intro!: exI [of _ argv])
qed

lemma remote_file_info_true:
  assumes "info_true net held sha dg ud st path"
    and "remote_file_info dg ud st which net l path w = (w', Inr (Some n, Some d, out))" "ro_returncode out = Some 0"
  shows "\<exists>b. held (sw_remote w') path = Some b \<and> n = int (length b) \<and> d = ustr_of (sha b)"
proof -
  obtain v o1 where run: "script_on st which net l (info_script path) w = (v, Inr o1)"
      and p: "parse_info dg ud o1 = Inr (Some n, Some d)" "w' = v" "out = o1"
    using assms(2) by (auto simp: remote_file_info_def prog_Inr)
  from script_on_Inr [OF run] assms(1,3) p show ?thesis unfolding info_true_def by blast
qed

lemma freeze_Inr:
  assumes "freeze_allowed_file sha st env k stage local w = (w', Inr (frozen, sz, digest))"
  shows "\<exists>data. frozen = stage \<and> sz = int (length data) \<and> digest = sha data \<and> map_of (sw_stage w') stage = Some (Reg data)"
  using assms by (auto simp: freeze_allowed_file_def prog_Inr stage_put_def)

lemma verify_upload_done:
  assumes "verify_upload dg ud st env which net l local path overwrite sz digest v = (w', Inr res)" "st_success res"
  shows "\<exists>u out p. remote_file_info dg ud st which net l path v = (u, Inr (Some sz, Some (ustr_of digest), out))
    \<and> ro_returncode out = Some 0 \<and> sw_remote w' = sw_remote u \<and> res = transfer_done Upload l p path sz digest overwrite"
proof -
  obtain u n d out p where run: "remote_file_info dg ud st which net l path v = (u, Inr (n, d, out))"
      "with_files (resolved_str st env local) u = (w', Inr p)"
      "res = (if ro_returncode out \<noteq> Some 0 \<or> n \<noteq> Some sz \<or> d \<noteq> Some (ustr_of digest)
        then transfer_failed Upload l p path sz (Some digest) overwrite ''SSH_HASH_MISMATCH'' ''Remote SHA-256 verification failed after upload''
        else transfer_done Upload l p path sz digest overwrite)"
    using assms(1) unfolding verify_upload_def prog_Inr case_prod_beta by (metis prod.collapse)
  with assms(2) have "ro_returncode out = Some 0 \<and> n = Some sz \<and> d = Some (ustr_of digest)"
    by (simp add: transfer_failed_def split: if_splits)
  with run with_files_remote [OF run(2)] show ?thesis by auto
qed

lemma upload_frozen_done:
  assumes "upload_frozen dg ud st env which net l local path temp overwrite frozen sz digest w = (w', Inr res)" "st_success res"
  shows "\<exists>v. verify_upload dg ud st env which net l local path overwrite sz digest v = (w', Inr res)"
  using assms by (auto simp: upload_frozen_def Let_def prog_Inr transfer_failed_def split: if_splits)

lemma finally_Inr: "finally_do p q w = (w', Inr x) \<longleftrightarrow> (\<exists>v. p w = (v, Inr x) \<and> q v = (w', Inr ()))"
  by (auto simp: finally_do_def split: prod.splits sum.splits)

text \<open>C20. When an upload reports success, the remote file has the size and the digest of the local file as it was frozen, both
  are reported, and the private copy is gone.\<close>

theorem upload_success_is_verified:
  assumes "info_true net held sha dg ud st remote"
    and "ssh_upload sha dg ud ip st env k which net frozen_name token host user pnum local remote t timeout overwrite w = (w', Inr res)"
    and "st_success res"
  shows "\<exists>u data b. freeze_allowed_file sha st env k frozen_name local w = (u, Inr (frozen_name, int (length data), sha data))
    \<and> held (sw_remote w') remote = Some b \<and> length b = length data \<and> sha b = sha data
    \<and> st_bytes res = int (length b) \<and> st_sha256 res = Some (sha b) \<and> st_replaced res = overwrite
    \<and> map_of (sw_stage w') frozen_name = None"
proof -
  obtain h u p path v1 frozen sz digest temp v2 where
      path: "validate_remote_path remote = Inr path"
      and fr: "freeze_allowed_file sha st env k frozen_name local w = (v1, Inr (frozen, sz, digest))"
      and up: "upload_frozen dg ud st env which net \<lparr>lk_host = h, lk_user = u, lk_port = p, lk_connect_timeout = t\<rparr>
                local path temp overwrite frozen sz digest v1 = (v2, Inr res)"
      and last: "stage_drop frozen v2 = (w', Inr ())"
    using assms(2) unfolding ssh_upload_def by (auto simp: prog_Inr finally_Inr check_Inr)
  have path: "path = remote" using remote_path_chars [OF path] by simp
  obtain data where data: "frozen = frozen_name" "sz = int (length data)" "digest = sha data" using freeze_Inr [OF fr] by blast
  obtain x where x: "verify_upload dg ud st env which net \<lparr>lk_host = h, lk_user = u, lk_port = p, lk_connect_timeout = t\<rparr>
      local path overwrite sz digest x = (v2, Inr res)"
    using upload_frozen_done [OF up assms(3)] by blast
  obtain y out q where info: "remote_file_info dg ud st which net \<lparr>lk_host = h, lk_user = u, lk_port = p, lk_connect_timeout = t\<rparr> remote x
        = (y, Inr (Some sz, Some (ustr_of digest), out))" "ro_returncode out = Some 0" "sw_remote v2 = sw_remote y"
      and res: "res = transfer_done Upload \<lparr>lk_host = h, lk_user = u, lk_port = p, lk_connect_timeout = t\<rparr> q remote sz digest overwrite"
    using verify_upload_done [OF x assms(3)] unfolding path by blast
  obtain b where b: "held (sw_remote y) remote = Some b" "sz = int (length b)" "ustr_of digest = ustr_of (sha b)"
    using remote_file_info_true [OF assms(1) info(1,2)] by blast
  have "sw_remote w' = sw_remote v2" "map_of (sw_stage w') frozen = None" using last by (auto simp: stage_drop_def)
  moreover have "digest = sha b" using b(3) by (simp add: ustr_of_def inj_map_eq_map inj_of_char)
  ultimately show ?thesis
    using b info(3) data res fr
    by - (rule exI [of _ v1], rule exI [of _ data], rule exI [of _ b], simp add: transfer_done_def)
qed

text \<open>The name of the remote staging file is validated after the copy has been made and before the clean-up is in force: a
  target path that is accepted but too long for its staging name leaves the private copy of the file behind.\<close>

theorem long_remote_path_leaks_copy:
  assumes "target_of ip host user pnum = Inr (h, u, p)" "validate_remote_path remote = Inr remote" "1000 \<le> timeout" "timeout \<le> 3600000"
    and "freeze_allowed_file sha st env k frozen_name local w = (w1, Inr (frozen_name, sz, digest))"
    and "4096 < length (remote_temp_name remote token)"
  shows "\<exists>e data. ssh_upload sha dg ud ip st env k which net frozen_name token host user pnum local remote t timeout overwrite w = (w1, Inl e)
    \<and> map_of (sw_stage w1) frozen_name = Some (Reg data)"
proof -
  have "\<exists>e. validate_remote_path (remote_temp_name remote token) = Inl e"
    using assms(6) by (simp add: validate_remote_path_def)
  with freeze_Inr [OF assms(5)] show ?thesis
    using assms(1-5) by (auto simp: ssh_upload_def prog_defs)
qed

end
