(* ===== verification/Publish.thy ===== *)
theory Publish
  imports Upload_Steps Reading
begin

text \<open>
  Publication under a name on a quiet host, as the downloads and bundles do it: opening changes nothing, and a file that is
  created under a staging name and renamed is afterwards the target and nothing else of the directory has changed.
\<close>

subsection \<open>Opening leaves a quiet disk alone\<close>

definition unmoved :: "world \<Rightarrow> world \<Rightarrow> bool" where
  "unmoved w w' \<longleftrightarrow> (schedule w = [] \<longrightarrow> w' = w)"

interpretation unmoved: reading unmoved
  by unfold_locales (auto simp: unmoved_def)

subsection \<open>Publishing\<close>

lemma quiet_do:
  "schedule w = [] \<Longrightarrow> do_call c w = (w', Inr x) \<longleftrightarrow> (\<exists>f. c (disk w) = (f, Inr x) \<and> w' = w\<lparr>disk := f\<rparr>)"
  by (auto simp: do_call_def split: prod.splits)

lemma created:
  assumes "sys_create_excl d name perm f = (f', Inr i)" "inodes f (fresh_ino f) = None"
  shows "i = fresh_ino f \<and> lookup_at f d name = None \<and> entries f d \<noteq> None \<and> lookup_at f' d = (lookup_at f d)(name \<mapsto> i)
    \<and> reg_content f' i = Some []"
proof -
  have e: "entries f d \<noteq> None" "lookup_at f d name = None" using assms(1) by (auto simp: sys_create_excl_def sys_error_def split: if_splits)
  define f1 where "f1 = f\<lparr>inodes := (inodes f)(fresh_ino f \<mapsto> \<lparr>m_node = Reg [], m_dev = (case inodes f d of Some m \<Rightarrow> m_dev m | None \<Rightarrow> 0),
      m_perm = perm, m_uid = 0, m_gid = 0, m_mtime = fs_now f\<rparr>), fresh_ino := fresh_ino f + 1, fs_now := fs_now f + 1\<rparr>"
  have i: "i = fresh_ino f" "f' = set_entry d name i f1"
    using assms(1) e by (auto simp: sys_create_excl_def new_inode_def Let_def f1_def)
  have d: "d \<noteq> fresh_ino f" using e(1) assms(2) by (auto simp: entries_def)
  then have "entries f1 d = entries f d" by (simp add: f1_def entries_def)
  moreover from this have "lookup_at f1 d = lookup_at f d" by (simp add: lookup_at_def fun_eq_iff)
  moreover have "reg_content f1 i = Some []" by (simp add: f1_def reg_content_def i(1))
  ultimately show ?thesis using e i by (auto simp: lookup_set_entry fun_eq_iff)
qed

lemma renamed:
  assumes "sys_rename_noreplace d a d b f = (f', Inr ()) \<or> sys_replace d a d b f = (f', Inr ())" "a \<noteq> b" "lookup_at f d a = Some i"
  shows "lookup_at f' d = (lookup_at f d)(a := None, b \<mapsto> i) \<and> (\<forall>j. reg_content f' j = reg_content f j)"
proof -
  have "f' = set_entry d b i (drop_entry d a f)"
    using assms(1,3) by (auto simp: sys_rename_noreplace_def sys_replace_def sys_error_def split: if_splits option.splits)
  then show ?thesis
    using lookup_entries [OF assms(3)] by (auto simp: lookup_set_entry lookup_drop_entry fun_eq_iff)
qed

lemma quiet_unit:
  assumes "schedule w = []" "bind_prog (do_call c) (\<lambda>_. q) w = (w', Inr y)"
  obtains f x where "c (disk w) = (f, Inr x)" "q (w\<lparr>disk := f\<rparr>) = (w', Inr y)"
  using assms by (auto simp: bind_prog_Inr quiet_do)

lemma lstat_at_lookup:
  "schedule w = [] \<Longrightarrow> lstat_at d name w = (w', Inr existing) \<Longrightarrow> existing = None \<longleftrightarrow> lookup_at (disk w) d name = None"
  by (auto simp: lstat_at_def prog_defs do_call_def sys_lstat_def sys_error_def split: option.splits if_splits)

definition published :: "fs \<Rightarrow> fs \<Rightarrow> ino \<Rightarrow> string \<Rightarrow> string \<Rightarrow> bytes \<Rightarrow> bool" where
  "published f g parent stage name data \<longleftrightarrow>
     (\<exists>i. lookup_at g parent = (lookup_at f parent)(stage := None, name \<mapsto> i) \<and> reg_content g i = Some data)"

end
