(* ===== verification/Ssh_Download.thy ===== *)
theory Ssh_Download
  imports Ssh_Steps Publish
begin

text \<open>
  What \<open>ssh_download\<close> publishes: exactly the bytes whose digest the remote host reported, under the destination, and only
  there.
\<close>

subsection \<open>Publishing\<close>

lemma unmoved_refuse: "obeys unmoved (refuse_existing existing overwrite)"
  unfolding refuse_existing_def by (auto intro!: unmoved.combinators split: option.split prod.split)

lemma write_stage_Inr:
  assumes "schedule w = []" "inodes (disk w) (fresh_ino (disk w)) = None" "write_stage parent stage mode data w = (w', Inr ())"
  shows "schedule w' = [] \<and> lookup_at (disk w') parent = (lookup_at (disk w) parent)(stage \<mapsto> fresh_ino (disk w))
    \<and> reg_content (disk w') (fresh_ino (disk w)) = Some data"
proof -
  obtain w1 fd where "do_call (sys_create_excl parent stage mode) w = (w1, Inr fd)"
      and rest: "bind_prog (do_call (sys_fchmod fd mode)) (\<lambda>_. bind_prog (write_all (OSMessage ''Short write while publishing SSH download'') fd data)
        (\<lambda>_. do_call (sys_fsync fd))) w1 = (w', Inr ())"
    using assms(3) unfolding write_stage_def by (rule bind_progE)
  then obtain f1 where f1: "sys_create_excl parent stage mode (disk w) = (f1, Inr fd)" "w1 = w\<lparr>disk := f1\<rparr>"
    unfolding quiet_do [OF assms(1)] by blast
  note c = created [OF f1(1) assms(2)]
  have q1: "schedule w1 = []" using assms(1) f1(2) by simp
  obtain f2 x where f2: "sys_fchmod fd mode (disk w1) = (f2, Inr x)"
      and rest2: "bind_prog (write_all (OSMessage ''Short write while publishing SSH download'') fd data) (\<lambda>_. do_call (sys_fsync fd)) (w1\<lparr>disk := f2\<rparr>) = (w', Inr ())"
    using q1 rest by (rule quiet_unit)
  have ch: "f2 = chmod_inode fd mode f1" using f2 f1(2) by (simp add: chmod_inode_def)
  have q2: "schedule (w1\<lparr>disk := f2\<rparr>) = []" and r2: "reg_content (disk (w1\<lparr>disk := f2\<rparr>)) fd = Some []" using q1 ch c by auto
  obtain f3 where f3: "write_all (OSMessage ''Short write while publishing SSH download'') fd data (w1\<lparr>disk := f2\<rparr>) = (w1\<lparr>disk := f3\<rparr>, Inr ())"
      "reg_content f3 fd = Some data" "same_shape f2 f3"
    using quiet_write_all [OF q2 r2, of "OSMessage ''Short write while publishing SSH download''" data] by auto
  have "do_call (sys_fsync fd) (w1\<lparr>disk := f3\<rparr>) = (w', Inr ())" using rest2 f3(1) by (simp add: bind_prog_def)
  then have "w' = w1\<lparr>disk := f3\<rparr>" using q1 by (auto simp: do_call_def sys_fsync_def)
  moreover have "lookup_at f3 parent = (lookup_at (disk w) parent)(stage \<mapsto> fd)"
    using f3(3) ch c by (auto simp: same_shape_def lookup_at_def fun_eq_iff)
  ultimately show ?thesis using f3(2) c q1 by simp
qed

lemma commit_stage_Inr:
  assumes "schedule w = []" "lookup_at (disk w) parent stage = Some fd" "stage \<noteq> name" "commit_stage parent stage name overwrite w = (w', Inr ())"
  shows "schedule w' = [] \<and> lookup_at (disk w') parent = (lookup_at (disk w) parent)(stage := None, name \<mapsto> fd)
    \<and> (\<forall>j. reg_content (disk w') j = reg_content (disk w) j)"
proof -
  obtain f where f: "sys_rename_noreplace parent stage parent name (disk w) = (f, Inr ()) \<or> sys_replace parent stage parent name (disk w) = (f, Inr ())"
      "w' = w\<lparr>disk := f\<rparr>"
    using assms(4) by (auto simp: commit_stage_def handle_Inr raise_Inr quiet_do [OF assms(1)] split: if_splits)
  from renamed [OF f(1) assms(3,2)] f(2) assms(1) show ?thesis by simp
qed

lemma publish_staged_Inr:
  assumes "schedule w = []" "inodes (disk w) (fresh_ino (disk w)) = None" "stage \<noteq> name"
    and "publish_staged parent stage name mode data overwrite w = (w', Inr ())"
  shows "schedule w' = [] \<and> lookup_at (disk w') parent = (lookup_at (disk w) parent)(stage := None, name \<mapsto> fresh_ino (disk w))
    \<and> reg_content (disk w') (fresh_ino (disk w)) = Some data"
proof -
  obtain w1 u1 where w1: "write_stage parent stage mode data w = (w1, Inr u1)"
      and rest: "bind_prog (commit_stage parent stage name overwrite) (\<lambda>_. do_call (sys_fsync parent)) w1 = (w', Inr ())"
    using assms(4) unfolding publish_staged_def by (rule bind_progE)
  obtain w2 u2 where w2: "commit_stage parent stage name overwrite w1 = (w2, Inr u2)" "do_call (sys_fsync parent) w2 = (w', Inr ())"
    using rest by (rule bind_progE)
  note a = write_stage_Inr [OF assms(1,2) w1 [unfolded unit_eq [of u1]]]
  note b = commit_stage_Inr [OF _ _ assms(3) w2(1) [unfolded unit_eq [of u2]], of "fresh_ino (disk w)"]
  have "w' = w2" using w2(2) a b by (auto simp: do_call_def sys_fsync_def)
  with a b show ?thesis by simp
qed


lemma stage_name_differs: "download_stage_name name token \<noteq> name"
proof
  assume "download_stage_name name token = name"
  then have "length (download_stage_name name token) = length name" by simp
  then show False by (simp add: download_stage_name_def)
qed

lemma discard_missing:
  "schedule w = [] \<Longrightarrow> lookup_at (disk w) parent stage = None \<Longrightarrow> discard_staged parent stage w = (w', Inr u) \<Longrightarrow> w' = w"
  by (auto simp: discard_staged_def prog_defs do_call_def sys_unlink_def sys_lstat_def sys_error_def)

lemma refused_existing:
  "refuse_existing existing overwrite w = (w', Inr u) \<Longrightarrow> existing = None \<or> overwrite"
  by (auto simp: refuse_existing_def raise_def split: option.splits prod.splits if_splits)

lemma publish_download_Inr:
  assumes "schedule w = []" "inodes (disk w) (fresh_ino (disk w)) = None"
    and "publish_download st env k token data local overwrite mode w = (w', Inr (p, replaced))"
  shows "\<exists>parent name target. open_parent_beneath st env k local w = (w, Inr (parent, name, target)) \<and> p = path_str target
    \<and> published (disk w) (disk w') parent (download_stage_name name token) name data
    \<and> (replaced \<longleftrightarrow> lookup_at (disk w) parent name \<noteq> None) \<and> (replaced \<longrightarrow> overwrite)"
proof -
  have q: "v = w" if "obeys unmoved c" "c w = (v, r)" for c :: "'x prog" and v r
    using obeysD [OF that] assms(1) by (simp add: unmoved_def)
  obtain v0 u0 where m0: "ensure_mode mode w = (v0, Inr u0)"
      and r0: "bind_prog (open_parent_beneath st env k local) (\<lambda>(parent, name, target).
        bind_prog (lstat_at parent name) (\<lambda>existing.
        bind_prog (refuse_existing existing overwrite) (\<lambda>_.
        bind_prog (finally_do (publish_staged parent (download_stage_name name token) name mode data overwrite)
          (discard_staged parent (download_stage_name name token))) (\<lambda>_. ret (path_str target, existing \<noteq> None))))) v0 = (w', Inr (p, replaced))"
    using assms(3) unfolding publish_download_def by (rule bind_progE)
  have "v0 = w" using m0 by (auto simp: ensure_mode_def check_Inr)
  note r0 = r0 [unfolded this]
  obtain v1 pnt where o1: "open_parent_beneath st env k local w = (v1, Inr pnt)"
      and r1: "(case pnt of (parent, name, target) \<Rightarrow> bind_prog (lstat_at parent name) (\<lambda>existing.
        bind_prog (refuse_existing existing overwrite) (\<lambda>_.
        bind_prog (finally_do (publish_staged parent (download_stage_name name token) name mode data overwrite)
          (discard_staged parent (download_stage_name name token))) (\<lambda>_. ret (path_str target, existing \<noteq> None))))) v1 = (w', Inr (p, replaced))"
    using r0 by (rule bind_progE)
  obtain parent name target where pnt: "pnt = (parent, name, target)" by (cases pnt)
  have v1: "v1 = w" using o1 unmoved.parent by (rule q [rotated])
  let ?stage = "download_stage_name name token"
  obtain v2 existing where l: "lstat_at parent name w = (v2, Inr existing)"
      and r2: "bind_prog (refuse_existing existing overwrite) (\<lambda>_.
        bind_prog (finally_do (publish_staged parent ?stage name mode data overwrite) (discard_staged parent ?stage))
          (\<lambda>_. ret (path_str target, existing \<noteq> None))) v2 = (w', Inr (p, replaced))"
    using r1 unfolding pnt v1 prod.case by (rule bind_progE)
  have v2: "v2 = w" using l unmoved.lstat by (rule q [rotated])
  obtain v3 u3 where rf: "refuse_existing existing overwrite w = (v3, Inr u3)"
      and r3: "bind_prog (finally_do (publish_staged parent ?stage name mode data overwrite) (discard_staged parent ?stage))
          (\<lambda>_. ret (path_str target, existing \<noteq> None)) v3 = (w', Inr (p, replaced))"
    using r2 unfolding v2 by (rule bind_progE)
  have v3: "v3 = w" using rf unmoved_refuse by (rule q [rotated])
  obtain v4 u4 where f: "finally_do (publish_staged parent ?stage name mode data overwrite) (discard_staged parent ?stage) w = (v4, Inr u4)"
      and r4: "ret (path_str target, existing \<noteq> None) v4 = (w', Inr (p, replaced))"
    using r3 unfolding v3 by (rule bind_progE)
  obtain v5 where ps: "publish_staged parent ?stage name mode data overwrite w = (v5, Inr ())" and d: "discard_staged parent ?stage v5 = (v4, Inr ())"
    using f by (auto simp: finally_Inr)
  note pub = publish_staged_Inr [OF assms(1,2) stage_name_differs ps]
  have "lookup_at (disk v5) parent ?stage = None" using pub stage_name_differs [of name token] by simp
  then have "v4 = v5" using discard_missing d pub by blast
  moreover have "w' = v4" "p = path_str target" "replaced \<longleftrightarrow> existing \<noteq> None" using r4 by (auto simp: ret_Inr)
  ultimately show ?thesis
    using o1 v1 pnt pub lstat_at_lookup [OF assms(1) l] refused_existing [OF rf] unfolding published_def by metis
qed


subsection \<open>Downloads\<close>

definition files_kept :: "'r ssh_world \<Rightarrow> 'r ssh_world \<Rightarrow> bool" where
  "files_kept w w' \<longleftrightarrow> (schedule (sw_files w) = [] \<longrightarrow> sw_files w' = sw_files w)"

interpretation files_kept: run_preorder files_kept
  by unfold_locales (auto simp: files_kept_def)

lemma files_kept_run: "obeys files_kept (run_process st net argv input)"
  by (auto simp: obeys_def files_kept_def run_process_def split: prod.splits)

lemma files_kept_info: "obeys files_kept (remote_file_info dg ud st which net l path)"
  unfolding remote_file_info_def script_on_def run_ssh_script_def
  by (auto intro!: files_kept.combinators files_kept_run split: prod.split)

lemma files_kept_receive: "obeys files_kept (receive_copy st which net l path temp)"
proof -
  have "obeys files_kept (open_temp temp)" by (simp add: open_temp_def obeys_def files_kept_def)
  then show ?thesis
    unfolding receive_copy_def by (auto intro!: files_kept.combinators files_kept_run)
qed

lemma temp_content_bound: "temp_content st node = Inr data \<Longrightarrow> int (length data) \<le> max_transfer_bytes st"
  by (auto simp: temp_content_def split: if_splits node.splits)

lemma receive_copy_bound:
  "receive_copy st which net l path temp w = (w', Inr (Some data)) \<Longrightarrow> int (length data) \<le> max_transfer_bytes st"
  by (auto simp: receive_copy_def bind_prog_Inr lift_res_Inr ret_Inr dest: temp_content_bound split: if_splits)

lemma files_kept_parent: "obeys files_kept (with_files (open_parent_beneath st env k local))"
  unfolding obeys_def files_kept_def with_files_def
  using obeysD [OF unmoved.parent] by (auto simp: unmoved_def split: prod.splits)

text \<open>The part that follows a readable digest.\<close>

lemma download_to_done:
  assumes "download_to sha dg ud st env k which net l path local temp token overwrite mode w = (w', Inr res)" "st_success res"
  shows "\<exists>v n out data u p replaced. remote_file_info dg ud st which net l path w = (v, Inr (Some n, Some (ustr_of (sha data)), out))
    \<and> ro_returncode out = Some 0 \<and> receive_copy st which net l path temp v = (u, Inr (Some data))
    \<and> with_files (publish_download st env k token data local overwrite mode) u = (w', Inr (p, replaced))
    \<and> res = transfer_done Download l p path (int (length data)) (sha data) replaced"
proof -
  obtain v x where info: "remote_file_info dg ud st which net l path w = (v, Inr x)"
    using assms(1) unfolding download_to_def Let_def by (rule bind_progE)
  obtain n d out where x: "x = (n, d, out)" by (cases x)
  have nf: "\<not> st_success (transfer_failed dr l p path b s rp c m)" for dr p b s rp c m by (simp add: transfer_failed_def)
  obtain n' d' where some: "n = Some n'" "d = Some d'" "ro_returncode out = Some 0" "\<not> max_transfer_bytes st < n'"
    using assms nf unfolding download_to_def Let_def bind_prog_def info x
    by (cases n; cases d) (auto simp: ret_def check_def raise_def split: if_splits prod.splits sum.splits)
  obtain u got where got: "receive_copy st which net l path temp v = (u, Inr got)"
      and rest: "(case got of
          None \<Rightarrow> bind_prog (with_files (bind_prog (lift_res (expanduser env local)) (\<lambda>x. ret (ppath_str (parse_path x)))))
            (\<lambda>p. ret (transfer_failed Download l p path 0 None False ''SSH_TRANSFER_FAILED'' ''SCP download failed''))
        | Some data \<Rightarrow>
            if ustr_of (sha data) \<noteq> d'
            then bind_prog (with_files (bind_prog (lift_res (expanduser env local)) (\<lambda>x. ret (ppath_str (parse_path x))))) (\<lambda>p. ret
                   (transfer_failed Download l p path (int (length data)) (Some (sha data)) False ''SSH_HASH_MISMATCH''
                     ''Remote file changed or transfer integrity verification failed''))
            else
              bind_prog (with_files (publish_download st env k token data local overwrite mode)) (\<lambda>(published, replaced). ret
                (transfer_done Download l published path (int (length data)) (sha data) replaced))) u = (w', Inr res)"
    using assms(1) some unfolding download_to_def Let_def bind_prog_def info x
    by (auto simp: check_def ret_def split: prod.splits sum.splits)
  obtain data where data: "got = Some data" "d' = ustr_of (sha data)"
    using rest assms(2) nf by (auto simp: bind_prog_Inr ret_Inr split: option.splits if_splits)
  from rest obtain p replaced where "with_files (publish_download st env k token data local overwrite mode) u = (w', Inr (p, replaced))"
      "res = transfer_done Download l p path (int (length data)) (sha data) replaced"
    unfolding data by (auto simp: bind_prog_Inr ret_Inr)
  with info x some got data show ?thesis by blast
qed


end
