(* ===== verification/Ssh_Samples.thy ===== *)
theory Ssh_Samples
  imports Ssh_Download
begin

text \<open>
  A concrete remote host with one file, at which the properties of the transfers over SSH are instantiated.
\<close>

definition there :: string where
  "there = ''/r/f''"

definition there_temp :: string where
  "there_temp = ''/r/.f.rhmcp-0.part''"

definition fake_sha :: "bytes \<Rightarrow> string" where
  "fake_sha b = replicate 64 (CHR ''a'')"

definition info_text :: ustr where
  "info_text = [53, 10] @ replicate 64 97 @ [10]"

definition failing :: ssh_child where
  "failing = (ok_child [])\<lparr>return_code := Some 1\<rparr>"

type_synonym remote_files = "string \<Rightarrow> bytes option"

definition sample_scp :: "string list \<Rightarrow> staged \<times> remote_files \<Rightarrow> (staged \<times> remote_files) \<times> ssh_child" where
  "sample_scp argv sr =
     (if last argv = ''h:'' @ there_temp
      then (case map_of (fst sr) ''in'' of Some (Reg c) \<Rightarrow> ((fst sr, (snd sr)(there_temp := Some c)), ok_child []) | _ \<Rightarrow> (sr, failing))
      else (case snd sr there of Some c \<Rightarrow> ((dict_set ''out'' (Reg c) (fst sr), snd sr), ok_child []) | None \<Rightarrow> (sr, failing)))"

definition sample_sh :: "bytes \<Rightarrow> staged \<times> remote_files \<Rightarrow> (staged \<times> remote_files) \<times> ssh_child" where
  "sample_sh script sr =
     (if script = info_script there
      then (case snd sr there of Some b \<Rightarrow> if length b = 5 then (sr, ok_child (utf8 info_text)) else (sr, failing) | None \<Rightarrow> (sr, failing))
      else if script = link_script there_temp there \<and> snd sr there = None
      then ((fst sr, (snd sr)(there := snd sr there_temp, there_temp := None)), ok_child [])
      else if script = remove_script there_temp then ((fst sr, (snd sr)(there_temp := None)), ok_child [])
      else (sr, failing))"

definition sample_net :: "remote_files net" where
  "sample_net argv input sr = (case input of None \<Rightarrow> sample_scp argv sr | Some script \<Rightarrow> sample_sh script sr)"

lemma paths_differ [simp]: "there_temp \<noteq> there" "there \<noteq> there_temp"
  by (simp_all add: there_def there_temp_def)

lemma temp_name: "remote_temp_name there ''0'' = there_temp"
  by (simp add: remote_temp_name_def there_def there_temp_def dirname_def basename_def posix_join_def Let_def)

lemma sample_scp_keeps: "snd (fst (sample_scp argv sr)) there = snd sr there"
  unfolding sample_scp_def by (simp split: option.split node.split)

lemma sample_sh_keeps: "snd sr there = Some b \<Longrightarrow> snd (fst (sample_sh script sr)) there = Some b"
  unfolding sample_sh_def by simp

lemma sample_tools_keep: "tools_keep sample_net (\<lambda>r. r) there"
  unfolding tools_keep_def keeps_def sample_net_def by (simp add: sample_scp_keeps sample_sh_keeps)

definition plain_settings :: settings where
  "plain_settings = sample_settings\<lparr>path_key := []\<rparr>"

lemma there_valid: "validate_remote_path there = Inr there" "validate_remote_path there_temp = Inr there_temp"
  by (simp_all add: validate_remote_path_def remote_char_def there_def there_temp_def alnum_def is_alpha_def)

definition good :: "ustr \<Rightarrow> run_outcome" where
  "good t = \<lparr>ro_returncode = Some 0, ro_stdout = t, ro_stderr = [], ro_duration_ms = 1, ro_timed_out = False, ro_terminated_by = None,
     ro_truncated = False, ro_bytes_returned = int (length (utf8 t)), ro_bytes_total = int (length (utf8 t))\<rparr>"

lemma good_outcome:
  assumes "list_all scalar t" "length (utf8 t) \<le> 262144"
  shows "outcome_of plain_settings b (ok_child (utf8 t)) = Inr (good t)"
proof -
  have "max_output_bytes plain_settings = 262144" "path_key plain_settings = []"
    by (simp_all add: plain_settings_def sample_settings_def default_settings_def)
  moreover have "decode_replace [] = []" using decode_replace_utf8 [of "[]"] by (simp add: utf8_def)
  ultimately show ?thesis
    using assms decode_replace_utf8 [OF assms(1)]
    by (auto simp: outcome_of_def ok_child_def good_def keep_ssh_def new_budget_def redact_key_def Let_def)
qed

lemma split_one_line:
  "\<forall>c \<in> set d. \<not> is_line_end c \<Longrightarrow> split_lines_acc cur (d @ [10]) = [cur @ d @ [10]]"
proof (induction d arbitrary: cur)
  case (Cons c d)
  have "c \<noteq> 13" using Cons.prems by (auto simp: is_line_end_def)
  then have "split_lines_acc cur ((c # d) @ [10]) = split_lines_acc (cur @ [c]) (d @ [10])"
    using Cons.prems by (cases d) auto
  with Cons show ?case by simp
qed simp

lemma split_two:
  "s \<noteq> [] \<Longrightarrow> split_lines_acc [] (53 # 10 # s) = [53, 10] # split_lines_acc [] s"
  by (cases s) (simp_all add: is_line_end_def)

lemma lines_of_info: "\<forall>c \<in> set d. \<not> is_space c \<and> \<not> is_line_end c \<Longrightarrow> d \<noteq> [] \<Longrightarrow> text_lines ([53, 10] @ d @ [10]) = [[53], d]"
proof -
  assume d: "\<forall>c \<in> set d. \<not> is_space c \<and> \<not> is_line_end c" "d \<noteq> []"
  have "splitlines_keep ([53, 10] @ d @ [10]) = [[53] @ [10], d @ [10]]"
    using split_one_line [of d "[]"] d(1) split_two [of "d @ [10]"] by (simp add: splitlines_keep_def)
  moreover have "strip (d @ [10]) = d" "strip ([53] @ [10]) = [53]"
    using d(1) by (simp_all add: strip_trailing is_space_def strip_no_space del: append_Cons append_Nil)
  ultimately show ?thesis using d(2) by (simp add: text_lines_def del: append_Cons append_Nil)
qed

lemma info_lines: "text_lines info_text = [[53], replicate 64 97]"
  unfolding info_text_def by (rule lines_of_info) (simp_all add: is_space_def is_line_end_def)

definition five :: "nat \<Rightarrow> nat option" where
  "five c = (if c = 53 then Some 5 else None)"

lemma sample_info_parse: "parse_info (\<lambda>c. c = 53) five (good info_text) = Inr (Some 5, Some (replicate 64 97))"
proof -
  have "py_int five [53] = Some 5"
    by (simp add: py_int_def strip_def is_space_def five_def digits_value_def int_max_str_digits_def Let_def)
  moreover have "hex_digest (replicate 64 97)" by (simp add: hex_digest_def list_all_iff)
  moreover have "map ascii_lower (replicate 64 97) = replicate 64 97" by (simp add: ascii_lower_def)
  ultimately show ?thesis by (simp add: parse_info_def info_lines good_def)
qed

subsection \<open>The runs of an upload\<close>

definition sample_which :: "string \<Rightarrow> string option" where
  "sample_which name = Some name"

definition sample_link :: link where
  "sample_link = \<lparr>lk_host = ''h'', lk_user = None, lk_port = None, lk_connect_timeout = 5\<rparr>"

definition local_file :: string where
  "local_file = path_str [''srv'', part_name ''a'' sample_uid]"

definition sample_start :: "staged \<Rightarrow> remote_files \<Rightarrow> remote_files ssh_world" where
  "sample_start stage r = \<lparr>sw_files = \<lparr>disk = upload_disk ''hello'', schedule = []\<rparr>, sw_stage = stage, sw_remote = r, sw_ran = []\<rparr>"

lemma sample_target: "target_of (\<lambda>s. None) ''h'' None None = Inr (''h'', None, None)"
  by (simp add: target_of_def and_then_def validate_host_def host_re_def validate_user_def validate_port_def sstrip_def space_char_def
      is_space_def alnum_def is_alpha_def host_char_def)

lemma plain_opens: "opens plain_settings plain_env (upload_disk c) local_file False True 2"
proof -
  have "allowed_roots plain_settings = allowed_roots sample_settings" by (simp add: plain_settings_def)
  then have "lexical_root plain_settings = lexical_root sample_settings" by (intro ext) (simp only: lexical_root_def)
  with sample_opens [of c] show ?thesis by (simp only: opens_def local_file_def)
qed

lemma plain_limits: "max_transfer_bytes plain_settings = 2147483648" "path_key plain_settings = []" "max_output_bytes plain_settings = 262144"
  by (simp_all add: plain_settings_def sample_settings_def default_settings_def)

lemma read_hello: "read_fd_all 2 \<lparr>disk = upload_disk ''hello'', schedule = []\<rparr> = (\<lparr>disk = upload_disk ''hello'', schedule = []\<rparr>, Inr ''hello'')"
proof -
  let ?w = "\<lparr>disk = upload_disk ''hello'', schedule = []\<rparr>"
  have "do_call (sys_read_at 2 0 1048576) ?w = (?w, Inr ''hello'')" "do_call (sys_read_at 2 (Suc (Suc (Suc (Suc (Suc 0))))) 1048576) ?w = (?w, Inr [])"
    using sample_content [of "''hello''"] by (auto intro!: quiet_call simp: sys_read_at_def read_all_reg)
  then show ?thesis
    by (simp add: read_fd_all_def read_rest.simps [of 1048576 2 0] read_rest.simps [of 1048576 2 "Suc _"])
qed

lemma sample_freeze:
  "freeze_allowed_file fake_sha plain_settings plain_env plain_kernel ''in'' local_file (sample_start [] r)
   = (sample_start [(''in'', Reg ''hello'')] r, Inr (''in'', 5, fake_sha ''hello''))"
proof -
  let ?w = "\<lparr>disk = upload_disk ''hello'', schedule = []\<rparr>"
  have "open_beneath plain_settings plain_env plain_kernel local_file False True ?w = (?w, Inr 2)"
    by (rule opens_run) (simp_all add: plain_opens plain_kernel_def)
  moreover have "fstat_regular 2 m ?w = (?w, Inr (file_meta (Reg ''hello'')))" for m
    by (rule fstat_regular_quiet [where c = "''hello''"]) (simp_all add: upload_disk_def file_meta_def)
  ultimately show ?thesis
    by (simp add: freeze_allowed_file_def bind_prog_def with_files_def sample_start_def read_hello check_def ret_def stage_put_def
        st_size_def file_meta_def plain_limits)
qed

lemma sample_scp_run:
  "\<exists>rs. run_process plain_settings sample_net (''scp'' # option_list 5 @ [''-q''] @ port_args ''-P'' None @ [''--'', ''in'', remote_spec ''h'' None there_temp])
      None (sample_start [(''in'', Reg c)] r) = ((sample_start [(''in'', Reg c)] (r(there_temp := Some c)))\<lparr>sw_ran := rs\<rparr>, Inr (good []))"
proof -
  have "remote_spec ''h'' None there_temp = ''h:'' @ there_temp" by (simp add: remote_spec_def destination_def)
  then show ?thesis
    using good_outcome [of "[]" False]
    by (simp add: run_process_def sample_net_def sample_scp_def sample_start_def utf8_def)
qed

lemma script_text: "info_script p \<noteq> link_script t p" "info_script p \<noteq> remove_script t"
  by (simp_all add: info_script_def link_script_def remove_script_def)

lemma sample_script_on:
  assumes "sample_net argv (Some script) (stage, r) = ((stage', r'), ok_child (utf8 t))" "list_all scalar t" "length (utf8 t) \<le> 262144"
    and "argv = ssh_vector ''ssh'' ''h'' None None 5"
  shows "script_on plain_settings sample_which sample_net sample_link script ((sample_start stage r)\<lparr>sw_ran := rs\<rparr>)
    = ((sample_start stage' r')\<lparr>sw_ran := rs @ [(argv, Some script)]\<rparr>, Inr (good t))"
  using assms good_outcome [OF assms(2,3), of True]
  by (simp add: script_on_def run_ssh_script_def bind_prog_def lift_res_def client_binary_def sample_which_def ssh_options_def sample_link_def
      run_process_def sample_start_def ssh_vector_def)

subsection \<open>An upload and its result\<close>

definition hello_there :: remote_files where
  "hello_there = (\<lambda>p. None)(there := Some ''hello'')"

lemma info_run:
  assumes "r there = Some b" "length b = 5"
  shows "sample_net argv (Some (info_script there)) (stage, r) = ((stage, r), ok_child (utf8 info_text))"
  using assms by (simp add: sample_net_def sample_sh_def)

lemma link_run:
  assumes "r there = None"
  shows "sample_net argv (Some (link_script there_temp there)) (stage, r) = ((stage, r(there := r there_temp, there_temp := None)), ok_child [])"
  using assms script_text script_text(1) [symmetric] by (simp add: sample_net_def sample_sh_def)

lemma info_text_size: "list_all scalar info_text" "length (utf8 info_text) \<le> 262144"
proof -
  show "list_all scalar info_text" by (simp add: info_text_def scalar_def list_all_iff)
  have "list_all (\<lambda>c. c < 128) info_text" by (simp add: info_text_def list_all_iff)
  then show "length (utf8 info_text) \<le> 262144" by (simp add: utf8_ascii) (simp add: info_text_def)
qed

lemma sample_info_run:
  assumes "r there = Some b" "length b = 5"
  shows "\<exists>rs'. remote_file_info (\<lambda>c. c = 53) five plain_settings sample_which sample_net sample_link there ((sample_start stage r)\<lparr>sw_ran := rs\<rparr>)
    = ((sample_start stage r)\<lparr>sw_ran := rs'\<rparr>, Inr (Some 5, Some (replicate 64 97), good info_text))"
  using sample_script_on [OF info_run [where r = r and b = b, OF assms] info_text_size HOL.refl]
  by (auto simp: remote_file_info_def bind_prog_def lift_res_def ret_def sample_info_parse)

lemma local_resolves: "resolve_allowed_path plain_settings plain_env (Some local_file) None = Inr [''srv'', part_name ''a'' sample_uid]"
proof -
  have "allowed_roots plain_settings = [[''srv'']]" by (simp add: plain_settings_def sample_settings_def default_settings_def)
  then show ?thesis
    by (simp add: resolve_allowed_path_def local_file_def plain_env_def parse_path_def anchor_def normpath_def is_under_allowed_root_def
        under_root_def path_str_def part_name_def sample_uid_def numeral_eq_Suc)
qed

lemma sample_upload_frozen:
  "\<exists>w' res. upload_frozen (\<lambda>c. c = 53) five plain_settings plain_env sample_which sample_net sample_link local_file there there_temp False
      ''in'' 5 (fake_sha ''hello'') (sample_start [(''in'', Reg ''hello'')] (\<lambda>p. None)) = (w', Inr res) \<and> st_success res"
proof -
  let ?w = "sample_start [(''in'', Reg ''hello'')] (\<lambda>p. None)"
  let ?r1 = "(\<lambda>p. None)(there_temp := Some ''hello'')"
  let ?r2 = "?r1(there := ?r1 there_temp, there_temp := None)"
  let ?s = "[(''in'', Reg ''hello'')]"
  obtain rs1 where scp: "run_process plain_settings sample_net (''scp'' # option_list 5 @ [''-q''] @ port_args ''-P'' None @ [''--'', ''in'', remote_spec ''h'' None there_temp])
      None ?w = ((sample_start ?s ?r1)\<lparr>sw_ran := rs1\<rparr>, Inr (good []))"
    using sample_scp_run by blast
  have link: "script_on plain_settings sample_which sample_net sample_link (link_script there_temp there) ((sample_start ?s ?r1)\<lparr>sw_ran := rs1\<rparr>)
      = ((sample_start ?s ?r2)\<lparr>sw_ran := rs1 @ [(ssh_vector ''ssh'' ''h'' None None 5, Some (link_script there_temp there))]\<rparr>, Inr (good []))"
    by (rule sample_script_on [where t = "[]", OF _ _ _ HOL.refl]) (simp_all add: link_run utf8_def)
  define v where "v = (sample_start ?s ?r2)\<lparr>sw_ran := rs1 @ [(ssh_vector ''ssh'' ''h'' None None 5, Some (link_script there_temp there))]\<rparr>"
  obtain rs2 where info: "remote_file_info (\<lambda>c. c = 53) five plain_settings sample_which sample_net sample_link there v
      = ((sample_start ?s ?r2)\<lparr>sw_ran := rs2\<rparr>, Inr (Some 5, Some (replicate 64 97), good info_text))"
    using sample_info_run [of ?r2 "''hello''"] unfolding v_def by force
  have files: "with_files (resolved_str plain_settings plain_env local_file) u = (u, Inr local_file)" for u :: "remote_files ssh_world"
    by (simp add: with_files_def resolved_str_def bind_prog_def lift_res_def local_resolves ret_def) (simp add: local_file_def)
  have digest: "ustr_of (fake_sha ''hello'') = replicate 64 97" by (simp add: fake_sha_def ustr_of_def)
  have "\<not> bad_run (good t)" for t by (simp add: bad_run_def good_def)
  moreover have "ssh_options 5 = Inr (option_list 5)" "client_binary sample_which ''scp'' = Inr ''scp''"
    by (simp_all add: ssh_options_def client_binary_def sample_which_def)
  moreover have "ro_returncode (good t) = Some 0" for t by (simp add: good_def)
  moreover have "lk_host sample_link = ''h''" "lk_user sample_link = None" "lk_port sample_link = None" "lk_connect_timeout sample_link = 5"
    by (simp_all add: sample_link_def)
  ultimately show ?thesis
    using scp link [folded v_def] info
    by (simp add: upload_frozen_def verify_upload_def Let_def bind_prog_def lift_res_def ret_def files digest transfer_done_def)
qed

lemma sample_upload_run:
  "\<exists>w' res. ssh_upload fake_sha (\<lambda>c. c = 53) five (\<lambda>s. None) plain_settings plain_env plain_kernel sample_which sample_net ''in'' ''0''
      ''h'' None None local_file there 5 60000 False (sample_start [] (\<lambda>p. None)) = (w', Inr res) \<and> st_success res"
  using sample_upload_frozen
  by (auto simp: ssh_upload_def bind_prog_def lift_res_def sample_target there_valid check_def ret_def temp_name finally_do_def sample_freeze
      stage_drop_def sample_link_def)

lemma sample_info_true: "info_true sample_net (\<lambda>r. r) fake_sha (\<lambda>c. c = 53) five plain_settings there"
proof -
  have digest: "ustr_of (fake_sha b) = replicate 64 97" for b by (simp add: fake_sha_def ustr_of_def)
  have "outcome_of plain_settings True failing = Inr out \<Longrightarrow> ro_returncode out = Some 1" for out
    by (auto simp: outcome_of_def failing_def ok_child_def Let_def split: prod.splits)
  moreover have "outcome_of plain_settings True (ok_child (utf8 info_text)) = Inr (good info_text)"
    by (rule good_outcome [OF info_text_size])
  ultimately show ?thesis
    unfolding info_true_def sample_net_def sample_sh_def
    by (auto simp: digest sample_info_parse split: option.splits if_splits)
qed

theorem upload_success_is_verified_witness:
  "\<exists>w' res. ssh_upload fake_sha (\<lambda>c. c = 53) five (\<lambda>s. None) plain_settings plain_env plain_kernel sample_which sample_net ''in'' ''0''
      ''h'' None None local_file there 5 60000 False (sample_start [] (\<lambda>p. None)) = (w', Inr res)
    \<and> (\<exists>b. sw_remote w' there = Some b \<and> st_bytes res = int (length b)) \<and> map_of (sw_stage w') ''in'' = None"
proof -
  obtain w' res where run: "ssh_upload fake_sha (\<lambda>c. c = 53) five (\<lambda>s. None) plain_settings plain_env plain_kernel sample_which sample_net ''in'' ''0''
      ''h'' None None local_file there 5 60000 False (sample_start [] (\<lambda>p. None)) = (w', Inr res)" "st_success res"
    using sample_upload_run by blast
  from upload_success_is_verified [OF sample_info_true run] run(1) show ?thesis by blast
qed


subsection \<open>A download and its result\<close>

lemma publish_staged_run:
  assumes "schedule w = []" "inodes (disk w) (fresh_ino (disk w)) = None" "entries (disk w) parent \<noteq> None"
    and "lookup_at (disk w) parent stage = None" "lookup_at (disk w) parent name = None" "stage \<noteq> name"
  shows "\<exists>w'. finally_do (publish_staged parent stage name mode data False) (discard_staged parent stage) w = (w', Inr ())"
proof -
  let ?i = "fresh_ino (disk w)"
  obtain f1 where f1: "sys_create_excl parent stage mode (disk w) = (f1, Inr ?i)"
    using assms(3,4) by (simp add: sys_create_excl_def new_inode_def Let_def split: prod.split)
  note c = created [OF f1 assms(2)]
  then obtain m where m: "inodes f1 ?i = Some m" by (auto simp: reg_content_def split: option.splits)
  let ?f2 = "chmod_inode ?i mode f1"
  have "sys_fchmod ?i mode f1 = (?f2, Inr ())" using m by (simp add: sys_fchmod_def chmod_inode_def)
  moreover obtain f3 where f3: "write_all (OSMessage ''Short write while publishing SSH download'') ?i data (w\<lparr>disk := ?f2\<rparr>) = (w\<lparr>disk := f3\<rparr>, Inr ())"
      "reg_content f3 ?i = Some data" "same_shape ?f2 f3"
    using quiet_write_all [of "w\<lparr>disk := ?f2\<rparr>" ?i "[]" "OSMessage ''Short write while publishing SSH download''" data] assms(1) c by auto
  ultimately have ws: "write_stage parent stage mode data w = (w\<lparr>disk := f3\<rparr>, Inr ())"
    using f1 assms(1) by (simp add: write_stage_def bind_prog_def do_call_def sys_fsync_def)
  note ws' = write_stage_Inr [OF assms(1,2) ws]
  have l: "lookup_at f3 parent stage = Some ?i" "lookup_at f3 parent name = None" using ws' assms(5,6) by auto
  have e: "entries f3 parent \<noteq> None" "entries f3 ?i = None"
    using l(1) f3(2) by (auto simp: lookup_at_def reg_no_entries split: option.splits)
  have "parent \<noteq> ?i" using assms(2,3) by (auto simp: entries_def)
  with l e obtain f4 where f4: "sys_rename_noreplace parent stage parent name f3 = (f4, Inr ())"
    by (auto simp: sys_rename_noreplace_def contains_dir_plain)
  then have cs: "commit_stage parent stage name False (w\<lparr>disk := f3\<rparr>) = (w\<lparr>disk := f4\<rparr>, Inr ())"
    using assms(1) by (simp add: commit_stage_def handle_def do_call_def)
  have "lookup_at f4 parent stage = None"
    using renamed [OF disjI1 [OF f4] assms(6) l(1)] assms(6) by simp
  with ws cs assms(1) show ?thesis
    by (simp add: publish_staged_def finally_do_def bind_prog_def do_call_def sys_fsync_def discard_staged_def handle_def sys_unlink_def sys_lstat_def
        sys_error_def ret_def)
qed

definition dest_file :: string where
  "dest_file = path_str [''srv'', ''a'']"

lemma dest_parent: "open_parent_beneath plain_settings plain_env plain_kernel dest_file \<lparr>disk = upload_disk c, schedule = []\<rparr>
    = (\<lparr>disk = upload_disk c, schedule = []\<rparr>, Inr (7, ''a'', [''srv'', ''a'']))"
proof -
  have r: "allowed_roots plain_settings = allowed_roots sample_settings" by (simp add: plain_settings_def)
  then have "lexical_root plain_settings = lexical_root sample_settings" by (intro ext) (simp only: lexical_root_def)
  with r sample_parents(1) [of c] have "parent_opens plain_settings plain_env (upload_disk c) [''srv'', ''a''] 7"
    by (simp only: parent_opens_def opens_def simp_thms)
  from parent_opens_run [of _ _ "\<lparr>disk = upload_disk c, schedule = []\<rparr>", unfolded world.simps, OF this, of plain_kernel]
  show ?thesis by (simp add: dest_file_def plain_kernel_def)
qed

lemma dest_disk:
  "lookup_at (upload_disk c) 7 ''a'' = None" "lookup_at (upload_disk c) 7 (download_stage_name ''a'' ''1'') = None"
  "entries (upload_disk c) 7 \<noteq> None" "inodes (upload_disk c) (fresh_ino (upload_disk c)) = None"
  by (simp_all add: lookup_at_def entries_def upload_disk_def file_meta_def part_name_def download_stage_name_def)

lemma dest_published:
  "\<exists>w'. publish_download plain_settings plain_env plain_kernel ''1'' ''hello'' dest_file False 420 \<lparr>disk = upload_disk c, schedule = []\<rparr>
    = (w', Inr (path_str [''srv'', ''a''], False))"
proof -
  let ?w = "\<lparr>disk = upload_disk c, schedule = []\<rparr>"
  have "lstat_at 7 ''a'' ?w = (?w, Inr None)" by (rule quiet_lstat_none) (simp_all add: dest_disk)
  moreover obtain w' where "finally_do (publish_staged 7 (download_stage_name ''a'' ''1'') ''a'' 420 ''hello'' False)
      (discard_staged 7 (download_stage_name ''a'' ''1'')) ?w = (w', Inr ())"
    using publish_staged_run [of ?w 7 "download_stage_name ''a'' ''1''" "''a''" 420 "''hello''"] dest_disk stage_name_differs by auto
  ultimately show ?thesis
    by (simp add: publish_download_def bind_prog_def ensure_mode_def check_def dest_parent refuse_existing_def ret_def)
qed

lemma sample_receive:
  "\<exists>rs'. receive_copy plain_settings sample_which sample_net sample_link there ''out'' ((sample_start [] hello_there)\<lparr>sw_ran := rs\<rparr>)
    = ((sample_start [(''out'', Reg ''hello'')] hello_there)\<lparr>sw_ran := rs'\<rparr>, Inr (Some ''hello''))"
proof -
  have "\<not> bad_run (good t)" for t by (simp add: bad_run_def good_def)
  moreover have "''out'' \<noteq> ''h:'' @ there_temp" by (simp add: there_temp_def)
  ultimately show ?thesis
    using good_outcome [of "[]" False]
    by (simp add: receive_copy_def bind_prog_def lift_res_def client_binary_def sample_which_def ssh_options_def sample_link_def run_process_def
        sample_net_def sample_scp_def sample_start_def hello_there_def open_temp_def temp_content_def plain_limits ret_def utf8_def)
qed

lemma sample_download_run:
  "\<exists>w' res. ssh_download fake_sha (\<lambda>c. c = 53) five (\<lambda>s. None) plain_settings plain_env plain_kernel sample_which sample_net ''out'' ''1''
      ''h'' None None there dest_file 5 60000 False 420 (sample_start [] hello_there) = (w', Inr res) \<and> st_success res"
proof -
  let ?w = "\<lparr>disk = upload_disk ''hello'', schedule = []\<rparr>"
  have parent: "with_files (open_parent_beneath plain_settings plain_env plain_kernel dest_file) (sample_start [] hello_there)
      = (sample_start [] hello_there, Inr (7, ''a'', [''srv'', ''a'']))"
    by (simp add: with_files_def sample_start_def dest_parent)
  have rs: "sample_start [] hello_there = (sample_start [] hello_there)\<lparr>sw_ran := []\<rparr>" by (simp add: sample_start_def)
  obtain rs1 where info: "remote_file_info (\<lambda>c. c = 53) five plain_settings sample_which sample_net sample_link there (sample_start [] hello_there)
      = ((sample_start [] hello_there)\<lparr>sw_ran := rs1\<rparr>, Inr (Some 5, Some (replicate 64 97), good info_text))"
    using sample_info_run [of hello_there "''hello''" "[]" "[]"] unfolding rs [symmetric] by (auto simp: hello_there_def)
  obtain rs2 where got: "receive_copy plain_settings sample_which sample_net sample_link there ''out'' ((sample_start [] hello_there)\<lparr>sw_ran := rs1\<rparr>)
      = ((sample_start [(''out'', Reg ''hello'')] hello_there)\<lparr>sw_ran := rs2\<rparr>, Inr (Some ''hello''))"
    using sample_receive by blast
  obtain v where pub: "publish_download plain_settings plain_env plain_kernel ''1'' ''hello'' dest_file False 420 ?w
      = (v, Inr (path_str [''srv'', ''a''], False))"
    using dest_published by blast
  have digest: "ustr_of (fake_sha ''hello'') = replicate 64 97" by (simp add: fake_sha_def ustr_of_def)
  have "ro_returncode (good t) = Some 0" for t by (simp add: good_def)
  then have "\<exists>w' res. download_to fake_sha (\<lambda>c. c = 53) five plain_settings plain_env plain_kernel sample_which sample_net sample_link there
      dest_file ''out'' ''1'' False 420 (sample_start [] hello_there) = (w', Inr res) \<and> st_success res"
    using info got pub
    by (simp add: download_to_def Let_def bind_prog_def check_def plain_limits ret_def digest with_files_def transfer_done_def)
      (auto simp: sample_start_def ret_def)
  then show ?thesis
    using parent
    by (auto simp: ssh_download_def bind_prog_def lift_res_def sample_target there_valid check_def ret_def finally_do_def stage_drop_def sample_link_def)
qed


subsection \<open>A long path\<close>

definition long_path :: "nat \<Rightarrow> string" where
  "long_path n = CHR ''/'' # replicate n CHR ''a''"

lemma long_path_run: "CHR ''/'' \<notin> set s \<Longrightarrow> \<not> occurs ''//'' (CHR ''/'' # s)" "CHR ''/'' \<notin> set s \<Longrightarrow> split_on CHR ''/'' s = [s]"
proof (induction s)
  case (Cons c s)
  { case 1 with Cons.IH(1) show ?case by (auto simp: starts_def occurs_iff Cons_eq_append_conv) }
  { case 2 with Cons.IH(2) show ?case by auto }
qed (simp_all add: starts_def)

lemma long_path_valid:
  assumes "1 \<le> n" "n \<le> 4095"
  shows "validate_remote_path (long_path n) = Inr (long_path n)"
proof -
  let ?a = "replicate n CHR ''a''"
  have "CHR ''/'' \<notin> set ?a" by simp
  note r = long_path_run [OF this]
  have "hd ?a = CHR ''a''" using assms by simp
  then have "?a \<noteq> ''.''" "?a \<noteq> ''..''" by auto
  with assms r show ?thesis
    by (auto simp: validate_remote_path_def long_path_def remote_char_def alnum_def is_alpha_def list_all_iff simp del: occurs.simps)
qed

definition far :: string where
  "far = long_path 4090"

lemma far_valid: "validate_remote_path far = Inr far"
  unfolding far_def by (rule long_path_valid) simp_all

lemma join_length: "length b \<le> length (posix_join a b)"
  by (simp add: posix_join_def)

lemma far_temp: "4096 < length (remote_temp_name far ''0'')"
proof -
  have "basename (long_path n) = replicate n CHR ''a''" for n
    using basename_slash [of "replicate n CHR ''a''" "[]"] by (simp add: long_path_def)
  then have "length (basename far) = 4090" by (simp add: far_def)
  moreover have "length (''.'' @ basename far @ ''.rhmcp-'' @ ''0'' @ ''.part'') \<le> length (remote_temp_name far ''0'')"
    unfolding remote_temp_name_def by (rule join_length)
  ultimately show ?thesis by simp
qed

theorem long_remote_path_leaks_copy_witness:
  "\<exists>w' e data. ssh_upload fake_sha (\<lambda>c. c = 53) five (\<lambda>s. None) plain_settings plain_env plain_kernel sample_which sample_net ''in'' ''0''
      ''h'' None None local_file far 5 60000 False (sample_start [] (\<lambda>p. None)) = (w', Inl e)
    \<and> map_of (sw_stage w') ''in'' = Some (Reg data)"
proof -
  from long_remote_path_leaks_copy [OF sample_target far_valid _ _ sample_freeze far_temp, of 60000 "\<lambda>c. c = 53" five
      sample_which sample_net 5 False "\<lambda>p. None"]
  show ?thesis by (intro exI [of _ "sample_start [(''in'', Reg ''hello'')] (\<lambda>p. None)"]) auto
qed

end
