(* ===== verification/Product.thy ===== *)
theory Product
  imports Argv_Redact Json
begin

text \<open>
  What the server says of itself: the build provenance of \<open>src/remote_host_mcp/provenance.py\<close>, read from the environment or
  from the files below \<open>.git\<close>, and the generic texts of \<open>src/remote_host_mcp/branding.py\<close>.  \<open>rd\<close> reads a file below the
  \<open>.git\<close> directory as UTF-8 text.
\<close>

subsection \<open>Provenance\<close>

definition hex_any :: "nat \<Rightarrow> bool" where
  "hex_any c = (48 \<le> c \<and> c \<le> 57 \<or> 97 \<le> c \<and> c \<le> 102 \<or> 65 \<le> c \<and> c \<le> 70)"

definition commit_re :: "ustr \<Rightarrow> bool" where
  "commit_re s = (7 \<le> length s \<and> length s \<le> 64 \<and> list_all hex_any s)"

definition ref_char :: "nat \<Rightarrow> bool" where
  "ref_char c = (65 \<le> c \<and> c \<le> 90 \<or> 97 \<le> c \<and> c \<le> 122 \<or> 48 \<le> c \<and> c \<le> 57 \<or> c \<in> {46, 95, 47, 45})"

definition ref_re :: "ustr \<Rightarrow> bool" where
  "ref_re s = (1 \<le> length s \<and> length s \<le> 200 \<and> list_all ref_char s)"

definition given :: "ustr option \<Rightarrow> ustr" where
  "given v = (case v of Some s \<Rightarrow> s | None \<Rightarrow> [])"

definition valid_commit :: "ustr option \<Rightarrow> ustr option" where
  "valid_commit v = (let s = strip (given v) in if commit_re s then Some (map ascii_lower s) else None)"

definition valid_ref :: "ustr option \<Rightarrow> ustr option" where
  "valid_ref v = (let s = strip (given v) in if \<not> ref_re s \<or> occurs (ustr_of ''..'') s then None else Some s)"

text \<open>A file that cannot be opened or read; other exceptions, such as text that is not UTF-8, are not caught.\<close>

definition os_error :: "exn \<Rightarrow> bool" where
  "os_error e = (case e of OSError _ \<Rightarrow> True | OSMessage _ \<Rightarrow> True | _ \<Rightarrow> False)"

definition or_os_error :: "'a res \<Rightarrow> 'a \<Rightarrow> 'a res" where
  "or_os_error r dflt = (case r of Inl e \<Rightarrow> if os_error e then Inr dflt else Inl e | Inr x \<Rightarrow> Inr x)"

text \<open>\<open>line.split(" ", 1)\<close>\<close>

definition split_once :: "ustr \<Rightarrow> ustr list" where
  "split_once s = (let a = takeWhile (\<lambda>c. c \<noteq> 32) s in if length a = length s then [s] else [a, drop (Suc (length a)) s])"

definition line_body :: "ustr \<Rightarrow> ustr" where
  "line_body l =
     (if 2 \<le> length l \<and> drop (length l - 2) l = [13, 10] then take (length l - 2) l
      else if l \<noteq> [] \<and> is_line_end (last l) then butlast l else l)"

fun packed_commit :: "ustr \<Rightarrow> ustr list \<Rightarrow> ustr option" where
  "packed_commit ref [] = None"
| "packed_commit ref (l # ls) =
     (if starts [35] l \<or> starts [94] l then packed_commit ref ls
      else case split_once l of
          [a, b] \<Rightarrow> if b = ref then valid_commit (Some a) else packed_commit ref ls
        | _ \<Rightarrow> packed_commit ref ls)"

definition ref_commit :: "(ustr \<Rightarrow> ustr res) \<Rightarrow> ustr \<Rightarrow> ustr option res" where
  "ref_commit rd ref =
     and_then (or_os_error (and_then (rd ref) (\<lambda>t. Inr (valid_commit (Some (strip t))))) None) (\<lambda>commit.
       if commit \<noteq> None then Inr commit
       else and_then (or_os_error (rd (ustr_of ''packed-refs'')) []) (\<lambda>packed.
         Inr (packed_commit ref (map line_body (splitlines_keep packed)))))"

definition head_commit :: "(ustr \<Rightarrow> ustr res) \<Rightarrow> ustr \<Rightarrow> (ustr option \<times> ustr option) res" where
  "head_commit rd head =
     (if \<not> starts (ustr_of ''ref: '') head then Inr (valid_commit (Some head), None)
      else case valid_ref (Some (strip (drop 5 head))) of
          None \<Rightarrow> Inr (None, None)
        | Some ref \<Rightarrow> and_then (ref_commit rd ref) (\<lambda>commit. Inr (commit, Some ref)))"

definition read_git :: "bool \<Rightarrow> (ustr \<Rightarrow> ustr res) \<Rightarrow> (ustr option \<times> ustr option) res" where
  "read_git has_git rd =
     (if \<not> has_git then Inr (None, None)
      else case rd (ustr_of ''HEAD'') of
          Inl e \<Rightarrow> if os_error e then Inr (None, None) else Inl e
        | Inr t \<Rightarrow> head_commit rd (strip t))"

definition first_set :: "(string \<Rightarrow> ustr option) \<Rightarrow> string \<Rightarrow> string \<Rightarrow> ustr option" where
  "first_set env a b = (if given (env a) \<noteq> [] then env a else env b)"

definition build_provenance ::
    "(string \<Rightarrow> ustr option) \<Rightarrow> bool \<Rightarrow> (ustr \<Rightarrow> ustr res) \<Rightarrow> (ustr option \<times> ustr option) res" where
  "build_provenance env has_git rd =
     (let commit = valid_commit (first_set env ''RHMCP_BUILD_COMMIT'' ''DSW_MCP_BUILD_COMMIT'');
          ref = valid_ref (first_set env ''RHMCP_BUILD_REF'' ''DSW_MCP_BUILD_REF'')
      in and_then (read_git has_git rd) (\<lambda>(git_commit, git_ref).
           Inr (if commit \<noteq> None then commit else git_commit, if ref \<noteq> None then ref else git_ref)))"

definition commit_ok :: "ustr \<Rightarrow> bool" where
  "commit_ok c \<longleftrightarrow> 7 \<le> length c \<and> length c \<le> 64 \<and> list_all (\<lambda>x. 48 \<le> x \<and> x \<le> 57 \<or> 97 \<le> x \<and> x \<le> 102) c"

definition ref_ok :: "ustr \<Rightarrow> bool" where
  "ref_ok r \<longleftrightarrow> 1 \<le> length r \<and> length r \<le> 200 \<and> list_all ref_char r \<and> \<not> occurs (ustr_of ''..'') r"

lemma hex_lowered: "hex_any x \<Longrightarrow> 48 \<le> ascii_lower x \<and> ascii_lower x \<le> 57 \<or> 97 \<le> ascii_lower x \<and> ascii_lower x \<le> 102"
  by (auto simp: hex_any_def ascii_lower_def)

lemma valid_commit_ok: "valid_commit v = Some c \<Longrightarrow> commit_ok c"
  using hex_lowered by (fastforce simp: valid_commit_def commit_re_def commit_ok_def Let_def list_all_iff split: if_split_asm)

lemma valid_ref_ok: "valid_ref v = Some r \<Longrightarrow> ref_ok r"
  by (auto simp: valid_ref_def ref_re_def ref_ok_def Let_def split: if_splits)

lemma packed_commit_ok: "packed_commit ref ls = Some c \<Longrightarrow> commit_ok c"
  by (induction ref ls rule: packed_commit.induct) (auto intro: valid_commit_ok split: if_splits list.splits)

lemma or_os_error_Inr: "or_os_error r d = Inr x \<longleftrightarrow> r = Inr x \<or> (\<exists>e. r = Inl e \<and> os_error e \<and> x = d)"
  by (auto simp: or_os_error_def split: sum.splits)

lemma ref_commit_ok: "ref_commit rd ref = Inr (Some c) \<Longrightarrow> commit_ok c"
  by (auto simp: ref_commit_def and_then_Inr or_os_error_Inr intro: valid_commit_ok packed_commit_ok split: if_split_asm)

lemma head_commit_ok: "head_commit rd head = Inr (c, r) \<Longrightarrow> (\<forall>x. c = Some x \<longrightarrow> commit_ok x) \<and> (\<forall>x. r = Some x \<longrightarrow> ref_ok x)"
  by (auto simp: head_commit_def and_then_Inr intro: valid_commit_ok valid_ref_ok ref_commit_ok split: if_split_asm option.split_asm)

lemma read_git_ok: "read_git g rd = Inr (c, r) \<Longrightarrow> (\<forall>x. c = Some x \<longrightarrow> commit_ok x) \<and> (\<forall>x. r = Some x \<longrightarrow> ref_ok x)"
  using head_commit_ok by (auto simp: read_git_def split: if_split_asm sum.split_asm)

text \<open>Whatever the environment and the files of the repository hold, what the server reports of its build is nothing, or a
  commit of 7 to 64 lower-case hexadecimal digits, and nothing, or a reference of at most 200 harmless characters without
  two dots in a row.\<close>

theorem provenance_well_formed:
  assumes "build_provenance env has_git rd = Inr (c, r)"
  shows "(\<forall>x. c = Some x \<longrightarrow> commit_ok x) \<and> (\<forall>x. r = Some x \<longrightarrow> ref_ok x)"
  using assms read_git_ok [of has_git rd]
  by (auto simp: build_provenance_def and_then_Inr Let_def valid_commit_ok valid_ref_ok split: if_splits)

lemma provenance_well_formed_witness:
  "build_provenance (\<lambda>v. if v = ''RHMCP_BUILD_COMMIT'' then Some [32, 48, 49, 50, 51, 65, 66, 67] else None) False (\<lambda>f. Inr [])
     = Inr (Some [48, 49, 50, 51, 97, 98, 99], None)
   \<and> commit_ok [48, 49, 50, 51, 97, 98, 99]"
proof
  show e: "build_provenance (\<lambda>v. if v = ''RHMCP_BUILD_COMMIT'' then Some [32, 48, 49, 50, 51, 65, 66, 67] else None) False (\<lambda>f. Inr [])
     = Inr (Some [48, 49, 50, 51, 97, 98, 99], None)"
    by (simp add: build_provenance_def first_set_def given_def valid_commit_def commit_re_def hex_any_def ascii_lower_def strip_def is_space_def
        valid_ref_def ref_re_def read_git_def and_then_def Let_def)
  show "commit_ok [48, 49, 50, 51, 97, 98, 99]" using provenance_well_formed [OF e] by simp
qed

subsection \<open>Generic texts\<close>

definition replacements :: "(string \<times> string) list" where
  "replacements =
     [(''DSW Direct Control'', ''Remote Host MCP''), (''ModelScope DSW'', ''remote Linux host''), (''DSW_MCP_'', ''RHMCP_''),
      (''DSWD-owned'', ''Remote Host MCP-owned''), (''DSWD server'', ''Remote Host MCP server''), (''DSWD Job engine'', ''durable Job engine''),
      (''explicit DSWD job control'', ''explicit durable-job control''), (''DSW/MCP'', ''host/MCP''), (''DSW directory'', ''host directory''),
      (''DSW text file'', ''host text file''), (''DSW file'', ''host file''), (''DSW path'', ''host path''), (''on DSW'', ''on the remote host''),
      (''locally on DSW'', ''locally on the remote host''), (''from a DSW file'', ''from a host file''), (''inside DSW'', ''inside the remote host''),
      (''DSWD'', ''Remote Host MCP''), (''DSW'', ''host'')]"

definition generic_text :: "ustr \<Rightarrow> ustr" where
  "generic_text s = fold (\<lambda>(old, new) r. replace_all (ustr_of old) (ustr_of new) r) replacements s"

fun rewrite_schema :: "json \<Rightarrow> json" where
  "rewrite_schema (JStr s) = JStr (generic_text s)"
| "rewrite_schema (JList xs) = JList (map rewrite_schema xs)"
| "rewrite_schema (JObj d) = JObj (map (\<lambda>(k, v). (k, rewrite_schema v)) d)"
| "rewrite_schema v = v"

text \<open>The strings of a value, the keys of objects left out.\<close>

fun texts :: "json \<Rightarrow> ustr list" where
  "texts (JStr s) = [s]"
| "texts (JList xs) = concat (map texts xs)"
| "texts (JObj d) = concat (map (\<lambda>(k, v). texts v) d)"
| "texts v = []"

text \<open>No text of a rewritten schema, at any depth, contains the historical product token; names of members are kept.\<close>

theorem generic_schema_hides_token:
  "t \<in> set (texts (rewrite_schema v)) \<Longrightarrow> \<not> occurs (ustr_of ''DSW'') t"
proof (induction v arbitrary: t rule: rewrite_schema.induct)
  case (1 s)
  have "ustr_of ''host'' = 104 # ustr_of ''os'' @ [116]" by (simp add: ustr_of_def)
  moreover have "\<not> occurs (ustr_of ''DSW'') (replace_all (ustr_of ''DSW'') (104 # ustr_of ''os'' @ [116]) r)" for r
    by (rule replace_all_removes) (simp_all add: ustr_of_def)
  ultimately have "\<not> occurs (ustr_of ''DSW'') (generic_text s)" by (simp add: generic_text_def replacements_def)
  with 1 show ?case by simp
qed auto

lemma generic_schema_hides_token_witness:
  "\<forall>t \<in> set (texts (rewrite_schema (JObj [(ustr_of ''title'', JStr (ustr_of ''Run on DSW''))]))). \<not> occurs (ustr_of ''DSW'') t"
  using generic_schema_hides_token by blast

end
