(* ===== verification/Auth.thy ===== *)
theory Auth
  imports Proc_Stat Json Env_Config
begin

text \<open>
  Bearer tokens in OAuth mode, \<open>src/remote_host_mcp/auth.py\<close>, and the addresses of the server.  \<open>decode\<close> stands for PyJWT
  with the key set of the issuer: the claims of a token it accepts.  \<open>to_str\<close> is \<open>str\<close> of a claim that is no string, \<open>ud\<close>
  the digit table of \<open>int\<close>.
\<close>

subsection \<open>Addresses\<close>

definition mcp_path :: "settings \<Rightarrow> string" where
  "mcp_path st = (if auth_mode st = ''oauth'' then ''/mcp'' else ''/mcp/'' @ path_key st)"

definition public_url :: "settings \<Rightarrow> string" where
  "public_url st = ''https://'' @ public_host st @ mcp_path st"

definition redacted_public_url :: "settings \<Rightarrow> string" where
  "redacted_public_url st =
     (if auth_mode st = ''oauth'' then public_url st else ''https://'' @ public_host st @ ''/mcp/[REDACTED]'')"

subsection \<open>Tokens\<close>

definition claim_str :: "(json \<Rightarrow> ustr) \<Rightarrow> json \<Rightarrow> ustr" where
  "claim_str to_str v = (case v of JStr s \<Rightarrow> s | _ \<Rightarrow> to_str v)"

definition scopes :: "(json \<Rightarrow> ustr) \<Rightarrow> jdict \<Rightarrow> ustr list" where
  "scopes to_str claims =
     (case jget ''scope'' claims of
        Some (JStr s) \<Rightarrow> filter (\<lambda>x. x \<noteq> []) (split_ws s)
      | _ \<Rightarrow>
          (case jget ''scp'' claims of
             Some (JStr s) \<Rightarrow> filter (\<lambda>x. x \<noteq> []) (split_ws s)
           | Some (JList xs) \<Rightarrow> filter (\<lambda>x. x \<noteq> []) (map (claim_str to_str) xs)
           | _ \<Rightarrow> []))"

text \<open>\<open>claims.get("client_id") or claims.get("azp") or claims.get("sub")\<close>\<close>

definition claim :: "string \<Rightarrow> jdict \<Rightarrow> json" where
  "claim k claims = (case jget k claims of Some v \<Rightarrow> v | None \<Rightarrow> JNull)"

definition client_claim :: "jdict \<Rightarrow> json" where
  "client_claim claims =
     (if truthy (claim ''client_id'' claims) then claim ''client_id'' claims
      else if truthy (claim ''azp'' claims) then claim ''azp'' claims else claim ''sub'' claims)"

text \<open>\<open>int(exp_raw)\<close>: \<open>None\<close> if it raises.\<close>

definition claim_int :: "(nat \<Rightarrow> nat option) \<Rightarrow> json \<Rightarrow> int option" where
  "claim_int ud v =
     (case v of
        JInt i \<Rightarrow> Some i
      | JBool b \<Rightarrow> Some (if b then 1 else 0)
      | JFloat x \<Rightarrow> Some (if 0 \<le> x then floor x else ceiling x)
      | JStr s \<Rightarrow> py_int ud s
      | _ \<Rightarrow> None)"

record access_token =
  at_token :: ustr
  at_client_id :: ustr
  at_scopes :: "ustr list"
  at_expires_at :: "int option"
  at_resource :: string
  at_subject :: "ustr option"
  at_iss :: ustr
  at_aud :: "json option"

definition verify_sync ::
    "(nat \<Rightarrow> nat option) \<Rightarrow> (json \<Rightarrow> ustr) \<Rightarrow> settings \<Rightarrow> (ustr \<Rightarrow> jdict option) \<Rightarrow> int \<Rightarrow> ustr \<Rightarrow> access_token option" where
  "verify_sync ud to_str st decode now token =
     (case decode token of
        None \<Rightarrow> None
      | Some claims \<Rightarrow>
          if client_claim claims = JNull then None
          else
            let exp_raw = claim ''exp'' claims;
                expires = claim_int ud exp_raw
            in if exp_raw \<noteq> JNull \<and> expires = None then None
               else if exp_raw \<noteq> JNull \<and> the expires \<le> now then None
               else Some
                 \<lparr>at_token = token, at_client_id = claim_str to_str (client_claim claims), at_scopes = scopes to_str claims,
                  at_expires_at = (if exp_raw \<noteq> JNull then expires else None), at_resource = public_url st,
                  at_subject = (if claim ''sub'' claims \<noteq> JNull then Some (claim_str to_str (claim ''sub'' claims)) else None),
                  at_iss = claim_str to_str (claim ''iss'' claims), at_aud = jget ''aud'' claims\<rparr>)"

record oauth_settings =
  as_issuer :: string
  as_resource :: string
  as_required_scopes :: "string list"
  as_validate_resource :: bool

text \<open>The verifier is the partial application of \<^const>\<open>verify_sync\<close>; the assertions hold for settings from \<open>from_env\<close>.\<close>

definition build_oauth_components ::
    "(nat \<Rightarrow> nat option) \<Rightarrow> (json \<Rightarrow> ustr) \<Rightarrow> settings \<Rightarrow> (ustr \<Rightarrow> jdict option)
       \<Rightarrow> ((int \<Rightarrow> ustr \<Rightarrow> access_token option) \<times> oauth_settings) option" where
  "build_oauth_components ud to_str st decode =
     (if auth_mode st \<noteq> ''oauth'' then None
      else case oauth_issuer st of
          None \<Rightarrow> None
        | Some issuer \<Rightarrow> Some (verify_sync ud to_str st decode,
            \<lparr>as_issuer = issuer, as_resource = public_url st, as_required_scopes = oauth_scopes st, as_validate_resource = True\<rparr>))"

text \<open>What the library promises with \<open>options={"require": ["exp", "iss", "aud"]}\<close>.\<close>

definition requires_exp :: "(ustr \<Rightarrow> jdict option) \<Rightarrow> bool" where
  "requires_exp decode \<longleftrightarrow> (\<forall>t c. decode t = Some c \<longrightarrow> claim ''exp'' c \<noteq> JNull)"

lemma split_ws_acc_words: "list_all (\<lambda>c. \<not> is_space c) cur \<Longrightarrow> w \<in> set (split_ws_acc cur s) \<Longrightarrow> w \<noteq> [] \<and> list_all (\<lambda>c. \<not> is_space c) w"
  by (induction cur s rule: split_ws_acc.induct) (auto split: if_splits)

lemma split_ws_words: "w \<in> set (split_ws s) \<Longrightarrow> w \<noteq> [] \<and> list_all (\<lambda>c. \<not> is_space c) w"
  unfolding split_ws_def by (rule split_ws_acc_words [of "[]"]) simp_all

lemma scopes_nonempty: "[] \<notin> set (scopes to_str c)"
  by (simp add: scopes_def split: option.split json.split)

text \<open>C36. A token is accepted only if the library has verified it; the answer then carries it with the resource of this server,
  a client, an expiry time that lies in the future, and no empty scope.\<close>

theorem accepted_token_is_verified:
  assumes "requires_exp decode" "verify_sync ud to_str st decode now token = Some a"
  shows "\<exists>claims e. decode token = Some claims \<and> at_expires_at a = Some e \<and> claim_int ud (claim ''exp'' claims) = Some e \<and> now < e
    \<and> client_claim claims \<noteq> JNull \<and> at_client_id a = claim_str to_str (client_claim claims)
    \<and> at_token a = token \<and> at_resource a = public_url st \<and> at_scopes a = scopes to_str claims \<and> [] \<notin> set (at_scopes a)"
proof -
  obtain claims where c: "decode token = Some claims" using assms(2) by (auto simp: verify_sync_def split: option.splits)
  with assms(1) have "claim ''exp'' claims \<noteq> JNull" by (simp add: requires_exp_def)
  with assms(2) c obtain e where "claim_int ud (claim ''exp'' claims) = Some e" "now < e"
    by (cases "claim_int ud (claim ''exp'' claims)") (auto simp: verify_sync_def Let_def split: if_splits)
  with assms(2) c \<open>claim ''exp'' claims \<noteq> JNull\<close> show ?thesis
    using scopes_nonempty by (auto simp: verify_sync_def Let_def split: if_splits)
qed

text \<open>Scopes that come from a string are single words.\<close>

lemma scope_words:
  "jget ''scope'' c = Some (JStr s) \<Longrightarrow> x \<in> set (scopes to_str c) \<Longrightarrow> list_all (\<lambda>ch. \<not> is_space ch) x"
  using split_ws_words by (auto simp: scopes_def)

text \<open>The client may be the empty string: the last operand of \<open>or\<close> is not tested for being empty.\<close>

lemma empty_client_accepted:
  assumes "jget ''client_id'' c = None" "jget ''azp'' c = None" "jget ''sub'' c = Some (JStr [])" "jget ''exp'' c = Some (JInt e)"
    and "decode token = Some c" "now < e"
  shows "\<exists>a. verify_sync ud to_str st decode now token = Some a \<and> at_client_id a = []"
  using assms by (simp add: verify_sync_def client_claim_def claim_def claim_int_def claim_str_def Let_def)

lemma accepted_token_is_verified_witness:
  "\<exists>a. verify_sync ascii_digit (\<lambda>v. []) sample_settings
      (\<lambda>t. if t = [97] then Some [(ustr_of ''exp'', JInt 100), (ustr_of ''sub'', JStr [98])] else None) 50 [97] = Some a
    \<and> at_expires_at a = Some 100 \<and> at_client_id a = [98]"
proof -
  let ?c = "[(ustr_of ''exp'', JInt 100), (ustr_of ''sub'', JStr [98])]"
  let ?d = "\<lambda>t. if t = [97] then Some ?c else None"
  have claims: "claim ''exp'' ?c = JInt 100" "claim ''sub'' ?c = JStr [98]" "claim ''client_id'' ?c = JNull" "claim ''azp'' ?c = JNull"
    by (simp_all add: claim_def jget_def)
  then have "requires_exp ?d" "\<exists>a. verify_sync ascii_digit (\<lambda>v. []) sample_settings ?d 50 [97] = Some a"
    by (simp_all add: requires_exp_def verify_sync_def client_claim_def claim_int_def Let_def)
  then obtain a where a: "verify_sync ascii_digit (\<lambda>v. []) sample_settings ?d 50 [97] = Some a" by blast
  from accepted_token_is_verified [OF \<open>requires_exp ?d\<close> a] a claims show ?thesis
    by (auto simp: claim_int_def client_claim_def claim_str_def)
qed

end
