(* ===== verification/Tasks.thy ===== *)
theory Tasks
  imports Job_Samples Json
begin

text \<open>
  The MCP Tasks surface of durable jobs, \<open>src/remote_host_mcp/tasks_extension.py\<close>: \<open>job_run\<close> of a client that knows
  tasks becomes \<open>start_job\<close> with a task handle for an answer; \<open>tasks/get\<close>, \<open>tasks/update\<close> and \<open>tasks/cancel\<close> go to the
  job of that name.  \<open>require\<close> is the outcome of the SDK's \<open>require_client_extension\<close>, \<open>dumps\<close> is \<open>json.dumps\<close>, \<open>call_next\<close>
  the rest of the server.
\<close>

subsection \<open>Time stamps\<close>

text \<open>\<open>datetime.fromtimestamp(t, timezone.utc).isoformat()\<close> with \<open>Z\<close> for the offset: the proleptic Gregorian calendar, counted
  in eras of 400 years that begin in March; years outside 1 to 9999 are refused.\<close>

definition civil :: "int \<Rightarrow> int \<times> int \<times> int" where
  "civil days =
     (let z = days + 719468; era = z div 146097; doe = z mod 146097;
          yoe = (doe - doe div 1460 + doe div 36524 - doe div 146096) div 365;
          doy = doe - (365 * yoe + yoe div 4 - yoe div 100);
          mp = (5 * doy + 2) div 153;
          d = doy - (153 * mp + 2) div 5 + 1;
          m = (if mp < 10 then mp + 3 else mp - 9)
      in (yoe + era * 400 + (if m \<le> 2 then 1 else 0), m, d))"

definition padded :: "nat \<Rightarrow> int \<Rightarrow> string" where
  "padded n i = replicate (n - length (int_str i)) (CHR ''0'') @ int_str i"

definition iso :: "int option \<Rightarrow> string res" where
  "iso e =
     (let t = (case e of Some v \<Rightarrow> v | None \<Rightarrow> 0); secs = t mod 86400 in
      case civil (t div 86400) of (y, m, d) \<Rightarrow>
        if y < 1 \<or> 9999 < y then Inl (ValueError (''year '' @ int_str y @ '' is out of range''))
        else Inr (padded 4 y @ ''-'' @ padded 2 m @ ''-'' @ padded 2 d @ ''T'' @ padded 2 (secs div 3600) @ '':''
               @ padded 2 (secs mod 3600 div 60) @ '':'' @ padded 2 (secs mod 60) @ ''Z''))"

lemma civil_samples:
  "civil 0 = (1970, 1, 1)" "civil 11016 = (2000, 2, 29)" "civil 20454 = (2026, 1, 1)"
  by code_simp+

subsection \<open>Payloads\<close>

definition working_states :: "string list" where
  "working_states = [''starting'', ''queued'', ''running'', ''cancel_requested'']"

definition task_state :: "string \<Rightarrow> string" where
  "task_state s =
     (if s \<in> set working_states then ''working'' else if s = ''canceled'' then ''cancelled'' else ''completed'')"

definition terminal_job_result :: "job_status \<Rightarrow> json" where
  "terminal_job_result s =
     JObj [(ustr_of ''job_id'', JStr (ustr_of (st_job_id s))), (ustr_of ''status'', JStr (ustr_of (st_status s))),
       (ustr_of ''exit_code'', case st_exit_code s of Some i \<Rightarrow> JInt i | None \<Rightarrow> JNull),
       (ustr_of ''timed_out'', JBool (st_timed_out s)),
       (ustr_of ''terminated_by'', case st_terminated_by s of Some b \<Rightarrow> JStr (ustr_of b) | None \<Rightarrow> JNull),
       (ustr_of ''duration_ms'', case st_duration_ms s of Some i \<Rightarrow> JInt i | None \<Rightarrow> JNull)]"

record call_result =
  cr_text :: ustr
  cr_structured :: json
  cr_is_error :: bool

definition call_tool_result :: "(json \<Rightarrow> ustr) \<Rightarrow> job_status \<Rightarrow> call_result" where
  "call_tool_result dumps s =
     \<lparr>cr_text = dumps (terminal_job_result s), cr_structured = terminal_job_result s,
      cr_is_error = (st_status s \<noteq> ''completed'' \<or> st_exit_code s \<notin> {Some 0, None})\<rparr>"

record task_payload =
  tp_result_type :: string
  tp_task_id :: string
  tp_status :: string
  tp_message :: string
  tp_created_at :: string
  tp_updated_at :: string
  tp_ttl_ms :: "int option"
  tp_poll_ms :: int
  tp_result :: "call_result option"

definition or_time :: "int option \<Rightarrow> int option \<Rightarrow> int option" where
  "or_time a b = (case a of Some v \<Rightarrow> if v \<noteq> 0 then a else b | None \<Rightarrow> b)"

definition updated_at :: "job_status \<Rightarrow> int option" where
  "updated_at s =
     or_time (st_completed_at s) (or_time (Some (st_heartbeat_at s)) (or_time (st_last_output_at s)
       (or_time (st_started_at s) (Some (st_created_at s)))))"

definition ttl_ms :: "settings \<Rightarrow> job_status \<Rightarrow> int option" where
  "ttl_ms st s =
     (case st_completed_at s of
        None \<Rightarrow> None
      | Some c \<Rightarrow> Some (max 0 ((c - st_created_at s) * 1000) + job_retention_seconds st * 1000))"

definition task_message :: "string \<Rightarrow> string" where
  "task_message s = ''Remote Host MCP durable job: '' @ s"

definition task_payload :: "(json \<Rightarrow> ustr) \<Rightarrow> settings \<Rightarrow> bool \<Rightarrow> job_status \<Rightarrow> task_payload res" where
  "task_payload dumps st create s =
     and_then (iso (Some (st_created_at s))) (\<lambda>c.
     and_then (iso (updated_at s)) (\<lambda>u. Inr
       \<lparr>tp_result_type = (if create then ''task'' else ''complete''), tp_task_id = st_job_id s, tp_status = task_state (st_status s),
        tp_message = task_message (st_status s), tp_created_at = c, tp_updated_at = u, tp_ttl_ms = ttl_ms st s,
        tp_poll_ms = max 500 (job_heartbeat_seconds st * 1000),
        tp_result = (if task_state (st_status s) = ''completed'' then Some (call_tool_result dumps s) else None)\<rparr>))"

subsection \<open>Methods\<close>

definition tasks_get :: "(nat \<Rightarrow> nat option) \<Rightarrow> (json \<Rightarrow> ustr) \<Rightarrow> settings \<Rightarrow> unit res \<Rightarrow> string \<Rightarrow> task_payload jrun" where
  "tasks_get ud dumps st require tid =
     bind_prog (lift_res require) (\<lambda>_.
     bind_prog (job_status ud tid) (\<lambda>s. lift_res (task_payload dumps st False s)))"

definition tasks_update :: "(nat \<Rightarrow> nat option) \<Rightarrow> unit res \<Rightarrow> string \<Rightarrow> unit jrun" where
  "tasks_update ud require tid =
     bind_prog (lift_res require) (\<lambda>_. bind_prog (job_status ud tid) (\<lambda>_. ret ()))"

definition tasks_cancel :: "(nat \<Rightarrow> nat option) \<Rightarrow> settings \<Rightarrow> unit res \<Rightarrow> string \<Rightarrow> unit jrun" where
  "tasks_cancel ud st require tid =
     bind_prog (lift_res require) (\<lambda>_. bind_prog (cancel_job ud st tid) (\<lambda>_. ret ()))"

definition tasks_extension_id :: ustr where
  "tasks_extension_id = ustr_of ''io.modelcontextprotocol/tasks''"

text \<open>The extensions a client declares; \<open>None\<close> if it sent no capabilities or none of these.\<close>

definition client_supports_tasks :: "ustr list option \<Rightarrow> bool" where
  "client_supports_tasks declared = (case declared of Some xs \<Rightarrow> tasks_extension_id \<in> set xs | None \<Rightarrow> False)"

text \<open>The arguments of the call: the command as it came, the others of the declared types.\<close>

record run_args =
  ra_command :: "json option"
  ra_cwd :: "string option"
  ra_timeout_ms :: "int option"
  ra_key :: "ustr option"

definition intercept_tool_call ::
    "(nat \<Rightarrow> nat option) \<Rightarrow> (json \<Rightarrow> ustr) \<Rightarrow> settings \<Rightarrow> path_env \<Rightarrow> start_env \<Rightarrow> 'a jrun \<Rightarrow> ustr list option \<Rightarrow> string \<Rightarrow> run_args
       \<Rightarrow> (task_payload + 'a) jrun" where
  "intercept_tool_call ud dumps st env se call_next declared name args =
     (let go_on = bind_prog call_next (\<lambda>x. ret (Inr x)) in
      if name \<noteq> ''job_run'' \<or> \<not> client_supports_tasks declared then go_on
      else case ra_command args of
          Some (JStr command) \<Rightarrow>
            if strip command = [] then go_on
            else bind_prog (start_job ud st env se command (ra_cwd args) (ra_timeout_ms args) (ra_key args)) (\<lambda>started.
                 bind_prog (job_status ud (sr_job_id started)) (\<lambda>s.
                 bind_prog (lift_res (task_payload dumps st True s)) (\<lambda>p. ret (Inl p))))
        | _ \<Rightarrow> go_on)"

subsection \<open>What a client sees\<close>

lemma ttl_none: "ttl_ms st s = None \<longleftrightarrow> st_completed_at s = None"
  by (simp add: ttl_ms_def split: option.split)

lemma task_state_iff:
  "task_state x \<in> {''working'', ''cancelled'', ''completed''}" "task_state x = ''working'' \<longleftrightarrow> x \<in> set working_states"
  "task_state x = ''cancelled'' \<longleftrightarrow> x = ''canceled''"
  by (auto simp: task_state_def working_states_def)


text \<open>The methods of the extension start nothing: whichever accesses fail, reading, updating and cancelling a task launch no
  worker and execute no command.\<close>

theorem task_methods_start_nothing:
  assumes "undisturbed w"
    and "p \<in> {fst \<circ> tasks_get ud dumps st require tid, fst \<circ> tasks_update ud require tid, fst \<circ> tasks_cancel ud st require tid}"
  shows "launched (host (p w)) = launched (host w) \<and> executed (host (p w)) = executed (host w)"
proof -
  have g: "obeys no_start (tasks_get ud dumps st require tid)"
    unfolding tasks_get_def by (intro quiet.combinators quiet.job_statuses)
  have u: "obeys no_start (tasks_update ud require tid)"
    unfolding tasks_update_def by (intro quiet.combinators quiet.job_statuses)
  have c: "obeys no_start (tasks_cancel ud st require tid)"
    unfolding tasks_cancel_def by (intro quiet.combinators quiet.cancels)
  have "no_start w (p w)" using assms(2) obeys_fst [OF g] obeys_fst [OF u] obeys_fst [OF c] by auto
  with assms(1) show ?thesis by (simp add: no_start_def)
qed

text \<open>A finished task can come back to life: while the child of a job outlives its worker the task is completed, and a request
  to cancel it makes it work again.\<close>

theorem completed_task_reopens:
  assumes k: "known_job ud jid jd d jm h" and "\<And>r. result_doc d \<noteq> Doc r" "\<not> cancel_request d"
    and c: "alive_in ud h (jm_child_pid jm) (jm_child_ticks jm) = Inr True"
    and w: "alive_in ud h (jm_worker_pid jm) (jm_worker_ticks jm) = Inr False"
  shows "\<exists>s w1 s1. job_status ud jid (calm h) = (calm h, Inr s) \<and> task_state (st_status s) = ''completed''
    \<and> touch_cancel jd (calm h) = (w1, Inr ()) \<and> job_status ud jid w1 = (w1, Inr s1) \<and> task_state (st_status s1) = ''working''"
proof -
  obtain s where s: "job_status ud jid (calm h) = (calm h, Inr s)" "st_status s = ''lost''"
    using job_status_unfinished [OF k assms(2) c w] assms(3) by (auto simp: observed_status_def)
  define h1 where "h1 = h\<lparr>job_dirs := dict_set jd (d\<lparr>cancel_request := True\<rparr>) (job_dirs h)\<rparr>"
  have d: "map_of (job_dirs h) jd = Some d" using k by (simp add: known_job_def)
  have t: "touch_cancel jd (calm h) = (calm h1, Inr ())" using d by (simp add: touch_cancel_def h1_def)
  have k1: "known_job ud jid jd (d\<lparr>cancel_request := True\<rparr>) jm h1" using k by (simp add: known_job_def h1_def)
  have a: "alive_in ud h1 = alive_in ud h"
  proof -
    have "procs h1 = procs h" by (simp add: h1_def)
    then show ?thesis by (intro ext) (simp only: alive_in_def)
  qed
  obtain s1 where "job_status ud jid (calm h1) = (calm h1, Inr s1)" "st_status s1 = ''cancel_requested''"
    using job_status_unfinished [OF k1, of True False] assms(2) c w a by (auto simp: observed_status_def)
  with s t show ?thesis by (auto simp: task_state_def working_states_def)
qed

subsection \<open>Samples\<close>

definition sample_status :: job_status where
  "sample_status =
     \<lparr>st_job_id = sample_jid, st_status = ''failed'', st_cwd = ''/srv'', st_created_at = 0, st_started_at = Some 0, st_completed_at = Some 1,
      st_heartbeat_at = 1, st_last_output_at = None, st_worker = (None, None), st_child = (None, None), st_exit_code = Some 3,
      st_timed_out = False, st_cancel_requested = False, st_terminated_by = None, st_duration_ms = Some 5, st_stdout_bytes = 0,
      st_stderr_bytes = 0, st_stdout_truncated = False, st_stderr_truncated = False, st_command_sha256 = [], st_command_bytes = 4,
      st_error = None\<rparr>"

lemma iso_first_day: "0 \<le> t \<Longrightarrow> t < 86400 \<Longrightarrow> \<exists>x. iso (Some t) = Inr x"
  by (simp add: iso_def Let_def civil_samples)


theorem task_methods_start_nothing_witness:
  "launched (host (fst (tasks_cancel ascii_digit sample_settings (Inr ()) sample_jid (calm one_job)))) = []"
  using task_methods_start_nothing [of "calm one_job" "fst \<circ> tasks_cancel ascii_digit sample_settings (Inr ()) sample_jid" ascii_digit "\<lambda>v. []"
      sample_settings "Inr ()" sample_jid]
  by (simp add: undisturbed_def)

definition orphan_meta :: job_meta where
  "orphan_meta = (new_meta ''/srv'' 100 ''c0ffee'' 4 None None)\<lparr>jm_child_pid := Some 7, jm_child_ticks := Some 5\<rparr>"

definition orphan_dir :: job_dir where
  "orphan_dir = empty_dir\<lparr>metadata := Doc orphan_meta\<rparr>"

definition orphan_host :: host where
  "orphan_host = sample_host [(sample_jid, orphan_dir)] [(7, sample_process (utf8 sample_line))]"

lemma sample_ticks: "stat_ticks ascii_digit sample_line = Some 5"
proof -
  have "stat_fields sample_line = Some sample_fields"
    unfolding sample_line_def
    by (rule stat_fields_line) (simp add: sample_fields_def list_all_iff field_ok_def ustr_of_digit is_space_def)
  then show ?thesis
    by (simp add: stat_ticks_def sample_fields_def nth_append ustr_of_digit py_int_def strip_def is_space_def ascii_digit_def digits_value_def
        int_max_str_digits_def Let_def)
qed

theorem completed_task_reopens_witness:
  "\<exists>s w1 s1. job_status ascii_digit sample_jid (calm orphan_host) = (calm orphan_host, Inr s) \<and> task_state (st_status s) = ''completed''
    \<and> touch_cancel sample_jid (calm orphan_host) = (w1, Inr ()) \<and> job_status ascii_digit sample_jid w1 = (w1, Inr s1)
    \<and> task_state (st_status s1) = ''working''"
proof (rule completed_task_reopens)
  show "known_job ascii_digit sample_jid sample_jid orphan_dir orphan_meta orphan_host"
    by (simp add: known_job_def orphan_dir_def orphan_host_def)
  show "result_doc orphan_dir \<noteq> Doc r" for r by (simp add: orphan_dir_def empty_dir_def)
  show "\<not> cancel_request orphan_dir" by (simp add: orphan_dir_def empty_dir_def)
  show "alive_in ascii_digit orphan_host (jm_child_pid orphan_meta) (jm_child_ticks orphan_meta) = Inr True"
    by (simp add: alive_in_def orphan_host_def orphan_meta_def sample_line_utf8 sample_ticks and_then_def)
  show "alive_in ascii_digit orphan_host (jm_worker_pid orphan_meta) (jm_worker_ticks orphan_meta) = Inr False"
    by (simp add: alive_in_def orphan_meta_def new_meta_def)
qed

end
