(* ===== verification/Artifacts.thy ===== *)
theory Artifacts
  imports Agent_Files Publish
begin

text \<open>
  Artifacts: \<open>file_artifact\<close> of \<open>src/remote_host_mcp/artifact_helpers.py\<close> returns one file inline, \<open>artifact_bundle\<close> of
  \<open>src/remote_host_mcp/agent_ops.py\<close> packs files and directories into an archive.  \<open>guess\<close> is \<open>mimetypes.guess_type\<close>,
  \<open>zipped\<close> what \<open>zipfile\<close> writes for the members, \<open>token\<close> the random suffix of the staging name; \<open>depth\<close> is what is left of
  Python's recursion limit.
\<close>

subsection \<open>Reading within a limit\<close>

text \<open>Chunks, of the sizes \<open>sz\<close> asks for at each offset, until the end of the file; \<open>e\<close> is raised once more than \<open>lim\<close> bytes
  have been read.\<close>

function read_capped :: "(nat \<Rightarrow> nat) \<Rightarrow> exn \<Rightarrow> int \<Rightarrow> ino \<Rightarrow> bytes \<Rightarrow> bytes prog" where
  "read_capped sz e lim fd acc w =
     (case do_call (sys_read_at fd (length acc) (sz (length acc))) w of
        (w', Inl x) \<Rightarrow> (w', Inl x)
      | (w', Inr c) \<Rightarrow>
          if c = [] then (w', Inr acc)
          else if lim < int (length (acc @ c)) then (w', Inl e)
          else read_capped sz e lim fd (acc @ c) w')"
  by pat_completeness auto
termination
  by (relation "measure (\<lambda>(sz, e, lim, fd, acc, w). nat (lim + 1) - length acc)") (auto simp: neq_Nil_conv)

declare read_capped.simps [simp del]

lemma read_capped_bound:
  "read_capped sz e lim fd acc w = (w', Inr data) \<Longrightarrow> int (length acc) \<le> lim \<Longrightarrow> int (length data) \<le> lim"
proof (induction sz e lim fd acc w arbitrary: w' data rule: read_capped.induct)
  case (1 sz e lim fd acc w)
  obtain v r where c: "do_call (sys_read_at fd (length acc) (sz (length acc))) w = (v, r)" by fastforce
  show ?case
  proof (cases r)
    case (Inr c)
    with 1 \<open>do_call _ w = _\<close> show ?thesis
      by (cases "c = []"; cases "lim < int (length (acc @ c))") (auto simp: read_capped.simps [of sz e lim fd acc w])
  qed (use 1 c in \<open>simp add: read_capped.simps [of sz e lim fd acc w]\<close>)
qed

subsection \<open>\<open>file_artifact\<close>\<close>

definition max_inline_bytes :: int where
  "max_inline_bytes = 8388608"

definition inline_error :: "string \<Rightarrow> int \<Rightarrow> exn" where
  "inline_error what limit = ValueError (what @ int_str limit @ ''; use download_info/download_chunk instead'')"

definition read_fd_bounded :: "ino \<Rightarrow> int \<Rightarrow> bytes prog" where
  "read_fd_bounded fd limit =
     bind_prog (fstat_regular fd ''Artifact path is not a regular file'') (\<lambda>m.
       if limit < st_size m then raise (inline_error (''Artifact is '' @ int_str (st_size m) @ '' bytes, above inline limit '') limit)
       else read_capped (\<lambda>n. min 65536 (nat limit + 1 - n)) (inline_error ''Artifact grew beyond inline limit '' limit) limit fd [])"

datatype artifact_content =
    Image_content string string
  | Blob_content string string string

record artifact =
  art_text :: string
  art_content :: artifact_content

definition artifact_of :: "(string \<Rightarrow> string option) \<Rightarrow> (bytes \<Rightarrow> string) \<Rightarrow> string \<Rightarrow> bytes \<Rightarrow> artifact" where
  "artifact_of guess sha name data =
     (let mime = mime_from guess name data; digest = sha data in
      \<lparr>art_text = ''artifact name='' @ name @ '' mime='' @ mime @ '' bytes='' @ int_str (int (length data)) @ '' sha256='' @ digest,
       art_content = (if mime \<in> set image_mimes then Image_content (b64encode data) mime
                      else Blob_content (''rhmcp-artifact://sha256/'' @ digest) (b64encode data) mime)\<rparr>)"

definition file_artifact :: "(string \<Rightarrow> string option) \<Rightarrow> (bytes \<Rightarrow> string) \<Rightarrow> settings \<Rightarrow> path_env \<Rightarrow> kernel \<Rightarrow> string \<Rightarrow> int \<Rightarrow> artifact prog" where
  "file_artifact guess sha st env k path max_bytes =
     bind_prog (check (\<not> (max_bytes < 1 \<or> max_inline_bytes < max_bytes)) (''max_bytes must be between 1 and '' @ int_str max_inline_bytes)) (\<lambda>_.
     bind_prog (lift_res (expanduser env path)) (\<lambda>x.
     bind_prog (open_beneath st env k path False False) (\<lambda>fd.
     bind_prog (read_fd_bounded fd max_bytes) (\<lambda>data.
       ret (artifact_of guess sha (path_name (parse_path x)) data)))))"

definition encoded_part :: "artifact \<Rightarrow> string" where
  "encoded_part a = (case art_content a of Image_content s m \<Rightarrow> s | Blob_content u s m \<Rightarrow> s)"

subsection \<open>\<open>artifact_bundle\<close>\<close>

type_synonym members = "(string \<times> string) list"

definition too_many :: "int \<Rightarrow> string" where
  "too_many n = ''Artifact bundle exceeds max_entries='' @ int_str n"

definition too_large :: "int \<Rightarrow> string" where
  "too_large n = ''Artifact bundle exceeds max_total_bytes='' @ int_str n"

text \<open>One directory: \<open>sub\<close> collects a subdirectory.\<close>

fun collect_names ::
    "(string \<Rightarrow> string \<Rightarrow> members \<times> int \<Rightarrow> (members \<times> int) prog) \<Rightarrow> int \<Rightarrow> int \<Rightarrow> ino \<Rightarrow> path \<Rightarrow> string \<Rightarrow> string list
       \<Rightarrow> members \<times> int \<Rightarrow> (members \<times> int) prog" where
  "collect_names sub max_n max_b d resolved root [] acc = ret acc"
| "collect_names sub max_n max_b d resolved root (name # names) acc =
     bind_prog (do_call (sys_lstat d name)) (\<lambda>(i, m).
       let child = path_str (resolved @ [name]); arc = root @ ''/'' @ name in
       bind_prog
         (if is_lnk m then raise (ValueError (''Symlinks are not accepted in artifact bundles: '' @ child))
          else if is_dir m then sub child arc acc
          else if is_reg m then ret (fst acc @ [(arc, child)], snd acc + st_size m)
          else raise (ValueError (''Unsupported file type in artifact bundle: '' @ child))) (\<lambda>acc1.
       bind_prog (check (int (length (fst acc1)) \<le> max_n) (too_many max_n)) (\<lambda>_.
       bind_prog (check (snd acc1 \<le> max_b) (too_large max_b)) (\<lambda>_.
         collect_names sub max_n max_b d resolved root names acc1))))"

primrec collect_entries ::
    "nat \<Rightarrow> settings \<Rightarrow> path_env \<Rightarrow> kernel \<Rightarrow> int \<Rightarrow> int \<Rightarrow> string \<Rightarrow> string \<Rightarrow> members \<times> int \<Rightarrow> (members \<times> int) prog" where
  "collect_entries 0 st env k max_n max_b = (\<lambda>source root acc. raise RecursionError)"
| "collect_entries (Suc depth) st env k max_n max_b = (\<lambda>source root acc.
     bind_prog (lift_res (resolve_allowed_path st env (Some source) None)) (\<lambda>resolved.
     bind_prog (do_call (sys_lstat_path resolved)) (\<lambda>m.
       if is_lnk m then raise (ValueError (''Symlinks are not accepted in artifact bundles: '' @ path_str resolved))
       else if is_reg m then ret (fst acc @ [(root, path_str resolved)], snd acc + st_size m)
       else if is_dir m then
         bind_prog (open_beneath st env k (path_str resolved) True False) (\<lambda>d.
         bind_prog (do_call (sys_listdir d)) (\<lambda>names.
           collect_names (collect_entries depth st env k max_n max_b) max_n max_b d resolved root (sort_key slower names) acc))
       else raise (ValueError (''Unsupported artifact source type: '' @ path_str resolved)))))"

text \<open>The member name of a source: its last component, with its position before it if that is taken.\<close>

definition bundle_name :: "string list \<Rightarrow> nat \<Rightarrow> path \<Rightarrow> string" where
  "bundle_name used idx source =
     (let name = (if source = [] then ''root-'' @ nat_str idx else last source) in
      if name \<in> set used then nat_str idx @ ''-'' @ name else name)"

fun collect_all ::
    "nat \<Rightarrow> settings \<Rightarrow> path_env \<Rightarrow> kernel \<Rightarrow> int \<Rightarrow> int \<Rightarrow> nat \<Rightarrow> string list \<Rightarrow> string list \<Rightarrow> members \<times> int \<Rightarrow> (members \<times> int) prog" where
  "collect_all depth st env k max_n max_b idx used [] acc = ret acc"
| "collect_all depth st env k max_n max_b idx used (raw # raws) acc =
     bind_prog (lift_res (resolve_allowed_path st env (Some raw) None)) (\<lambda>source.
       let name = bundle_name used idx source in
       bind_prog (collect_entries depth st env k max_n max_b (path_str source) name acc) (\<lambda>acc1.
       bind_prog (check (int (length (fst acc1)) \<le> max_n) (too_many max_n)) (\<lambda>_.
       bind_prog (check (snd acc1 \<le> max_b) (too_large max_b)) (\<lambda>_.
         collect_all depth st env k max_n max_b (Suc idx) (name # used) raws acc1))))"

text \<open>The contents, within the byte budget that is left.\<close>

fun read_members :: "settings \<Rightarrow> path_env \<Rightarrow> kernel \<Rightarrow> int \<Rightarrow> members \<Rightarrow> int \<Rightarrow> (string \<times> bytes) list prog" where
  "read_members st env k max_b [] so_far = ret []"
| "read_members st env k max_b ((arc, source) # ms) so_far =
     bind_prog (open_beneath st env k source False False) (\<lambda>fd.
     bind_prog (fstat_regular fd (''Bundle source changed type: '' @ source)) (\<lambda>_.
     bind_prog (read_capped (\<lambda>_. 1048576) (ValueError ''Bundle sources changed beyond byte budget'') (max_b - so_far) fd []) (\<lambda>data.
     bind_prog (read_members st env k max_b ms (so_far + int (length data))) (\<lambda>contents.
       ret ((arc, data) # contents)))))"

definition bundle_temp_name :: "string \<Rightarrow> string \<Rightarrow> string" where
  "bundle_temp_name name token = ''.'' @ name @ ''.bundle-'' @ token"

record artifact_bundle_result =
  br_path :: string
  br_entries :: int
  br_bytes_source :: int
  br_bytes_bundle :: int
  br_sha256 :: string

definition refuse_present :: "ino \<Rightarrow> string \<Rightarrow> unit prog" where
  "refuse_present parent name =
     bind_prog (lstat_at parent name) (\<lambda>existing. check (existing = None) ''Artifact bundle destination already exists'')"

definition write_bundle ::
    "((string \<times> bytes) list \<Rightarrow> bytes) \<Rightarrow> settings \<Rightarrow> path_env \<Rightarrow> kernel \<Rightarrow> ino \<Rightarrow> string \<Rightarrow> string \<Rightarrow> int \<Rightarrow> members \<Rightarrow> ino \<Rightarrow> unit prog" where
  "write_bundle zipped st env k parent temp name max_b ms fd =
     handle
       (bind_prog (read_members st env k max_b ms 0) (\<lambda>contents.
        bind_prog (write_all (OSMessage ''write could not complete'') fd (zipped contents)) (\<lambda>_.
        bind_prog (do_call (sys_fsync fd)) (\<lambda>_.
        bind_prog (do_call (sys_rename_noreplace parent temp parent name)) (\<lambda>_. do_call (sys_fsync parent))))))
       (\<lambda>e. bind_prog (attempt (do_call (sys_unlink parent temp))) (\<lambda>_. raise e))"

definition publish_bundle ::
    "((string \<times> bytes) list \<Rightarrow> bytes) \<Rightarrow> settings \<Rightarrow> path_env \<Rightarrow> kernel \<Rightarrow> ino \<Rightarrow> string \<Rightarrow> string \<Rightarrow> int \<Rightarrow> members \<Rightarrow> unit prog" where
  "publish_bundle zipped st env k parent temp name max_b ms =
     bind_prog (refuse_present parent name) (\<lambda>_.
     bind_prog (do_call (sys_create_excl parent temp 384)) (\<lambda>fd.
       write_bundle zipped st env k parent temp name max_b ms fd))"

definition artifact_bundle ::
    "((string \<times> bytes) list \<Rightarrow> bytes) \<Rightarrow> (bytes \<Rightarrow> string) \<Rightarrow> nat \<Rightarrow> settings \<Rightarrow> path_env \<Rightarrow> kernel \<Rightarrow> string \<Rightarrow> string list \<Rightarrow> string \<Rightarrow> int \<Rightarrow> int
       \<Rightarrow> artifact_bundle_result prog" where
  "artifact_bundle zipped sha depth st env k token paths destination max_n max_b =
     bind_prog (check (\<not> (paths = [] \<or> 20 < length paths)) ''paths must contain between 1 and 20 items'') (\<lambda>_.
     bind_prog (check (\<not> (max_n < 1 \<or> 5000 < max_n)) ''max_entries must be between 1 and 5000'') (\<lambda>_.
     bind_prog (check (\<not> (max_b < 1 \<or> max_transfer_bytes st < max_b))
                  (''max_total_bytes must be between 1 and '' @ int_str (max_transfer_bytes st))) (\<lambda>_.
     bind_prog (collect_all depth st env k max_n max_b 0 [] paths ([], 0)) (\<lambda>(ms, nbytes).
     bind_prog (open_parent_beneath st env k destination) (\<lambda>(parent, name, entry).
     bind_prog (publish_bundle zipped st env k parent (bundle_temp_name name token) name max_b ms) (\<lambda>_.
     bind_prog (do_call (sys_open_path entry False False)) (\<lambda>done_fd.
     bind_prog (hash_fd sha done_fd) (\<lambda>(digest, n).
       ret \<lparr>br_path = path_str entry, br_entries = int (length ms), br_bytes_source = nbytes, br_bytes_bundle = n,
            br_sha256 = digest\<rparr>))))))))"

subsection \<open>The limits of a bundle\<close>

definition within :: "int \<Rightarrow> int \<Rightarrow> members \<times> int \<Rightarrow> bool" where
  "within max_n max_b acc \<longleftrightarrow> int (length (fst acc)) \<le> max_n \<and> snd acc \<le> max_b"

lemma collect_all_within:
  "collect_all depth st env k max_n max_b idx used raws acc w = (w', Inr acc') \<Longrightarrow> within max_n max_b acc \<Longrightarrow> within max_n max_b acc'"
proof (induction raws arbitrary: idx used acc w)
  case Nil
  then show ?case by (simp add: ret_def)
next
  case (Cons raw raws)
  from Cons.prems(1) obtain v source acc1 u where
      "collect_all depth st env k max_n max_b (Suc idx) (bundle_name used idx source # used) raws acc1 u = (w', Inr acc')"
      "within max_n max_b acc1"
    by (auto simp: bind_prog_Inr lift_res_Inr Let_def within_def check_def ret_def raise_def split: if_splits)
  with Cons.IH show ?case by blast
qed

lemma read_members_within:
  "read_members st env k max_b ms so_far w = (w', Inr contents) \<Longrightarrow> so_far \<le> max_b \<Longrightarrow>
     map fst contents = map fst ms \<and> so_far + int (sum_list (map (length \<circ> snd) contents)) \<le> max_b"
proof (induction ms arbitrary: so_far w w' contents)
  case Nil
  then show ?case by (simp add: ret_def)
next
  case (Cons m ms)
  obtain arc source where m: "m = (arc, source)" by (cases m)
  from Cons.prems(1) m obtain v1 fd v2 data v3 rest where
      r: "read_capped (\<lambda>_. 1048576) (ValueError ''Bundle sources changed beyond byte budget'') (max_b - so_far) fd [] v1 = (v2, Inr data)"
      "read_members st env k max_b ms (so_far + int (length data)) v2 = (v3, Inr rest)" "contents = (arc, data) # rest"
    by (auto simp: bind_prog_Inr ret_Inr)
  have "int (length data) \<le> max_b - so_far" using read_capped_bound [OF r(1)] Cons.prems(2) by simp
  with Cons.IH [OF r(2)] r(3) m show ?case by simp
qed

text \<open>Two sources can get one member name: the position put before a name that is taken may give another one that is taken.\<close>

lemma member_names_clash:
  "bundle_name [] 0 [''a'', ''2-x''] = ''2-x'' \<and> bundle_name [''2-x''] 1 [''a'', ''x''] = ''x'' \<and> bundle_name [''x'', ''2-x''] 2 [''b'', ''x''] = ''2-x''"
  by (simp add: bundle_name_def nat_str.simps [of 2]) code_simp

subsection \<open>What comes back inline\<close>

lemma read_capped_quiet:
  assumes "schedule w = []" "reg_content (disk w) fd = Some c" "\<And>n. n \<le> length c \<Longrightarrow> 1 \<le> sz n" "int (length c) \<le> lim" "j \<le> length c"
  shows "read_capped sz e lim fd (take j c) w = (w, Inr c)"
  using assms(5)
proof (induction "length c - j" arbitrary: j rule: less_induct)
  case less
  let ?chunk = "take (sz j) (drop j c)"
  have call: "do_call (sys_read_at fd (length (take j c)) (sz (length (take j c)))) w = (w, Inr ?chunk)"
    using less.prems assms(1,2) by (intro quiet_call) (simp_all add: sys_read_at_def read_all_reg min_absorb2)
  show ?case
  proof (cases "j = length c")
    case True
    with call show ?thesis by (simp add: read_capped.simps)
  next
    case False
    with less.prems have j: "j < length c" by simp
    have s: "1 \<le> sz j" using assms(3) less.prems .
    define n where "n = min (sz j) (length c - j)"
    have n: "1 \<le> n" "j + n \<le> length c" "?chunk = take n (drop j c)" using s j by (auto simp: n_def min_def)
    have app: "take j c @ ?chunk = take (j + n) c" unfolding n(3) by (simp add: take_add)
    have ne: "?chunk \<noteq> []" using s j by (cases "sz j") auto
    have "read_capped sz e lim fd (take j c) w = read_capped sz e lim fd (take (j + n) c) w"
      using call ne app n(2) assms(4) by (simp add: read_capped.simps [of sz e lim fd "take j c" w] min_absorb2)
    also have "\<dots> = (w, Inr c)" using n by (intro less.hyps) auto
    finally show ?thesis .
  qed
qed

text \<open>On a quiet host a regular file within the limit comes back inline in full: the Base64 text decodes to its content, the
  text beside it names its size and digest, and nothing of the host changes; a larger file is refused.\<close>

theorem file_artifact_roundtrip:
  assumes "opens st env (disk w) path False False fd" "openat2_refused k = None" "schedule w = []"
    and "expanduser env path = Inr x" "reg_content (disk w) fd = Some c" "1 \<le> max_bytes" "max_bytes \<le> max_inline_bytes"
  shows "if int (length c) \<le> max_bytes
    then \<exists>a. file_artifact guess sha st env k path max_bytes w = (w, Inr a) \<and> b64decode (encoded_part a) = Some c
      \<and> a = artifact_of guess sha (path_name (parse_path x)) c
    else \<exists>e. file_artifact guess sha st env k path max_bytes w = (w, Inl e)"
proof -
  obtain m where m: "inodes (disk w) fd = Some m" "m_node m = Reg c"
    using assms(5) by (auto simp: reg_content_def split: option.splits node.splits)
  have op: "open_beneath st env k path False False w = (w, Inr fd)" by (rule opens_run [OF assms(1-3)])
  have fs: "fstat_regular fd msg w = (w, Inr m)" for msg using fstat_regular_quiet [OF assms(3) m] .
  have sz: "st_size m = int (length c)" using m(2) by (simp add: st_size_def)
  have "read_capped (\<lambda>n. min 65536 (nat max_bytes + 1 - n)) e max_bytes fd (take 0 c) w = (w, Inr c)" if "int (length c) \<le> max_bytes" for e
    by (rule read_capped_quiet [OF assms(3,5)]) (use that in auto)
  with op fs sz assms(4,6,7) show ?thesis
    by (auto simp: file_artifact_def read_fd_bounded_def bind_prog_def check_def ret_def raise_def lift_res_def encoded_part_def artifact_of_def Let_def
        split: artifact_content.split)
qed

subsection \<open>A bundle on a quiet host\<close>

context reading
begin

lemma capped_step: "R w (fst (read_capped sz e lim fd acc w))"
proof (induction sz e lim fd acc w rule: read_capped.induct)
  case (1 sz e lim fd acc w)
  obtain v r where c: "do_call (sys_read_at fd (length acc) (sz (length acc))) w = (v, r)" by fastforce
  from look_step [OF c] have "R w v" by simp
  with 1 [OF c [symmetric]] c show ?case
    by (subst read_capped.simps) (auto intro: trans split: sum.split)
qed

lemma capped: "obeys R (read_capped sz e lim fd acc)"
  using capped_step unfolding obeys_def by (metis fst_conv)

lemma file_artifact: "obeys R (file_artifact guess sha st env k path mb)"
  unfolding file_artifact_def read_fd_bounded_def by (auto intro!: steps capped)

lemma names:
  "(\<And>c a x. obeys R (sub c a x)) \<Longrightarrow> obeys R (collect_names sub max_n max_b d resolved root names acc)"
  by (induction names arbitrary: acc) (auto intro!: steps simp: Let_def split: prod.split)

lemma tree: "obeys R (collect_entries depth st env k max_n max_b source root acc)"
  by (induction depth arbitrary: source root acc) (auto intro!: steps names split: prod.split)

lemma all: "obeys R (collect_all depth st env k max_n max_b idx used raws acc)"
  by (induction raws arbitrary: idx used acc) (auto intro!: steps tree simp: Let_def)

lemma members: "obeys R (read_members st env k max_b ms so_far)"
proof (induction ms arbitrary: so_far)
  case (Cons m ms)
  show ?case by (cases m) (auto intro!: steps capped Cons.IH)
qed (simp add: still)

lemma tail: "obeys R (bind_prog (do_call (sys_open_path entry False False)) (\<lambda>fd. bind_prog (hash_fd sha fd) (\<lambda>(digest, n). ret (g digest n))))"
  by (auto intro!: steps split: prod.split)

end

lemma quiet_same: "obeys unmoved p \<Longrightarrow> schedule w = [] \<Longrightarrow> p w = (w', r) \<Longrightarrow> w' = w"
  using obeysD [of unmoved p w w' r] by (simp add: unmoved_def)

lemma write_bundle_Inr:
  assumes "schedule w = []" "lookup_at (disk w) parent temp = Some fd" "reg_content (disk w) fd = Some []" "temp \<noteq> name"
    and "write_bundle zipped st env k parent temp name max_b ms fd w = (w', Inr ())"
  shows "\<exists>contents. read_members st env k max_b ms 0 w = (w, Inr contents) \<and> schedule w' = []
    \<and> lookup_at (disk w') parent = (lookup_at (disk w) parent)(temp := None, name \<mapsto> fd) \<and> reg_content (disk w') fd = Some (zipped contents)"
proof -
  obtain w1 contents where rm: "read_members st env k max_b ms 0 w = (w1, Inr contents)"
      and rest: "bind_prog (write_all (OSMessage ''write could not complete'') fd (zipped contents)) (\<lambda>_.
        bind_prog (do_call (sys_fsync fd)) (\<lambda>_.
        bind_prog (do_call (sys_rename_noreplace parent temp parent name)) (\<lambda>_. do_call (sys_fsync parent)))) w1 = (w', Inr ())"
    using assms(5) unfolding write_bundle_def handle_Inr bind_prog_Inr [of "read_members st env k max_b ms 0"]
    by (auto simp: bind_prog_Inr attempt_def raise_Inr split: prod.splits)
  have w1: "w1 = w" by (rule quiet_same [OF unmoved.members assms(1) rm])
  obtain f where f: "write_all (OSMessage ''write could not complete'') fd (zipped contents) w = (w\<lparr>disk := f\<rparr>, Inr ())"
      "reg_content f fd = Some (zipped contents)" "same_shape (disk w) f"
    using quiet_write_all [OF assms(1,3), of "OSMessage ''write could not complete''" "zipped contents"] by auto
  have q: "schedule (w\<lparr>disk := f\<rparr>) = []" using assms(1) by simp
  have "bind_prog (do_call (sys_fsync fd)) (\<lambda>_.
        bind_prog (do_call (sys_rename_noreplace parent temp parent name)) (\<lambda>_. do_call (sys_fsync parent))) (w\<lparr>disk := f\<rparr>) = (w', Inr ())"
    using rest unfolding w1 by (rule bind_progE) (simp add: f(1))
  from quiet_unit [OF q this] obtain f1 x1 where f1: "sys_fsync fd f = (f1, Inr x1)"
      "bind_prog (do_call (sys_rename_noreplace parent temp parent name)) (\<lambda>_. do_call (sys_fsync parent)) (w\<lparr>disk := f1\<rparr>) = (w', Inr ())"
    by auto
  then have rn: "bind_prog (do_call (sys_rename_noreplace parent temp parent name)) (\<lambda>_. do_call (sys_fsync parent)) (w\<lparr>disk := f\<rparr>) = (w', Inr ())"
    by (simp add: sys_fsync_def)
  from quiet_unit [OF q rn] obtain g x where g: "sys_rename_noreplace parent temp parent name f = (g, Inr x)"
      "do_call (sys_fsync parent) (w\<lparr>disk := g\<rparr>) = (w', Inr ())"
    by auto
  then have w': "w' = w\<lparr>disk := g\<rparr>" using assms(1) by (simp add: do_call_def sys_fsync_def)
  have l: "lookup_at f parent = lookup_at (disk w) parent" using f(3) by (simp add: same_shape_def lookup_at_def fun_eq_iff)
  have "lookup_at g parent = (lookup_at f parent)(temp := None, name \<mapsto> fd) \<and> (\<forall>j. reg_content g j = reg_content f j)"
    using renamed [of parent temp name f g fd] g(1) assms(2,4) l by simp
  with rm w1 w' f(2) l assms(1) show ?thesis by auto
qed

lemma publish_bundle_Inr:
  assumes "schedule w = []" "inodes (disk w) (fresh_ino (disk w)) = None" "temp \<noteq> name" "0 \<le> max_b"
    and "publish_bundle zipped st env k parent temp name max_b ms w = (w', Inr ())"
  shows "\<exists>contents. lookup_at (disk w) parent name = None \<and> published (disk w) (disk w') parent temp name (zipped contents)
    \<and> schedule w' = [] \<and> length contents = length ms \<and> int (sum_list (map (length \<circ> snd) contents)) \<le> max_b"
proof -
  obtain w3 u3 where rp: "refuse_present parent name w = (w3, Inr u3)"
      and r3: "bind_prog (do_call (sys_create_excl parent temp 384)) (\<lambda>fd.
        write_bundle zipped st env k parent temp name max_b ms fd) w3 = (w', Inr ())"
    using assms(5) unfolding publish_bundle_def by (rule bind_progE)
  obtain v existing where l: "lstat_at parent name w = (v, Inr existing)" "existing = None" "w3 = v"
    using rp by (auto simp: refuse_present_def bind_prog_Inr check_Inr)
  have free: "w3 = w" "lookup_at (disk w) parent name = None"
    using quiet_same [OF unmoved.lstat assms(1) l(1)] lstat_at_lookup [OF assms(1) l(1)] l(2,3) by simp_all
  obtain w4 fd where cr: "do_call (sys_create_excl parent temp 384) w = (w4, Inr fd)"
      and wb: "write_bundle zipped st env k parent temp name max_b ms fd w4 = (w', Inr ())"
    using r3 unfolding free(1) by (rule bind_progE)
  obtain f4 where f4: "sys_create_excl parent temp 384 (disk w) = (f4, Inr fd)" "w4 = w\<lparr>disk := f4\<rparr>"
    using cr unfolding quiet_do [OF assms(1)] by blast
  note c = created [OF f4(1) assms(2)]
  have q4: "schedule w4 = []" "lookup_at (disk w4) parent temp = Some fd" "reg_content (disk w4) fd = Some []"
    using assms(1) f4(2) c by auto
  obtain contents where ct: "read_members st env k max_b ms 0 w4 = (w4, Inr contents)" "schedule w' = []"
      "lookup_at (disk w') parent = (lookup_at (disk w4) parent)(temp := None, name \<mapsto> fd)" "reg_content (disk w') fd = Some (zipped contents)"
    using write_bundle_Inr [OF q4 assms(3) wb] by blast
  have "lookup_at (disk w') parent = (lookup_at (disk w) parent)(temp := None, name \<mapsto> fd)"
    using ct(3) f4(2) c by (simp add: fun_upd_def fun_eq_iff)
  moreover have "length contents = length ms" "int (sum_list (map (length \<circ> snd) contents)) \<le> max_b"
    using read_members_within [OF ct(1)] assms(4) by (auto dest: map_eq_imp_length_eq)
  ultimately show ?thesis using free(2) ct(2,4) unfolding published_def by auto
qed

lemma bundle_temp_differs: "bundle_temp_name name token \<noteq> name"
proof
  assume "bundle_temp_name name token = name"
  then have "length (bundle_temp_name name token) = length name" by simp
  then show False by (simp add: bundle_temp_name_def)
qed

text \<open>A bundle that is answered on a quiet host has been published under a name that was free, without any other change of
  that directory: an archive of at most \<open>max_entries\<close> members whose contents together have at most \<open>max_total_bytes\<close>
  bytes, none of them collected or read beyond the limits.\<close>

theorem bundle_published_within_limits:
  assumes "schedule w = []" "inodes (disk w) (fresh_ino (disk w)) = None"
    and "artifact_bundle zipped sha depth st env k token paths destination max_n max_b w = (w', Inr r)"
  shows "\<exists>parent name entry contents. open_parent_beneath st env k destination w = (w, Inr (parent, name, entry))
    \<and> lookup_at (disk w) parent name = None
    \<and> published (disk w) (disk w') parent (bundle_temp_name name token) name (zipped contents)
    \<and> br_path r = path_str entry \<and> br_entries r = int (length contents) \<and> br_entries r \<le> max_n \<and> br_bytes_source r \<le> max_b
    \<and> int (sum_list (map (length \<circ> snd) contents)) \<le> max_b"
proof -
  have limits: "1 \<le> max_n" "1 \<le> max_b"
    using assms(3) by (auto simp: artifact_bundle_def bind_prog_Inr check_Inr)
  let ?tail = "\<lambda>ms nbytes entry. bind_prog (do_call (sys_open_path entry False False)) (\<lambda>done_fd.
     bind_prog (hash_fd sha done_fd) (\<lambda>(digest, n).
       ret \<lparr>br_path = path_str entry, br_entries = int (length ms), br_bytes_source = nbytes, br_bytes_bundle = n,
            br_sha256 = digest\<rparr>))"
  obtain w1 ms nbytes where col: "collect_all depth st env k max_n max_b 0 [] paths ([], 0) w = (w1, Inr (ms, nbytes))"
      and r1: "bind_prog (open_parent_beneath st env k destination) (\<lambda>(parent, name, entry).
     bind_prog (publish_bundle zipped st env k parent (bundle_temp_name name token) name max_b ms) (\<lambda>_. ?tail ms nbytes entry)) w1 = (w', Inr r)"
    using assms(3) unfolding artifact_bundle_def
    by (elim bind_progE [of "check _ _"]) (auto simp: check_Inr elim!: bind_progE [of "collect_all depth st env k max_n max_b 0 [] paths ([], 0)"])
  have w1: "w1 = w" by (rule quiet_same [OF unmoved.all assms(1) col])
  obtain w2 pne where op: "open_parent_beneath st env k destination w = (w2, Inr pne)"
      and r2: "(case pne of (parent, name, entry) \<Rightarrow>
     bind_prog (publish_bundle zipped st env k parent (bundle_temp_name name token) name max_b ms) (\<lambda>_. ?tail ms nbytes entry)) w2 = (w', Inr r)"
    using r1 unfolding w1 by (rule bind_progE)
  obtain parent name entry where pne: "pne = (parent, name, entry)" by (cases pne)
  have w2: "w2 = w" by (rule quiet_same [OF unmoved.parent assms(1) op])
  obtain w5 u5 where pb: "publish_bundle zipped st env k parent (bundle_temp_name name token) name max_b ms w = (w5, Inr u5)"
      and r5: "?tail ms nbytes entry w5 = (w', Inr r)"
    using r2 unfolding pne w2 prod.case by (rule bind_progE)
  have b: "0 \<le> max_b" using limits by simp
  obtain contents where ct: "lookup_at (disk w) parent name = None" "schedule w5 = []" "length contents = length ms"
      "published (disk w) (disk w5) parent (bundle_temp_name name token) name (zipped contents)"
      "int (sum_list (map (length \<circ> snd) contents)) \<le> max_b"
    using publish_bundle_Inr [OF assms(1,2) bundle_temp_differs b pb [unfolded unit_eq [of u5]]] by blast
  have "w' = w5" by (rule quiet_same [OF unmoved.tail ct(2) r5])
  moreover have "br_path r = path_str entry" "br_entries r = int (length ms)" "br_bytes_source r = nbytes"
    using r5 by (auto simp: bind_prog_Inr ret_Inr split: prod.splits)
  moreover have "int (length ms) \<le> max_n" "nbytes \<le> max_b"
    using collect_all_within [OF col] limits by (simp_all add: within_def)
  ultimately show ?thesis using op w2 pne ct by auto
qed

lemma plain_file_opens: "opens sample_settings plain_env (upload_disk c) (path_str [''srv'', part_name ''a'' sample_uid]) False False 2"
  by (simp add: opens_def lexical_root_def plain_env_def parse_path_def anchor_def normpath_def sample_settings_def default_settings_def
      under_root_def walk.simps entries_def upload_disk_def file_meta_def Let_def path_str_def part_name_def sample_uid_def numeral_eq_Suc)

theorem file_artifact_roundtrip_witness:
  "\<exists>a. file_artifact (\<lambda>n. None) (\<lambda>c. c) sample_settings plain_env plain_kernel (path_str [''srv'', part_name ''a'' sample_uid]) 100
      \<lparr>disk = upload_disk ''hello'', schedule = []\<rparr> = (\<lparr>disk = upload_disk ''hello'', schedule = []\<rparr>, Inr a)
    \<and> b64decode (encoded_part a) = Some ''hello''"
  using file_artifact_roundtrip [of sample_settings plain_env "\<lparr>disk = upload_disk ''hello'', schedule = []\<rparr>"
      "path_str [''srv'', part_name ''a'' sample_uid]" 2 plain_kernel _ "''hello''" 100 "\<lambda>n. None" "\<lambda>c. c"]
    plain_file_opens [of "''hello''"] sample_content [of "''hello''"]
  by (simp add: plain_kernel_def plain_env_def max_inline_bytes_def)

end
