(* ===== verification/Snapshots.thy ===== *)
theory Snapshots
  imports File_Tree Leases Run_Relation
begin

text \<open>
  Snapshots of \<open>src/remote_host_mcp/agent_ops.py\<close>: \<open>snapshot_create\<close> copies allowed files and directories into a private
  store below the state directory, \<open>snapshot_restore\<close> puts them back by an exchange in the directory they came from.  The
  store is a file system of its own, a list of nodes by their path below \<open>state_dir/snapshots\<close>; only this module touches it, and
  each access may fail.  \<open>um\<close> is the umask; \<open>dumps\<close> and \<open>loads\<close> are \<open>json.dumps\<close> and \<open>json.loads\<close> with the UTF-8 coding, \<open>to_str\<close> is
  \<open>str\<close> of a JSON value that is no string, \<open>token\<close> a random suffix; \<open>depth\<close> is what is left of Python's recursion limit.
\<close>

subsection \<open>The private store\<close>

datatype snode = SFile bytes int int | SDir int int

type_synonym store = "(path \<times> snode) list"

record snaps =
  shots :: store
  store_faults :: "errno option list"
  sfiles :: world
  sclock :: int

type_synonym 'a sprog = "(snaps, 'a) run"

definition on_disk :: "'a prog \<Rightarrow> 'a sprog" where
  "on_disk p s = (case p (sfiles s) of (w, r) \<Rightarrow> (s\<lparr>sfiles := w\<rparr>, r))"

definition store_call :: "(store \<Rightarrow> store \<times> 'a res) \<Rightarrow> 'a sprog" where
  "store_call c s =
     (case store_faults s of
        Some e # fs \<Rightarrow> (s\<lparr>store_faults := fs\<rparr>, Inl (OSError e))
      | fs \<Rightarrow> (case c (shots s) of (t, r) \<Rightarrow> (s\<lparr>store_faults := drop 1 fs, shots := t\<rparr>, r)))"

definition stime :: "int sprog" where
  "stime s = (s, Inr (sclock s))"

definition st_fine :: "store \<Rightarrow> store \<times> unit res" where
  "st_fine t = (t, Inr ())"

definition st_dir :: "path \<Rightarrow> store \<Rightarrow> bool" where
  "st_dir p t = (p = [] \<or> (case map_of t p of Some (SDir a b) \<Rightarrow> True | _ \<Rightarrow> False))"

definition st_new :: "path \<Rightarrow> snode \<Rightarrow> store \<Rightarrow> store \<times> unit res" where
  "st_new p n t =
     (if p = [] \<or> map_of t p \<noteq> None then (t, Inl (OSError EEXIST))
      else if \<not> st_dir (butlast p) t then (t, Inl (OSError ENOENT))
      else (t @ [(p, n)], Inr ()))"

definition st_mkdir :: "path \<Rightarrow> int \<Rightarrow> store \<Rightarrow> store \<times> unit res" where
  "st_mkdir p perm = st_new p (SDir perm 0)"

definition st_create :: "path \<Rightarrow> int \<Rightarrow> store \<Rightarrow> store \<times> unit res" where
  "st_create p perm = st_new p (SFile [] perm 0)"

definition st_change :: "path \<Rightarrow> (snode \<Rightarrow> snode) \<Rightarrow> store \<Rightarrow> store \<times> unit res" where
  "st_change p g t =
     (case map_of t p of None \<Rightarrow> (t, Inl (OSError ENOENT)) | Some n \<Rightarrow> (dict_set p (g n) t, Inr ()))"

definition st_append :: "path \<Rightarrow> bytes \<Rightarrow> store \<Rightarrow> store \<times> unit res" where
  "st_append p data = st_change p (\<lambda>n. case n of SFile c a b \<Rightarrow> SFile (c @ data) a b | _ \<Rightarrow> n)"

definition st_chmod :: "path \<Rightarrow> int \<Rightarrow> store \<Rightarrow> store \<times> unit res" where
  "st_chmod p perm = st_change p (\<lambda>n. case n of SFile c a b \<Rightarrow> SFile c perm b | SDir a b \<Rightarrow> SDir perm b)"

definition st_utime :: "path \<Rightarrow> int \<Rightarrow> store \<Rightarrow> store \<times> unit res" where
  "st_utime p mtime = st_change p (\<lambda>n. case n of SFile c a b \<Rightarrow> SFile c a mtime | SDir a b \<Rightarrow> SDir a mtime)"

definition st_unlink_missing :: "path \<Rightarrow> store \<Rightarrow> store \<times> unit res" where
  "st_unlink_missing p t = (dict_pop p t, Inr ())"

definition under :: "path \<Rightarrow> path \<Rightarrow> bool" where
  "under p q \<longleftrightarrow> take (length p) q = p"

definition st_rmtree :: "path \<Rightarrow> store \<Rightarrow> store \<times> unit res" where
  "st_rmtree p t =
     (if map_of t p = None then (t, Inl (OSError ENOENT)) else (filter (\<lambda>e. \<not> under p (fst e)) t, Inr ()))"

text \<open>\<open>os.replace\<close> of a directory.\<close>

definition st_rename :: "path \<Rightarrow> path \<Rightarrow> store \<Rightarrow> store \<times> unit res" where
  "st_rename p q t =
     (if map_of t p = None then (t, Inl (OSError ENOENT))
      else if list_ex (\<lambda>e. under q (fst e) \<and> fst e \<noteq> q) t then (t, Inl (OSError ENOTEMPTY))
      else (map (\<lambda>(r, n). (if under p r then q @ drop (length p) r else r, n)) (dict_pop q t), Inr ()))"

definition st_names :: "path \<Rightarrow> store \<Rightarrow> store \<times> string list res" where
  "st_names p t =
     (if st_dir p t then (t, Inr (map (last \<circ> fst) (filter (\<lambda>e. fst e \<noteq> [] \<and> butlast (fst e) = p) t)))
      else (t, Inl (OSError ENOENT)))"

definition st_node :: "path \<Rightarrow> store \<Rightarrow> store \<times> snode option res" where
  "st_node p t = (t, Inr (map_of t p))"

definition st_read :: "path \<Rightarrow> nat \<Rightarrow> nat \<Rightarrow> store \<Rightarrow> store \<times> bytes res" where
  "st_read p off n t =
     (t, case map_of t p of
           Some (SFile c a b) \<Rightarrow> Inr (take n (drop off c))
         | Some (SDir a b) \<Rightarrow> Inl (OSError EISDIR)
         | None \<Rightarrow> Inl (OSError ENOENT))"

subsection \<open>The budget\<close>

record tally =
  tl_bytes :: int
  tl_nodes :: int

type_synonym limits = "int \<times> int"

definition new_tally :: tally where
  "new_tally = \<lparr>tl_bytes = 0, tl_nodes = 0\<rparr>"

definition add_node :: "limits \<Rightarrow> tally \<Rightarrow> tally res" where
  "add_node lims b =
     (let b1 = b\<lparr>tl_nodes := tl_nodes b + 1\<rparr> in
      if snd lims < tl_nodes b1 then Inl (ValueError (''Snapshot exceeds max_nodes='' @ int_str (snd lims))) else Inr b1)"

definition add_bytes :: "limits \<Rightarrow> int \<Rightarrow> tally \<Rightarrow> tally res" where
  "add_bytes lims n b =
     (let b1 = b\<lparr>tl_bytes := tl_bytes b + n\<rparr> in
      if fst lims < tl_bytes b1 then Inl (ValueError (''Snapshot exceeds max_total_bytes='' @ int_str (fst lims))) else Inr b1)"

definition masked :: "int \<Rightarrow> int \<Rightarrow> int" where
  "masked um perm = Bit_Operations.and perm (Bit_Operations.not um)"

subsection \<open>Copying into the store\<close>

definition snapshot_id_ok :: "string \<Rightarrow> bool" where
  "snapshot_id_ok v = lease_id_ok (ustr_of v)"

definition snapshot_root :: "unit sprog" where
  "snapshot_root =
     bind_prog (store_call st_fine) (\<lambda>_.
       handle (store_call st_fine) (\<lambda>e. if is_os_error e then ret () else raise e))"

definition snapshot_dir :: "string \<Rightarrow> path sprog" where
  "snapshot_dir sid =
     bind_prog (check (snapshot_id_ok sid) ''Invalid snapshot_id'') (\<lambda>_.
     bind_prog snapshot_root (\<lambda>_. ret [sid]))"

text \<open>The loop over 1 MiB chunks.\<close>

function copy_in :: "ino \<Rightarrow> path \<Rightarrow> nat \<Rightarrow> unit sprog" where
  "copy_in fd dest off s =
     (case on_disk (do_call (sys_read_at fd off 1048576)) s of
        (s1, Inl e) \<Rightarrow> (s1, Inl e)
      | (s1, Inr chunk) \<Rightarrow>
          if chunk = [] then (s1, Inr ())
          else (case store_call (st_append dest chunk) s1 of
              (s2, Inl e) \<Rightarrow> (s2, Inl e)
            | (s2, Inr _) \<Rightarrow> copy_in fd dest (off + length chunk) s2))"
  by pat_completeness auto

lemma store_call_files: "store_call c s = (s', r) \<Longrightarrow> sfiles s' = sfiles s \<and> sclock s' = sclock s"
  by (auto simp: store_call_def split: list.splits option.splits prod.splits)

lemma on_disk_eq: "on_disk p s = (s', r) \<longleftrightarrow> (\<exists>w. p (sfiles s) = (w, r) \<and> s' = s\<lparr>sfiles := w\<rparr>)"
  by (auto simp: on_disk_def split: prod.splits)

termination copy_in
  by (relation "measures [\<lambda>(fd, dest, off, s). length (schedule (sfiles s)), \<lambda>(fd, dest, off, s). size_of fd (disk (sfiles s)) - off]")
    (auto dest!: read_at_le store_call_files [OF sym] simp: on_disk_eq eq_commute [of "(_, _)" "on_disk _ _"])

declare copy_in.simps [simp del]


definition copy_regular :: "int \<Rightarrow> limits \<Rightarrow> settings \<Rightarrow> path_env \<Rightarrow> kernel \<Rightarrow> string \<Rightarrow> path \<Rightarrow> tally \<Rightarrow> (int \<times> tally) sprog" where
  "copy_regular um lims st env k source dest b =
     bind_prog (on_disk (open_beneath st env k source False False)) (\<lambda>fd.
     bind_prog (on_disk (do_call (sys_fstat fd))) (\<lambda>m.
     bind_prog (check (is_reg m) (''Snapshot source changed type: '' @ source)) (\<lambda>_.
     bind_prog (lift_res (add_node lims b)) (\<lambda>b1.
     bind_prog (lift_res (add_bytes lims (st_size m) b1)) (\<lambda>b2.
     bind_prog (store_call (st_create dest (masked um (m_perm m)))) (\<lambda>_.
     bind_prog
       (handle
          (bind_prog (copy_in fd dest 0) (\<lambda>_.
           bind_prog (store_call st_fine) (\<lambda>_. store_call (st_utime dest (m_mtime m)))))
          (\<lambda>e. bind_prog (store_call (st_unlink_missing dest)) (\<lambda>_. raise e))) (\<lambda>_.
       ret (st_size m, b2))))))))"

definition child_source :: "string \<Rightarrow> string \<Rightarrow> string" where
  "child_source source name = (let p = parse_path source in ppath_str (fst p, snd p @ [name]))"

text \<open>The entries of one directory: \<open>sub\<close> copies a directory, \<open>reg\<close> a file.\<close>

fun copy_children ::
    "(string \<Rightarrow> path \<Rightarrow> tally \<Rightarrow> (int \<times> tally) sprog) \<Rightarrow> (string \<Rightarrow> path \<Rightarrow> tally \<Rightarrow> (int \<times> tally) sprog) \<Rightarrow> ino \<Rightarrow> string \<Rightarrow> path
       \<Rightarrow> string list \<Rightarrow> int \<Rightarrow> tally \<Rightarrow> (int \<times> tally) sprog" where
  "copy_children sub reg d source dest [] n b = ret (n, b)"
| "copy_children sub reg d source dest (name # names) n b =
     bind_prog (on_disk (do_call (sys_lstat d name))) (\<lambda>(i, m).
       let child = child_source source name in
       bind_prog
         (if is_lnk m then raise (ValueError (''Snapshots reject symlinks: '' @ child))
          else if is_dir m then sub child (dest @ [name]) b
          else if is_reg m then reg child (dest @ [name]) b
          else raise (ValueError (''Snapshots reject special files: '' @ child)))
         (\<lambda>(c, b1). copy_children sub reg d source dest names (n + c) b1))"

primrec copy_tree ::
    "nat \<Rightarrow> int \<Rightarrow> limits \<Rightarrow> settings \<Rightarrow> path_env \<Rightarrow> kernel \<Rightarrow> string \<Rightarrow> path \<Rightarrow> tally \<Rightarrow> (int \<times> tally) sprog" where
  "copy_tree 0 um lims st env k = (\<lambda>source dest b. raise RecursionError)"
| "copy_tree (Suc depth) um lims st env k = (\<lambda>source dest b.
     bind_prog (on_disk (open_beneath st env k source True False)) (\<lambda>d.
     bind_prog (on_disk (do_call (sys_fstat d))) (\<lambda>m.
     bind_prog (check (is_dir m) (''Snapshot source changed type: '' @ source)) (\<lambda>_.
     bind_prog (lift_res (add_node lims b)) (\<lambda>b1.
     bind_prog (store_call (st_mkdir dest (masked um (m_perm m)))) (\<lambda>_.
     bind_prog (on_disk (do_call (sys_listdir d))) (\<lambda>names.
     bind_prog (copy_children (copy_tree depth um lims st env k) (copy_regular um lims st env k) d source dest (sort_key slower names) 0 b1) (\<lambda>(n, b2).
     bind_prog (store_call (st_chmod dest (m_perm m))) (\<lambda>_.
     bind_prog (store_call (st_utime dest (m_mtime m))) (\<lambda>_.
       ret (n, b2)))))))))))"

subsection \<open>The manifest\<close>

record shot_entry =
  se_path :: string
  se_type :: string
  se_rel :: string
  se_size :: int
  se_mode :: int

definition entry_json :: "shot_entry \<Rightarrow> json" where
  "entry_json e = JObj
     [(ustr_of ''path'', JStr (ustr_of (se_path e))), (ustr_of ''type'', JStr (ustr_of (se_type e))),
      (ustr_of ''snapshot_rel'', JStr (ustr_of (se_rel e))), (ustr_of ''size'', JInt (se_size e)), (ustr_of ''mode'', JInt (se_mode e))]"

definition manifest_json :: "string \<Rightarrow> ustr option \<Rightarrow> int \<Rightarrow> shot_entry list \<Rightarrow> tally \<Rightarrow> json" where
  "manifest_json sid label created es b = JObj
     [(ustr_of ''snapshot_id'', JStr (ustr_of sid)), (ustr_of ''label'', opt_str label), (ustr_of ''created_at'', JInt created),
      (ustr_of ''entries'', JList (map entry_json es)), (ustr_of ''total_bytes'', JInt (tl_bytes b)), (ustr_of ''total_nodes'', JInt (tl_nodes b))]"

definition manifest_limit :: nat where
  "manifest_limit = 1048576"

definition unreadable :: exn where
  "unreadable = ValueError ''Snapshot manifest is unreadable''"

definition manifest_text :: "path \<Rightarrow> bytes sprog" where
  "manifest_text p =
     handle
       (bind_prog (store_call (st_node p)) (\<lambda>n.
          case n of
            None \<Rightarrow> raise (OSError ENOENT)
          | Some (SDir a b) \<Rightarrow> store_call (st_read p 0 0)
          | Some (SFile c a b) \<Rightarrow>
              bind_prog (check (length c \<le> manifest_limit) ''Snapshot manifest is too large'') (\<lambda>_. store_call (st_read p 0 (length c)))))
       (\<lambda>e. if is_os_error e then raise unreadable else raise e)"

definition snapshot_manifest :: "(bytes \<Rightarrow> json option) \<Rightarrow> path \<Rightarrow> jdict sprog" where
  "snapshot_manifest loads dir =
     bind_prog (manifest_text (dir @ [''manifest.json''])) (\<lambda>text.
       case loads text of
         None \<Rightarrow> raise unreadable
       | Some (JObj d) \<Rightarrow> ret d
       | Some _ \<Rightarrow> raise (ValueError ''Snapshot manifest is invalid''))"

text \<open>\<open>d[k]\<close>, \<open>str(v)\<close>, and \<open>manifest.get("entries", [])\<close> as something to iterate over.\<close>

definition item_get :: "string \<Rightarrow> json \<Rightarrow> json res" where
  "item_get k v =
     (case v of
        JObj d \<Rightarrow> (case jget k d of Some x \<Rightarrow> Inr x | None \<Rightarrow> Inl (KeyError k))
      | _ \<Rightarrow> Inl (TypeError ''indices must be integers''))"

definition str_json :: "(json \<Rightarrow> string) \<Rightarrow> json \<Rightarrow> string" where
  "str_json to_str v = (case v of JStr s \<Rightarrow> map char_of s | _ \<Rightarrow> to_str v)"

definition str_item :: "(json \<Rightarrow> string) \<Rightarrow> string \<Rightarrow> json \<Rightarrow> string res" where
  "str_item to_str k v = and_then (item_get k v) (\<lambda>x. Inr (str_json to_str x))"

definition manifest_items :: "jdict \<Rightarrow> json list res" where
  "manifest_items d =
     (case jget ''entries'' d of
        None \<Rightarrow> Inr []
      | Some (JList xs) \<Rightarrow> Inr xs
      | Some (JStr s) \<Rightarrow> Inr (map (\<lambda>c. JStr [c]) s)
      | Some (JObj e) \<Rightarrow> Inr (map (\<lambda>x. JStr (fst x)) e)
      | Some _ \<Rightarrow> Inl (TypeError ''object is not iterable''))"


subsection \<open>\<open>snapshot_create\<close>\<close>

record snapshot_entry =
  sy_path :: string
  sy_type :: string
  sy_size :: int

record snapshot_info =
  si_id :: string
  si_label :: "ustr option"
  si_created :: int
  si_entries :: "snapshot_entry list"
  si_bytes :: int
  si_nodes :: int

definition temp_name :: "string \<Rightarrow> string" where
  "temp_name sid = ''.'' @ sid @ ''.tmp''"

definition capture_kind ::
    "nat \<Rightarrow> int \<Rightarrow> limits \<Rightarrow> settings \<Rightarrow> path_env \<Rightarrow> kernel \<Rightarrow> string \<Rightarrow> path \<Rightarrow> meta \<Rightarrow> tally \<Rightarrow> (string \<times> int \<times> tally) sprog" where
  "capture_kind depth um lims st env k normalized dest m b =
     (if is_reg m then bind_prog (copy_regular um lims st env k normalized dest b) (\<lambda>(n, b1). ret (''file'', n, b1))
      else if is_dir m then bind_prog (copy_tree depth um lims st env k normalized dest b) (\<lambda>(n, b1). ret (''directory'', n, b1))
      else raise (ValueError (''Snapshots accept only regular files/directories: '' @ normalized)))"

fun capture_all ::
    "nat \<Rightarrow> int \<Rightarrow> limits \<Rightarrow> settings \<Rightarrow> path_env \<Rightarrow> kernel \<Rightarrow> string \<Rightarrow> nat \<Rightarrow> string list \<Rightarrow> string list \<Rightarrow> shot_entry list \<Rightarrow> tally
       \<Rightarrow> (shot_entry list \<times> tally) sprog" where
  "capture_all depth um lims st env k temp idx seen [] es b = ret (es, b)"
| "capture_all depth um lims st env k temp idx seen (raw # raws) es b =
     bind_prog (lift_res (resolve_allowed_entry st env raw)) (\<lambda>entry.
       let normalized = path_str entry in
       bind_prog (check (normalized \<notin> set seen) (''Duplicate snapshot path: '' @ normalized)) (\<lambda>_.
       bind_prog (on_disk (do_call (sys_lstat_path entry))) (\<lambda>m.
       bind_prog (check (\<not> is_lnk m) (''Snapshots reject symlink roots: '' @ normalized)) (\<lambda>_.
       bind_prog (capture_kind depth um lims st env k normalized [temp, ''data'', nat_str idx] m b) (\<lambda>(kind, n, b1).
         capture_all depth um lims st env k temp (Suc idx) (normalized # seen) raws
           (es @ [\<lparr>se_path = normalized, se_type = kind, se_rel = ''data/'' @ nat_str idx, se_size = n, se_mode = m_perm m\<rparr>]) b1)))))"

definition write_manifest :: "(json \<Rightarrow> bytes res) \<Rightarrow> int \<Rightarrow> path \<Rightarrow> json \<Rightarrow> unit sprog" where
  "write_manifest dumps um p j =
     bind_prog (lift_res (dumps j)) (\<lambda>text.
     bind_prog (store_call (st_create p (masked um 438))) (\<lambda>_.
     bind_prog (store_call (st_append p text)) (\<lambda>_.
       store_call (st_chmod p 384))))"

definition entry_result :: "shot_entry \<Rightarrow> snapshot_entry" where
  "entry_result e = \<lparr>sy_path = se_path e, sy_type = se_type e, sy_size = se_size e\<rparr>"

definition fill_snapshot ::
    "(json \<Rightarrow> bytes res) \<Rightarrow> nat \<Rightarrow> int \<Rightarrow> limits \<Rightarrow> settings \<Rightarrow> path_env \<Rightarrow> kernel \<Rightarrow> string \<Rightarrow> string list \<Rightarrow> ustr option \<Rightarrow> snapshot_info sprog" where
  "fill_snapshot dumps depth um lims st env k sid paths label =
     bind_prog (capture_all depth um lims st env k (temp_name sid) 0 [] paths [] new_tally) (\<lambda>(es, b).
     bind_prog stime (\<lambda>created.
     bind_prog (write_manifest dumps um [temp_name sid, ''manifest.json''] (manifest_json sid label created es b)) (\<lambda>_.
     bind_prog (store_call (st_rename [temp_name sid] [sid])) (\<lambda>_.
       ret \<lparr>si_id = sid, si_label = label, si_created = created, si_entries = map entry_result es, si_bytes = tl_bytes b,
            si_nodes = tl_nodes b\<rparr>))))"

definition snapshot_create ::
    "(json \<Rightarrow> bytes res) \<Rightarrow> nat \<Rightarrow> int \<Rightarrow> settings \<Rightarrow> path_env \<Rightarrow> kernel \<Rightarrow> string \<Rightarrow> string list \<Rightarrow> ustr option \<Rightarrow> int \<Rightarrow> int \<Rightarrow> snapshot_info sprog" where
  "snapshot_create dumps depth um st env k sid paths label max_b max_n =
     bind_prog (check (\<not> (paths = [] \<or> 20 < length paths)) ''paths must contain between 1 and 20 items'') (\<lambda>_.
     bind_prog (lift_res (case label of None \<Rightarrow> Inr [] | Some l \<Rightarrow> encode_utf8 l)) (\<lambda>lb.
     bind_prog (check (length lb \<le> 128) ''label must be <= 128 UTF-8 bytes'') (\<lambda>_.
     bind_prog (check (\<not> (max_b < 1 \<or> max_transfer_bytes st < max_b))
                  (''max_total_bytes must be between 1 and '' @ int_str (max_transfer_bytes st))) (\<lambda>_.
     bind_prog (check (\<not> (max_n < 1 \<or> 20000 < max_n)) ''max_nodes must be between 1 and 20000'') (\<lambda>_.
     bind_prog snapshot_root (\<lambda>_.
     bind_prog (store_call (st_mkdir [temp_name sid] 448)) (\<lambda>_.
     bind_prog (store_call (st_mkdir [temp_name sid, ''data''] 448)) (\<lambda>_.
       handle (fill_snapshot dumps depth um (max_b, max_n) st env k sid paths label)
         (\<lambda>e. bind_prog (attempt (store_call (st_rmtree [temp_name sid]))) (\<lambda>_. raise e))))))))))"

subsection \<open>\<open>snapshot_list\<close> and \<open>snapshot_delete\<close>\<close>

definition is_value_error :: "exn \<Rightarrow> bool" where
  "is_value_error e = (case e of ValueError _ \<Rightarrow> True | _ \<Rightarrow> False)"

text \<open>The result models check their fields.\<close>

definition entry_of_item :: "(nat \<Rightarrow> nat option) \<Rightarrow> (json \<Rightarrow> string) \<Rightarrow> json \<Rightarrow> snapshot_entry res" where
  "entry_of_item ud to_str v =
     and_then (str_item to_str ''path'' v) (\<lambda>p.
     and_then (str_item to_str ''type'' v) (\<lambda>t.
     and_then (item_get ''size'' v) (\<lambda>x.
     and_then (int_of_json ud x) (\<lambda>n.
       if t \<notin> {''file'', ''directory''} \<or> n < 0 then Inl (ValueError ''SnapshotEntry'')
       else Inr \<lparr>sy_path = p, sy_type = t, sy_size = n\<rparr>))))"

fun entries_of_items :: "(nat \<Rightarrow> nat option) \<Rightarrow> (json \<Rightarrow> string) \<Rightarrow> json list \<Rightarrow> snapshot_entry list res" where
  "entries_of_items ud to_str [] = Inr []"
| "entries_of_items ud to_str (v # vs) =
     and_then (entry_of_item ud to_str v) (\<lambda>e. and_then (entries_of_items ud to_str vs) (\<lambda>es. Inr (e # es)))"

definition label_of :: "jdict \<Rightarrow> ustr option res" where
  "label_of d =
     (case jget ''label'' d of
        None \<Rightarrow> Inr None
      | Some JNull \<Rightarrow> Inr None
      | Some (JStr s) \<Rightarrow> Inr (Some s)
      | Some _ \<Rightarrow> Inl (ValueError ''SnapshotInfo''))"

definition int_get :: "(nat \<Rightarrow> nat option) \<Rightarrow> string \<Rightarrow> jdict \<Rightarrow> int res" where
  "int_get ud key d = int_of_json ud (case jget key d of Some v \<Rightarrow> v | None \<Rightarrow> JInt 0)"

definition snapshot_info_from_manifest :: "(nat \<Rightarrow> nat option) \<Rightarrow> (json \<Rightarrow> string) \<Rightarrow> jdict \<Rightarrow> snapshot_info res" where
  "snapshot_info_from_manifest ud to_str d =
     and_then (manifest_items d) (\<lambda>items.
     and_then (entries_of_items ud to_str items) (\<lambda>es.
     and_then (str_item to_str ''snapshot_id'' (JObj d)) (\<lambda>sid.
     and_then (item_get ''created_at'' (JObj d)) (\<lambda>c.
     and_then (int_of_json ud c) (\<lambda>created.
     and_then (int_get ud ''total_bytes'' d) (\<lambda>nb.
     and_then (int_get ud ''total_nodes'' d) (\<lambda>nn.
     and_then (label_of d) (\<lambda>l.
       if created \<le> 0 \<or> nb < 0 \<or> nn < 0 then Inl (ValueError ''SnapshotInfo'')
       else Inr \<lparr>si_id = sid, si_label = l, si_created = created, si_entries = es, si_bytes = nb, si_nodes = nn\<rparr>))))))))"

definition info_of_child :: "(nat \<Rightarrow> nat option) \<Rightarrow> (json \<Rightarrow> string) \<Rightarrow> (bytes \<Rightarrow> json option) \<Rightarrow> string \<Rightarrow> snapshot_info option sprog" where
  "info_of_child ud to_str loads name =
     bind_prog (handle (store_call (\<lambda>t. (t, Inr (st_dir [name] t)))) (\<lambda>e. ret False)) (\<lambda>dir.
       if \<not> dir \<or> \<not> snapshot_id_ok name then ret None
       else
         handle
           (bind_prog (snapshot_manifest loads [name]) (\<lambda>d.
            bind_prog (lift_res (snapshot_info_from_manifest ud to_str d)) (\<lambda>i. ret (Some i))))
           (\<lambda>e. if is_value_error e then ret None else raise e))"

fun infos_of :: "(nat \<Rightarrow> nat option) \<Rightarrow> (json \<Rightarrow> string) \<Rightarrow> (bytes \<Rightarrow> json option) \<Rightarrow> string list \<Rightarrow> snapshot_info list sprog" where
  "infos_of ud to_str loads [] = ret []"
| "infos_of ud to_str loads (name # names) =
     bind_prog (info_of_child ud to_str loads name) (\<lambda>i.
     bind_prog (infos_of ud to_str loads names) (\<lambda>is.
       ret (case i of Some x \<Rightarrow> x # is | None \<Rightarrow> is)))"

definition snapshot_list :: "(nat \<Rightarrow> nat option) \<Rightarrow> (json \<Rightarrow> string) \<Rightarrow> (bytes \<Rightarrow> json option) \<Rightarrow> snapshot_info list sprog" where
  "snapshot_list ud to_str loads =
     bind_prog snapshot_root (\<lambda>_.
     bind_prog (store_call (st_names [])) (\<lambda>names.
     bind_prog (infos_of ud to_str loads names) (\<lambda>is.
       ret (sort_key (\<lambda>i. - si_created i) is))))"

definition snapshot_delete :: "string \<Rightarrow> bool sprog" where
  "snapshot_delete sid =
     bind_prog (snapshot_dir sid) (\<lambda>dir.
     bind_prog (store_call (st_node dir)) (\<lambda>n.
       if n = None then ret False
       else bind_prog (store_call (st_rmtree dir)) (\<lambda>_. ret True)))"


subsection \<open>Copying out of the store\<close>

text \<open>A call on a path below the directory \<open>base\<close>, as through \<open>/proc/self/fd/<base>/...\<close>.\<close>

definition at_path :: "ino \<Rightarrow> path \<Rightarrow> (ino \<Rightarrow> 'a call) \<Rightarrow> 'a call" where
  "at_path base p c f = (case walk f False False max_links [base] p of Inl e \<Rightarrow> (f, Inl e) | Inr i \<Rightarrow> c i f)"

definition sys_utime :: "int \<Rightarrow> ino \<Rightarrow> unit call" where
  "sys_utime t i f =
     (case inodes f i of
        Some m \<Rightarrow> (f\<lparr>inodes := (inodes f)(i \<mapsto> m\<lparr>m_mtime := t\<rparr>)\<rparr>, Inr ())
      | None \<Rightarrow> sys_error EIO f)"

text \<open>\<open>open(path, "wb")\<close>: an existing file is truncated, a missing one is created.\<close>

definition sys_open_write :: "string \<Rightarrow> int \<Rightarrow> ino \<Rightarrow> ino call" where
  "sys_open_write name perm d f =
     (if lookup_at f d name = None then sys_create_excl d name perm f
      else case walk f False False max_links [d] [name] of
        Inl e \<Rightarrow> (f, Inl e)
      | Inr i \<Rightarrow>
          (case reg_content f i of
             Some c \<Rightarrow> (set_node i (Reg []) f, Inr i)
           | None \<Rightarrow> if entries f i \<noteq> None then sys_error EISDIR f else (f, Inr i)))"

definition store_size :: "path \<Rightarrow> store \<Rightarrow> nat" where
  "store_size p t = (case map_of t p of Some (SFile c a b) \<Rightarrow> length c | _ \<Rightarrow> 0)"

function copy_out :: "path \<Rightarrow> ino \<Rightarrow> nat \<Rightarrow> unit sprog" where
  "copy_out src fd off s =
     (case store_call (st_read src off 1048576) s of
        (s1, Inl e) \<Rightarrow> (s1, Inl e)
      | (s1, Inr chunk) \<Rightarrow>
          if chunk = [] then (s1, Inr ())
          else (case on_disk (write_all (OSMessage ''write could not complete'') fd chunk) s1 of
              (s2, Inl e) \<Rightarrow> (s2, Inl e)
            | (s2, Inr _) \<Rightarrow> copy_out src fd (off + length chunk) s2))"
  by pat_completeness auto

lemma store_read: "store_call (st_read p off n) s = (s', Inr c) \<Longrightarrow> shots s' = shots s \<and> (c \<noteq> [] \<longrightarrow> off + length c \<le> store_size p (shots s))"
  by (auto simp: store_call_def st_read_def store_size_def split: list.splits option.splits snode.splits)

termination copy_out
  by (relation "measure (\<lambda>(src, fd, off, s). store_size src (shots s) - off)")
    (auto dest!: store_read simp: on_disk_eq eq_commute [of "(_, _)"] neq_Nil_conv)

declare copy_out.simps [simp del]

definition copystat :: "ino \<Rightarrow> path \<Rightarrow> path \<Rightarrow> unit sprog" where
  "copystat base src dst =
     bind_prog (store_call (st_node src)) (\<lambda>n.
       case n of
         None \<Rightarrow> raise (OSError ENOENT)
       | Some n \<Rightarrow>
           (case (case n of SFile c a b \<Rightarrow> (a, b) | SDir a b \<Rightarrow> (a, b)) of (perm, mtime) \<Rightarrow>
              bind_prog (on_disk (do_call (at_path base dst (sys_utime mtime)))) (\<lambda>_.
                on_disk (do_call (at_path base dst (\<lambda>i. sys_fchmod i perm))))))"

definition copy2 :: "int \<Rightarrow> ino \<Rightarrow> path \<Rightarrow> path \<Rightarrow> unit sprog" where
  "copy2 um base src dst =
     bind_prog (store_call (st_read src 0 0)) (\<lambda>_.
     bind_prog (on_disk (do_call (at_path base (butlast dst) (sys_open_write (last dst) (masked um 438))))) (\<lambda>fd.
     bind_prog (copy_out src fd 0) (\<lambda>_. copystat base src dst)))"

text \<open>\<open>shutil.copytree\<close>: the failing entries are collected and raised as one error at the end.\<close>

fun gather :: "(string \<Rightarrow> unit sprog) \<Rightarrow> string list \<Rightarrow> bool sprog" where
  "gather p [] = ret False"
| "gather p (x # xs) =
     bind_prog (on_error (p x) (\<lambda>e. if is_os_error e then ret True else raise e) (\<lambda>_. ret False)) (\<lambda>bad.
     bind_prog (gather p xs) (\<lambda>worse. ret (bad \<or> worse)))"

definition restore_entry :: "(path \<Rightarrow> path \<Rightarrow> unit sprog) \<Rightarrow> int \<Rightarrow> ino \<Rightarrow> path \<Rightarrow> path \<Rightarrow> unit sprog" where
  "restore_entry sub um base src dst =
     bind_prog (store_call (\<lambda>t. (t, Inr (st_dir src t)))) (\<lambda>dir. if dir then sub src dst else copy2 um base src dst)"

primrec copytree :: "nat \<Rightarrow> int \<Rightarrow> ino \<Rightarrow> path \<Rightarrow> path \<Rightarrow> unit sprog" where
  "copytree 0 um base = (\<lambda>src dst. raise RecursionError)"
| "copytree (Suc depth) um base = (\<lambda>src dst.
     bind_prog (store_call (st_names src)) (\<lambda>names.
     bind_prog (on_disk (do_call (at_path base (butlast dst) (\<lambda>d. sys_mkdir d (last dst) (masked um 511))))) (\<lambda>_.
     bind_prog (gather (\<lambda>name. restore_entry (copytree depth um base) um base (src @ [name]) (dst @ [name])) names) (\<lambda>bad.
     bind_prog (on_error (copystat base src dst) (\<lambda>e. if is_os_error e then ret True else raise e) (\<lambda>_. ret bad)) (\<lambda>bad.
       if bad then raise (OSMessage ''copytree'') else ret ())))))"

subsection \<open>\<open>snapshot_restore\<close>\<close>

definition exists_at :: "ino \<Rightarrow> string \<Rightarrow> bool prog" where
  "exists_at parent name = bind_prog (lstat_at parent name) (\<lambda>x. ret (x \<noteq> None))"

definition remove_at :: "nat \<Rightarrow> ino \<Rightarrow> string \<Rightarrow> unit prog" where
  "remove_at depth parent name =
     bind_prog (lstat_at parent name) (\<lambda>x.
       case x of
         None \<Rightarrow> ret ()
       | Some (i, m) \<Rightarrow> if is_dir m then remove_tree_at depth parent name else do_call (sys_unlink parent name))"

text \<open>\<open>shutil.rmtree(..., ignore_errors=True)\<close>\<close>

primrec sweep_tree :: "nat \<Rightarrow> ino \<Rightarrow> string \<Rightarrow> unit prog" where
  "sweep_tree 0 = (\<lambda>d name. raise RecursionError)"
| "sweep_tree (Suc depth) = (\<lambda>d name.
     on_error (do_call (sys_lstat d name)) (\<lambda>e. ret ()) (\<lambda>(i, m).
       if \<not> is_dir m then bind_prog (attempt (do_call (sys_unlink d name))) (\<lambda>_. ret ())
       else
         on_error (do_call (sys_open_nofollow True d name)) (\<lambda>e. ret ()) (\<lambda>child.
         on_error (do_call (sys_listdir child)) (\<lambda>e. ret ()) (\<lambda>names.
         bind_prog (for_each (sweep_tree depth child) names) (\<lambda>_.
         bind_prog (attempt (do_call (sys_rmdir d name))) (\<lambda>_. ret ()))))))"

definition stage_shot_file :: "int \<Rightarrow> path \<Rightarrow> ino \<Rightarrow> string \<Rightarrow> int \<Rightarrow> unit sprog" where
  "stage_shot_file um source parent temp mode =
     bind_prog (on_disk (do_call (sys_create_excl parent temp (masked um mode)))) (\<lambda>fd.
       handle
         (bind_prog (store_call (st_read source 0 0)) (\<lambda>_.
          bind_prog (copy_out source fd 0) (\<lambda>_. on_disk (do_call (sys_fsync fd)))))
         (\<lambda>e. bind_prog (handle (on_disk (do_call (sys_unlink parent temp))) (\<lambda>x. if is_os_error x then ret () else raise x)) (\<lambda>_. raise e)))"

definition stage_shot_dir :: "nat \<Rightarrow> int \<Rightarrow> path \<Rightarrow> ino \<Rightarrow> string \<Rightarrow> int \<Rightarrow> unit sprog" where
  "stage_shot_dir depth um source parent temp mode =
     bind_prog (on_disk (do_call (sys_mkdir parent temp (masked um mode)))) (\<lambda>_.
       handle
         (bind_prog (store_call (st_names source)) (\<lambda>names.
          bind_prog (for_each (\<lambda>name. restore_entry (copytree depth um parent) um parent (source @ [name]) [temp, name]) names) (\<lambda>_.
            on_disk (do_call (at_path parent [temp] (\<lambda>i. sys_fchmod i mode))))))
         (\<lambda>e. bind_prog (on_disk (sweep_tree depth parent temp)) (\<lambda>_. raise e)))"

definition stage_snapshot_entry :: "nat \<Rightarrow> int \<Rightarrow> path \<Rightarrow> ino \<Rightarrow> string \<Rightarrow> string \<Rightarrow> int \<Rightarrow> unit sprog" where
  "stage_snapshot_entry depth um source parent temp kind mode =
     (if kind = ''file'' then stage_shot_file um source parent temp mode
      else if kind = ''directory'' then stage_shot_dir depth um source parent temp mode
      else raise (ValueError ''Snapshot manifest contains invalid type''))"

definition put_back :: "nat \<Rightarrow> ino \<Rightarrow> string \<Rightarrow> string \<Rightarrow> unit prog" where
  "put_back depth parent temp name =
     handle
       (bind_prog (exists_at parent name) (\<lambda>present.
          if present
          then bind_prog (do_call (sys_rename_exchange parent temp parent name)) (\<lambda>_.
               bind_prog (do_call (sys_fsync parent)) (\<lambda>_. remove_at depth parent temp))
          else bind_prog (do_call (sys_rename_noreplace parent temp parent name)) (\<lambda>_. do_call (sys_fsync parent))))
       (\<lambda>e. bind_prog (remove_at depth parent temp) (\<lambda>_. raise e))"

definition item_mode :: "(nat \<Rightarrow> nat option) \<Rightarrow> string \<Rightarrow> json \<Rightarrow> int res" where
  "item_mode ud kind v =
     (case v of
        JObj d \<Rightarrow> (case jget ''mode'' d of Some x \<Rightarrow> int_of_json ud x | None \<Rightarrow> Inr (if kind = ''file'' then 420 else 493))
      | _ \<Rightarrow> Inl (TypeError ''get''))"

definition restore_name :: "string \<Rightarrow> string \<Rightarrow> string" where
  "restore_name name token = ''.'' @ name @ ''.restore-'' @ token"

definition restore_item ::
    "(nat \<Rightarrow> nat option) \<Rightarrow> (json \<Rightarrow> string) \<Rightarrow> nat \<Rightarrow> int \<Rightarrow> settings \<Rightarrow> path_env \<Rightarrow> kernel \<Rightarrow> string \<Rightarrow> path \<Rightarrow> json \<Rightarrow> string sprog" where
  "restore_item ud to_str depth um st env k token dir v =
     bind_prog (lift_res (str_item to_str ''path'' v)) (\<lambda>raw.
     bind_prog (lift_res (str_item to_str ''type'' v)) (\<lambda>kind.
     bind_prog (lift_res (item_mode ud kind v)) (\<lambda>mode.
     bind_prog (lift_res (str_item to_str ''snapshot_rel'' v)) (\<lambda>rel.
       let source = dir @ snd (parse_path rel) in
       bind_prog (store_call (st_node source)) (\<lambda>n.
       bind_prog (check (n \<noteq> None) (''Snapshot data is missing for '' @ raw)) (\<lambda>_.
       bind_prog (on_disk (open_parent_beneath st env k raw)) (\<lambda>(parent, name, entry).
       bind_prog (stage_snapshot_entry depth um source parent (restore_name name token) kind mode) (\<lambda>_.
       bind_prog (on_disk (put_back depth parent (restore_name name token) name)) (\<lambda>_.
         ret (path_str entry))))))))))"

fun restore_items ::
    "(nat \<Rightarrow> nat option) \<Rightarrow> (json \<Rightarrow> string) \<Rightarrow> nat \<Rightarrow> int \<Rightarrow> settings \<Rightarrow> path_env \<Rightarrow> kernel \<Rightarrow> (nat \<Rightarrow> string) \<Rightarrow> path \<Rightarrow> nat \<Rightarrow> json list
       \<Rightarrow> string list sprog" where
  "restore_items ud to_str depth um st env k tokens dir idx [] = ret []"
| "restore_items ud to_str depth um st env k tokens dir idx (v # vs) =
     bind_prog (restore_item ud to_str depth um st env k (tokens idx) dir v) (\<lambda>p.
     bind_prog (restore_items ud to_str depth um st env k tokens dir (Suc idx) vs) (\<lambda>ps. ret (p # ps)))"

definition snapshot_restore ::
    "(nat \<Rightarrow> nat option) \<Rightarrow> (json \<Rightarrow> string) \<Rightarrow> (bytes \<Rightarrow> json option) \<Rightarrow> nat \<Rightarrow> int \<Rightarrow> settings \<Rightarrow> path_env \<Rightarrow> kernel \<Rightarrow> (nat \<Rightarrow> string)
       \<Rightarrow> string \<Rightarrow> string list sprog" where
  "snapshot_restore ud to_str loads depth um st env k tokens sid =
     bind_prog (snapshot_dir sid) (\<lambda>dir.
     bind_prog (snapshot_manifest loads dir) (\<lambda>d.
     bind_prog (lift_res (manifest_items d)) (\<lambda>items.
       restore_items ud to_str depth um st env k tokens dir 0 items)))"

end
