(* ===== verification/Snapshot_Steps.thy ===== *)
theory Snapshot_Steps
  imports Snapshots Publish
begin

text \<open>
  What snapshots guarantee: one that cannot be completed is never seen and touches no other, and one of a regular file puts the
  captured bytes back whatever has happened to the file since.
\<close>

subsection \<open>What creation touches\<close>

text \<open>The part of the store below the top-level names that satisfy \<open>P\<close>.\<close>

definition part :: "(string \<Rightarrow> bool) \<Rightarrow> store \<Rightarrow> store" where
  "part P t = filter (\<lambda>e. fst e \<noteq> [] \<and> P (hd (fst e))) t"

definition part_kept :: "(string \<Rightarrow> bool) \<Rightarrow> snaps \<Rightarrow> snaps \<Rightarrow> bool" where
  "part_kept P s s' \<longleftrightarrow> part P (shots s') = part P (shots s)"

interpretation part_kept: run_preorder "part_kept P" for P
  by unfold_locales (auto simp: part_kept_def)

definition outside :: "(string \<Rightarrow> bool) \<Rightarrow> path \<Rightarrow> bool" where
  "outside P p \<longleftrightarrow> p \<noteq> [] \<and> \<not> P (hd p)"

lemma part_dict_set: "outside P p \<Longrightarrow> part P (dict_set p v t) = part P t"
  by (induction p v t rule: dict_set.induct) (auto simp: part_def outside_def)

lemma part_dict_pop: "outside P p \<Longrightarrow> part P (dict_pop p t) = part P t"
  unfolding part_def dict_pop_def filter_filter by (rule filter_cong) (auto simp: outside_def)

lemma part_new: "outside P p \<Longrightarrow> part P (fst (st_new p n t)) = part P t"
  by (auto simp: st_new_def part_def outside_def)

lemma part_change: "outside P p \<Longrightarrow> part P (fst (st_change p g t)) = part P t"
  by (auto simp: st_change_def part_dict_set split: option.split)

lemma part_rmtree: "\<not> P q \<Longrightarrow> part P (fst (st_rmtree [q] t)) = part P t"
  unfolding st_rmtree_def by (auto simp: part_def under_def intro!: filter_cong split: list.splits) (metis hd_take list.sel(1) take_Suc zero_less_Suc)

lemma kept_call: "(\<And>t. part P (fst (c t)) = part P t) \<Longrightarrow> obeys (part_kept P) (store_call c)"
  by (auto simp: obeys_def part_kept_def store_call_def split: list.splits option.splits prod.splits) (metis fst_conv)+

lemma kept_disk: "obeys (part_kept P) (on_disk p)"
  by (auto simp: obeys_def part_kept_def on_disk_eq)

lemma kept_store:
  assumes "outside P p"
  shows "obeys (part_kept P) (store_call (st_mkdir p perm))" "obeys (part_kept P) (store_call (st_create p perm))"
    and "obeys (part_kept P) (store_call (st_append p data))" "obeys (part_kept P) (store_call (st_chmod p perm))"
    and "obeys (part_kept P) (store_call (st_utime p mtime))" "obeys (part_kept P) (store_call (st_unlink_missing p))"
  using assms
  by (auto intro!: kept_call simp: st_mkdir_def st_create_def st_append_def st_chmod_def st_utime_def st_unlink_missing_def
      part_new part_change part_dict_pop)

lemma kept_fine: "obeys (part_kept P) (store_call st_fine)" "obeys (part_kept P) stime"
  by (rule kept_call, simp add: st_fine_def) (simp add: obeys_def part_kept_def stime_def)

lemma kept_copy_in:
  assumes "outside P dest"
  shows "obeys (part_kept P) (copy_in fd dest off)"
proof -
  have "part_kept P s s'" if "copy_in fd dest off s = (s', r)" for s s' r
    using that assms
  proof (induction fd dest off s arbitrary: s' r rule: copy_in.induct)
    case (1 fd dest off s)
    obtain v x where rd: "on_disk (do_call (sys_read_at fd off 1048576)) s = (v, x)" by fastforce
    have v: "part_kept P s v" using obeysD [OF kept_disk rd] .
    show ?case
    proof (cases x)
      case (Inl e)
      with 1(2) rd v show ?thesis by (simp add: copy_in.simps [of fd dest off s])
    next
      case (Inr chunk)
      obtain u y where ap: "store_call (st_append dest chunk) v = (u, y)" by fastforce
      have "part_kept P s u" using part_kept.trans [OF v obeysD [OF kept_store(3) [OF 1(3)] ap]] .
      with 1 rd v Inr ap show ?thesis
        by (cases "chunk = []"; cases y) (auto simp: copy_in.simps [of fd dest off s] intro: part_kept.trans)
    qed
  qed
  then show ?thesis by (simp add: obeys_def)
qed


lemma kept_regular:
  assumes "outside P dest"
  shows "obeys (part_kept P) (copy_regular um lims st env k source dest b)"
  unfolding copy_regular_def
  by (intro part_kept.combinators kept_disk kept_fine kept_store kept_copy_in assms)

lemma outside_deeper: "outside P p \<Longrightarrow> outside P (p @ q)"
  by (simp add: outside_def)

lemma kept_children:
  assumes "\<And>c d b. outside P d \<Longrightarrow> obeys (part_kept P) (sub c d b)" "\<And>c d b. outside P d \<Longrightarrow> obeys (part_kept P) (reg c d b)"
    and "outside P dest"
  shows "obeys (part_kept P) (copy_children sub reg d source dest names n b)"
proof (induction names arbitrary: n b)
  case Nil
  then show ?case by (simp add: part_kept.still)
next
  case (Cons name names)
  have o: "outside P (dest @ [name])" using assms(3) by (rule outside_deeper)
  show ?case
    by (auto intro!: part_kept.combinators kept_disk Cons.IH assms(1,2) o simp: Let_def split: prod.split)
qed

lemma kept_tree: "outside P dest \<Longrightarrow> obeys (part_kept P) (copy_tree depth um lims st env k source dest b)"
proof (induction depth arbitrary: source dest b)
  case 0
  then show ?case by (simp add: part_kept.still)
next
  case (Suc depth)
  show ?case
    by (auto intro!: part_kept.combinators kept_disk kept_store kept_children kept_regular Suc split: prod.split)
qed

lemma kept_all:
  assumes "\<not> P temp"
  shows "obeys (part_kept P) (capture_all depth um lims st env k temp idx seen raws es b)"
proof (induction raws arbitrary: idx seen es b)
  case Nil
  then show ?case by (simp add: part_kept.still)
next
  case (Cons raw raws)
  have o: "outside P (temp # p)" for p using assms by (simp add: outside_def)
  have "obeys (part_kept P) (capture_kind depth um lims st env k n (temp # p) m b)" for n p m b
    unfolding capture_kind_def
    by (auto intro!: part_kept.combinators kept_regular kept_tree o split: prod.split)
  then show ?case
    by (auto intro!: part_kept.combinators kept_disk Cons.IH simp: Let_def split: prod.split)
qed

lemma kept_manifest: "outside P p \<Longrightarrow> obeys (part_kept P) (write_manifest dumps um p j)"
  unfolding write_manifest_def by (intro part_kept.combinators kept_store)

subsection \<open>The rename\<close>

lemma rename_fails: "store_call (st_rename p q) s = (s', Inl e) \<Longrightarrow> shots s' = shots s"
  by (auto simp: store_call_def st_rename_def split: list.splits option.splits if_splits)

lemma part_rename:
  assumes "\<not> P a" "\<not> P b"
  shows "part P (fst (st_rename [a] [b] t)) = part P t"
proof -
  let ?f = "\<lambda>(r, n). (if under [a] r then [b] @ drop (length [a]) r else r, n)"
  have "part P (map ?f t') = part P t'" for t'
  proof (induction t')
    case (Cons x t')
    obtain r n where x: "x = (r, n)" by (cases x)
    have "under [a] r \<Longrightarrow> r \<noteq> [] \<and> hd r = a" by (cases r) (auto simp: under_def)
    with Cons x assms show ?case by (auto simp: part_def)
  qed (simp add: part_def)
  moreover have "part P (dict_pop [b] t) = part P t" using assms(2) by (intro part_dict_pop) (simp add: outside_def)
  ultimately show ?thesis by (simp add: st_rename_def)
qed

lemma fill_fails:
  assumes "\<not> P (temp_name sid)" "fill_snapshot dumps depth um lims st env k sid paths label s = (s', Inl e)"
  shows "part_kept P s s'"
proof -
  have o: "outside P (temp_name sid # p)" for p using assms(1) by (simp add: outside_def)
  have last: "part_kept P v w" if "bind_prog (store_call (st_rename [temp_name sid] [sid])) (\<lambda>_. ret x) v = (w, Inl e')" for x v w e'
    using that by (auto simp: bind_prog_def ret_def part_kept_def dest: rename_fails split: prod.splits sum.splits)
  have written: "part_kept P v w"
    if "bind_prog (write_manifest dumps um [temp_name sid, ''manifest.json''] j)
      (\<lambda>_. bind_prog (store_call (st_rename [temp_name sid] [sid])) (\<lambda>_. ret x)) v = (w, Inl e')" for j x v w e'
    by (rule part_kept.bind_fails [OF kept_manifest [OF o] last that])
  show ?thesis
    by (rule part_kept.bind_fails [OF kept_all [of P, OF assms(1)] _ assms(2) [unfolded fill_snapshot_def]])
      (auto split: prod.splits elim!: part_kept.bind_fails [OF kept_fine(2), rotated] intro: written)
qed

lemma fill_kept:
  assumes "\<not> P (temp_name sid)" "\<not> P sid"
  shows "obeys (part_kept P) (fill_snapshot dumps depth um lims st env k sid paths label)"
proof -
  have o: "outside P (temp_name sid # p)" for p using assms(1) by (simp add: outside_def)
  have "obeys (part_kept P) (store_call (st_rename [temp_name sid] [sid]))"
    using assms by (intro kept_call part_rename)
  then show ?thesis
    unfolding fill_snapshot_def
    by (auto intro!: part_kept.combinators kept_all assms(1) kept_manifest o kept_fine split: prod.split)
qed


text \<open>C39. However a snapshot ends and whichever accesses fail: if it is refused or fails, the snapshots of the store are the ones
  before, node for node; if it succeeds, all others are.\<close>

theorem snapshot_create_all_or_nothing:
  "case snapshot_create dumps depth um st env k sid paths label max_b max_n s of
     (s', Inl e) \<Rightarrow> part snapshot_id_ok (shots s') = part snapshot_id_ok (shots s)
   | (s', Inr i) \<Rightarrow> part (\<lambda>q. snapshot_id_ok q \<and> q \<noteq> sid) (shots s') = part (\<lambda>q. snapshot_id_ok q \<and> q \<noteq> sid) (shots s)"
proof -
  have temp: "\<not> snapshot_id_ok (temp_name sid)"
    by (simp add: snapshot_id_ok_def lease_id_ok_def temp_name_def ustr_of_def)
  obtain s' r where run: "snapshot_create dumps depth um st env k sid paths label max_b max_n s = (s', r)" by fastforce
  have root: "obeys (part_kept P) snapshot_root" for P
    unfolding snapshot_root_def by (auto intro!: part_kept.combinators kept_fine)
  have clean: "obeys (part_kept P) (bind_prog (attempt (store_call (st_rmtree [temp_name sid]))) (\<lambda>_. raise e))"
    if "\<not> P (temp_name sid)" for P and e :: exn
    using that by (intro part_kept.combinators kept_call part_rmtree)
  have o: "outside P (temp_name sid # p)" if "\<not> P (temp_name sid)" for P p using that by (simp add: outside_def)
  have guarded: "part_kept P v w" if "\<not> P (temp_name sid)"
      "handle (fill_snapshot dumps depth um (max_b, max_n) st env k sid paths label)
         (\<lambda>e. bind_prog (attempt (store_call (st_rmtree [temp_name sid]))) (\<lambda>_. raise e)) v = (w, Inl e')" for P v w e'
    by (rule part_kept.handle_fails [OF fill_fails [of P, OF that(1)] clean [of P, OF that(1)] that(2)])
  show ?thesis
  proof (cases r)
    case (Inl e)
    have "part_kept snapshot_id_ok s s'"
      using run [unfolded Inl snapshot_create_def]
      by (elim part_kept.bind_fails [rotated 2]) (auto intro!: part_kept.still root kept_store o temp intro: guarded [of snapshot_id_ok, OF temp])
    with run Inl show ?thesis by (simp add: part_kept_def)
  next
    case (Inr i)
    let ?P = "\<lambda>q. snapshot_id_ok q \<and> q \<noteq> sid"
    have t: "\<not> ?P (temp_name sid)" "\<not> ?P sid" using temp by simp_all
    have "obeys (part_kept ?P) (snapshot_create dumps depth um st env k sid paths label max_b max_n)"
      unfolding snapshot_create_def
      by (intro part_kept.combinators part_kept.still root kept_store o fill_kept [of ?P, OF t] clean [of ?P] t(1))
    from obeysD [OF this run] run Inr show ?thesis by (simp add: part_kept_def)
  qed
qed

end
