(* ===== verification/Snapshot_Roundtrip.thy ===== *)
theory Snapshot_Roundtrip
  imports Snapshot_Steps
begin

text \<open>
  A snapshot of a regular file, taken on a quiet host, and its restoration later: the directory of the file may have changed in any
  way, the file may be gone or replaced; afterwards the captured bytes are there again.
\<close>

subsection \<open>Runs that change the store only\<close>

definition calm :: "snaps \<Rightarrow> bool" where
  "calm s \<longleftrightarrow> store_faults s = [] \<and> schedule (sfiles s) = []"

definition yields :: "'a sprog \<Rightarrow> snaps \<Rightarrow> (path \<Rightarrow> snode option) \<Rightarrow> 'a \<Rightarrow> bool" where
  "yields p s M x \<longleftrightarrow> (\<exists>t. p s = (s\<lparr>shots := t\<rparr>, Inr x) \<and> map_of t = M)"

lemma calm_shots [simp]: "calm (s\<lparr>shots := t\<rparr>) = calm s"
  by (simp add: calm_def)

lemma quiet_store: "calm s \<Longrightarrow> store_call c s = (case c (shots s) of (t, r) \<Rightarrow> (s\<lparr>shots := t\<rparr>, r))"
  by (cases s) (simp add: calm_def store_call_def split: prod.split)

lemma yields_bind:
  assumes "yields p s M x" "\<And>t. map_of t = M \<Longrightarrow> yields (k x) (s\<lparr>shots := t\<rparr>) M' y"
  shows "yields (bind_prog p k) s M' y"
proof -
  obtain t where t: "p s = (s\<lparr>shots := t\<rparr>, Inr x)" "map_of t = M" using assms(1) by (auto simp: yields_def)
  from assms(2) [OF t(2)] t(1) show ?thesis by (auto simp: yields_def bind_prog_def)
qed

lemma yields_ret: "map_of (shots s) = M \<Longrightarrow> yields (ret x) s M x"
  by (auto simp: yields_def ret_def intro: exI [of _ "shots s"])

lemma yields_handle: "yields p s M x \<Longrightarrow> yields (handle p h) s M x"
  by (auto simp: yields_def handle_def)

lemma yields_check: "b \<Longrightarrow> yields (k ()) s M x \<Longrightarrow> yields (bind_prog (check b m) k) s M x"
  by (simp add: yields_def check_def bind_prog_def ret_def)

lemma yields_lift: "r = Inr v \<Longrightarrow> yields (k v) s M x \<Longrightarrow> yields (bind_prog (lift_res r) k) s M x"
  by (simp add: yields_def lift_res_def bind_prog_def)

lemma yields_disk: "p (sfiles s) = (sfiles s, Inr v) \<Longrightarrow> yields (k v) s M x \<Longrightarrow> yields (bind_prog (on_disk p) k) s M x"
  by (simp add: yields_def on_disk_def bind_prog_def)

lemma yields_same: "p s = (s, Inr v) \<Longrightarrow> yields (k v) s M x \<Longrightarrow> yields (bind_prog p k) s M x"
  by (simp add: yields_def bind_prog_def)

lemma map_of_snoc: "map_of t p = None \<Longrightarrow> map_of (t @ [(p, n)]) = (map_of t)(p \<mapsto> n)"
  by (auto simp: map_add_def fun_eq_iff split: option.split)

lemma yields_new:
  assumes "calm s" "p \<noteq> []" "map_of (shots s) p = None" "st_dir (butlast p) (shots s)"
  shows "yields (store_call (st_new p n)) s ((map_of (shots s))(p \<mapsto> n)) ()"
  using assms by (auto simp: yields_def quiet_store st_new_def map_of_snoc simp del: map_of_append intro!: exI [of _ "shots s @ [(p, n)]"])

lemma yields_change:
  assumes "calm s" "map_of (shots s) p = Some n"
  shows "yields (store_call (st_change p g)) s ((map_of (shots s))(p \<mapsto> g n)) ()"
  using assms by (auto simp: yields_def quiet_store st_change_def fun_eq_iff)

lemma yields_fine: "calm s \<Longrightarrow> map_of (shots s) = M \<Longrightarrow> yields (store_call st_fine) s M ()"
  by (auto simp: yields_def quiet_store st_fine_def intro: exI [of _ "shots s"])

lemma yields_copy_in:
  assumes "calm s" "reg_content (disk (sfiles s)) fd = Some c" "off \<le> length c" "map_of (shots s) dest = Some (SFile (take off c) a b)"
  shows "yields (copy_in fd dest off) s ((map_of (shots s))(dest \<mapsto> SFile c a b)) ()"
  using assms
proof (induction "length c - off" arbitrary: off s rule: less_induct)
  case less
  let ?chunk = "take 1048576 (drop off c)"
  have q: "schedule (sfiles s) = []" using less.prems(1) by (simp add: calm_def)
  have rd: "on_disk (do_call (sys_read_at fd off 1048576)) s = (s, Inr ?chunk)"
    using quiet_call [OF q, of "sys_read_at fd off 1048576" "Inr ?chunk"] less.prems(2)
    by (simp add: on_disk_def sys_read_at_def read_all_reg)
  show ?case
  proof (cases "off = length c")
    case True
    with rd have "copy_in fd dest off s = (s, Inr ())" by (simp add: True copy_in.simps [of fd dest "length c" s])
    with True less.prems(4) show ?thesis unfolding yields_def by (intro exI [of _ "shots s"]) (simp add: fun_upd_idem)
  next
    case False
    define n where "n = length ?chunk"
    have n: "0 < n" "off + n \<le> length c" "take off c @ ?chunk = take (off + n) c" "?chunk \<noteq> []"
      using False less.prems(3) by (auto simp: n_def min_def take_add [symmetric] simp flip: take_add)
    obtain t where ap: "store_call (st_append dest ?chunk) s = (s\<lparr>shots := t\<rparr>, Inr ())"
        "map_of t = (map_of (shots s))(dest \<mapsto> SFile (take (off + n) c) a b)"
      using yields_change [OF less.prems(1,4), of "\<lambda>n. case n of SFile c a b \<Rightarrow> SFile (c @ ?chunk) a b | _ \<Rightarrow> n"] n(3)
      by (auto simp: yields_def st_append_def)
    have "yields (copy_in fd dest (off + n)) (s\<lparr>shots := t\<rparr>) ((map_of (shots (s\<lparr>shots := t\<rparr>)))(dest \<mapsto> SFile c a b)) ()"
      using less.prems ap(2) n by (intro less.hyps) auto
    moreover have "(map_of (shots (s\<lparr>shots := t\<rparr>)))(dest \<mapsto> SFile c a b) = (map_of (shots s))(dest \<mapsto> SFile c a b)" using ap(2) by simp
    moreover have "copy_in fd dest off s = copy_in fd dest (off + n) (s\<lparr>shots := t\<rparr>)"
      using rd ap(1) n(4) by (simp add: copy_in.simps [of fd dest off s] n_def)
    ultimately show ?thesis unfolding yields_def by simp
  qed
qed


subsection \<open>Creation\<close>

text \<open>A regular file \<open>fd\<close> with metadata \<open>m\<close> under the allowed path \<open>entry\<close>, on a quiet host.\<close>

definition file_there :: "settings \<Rightarrow> path_env \<Rightarrow> fs \<Rightarrow> path \<Rightarrow> ino \<Rightarrow> meta \<Rightarrow> bytes \<Rightarrow> bool" where
  "file_there st env f entry fd m c \<longleftrightarrow>
     opens st env f (path_str entry) False False fd \<and> inodes f fd = Some m \<and> m_node m = Reg c \<and> sys_lstat_path entry f = (f, Inr m)"

lemma yields_regular:
  assumes "calm s" "file_there st env (disk (sfiles s)) entry fd m c" "openat2_refused k = None"
    and "add_node lims b = Inr b1" "add_bytes lims (int (length c)) b1 = Inr b2"
    and "dest \<noteq> []" "map_of (shots s) dest = None" "st_dir (butlast dest) (shots s)"
  shows "yields (copy_regular um lims st env k (path_str entry) dest b) s
    ((map_of (shots s))(dest \<mapsto> SFile c (masked um (m_perm m)) (m_mtime m))) (int (length c), b2)"
proof -
  have q: "schedule (sfiles s) = []" using assms(1) by (simp add: calm_def)
  note f = assms(2) [unfolded file_there_def]
  have op: "open_beneath st env k (path_str entry) False False (sfiles s) = (sfiles s, Inr fd)"
    using opens_run [of st env "sfiles s"] f assms(3) q by blast
  have fs: "do_call (sys_fstat fd) (sfiles s) = (sfiles s, Inr m)" using q f by (intro quiet_call) (simp_all add: sys_fstat_def)
  have m: "is_reg m" "st_size m = int (length c)" using f by (simp_all add: is_reg_def st_size_def)
  have rc: "reg_content (disk (sfiles s)) fd = Some c" using f by (simp add: reg_content_def)
  let ?n = "\<lambda>x t. SFile x (masked um (m_perm m)) t"
  have put: "yields
       (handle
          (bind_prog (copy_in fd dest 0) (\<lambda>_.
           bind_prog (store_call st_fine) (\<lambda>_. store_call (st_utime dest (m_mtime m))))) h) (s\<lparr>shots := t\<rparr>)
       ((map_of (shots s))(dest \<mapsto> ?n c (m_mtime m))) ()" if t: "map_of t = (map_of (shots s))(dest \<mapsto> ?n [] 0)" for t h
  proof (rule yields_handle, rule yields_bind)
    show "yields (copy_in fd dest 0) (s\<lparr>shots := t\<rparr>) ((map_of (shots s))(dest \<mapsto> ?n c 0)) ()"
      using yields_copy_in [of "s\<lparr>shots := t\<rparr>" fd c 0 dest "masked um (m_perm m)" 0] assms(1) rc t by simp
  next
    fix t1 assume t1: "map_of t1 = (map_of (shots s))(dest \<mapsto> ?n c 0)"
    have "yields (store_call (st_utime dest (m_mtime m))) (s\<lparr>shots := t2\<rparr>) ((map_of (shots s))(dest \<mapsto> ?n c (m_mtime m))) ()"
      if "map_of t2 = map_of t1" for t2
      using yields_change [of "s\<lparr>shots := t2\<rparr>" dest "?n c 0" "\<lambda>n. case n of SFile c a b \<Rightarrow> SFile c a (m_mtime m) | SDir a b \<Rightarrow> SDir a (m_mtime m)"]
        assms(1) t1 that by (simp add: st_utime_def)
    then show "yields (bind_prog (store_call st_fine) (\<lambda>_. store_call (st_utime dest (m_mtime m)))) (s\<lparr>shots := t, shots := t1\<rparr>)
       ((map_of (shots s))(dest \<mapsto> ?n c (m_mtime m))) ()"
      using yields_fine [of "s\<lparr>shots := t1\<rparr>"] assms(1) by (intro yields_bind) auto
  qed
  show ?thesis
    unfolding copy_regular_def
    apply (rule yields_disk, rule op)
    apply (rule yields_disk, rule fs)
    apply (rule yields_check, rule m)
    apply (rule yields_lift, rule assms(4))
    apply (rule yields_lift, unfold m(2), rule assms(5))
    apply (rule yields_bind)
     apply (unfold st_create_def, rule yields_new, rule assms(1), rule assms(6), rule assms(7), rule assms(8))
    apply (rule yields_bind, rule put, assumption)
    by (simp add: yields_ret)
qed


lemma map_of_moved: "\<forall>r \<in> fst ` set t. f r = f q \<longrightarrow> r = q \<Longrightarrow> map_of (map (\<lambda>(r, n). (f r, n)) t) (f q) = map_of t q"
  by (induction t) (auto split: if_splits)

definition moved :: "string \<Rightarrow> string \<Rightarrow> (path \<Rightarrow> snode option) \<Rightarrow> path \<Rightarrow> snode option" where
  "moved a b M q = (case q of [] \<Rightarrow> M [] | x # p \<Rightarrow> if x = b then M (a # p) else if x = a then None else M q)"

lemma yields_rename:
  assumes "calm s" "map_of (shots s) [a] \<noteq> None" "\<And>p. map_of (shots s) (b # p) = None" "a \<noteq> b"
  shows "yields (store_call (st_rename [a] [b])) s (moved a b (map_of (shots s))) ()"
proof -
  let ?f = "\<lambda>r. if under [a] r then [b] @ drop (length [a]) r else r"
  let ?t = "dict_pop [b] (shots s)"
  have pop: "map_of ?t = map_of (shots s)" using assms(3) [of "[]"] by (auto simp: fun_eq_iff)
  have u: "under [x] r \<longleftrightarrow> (\<exists>p. r = x # p)" for x r by (cases r) (auto simp: under_def)
  have keys: "r \<noteq> b # p" if "r \<in> fst ` set (shots s)" for r p
    using that assms(3) [of p] by (metis map_of_eq_None_iff)
  then have none: "\<not> list_ex (\<lambda>e. under [b] (fst e) \<and> fst e \<noteq> [b]) (shots s)"
    by (auto simp: list_ex_iff u image_iff)
  have sub: "fst ` set ?t \<subseteq> fst ` set (shots s)" by (auto simp: dict_pop_def)
  have "map_of (map (\<lambda>(r, n). (?f r, n)) ?t) q = moved a b (map_of (shots s)) q" for q
  proof (cases q)
    case Nil
    have "map_of (map (\<lambda>(r, n). (?f r, n)) ?t) (?f []) = map_of ?t []"
      by (rule map_of_moved) (auto simp: u split: if_splits)
    with Nil pop show ?thesis by (simp add: moved_def u)
  next
    case (Cons x p)
    consider "x = b" | "x = a" | "x \<noteq> a" "x \<noteq> b" by blast
    then show ?thesis
    proof cases
      case 1
      have fa: "?f (a # p) = b # p" by (simp add: u)
      have "r = a # p" if r: "r \<in> fst ` set ?t" "?f r = ?f (a # p)" for r
      proof (cases "under [a] r")
        case True
        then obtain p' where "r = a # p'" by (auto simp: u)
        with r(2) show ?thesis by (simp add: u)
      next
        case False
        with r(2) have "r = b # p" unfolding fa by simp
        with keys [of r p] r(1) sub show ?thesis by blast
      qed
      then have "map_of (map (\<lambda>(r, n). (?f r, n)) ?t) (?f (a # p)) = map_of ?t (a # p)"
        by (intro map_of_moved) blast
      with 1 Cons pop show ?thesis by (simp add: moved_def u)
    next
      case 2
      have "q \<notin> fst ` set (map (\<lambda>(r, n). (?f r, n)) ?t)" using 2 Cons assms(4) by (auto simp: u split: if_splits)
      with 2 Cons assms(4) show ?thesis by (simp add: moved_def map_of_eq_None_iff [THEN iffD2])
    next
      case 3
      have "map_of (map (\<lambda>(r, n). (?f r, n)) ?t) (?f q) = map_of ?t q"
        using 3 Cons by (intro map_of_moved) (auto simp: u split: if_splits)
      with 3 Cons pop show ?thesis by (simp add: moved_def u)
    qed
  qed
  then have "map_of (map (\<lambda>(r, n). (?f r, n)) ?t) = moved a b (map_of (shots s))" by (simp only: fun_eq_iff) simp
  moreover have "st_rename [a] [b] (shots s) = (map (\<lambda>(r, n). (?f r, n)) ?t, Inr ())"
    using none assms(2) unfolding st_rename_def by simp
  ultimately show ?thesis using assms(1) unfolding yields_def quiet_store [OF assms(1)] by (intro exI) simp
qed


definition file_entry :: "path \<Rightarrow> meta \<Rightarrow> bytes \<Rightarrow> shot_entry" where
  "file_entry entry m c = \<lparr>se_path = path_str entry, se_type = ''file'', se_rel = ''data/0'', se_size = int (length c), se_mode = m_perm m\<rparr>"

definition file_tally :: "bytes \<Rightarrow> tally" where
  "file_tally c = \<lparr>tl_bytes = int (length c), tl_nodes = 1\<rparr>"

definition file_manifest :: "string \<Rightarrow> ustr option \<Rightarrow> int \<Rightarrow> path \<Rightarrow> meta \<Rightarrow> bytes \<Rightarrow> json" where
  "file_manifest sid label created entry m c = manifest_json sid label created [file_entry entry m c] (file_tally c)"

definition file_info :: "string \<Rightarrow> ustr option \<Rightarrow> int \<Rightarrow> path \<Rightarrow> bytes \<Rightarrow> snapshot_info" where
  "file_info sid label created entry c =
     \<lparr>si_id = sid, si_label = label, si_created = created,
      si_entries = [\<lparr>sy_path = path_str entry, sy_type = ''file'', sy_size = int (length c)\<rparr>], si_bytes = int (length c), si_nodes = 1\<rparr>"

definition filled :: "int \<Rightarrow> string \<Rightarrow> meta \<Rightarrow> bytes \<Rightarrow> bytes \<Rightarrow> (path \<Rightarrow> snode option) \<Rightarrow> path \<Rightarrow> snode option" where
  "filled um temp m c written M =
     M([temp] \<mapsto> SDir 448 0, [temp, ''data''] \<mapsto> SDir 448 0, [temp, ''data'', ''0''] \<mapsto> SFile c (masked um (m_perm m)) (m_mtime m),
       [temp, ''manifest.json''] \<mapsto> SFile written 384 0)"

lemma zero_str: "nat_str 0 = ''0''"
  by code_simp

lemma yields_root: "calm s \<Longrightarrow> yields snapshot_root s (map_of (shots s)) ()"
  unfolding snapshot_root_def by (intro yields_bind [OF yields_fine] yields_handle yields_fine) auto

lemma yields_capture:
  assumes "calm s" "file_there st env (disk (sfiles s)) entry fd m c" "openat2_refused k = None"
    and "resolve_allowed_entry st env raw = Inr entry" "int (length c) \<le> max_b" "1 \<le> max_n"
    and "map_of (shots s) [temp, ''data''] = Some (SDir a b)" "map_of (shots s) [temp, ''data'', ''0''] = None"
  shows "yields (capture_all depth um (max_b, max_n) st env k temp 0 [] [raw] [] new_tally) s
    ((map_of (shots s))([temp, ''data'', ''0''] \<mapsto> SFile c (masked um (m_perm m)) (m_mtime m))) ([file_entry entry m c], file_tally c)"
proof -
  have q: "schedule (sfiles s) = []" using assms(1) by (simp add: calm_def)
  have m: "is_reg m" "\<not> is_lnk m" "\<not> is_dir m" using assms(2) by (simp_all add: file_there_def is_reg_def is_lnk_def is_dir_def)
  have ls: "do_call (sys_lstat_path entry) (sfiles s) = (sfiles s, Inr m)"
    using assms(2) q by (intro quiet_call) (simp_all add: file_there_def)
  have reg: "yields (copy_regular um (max_b, max_n) st env k (path_str entry) [temp, ''data'', nat_str 0] new_tally) s
      ((map_of (shots s))([temp, ''data'', nat_str 0] \<mapsto> SFile c (masked um (m_perm m)) (m_mtime m))) (int (length c), file_tally c)"
    using assms(5-8)
    by (intro yields_regular [OF assms(1-3), of _ _ "\<lparr>tl_bytes = 0, tl_nodes = 1\<rparr>"])
      (auto simp: add_node_def add_bytes_def new_tally_def file_tally_def zero_str st_dir_def)
  have kind: "yields (capture_kind depth um (max_b, max_n) st env k (path_str entry) [temp, ''data'', nat_str 0] m new_tally) s
      ((map_of (shots s))([temp, ''data'', nat_str 0] \<mapsto> SFile c (masked um (m_perm m)) (m_mtime m))) (''file'', int (length c), file_tally c)"
    unfolding capture_kind_def using m(1) by (simp, intro yields_bind [OF reg]) (simp add: yields_ret)
  show ?thesis
    unfolding capture_all.simps Let_def
    apply (rule yields_lift, rule assms(4))
    apply (rule yields_check, simp)
    apply (rule yields_disk, rule ls)
    apply (rule yields_check, rule m(2))
    apply (rule yields_bind, rule kind)
    by (simp add: yields_ret zero_str file_entry_def)
qed

lemma yields_manifest:
  assumes "calm s" "dumps j = Inr written" "p \<noteq> []" "map_of (shots s) p = None" "st_dir (butlast p) (shots s)"
  shows "yields (write_manifest dumps um p j) s ((map_of (shots s))(p \<mapsto> SFile written 384 0)) ()"
proof -
  let ?M = "\<lambda>c perm. (map_of (shots s))(p \<mapsto> SFile c perm 0)"
  have a: "yields (store_call (st_append p written)) (s\<lparr>shots := t\<rparr>) (?M written (masked um 438)) ()" if "map_of t = ?M [] (masked um 438)" for t
    using yields_change [of "s\<lparr>shots := t\<rparr>" p "SFile [] (masked um 438) 0" "\<lambda>n. case n of SFile c a b \<Rightarrow> SFile (c @ written) a b | _ \<Rightarrow> n"] assms(1) that
    by (simp add: st_append_def)
  have b: "yields (store_call (st_chmod p 384)) (s\<lparr>shots := t\<rparr>) (?M written 384) ()" if "map_of t = ?M written (masked um 438)" for t
    using yields_change [of "s\<lparr>shots := t\<rparr>" p "SFile written (masked um 438) 0" "\<lambda>n. case n of SFile c a b \<Rightarrow> SFile c 384 b | SDir a b \<Rightarrow> SDir 384 b"] assms(1) that
    by (simp add: st_chmod_def)
  show ?thesis
    unfolding write_manifest_def
    apply (rule yields_lift, rule assms(2))
    apply (rule yields_bind)
     apply (unfold st_create_def, rule yields_new, rule assms(1), rule assms(3), rule assms(4), rule assms(5))
    apply (rule yields_bind, rule a, assumption)
    using b by simp
qed


text \<open>A request for one file that is within the limits, with an identifier that is new.\<close>

definition label_fits :: "ustr option \<Rightarrow> bool" where
  "label_fits label \<longleftrightarrow> (case label of None \<Rightarrow> True | Some l \<Rightarrow> list_all scalar l \<and> length (utf8 l) \<le> 128)"

definition within_limits :: "settings \<Rightarrow> ustr option \<Rightarrow> int \<Rightarrow> int \<Rightarrow> bytes \<Rightarrow> bool" where
  "within_limits st label max_b max_n c \<longleftrightarrow>
     label_fits label \<and> 1 \<le> max_b \<and> max_b \<le> max_transfer_bytes st \<and> 1 \<le> max_n \<and> max_n \<le> 20000 \<and> int (length c) \<le> max_b"

definition new_id :: "string \<Rightarrow> store \<Rightarrow> bool" where
  "new_id sid t \<longleftrightarrow> snapshot_id_ok sid \<and> (\<forall>p. map_of t (sid # p) = None \<and> map_of t (temp_name sid # p) = None)"

lemma shot_temp_differs: "temp_name sid \<noteq> sid"
  by (simp add: temp_name_def)

lemma yields_create:
  assumes "calm s" "new_id sid (shots s)" "file_there st env (disk (sfiles s)) entry fd m c" "openat2_refused k = None"
    and "resolve_allowed_entry st env raw = Inr entry" "within_limits st label max_b max_n c"
    and "dumps (file_manifest sid label (sclock s) entry m c) = Inr written"
  shows "yields (snapshot_create dumps depth um st env k sid [raw] label max_b max_n) s
    (moved (temp_name sid) sid (filled um (temp_name sid) m c written (map_of (shots s)))) (file_info sid label (sclock s) entry c)"
proof -
  let ?T = "temp_name sid" and ?M = "map_of (shots s)"
  let ?M2 = "?M([?T] \<mapsto> SDir 448 0, [?T, ''data''] \<mapsto> SDir 448 0)"
  let ?M3 = "?M2([?T, ''data'', ''0''] \<mapsto> SFile c (masked um (m_perm m)) (m_mtime m))"
  let ?M4 = "filled um ?T m c written ?M"
  have free: "?M (?T # p) = None" "?M (sid # p) = None" for p using assms(2) by (simp_all add: new_id_def)
  have lim: "within_limits st label max_b max_n c" by fact
  have fits: "(case label of None \<Rightarrow> Inr [] | Some l \<Rightarrow> encode_utf8 l) = Inr (case label of None \<Rightarrow> [] | Some l \<Rightarrow> utf8 l)"
      "length (case label of None \<Rightarrow> [] | Some l \<Rightarrow> utf8 l) \<le> 128"
    using lim by (auto simp: within_limits_def label_fits_def encode_utf8_def split: option.splits)
  have d1: "yields (store_call (st_mkdir [?T] 448)) (s\<lparr>shots := t\<rparr>) (?M([?T] \<mapsto> SDir 448 0)) ()" if "map_of t = ?M" for t
    using yields_new [of "s\<lparr>shots := t\<rparr>" "[?T]"] assms(1) free that by (simp add: st_mkdir_def st_dir_def)
  have d2: "yields (store_call (st_mkdir [?T, ''data''] 448)) (s\<lparr>shots := t\<rparr>) ?M2 ()" if "map_of t = ?M([?T] \<mapsto> SDir 448 0)" for t
    using yields_new [of "s\<lparr>shots := t\<rparr>" "[?T, ''data'']"] assms(1) free that by (simp add: st_mkdir_def st_dir_def)
  have cap: "yields (capture_all depth um (max_b, max_n) st env k ?T 0 [] [raw] [] new_tally) (s\<lparr>shots := t\<rparr>) ?M3 ([file_entry entry m c], file_tally c)"
    if "map_of t = ?M2" for t
    using yields_capture [of "s\<lparr>shots := t\<rparr>" st env entry fd m c k raw max_b max_n ?T 448 0] assms(1,3-6) free that
    by (simp add: within_limits_def)
  have mf: "yields (write_manifest dumps um [?T, ''manifest.json''] (manifest_json sid label (sclock s) [file_entry entry m c] (file_tally c)))
      (s\<lparr>shots := t\<rparr>) ?M4 ()" if "map_of t = ?M3" for t
    using yields_manifest [of "s\<lparr>shots := t\<rparr>" dumps _ written "[?T, ''manifest.json'']"] assms(1,7) free that
    by (simp add: st_dir_def file_manifest_def filled_def)
  have rn: "yields (store_call (st_rename [?T] [sid])) (s\<lparr>shots := t\<rparr>) (moved ?T sid ?M4) ()" if "map_of t = ?M4" for t
    using yields_rename [of "s\<lparr>shots := t\<rparr>" ?T sid] assms(1) free that shot_temp_differs [of sid] by (auto simp: filled_def)
  have fill: "yields (fill_snapshot dumps depth um (max_b, max_n) st env k sid [raw] label) (s\<lparr>shots := t\<rparr>) (moved ?T sid ?M4)
      (file_info sid label (sclock s) entry c)" if "map_of t = ?M2" for t
    unfolding fill_snapshot_def
    apply (rule yields_bind, rule cap, rule that)
    apply (simp only: prod.case, rule yields_same, simp add: stime_def)
    apply (rule yields_bind, simp, rule mf, assumption)
    apply (rule yields_bind, simp, rule rn, assumption)
    by (simp add: yields_ret file_info_def entry_result_def file_entry_def file_tally_def)
  show ?thesis
    unfolding snapshot_create_def
    apply (rule yields_check, simp)
    apply (rule yields_lift, rule fits)
    apply (rule yields_check, rule fits)
    apply (rule yields_check, use lim in \<open>simp add: within_limits_def\<close>)
    apply (rule yields_check, use lim in \<open>simp add: within_limits_def\<close>)
    apply (rule yields_bind, rule yields_root, rule assms(1))
    apply (rule yields_bind, rule d1, assumption)
    apply (rule yields_bind, simp, rule d2, assumption)
    using fill by (intro yields_handle) simp
qed


subsection \<open>Restoration\<close>

definition on_fs :: "snaps \<Rightarrow> fs \<Rightarrow> snaps" where
  "on_fs s f = s\<lparr>sfiles := (sfiles s)\<lparr>disk := f\<rparr>\<rparr>"

lemma on_fs_simps [simp]:
  "calm (on_fs s f) = calm s" "shots (on_fs s f) = shots s" "disk (sfiles (on_fs s f)) = f" "on_fs (on_fs s f) g = on_fs s g"
  "on_fs s (disk (sfiles s)) = s"
  by (simp_all add: on_fs_def calm_def)

lemma quiet_read: "calm s \<Longrightarrow> store_call (\<lambda>t. (t, r t)) s = (s, r (shots s))"
  by (cases s) (simp add: quiet_store)

lemma quiet_st_read:
  "calm s \<Longrightarrow> map_of (shots s) p = Some (SFile c a b) \<Longrightarrow> store_call (st_read p off n) s = (s, Inr (take n (drop off c)))"
  by (cases s) (simp add: quiet_store st_read_def)

lemma quiet_st_node: "calm s \<Longrightarrow> store_call (st_node p) s = (s, Inr (map_of (shots s) p))"
  by (cases s) (simp add: quiet_store st_node_def)

lemma quiet_copy_out:
  assumes "calm s" "map_of (shots s) src = Some (SFile c a b)" "reg_content (disk (sfiles s)) fd = Some (take off c)" "off \<le> length c"
  shows "\<exists>f. copy_out src fd off s = (on_fs s f, Inr ()) \<and> reg_content f fd = Some c \<and> same_shape (disk (sfiles s)) f"
  using assms
proof (induction "length c - off" arbitrary: off s rule: less_induct)
  case less
  let ?chunk = "take 1048576 (drop off c)"
  note rd = quiet_st_read [OF less.prems(1,2), of off 1048576]
  show ?case
  proof (cases "off = length c")
    case True
    with rd have "copy_out src fd off s = (s, Inr ())" by (simp add: True copy_out.simps [of src fd "length c" s])
    with True less.prems show ?thesis by (intro exI [of _ "disk (sfiles s)"]) simp
  next
    case False
    define n where "n = length ?chunk"
    have n: "0 < n" "off + n \<le> length c" "take off c @ ?chunk = take (off + n) c" "?chunk \<noteq> []"
      using False less.prems(4) by (auto simp: n_def min_def take_add [symmetric] simp flip: take_add)
    obtain f where f: "write_all (OSMessage ''write could not complete'') fd ?chunk (sfiles s) = ((sfiles s)\<lparr>disk := f\<rparr>, Inr ())"
        "reg_content f fd = Some (take (off + n) c)" "same_shape (disk (sfiles s)) f"
      using quiet_write_all [of "sfiles s" fd "take off c"] less.prems(1,3) n(3) by (fastforce simp: calm_def)
    have smaller: "length c - (off + n) < length c - off" using n(1,2) by linarith
    obtain g where g: "copy_out src fd (off + n) (on_fs s f) = (on_fs (on_fs s f) g, Inr ())" "reg_content g fd = Some c"
        "same_shape (disk (sfiles (on_fs s f))) g"
      using less.hyps [OF smaller, of "on_fs s f"] less.prems n f(2) by auto
    have "copy_out src fd off s = copy_out src fd (off + n) (on_fs s f)"
      using rd f(1) n(4) by (simp add: copy_out.simps [of src fd off s] on_disk_def on_fs_def n_def)
    with g f(3) show ?thesis by (auto intro: same_shape_trans)
  qed
qed

lemma create_excl_quiet:
  assumes "entries f d \<noteq> None" "lookup_at f d name = None" "inodes f (fresh_ino f) = None"
  shows "\<exists>f' i. sys_create_excl d name perm f = (f', Inr i) \<and> lookup_at f' d = (lookup_at f d)(name \<mapsto> i) \<and> reg_content f' i = Some []
    \<and> entries f' d \<noteq> None \<and> (\<forall>j. inodes f j \<noteq> None \<longrightarrow> inodes f' j \<noteq> None \<and> (entries f j = None \<longrightarrow> entries f' j = None))"
proof -
  obtain f' i where c: "sys_create_excl d name perm f = (f', Inr i)"
    by (cases "new_inode d name (Reg []) perm f") (use assms(1,2) in \<open>auto simp: sys_create_excl_def\<close>)
  note made = created [OF c assms(3)]
  have n: "(f', i) = new_inode d name (Reg []) perm f"
    using c assms(1,2) by (auto simp: sys_create_excl_def split: prod.splits)
  have "inodes f' j \<noteq> None \<and> (entries f j = None \<longrightarrow> entries f' j = None)" if "inodes f j \<noteq> None" for j
    using n that assms(1,3) by (auto simp: new_inode_def Let_def inodes_entry_exists) (auto simp: entries_def split: if_splits)
  moreover have "entries f' d \<noteq> None" using made by (metis fun_upd_same lookup_entries)
  ultimately show ?thesis using c made by auto
qed

lemma put_back_quiet:
  assumes "schedule w = []" "lookup_at (disk w) parent temp = Some i" "reg_content (disk w) i = Some c" "temp \<noteq> name"
    and "\<And>j. lookup_at (disk w) parent name = Some j \<Longrightarrow> inodes (disk w) j \<noteq> None \<and> entries (disk w) j = None"
  shows "\<exists>f. put_back depth parent temp name w = (w\<lparr>disk := f\<rparr>, Inr ())
    \<and> lookup_at f parent = (lookup_at (disk w) parent)(temp := None, name \<mapsto> i) \<and> reg_content f i = Some c"
proof -
  let ?f = "disk w"
  have e: "entries ?f parent \<noteq> None" using lookup_entries [OF assms(2)] .
  have i: "entries ?f i = None" "i \<noteq> parent" using reg_no_entries [OF assms(3)] e by auto
  show ?thesis
  proof (cases "lookup_at ?f parent name")
    case None
    let ?g = "set_entry parent name i (drop_entry parent temp ?f)"
    have ex: "exists_at parent name w = (w, Inr False)"
      using None assms(1) by (simp add: exists_at_def lstat_at_def prog_defs do_call_def sys_lstat_def sys_error_def)
    have rn: "sys_rename_noreplace parent temp parent name ?f = (?g, Inr ())"
      using assms(2) e None i by (auto simp: sys_rename_noreplace_def contains_dir_plain)
    have "put_back depth parent temp name w = (w\<lparr>disk := ?g\<rparr>, Inr ())"
      using ex rn assms(1) by (simp add: put_back_def prog_defs do_call_def sys_fsync_def)
    moreover have "lookup_at ?g parent = (lookup_at ?f parent)(temp := None, name \<mapsto> i) \<and> (\<forall>j. reg_content ?g j = reg_content ?f j)"
      by (rule renamed [OF disjI1 [OF rn] assms(4,2)])
    ultimately show ?thesis using assms(3) by auto
  next
    case (Some j)
    note jj = assms(5) [OF Some]
    then obtain mj where mj: "inodes ?f j = Some mj" "\<not> is_dir mj"
      by (auto simp: entries_def is_dir_def split: node.splits)
    let ?g = "set_entry parent name i (set_entry parent temp j ?f)"
    let ?h = "drop_entry parent temp ?g"
    have jp: "j \<noteq> parent" using jj e by auto
    have ex: "exists_at parent name w = (w, Inr True)"
      using Some mj assms(1) by (simp add: exists_at_def lstat_at_def prog_defs do_call_def sys_lstat_def)
    have rx: "sys_rename_exchange parent temp parent name ?f = (?g, Inr ())"
      using assms(2) Some i jj jp by (simp add: sys_rename_exchange_def contains_dir_plain)
    have g: "lookup_at ?g parent temp = Some j" "inodes ?g j = Some mj"
      using e jj jp mj assms(4) by (auto simp: lookup_set_entry inodes_set_entry)
    have ls: "lstat_at parent temp (w\<lparr>disk := ?g\<rparr>) = (w\<lparr>disk := ?g\<rparr>, Inr (Some (j, mj)))"
      using g assms(1) by (simp add: lstat_at_def prog_defs do_call_def sys_lstat_def)
    have ul: "sys_unlink parent temp ?g = (?h, Inr ())" using g mj(2) by (simp add: sys_unlink_def sys_lstat_def)
    have "remove_at depth parent temp (w\<lparr>disk := ?g\<rparr>) = (w\<lparr>disk := ?h\<rparr>, Inr ())"
      using ls ul mj(2) assms(1) by (simp add: remove_at_def prog_defs do_call_def)
    then have "put_back depth parent temp name w = (w\<lparr>disk := ?h\<rparr>, Inr ())"
      using ex rx assms(1) by (simp add: put_back_def prog_defs do_call_def sys_fsync_def)
    moreover have "lookup_at ?h parent = (lookup_at ?f parent)(temp := None, name \<mapsto> i)"
      using e assms(4) by (auto simp: lookup_set_entry lookup_drop_entry fun_eq_iff)
    ultimately show ?thesis using assms(3) by auto
  qed
qed


lemma char_ustr: "map char_of (ustr_of s) = s"
  by (simp add: ustr_of_def comp_def)

lemma entry_items:
  "str_item to_str ''path'' (entry_json e) = Inr (se_path e)" "str_item to_str ''type'' (entry_json e) = Inr (se_type e)"
  "str_item to_str ''snapshot_rel'' (entry_json e) = Inr (se_rel e)" "item_mode ud kind (entry_json e) = Inr (se_mode e)"
  by (simp_all add: str_item_def item_get_def item_mode_def entry_json_def jget_def str_json_def char_ustr int_of_json_def)

lemma manifest_json_items:
  "manifest_json sid label created es b = JObj d \<Longrightarrow> manifest_items d = Inr (map entry_json es)"
  by (auto simp: manifest_json_def manifest_items_def jget_def)

text \<open>The disk at a later time: the directory of the file is there, and whatever has the name of the file is no directory.\<close>

definition ready :: "settings \<Rightarrow> path_env \<Rightarrow> fs \<Rightarrow> path \<Rightarrow> ino \<Rightarrow> string \<Rightarrow> bool" where
  "ready st env g entry parent temp \<longleftrightarrow>
     parent_opens st env g entry parent \<and> inodes g (fresh_ino g) = None \<and> lookup_at g parent temp = None
     \<and> (case lookup_at g parent (last entry) of None \<Rightarrow> True | Some j \<Rightarrow> inodes g j \<noteq> None \<and> entries g j = None)"

lemma stage_file_quiet:
  assumes "calm s" "map_of (shots s) source = Some (SFile c a b)" "entries (disk (sfiles s)) parent \<noteq> None"
    and "lookup_at (disk (sfiles s)) parent temp = None" "inodes (disk (sfiles s)) (fresh_ino (disk (sfiles s))) = None"
  shows "\<exists>f i. stage_snapshot_entry depth um source parent temp ''file'' mode s = (on_fs s f, Inr ())
    \<and> lookup_at f parent = (lookup_at (disk (sfiles s)) parent)(temp \<mapsto> i) \<and> reg_content f i = Some c
    \<and> (\<forall>j. inodes (disk (sfiles s)) j \<noteq> None \<longrightarrow> inodes f j \<noteq> None \<and> (entries (disk (sfiles s)) j = None \<longrightarrow> entries f j = None))"
proof -
  have q: "schedule (sfiles s) = []" using assms(1) by (simp add: calm_def)
  obtain f1 i where c: "sys_create_excl parent temp (masked um mode) (disk (sfiles s)) = (f1, Inr i)"
      "lookup_at f1 parent = (lookup_at (disk (sfiles s)) parent)(temp \<mapsto> i)" "reg_content f1 i = Some []"
      "\<And>j. inodes (disk (sfiles s)) j \<noteq> None \<Longrightarrow> inodes f1 j \<noteq> None \<and> (entries (disk (sfiles s)) j = None \<longrightarrow> entries f1 j = None)"
    using create_excl_quiet [OF assms(3-5), of "masked um mode"] by blast
  have cr: "on_disk (do_call (sys_create_excl parent temp (masked um mode))) s = (on_fs s f1, Inr i)"
    using c(1) q by (simp add: on_disk_def do_call_def on_fs_def)
  have rd: "store_call (st_read source 0 0) (on_fs s f1) = (on_fs s f1, Inr [])"
    using quiet_st_read [of "on_fs s f1" source c a b 0 0] assms(1,2) by simp
  obtain f where f: "copy_out source i 0 (on_fs s f1) = (on_fs s f, Inr ())" "reg_content f i = Some c" "same_shape f1 f"
    using quiet_copy_out [of "on_fs s f1" source c a b i 0] assms(1,2) c(3) by auto
  have fs: "on_disk (do_call (sys_fsync i)) (on_fs s f) = (on_fs s f, Inr ())"
    using q by (simp add: on_disk_def do_call_def sys_fsync_def on_fs_def)
  have "stage_snapshot_entry depth um source parent temp ''file'' mode s = (on_fs s f, Inr ())"
    using cr rd f(1) fs by (simp add: stage_snapshot_entry_def stage_shot_file_def bind_prog_def handle_def)
  moreover have "lookup_at f parent = lookup_at f1 parent" "\<And>j. entries f j = entries f1 j" "\<And>j. inodes f j = None \<longleftrightarrow> inodes f1 j = None"
    using f(3) by (auto simp: same_shape_def lookup_at_def fun_eq_iff)
  ultimately show ?thesis using c(2,4) f(2) by (intro exI [of _ f] exI [of _ i]) simp
qed

lemma restore_file_quiet:
  assumes "calm s" "map_of (shots s) (dir @ [''data'', ''0'']) = Some (SFile c a b)" "openat2_refused k = None"
    and "ready st env (disk (sfiles s)) entry parent (restore_name (last entry) token)"
  shows "\<exists>f i. restore_item ud to_str depth um st env k token dir (entry_json (file_entry entry m c')) s = (on_fs s f, Inr (path_str entry))
    \<and> lookup_at f parent = (lookup_at (disk (sfiles s)) parent)(last entry \<mapsto> i) \<and> reg_content f i = Some c"
proof -
  let ?t = "restore_name (last entry) token" and ?g = "disk (sfiles s)"
  note r = assms(4) [unfolded ready_def]
  have q: "schedule (sfiles s) = []" using assms(1) by (simp add: calm_def)
  have op: "on_disk (open_parent_beneath st env k (path_str entry)) s = (s, Inr (parent, last entry, entry))"
    using parent_opens_run [of st env "sfiles s" entry parent k] r assms(3) q by (simp add: on_disk_def)
  have e: "entries ?g parent \<noteq> None" using r by (auto simp: parent_opens_def opens_def)
  have nm: "?t \<noteq> last entry" by (simp add: restore_name_def)
  have rel: "snd (parse_path ''data/0'') = [''data'', ''0'']" by code_simp
  obtain f i where f: "stage_snapshot_entry depth um (dir @ [''data'', ''0'']) parent ?t ''file'' (m_perm m) s = (on_fs s f, Inr ())"
      "lookup_at f parent = (lookup_at ?g parent)(?t \<mapsto> i)" "reg_content f i = Some c"
      "\<And>j. inodes ?g j \<noteq> None \<Longrightarrow> inodes f j \<noteq> None \<and> (entries ?g j = None \<longrightarrow> entries f j = None)"
    using stage_file_quiet [OF assms(1,2) e] r by blast
  let ?w = "(sfiles s)\<lparr>disk := f\<rparr>"
  have pb: "\<exists>h. put_back depth parent ?t (last entry) ?w = (?w\<lparr>disk := h\<rparr>, Inr ())
      \<and> lookup_at h parent = (lookup_at (disk ?w) parent)(?t := None, last entry \<mapsto> i) \<and> reg_content h i = Some c"
    using f q nm r by (intro put_back_quiet) (auto split: option.splits)
  then obtain h where h: "put_back depth parent ?t (last entry) ?w = (?w\<lparr>disk := h\<rparr>, Inr ())"
      "lookup_at h parent = (lookup_at f parent)(?t := None, last entry \<mapsto> i)" "reg_content h i = Some c"
    by auto
  have "on_disk (put_back depth parent ?t (last entry)) (on_fs s f) = (on_fs s h, Inr ())"
    using h(1) by (simp add: on_disk_def on_fs_def)
  then have "restore_item ud to_str depth um st env k token dir (entry_json (file_entry entry m c')) s = (on_fs s h, Inr (path_str entry))"
    using op f(1) assms(1,2) rel
    by (simp add: restore_item_def entry_items file_entry_def bind_prog_def lift_res_def check_def ret_def Let_def quiet_st_node)
  moreover have "lookup_at h parent = (lookup_at ?g parent)(last entry \<mapsto> i)"
    using h(2) f(2) r by (auto simp: fun_eq_iff)
  ultimately show ?thesis using h(3) by blast
qed


subsection \<open>The round trip\<close>

lemma quiet_fine: "calm s \<Longrightarrow> store_call st_fine s = (s, Inr ())"
  by (cases s) (simp add: quiet_store st_fine_def)

lemma manifest_quiet:
  assumes "calm s" "map_of (shots s) (dir @ [''manifest.json'']) = Some (SFile written a b)" "length written \<le> manifest_limit"
    and "loads written = Some (JObj d)"
  shows "snapshot_manifest loads dir s = (s, Inr d)"
  using assms(3,4) quiet_st_node [OF assms(1), of "dir @ [''manifest.json'']"] quiet_st_read [OF assms(1,2)]
  by (simp add: snapshot_manifest_def manifest_text_def bind_prog_def handle_def check_def ret_def assms(2))


end
