(* ===== verification/Snapshot_Samples.thy ===== *)
theory Snapshot_Samples
  imports Snapshot_Roundtrip Artifacts
begin

text \<open>A small host on which the round trip of a snapshot is applied: one file below \<open>/srv\<close>, an empty store.\<close>

definition shot_path :: path where
  "shot_path = [''srv'', part_name ''a'' sample_uid]"

definition shot_state :: snaps where
  "shot_state = \<lparr>shots = [], store_faults = [], sfiles = \<lparr>disk = upload_disk ''hello'', schedule = []\<rparr>, sclock = 7\<rparr>"

definition shot_manifest :: json where
  "shot_manifest = file_manifest sample_uid None 7 shot_path (file_meta (Reg ''hello'')) ''hello''"

lemma shot_file: "file_there sample_settings plain_env (upload_disk ''hello'') shot_path 2 (file_meta (Reg ''hello'')) ''hello''"
proof -
  have "sys_lstat_path shot_path (upload_disk ''hello'') = (upload_disk ''hello'', Inr (file_meta (Reg ''hello'')))"
    by (simp add: sys_lstat_path_def sys_lstat_def shot_path_def walk.simps entries_def lookup_at_def upload_disk_def file_meta_def)
  then show ?thesis
    using plain_file_opens [of "''hello''"] by (simp add: file_there_def shot_path_def upload_disk_def file_meta_def)
qed

lemma shot_resolves: "resolve_allowed_entry sample_settings plain_env (path_str shot_path) = Inr shot_path"
  by (simp add: shot_path_def resolve_allowed_entry_def plain_env_def parse_path_def anchor_def normpath_def sample_settings_def
      default_settings_def is_under_allowed_root_def under_root_def Let_def path_str_def part_name_def sample_uid_def numeral_eq_Suc)

lemma shot_id: "new_id sample_uid (shots shot_state)"
  by (simp add: new_id_def shot_state_def snapshot_id_ok_def lease_id_ok_def ustr_of_def sample_uid_def numeral_eq_Suc)

text \<open>The file has been overwritten meanwhile.\<close>

lemma shot_ready: "ready sample_settings plain_env (upload_disk ''changed'') shot_path 7 (restore_name (last shot_path) ''t'')"
  using sample_parents(2) [of "''changed''"]
  by (auto simp: ready_def shot_path_def restore_name_def lookup_at_def entries_def upload_disk_def file_meta_def)


end
