(* ===== verification/Tools.thy ===== *)
theory Tools
  imports Agent_Files
begin

text \<open>
  The tools as \<open>server.py\<close>, \<open>host_server.py\<close> and \<open>agent_surface.py\<close> of \<open>src/remote_host_mcp\<close> declare them to the SDK: name,
  title, annotations, and the parameters with their types, bounds and defaults.  \<open>admits\<close> is what the type and the bounds of a parameter
  say of a value.  Descriptions are left out.
\<close>

subsection \<open>Declarations\<close>

datatype arg = ANone | AInt int | ABool bool | AStr ustr | AStrs "ustr list" | AEdits "line_edit list"

datatype kind = Str_kind | Int_kind | Bool_kind | Choice "string list" | Strs_kind | Edits_kind

datatype bound = At_least int | At_most int | Above int | Min_len nat | Max_len nat | Hex_64 | Hex_32

record param =
  pa_name :: string
  pa_kind :: kind
  pa_nullable :: bool
  pa_bounds :: "bound list"
  pa_default :: "arg option"

datatype annotations = Notes (n_read_only: bool) (n_destructive: bool) (n_idempotent: bool) (n_open_world: bool)

record tool =
  t_name :: string
  t_title :: string
  t_notes :: annotations
  t_structured :: bool
  t_params :: "param list"

definition new_tool :: "string \<Rightarrow> string \<Rightarrow> annotations \<Rightarrow> bool \<Rightarrow> param list \<Rightarrow> tool" where
  "new_tool name title ann structured params =
     \<lparr>t_name = name, t_title = title, t_notes = ann, t_structured = structured, t_params = params\<rparr>"

definition required :: "string \<Rightarrow> kind \<Rightarrow> bound list \<Rightarrow> param" where
  "required name k bs = \<lparr>pa_name = name, pa_kind = k, pa_nullable = False, pa_bounds = bs, pa_default = None\<rparr>"

definition defaulted :: "string \<Rightarrow> kind \<Rightarrow> bound list \<Rightarrow> arg \<Rightarrow> param" where
  "defaulted name k bs v = \<lparr>pa_name = name, pa_kind = k, pa_nullable = False, pa_bounds = bs, pa_default = Some v\<rparr>"

definition nullable :: "string \<Rightarrow> kind \<Rightarrow> bound list \<Rightarrow> param" where
  "nullable name k bs = \<lparr>pa_name = name, pa_kind = k, pa_nullable = True, pa_bounds = bs, pa_default = Some ANone\<rparr>"

fun has_kind :: "kind \<Rightarrow> arg \<Rightarrow> bool" where
  "has_kind Str_kind (AStr s) = True"
| "has_kind Int_kind (AInt i) = True"
| "has_kind Bool_kind (ABool b) = True"
| "has_kind (Choice cs) (AStr s) = list_ex (\<lambda>c. s = ustr_of c) cs"
| "has_kind Strs_kind (AStrs ss) = True"
| "has_kind Edits_kind (AEdits es) = True"
| "has_kind _ _ = False"

fun arg_length :: "arg \<Rightarrow> nat" where
  "arg_length (AStr s) = length s"
| "arg_length (AStrs ss) = length ss"
| "arg_length (AEdits es) = length es"
| "arg_length _ = 0"

definition hex_text :: "nat \<Rightarrow> bool \<Rightarrow> arg \<Rightarrow> bool" where
  "hex_text n upper v =
     (case v of
        AStr s \<Rightarrow> length s = n \<and> list_all (\<lambda>c. c \<in> {48..57} \<or> c \<in> {97..102} \<or> upper \<and> c \<in> {65..70}) s
      | _ \<Rightarrow> False)"

fun within_bound :: "arg \<Rightarrow> bound \<Rightarrow> bool" where
  "within_bound v (At_least n) = (case v of AInt i \<Rightarrow> n \<le> i | _ \<Rightarrow> False)"
| "within_bound v (At_most n) = (case v of AInt i \<Rightarrow> i \<le> n | _ \<Rightarrow> False)"
| "within_bound v (Above n) = (case v of AInt i \<Rightarrow> n < i | _ \<Rightarrow> False)"
| "within_bound v (Min_len n) = (n \<le> arg_length v)"
| "within_bound v (Max_len n) = (arg_length v \<le> n)"
| "within_bound v Hex_64 = hex_text 64 True v"
| "within_bound v Hex_32 = hex_text 32 False v"

definition admits :: "param \<Rightarrow> arg \<Rightarrow> bool" where
  "admits p v \<longleftrightarrow> pa_nullable p \<and> v = ANone \<or> has_kind (pa_kind p) v \<and> list_all (within_bound v) (pa_bounds p)"

subsection \<open>The tools of \<open>server.py\<close>\<close>

definition tool_status :: tool where
  "tool_status = new_tool ''status'' ''Check DSW status'' (Notes True False True False) True
       []"

definition tool_list_directory :: tool where
  "tool_list_directory = new_tool ''list_directory'' ''List DSW directory'' (Notes True False True False) True
       [nullable ''path'' Str_kind [],
        defaulted ''limit'' Int_kind [At_least 1, At_most 500] (AInt 100)]"

definition tool_path_info :: tool where
  "tool_path_info = new_tool ''path_info'' ''Inspect DSW path'' (Notes True False True False) True
       [required ''path'' Str_kind []]"

definition tool_read_text_file :: tool where
  "tool_read_text_file = new_tool ''read_text_file'' ''Read DSW text file'' (Notes True False True False) True
       [required ''path'' Str_kind [],
        defaulted ''start_line'' Int_kind [At_least 1] (AInt 1),
        defaulted ''max_lines'' Int_kind [At_least 1, At_most 5000] (AInt 400),
        defaulted ''max_bytes'' Int_kind [At_least 256, At_most 131072] (AInt 65536)]"

definition tool_read_file_chunk :: tool where
  "tool_read_file_chunk = new_tool ''read_file_chunk'' ''Read binary file chunk'' (Notes True False True False) True
       [required ''path'' Str_kind [],
        defaulted ''offset'' Int_kind [At_least 0] (AInt 0),
        defaulted ''max_bytes'' Int_kind [At_least 1, At_most 524288] (AInt 262144)]"

definition tool_hash_file :: tool where
  "tool_hash_file = new_tool ''hash_file'' ''Hash DSW file'' (Notes True False True False) True
       [required ''path'' Str_kind []]"

definition tool_write_text_file :: tool where
  "tool_write_text_file = new_tool ''write_text_file'' ''Write DSW text file atomically'' (Notes False True False False) True
       [required ''path'' Str_kind [],
        required ''text'' Str_kind [],
        defaulted ''overwrite'' Bool_kind [] (ABool False),
        nullable ''expected_sha256'' Str_kind [],
        defaulted ''mode'' Int_kind [At_least 0, At_most 511] (AInt 420)]"

definition tool_make_directory :: tool where
  "tool_make_directory = new_tool ''make_directory'' ''Create DSW directory'' (Notes False False False False) True
       [required ''path'' Str_kind [],
        defaulted ''parents'' Bool_kind [] (ABool False),
        defaulted ''exist_ok'' Bool_kind [] (ABool False),
        defaulted ''mode'' Int_kind [At_least 0, At_most 511] (AInt 493)]"

definition tool_move_path :: tool where
  "tool_move_path = new_tool ''move_path'' ''Move DSW path'' (Notes False True False False) True
       [required ''source'' Str_kind [],
        required ''destination'' Str_kind [],
        defaulted ''overwrite'' Bool_kind [] (ABool False)]"

definition tool_copy_path :: tool where
  "tool_copy_path = new_tool ''copy_path'' ''Copy DSW path'' (Notes False True False False) True
       [required ''source'' Str_kind [],
        required ''destination'' Str_kind [],
        defaulted ''recursive'' Bool_kind [] (ABool False),
        defaulted ''overwrite'' Bool_kind [] (ABool False)]"

definition tool_remove_path :: tool where
  "tool_remove_path = new_tool ''remove_path'' ''Remove DSW path'' (Notes False True False False) True
       [required ''path'' Str_kind [],
        defaulted ''recursive'' Bool_kind [] (ABool False)]"

definition tool_chmod_path :: tool where
  "tool_chmod_path = new_tool ''chmod_path'' ''Change DSW path permissions'' (Notes False True True False) True
       [required ''path'' Str_kind [],
        required ''mode'' Int_kind [At_least 0, At_most 511]]"

definition tool_upload_begin :: tool where
  "tool_upload_begin = new_tool ''upload_begin'' ''Begin resumable file upload'' (Notes False False False False) True
       [required ''path'' Str_kind [],
        required ''total_size'' Int_kind [At_least 0],
        required ''sha256'' Str_kind [Min_len 64, Max_len 64, Hex_64],
        defaulted ''mode'' Int_kind [At_least 0, At_most 511] (AInt 420),
        defaulted ''overwrite'' Bool_kind [] (ABool False)]"

definition tool_upload_chunk :: tool where
  "tool_upload_chunk = new_tool ''upload_chunk'' ''Append resumable upload chunk'' (Notes False False True False) True
       [required ''upload_id'' Str_kind [Min_len 32, Max_len 32, Hex_32],
        required ''offset'' Int_kind [At_least 0],
        required ''data_base64'' Str_kind [],
        nullable ''chunk_sha256'' Str_kind []]"

definition tool_upload_status :: tool where
  "tool_upload_status = new_tool ''upload_status'' ''Inspect resumable upload'' (Notes True False True False) True
       [required ''upload_id'' Str_kind [Min_len 32, Max_len 32, Hex_32]]"

definition tool_upload_finish :: tool where
  "tool_upload_finish = new_tool ''upload_finish'' ''Commit resumable upload'' (Notes False True True False) True
       [required ''upload_id'' Str_kind [Min_len 32, Max_len 32, Hex_32]]"

definition tool_upload_abort :: tool where
  "tool_upload_abort = new_tool ''upload_abort'' ''Abort resumable upload'' (Notes False True True False) True
       [required ''upload_id'' Str_kind [Min_len 32, Max_len 32, Hex_32]]"

definition tool_download_info :: tool where
  "tool_download_info = new_tool ''download_info'' ''Inspect downloadable DSW file'' (Notes True False True False) True
       [required ''path'' Str_kind [],
        defaulted ''include_sha256'' Bool_kind [] (ABool True)]"

definition tool_download_chunk :: tool where
  "tool_download_chunk = new_tool ''download_chunk'' ''Download DSW file chunk'' (Notes True False True False) True
       [required ''path'' Str_kind [],
        defaulted ''offset'' Int_kind [At_least 0] (AInt 0),
        defaulted ''max_bytes'' Int_kind [At_least 1, At_most 524288] (AInt 262144)]"

definition tool_exec :: tool where
  "tool_exec = new_tool ''exec'' ''Execute shell command on DSW'' (Notes False True False True) True
       [required ''command'' Str_kind [Min_len 1],
        nullable ''timeout_ms'' Int_kind [],
        nullable ''cwd'' Str_kind []]"

subsection \<open>The tools of \<open>host_server.py\<close>\<close>

definition tool_job_run :: tool where
  "tool_job_run = new_tool ''job_run'' ''Run durable background work'' (Notes False True False True) True
       [required ''command'' Str_kind [Min_len 1],
        nullable ''cwd'' Str_kind [],
        nullable ''timeout_ms'' Int_kind [],
        nullable ''idempotency_key'' Str_kind []]"

definition tool_job_start :: tool where
  "tool_job_start = new_tool ''job_start'' ''Start durable background job'' (Notes False True False True) True
       [required ''command'' Str_kind [Min_len 1],
        nullable ''cwd'' Str_kind [],
        nullable ''timeout_ms'' Int_kind [],
        nullable ''idempotency_key'' Str_kind []]"

definition tool_job_status :: tool where
  "tool_job_status = new_tool ''job_status'' ''Inspect durable job'' (Notes True False True False) True
       [required ''job_id'' Str_kind [Min_len 32, Max_len 32]]"

definition tool_job_read :: tool where
  "tool_job_read = new_tool ''job_read'' ''Read incremental job logs'' (Notes True False True False) True
       [required ''job_id'' Str_kind [Min_len 32, Max_len 32],
        defaulted ''stdout_offset'' Int_kind [At_least 0] (AInt 0),
        defaulted ''stderr_offset'' Int_kind [At_least 0] (AInt 0),
        defaulted ''max_bytes'' Int_kind [At_least 1, At_most 1048576] (AInt 65536)]"

definition tool_job_cancel :: tool where
  "tool_job_cancel = new_tool ''job_cancel'' ''Cancel durable job'' (Notes False True True False) True
       [required ''job_id'' Str_kind [Min_len 32, Max_len 32]]"

definition tool_job_list :: tool where
  "tool_job_list = new_tool ''job_list'' ''List durable jobs'' (Notes True False True False) True
       [defaulted ''limit'' Int_kind [At_least 1, At_most 500] (AInt 50)]"

definition tool_job_cleanup :: tool where
  "tool_job_cleanup = new_tool ''job_cleanup'' ''Clean finished durable job state'' (Notes False True True False) True
       [required ''job_id'' Str_kind [Min_len 32, Max_len 32]]"

definition tool_terminal_open :: tool where
  "tool_terminal_open = new_tool ''terminal_open'' ''Open persistent PTY terminal'' (Notes False False False False) True
       [nullable ''cwd'' Str_kind [],
        defaulted ''cols'' Int_kind [At_least 20, At_most 500] (AInt 120),
        defaulted ''rows'' Int_kind [At_least 5, At_most 300] (AInt 40)]"

definition tool_terminal_exec :: tool where
  "tool_terminal_exec = new_tool ''terminal_exec'' ''Run command in persistent PTY'' (Notes False True False True) True
       [required ''terminal_id'' Str_kind [Min_len 32, Max_len 32],
        required ''command'' Str_kind [Min_len 1],
        defaulted ''wait_ms'' Int_kind [At_least 0, At_most 30000] (AInt 5000)]"

definition tool_terminal_write :: tool where
  "tool_terminal_write = new_tool ''terminal_write'' ''Write keys/text to persistent PTY'' (Notes False True False True) True
       [required ''terminal_id'' Str_kind [Min_len 32, Max_len 32],
        required ''data'' Str_kind [],
        defaulted ''append_enter'' Bool_kind [] (ABool False)]"

definition tool_terminal_read :: tool where
  "tool_terminal_read = new_tool ''terminal_read'' ''Read incremental PTY output'' (Notes True False True False) True
       [required ''terminal_id'' Str_kind [Min_len 32, Max_len 32],
        nullable ''cursor'' Int_kind [],
        defaulted ''max_bytes'' Int_kind [At_least 1, At_most 1048576] (AInt 65536),
        defaulted ''wait_ms'' Int_kind [At_least 0, At_most 30000] (AInt 0)]"

definition tool_terminal_status :: tool where
  "tool_terminal_status = new_tool ''terminal_status'' ''Inspect persistent PTY'' (Notes True False True False) True
       [required ''terminal_id'' Str_kind [Min_len 32, Max_len 32]]"

definition tool_terminal_screen :: tool where
  "tool_terminal_screen = new_tool ''terminal_screen'' ''Render PTY screen snapshot'' (Notes True False True False) True
       [required ''terminal_id'' Str_kind [Min_len 32, Max_len 32]]"

definition tool_terminal_resize :: tool where
  "tool_terminal_resize = new_tool ''terminal_resize'' ''Resize persistent PTY'' (Notes False False True False) True
       [required ''terminal_id'' Str_kind [Min_len 32, Max_len 32],
        required ''cols'' Int_kind [At_least 20, At_most 500],
        required ''rows'' Int_kind [At_least 5, At_most 300]]"

definition tool_terminal_signal :: tool where
  "tool_terminal_signal = new_tool ''terminal_signal'' ''Signal persistent PTY foreground process'' (Notes False True False False) True
       [required ''terminal_id'' Str_kind [Min_len 32, Max_len 32],
        required ''signal_name'' (Choice [''INT'', ''QUIT'', ''TSTP'', ''TERM'', ''HUP'', ''CONT'', ''SIGINT'', ''SIGQUIT'', ''SIGTSTP'', ''SIGTERM'', ''SIGHUP'', ''SIGCONT'']) []]"

definition tool_terminal_list :: tool where
  "tool_terminal_list = new_tool ''terminal_list'' ''List persistent PTYs'' (Notes True False True False) True
       []"

definition tool_terminal_close :: tool where
  "tool_terminal_close = new_tool ''terminal_close'' ''Close persistent PTY'' (Notes False True False False) True
       [required ''terminal_id'' Str_kind [Min_len 32, Max_len 32]]"

definition tool_file_artifact :: tool where
  "tool_file_artifact = new_tool ''file_artifact'' ''Return host file to the MCP client'' (Notes True False True False) False
       [required ''path'' Str_kind [],
        defaulted ''max_bytes'' Int_kind [At_least 1, At_most 8388608] (AInt 4194304)]"

definition tool_ssh_check :: tool where
  "tool_ssh_check = new_tool ''ssh_check'' ''Check preconfigured SSH target'' (Notes True False True True) True
       [required ''host'' Str_kind [Min_len 1, Max_len 253],
        nullable ''user'' Str_kind [],
        nullable ''port'' Int_kind [At_least 1, At_most 65535],
        defaulted ''connect_timeout_seconds'' Int_kind [At_least 1, At_most 30] (AInt 10)]"

definition tool_ssh_exec :: tool where
  "tool_ssh_exec = new_tool ''ssh_exec'' ''Run command through strict OpenSSH'' (Notes False True False True) True
       [required ''host'' Str_kind [Min_len 1, Max_len 253],
        required ''command'' Str_kind [Min_len 1],
        nullable ''user'' Str_kind [],
        nullable ''port'' Int_kind [At_least 1, At_most 65535],
        defaulted ''connect_timeout_seconds'' Int_kind [At_least 1, At_most 30] (AInt 10),
        nullable ''timeout_ms'' Int_kind []]"

definition tool_ssh_upload :: tool where
  "tool_ssh_upload = new_tool ''ssh_upload'' ''Upload allowed local file over strict SCP'' (Notes False True False True) True
       [required ''host'' Str_kind [Min_len 1, Max_len 253],
        required ''local_path'' Str_kind [],
        required ''remote_path'' Str_kind [],
        nullable ''user'' Str_kind [],
        nullable ''port'' Int_kind [At_least 1, At_most 65535],
        defaulted ''connect_timeout_seconds'' Int_kind [At_least 1, At_most 30] (AInt 10),
        defaulted ''timeout_ms'' Int_kind [At_least 1000, At_most 3600000] (AInt 300000),
        defaulted ''overwrite'' Bool_kind [] (ABool False)]"

definition tool_ssh_download :: tool where
  "tool_ssh_download = new_tool ''ssh_download'' ''Download remote file over strict SCP'' (Notes False True False True) True
       [required ''host'' Str_kind [Min_len 1, Max_len 253],
        required ''remote_path'' Str_kind [],
        required ''local_path'' Str_kind [],
        nullable ''user'' Str_kind [],
        nullable ''port'' Int_kind [At_least 1, At_most 65535],
        defaulted ''connect_timeout_seconds'' Int_kind [At_least 1, At_most 30] (AInt 10),
        defaulted ''timeout_ms'' Int_kind [At_least 1000, At_most 3600000] (AInt 300000),
        defaulted ''overwrite'' Bool_kind [] (ABool False),
        defaulted ''mode'' Int_kind [At_least 0, At_most 511] (AInt 420)]"

definition tool_process_list :: tool where
  "tool_process_list = new_tool ''process_list'' ''List Linux processes'' (Notes True False True False) True
       [defaulted ''limit'' Int_kind [At_least 1, At_most 500] (AInt 100)]"

definition tool_process_info :: tool where
  "tool_process_info = new_tool ''process_info'' ''Inspect Linux process'' (Notes True False True False) True
       [required ''pid'' Int_kind [Above 0]]"

definition tool_process_signal :: tool where
  "tool_process_signal = new_tool ''process_signal'' ''Signal exact Linux process'' (Notes False True False False) True
       [required ''pid'' Int_kind [Above 0],
        required ''expected_start_ticks'' Int_kind [At_least 0],
        required ''signal_name'' (Choice [''INT'', ''HUP'', ''TERM'', ''KILL'', ''STOP'', ''CONT'', ''SIGINT'', ''SIGHUP'', ''SIGTERM'', ''SIGKILL'', ''SIGSTOP'', ''SIGCONT'']) []]"

definition tool_service_status :: tool where
  "tool_service_status = new_tool ''service_status'' ''Inspect systemd service'' (Notes True False True False) True
       [required ''service'' Str_kind [Min_len 1, Max_len 200]]"

definition tool_service_action :: tool where
  "tool_service_action = new_tool ''service_action'' ''Start stop or restart systemd service'' (Notes False True False False) True
       [required ''service'' Str_kind [Min_len 1, Max_len 200],
        required ''action'' (Choice [''start'', ''stop'', ''restart'']) []]"

definition tool_system_info :: tool where
  "tool_system_info = new_tool ''system_info'' ''Inspect Linux system resources'' (Notes True False True False) True
       []"

subsection \<open>The tools of \<open>agent_surface.py\<close>\<close>

definition tool_host_capabilities :: tool where
  "tool_host_capabilities = new_tool ''host_capabilities'' ''Inspect host capabilities for Agent planning'' (Notes True False True False) True
       []"

definition tool_wait_condition :: tool where
  "tool_wait_condition = new_tool ''wait_condition'' ''Wait for bounded host condition'' (Notes True False True False) True
       [required ''condition'' (Choice [''file_exists'', ''file_not_exists'', ''file_size_at_least'', ''process_exit'', ''job_terminal'', ''port_open'', ''log_contains'']) [],
        nullable ''path'' Str_kind [],
        nullable ''pid'' Int_kind [Above 0],
        nullable ''expected_start_ticks'' Int_kind [At_least 0],
        nullable ''size_bytes'' Int_kind [At_least 0],
        nullable ''job_id'' Str_kind [],
        nullable ''host'' (Choice [''127.0.0.1'', ''localhost'', ''::1'']) [],
        nullable ''port'' Int_kind [At_least 1, At_most 65535],
        nullable ''pattern'' Str_kind [],
        defaulted ''timeout_ms'' Int_kind [At_least 0, At_most 90000] (AInt 30000),
        defaulted ''poll_ms'' Int_kind [At_least 100, At_most 5000] (AInt 500),
        defaulted ''log_tail_bytes'' Int_kind [At_least 256, At_most 1048576] (AInt 65536)]"

definition tool_artifact_info :: tool where
  "tool_artifact_info = new_tool ''artifact_info'' ''Inspect artifact metadata'' (Notes True False True False) True
       [required ''path'' Str_kind [],
        defaulted ''include_sha256'' Bool_kind [] (ABool True)]"

definition tool_artifact_preview :: tool where
  "tool_artifact_preview = new_tool ''artifact_preview'' ''Preview small text artifact'' (Notes True False True False) True
       [required ''path'' Str_kind [],
        defaulted ''max_bytes'' Int_kind [At_least 256, At_most 131072] (AInt 65536)]"

definition tool_artifact_bundle :: tool where
  "tool_artifact_bundle = new_tool ''artifact_bundle'' ''Bundle artifacts into no-clobber ZIP'' (Notes False False False False) True
       [required ''paths'' Strs_kind [Min_len 1, Max_len 20],
        required ''destination'' Str_kind [],
        defaulted ''max_entries'' Int_kind [At_least 1, At_most 5000] (AInt 500),
        defaulted ''max_total_bytes'' Int_kind [At_least 1, At_most 109951162777] (AInt 536870912)]"

definition tool_exec_argv :: tool where
  "tool_exec_argv = new_tool ''exec_argv'' ''Execute argv without a shell'' (Notes False True False True) True
       [required ''argv'' Strs_kind [Min_len 1, Max_len 64],
        nullable ''cwd'' Str_kind [],
        nullable ''timeout_ms'' Int_kind [],
        nullable ''stdin_text'' Str_kind [],
        defaulted ''env_allowlist'' Strs_kind [Max_len 32] (AStrs [])]"

definition tool_snapshot_create :: tool where
  "tool_snapshot_create = new_tool ''snapshot_create'' ''Create scoped rollback snapshot'' (Notes False False False False) True
       [required ''paths'' Strs_kind [Min_len 1, Max_len 20],
        nullable ''label'' Str_kind [],
        defaulted ''max_total_bytes'' Int_kind [At_least 1, At_most 109951162777] (AInt 536870912),
        defaulted ''max_nodes'' Int_kind [At_least 1, At_most 20000] (AInt 5000)]"

definition tool_snapshot_list :: tool where
  "tool_snapshot_list = new_tool ''snapshot_list'' ''List rollback snapshots'' (Notes True False True False) True
       []"

definition tool_snapshot_restore :: tool where
  "tool_snapshot_restore = new_tool ''snapshot_restore'' ''Restore scoped rollback snapshot'' (Notes False True False False) True
       [required ''snapshot_id'' Str_kind [Min_len 32, Max_len 32, Hex_32]]"

definition tool_snapshot_delete :: tool where
  "tool_snapshot_delete = new_tool ''snapshot_delete'' ''Delete rollback snapshot'' (Notes False True True False) True
       [required ''snapshot_id'' Str_kind [Min_len 32, Max_len 32, Hex_32]]"

definition tool_lease_acquire :: tool where
  "tool_lease_acquire = new_tool ''lease_acquire'' ''Acquire coordination lease'' (Notes False False False False) True
       [required ''resource'' Str_kind [Min_len 1, Max_len 256],
        nullable ''holder'' Str_kind [],
        defaulted ''ttl_seconds'' Int_kind [At_least 5, At_most 86400] (AInt 900)]"

definition tool_lease_status :: tool where
  "tool_lease_status = new_tool ''lease_status'' ''Inspect coordination lease'' (Notes True False True False) True
       [required ''resource'' Str_kind [Min_len 1, Max_len 256]]"

definition tool_lease_list :: tool where
  "tool_lease_list = new_tool ''lease_list'' ''List active coordination leases'' (Notes True False True False) True
       []"

definition tool_lease_release :: tool where
  "tool_lease_release = new_tool ''lease_release'' ''Release coordination lease'' (Notes False False True False) True
       [required ''lease_id'' Str_kind [Min_len 32, Max_len 32, Hex_32]]"

definition tool_inspect_paths :: tool where
  "tool_inspect_paths = new_tool ''inspect_paths'' ''Inspect several allowed paths in one bounded call'' (Notes True False True False) True
       [required ''paths'' Strs_kind [Min_len 1, Max_len 20],
        defaulted ''include_sha256'' Bool_kind [] (ABool False),
        defaulted ''max_text_bytes'' Int_kind [At_least 0, At_most 16384] (AInt 4096),
        defaulted ''hash_max_bytes'' Int_kind [At_least 0, At_most 1073741824] (AInt 67108864)]"

definition tool_file_diff :: tool where
  "tool_file_diff = new_tool ''file_diff'' ''Diff current text file against proposed text'' (Notes True False True False) True
       [required ''path'' Str_kind [],
        required ''proposed_text'' Str_kind [],
        defaulted ''max_file_bytes'' Int_kind [At_least 1, At_most 4194304] (AInt 1048576),
        defaulted ''max_diff_bytes'' Int_kind [At_least 1024, At_most 262144] (AInt 65536)]"

definition tool_apply_patch :: tool where
  "tool_apply_patch = new_tool ''apply_patch'' ''Apply structured line patch with SHA guard'' (Notes False True False False) True
       [required ''path'' Str_kind [],
        required ''expected_sha256'' Str_kind [Min_len 64, Max_len 64, Hex_64],
        required ''edits'' Edits_kind [Min_len 1, Max_len 100],
        defaulted ''mode'' Int_kind [At_least 0, At_most 511] (AInt 420),
        defaulted ''max_file_bytes'' Int_kind [At_least 1, At_most 4194304] (AInt 1048576)]"


subsection \<open>The surface\<close>

text \<open>In the order of registration: \<open>host_server.py\<close> builds on the server of \<open>server.py\<close> and calls \<open>register_agent_ops\<close> before it
  registers the tools for processes and services.\<close>

definition server_tools :: "tool list" where
  "server_tools =
     [tool_status, tool_list_directory, tool_path_info, tool_read_text_file, tool_read_file_chunk,
      tool_hash_file, tool_write_text_file, tool_make_directory, tool_move_path, tool_copy_path,
      tool_remove_path, tool_chmod_path, tool_upload_begin, tool_upload_chunk, tool_upload_status,
      tool_upload_finish, tool_upload_abort, tool_download_info, tool_download_chunk, tool_exec]"

definition host_tools :: "tool list" where
  "host_tools =
     [tool_job_run, tool_job_start, tool_job_status, tool_job_read, tool_job_cancel,
      tool_job_list, tool_job_cleanup, tool_terminal_open, tool_terminal_exec, tool_terminal_write,
      tool_terminal_read, tool_terminal_status, tool_terminal_screen, tool_terminal_resize, tool_terminal_signal,
      tool_terminal_list, tool_terminal_close, tool_file_artifact, tool_ssh_check, tool_ssh_exec,
      tool_ssh_upload, tool_ssh_download]"

definition agent_tools :: "tool list" where
  "agent_tools =
     [tool_host_capabilities, tool_wait_condition, tool_artifact_info, tool_artifact_preview, tool_artifact_bundle,
      tool_exec_argv, tool_snapshot_create, tool_snapshot_list, tool_snapshot_restore, tool_snapshot_delete,
      tool_lease_acquire, tool_lease_status, tool_lease_list, tool_lease_release, tool_inspect_paths,
      tool_file_diff, tool_apply_patch]"

definition system_tools :: "tool list" where
  "system_tools =
     [tool_process_list, tool_process_info, tool_process_signal, tool_service_status, tool_service_action,
      tool_system_info]"

definition all_tools :: "tool list" where
  "all_tools = server_tools @ host_tools @ agent_tools @ system_tools"

definition validated_tool_count :: nat where
  "validated_tool_count = 65"

definition consistent :: "tool \<Rightarrow> bool" where
  "consistent t \<longleftrightarrow>
     distinct (map pa_name (t_params t))
     \<and> (n_read_only (t_notes t) \<longrightarrow> \<not> n_destructive (t_notes t) \<and> n_idempotent (t_notes t))
     \<and> list_all (\<lambda>p. case pa_default p of None \<Rightarrow> True | Some v \<Rightarrow> admits p v) (t_params t)"

lemmas table_defs = new_tool_def required_def defaulted_def nullable_def

text \<open>The surface has as many tools as the installer's validator expects, each with a name of its own; no tool that is declared
  read-only is declared destructive or not idempotent, and the default of every parameter is a value its own schema admits.\<close>

theorem tool_surface_consistent:
  "length all_tools = validated_tool_count \<and> distinct (map t_name all_tools) \<and> list_all consistent all_tools"
  by code_simp

end
