(* ===== verification/Read_Only.thy ===== *)
theory Read_Only
  imports Tools File_Tree Artifacts Uploads
begin

text \<open>
  The tools for files of \<open>src/remote_host_mcp/server.py\<close>, \<open>host_server.py\<close> and \<open>agent_surface.py\<close> as calls of the modelled
  operations, and what the declaration \<open>read_only_hint\<close> of twelve of them is worth.
\<close>

subsection \<open>Calls\<close>

datatype file_call =
    List_directory "string option" int
  | Path_info string
  | Read_text_file string int int int
  | Read_file_chunk string int int
  | Hash_file string
  | Write_text_file string ustr bool "string option" int
  | Make_directory string bool bool int
  | Move_path string string bool
  | Copy_path string string bool bool
  | Remove_path string bool
  | Chmod_path string int
  | Download_info string bool
  | Download_chunk string int int
  | File_artifact string int
  | Artifact_info string bool
  | Artifact_preview string int
  | Inspect_paths "string list" bool int int
  | File_diff string ustr int int
  | Apply_patch string string "line_edit list" int int

fun tool_of :: "file_call \<Rightarrow> tool" where
  "tool_of (List_directory p n) = tool_list_directory"
| "tool_of (Path_info p) = tool_path_info"
| "tool_of (Read_text_file p s l b) = tool_read_text_file"
| "tool_of (Read_file_chunk p off b) = tool_read_file_chunk"
| "tool_of (Hash_file p) = tool_hash_file"
| "tool_of (Write_text_file p t ov sha m) = tool_write_text_file"
| "tool_of (Make_directory p ps ok m) = tool_make_directory"
| "tool_of (Move_path s d ov) = tool_move_path"
| "tool_of (Copy_path s d rec ov) = tool_copy_path"
| "tool_of (Remove_path p rec) = tool_remove_path"
| "tool_of (Chmod_path p m) = tool_chmod_path"
| "tool_of (Download_info p sha) = tool_download_info"
| "tool_of (Download_chunk p off b) = tool_download_chunk"
| "tool_of (File_artifact p b) = tool_file_artifact"
| "tool_of (Artifact_info p sha) = tool_artifact_info"
| "tool_of (Artifact_preview p b) = tool_artifact_preview"
| "tool_of (Inspect_paths ps sha t h) = tool_inspect_paths"
| "tool_of (File_diff p t f d) = tool_file_diff"
| "tool_of (Apply_patch p sha es m f) = tool_apply_patch"

datatype file_answer =
    Listing list_directory_result
  | Path_answer path_info_result
  | Text_answer read_text_file_result
  | Chunk_answer read_file_chunk_result
  | Hash_answer hash_file_result
  | Written file_write_result
  | Path_done path_action_result
  | Download_answer download_info_result
  | Artifact_answer artifact
  | Info_answer artifact_info_result
  | Preview_answer artifact_preview_result
  | Inspections "path_inspection list"
  | Diff_answer file_diff_result

text \<open>What the handlers take from the process and from the libraries.\<close>

record file_host =
  fh_settings :: settings
  fh_env :: path_env
  fh_kernel :: kernel
  fh_cwd :: ppath
  fh_depth :: nat
  fh_digits :: "nat \<Rightarrow> nat option"
  fh_sha256 :: "bytes \<Rightarrow> string"
  fh_guess :: "string \<Rightarrow> string option"
  fh_diff :: "ustr list \<Rightarrow> ustr list \<Rightarrow> string \<Rightarrow> string \<Rightarrow> ustr list"
  fh_message :: "exn \<Rightarrow> string"
  fh_token :: string

definition answer :: "('a \<Rightarrow> 'b) \<Rightarrow> 'a prog \<Rightarrow> 'b prog" where
  "answer c p = bind_prog p (\<lambda>x. ret (c x))"

fun call_file_tool :: "file_host \<Rightarrow> file_call \<Rightarrow> file_answer prog" where
  "call_file_tool h (List_directory p n) =
     answer Listing (list_directory (fh_settings h) (fh_env h) (fh_kernel h) (fh_cwd h) p n)"
| "call_file_tool h (Path_info p) = answer Path_answer (path_info (fh_settings h) (fh_env h) (fh_kernel h) p)"
| "call_file_tool h (Read_text_file p s l b) =
     answer Text_answer (read_text_file (fh_settings h) (fh_env h) (fh_kernel h) p s l b)"
| "call_file_tool h (Read_file_chunk p off b) =
     answer Chunk_answer (read_file_chunk (fh_settings h) (fh_env h) (fh_kernel h) p off b)"
| "call_file_tool h (Hash_file p) = answer Hash_answer (hash_file (fh_sha256 h) (fh_settings h) (fh_env h) (fh_kernel h) p)"
| "call_file_tool h (Write_text_file p t ov sha m) =
     answer Written (write_text_file (fh_digits h) (fh_sha256 h) (fh_settings h) (fh_env h) (fh_kernel h) (fh_token h) p t ov sha m)"
| "call_file_tool h (Make_directory p ps ok m) = answer Path_done (make_directory (fh_settings h) (fh_env h) p ps ok m)"
| "call_file_tool h (Move_path s d ov) =
     answer Path_done (move_path (fh_depth h) (fh_settings h) (fh_env h) (fh_kernel h) s d ov)"
| "call_file_tool h (Copy_path s d rec ov) =
     answer Path_done (copy_path (fh_depth h) (fh_settings h) (fh_env h) (fh_kernel h) (fh_token h) s d rec ov)"
| "call_file_tool h (Remove_path p rec) =
     answer Path_done (remove_path (fh_depth h) (fh_settings h) (fh_env h) (fh_kernel h) p rec)"
| "call_file_tool h (Chmod_path p m) = answer Path_done (chmod_path (fh_settings h) (fh_env h) (fh_kernel h) p m)"
| "call_file_tool h (Download_info p sha) =
     answer Download_answer (download_info (fh_sha256 h) (fh_settings h) (fh_env h) (fh_kernel h) p sha)"
| "call_file_tool h (Download_chunk p off b) =
     answer Chunk_answer (download_chunk (fh_settings h) (fh_env h) (fh_kernel h) p off b)"
| "call_file_tool h (File_artifact p b) =
     answer Artifact_answer (file_artifact (fh_guess h) (fh_sha256 h) (fh_settings h) (fh_env h) (fh_kernel h) p b)"
| "call_file_tool h (Artifact_info p sha) =
     answer Info_answer (artifact_info (fh_guess h) (fh_sha256 h) (fh_settings h) (fh_env h) (fh_kernel h) p sha)"
| "call_file_tool h (Artifact_preview p b) =
     answer Preview_answer (artifact_preview (fh_guess h) (fh_settings h) (fh_env h) (fh_kernel h) p b)"
| "call_file_tool h (Inspect_paths ps sha t hm) =
     answer Inspections (inspect_paths (fh_sha256 h) (fh_message h) (fh_settings h) (fh_env h) (fh_kernel h) ps sha t hm)"
| "call_file_tool h (File_diff p t f d) =
     answer Diff_answer (file_diff (fh_diff h) (fh_sha256 h) (fh_settings h) (fh_env h) (fh_kernel h) p t f d)"
| "call_file_tool h (Apply_patch p sha es m f) =
     answer Written (apply_line_patch (fh_digits h) (fh_sha256 h) (fh_settings h) (fh_env h) (fh_kernel h) (fh_token h) p sha es m f)"

subsection \<open>What the others did\<close>

definition meanwhile :: "fs \<Rightarrow> tick \<Rightarrow> fs" where
  "meanwhile f t = (case t of Meanwhile g \<Rightarrow> g f | Fault e \<Rightarrow> f)"

text \<open>The disk has only changed by what the other processes did during the calls that were made.\<close>

definition watched :: "world \<Rightarrow> world \<Rightarrow> bool" where
  "watched w w' \<longleftrightarrow> (\<exists>ts. schedule w = ts @ schedule w' \<and> disk w' = foldl meanwhile (disk w) ts)"

interpretation watched: reading watched
proof unfold_locales
  show "watched w w" for w by (auto simp: watched_def)
  show "watched u v \<Longrightarrow> watched v w \<Longrightarrow> watched u w" for u v w
    unfolding watched_def by (metis append.assoc foldl_append)
  show "schedule w = Meanwhile g # ts \<Longrightarrow> watched w \<lparr>disk = g (disk w), schedule = ts\<rparr>" for w g ts
    by (auto simp: watched_def meanwhile_def intro: exI [of _ "[Meanwhile g]"])
  show "schedule w = Fault e # ts \<Longrightarrow> watched w (w\<lparr>schedule := ts\<rparr>)" for w e ts
    by (auto simp: watched_def meanwhile_def intro: exI [of _ "[Fault e]"])
qed

context reading
begin

lemma answers: "obeys R p \<Longrightarrow> obeys R (answer c p)"
  unfolding answer_def by (intro bind) (auto intro: still)

lemma download_info: "obeys R (download_info sha st env k path include)"
  unfolding download_info_def by (auto intro!: steps split: prod.split)

lemma download_chunk: "obeys R (download_chunk st env k path offset mb)"
  unfolding download_chunk_def by (rule read_file_chunk)

lemmas reads = list_directory path_info read_text_file read_file_chunk hash_file download_info download_chunk file_artifact
  artifact_info artifact_preview inspect_paths file_diff

end

lemmas writing_defs = tool_write_text_file_def tool_make_directory_def tool_move_path_def tool_copy_path_def tool_remove_path_def
  tool_chmod_path_def tool_apply_patch_def

text \<open>C40. A tool for files that is declared read-only changes nothing: whatever the arguments, the other processes and the failing
  calls, and whether it answers or raises, the disk afterwards is the disk before with the changes that the other
  processes made while it ran, and no others.\<close>

theorem read_only_tools_keep_files:
  assumes "n_read_only (t_notes (tool_of c))" "call_file_tool h c w = (w', r)"
  shows "\<exists>ts. schedule w = ts @ schedule w' \<and> disk w' = foldl meanwhile (disk w) ts"
proof -
  have "obeys watched (call_file_tool h c)"
    using assms(1) by (cases c) (simp_all add: writing_defs table_defs watched.answers watched.reads)
  from obeysD [OF this assms(2)] show ?thesis by (simp only: watched_def)
qed

definition sample_host :: file_host where
  "sample_host =
     \<lparr>fh_settings = sample_settings, fh_env = plain_env, fh_kernel = plain_kernel, fh_cwd = (1, [''srv'']), fh_depth = 900,
      fh_digits = (\<lambda>c. if c \<in> {48..57} then Some (c - 48) else None), fh_sha256 = (\<lambda>d. ''d''), fh_guess = (\<lambda>n. None),
      fh_diff = (\<lambda>a b c d. []), fh_message = (\<lambda>e. ''error''), fh_token = ''t''\<rparr>"

theorem read_only_tools_keep_files_witness:
  "disk (fst (call_file_tool sample_host (Read_text_file ''/srv/link/log'' 2 1 256) \<lparr>disk = sample_disk ''ab\<newline>c'', schedule = []\<rparr>))
   = sample_disk ''ab\<newline>c''"
proof -
  have "n_read_only (t_notes (tool_of (Read_text_file ''/srv/link/log'' 2 1 256)))"
    by (simp add: tool_read_text_file_def table_defs)
  from read_only_tools_keep_files [where h = sample_host and w = "\<lparr>disk = sample_disk ''ab\<newline>c'', schedule = []\<rparr>",
      OF this prod.collapse [symmetric]]
  show ?thesis by simp
qed

subsection \<open>A declaration that does not hold\<close>

text \<open>\<open>upload_status\<close> is declared read-only as well, and is not: asked about an upload past its time, it unlinks the staging file
  and records the upload as expired.\<close>

theorem upload_status_expires:
  assumes "upload_open st env s um target staging parent fd" "openat2_refused k = None" "write_faults s = []"
    and "reg_content (disk (files s)) fd = Some c" "um_expires_at um < t"
  shows "\<exists>s' r. upload_status st env k (um_upload_id um) (s\<lparr>clock := t\<rparr>) = (s', Inr r)
    \<and> us_status r = ''expired'' \<and> us_bytes_received r = 0
    \<and> lookup_at (disk (files s')) parent (last staging) = None
    \<and> uploads s' (um_upload_id um) = Some (Some (um\<lparr>um_status := ''expired''\<rparr>))"
proof -
  let ?s = "s\<lparr>clock := t\<rparr>" and ?e = "um\<lparr>um_status := ''expired''\<rparr>"
  let ?w = "(files s)\<lparr>disk := drop_entry parent (last staging) (disk (files s))\<rparr>"
  have q: "schedule (files s) = []" "lookup_at (disk (files s)) parent (last staging) = Some fd" "upload_id_ok (um_upload_id um)"
    "uploads s (um_upload_id um) = Some (Some um)" "um_status um = ''open''"
    "parent_opens st env (disk (files s)) staging parent"
    using assms(1) unfolding upload_open_def by blast+
  have "validated_meta_paths st env k um s = (s, Inr (target, staging))" by (rule meta_paths_run [OF assms(1,2)])
  then have paths: "validated_meta_paths st env k ?e ?s = (?s, Inr (target, staging))"
    using assms(1) parent_opens_run [of st env "files s" _ _ k] assms(2)
    by (auto simp: validated_meta_paths_def validate_upload_id_def prog_defs upload_open_def on_files_def)
  obtain m where m: "inodes (disk (files s)) fd = Some m" "\<not> is_dir m"
    using assms(4) by (auto simp: reg_content_def is_dir_def split: option.splits node.splits)
  have "unlink_allowed st env k staging (files s) = (?w, Inr ())"
    using parent_opens_run [OF q(6) assms(2) q(1)] q(1,2) m
    by (simp add: unlink_allowed_def prog_defs do_call_def sys_unlink_def sys_lstat_def sys_fsync_def)
  then have unlink: "on_files (unlink_allowed st env k staging) ?s = (?s\<lparr>files := ?w\<rparr>, Inr ())" by (simp add: on_files_def)
  have "current_meta st env k (um_upload_id um) ?s
      = (?s\<lparr>files := ?w, uploads := (uploads s)(um_upload_id um \<mapsto> Some ?e)\<rparr>, Inr ?e)"
    using q(3-5) assms(3,5) paths unlink
    by (simp add: current_meta_def load_meta_def validate_upload_id_def expire_if_needed_def now_def write_meta_def Let_def prog_defs)
  then show ?thesis
    by (simp add: upload_status_def status_of_def prog_defs lookup_drop_entry)
qed

lemma upload_status_declared: "n_read_only (t_notes tool_upload_status)"
  by (simp add: tool_upload_status_def table_defs)

theorem upload_status_expires_witness:
  "\<exists>s' r. upload_status sample_settings plain_env plain_kernel sample_uid ((sample_xfer ''he'')\<lparr>clock := 1000\<rparr>) = (s', Inr r)
    \<and> us_status r = ''expired'' \<and> lookup_at (disk (files s')) 7 (part_name ''a'' sample_uid) = None"
  using upload_status_expires [OF sample_upload_open [of "''he''"], of plain_kernel "''he''" 1000] sample_content
  by (auto simp: plain_kernel_def sample_xfer_def sample_upload_def)

end
