(* ===== verification/Spec2Isabelle.thy ===== *)
theory Spec2Isabelle
  imports Prelude Py_Text Py_Int Osc133 Config Cursor Term_Session Term_Command Term_Steps Paths Term_Manager Env_Config Json Hub_Config Audit_Tail Report_Agent Report_Steps Exec Leases Posix Secure_Paths Base64 File_Ops File_Write File_Guard File_Tree Agent_Files Uploads Upload_Steps Proc_Stat Run_Relation Reading Jobs Job_Worker Job_Steps Job_Faults Job_Runs Job_Logs Job_Ids Job_Samples Wait_Condition Argv_Redact Processes Services Audit_Log Client_Context Audit_Event Audit_Call Ssh_Client Ssh_Transfer Ssh_Steps Publish Ssh_Download Ssh_Samples Product Auth Tasks Artifacts Snapshots Snapshot_Steps Snapshot_Roundtrip Snapshot_Samples Tools Read_Only
begin

text \<open>
  Remote Host MCP is a server through which a model works on one Linux host: it runs commands, keeps terminals and
  durable jobs, reads and changes files, moves files to and from the host, and records every call.  This library
  models the Python package \<open>src/src/remote_host_mcp\<close>; file names below are relative to it.

  \<^bold>\<open>The program.\<close>  \<open>app.py\<close> reads the settings (\<open>config.py\<close>, \<open>compat_env.py\<close>) and builds the server
  (\<open>host_server.py\<close> over \<open>server.py\<close> and \<open>agent_surface.py\<close>), which registers one handler per tool.  A request passes
  the bearer check (\<open>auth.py\<close>), the middleware that binds the caller (\<open>client_context.py\<close>) and the one that writes the
  audit log (\<open>audit.py\<close>), and reaches its tool:
  \<^item> commands that end within the request: \<open>executor.py\<close>, \<open>run_argv\<close> in \<open>agent_ops.py\<close>; on other hosts \<open>ssh_helpers.py\<close>;
  \<^item> terminals that persist: \<open>terminal.py\<close>, one reader thread and one monitor task per command;
  \<^item> jobs that outlive the server: \<open>jobs.py\<close> and the worker process \<open>job_worker.py\<close>, which share a directory of small
    files; \<open>tasks_extension.py\<close> shows them as MCP tasks;
  \<^item> files: \<open>filesystem.py\<close> over \<open>secure_paths.py\<close> and \<open>atomic_fs.py\<close>, transfers in \<open>transfer.py\<close>, agent tools in
    \<open>agent_ops.py\<close> and \<open>artifact_helpers.py\<close>;
  \<^item> the host: processes and services in \<open>system_helpers.py\<close>, bounded waits and leases in \<open>agent_ops.py\<close>.
  A separate process, \<open>report_agent.py\<close> with \<open>redact.py\<close> and \<open>hub_settings.py\<close>, follows the audit log and ships the
  records to a Hub.

  \<^bold>\<open>How code becomes definitions.\<close>  A function that may raise is a function into \<open>exn + 'a\<close> (\<open>Prelude\<close>).  One that
  talks to the operating system is a program \<open>'s \<Rightarrow> 's \<times> 'a res\<close> composed with the combinators of \<open>Posix\<close>
  (\<open>bind_prog\<close>, \<open>handle\<close>, \<open>finally_do\<close>, \<open>on_error\<close>), one step per system call.  The state carries a schedule: before
  each step another process may change anything (\<open>Meanwhile\<close>, \<open>Others\<close>), or the call fails (\<open>Fault\<close>, \<open>Failing\<close>).  Theorems
  without a hypothesis on the schedule therefore hold under every interleaving and every failure of a call.  Coroutines
  are cut at their awaits into segments; the interleavings of the segments of a terminal are inductive step relations
  (\<open>Term_Steps.term_step\<close>, \<open>Term_Manager.mgr_step\<close>), those of the reporting agent and the writer of its log are lists of
  events (\<open>Report_Steps.run_site\<close>).  What happens under \<open>flock\<close> is one step.  JSON files hold the values
  they parse to.

  \<^bold>\<open>Theories.\<close>
  \<^item> \<open>Prelude\<close>, \<open>Py_Text\<close>, \<open>Py_Int\<close>, \<open>Json\<close>, \<open>Base64\<close>: results and exceptions, \<open>str\<close> and UTF-8, \<open>int(s)\<close>, JSON values, Base64.
  \<^item> \<open>Config\<close>, \<open>Env_Config\<close>, \<open>Paths\<close>, \<open>Hub_Config\<close>: the settings record, its parser \<open>from_env\<close> with the two environment
    namespaces, the allowed roots, the Hub block.  Shown: parsed settings are within the documented bounds, and a resolved
    path lies below an allowed root.
  \<^item> \<open>Osc133\<close>, \<open>Cursor\<close>, \<open>Term_Session\<close>, \<open>Term_Command\<close>, \<open>Term_Steps\<close>, \<open>Term_Manager\<close>: terminals.  The record \<open>session\<close> is
    \<open>TerminalSession\<close>, \<open>pending_command\<close> lives in a store because four parties share it.  Shown: the invariant of commands under
    every interleaving, a completed command never changes, a marker completes its command with its code, the buffer is a
    bounded suffix of the output, a reader that follows the cursor misses nothing, the wrapper quotes any command, the
    session limit, redaction.
  \<^item> \<open>Exec\<close>: \<open>run_shell\<close> and \<open>run_argv\<close> with the output budget both drains share, and the environments they pass on.
  \<^item> \<open>Leases\<close>: the registry and its four operations; at most one holder.
  \<^item> \<open>Posix\<close>, \<open>Secure_Paths\<close>, \<open>File_Ops\<close>, \<open>File_Write\<close>, \<open>File_Guard\<close>, \<open>File_Tree\<close>, \<open>Publish\<close>, \<open>Agent_Files\<close>: inodes and system
    calls; \<open>open_beneath\<close> over the kernel's walk; every file tool; the guarded replacement as a compare-and-swap.  Shown:
    what is opened lies below the roots, a guarded commit loses no version unless the roll-back itself meets a
    third change, line patches equal a forward pass.
  \<^item> \<open>Uploads\<close>, \<open>Upload_Steps\<close>: resumable uploads and downloads; a chunk refines appending to a log, an upload followed to
    its end publishes the bytes the client sent.
  \<^item> \<open>Jobs\<close>, \<open>Job_Worker\<close>, \<open>Proc_Stat\<close>, \<open>Run_Relation\<close>, \<open>Job_Steps\<close>, \<open>Job_Runs\<close>, \<open>Job_Logs\<close>, \<open>Job_Ids\<close>, \<open>Job_Faults\<close>, \<open>Job_Samples\<close>:
    job directories, the process table and both clocks.  Shown: one key starts one job, a worker hands its command to a
    shell at most once, recovery and the other operations start nothing, results are consistent, logs can be followed.
  \<^item> \<open>Wait_Condition\<close>: seven probes and the loop; it returns for every schedule.
  \<^item> \<open>Argv_Redact\<close>, \<open>Processes\<close>, \<open>Services\<close>: command lines without secrets, signals to the process named, the vectors of
    \<open>systemctl\<close>.
  \<^item> \<open>Audit_Log\<close>, \<open>Client_Context\<close>, \<open>Audit_Event\<close>, \<open>Audit_Call\<close>: the writer with rotation, the caller, the event, the two
    middlewares around a handler.  Shown: auditing never changes the outcome of a call, a call is recorded, the log is a
    bounded tail of the records.
  \<^item> \<open>Audit_Tail\<close>, \<open>Report_Agent\<close>, \<open>Report_Steps\<close>: the reader of the audit log and the delivery to the Hub: nothing is lost,
    everything is delivered once the Hub answers, a cycle refines appending acknowledged events.
  \<^item> \<open>Ssh_Client\<close>, \<open>Ssh_Transfer\<close>, \<open>Ssh_Steps\<close>, \<open>Ssh_Download\<close>, \<open>Ssh_Samples\<close>: vectors, runs and transfers over OpenSSH; success
    means the digest was verified, nothing is replaced without \<open>overwrite\<close>.
  \<^item> \<open>Snapshots\<close>, \<open>Snapshot_Steps\<close>, \<open>Snapshot_Roundtrip\<close>, \<open>Snapshot_Samples\<close>: snapshots of files and directories in a private store; a
    failed one is never seen, and restoring puts the captured bytes back.
  \<^item> \<open>Tools\<close>, \<open>Reading\<close>, \<open>Read_Only\<close>: the 65 declarations of tools with their annotations and parameter schemas; the operations that
    only look at the disk; the handlers of the tools for files.  Shown: a tool for files that is declared read-only leaves the disk as the
    other processes make it, and \<open>upload_status\<close>, declared read-only too, unlinks the staging file of an upload past its time.
  \<^item> \<open>Auth\<close>, \<open>Tasks\<close>, \<open>Artifacts\<close>, \<open>Product\<close>: tokens, the Tasks surface over \<open>Jobs\<close>, inline files and bundles, provenance and texts.

  \<^bold>\<open>Interfaces.\<close>
  \<^item> \<open>Cursor.cursor_source\<close>: an offset-addressed byte source with the loop of its client; provided by the ring buffer of a
    terminal (\<open>term_window\<close>), by file chunks (\<open>file_chunks\<close>) and by job logs (\<open>job_log\<close>).
  \<^item> \<open>Exec.output_budget\<close>: the budget two drains share; provided by the three implementations of it (\<open>exec_budget\<close>,
    \<open>argv_budget\<close>, \<open>ssh_budget\<close>).
  \<^item> \<open>Run_Relation.run_preorder\<close>: what an operation keeps from its first to its last step, lifted from the calls to all programs;
    extended by \<open>Jobs.clocked_relation\<close>, \<open>Jobs.job_relation\<close> and \<open>Job_Runs.worker_relation\<close> to the accesses of jobs and workers, and
    interpreted for each relation the properties use (\<open>time\<close>, \<open>quiet\<close>, \<open>keys\<close>, \<open>spent\<close>, \<open>waiting\<close>, \<open>going\<close>, \<open>runs\<close>, \<open>fated\<close>, \<open>kept\<close>, \<open>part_kept\<close>,
    \<open>files_kept\<close>).
  \<^item> \<open>Reading.reading\<close>: a preorder that also holds across what the other processes do before a call, and so across every operation
    made of calls that look; provided by \<open>unmoved\<close> (a quiet host stays as it is) and \<open>watched\<close> (only the others change the disk).

  \<^bold>\<open>Parameters.\<close>  SHA-256 (\<open>sha\<close>), the Unicode tables of digits and case (\<open>ud\<close>, \<open>lo\<close>, \<open>up\<close>), \<open>urlparse\<close>, \<open>json.loads\<close> and
  \<open>json.dumps\<close>, \<open>difflib\<close>, \<open>mimetypes\<close>, \<open>zipfile\<close>, PyJWT (\<open>decode\<close>), \<open>ipaddress\<close>, \<open>shutil.which\<close>, random identifiers, clocks, the
  answers of the Hub, the remote host behind \<open>ssh\<close> (\<open>net\<close>), the output and exit of child processes.  A theorem that
  relies on one of them states what in its hypotheses; witnesses instantiate them with concrete functions.

  \<^bold>\<open>Bounds and fuel.\<close>  The recursive tree operations take the recursion depth that is left (\<open>depth\<close>) and raise
  \<open>RecursionError\<close> when it is used up, as Python does.  A client that follows a cursor needs one unit of fuel per call
  and at most one call per byte (\<open>follow_complete\<close>, \<open>upload_roundtrip\<close>).  The loops that wait on a clock recurse on the time
  that is left; \<open>wait_condition_returns\<close> bounds it.  A list of observations (reads of a pipe, events of a schedule) is consumed
  structurally.  One \<open>write\<close> transfers at most \<open>write_cap\<close> bytes, so short writes are part of the model.

  \<^bold>\<open>Not modelled.\<close>
  \<^item> The MCP SDK: how it checks arguments against the schemas of \<open>Tools\<close> and turns answers into JSON; the descriptions of tools and
    parameters.  The handlers outside \<open>Read_Only\<close> are one call of a modelled operation each.
  \<^item> \<open>app.py\<close>, \<open>main.py\<close>, \<open>mature_server.py\<close>, \<open>doctor.py\<close> and the package \<open>dsw_direct_mcp\<close>: start-up, printing and import shims.
  \<^item> \<open>host_capabilities\<close>, \<open>system_info\<close>, \<open>status\<close>, \<open>/health\<close>: they collect values of the platform and decide nothing.
  \<^item> HTTP (the transport of the server and the requests of \<open>HubClient\<close>), the rendering of a terminal screen (\<open>pyte\<close>, of which the
    calls are logged), log messages, the umask (but in \<open>Snapshots\<close>, where nothing corrects it), file locks other than as atomicity,
    descriptors that are closed, and threads of the worker other than as interleavings of its accesses.
\<close>

end
